(* ===== verification/Oemu_Prelude.thy ===== *)
theory Oemu_Prelude
  imports Main "HOL-Library.Word" "HOL-Library.Monad_Syntax"
begin

text \<open>
  The vocabulary every other theory of the development shares: the machine integers of the C
  code as words, the library-wide status codes (\<^verbatim>\<open>include/oemu/status.h\<close>), the outcome of a
  call that may trip a contract check (\<^verbatim>\<open>include/oemu/check.h\<close>), and the generic lemmas on
  words, bit fields and lists that the component proofs rest on.
\<close>

unbundle bit_operations_syntax

section \<open>Machine integers\<close>

type_synonym u8 = "8 word"
type_synonym u16 = "16 word"
type_synonym u32 = "32 word"
type_synonym u64 = "64 word"

text \<open>
  A signed C value of type \<^verbatim>\<open>int64_t\<close> is kept as the 64-bit pattern the code moves around; where
  the code reads it as a number, the model reads it with \<^term>\<open>sint\<close>.
\<close>

type_synonym i64 = "64 word"

section \<open>Status codes\<close>

datatype oemu_status =
    OEMU_OK
  | OEMU_ERR_INVALID_ARG
  | OEMU_ERR_NO_MEMORY
  | OEMU_ERR_OVERFLOW
  | OEMU_ERR_RANGE
  | OEMU_ERR_DECODE
  | OEMU_ERR_UNSUPPORTED
  | OEMU_ERR_FAULT
  | OEMU_ERR_TIMEOUT
  | OEMU_ERR_BLOCKED
  | OEMU_ERR_STATE
  | OEMU_ERR_FORMAT
  | OEMU_ERR_NOT_FOUND
  | OEMU_ERR_FULL

text \<open>
  \<^verbatim>\<open>OEMU_REQUIRE\<close> aborts the process when its condition is false. A function that can trip it
  returns an option: \<^const>\<open>None\<close> is the abort, so a theorem that such a call returns
  \<^const>\<open>Some\<close> says that no contract check fires.
\<close>

definition OEMU_REQUIRE :: "bool \<Rightarrow> unit option" where
  "OEMU_REQUIRE b = (if b then Some () else None)"

lemma OEMU_REQUIRE_True [simp]: "OEMU_REQUIRE True = Some ()"
  by (simp add: OEMU_REQUIRE_def)

lemma OEMU_REQUIRE_False [simp]: "OEMU_REQUIRE False = None"
  by (simp add: OEMU_REQUIRE_def)

lemma OEMU_REQUIRE_eq_Some [simp]: "OEMU_REQUIRE b = Some u \<longleftrightarrow> b"
  by (simp add: OEMU_REQUIRE_def)

section \<open>Collections of rewrite rules\<close>

named_theorems decode_eval \<open>definitions that evaluate the decoder on a literal word\<close>
named_theorems sample_eval \<open>definitions of the sample machines the witnesses evaluate\<close>

section \<open>Words\<close>

lemma uint_and_mask_le: "uint (x AND y) \<le> uint (y :: 'a::len word)"
  by (metis word_and_le1 word_le_def)

lemma unat_and_le2: "unat (x AND y) \<le> unat (y :: 'a::len word)"
  by (metis word_and_le1 word_le_nat_alt)

text \<open>A single bit tested with a mask is the comparison with its weight, once the value is below
  the next power of two.\<close>

lemma and_push_bit_ne_0_iff:
  "(x AND push_bit n 1 \<noteq> 0) = bit (x :: 'a::len word) n"
proof
  assume "x AND push_bit n 1 \<noteq> 0"
  then obtain k where "bit (x AND push_bit n 1) k"
    using bit_eqI [of "x AND push_bit n 1" 0] by auto
  then show "bit x n"
    by (auto simp: bit_simps)
next
  assume n: "bit x n"
  then have "bit (x AND push_bit n 1) n"
    using bit_imp_le_length [OF n] by (auto simp: bit_simps)
  then show "x AND push_bit n 1 \<noteq> 0" by auto
qed

lemma bit_uint_top_iff:
  assumes "uint (x :: 'a::len word) < 2 * 2 ^ n"
  shows "bit x n \<longleftrightarrow> 2 ^ n \<le> uint x"
proof -
  have "bit x n \<longleftrightarrow> odd (uint x div 2 ^ n)"
    using bit_uint_iff [of x n] bit_imp_le_length [of x n] by (auto simp: bit_iff_odd [of "uint x"])
  moreover have "uint x div 2 ^ n = (if 2 ^ n \<le> uint x then 1 else 0)"
  proof (cases "2 ^ n \<le> uint x")
    case True
    moreover have "uint x div 2 ^ n = 1 + (uint x - 2 ^ n) div 2 ^ n"
      using True by (simp add: div_pos_geq)
    moreover have "(uint x - 2 ^ n) div 2 ^ n = 0"
      using assms True by (simp add: div_pos_pos_trivial)
    ultimately show ?thesis by simp
  next
    case False
    then show ?thesis by (simp add: div_pos_pos_trivial)
  qed
  ultimately show ?thesis by simp
qed

lemma uint_drop_bit: "uint (drop_bit n (w :: 'a::len word)) = uint w div 2 ^ n"
  using uint_bounded [of w]
  by (simp only: unsigned_drop_bit_eq) (simp add: drop_bit_eq_div take_bit_int_eq_self)

end
