(* ===== verification/Oemu_Regs.thy ===== *)
theory Oemu_Regs
  imports Oemu_Prelude
begin

text \<open>
  The architectural register file (\<^verbatim>\<open>include/oemu/regs.h\<close>, \<^verbatim>\<open>src/regs/regs.c\<close>): the registers as
  a record, the two accessor families for register number 31, the condition table and the
  AddWithCarry primitive. The lemmas show that the accessors keep the invariant, that a read
  returns what was written, that AddWithCarry computes the architecture's sum and flags, and that
  a flag-setting subtraction followed by a condition decides the comparison it is named after.
\<close>

section \<open>Types\<close>

datatype oemu_reg_width = OEMU_REG_W32 | OEMU_REG_W64

datatype oemu_cond =
    OEMU_COND_EQ | OEMU_COND_NE | OEMU_COND_CS | OEMU_COND_CC
  | OEMU_COND_MI | OEMU_COND_PL | OEMU_COND_VS | OEMU_COND_VC
  | OEMU_COND_HI | OEMU_COND_LS | OEMU_COND_GE | OEMU_COND_LT
  | OEMU_COND_GT | OEMU_COND_LE | OEMU_COND_AL | OEMU_COND_NV

text \<open>The value the C enumeration gives each condition: its 4-bit encoding.\<close>

fun cond_enc :: "oemu_cond \<Rightarrow> u32" where
  "cond_enc OEMU_COND_EQ = 0x0" | "cond_enc OEMU_COND_NE = 0x1"
| "cond_enc OEMU_COND_CS = 0x2" | "cond_enc OEMU_COND_CC = 0x3"
| "cond_enc OEMU_COND_MI = 0x4" | "cond_enc OEMU_COND_PL = 0x5"
| "cond_enc OEMU_COND_VS = 0x6" | "cond_enc OEMU_COND_VC = 0x7"
| "cond_enc OEMU_COND_HI = 0x8" | "cond_enc OEMU_COND_LS = 0x9"
| "cond_enc OEMU_COND_GE = 0xA" | "cond_enc OEMU_COND_LT = 0xB"
| "cond_enc OEMU_COND_GT = 0xC" | "cond_enc OEMU_COND_LE = 0xD"
| "cond_enc OEMU_COND_AL = 0xE" | "cond_enc OEMU_COND_NV = 0xF"

abbreviation (input) OEMU_REG_COUNT :: nat where "OEMU_REG_COUNT \<equiv> 31"
abbreviation (input) OEMU_REG_ZR :: nat where "OEMU_REG_ZR \<equiv> 31"
abbreviation (input) OEMU_INSN_SIZE :: u64 where "OEMU_INSN_SIZE \<equiv> 4"

abbreviation (input) OEMU_NZCV_N :: u32 where "OEMU_NZCV_N \<equiv> 0x80000000"
abbreviation (input) OEMU_NZCV_Z :: u32 where "OEMU_NZCV_Z \<equiv> 0x40000000"
abbreviation (input) OEMU_NZCV_C :: u32 where "OEMU_NZCV_C \<equiv> 0x20000000"
abbreviation (input) OEMU_NZCV_V :: u32 where "OEMU_NZCV_V \<equiv> 0x10000000"

definition OEMU_NZCV_MASK :: u32 where
  "OEMU_NZCV_MASK = OEMU_NZCV_N OR OEMU_NZCV_Z OR OEMU_NZCV_C OR OEMU_NZCV_V"

record oemu_regs =
  r_x :: "u64 list"
  r_sp :: u64
  r_pc :: u64
  r_nzcv :: u32

record oemu_alu_result =
  alu_value :: u64
  alu_nzcv :: u32

section \<open>Pure helpers\<close>

definition oemu_regs_internal_truncate :: "u64 \<Rightarrow> oemu_reg_width \<Rightarrow> u64" where
  "oemu_regs_internal_truncate value width =
     (if width = OEMU_REG_W32 then value AND 0xFFFFFFFF else value)"

definition oemu_regs_internal_cond_holds :: "u32 \<Rightarrow> oemu_cond \<Rightarrow> bool" where
  "oemu_regs_internal_cond_holds nzcv cond =
     (let n = (nzcv AND OEMU_NZCV_N \<noteq> 0);
          z = (nzcv AND OEMU_NZCV_Z \<noteq> 0);
          c = (nzcv AND OEMU_NZCV_C \<noteq> 0);
          v = (nzcv AND OEMU_NZCV_V \<noteq> 0);
          encoding = cond_enc cond AND 0xF;
          sel = drop_bit 1 encoding AND 0x7;
          result =
            (if sel = 0x0 then z
             else if sel = 0x1 then c
             else if sel = 0x2 then n
             else if sel = 0x3 then v
             else if sel = 0x4 then c \<and> \<not> z
             else if sel = 0x5 then n = v
             else if sel = 0x6 then n = v \<and> \<not> z
             else True)
      in if encoding AND 0x1 \<noteq> 0 \<and> encoding \<noteq> 0xF then \<not> result else result)"

definition oemu_regs_internal_add_with_carry ::
  "u64 \<Rightarrow> u64 \<Rightarrow> bool \<Rightarrow> oemu_reg_width \<Rightarrow> oemu_alu_result" where
  "oemu_regs_internal_add_with_carry x y carry_in width =
     (let carry = (if carry_in then 1 else 0 :: u64);
          xa = oemu_regs_internal_truncate x width;
          ya = oemu_regs_internal_truncate y width;
          sign = (if width = OEMU_REG_W32 then 0x80000000 else 0x8000000000000000 :: u64);
          sum = oemu_regs_internal_truncate (xa + ya + carry) width;
          carry_out =
            (if width = OEMU_REG_W32 then drop_bit 32 (xa + ya + carry) \<noteq> 0
             else let partial = xa + ya
                  in partial < xa \<or> (carry_in \<and> partial = 0xFFFFFFFFFFFFFFFF));
          x_neg = (xa AND sign \<noteq> 0);
          y_neg = (ya AND sign \<noteq> 0);
          sum_neg = (sum AND sign \<noteq> 0);
          flags = (if sum_neg then OEMU_NZCV_N else 0)
                  OR (if sum = 0 then OEMU_NZCV_Z else 0)
                  OR (if carry_out then OEMU_NZCV_C else 0)
                  OR (if x_neg = y_neg \<and> sum_neg \<noteq> x_neg then OEMU_NZCV_V else 0)
      in \<lparr>alu_value = sum, alu_nzcv = flags\<rparr>)"

section \<open>Operations\<close>

definition oemu_regs_init :: "u64 \<Rightarrow> u64 \<Rightarrow> oemu_regs" where
  "oemu_regs_init entry_pc initial_sp =
     \<lparr>r_x = replicate OEMU_REG_COUNT 0, r_sp = initial_sp, r_pc = entry_pc, r_nzcv = 0\<rparr>"

definition oemu_regs_read :: "oemu_regs \<Rightarrow> nat \<Rightarrow> oemu_reg_width \<Rightarrow> u64 option" where
  "oemu_regs_read regs n width = do {
     OEMU_REQUIRE (n \<le> OEMU_REG_ZR);
     if n = OEMU_REG_ZR then Some 0
     else Some (oemu_regs_internal_truncate (r_x regs ! n) width)
   }"

definition oemu_regs_write ::
  "oemu_regs \<Rightarrow> nat \<Rightarrow> oemu_reg_width \<Rightarrow> u64 \<Rightarrow> oemu_regs option" where
  "oemu_regs_write regs n width value = do {
     OEMU_REQUIRE (n \<le> OEMU_REG_ZR);
     if n = OEMU_REG_ZR then Some regs
     else Some (regs\<lparr>r_x := (r_x regs)[n := oemu_regs_internal_truncate value width]\<rparr>)
   }"

definition oemu_regs_read_sp_form :: "oemu_regs \<Rightarrow> nat \<Rightarrow> oemu_reg_width \<Rightarrow> u64 option" where
  "oemu_regs_read_sp_form regs n width = do {
     OEMU_REQUIRE (n \<le> OEMU_REG_ZR);
     let value = (if n = OEMU_REG_ZR then r_sp regs else r_x regs ! n);
     Some (oemu_regs_internal_truncate value width)
   }"

definition oemu_regs_write_sp_form ::
  "oemu_regs \<Rightarrow> nat \<Rightarrow> oemu_reg_width \<Rightarrow> u64 \<Rightarrow> oemu_regs option" where
  "oemu_regs_write_sp_form regs n width value = do {
     OEMU_REQUIRE (n \<le> OEMU_REG_ZR);
     let narrowed = oemu_regs_internal_truncate value width;
     if n = OEMU_REG_ZR then Some (regs\<lparr>r_sp := narrowed\<rparr>)
     else Some (regs\<lparr>r_x := (r_x regs)[n := narrowed]\<rparr>)
   }"

definition oemu_regs_sp :: "oemu_regs \<Rightarrow> u64" where
  "oemu_regs_sp regs = r_sp regs"

definition oemu_regs_set_sp :: "oemu_regs \<Rightarrow> u64 \<Rightarrow> oemu_regs" where
  "oemu_regs_set_sp regs value = regs\<lparr>r_sp := value\<rparr>"

definition oemu_regs_pc :: "oemu_regs \<Rightarrow> u64" where
  "oemu_regs_pc regs = r_pc regs"

definition oemu_regs_set_pc :: "oemu_regs \<Rightarrow> u64 \<Rightarrow> oemu_regs" where
  "oemu_regs_set_pc regs value = regs\<lparr>r_pc := value\<rparr>"

definition oemu_regs_advance_pc :: "oemu_regs \<Rightarrow> oemu_regs" where
  "oemu_regs_advance_pc regs = regs\<lparr>r_pc := r_pc regs + OEMU_INSN_SIZE\<rparr>"

definition oemu_regs_branch_rel :: "oemu_regs \<Rightarrow> i64 \<Rightarrow> oemu_regs" where
  "oemu_regs_branch_rel regs byte_offset = regs\<lparr>r_pc := r_pc regs + byte_offset\<rparr>"

definition oemu_regs_nzcv :: "oemu_regs \<Rightarrow> u32" where
  "oemu_regs_nzcv regs = r_nzcv regs"

definition oemu_regs_set_nzcv :: "oemu_regs \<Rightarrow> u32 \<Rightarrow> oemu_regs" where
  "oemu_regs_set_nzcv regs nzcv = regs\<lparr>r_nzcv := nzcv AND OEMU_NZCV_MASK\<rparr>"

definition oemu_regs_cond_holds :: "oemu_regs \<Rightarrow> oemu_cond \<Rightarrow> bool" where
  "oemu_regs_cond_holds regs cond = oemu_regs_internal_cond_holds (r_nzcv regs) cond"

definition oemu_regs_add_with_carry ::
  "u64 \<Rightarrow> u64 \<Rightarrow> bool \<Rightarrow> oemu_reg_width \<Rightarrow> oemu_alu_result" where
  "oemu_regs_add_with_carry x y carry_in width = oemu_regs_internal_add_with_carry x y carry_in width"

section \<open>The invariant and the accessors\<close>

text \<open>Thirty-one general registers, and no bit stored in NZCV outside its four flags.\<close>

definition regs_inv :: "oemu_regs \<Rightarrow> bool" where
  "regs_inv regs \<longleftrightarrow> length (r_x regs) = OEMU_REG_COUNT \<and> r_nzcv regs AND NOT OEMU_NZCV_MASK = 0"

definition reg_bits :: "oemu_reg_width \<Rightarrow> nat" where
  "reg_bits w = (if w = OEMU_REG_W32 then 32 else 64)"

lemma reg_bits_simps [simp]: "reg_bits OEMU_REG_W32 = 32" "reg_bits OEMU_REG_W64 = 64"
  by (simp_all add: reg_bits_def)

lemma mask32_eq: "(0xFFFFFFFF :: u64) = mask 32"
  by (simp add: mask_eq_exp_minus_1)

lemma truncate_take_bit: "oemu_regs_internal_truncate v w = take_bit (reg_bits w) v"
  by (cases w) (auto simp: oemu_regs_internal_truncate_def mask32_eq bit_simps
      intro!: bit_word_eqI)

lemma truncate_idem [simp]:
  "oemu_regs_internal_truncate (oemu_regs_internal_truncate v w) w =
   oemu_regs_internal_truncate v w"
  by (simp add: truncate_take_bit)

lemma truncate_W64 [simp]: "oemu_regs_internal_truncate v OEMU_REG_W64 = v"
  by (simp add: oemu_regs_internal_truncate_def)

lemma uint_truncate: "uint (oemu_regs_internal_truncate v w) = uint v mod 2 ^ reg_bits w"
  by (simp add: truncate_take_bit unsigned_take_bit_eq flip: take_bit_eq_mod)

lemma regs_inv_init [simp]: "regs_inv (oemu_regs_init p s)"
  by (simp add: regs_inv_def oemu_regs_init_def)

lemma regs_inv_write [intro]:
  "regs_inv r \<Longrightarrow> oemu_regs_write r n w v = Some r' \<Longrightarrow> regs_inv r'"
  by (auto simp: oemu_regs_write_def regs_inv_def OEMU_REQUIRE_def split: if_splits)

lemma regs_inv_write_sp_form [intro]:
  "regs_inv r \<Longrightarrow> oemu_regs_write_sp_form r n w v = Some r' \<Longrightarrow> regs_inv r'"
  by (auto simp: oemu_regs_write_sp_form_def regs_inv_def OEMU_REQUIRE_def Let_def split: if_splits)

lemma regs_inv_set [simp]:
  "regs_inv (oemu_regs_set_sp r v) = regs_inv r"
  "regs_inv (oemu_regs_set_pc r v) = regs_inv r"
  "regs_inv (oemu_regs_advance_pc r) = regs_inv r"
  "regs_inv (oemu_regs_branch_rel r v) = regs_inv r"
  by (simp_all add: regs_inv_def oemu_regs_set_sp_def oemu_regs_set_pc_def
      oemu_regs_advance_pc_def oemu_regs_branch_rel_def)

lemma nzcv_mask_canonical: "(v AND OEMU_NZCV_MASK) AND NOT OEMU_NZCV_MASK = 0"
  by (simp add: and.assoc)

lemma regs_inv_set_nzcv [simp]: "regs_inv r \<Longrightarrow> regs_inv (oemu_regs_set_nzcv r v)"
  by (simp add: regs_inv_def oemu_regs_set_nzcv_def nzcv_mask_canonical)

lemma regs_read_defined [simp]:
  "(oemu_regs_read r n w = None) = (31 < n)"
  "(oemu_regs_read_sp_form r n w = None) = (31 < n)"
  "(oemu_regs_write r n w v = None) = (31 < n)"
  "(oemu_regs_write_sp_form r n w v = None) = (31 < n)"
  by (auto simp: oemu_regs_read_def oemu_regs_write_def oemu_regs_read_sp_form_def
      oemu_regs_write_sp_form_def OEMU_REQUIRE_def Let_def)

section \<open>AddWithCarry\<close>

text \<open>
  The architecture's definition, on integers: the unsigned and the signed sum at width \<open>w\<close>, the
  result their common residue, carry and overflow the two ways the result can differ from a sum.
\<close>

definition SInt :: "nat \<Rightarrow> int \<Rightarrow> int" where
  "SInt w r = (if 2 ^ (w - 1) \<le> r then r - 2 ^ w else r)"

definition AddWithCarry :: "nat \<Rightarrow> int \<Rightarrow> int \<Rightarrow> bool \<Rightarrow> int \<times> bool \<times> bool \<times> bool \<times> bool" where
  "AddWithCarry w x y c =
     (let usum = x + y + of_bool c;
          ssum = SInt w x + SInt w y + of_bool c;
          r = usum mod 2 ^ w
      in (r, SInt w r < 0, r = 0, r \<noteq> usum, SInt w r \<noteq> ssum))"

definition pack_nzcv :: "bool \<Rightarrow> bool \<Rightarrow> bool \<Rightarrow> bool \<Rightarrow> u32" where
  "pack_nzcv n z c v =
     (if n then OEMU_NZCV_N else 0) OR (if z then OEMU_NZCV_Z else 0)
     OR (if c then OEMU_NZCV_C else 0) OR (if v then OEMU_NZCV_V else 0)"

lemma mod_one_wrap:
  fixes s m :: int
  assumes "0 \<le> s" "s < 2 * m"
  shows "s mod m = (if s < m then s else s - m)"
proof (cases "s < m")
  case True
  with assms show ?thesis by simp
next
  case False
  then have "s mod m = (s - m) mod m" by simp
  also have "\<dots> = s - m" using assms False by (intro mod_pos_pos_trivial) auto
  finally show ?thesis using False by simp
qed

lemma sign_bit_W64: "(x AND 0x8000000000000000 \<noteq> 0) = (2 ^ 63 \<le> uint (x :: u64))"
  using and_push_bit_ne_0_iff [of x 63] bit_uint_top_iff [of x 63] uint_bounded [of x] by simp

lemma sign_bit_W32:
  "uint x < 2 ^ 32 \<Longrightarrow> (x AND 0x80000000 \<noteq> 0) = (2 ^ 31 \<le> uint (x :: u64))"
  using and_push_bit_ne_0_iff [of x 31] bit_uint_top_iff [of x 31] by simp

lemma uint_add_carry_W64:
  "uint (x + y + (if c then 1 else 0) :: u64) = (uint x + uint y + of_bool c) mod 2 ^ 64"
  by (simp add: uint_word_ariths mod_simps)

text \<open>
  The architecture's flags in the form the code tests them: the sign bit, the unsigned bound, and
  "operands agree in sign and the result disagrees".
\<close>

lemma signed_overflow_iff:
  fixes X Y S h k :: int
  assumes "0 \<le> X" "X < 2 * h" "0 \<le> Y" "Y < 2 * h" "0 \<le> k" "k \<le> 1"
    and "S = (if X + Y + k < 2 * h then X + Y + k else X + Y + k - 2 * h)"
  shows "((if h \<le> S then S - 2 * h else S) \<noteq>
      (if h \<le> X then X - 2 * h else X) + (if h \<le> Y then Y - 2 * h else Y) + k) =
     ((h \<le> X) = (h \<le> Y) \<and> (h \<le> S) \<noteq> (h \<le> X))"
proof (cases "X + Y + k < 2 * h")
  case True
  with assms have "S = X + Y + k" by simp
  with True assms(1-6) show ?thesis
    by (cases "h \<le> X"; cases "h \<le> Y") (simp; linarith)+
next
  case False
  with assms have "S = X + Y + k - 2 * h" by simp
  with False assms(1-6) show ?thesis
    by (cases "h \<le> X"; cases "h \<le> Y") (simp; linarith)+
qed

lemma AddWithCarry_flags:
  assumes w: "0 < w" and X: "0 \<le> X" "X < 2 ^ w" and Y: "0 \<le> Y" "Y < 2 ^ w"
    and S: "S = (X + Y + of_bool c) mod 2 ^ w"
  shows "AddWithCarry w X Y c =
    (S, 2 ^ (w - 1) \<le> S, S = 0, 2 ^ w \<le> X + Y + of_bool c,
     (2 ^ (w - 1) \<le> X) = (2 ^ (w - 1) \<le> Y) \<and> (2 ^ (w - 1) \<le> S) \<noteq> (2 ^ (w - 1) \<le> X))"
proof -
  define h :: int where "h = 2 ^ (w - 1)"
  have m: "(2 :: int) ^ w = 2 * h"
    using w by (cases w) (simp_all add: h_def)
  have c: "0 \<le> (of_bool c :: int)" "(of_bool c :: int) \<le> 1" by simp_all
  have S': "S = (if X + Y + of_bool c < 2 * h then X + Y + of_bool c else X + Y + of_bool c - 2 * h)"
    unfolding S m using X Y c m by (intro mod_one_wrap) linarith+
  have "(SInt w S < 0) = (h \<le> S)"
    using X Y c S' unfolding SInt_def m h_def [symmetric] by (simp split: if_splits)
  moreover have "(S \<noteq> X + Y + of_bool c) = (2 * h \<le> X + Y + of_bool c)"
    using X Y c S' m by (simp split: if_splits)
  moreover have "(SInt w S \<noteq> SInt w X + SInt w Y + of_bool c) =
      ((h \<le> X) = (h \<le> Y) \<and> (h \<le> S) \<noteq> (h \<le> X))"
    using signed_overflow_iff [OF X(1) _ Y(1) _ c S'] X Y unfolding SInt_def m h_def [symmetric]
    by blast
  ultimately show ?thesis
    unfolding AddWithCarry_def Let_def S [symmetric] unfolding m h_def [symmetric] by simp
qed

lemma add_with_carry_W64:
  assumes r: "r = oemu_regs_internal_add_with_carry x y c OEMU_REG_W64"
    and A: "AddWithCarry 64 (uint x) (uint y) c = (v, fn, fz, fc, fv)"
  shows "uint (alu_value r) = v \<and> alu_nzcv r = pack_nzcv fn fz fc fv"
proof -
  let ?X = "uint x" and ?Y = "uint y" and ?s = "x + y + (if c then 1 else 0)"
  have b: "0 \<le> ?X" "0 \<le> ?Y" "?X < 2 ^ 64" "?Y < 2 ^ 64"
    using uint_bounded [of x] uint_bounded [of y] by simp_all
  have P: "uint (x + y) = (if ?X + ?Y < 2 ^ 64 then ?X + ?Y else ?X + ?Y - 2 ^ 64)"
    using uint_add_carry_W64 [of x y False] b by (simp add: mod_one_wrap)
  have carry: "(x + y < x \<or> (c \<and> x + y = 0xFFFFFFFFFFFFFFFF)) = (2 ^ 64 \<le> ?X + ?Y + of_bool c)"
  proof (cases "?X + ?Y < 2 ^ 64")
    case True
    then show ?thesis using b P by (auto simp: word_less_def word_uint_eq_iff)
  next
    case False
    then show ?thesis using b P by (simp add: word_less_def)
  qed
  have "r = \<lparr>alu_value = ?s, alu_nzcv = pack_nzcv (2 ^ 63 \<le> uint ?s) (uint ?s = 0)
      (2 ^ 64 \<le> ?X + ?Y + of_bool c)
      ((2 ^ 63 \<le> ?X) = (2 ^ 63 \<le> ?Y) \<and> (2 ^ 63 \<le> uint ?s) \<noteq> (2 ^ 63 \<le> ?X))\<rparr>"
    unfolding r oemu_regs_internal_add_with_carry_def Let_def truncate_W64 carry pack_nzcv_def
    by (simp only: oemu_reg_width.distinct sign_bit_W64 if_False carry unsigned_eq_0_iff)
  moreover have "AddWithCarry 64 ?X ?Y c = (uint ?s, 2 ^ 63 \<le> uint ?s, uint ?s = 0,
      2 ^ 64 \<le> ?X + ?Y + of_bool c,
      (2 ^ 63 \<le> ?X) = (2 ^ 63 \<le> ?Y) \<and> (2 ^ 63 \<le> uint ?s) \<noteq> (2 ^ 63 \<le> ?X))"
    using AddWithCarry_flags [OF _ b(1,3,2,4) uint_add_carry_W64] by simp
  ultimately show ?thesis using A by simp
qed

lemma add_with_carry_W32:
  assumes r: "r = oemu_regs_internal_add_with_carry x y c OEMU_REG_W32"
    and A: "AddWithCarry 32 (uint x mod 2 ^ 32) (uint y mod 2 ^ 32) c = (v, fn, fz, fc, fv)"
  shows "uint (alu_value r) = v \<and> alu_nzcv r = pack_nzcv fn fz fc fv"
proof -
  define xa ya where "xa = oemu_regs_internal_truncate x OEMU_REG_W32"
    and "ya = oemu_regs_internal_truncate y OEMU_REG_W32"
  let ?X = "uint xa" and ?Y = "uint ya" and ?t = "xa + ya + (if c then 1 else 0)"
  let ?s = "oemu_regs_internal_truncate ?t OEMU_REG_W32"
  have X: "?X = uint x mod 2 ^ 32" and Y: "?Y = uint y mod 2 ^ 32"
    by (simp_all add: xa_def ya_def uint_truncate)
  have b: "0 \<le> ?X" "0 \<le> ?Y" "?X < 2 ^ 32" "?Y < 2 ^ 32"
    unfolding X Y by simp_all
  have t: "uint ?t = ?X + ?Y + of_bool c"
    unfolding uint_add_carry_W64 using b by (intro mod_pos_pos_trivial) (auto split: if_splits)
  have s: "uint ?s = (?X + ?Y + of_bool c) mod 2 ^ 32"
    by (simp only: uint_truncate t reg_bits_simps)
  then have s_less: "uint ?s < 2 ^ 32" by simp
  have carry: "(drop_bit 32 ?t \<noteq> 0) = (2 ^ 32 \<le> ?X + ?Y + of_bool c)"
  proof -
    have "(drop_bit 32 ?t \<noteq> 0) = (uint (drop_bit 32 ?t) \<noteq> 0)"
      by (simp only: unsigned_eq_0_iff)
    also have "uint (drop_bit 32 ?t) = (?X + ?Y + of_bool c) div 2 ^ 32"
      by (simp only: uint_drop_bit t)
    also have "((?X + ?Y + of_bool c) div 2 ^ 32 \<noteq> 0) = (2 ^ 32 \<le> ?X + ?Y + of_bool c)"
      using b by (cases "2 ^ 32 \<le> ?X + ?Y + of_bool c") (auto simp: div_eq_0_iff)
    finally show ?thesis .
  qed
  have "r = \<lparr>alu_value = ?s, alu_nzcv = pack_nzcv (2 ^ 31 \<le> uint ?s) (uint ?s = 0)
      (2 ^ 32 \<le> ?X + ?Y + of_bool c)
      ((2 ^ 31 \<le> ?X) = (2 ^ 31 \<le> ?Y) \<and> (2 ^ 31 \<le> uint ?s) \<noteq> (2 ^ 31 \<le> ?X))\<rparr>"
    unfolding r oemu_regs_internal_add_with_carry_def Let_def carry pack_nzcv_def
      xa_def [symmetric] ya_def [symmetric]
    by (simp only: simp_thms if_True sign_bit_W32 [OF b(3)] sign_bit_W32 [OF b(4)]
        sign_bit_W32 [OF s_less] carry unsigned_eq_0_iff)
  moreover have "AddWithCarry 32 ?X ?Y c = (uint ?s, 2 ^ 31 \<le> uint ?s, uint ?s = 0,
      2 ^ 32 \<le> ?X + ?Y + of_bool c,
      (2 ^ 31 \<le> ?X) = (2 ^ 31 \<le> ?Y) \<and> (2 ^ 31 \<le> uint ?s) \<noteq> (2 ^ 31 \<le> ?X))"
    using AddWithCarry_flags [OF _ b(1,3,2,4) s] by simp
  ultimately show ?thesis using A unfolding X [symmetric] Y [symmetric] by simp
qed

lemma add_with_carry_flags:
  assumes "AddWithCarry (reg_bits w) (uint (oemu_regs_internal_truncate x w))
      (uint (oemu_regs_internal_truncate y w)) c = (v, fn, fz, fc, fv)"
  shows "uint (alu_value (oemu_regs_internal_add_with_carry x y c w)) = v"
    and "alu_nzcv (oemu_regs_internal_add_with_carry x y c w) = pack_nzcv fn fz fc fv"
  using assms add_with_carry_W32 [OF refl, of x y c v fn fz fc fv]
    add_with_carry_W64 [OF refl, of x y c v fn fz fc fv]
  by (cases w; simp add: uint_truncate)+

section \<open>Conditions\<close>

lemma pack_nzcv_flags [simp]:
  "(pack_nzcv n z c v AND OEMU_NZCV_N = 0) = (\<not> n)"
  "(pack_nzcv n z c v AND OEMU_NZCV_Z = 0) = (\<not> z)"
  "(pack_nzcv n z c v AND OEMU_NZCV_C = 0) = (\<not> c)"
  "(pack_nzcv n z c v AND OEMU_NZCV_V = 0) = (\<not> v)"
  by (simp_all add: pack_nzcv_def)

lemma pack_nzcv_masked [simp]: "pack_nzcv n z c v AND OEMU_NZCV_MASK = pack_nzcv n z c v"
  by (simp add: pack_nzcv_def OEMU_NZCV_MASK_def)

text \<open>The table of \<^verbatim>\<open>include/oemu/regs.h\<close>: what each condition means of the four flags.\<close>

fun cond_table :: "oemu_cond \<Rightarrow> bool \<Rightarrow> bool \<Rightarrow> bool \<Rightarrow> bool \<Rightarrow> bool" where
  "cond_table OEMU_COND_EQ n z c v = z"
| "cond_table OEMU_COND_NE n z c v = (\<not> z)"
| "cond_table OEMU_COND_CS n z c v = c"
| "cond_table OEMU_COND_CC n z c v = (\<not> c)"
| "cond_table OEMU_COND_MI n z c v = n"
| "cond_table OEMU_COND_PL n z c v = (\<not> n)"
| "cond_table OEMU_COND_VS n z c v = v"
| "cond_table OEMU_COND_VC n z c v = (\<not> v)"
| "cond_table OEMU_COND_HI n z c v = (c \<and> \<not> z)"
| "cond_table OEMU_COND_LS n z c v = (\<not> c \<or> z)"
| "cond_table OEMU_COND_GE n z c v = (n = v)"
| "cond_table OEMU_COND_LT n z c v = (n \<noteq> v)"
| "cond_table OEMU_COND_GT n z c v = (\<not> z \<and> n = v)"
| "cond_table OEMU_COND_LE n z c v = (z \<or> n \<noteq> v)"
| "cond_table OEMU_COND_AL n z c v = True"
| "cond_table OEMU_COND_NV n z c v = True"

lemma cond_holds_table:
  "oemu_regs_internal_cond_holds f cond =
   cond_table cond (f AND OEMU_NZCV_N \<noteq> 0) (f AND OEMU_NZCV_Z \<noteq> 0)
     (f AND OEMU_NZCV_C \<noteq> 0) (f AND OEMU_NZCV_V \<noteq> 0)"
  by (cases cond) (auto simp: oemu_regs_internal_cond_holds_def Let_def)

lemma uint_truncate_not:
  "uint (oemu_regs_internal_truncate (NOT y) w) =
   2 ^ reg_bits w - 1 - uint (oemu_regs_internal_truncate y w)"
proof -
  have "uint (NOT y) = (- uint y - 1) mod 2 ^ 64"
    by (simp add: not_eq_complement uint_word_ariths mod_simps)
  then have "uint (NOT y) mod 2 ^ reg_bits w = (- uint y - 1) mod 2 ^ reg_bits w"
    by (cases w) (simp_all add: mod_mod_cancel)
  also have "\<dots> = 2 ^ reg_bits w - 1 - uint y mod 2 ^ reg_bits w"
    using minus_mod_int_eq [of "2 ^ reg_bits w" "uint y + 1"] by simp
  finally show ?thesis by (simp add: uint_truncate)
qed

text \<open>
  The flags of \<open>x - y\<close>, computed the way \<^verbatim>\<open>SUBS\<close> and \<^verbatim>\<open>CMP\<close> do (\<open>x + NOT y + 1\<close>), at either width.
\<close>

lemma sub_flags_int:
  fixes a b :: int
  assumes w: "0 < w" and a: "0 \<le> a" "a < 2 ^ w" and b: "0 \<le> b" "b < 2 ^ w"
    and A: "AddWithCarry w a (2 ^ w - 1 - b) True = (v, fn, fz, fc, fv)"
  shows "fz = (a = b)" and "fc = (b \<le> a)" and "(fn = fv) = (SInt w b \<le> SInt w a)"
proof -
  define h :: int where "h = 2 ^ (w - 1)"
  have m: "(2 :: int) ^ w = 2 * h" using w by (cases w) (simp_all add: h_def)
  have b': "0 \<le> 2 ^ w - 1 - b" "2 ^ w - 1 - b < 2 ^ w" using b by simp_all
  let ?S = "(a + (2 ^ w - 1 - b) + of_bool True) mod 2 ^ w"
  have S: "?S = (if b \<le> a then a - b else a - b + 2 * h)"
    using a b m by (simp add: mod_one_wrap)
  note E = AddWithCarry_flags [OF w a b' refl, of True]
  from A E S a b show "fz = (a = b)" and "fc = (b \<le> a)"
    by (auto simp: m)
  from A E S a b m show "(fn = fv) = (SInt w b \<le> SInt w a)"
    unfolding SInt_def h_def [symmetric]
    by (cases "h \<le> a"; cases "h \<le> b"; cases "b \<le> a"; simp add: m; linarith)
qed

lemma sub_conditions:
  "let f = alu_nzcv (oemu_regs_add_with_carry x (NOT y) True w);
       a = uint (oemu_regs_internal_truncate x w);
       b = uint (oemu_regs_internal_truncate y w);
       sa = SInt (reg_bits w) a;
       sb = SInt (reg_bits w) b
   in map (oemu_regs_internal_cond_holds f)
        [OEMU_COND_EQ, OEMU_COND_NE, OEMU_COND_CS, OEMU_COND_CC, OEMU_COND_HI, OEMU_COND_LS,
         OEMU_COND_GE, OEMU_COND_LT, OEMU_COND_GT, OEMU_COND_LE, OEMU_COND_AL, OEMU_COND_NV] =
      [a = b, a \<noteq> b, b \<le> a, a < b, b < a, a \<le> b,
       sb \<le> sa, sa < sb, sb < sa, sa \<le> sb, True, True]"
proof -
  define a b where "a = uint (oemu_regs_internal_truncate x w)"
    and "b = uint (oemu_regs_internal_truncate y w)"
  have ab: "0 \<le> a" "a < 2 ^ reg_bits w" "0 \<le> b" "b < 2 ^ reg_bits w"
    by (simp_all add: a_def b_def uint_truncate)
  obtain v fn fz fc fv
    where A: "AddWithCarry (reg_bits w) a (2 ^ reg_bits w - 1 - b) True = (v, fn, fz, fc, fv)"
    using prod_cases5 by blast
  have f: "alu_nzcv (oemu_regs_add_with_carry x (NOT y) True w) = pack_nzcv fn fz fc fv"
    unfolding oemu_regs_add_with_carry_def
    by (rule add_with_carry_flags) (simp only: uint_truncate_not A a_def [symmetric] b_def [symmetric])
  have w: "0 < reg_bits w" by (cases w) simp_all
  note F = sub_flags_int [OF w ab A]
  have S: "(SInt (reg_bits w) a = SInt (reg_bits w) b) = (a = b)"
    using ab by (auto simp: SInt_def split: if_splits)
  show ?thesis
    unfolding Let_def f a_def [symmetric] b_def [symmetric]
    using F S by (auto simp: cond_holds_table)
qed

section \<open>Properties\<close>

text \<open>
  Property C6. At both widths the emulator's AddWithCarry returns the architecture's residue and
  exactly its four flags: N the sign of the result, Z zero, C an unsigned carry out, V a signed
  result that differs from the signed sum, with no other bit of the flag word set.
\<close>

theorem add_with_carry_spec:
  "let r = oemu_regs_add_with_carry x y c w
   in \<exists>fn fz fc fv.
        AddWithCarry (reg_bits w) (uint (oemu_regs_internal_truncate x w))
          (uint (oemu_regs_internal_truncate y w)) c = (uint (alu_value r), fn, fz, fc, fv) \<and>
        alu_nzcv r = pack_nzcv fn fz fc fv"
proof -
  obtain v fn fz fc fv where A: "AddWithCarry (reg_bits w) (uint (oemu_regs_internal_truncate x w))
      (uint (oemu_regs_internal_truncate y w)) c = (v, fn, fz, fc, fv)"
    using prod_cases5 by blast
  from add_with_carry_flags [OF A] A show ?thesis
    by (auto simp: oemu_regs_add_with_carry_def Let_def)
qed

text \<open>
  Compare-then-branch means what it says: after the flags of a subtraction \<open>x - y\<close>
  have been derived, the conditions EQ, NE, CS, CC, HI, LS, GE, LT, GT, LE decide the unsigned or
  signed comparison of the two operands at the operand width, and AL and NV both hold.
\<close>

theorem subs_decides_comparison:
  "let f = alu_nzcv (oemu_regs_add_with_carry x (NOT y) True w);
       a = uint (oemu_regs_internal_truncate x w);
       b = uint (oemu_regs_internal_truncate y w);
       sa = SInt (reg_bits w) a;
       sb = SInt (reg_bits w) b
   in map (oemu_regs_internal_cond_holds f)
        [OEMU_COND_EQ, OEMU_COND_NE, OEMU_COND_CS, OEMU_COND_CC, OEMU_COND_HI, OEMU_COND_LS,
         OEMU_COND_GE, OEMU_COND_LT, OEMU_COND_GT, OEMU_COND_LE, OEMU_COND_AL, OEMU_COND_NV] =
      [a = b, a \<noteq> b, b \<le> a, a < b, b < a, a \<le> b,
       sb \<le> sa, sa < sb, sb < sa, sa \<le> sb, True, True]"
  by (rule sub_conditions)

text \<open>
  Register number 31 and the 32-bit forms: a write in the zero-register form reads
  back truncated and zero-extended in its own register, changes no other register, is discarded for
  number 31, and never touches SP, PC or the flags; the same write in the stack-pointer form lands
  in SP exactly for number 31.
\<close>

theorem regs_write_read:
  assumes "regs_inv r" "n \<le> 31" "m \<le> 31"
  shows "\<exists>r' r''. oemu_regs_write r n w v = Some r' \<and> oemu_regs_write_sp_form r n w v = Some r'' \<and>
    oemu_regs_read r' m OEMU_REG_W64 =
      (if m = n \<and> n \<noteq> 31 then Some (oemu_regs_internal_truncate v w)
       else oemu_regs_read r m OEMU_REG_W64) \<and>
    oemu_regs_read_sp_form r'' m OEMU_REG_W64 =
      (if m = n then Some (oemu_regs_internal_truncate v w)
       else oemu_regs_read_sp_form r m OEMU_REG_W64) \<and>
    (r_sp r', r_pc r', r_nzcv r') = (r_sp r, r_pc r, r_nzcv r) \<and>
    (r_pc r'', r_nzcv r'') = (r_pc r, r_nzcv r) \<and> regs_inv r' \<and> regs_inv r''"
  using assms
  by (auto simp: oemu_regs_write_def oemu_regs_write_sp_form_def oemu_regs_read_def
      oemu_regs_read_sp_form_def Let_def regs_inv_def nth_list_update)

theorem regs_write_read_witness:
  "\<exists>r' r''. oemu_regs_write (oemu_regs_init 0x1000 0x8000) 3 OEMU_REG_W32 0xFFFFFFFF00000005 = Some r' \<and>
    oemu_regs_write_sp_form (oemu_regs_init 0x1000 0x8000) 3 OEMU_REG_W32 0xFFFFFFFF00000005 = Some r'' \<and>
    oemu_regs_read r' 3 OEMU_REG_W64 = Some 5 \<and> r_sp r' = 0x8000"
  using regs_write_read [OF regs_inv_init [of "0x1000" "0x8000"], of 3 3 OEMU_REG_W32
      "0xFFFFFFFF00000005"]
  by (fastforce simp: oemu_regs_internal_truncate_def oemu_regs_init_def)

end
