(* ===== verification/Oemu_Insn.thy ===== *)
theory Oemu_Insn
  imports Oemu_Regs
begin

text \<open>
  The decoded instruction (\<^verbatim>\<open>include/oemu/decode.h\<close>): the operand-modifier enumerations, one
  constructor per opcode, and the record the decoder fills and the executor reads. Register
  numbers, shift amounts and bit positions, which the C code keeps in \<^verbatim>\<open>unsigned\<close>, are natural
  numbers: every one of them is a bit field of at most six bits.
\<close>

datatype oemu_shift_type = OEMU_SHIFT_LSL | OEMU_SHIFT_LSR | OEMU_SHIFT_ASR | OEMU_SHIFT_ROR

datatype oemu_extend_type =
    OEMU_EXTEND_UXTB | OEMU_EXTEND_UXTH | OEMU_EXTEND_UXTW | OEMU_EXTEND_UXTX
  | OEMU_EXTEND_SXTB | OEMU_EXTEND_SXTH | OEMU_EXTEND_SXTW | OEMU_EXTEND_SXTX

datatype oemu_mem_size =
  OEMU_MEM_BYTE | OEMU_MEM_HALF | OEMU_MEM_WORD | OEMU_MEM_DWORD | OEMU_MEM_128

text \<open>The enumerator's value, the log2 of the byte count.\<close>

fun mem_size_val :: "oemu_mem_size \<Rightarrow> nat" where
  "mem_size_val OEMU_MEM_BYTE = 0"
| "mem_size_val OEMU_MEM_HALF = 1"
| "mem_size_val OEMU_MEM_WORD = 2"
| "mem_size_val OEMU_MEM_DWORD = 3"
| "mem_size_val OEMU_MEM_128 = 4"

datatype oemu_index_mode = OEMU_INDEX_NONE | OEMU_INDEX_POST | OEMU_INDEX_PRE

text \<open>
  The opcode enumeration. The datatype is declared without the code generator's plugins, whose
  work is quadratic in its ninety-one constructors; equality is decided by the distinctness rules,
  and the instance below makes it available as the library's \<^verbatim>\<open>equal\<close>.
\<close>

datatype (plugins only:) oemu_opcode =
    OEMU_OP_UNKNOWN
  | OEMU_OP_ADD | OEMU_OP_ADDS | OEMU_OP_SUB | OEMU_OP_SUBS
  | OEMU_OP_ADC | OEMU_OP_ADCS | OEMU_OP_SBC | OEMU_OP_SBCS
  | OEMU_OP_AND | OEMU_OP_ANDS | OEMU_OP_ORR | OEMU_OP_EOR
  | OEMU_OP_BIC | OEMU_OP_BICS | OEMU_OP_ORN | OEMU_OP_EON
  | OEMU_OP_MOVZ | OEMU_OP_MOVN | OEMU_OP_MOVK
  | OEMU_OP_ADR | OEMU_OP_ADRP
  | OEMU_OP_SBFM | OEMU_OP_BFM | OEMU_OP_UBFM | OEMU_OP_EXTR
  | OEMU_OP_LSLV | OEMU_OP_LSRV | OEMU_OP_ASRV | OEMU_OP_RORV
  | OEMU_OP_CRC32 | OEMU_OP_CRC32C
  | OEMU_OP_RBIT | OEMU_OP_REV16 | OEMU_OP_REV32 | OEMU_OP_REV | OEMU_OP_CLZ | OEMU_OP_CLS
  | OEMU_OP_UDIV | OEMU_OP_SDIV | OEMU_OP_MADD | OEMU_OP_MSUB
  | OEMU_OP_SMADDL | OEMU_OP_SMSUBL | OEMU_OP_UMADDL | OEMU_OP_UMSUBL
  | OEMU_OP_SMULH | OEMU_OP_UMULH
  | OEMU_OP_CSEL | OEMU_OP_CSINC | OEMU_OP_CSINV | OEMU_OP_CSNEG | OEMU_OP_CCMP | OEMU_OP_CCMN
  | OEMU_OP_B | OEMU_OP_BL | OEMU_OP_B_COND | OEMU_OP_BR | OEMU_OP_BLR | OEMU_OP_RET
  | OEMU_OP_CBZ | OEMU_OP_CBNZ | OEMU_OP_TBZ | OEMU_OP_TBNZ
  | OEMU_OP_LDR | OEMU_OP_STR | OEMU_OP_LDRS | OEMU_OP_LDP | OEMU_OP_STP | OEMU_OP_LDPSW
  | OEMU_OP_LDXR | OEMU_OP_STXR | OEMU_OP_LDAR | OEMU_OP_STLR
  | OEMU_OP_SVC | OEMU_OP_BRK | OEMU_OP_HLT | OEMU_OP_HVC | OEMU_OP_SMC | OEMU_OP_ERET
  | OEMU_OP_NOP | OEMU_OP_HINT | OEMU_OP_WFI | OEMU_OP_WFE | OEMU_OP_BARRIER
  | OEMU_OP_MRS | OEMU_OP_MSR | OEMU_OP_MSR_IMM | OEMU_OP_SYS | OEMU_OP_VEC_DUP

instantiation oemu_opcode :: equal
begin

definition equal_oemu_opcode :: "oemu_opcode \<Rightarrow> oemu_opcode \<Rightarrow> bool" where
  "equal_oemu_opcode a b \<longleftrightarrow> a = b"

instance
  by standard (simp add: equal_oemu_opcode_def)

end

datatype oemu_operand_kind =
    OEMU_OPERAND_NONE | OEMU_OPERAND_IMM | OEMU_OPERAND_REG
  | OEMU_OPERAND_REG_SHIFTED | OEMU_OPERAND_REG_EXTENDED | OEMU_OPERAND_MEM

record oemu_insn =
  i_word :: u32
  i_op :: oemu_opcode
  i_operand_kind :: oemu_operand_kind
  i_width :: oemu_reg_width
  i_rd :: nat
  i_rn :: nat
  i_rm :: nat
  i_ra :: nat
  i_rt2 :: nat
  i_imm :: i64
  i_uimm :: u64
  i_shift_type :: oemu_shift_type
  i_extend_type :: oemu_extend_type
  i_shift_amount :: nat
  i_cond :: oemu_cond
  i_mem_size :: oemu_mem_size
  i_index_mode :: oemu_index_mode
  i_is_signed_load :: bool
  i_is_vector :: bool
  i_extend_is_lsl :: bool
  i_sets_flags :: bool
  i_rn_is_sp_form :: bool
  i_rd_is_sp_form :: bool
  i_bit_pos :: nat
  i_sysreg :: u32

text \<open>\<^verbatim>\<open>insn_reset\<close>: the zeroed structure with the word kept and the width defaulted to 64 bits.\<close>

definition insn_reset :: "u32 \<Rightarrow> oemu_insn" where
  "insn_reset word =
     \<lparr>i_word = word, i_op = OEMU_OP_UNKNOWN, i_operand_kind = OEMU_OPERAND_NONE,
      i_width = OEMU_REG_W64, i_rd = 0, i_rn = 0, i_rm = 0, i_ra = 0, i_rt2 = 0,
      i_imm = 0, i_uimm = 0, i_shift_type = OEMU_SHIFT_LSL, i_extend_type = OEMU_EXTEND_UXTB,
      i_shift_amount = 0, i_cond = OEMU_COND_EQ, i_mem_size = OEMU_MEM_BYTE,
      i_index_mode = OEMU_INDEX_NONE, i_is_signed_load = False, i_is_vector = False,
      i_extend_is_lsl = False, i_sets_flags = False, i_rn_is_sp_form = False,
      i_rd_is_sp_form = False, i_bit_pos = 0, i_sysreg = 0\<rparr>"

end
