(* ===== verification/Oemu_Decode.thy ===== *)
theory Oemu_Decode
  imports Oemu_Insn
begin

text \<open>
  The A64 decoder (\<^verbatim>\<open>src/decode/decode.c\<close>): the bit primitives, one function per encoding group in
  the order of the source, and the top-level decode. A group function takes the instruction being
  filled and returns the status with the instruction as the code leaves it, also on an error;
  \<^verbatim>\<open>oemu_decode\<close> resets it then. The contract checks of the bit primitives have constant arguments
  inside their bounds at every call, so these functions are total here.
\<close>

section \<open>Bit primitives\<close>

definition oemu_decode_internal_bits :: "u32 \<Rightarrow> nat \<Rightarrow> nat \<Rightarrow> u32" where
  "oemu_decode_internal_bits word lsb width =
     (if width = 32 then word else drop_bit lsb word AND (push_bit width 1 - 1))"

definition oemu_decode_internal_sign_extend :: "u64 \<Rightarrow> nat \<Rightarrow> i64" where
  "oemu_decode_internal_sign_extend value width =
     (if width = 64 then value
      else let m = push_bit width 1 - 1;
               sign = push_bit (width - 1) 1;
               masked = value AND m
           in if masked AND sign \<noteq> 0 then masked OR NOT m else masked)"

definition oemu_decode_internal_ror :: "u64 \<Rightarrow> nat \<Rightarrow> nat \<Rightarrow> u64" where
  "oemu_decode_internal_ror value amount esize =
     (let shift = amount mod esize;
          m = (if esize = 64 then NOT 0 else push_bit esize 1 - 1);
          masked = value AND m
      in if shift = 0 then masked
         else (drop_bit shift masked OR push_bit (esize - shift) masked) AND m)"

text \<open>The search for the highest set bit of \<open>N:NOT(imms)\<close>, from bit 6 down; \<open>- 1\<close> when there is
  none.\<close>

definition bit_masks_len :: "u32 \<Rightarrow> int" where
  "bit_masks_len combined =
     (case find (\<lambda>b. combined AND push_bit b 1 \<noteq> 0) [6, 5, 4, 3, 2, 1, 0] of
        None \<Rightarrow> - 1 | Some b \<Rightarrow> int b)"

text \<open>The replication loop: \<open>pos\<close> runs from 0 in steps of the element size. The second guard is
  the loop's progress, which the caller's \<open>2 \<le> esize\<close> gives.\<close>

function replicate_element :: "u64 \<Rightarrow> nat \<Rightarrow> nat \<Rightarrow> nat \<Rightarrow> u64 \<Rightarrow> u64" where
  "replicate_element element esize nbits pos m =
     (if pos < nbits \<and> 0 < esize
      then replicate_element element esize nbits (pos + esize) (m OR push_bit pos element)
      else m)"
  by pat_completeness auto
termination
  by (relation "measure (\<lambda>(element, esize, nbits, pos, m). nbits - pos)") auto

declare replicate_element.simps [simp del]

definition oemu_decode_internal_bit_masks ::
  "bool \<Rightarrow> u32 \<Rightarrow> u32 \<Rightarrow> oemu_reg_width \<Rightarrow> oemu_status + u64" where
  "oemu_decode_internal_bit_masks n imms immr width =
     (let nbits = (if width = OEMU_REG_W32 then 32 else 64 :: nat);
          combined = push_bit 6 (if n then 1 else 0) OR (NOT imms AND 0x3F);
          len = bit_masks_len combined
      in if len < 1 then Inl OEMU_ERR_DECODE
         else let esize = 2 ^ nat len :: nat
         in if esize > nbits then Inl OEMU_ERR_DECODE
            else let levels = of_nat esize - 1 :: u32;
                     s = imms AND levels;
                     r = immr AND levels
            in if s = levels then Inl OEMU_ERR_DECODE
               else let element0 = (if s + 1 = 64 then NOT 0
                                    else push_bit (unat (s + 1)) 1 - 1 :: u64);
                        element = oemu_decode_internal_ror element0 (unat r) esize;
                        m = replicate_element element esize nbits 0 0
               in Inr (if nbits = 32 then m AND 0xFFFFFFFF else m))"

definition oemu_decode_internal_extend_amount_valid :: "nat \<Rightarrow> bool" where
  "oemu_decode_internal_extend_amount_valid amount \<longleftrightarrow> amount \<le> 4"

section \<open>Field accessors\<close>

abbreviation BITS :: "u32 \<Rightarrow> nat \<Rightarrow> nat \<Rightarrow> u32" where
  "BITS w lsb n \<equiv> oemu_decode_internal_bits w lsb n"

abbreviation BIT :: "u32 \<Rightarrow> nat \<Rightarrow> u32" where
  "BIT w pos \<equiv> oemu_decode_internal_bits w pos 1"

definition field_rd :: "u32 \<Rightarrow> nat" where "field_rd word = unat (BITS word 0 5)"
definition field_rn :: "u32 \<Rightarrow> nat" where "field_rn word = unat (BITS word 5 5)"
definition field_rm :: "u32 \<Rightarrow> nat" where "field_rm word = unat (BITS word 16 5)"
definition field_ra :: "u32 \<Rightarrow> nat" where "field_ra word = unat (BITS word 10 5)"

definition width_from_sf :: "u32 \<Rightarrow> oemu_reg_width" where
  "width_from_sf word = (if BIT word 31 \<noteq> 0 then OEMU_REG_W64 else OEMU_REG_W32)"

definition to_cond :: "u32 \<Rightarrow> oemu_cond" where
  "to_cond value =
     [OEMU_COND_EQ, OEMU_COND_NE, OEMU_COND_CS, OEMU_COND_CC, OEMU_COND_MI, OEMU_COND_PL,
      OEMU_COND_VS, OEMU_COND_VC, OEMU_COND_HI, OEMU_COND_LS, OEMU_COND_GE, OEMU_COND_LT,
      OEMU_COND_GT, OEMU_COND_LE, OEMU_COND_AL, OEMU_COND_NV] ! unat value"

definition to_shift_type :: "u32 \<Rightarrow> oemu_shift_type" where
  "to_shift_type value =
     (if value = 0 then OEMU_SHIFT_LSL else if value = 1 then OEMU_SHIFT_LSR
      else if value = 2 then OEMU_SHIFT_ASR else OEMU_SHIFT_ROR)"

definition to_extend_type :: "u32 \<Rightarrow> oemu_extend_type" where
  "to_extend_type value =
     (if value = 0 then OEMU_EXTEND_UXTB else if value = 1 then OEMU_EXTEND_UXTH
      else if value = 2 then OEMU_EXTEND_UXTW else if value = 3 then OEMU_EXTEND_UXTX
      else if value = 4 then OEMU_EXTEND_SXTB else if value = 5 then OEMU_EXTEND_SXTH
      else if value = 6 then OEMU_EXTEND_SXTW else OEMU_EXTEND_SXTX)"

definition to_mem_size :: "u32 \<Rightarrow> oemu_mem_size" where
  "to_mem_size value =
     (if value = 0 then OEMU_MEM_BYTE else if value = 1 then OEMU_MEM_HALF
      else if value = 2 then OEMU_MEM_WORD else OEMU_MEM_DWORD)"

definition addsub_opcode :: "bool \<Rightarrow> bool \<Rightarrow> oemu_opcode" where
  "addsub_opcode is_sub sets_flags =
     (if is_sub then (if sets_flags then OEMU_OP_SUBS else OEMU_OP_SUB)
      else (if sets_flags then OEMU_OP_ADDS else OEMU_OP_ADD))"

definition addsub_carry_opcode :: "bool \<Rightarrow> bool \<Rightarrow> oemu_opcode" where
  "addsub_carry_opcode is_sub sets_flags =
     (if is_sub then (if sets_flags then OEMU_OP_SBCS else OEMU_OP_SBC)
      else (if sets_flags then OEMU_OP_ADCS else OEMU_OP_ADC))"

definition move_wide_opcode :: "u32 \<Rightarrow> oemu_opcode" where
  "move_wide_opcode opc =
     (if opc = 0x0 then OEMU_OP_MOVN else if opc = 0x2 then OEMU_OP_MOVZ else OEMU_OP_MOVK)"

definition bitfield_opcode :: "u32 \<Rightarrow> oemu_opcode" where
  "bitfield_opcode opc =
     (if opc = 0x0 then OEMU_OP_SBFM else if opc = 0x1 then OEMU_OP_BFM else OEMU_OP_UBFM)"

type_synonym decoded = "oemu_status \<times> oemu_insn"

section \<open>Data processing: immediate\<close>

definition decode_pc_rel_addr :: "u32 \<Rightarrow> u64 \<Rightarrow> oemu_insn \<Rightarrow> decoded" where
  "decode_pc_rel_addr word pc insn =
     (let immlo = ucast (BITS word 29 2) :: u64;
          immhi = ucast (BITS word 5 19) :: u64;
          offset = oemu_decode_internal_sign_extend (push_bit 2 immhi OR immlo) 21;
          insn = insn\<lparr>i_rd := field_rd word, i_operand_kind := OEMU_OPERAND_IMM,
                      i_width := OEMU_REG_W64\<rparr>
      in if BIT word 31 \<noteq> 0
         then (OEMU_OK, insn\<lparr>i_op := OEMU_OP_ADRP,
                 i_imm := (pc AND NOT 0xFFF) + push_bit 12 offset\<rparr>)
         else (OEMU_OK, insn\<lparr>i_op := OEMU_OP_ADR, i_imm := pc + offset\<rparr>))"

definition decode_addsub_imm :: "u32 \<Rightarrow> oemu_insn \<Rightarrow> decoded" where
  "decode_addsub_imm word insn =
     (let shift = BITS word 22 2
      in if shift > 1 then (OEMU_ERR_DECODE, insn)
         else let imm12 = ucast (BITS word 10 12) :: u64;
                  is_sub = (BIT word 30 \<noteq> 0);
                  sets_flags = (BIT word 29 \<noteq> 0);
                  uimm = (if shift \<noteq> 0 then push_bit 12 imm12 else imm12)
         in (OEMU_OK, insn\<lparr>i_width := width_from_sf word, i_rd := field_rd word,
               i_rn := field_rn word, i_operand_kind := OEMU_OPERAND_IMM,
               i_uimm := uimm, i_imm := uimm, i_sets_flags := sets_flags,
               i_op := addsub_opcode is_sub sets_flags,
               i_rn_is_sp_form := True, i_rd_is_sp_form := \<not> sets_flags\<rparr>))"

definition decode_logical_imm :: "u32 \<Rightarrow> oemu_insn \<Rightarrow> decoded" where
  "decode_logical_imm word insn =
     (let n = (BIT word 22 \<noteq> 0);
          width = width_from_sf word
      in case oemu_decode_internal_bit_masks n (BITS word 10 6) (BITS word 16 6) width of
           Inl status \<Rightarrow> (status, insn)
         | Inr wmask \<Rightarrow>
             let insn = insn\<lparr>i_width := width, i_rd := field_rd word, i_rn := field_rn word,
                   i_operand_kind := OEMU_OPERAND_IMM, i_uimm := wmask, i_imm := wmask\<rparr>;
                 opc = BITS word 29 2;
                 insn = (if opc = 0x0 then insn\<lparr>i_op := OEMU_OP_AND\<rparr>
                         else if opc = 0x1 then insn\<lparr>i_op := OEMU_OP_ORR\<rparr>
                         else if opc = 0x2 then insn\<lparr>i_op := OEMU_OP_EOR\<rparr>
                         else insn\<lparr>i_op := OEMU_OP_ANDS, i_sets_flags := True\<rparr>)
             in (OEMU_OK, insn\<lparr>i_rd_is_sp_form := \<not> i_sets_flags insn\<rparr>))"

definition decode_move_wide :: "u32 \<Rightarrow> oemu_insn \<Rightarrow> decoded" where
  "decode_move_wide word insn =
     (let hw = BITS word 21 2;
          width = width_from_sf word
      in if width = OEMU_REG_W32 \<and> hw > 1 then (OEMU_ERR_DECODE, insn)
         else let opc = BITS word 29 2
         in if opc = 0x1 then (OEMU_ERR_DECODE, insn)
            else let shift_amount = unat hw * 16;
                     uimm = push_bit shift_amount (ucast (BITS word 5 16)) :: u64
            in (OEMU_OK, insn\<lparr>i_width := width, i_rd := field_rd word,
                  i_operand_kind := OEMU_OPERAND_IMM, i_shift_amount := shift_amount,
                  i_uimm := uimm, i_imm := uimm, i_op := move_wide_opcode opc\<rparr>))"

definition decode_bitfield :: "u32 \<Rightarrow> oemu_insn \<Rightarrow> decoded" where
  "decode_bitfield word insn =
     (let n = (BIT word 22 \<noteq> 0);
          width = width_from_sf word;
          opc = BITS word 29 2
      in if opc = 0x3 then (OEMU_ERR_DECODE, insn)
         else if (width = OEMU_REG_W64) \<noteq> n then (OEMU_ERR_DECODE, insn)
         else let immr = BITS word 16 6;
                  imms = BITS word 10 6;
                  nbits = (if width = OEMU_REG_W32 then 32 else 64 :: u32)
         in if immr \<ge> nbits \<or> imms \<ge> nbits then (OEMU_ERR_DECODE, insn)
            else let uimm = push_bit 8 (ucast immr) OR ucast imms :: u64
            in (OEMU_OK, insn\<lparr>i_width := width, i_rd := field_rd word, i_rn := field_rn word,
                  i_operand_kind := OEMU_OPERAND_IMM, i_uimm := uimm, i_imm := uimm,
                  i_shift_amount := unat immr, i_bit_pos := unat imms,
                  i_op := bitfield_opcode opc\<rparr>))"

definition decode_extract :: "u32 \<Rightarrow> oemu_insn \<Rightarrow> decoded" where
  "decode_extract word insn =
     (let n = (BIT word 22 \<noteq> 0);
          width = width_from_sf word
      in if BITS word 29 2 \<noteq> 0 \<or> BIT word 21 \<noteq> 0 then (OEMU_ERR_DECODE, insn)
         else if (width = OEMU_REG_W64) \<noteq> n then (OEMU_ERR_DECODE, insn)
         else let imms = BITS word 10 6;
                  nbits = (if width = OEMU_REG_W32 then 32 else 64 :: u32)
         in if imms \<ge> nbits then (OEMU_ERR_DECODE, insn)
            else (OEMU_OK, insn\<lparr>i_width := width, i_rd := field_rd word, i_rn := field_rn word,
                  i_rm := field_rm word, i_operand_kind := OEMU_OPERAND_REG,
                  i_shift_amount := unat imms, i_uimm := ucast imms, i_imm := ucast imms,
                  i_op := OEMU_OP_EXTR\<rparr>))"

definition decode_dp_immediate :: "u32 \<Rightarrow> u64 \<Rightarrow> oemu_insn \<Rightarrow> decoded" where
  "decode_dp_immediate word pc insn =
     (let sel = BITS word 23 3
      in if sel = 0x0 \<or> sel = 0x1 then decode_pc_rel_addr word pc insn
         else if sel = 0x2 \<or> sel = 0x3 then decode_addsub_imm word insn
         else if sel = 0x4 then decode_logical_imm word insn
         else if sel = 0x5 then decode_move_wide word insn
         else if sel = 0x6 then decode_bitfield word insn
         else decode_extract word insn)"

section \<open>Branches, exceptions and system\<close>

definition decode_uncond_branch_imm :: "u32 \<Rightarrow> u64 \<Rightarrow> oemu_insn \<Rightarrow> decoded" where
  "decode_uncond_branch_imm word pc insn =
     (let offset = oemu_decode_internal_sign_extend (ucast (BITS word 0 26)) 26
      in (OEMU_OK, insn\<lparr>i_op := (if BIT word 31 \<noteq> 0 then OEMU_OP_BL else OEMU_OP_B),
            i_operand_kind := OEMU_OPERAND_IMM, i_imm := pc + push_bit 2 offset\<rparr>))"

definition decode_cond_branch_imm :: "u32 \<Rightarrow> u64 \<Rightarrow> oemu_insn \<Rightarrow> decoded" where
  "decode_cond_branch_imm word pc insn =
     (if BIT word 24 \<noteq> 0 \<or> BIT word 4 \<noteq> 0 then (OEMU_ERR_DECODE, insn)
      else let offset = oemu_decode_internal_sign_extend (ucast (BITS word 5 19)) 19
      in (OEMU_OK, insn\<lparr>i_op := OEMU_OP_B_COND, i_operand_kind := OEMU_OPERAND_IMM,
            i_cond := to_cond (BITS word 0 4), i_imm := pc + push_bit 2 offset\<rparr>))"

definition decode_compare_branch :: "u32 \<Rightarrow> u64 \<Rightarrow> oemu_insn \<Rightarrow> decoded" where
  "decode_compare_branch word pc insn =
     (let offset = oemu_decode_internal_sign_extend (ucast (BITS word 5 19)) 19
      in (OEMU_OK, insn\<lparr>i_width := width_from_sf word, i_rt2 := field_rd word,
            i_rd := field_rd word, i_operand_kind := OEMU_OPERAND_IMM,
            i_imm := pc + push_bit 2 offset,
            i_op := (if BIT word 24 \<noteq> 0 then OEMU_OP_CBNZ else OEMU_OP_CBZ)\<rparr>))"

definition decode_test_branch :: "u32 \<Rightarrow> u64 \<Rightarrow> oemu_insn \<Rightarrow> decoded" where
  "decode_test_branch word pc insn =
     (let offset = oemu_decode_internal_sign_extend (ucast (BITS word 5 14)) 14;
          bit_pos = push_bit 5 (BIT word 31) OR BITS word 19 5
      in (OEMU_OK, insn\<lparr>i_width := (if BIT word 31 \<noteq> 0 then OEMU_REG_W64 else OEMU_REG_W32),
            i_rd := field_rd word, i_rt2 := field_rd word, i_bit_pos := unat bit_pos,
            i_operand_kind := OEMU_OPERAND_IMM, i_imm := pc + push_bit 2 offset,
            i_op := (if BIT word 24 \<noteq> 0 then OEMU_OP_TBNZ else OEMU_OP_TBZ)\<rparr>))"

definition decode_exception :: "u32 \<Rightarrow> oemu_insn \<Rightarrow> decoded" where
  "decode_exception word insn =
     (let opc = BITS word 21 3;
          op2 = BITS word 2 3;
          ll = BITS word 0 2
      in if op2 \<noteq> 0 then (OEMU_ERR_DECODE, insn)
         else let uimm = ucast (BITS word 5 16) :: u64;
                  insn = insn\<lparr>i_operand_kind := OEMU_OPERAND_IMM, i_uimm := uimm, i_imm := uimm\<rparr>
         in if opc = 0x0 \<and> ll = 0x1 then (OEMU_OK, insn\<lparr>i_op := OEMU_OP_SVC\<rparr>)
            else if opc = 0x1 \<and> ll = 0x0 then (OEMU_OK, insn\<lparr>i_op := OEMU_OP_BRK\<rparr>)
            else if opc = 0x2 \<and> ll = 0x0 then (OEMU_OK, insn\<lparr>i_op := OEMU_OP_HLT\<rparr>)
            else if opc = 0x0 \<and> ll = 0x2 then (OEMU_OK, insn\<lparr>i_op := OEMU_OP_HVC\<rparr>)
            else if opc = 0x0 \<and> ll = 0x3 then (OEMU_OK, insn\<lparr>i_op := OEMU_OP_SMC\<rparr>)
            else if opc = 0x5 then (OEMU_ERR_UNSUPPORTED, insn)
            else (OEMU_ERR_DECODE, insn))"

definition decode_hints_and_barriers :: "u32 \<Rightarrow> oemu_insn \<Rightarrow> decoded" where
  "decode_hints_and_barriers word insn =
     (let crn = BITS word 12 4;
          crm = BITS word 8 4;
          op2 = BITS word 5 3
      in if crn = 0x2
         then let uimm = ucast (push_bit 3 crm OR op2) :: u64;
                  insn = insn\<lparr>i_uimm := uimm, i_imm := uimm\<rparr>
              in if crm = 0 \<and> op2 = 0x2 then (OEMU_OK, insn\<lparr>i_op := OEMU_OP_WFE\<rparr>)
                 else if crm = 0 \<and> op2 = 0x3 then (OEMU_OK, insn\<lparr>i_op := OEMU_OP_WFI\<rparr>)
                 else (OEMU_OK, insn\<lparr>i_op := (if uimm = 0 then OEMU_OP_NOP else OEMU_OP_HINT)\<rparr>)
         else if crn = 0x3
         then (OEMU_OK, insn\<lparr>i_uimm := ucast crm, i_imm := ucast crm, i_op := OEMU_OP_BARRIER\<rparr>)
         else if crn = 0x4
         then (OEMU_OK, insn\<lparr>i_operand_kind := OEMU_OPERAND_IMM, i_uimm := ucast op2,
                 i_imm := ucast crm, i_op := OEMU_OP_MSR_IMM\<rparr>)
         else (OEMU_ERR_UNSUPPORTED, insn))"

definition decode_system :: "u32 \<Rightarrow> oemu_insn \<Rightarrow> decoded" where
  "decode_system word insn =
     (let l = BIT word 21;
          op0 = BITS word 19 2;
          rt = field_rd word
      in if op0 = 0x0
         then if rt \<noteq> 31 then (OEMU_ERR_DECODE, insn)
              else if l \<noteq> 0 then (OEMU_ERR_DECODE, insn)
              else decode_hints_and_barriers word insn
         else if op0 = 0x1
         then (OEMU_OK, insn\<lparr>i_sysreg := BITS word 5 14, i_rd := rt, i_rt2 := rt,
                 i_operand_kind := OEMU_OPERAND_NONE, i_op := OEMU_OP_SYS\<rparr>)
         else (OEMU_OK, insn\<lparr>i_sysreg := BITS word 5 15, i_rd := rt, i_rt2 := rt,
                 i_operand_kind := OEMU_OPERAND_NONE,
                 i_op := (if l \<noteq> 0 then OEMU_OP_MRS else OEMU_OP_MSR)\<rparr>))"

definition decode_uncond_branch_reg :: "u32 \<Rightarrow> oemu_insn \<Rightarrow> decoded" where
  "decode_uncond_branch_reg word insn =
     (let opc = BITS word 21 4;
          op2 = BITS word 16 5;
          op3 = BITS word 10 6;
          op4 = BITS word 0 5
      in if op2 \<noteq> 0x1F \<or> op3 \<noteq> 0 \<or> op4 \<noteq> 0
         then (if op3 \<noteq> 0 then (OEMU_ERR_UNSUPPORTED, insn) else (OEMU_ERR_DECODE, insn))
         else let insn = insn\<lparr>i_rn := field_rn word, i_operand_kind := OEMU_OPERAND_REG\<rparr>
         in if opc = 0x0 then (OEMU_OK, insn\<lparr>i_op := OEMU_OP_BR\<rparr>)
            else if opc = 0x1 then (OEMU_OK, insn\<lparr>i_op := OEMU_OP_BLR\<rparr>)
            else if opc = 0x2 then (OEMU_OK, insn\<lparr>i_op := OEMU_OP_RET\<rparr>)
            else if opc = 0x4
            then (OEMU_OK, insn\<lparr>i_operand_kind := OEMU_OPERAND_NONE, i_op := OEMU_OP_ERET\<rparr>)
            else if opc = 0x5 then (OEMU_ERR_UNSUPPORTED, insn)
            else (OEMU_ERR_DECODE, insn))"

definition decode_branch_system :: "u32 \<Rightarrow> u64 \<Rightarrow> oemu_insn \<Rightarrow> decoded" where
  "decode_branch_system word pc insn =
     (let op0 = BITS word 29 3
      in if op0 = 0x0 \<or> op0 = 0x4 then decode_uncond_branch_imm word pc insn
         else if op0 = 0x2
         then (if BIT word 25 \<noteq> 0 then (OEMU_ERR_DECODE, insn)
               else decode_cond_branch_imm word pc insn)
         else if op0 = 0x1 \<or> op0 = 0x5
         then (if BIT word 25 = 0 then decode_compare_branch word pc insn
               else decode_test_branch word pc insn)
         else if op0 = 0x6
         then (if BIT word 25 \<noteq> 0 then decode_uncond_branch_reg word insn
               else if BIT word 24 = 0 then decode_exception word insn
               else decode_system word insn)
         else (OEMU_ERR_DECODE, insn))"

section \<open>Data processing: register\<close>

definition decode_logical_shifted :: "u32 \<Rightarrow> oemu_insn \<Rightarrow> decoded" where
  "decode_logical_shifted word insn =
     (let opc = BITS word 29 2;
          negate = (BIT word 21 \<noteq> 0);
          shift = BITS word 22 2;
          amount = BITS word 10 6;
          width = width_from_sf word
      in if width = OEMU_REG_W32 \<and> amount \<ge> 32 then (OEMU_ERR_DECODE, insn)
         else let insn = insn\<lparr>i_width := width, i_rd := field_rd word, i_rn := field_rn word,
                i_rm := field_rm word, i_shift_type := to_shift_type shift,
                i_shift_amount := unat amount,
                i_operand_kind := (if amount \<noteq> 0 then OEMU_OPERAND_REG_SHIFTED
                                   else OEMU_OPERAND_REG)\<rparr>
         in if opc = 0x0
            then (OEMU_OK, insn\<lparr>i_op := (if negate then OEMU_OP_BIC else OEMU_OP_AND)\<rparr>)
            else if opc = 0x1
            then (OEMU_OK, insn\<lparr>i_op := (if negate then OEMU_OP_ORN else OEMU_OP_ORR)\<rparr>)
            else if opc = 0x2
            then (OEMU_OK, insn\<lparr>i_op := (if negate then OEMU_OP_EON else OEMU_OP_EOR)\<rparr>)
            else (OEMU_OK, insn\<lparr>i_op := (if negate then OEMU_OP_BICS else OEMU_OP_ANDS),
                    i_sets_flags := True\<rparr>))"

definition decode_addsub_shifted :: "u32 \<Rightarrow> oemu_insn \<Rightarrow> decoded" where
  "decode_addsub_shifted word insn =
     (let shift = BITS word 22 2;
          amount = BITS word 10 6;
          width = width_from_sf word
      in if shift = 0x3 then (OEMU_ERR_DECODE, insn)
         else if width = OEMU_REG_W32 \<and> amount \<ge> 32 then (OEMU_ERR_DECODE, insn)
         else let is_sub = (BIT word 30 \<noteq> 0);
                  sets_flags = (BIT word 29 \<noteq> 0)
         in (OEMU_OK, insn\<lparr>i_width := width, i_rd := field_rd word, i_rn := field_rn word,
               i_rm := field_rm word, i_shift_type := to_shift_type shift,
               i_shift_amount := unat amount,
               i_operand_kind := (if amount \<noteq> 0 then OEMU_OPERAND_REG_SHIFTED
                                  else OEMU_OPERAND_REG),
               i_sets_flags := sets_flags, i_op := addsub_opcode is_sub sets_flags\<rparr>))"

definition decode_addsub_extended :: "u32 \<Rightarrow> oemu_insn \<Rightarrow> decoded" where
  "decode_addsub_extended word insn =
     (if BITS word 22 2 \<noteq> 0 then (OEMU_ERR_DECODE, insn)
      else let amount = unat (BITS word 10 3)
      in if \<not> oemu_decode_internal_extend_amount_valid amount then (OEMU_ERR_DECODE, insn)
         else let is_sub = (BIT word 30 \<noteq> 0);
                  sets_flags = (BIT word 29 \<noteq> 0)
         in (OEMU_OK, insn\<lparr>i_width := width_from_sf word, i_rd := field_rd word,
               i_rn := field_rn word, i_rm := field_rm word,
               i_extend_type := to_extend_type (BITS word 13 3), i_shift_amount := amount,
               i_operand_kind := OEMU_OPERAND_REG_EXTENDED, i_sets_flags := sets_flags,
               i_op := addsub_opcode is_sub sets_flags,
               i_rn_is_sp_form := True, i_rd_is_sp_form := \<not> sets_flags\<rparr>))"

definition decode_addsub_carry :: "u32 \<Rightarrow> oemu_insn \<Rightarrow> decoded" where
  "decode_addsub_carry word insn =
     (if BITS word 10 6 \<noteq> 0 then (OEMU_ERR_DECODE, insn)
      else let is_sub = (BIT word 30 \<noteq> 0);
               sets_flags = (BIT word 29 \<noteq> 0)
      in (OEMU_OK, insn\<lparr>i_width := width_from_sf word, i_rd := field_rd word,
            i_rn := field_rn word, i_rm := field_rm word, i_operand_kind := OEMU_OPERAND_REG,
            i_sets_flags := sets_flags, i_op := addsub_carry_opcode is_sub sets_flags\<rparr>))"

definition decode_cond_compare :: "u32 \<Rightarrow> oemu_insn \<Rightarrow> decoded" where
  "decode_cond_compare word insn =
     (if BIT word 29 = 0 \<or> BIT word 10 \<noteq> 0 \<or> BIT word 4 \<noteq> 0 then (OEMU_ERR_DECODE, insn)
      else let is_imm = (BIT word 11 \<noteq> 0);
               insn = insn\<lparr>i_width := width_from_sf word, i_rn := field_rn word,
                 i_cond := to_cond (BITS word 12 4), i_uimm := ucast (BITS word 0 4),
                 i_sets_flags := True\<rparr>;
               insn = (if is_imm
                       then insn\<lparr>i_operand_kind := OEMU_OPERAND_IMM,
                                 i_imm := ucast (BITS word 16 5)\<rparr>
                       else insn\<lparr>i_operand_kind := OEMU_OPERAND_REG, i_rm := field_rm word\<rparr>)
      in (OEMU_OK, insn\<lparr>i_op := (if BIT word 30 \<noteq> 0 then OEMU_OP_CCMP else OEMU_OP_CCMN)\<rparr>))"

definition decode_cond_select :: "u32 \<Rightarrow> oemu_insn \<Rightarrow> decoded" where
  "decode_cond_select word insn =
     (if BIT word 29 \<noteq> 0 \<or> BIT word 11 \<noteq> 0 then (OEMU_ERR_DECODE, insn)
      else let op = BIT word 30;
               o2 = BIT word 10;
               insn = insn\<lparr>i_width := width_from_sf word, i_rd := field_rd word,
                 i_rn := field_rn word, i_rm := field_rm word,
                 i_cond := to_cond (BITS word 12 4), i_operand_kind := OEMU_OPERAND_REG\<rparr>
      in if op = 0
         then (OEMU_OK, insn\<lparr>i_op := (if o2 = 0 then OEMU_OP_CSEL else OEMU_OP_CSINC)\<rparr>)
         else (OEMU_OK, insn\<lparr>i_op := (if o2 = 0 then OEMU_OP_CSINV else OEMU_OP_CSNEG)\<rparr>))"

definition decode_dp_1source :: "u32 \<Rightarrow> oemu_insn \<Rightarrow> decoded" where
  "decode_dp_1source word insn =
     (if BIT word 29 \<noteq> 0 \<or> BITS word 16 5 \<noteq> 0 then (OEMU_ERR_DECODE, insn)
      else let opcode = BITS word 10 6;
               width = width_from_sf word;
               insn = insn\<lparr>i_width := width, i_rd := field_rd word, i_rn := field_rn word,
                 i_operand_kind := OEMU_OPERAND_NONE\<rparr>
      in if opcode = 0x0 then (OEMU_OK, insn\<lparr>i_op := OEMU_OP_RBIT\<rparr>)
         else if opcode = 0x1 then (OEMU_OK, insn\<lparr>i_op := OEMU_OP_REV16\<rparr>)
         else if opcode = 0x2
         then (OEMU_OK, insn\<lparr>i_op := (if width = OEMU_REG_W32 then OEMU_OP_REV else OEMU_OP_REV32)\<rparr>)
         else if opcode = 0x3
         then (if width = OEMU_REG_W32 then (OEMU_ERR_DECODE, insn)
               else (OEMU_OK, insn\<lparr>i_op := OEMU_OP_REV\<rparr>))
         else if opcode = 0x4 then (OEMU_OK, insn\<lparr>i_op := OEMU_OP_CLZ\<rparr>)
         else if opcode = 0x5 then (OEMU_OK, insn\<lparr>i_op := OEMU_OP_CLS\<rparr>)
         else (OEMU_ERR_DECODE, insn))"

definition decode_dp_2source :: "u32 \<Rightarrow> oemu_insn \<Rightarrow> decoded" where
  "decode_dp_2source word insn =
     (if BIT word 29 \<noteq> 0 then (OEMU_ERR_DECODE, insn)
      else let opcode = BITS word 10 6;
               insn = insn\<lparr>i_width := width_from_sf word, i_rd := field_rd word,
                 i_rn := field_rn word, i_rm := field_rm word,
                 i_operand_kind := OEMU_OPERAND_REG\<rparr>
      in if opcode = 0x02 then (OEMU_OK, insn\<lparr>i_op := OEMU_OP_UDIV\<rparr>)
         else if opcode = 0x03 then (OEMU_OK, insn\<lparr>i_op := OEMU_OP_SDIV\<rparr>)
         else if opcode = 0x08 then (OEMU_OK, insn\<lparr>i_op := OEMU_OP_LSLV\<rparr>)
         else if opcode = 0x09 then (OEMU_OK, insn\<lparr>i_op := OEMU_OP_LSRV\<rparr>)
         else if opcode = 0x0A then (OEMU_OK, insn\<lparr>i_op := OEMU_OP_ASRV\<rparr>)
         else if opcode = 0x0B then (OEMU_OK, insn\<lparr>i_op := OEMU_OP_RORV\<rparr>)
         else if 0x10 \<le> opcode \<and> opcode \<le> 0x17
         then (OEMU_OK, insn\<lparr>i_op := (if opcode \<ge> 0x14 then OEMU_OP_CRC32C else OEMU_OP_CRC32),
                 i_uimm := push_bit (unat (opcode AND 0x3)) 1, i_width := OEMU_REG_W32\<rparr>)
         else (OEMU_ERR_DECODE, insn))"

definition decode_dp_3source :: "u32 \<Rightarrow> oemu_insn \<Rightarrow> decoded" where
  "decode_dp_3source word insn =
     (if BITS word 29 2 \<noteq> 0 then (OEMU_ERR_DECODE, insn)
      else let op31 = BITS word 21 3;
               o0 = BIT word 15;
               width = width_from_sf word;
               insn = insn\<lparr>i_width := width, i_rd := field_rd word, i_rn := field_rn word,
                 i_rm := field_rm word, i_ra := field_ra word,
                 i_operand_kind := OEMU_OPERAND_REG\<rparr>
      in if op31 = 0x0
         then (OEMU_OK, insn\<lparr>i_op := (if o0 = 0 then OEMU_OP_MADD else OEMU_OP_MSUB)\<rparr>)
         else if width \<noteq> OEMU_REG_W64 then (OEMU_ERR_DECODE, insn)
         else if op31 = 0x1
         then (OEMU_OK, insn\<lparr>i_op := (if o0 = 0 then OEMU_OP_SMADDL else OEMU_OP_SMSUBL)\<rparr>)
         else if op31 = 0x2
         then (if o0 \<noteq> 0 then (OEMU_ERR_DECODE, insn)
               else (OEMU_OK, insn\<lparr>i_op := OEMU_OP_SMULH\<rparr>))
         else if op31 = 0x5
         then (OEMU_OK, insn\<lparr>i_op := (if o0 = 0 then OEMU_OP_UMADDL else OEMU_OP_UMSUBL)\<rparr>)
         else if op31 = 0x6
         then (if o0 \<noteq> 0 then (OEMU_ERR_DECODE, insn)
               else (OEMU_OK, insn\<lparr>i_op := OEMU_OP_UMULH\<rparr>))
         else (OEMU_ERR_DECODE, insn))"

definition decode_dp_register :: "u32 \<Rightarrow> oemu_insn \<Rightarrow> decoded" where
  "decode_dp_register word insn =
     (let op1 = BIT word 28;
          op2 = BITS word 21 4
      in if op1 = 0
         then (if op2 AND 0x8 = 0 then decode_logical_shifted word insn
               else if op2 AND 0x1 \<noteq> 0 then decode_addsub_extended word insn
               else decode_addsub_shifted word insn)
         else if op2 = 0x0 then decode_addsub_carry word insn
         else if op2 = 0x2 then decode_cond_compare word insn
         else if op2 = 0x4 then decode_cond_select word insn
         else if op2 = 0x6
         then (if BIT word 30 \<noteq> 0 then decode_dp_1source word insn
               else decode_dp_2source word insn)
         else if op2 AND 0x8 \<noteq> 0 then decode_dp_3source word insn
         else (OEMU_ERR_DECODE, insn))"

section \<open>Loads and stores\<close>

definition classify_load_store :: "u32 \<Rightarrow> oemu_mem_size \<Rightarrow> oemu_insn \<Rightarrow> decoded" where
  "classify_load_store opc sz insn =
     (if opc = 0x0 then (OEMU_OK, insn\<lparr>i_op := OEMU_OP_STR\<rparr>)
      else if opc = 0x1 then (OEMU_OK, insn\<lparr>i_op := OEMU_OP_LDR\<rparr>)
      else if sz = OEMU_MEM_DWORD
      then (if opc = 0x2 then (OEMU_OK, insn\<lparr>i_op := OEMU_OP_HINT\<rparr>)
            else (OEMU_ERR_DECODE, insn))
      else if sz = OEMU_MEM_WORD \<and> opc = 0x3 then (OEMU_ERR_DECODE, insn)
      else (OEMU_OK, insn\<lparr>i_op := OEMU_OP_LDRS, i_is_signed_load := True,
              i_width := (if opc = 0x2 then OEMU_REG_W64 else OEMU_REG_W32)\<rparr>))"

definition decode_ldst_unsigned_imm :: "u32 \<Rightarrow> oemu_insn \<Rightarrow> decoded" where
  "decode_ldst_unsigned_imm word insn =
     (let sz = to_mem_size (BITS word 30 2);
          opc = BITS word 22 2;
          insn = insn\<lparr>i_mem_size := sz,
            i_width := (if sz = OEMU_MEM_DWORD then OEMU_REG_W64 else OEMU_REG_W32)\<rparr>;
          (status, insn) = classify_load_store opc sz insn
      in if status \<noteq> OEMU_OK then (status, insn)
         else let uimm = push_bit (mem_size_val sz) (ucast (BITS word 10 12)) :: u64
         in (OEMU_OK, insn\<lparr>i_rd := field_rd word, i_rn := field_rn word, i_rt2 := field_rd word,
               i_operand_kind := OEMU_OPERAND_MEM, i_index_mode := OEMU_INDEX_NONE,
               i_uimm := uimm, i_imm := uimm, i_rn_is_sp_form := True\<rparr>))"

definition decode_ldst_imm_unscaled :: "u32 \<Rightarrow> oemu_insn \<Rightarrow> decoded" where
  "decode_ldst_imm_unscaled word insn =
     (let sz = to_mem_size (BITS word 30 2);
          opc = BITS word 22 2;
          form = BITS word 10 2;
          insn = insn\<lparr>i_mem_size := sz,
            i_width := (if sz = OEMU_MEM_DWORD then OEMU_REG_W64 else OEMU_REG_W32)\<rparr>;
          (status, insn) = classify_load_store opc sz insn
      in if status \<noteq> OEMU_OK then (status, insn)
         else let imm = oemu_decode_internal_sign_extend (ucast (BITS word 12 9)) 9
         in (OEMU_OK, insn\<lparr>
               i_index_mode := (if form = 0x0 then OEMU_INDEX_NONE
                                else if form = 0x1 then OEMU_INDEX_POST
                                else if form = 0x3 then OEMU_INDEX_PRE
                                else OEMU_INDEX_NONE),
               i_rd := field_rd word, i_rn := field_rn word, i_rt2 := field_rd word,
               i_operand_kind := OEMU_OPERAND_MEM, i_imm := imm, i_uimm := imm,
               i_rn_is_sp_form := True\<rparr>))"

definition decode_ldst_reg_offset :: "u32 \<Rightarrow> oemu_insn \<Rightarrow> decoded" where
  "decode_ldst_reg_offset word insn =
     (let sz = to_mem_size (BITS word 30 2);
          opc = BITS word 22 2;
          opt = BITS word 13 3
      in if opt AND 0x2 = 0 then (OEMU_ERR_DECODE, insn)
         else let insn = insn\<lparr>i_mem_size := sz,
                i_width := (if sz = OEMU_MEM_DWORD then OEMU_REG_W64 else OEMU_REG_W32)\<rparr>;
              (status, insn) = classify_load_store opc sz insn
         in if status \<noteq> OEMU_OK then (status, insn)
            else (OEMU_OK, insn\<lparr>i_rd := field_rd word, i_rn := field_rn word,
                  i_rm := field_rm word, i_rt2 := field_rd word,
                  i_operand_kind := OEMU_OPERAND_MEM, i_index_mode := OEMU_INDEX_NONE,
                  i_extend_type := to_extend_type opt,
                  i_shift_amount := (if BIT word 12 \<noteq> 0 then mem_size_val sz else 0),
                  i_extend_is_lsl := (opt = 0x3), i_rn_is_sp_form := True\<rparr>))"

definition decode_vec_dup :: "u32 \<Rightarrow> oemu_insn \<Rightarrow> decoded" where
  "decode_vec_dup word insn =
     (OEMU_OK, insn\<lparr>i_op := OEMU_OP_VEC_DUP, i_rd := field_rd word, i_rm := field_rn word,
        i_operand_kind := OEMU_OPERAND_REG, i_is_vector := True,
        i_mem_size := (if BIT word 30 \<noteq> 0 then OEMU_MEM_128 else OEMU_MEM_DWORD)\<rparr>)"

definition decode_ldst_vector :: "u32 \<Rightarrow> oemu_insn \<Rightarrow> decoded" where
  "decode_ldst_vector word insn =
     (if BITS word 30 2 \<noteq> 0 \<or> BIT word 23 = 0 then (OEMU_ERR_UNSUPPORTED, insn)
      else let is_load = (BIT word 22 \<noteq> 0);
               insn = insn\<lparr>i_op := (if is_load then OEMU_OP_LDR else OEMU_OP_STR),
                 i_is_vector := True, i_mem_size := OEMU_MEM_128, i_rd := field_rd word,
                 i_rn := field_rn word, i_operand_kind := OEMU_OPERAND_MEM,
                 i_rn_is_sp_form := True\<rparr>
      in if BIT word 24 \<noteq> 0
         then let imm = push_bit 4 (ucast (BITS word 12 10)) :: u64
              in (OEMU_OK, insn\<lparr>i_index_mode := OEMU_INDEX_NONE, i_imm := imm, i_uimm := imm\<rparr>)
         else let form = BITS word 10 2;
                  imm = oemu_decode_internal_sign_extend (ucast (BITS word 12 9)) 9
              in if form = 0x0
                 then (OEMU_OK, insn\<lparr>i_index_mode := OEMU_INDEX_NONE, i_imm := imm, i_uimm := imm\<rparr>)
                 else if form = 0x1
                 then (OEMU_OK, insn\<lparr>i_index_mode := OEMU_INDEX_POST, i_imm := imm, i_uimm := imm\<rparr>)
                 else if form = 0x3
                 then (OEMU_OK, insn\<lparr>i_index_mode := OEMU_INDEX_PRE, i_imm := imm, i_uimm := imm\<rparr>)
                 else (OEMU_ERR_UNSUPPORTED, insn))"

text \<open>The pair forms' addressing selector: 1 post-index, 2 offset, 3 pre-index, and 0 the
  non-temporal pair, which addresses like the offset form.\<close>

definition pair_index_mode :: "u32 \<Rightarrow> oemu_index_mode" where
  "pair_index_mode form =
     (if form = 0x1 then OEMU_INDEX_POST
      else if form = 0x2 then OEMU_INDEX_NONE
      else if form = 0x3 then OEMU_INDEX_PRE
      else OEMU_INDEX_NONE)"

definition decode_ldst_pair_vector :: "u32 \<Rightarrow> oemu_insn \<Rightarrow> decoded" where
  "decode_ldst_pair_vector word insn =
     (let opc = BITS word 30 2;
          is_load = (BIT word 22 \<noteq> 0);
          form = BITS word 23 2
      in if opc = 0x3 then (OEMU_ERR_DECODE, insn)
         else let sz = (if opc = 0x0 then OEMU_MEM_WORD
                          else if opc = 0x1 then OEMU_MEM_DWORD else OEMU_MEM_128);
                  imm = oemu_decode_internal_sign_extend (ucast (BITS word 15 7)) 7
                          * push_bit (mem_size_val sz) 1
         in (OEMU_OK, insn\<lparr>i_is_vector := True,
               i_op := (if is_load then OEMU_OP_LDP else OEMU_OP_STP),
               i_mem_size := sz, i_index_mode := pair_index_mode form,
               i_rd := field_rd word, i_rn := field_rn word, i_rt2 := unat (BITS word 10 5),
               i_operand_kind := OEMU_OPERAND_MEM, i_imm := imm, i_uimm := imm,
               i_rn_is_sp_form := True\<rparr>))"

definition decode_ldst_pair :: "u32 \<Rightarrow> oemu_insn \<Rightarrow> decoded" where
  "decode_ldst_pair word insn =
     (let opc = BITS word 30 2;
          is_load = (BIT word 22 \<noteq> 0);
          form = BITS word 23 2
      in if opc = 0x3 then (OEMU_ERR_DECODE, insn)
         else if opc = 0x1 \<and> \<not> is_load then (OEMU_ERR_DECODE, insn)
         else let insn =
                    (if opc = 0x1
                     then insn\<lparr>i_op := OEMU_OP_LDPSW, i_mem_size := OEMU_MEM_WORD,
                               i_width := OEMU_REG_W64, i_is_signed_load := True\<rparr>
                     else insn\<lparr>i_op := (if is_load then OEMU_OP_LDP else OEMU_OP_STP),
                               i_mem_size := (if opc = 0x2 then OEMU_MEM_DWORD else OEMU_MEM_WORD),
                               i_width := (if opc = 0x2 then OEMU_REG_W64 else OEMU_REG_W32)\<rparr>);
                  imm = oemu_decode_internal_sign_extend (ucast (BITS word 15 7)) 7
                          * push_bit (mem_size_val (i_mem_size insn)) 1
         in (OEMU_OK, insn\<lparr>i_index_mode := pair_index_mode form,
               i_rd := field_rd word, i_rn := field_rn word, i_rt2 := unat (BITS word 10 5),
               i_operand_kind := OEMU_OPERAND_MEM, i_imm := imm, i_uimm := imm,
               i_rn_is_sp_form := True\<rparr>))"

definition decode_ldst_literal :: "u32 \<Rightarrow> u64 \<Rightarrow> oemu_insn \<Rightarrow> decoded" where
  "decode_ldst_literal word pc insn =
     (let opc = BITS word 30 2
      in if opc = 0x3
         then (OEMU_OK, insn\<lparr>i_op := OEMU_OP_HINT, i_operand_kind := OEMU_OPERAND_NONE\<rparr>)
         else let insn =
                    (if opc = 0x2
                     then insn\<lparr>i_op := OEMU_OP_LDRS, i_is_signed_load := True,
                               i_mem_size := OEMU_MEM_WORD, i_width := OEMU_REG_W64\<rparr>
                     else insn\<lparr>i_op := OEMU_OP_LDR,
                               i_mem_size := (if opc = 0x1 then OEMU_MEM_DWORD else OEMU_MEM_WORD),
                               i_width := (if opc = 0x1 then OEMU_REG_W64 else OEMU_REG_W32)\<rparr>);
                  offset = oemu_decode_internal_sign_extend (ucast (BITS word 5 19)) 19
         in (OEMU_OK, insn\<lparr>i_rd := field_rd word, i_rt2 := field_rd word,
               i_operand_kind := OEMU_OPERAND_IMM, i_imm := pc + push_bit 2 offset\<rparr>))"

definition decode_ldst_exclusive :: "u32 \<Rightarrow> oemu_insn \<Rightarrow> decoded" where
  "decode_ldst_exclusive word insn =
     (let sz = to_mem_size (BITS word 30 2);
          o2 = BIT word 23;
          l = BIT word 22;
          o1 = BIT word 21;
          o0 = BIT word 15
      in if o1 \<noteq> 0 then (OEMU_ERR_UNSUPPORTED, insn)
         else let insn = insn\<lparr>i_mem_size := sz,
                i_width := (if sz = OEMU_MEM_DWORD then OEMU_REG_W64 else OEMU_REG_W32),
                i_rd := field_rd word, i_rn := field_rn word, i_rm := unat (BITS word 16 5),
                i_rt2 := field_rd word, i_operand_kind := OEMU_OPERAND_MEM,
                i_rn_is_sp_form := True\<rparr>
         in if o2 = 0
            then (OEMU_OK, insn\<lparr>i_op := (if l \<noteq> 0 then OEMU_OP_LDXR else OEMU_OP_STXR)\<rparr>)
            else if o0 = 0 then (OEMU_ERR_DECODE, insn)
            else (OEMU_OK, insn\<lparr>i_op := (if l \<noteq> 0 then OEMU_OP_LDAR else OEMU_OP_STLR)\<rparr>))"

definition decode_load_store :: "u32 \<Rightarrow> u64 \<Rightarrow> oemu_insn \<Rightarrow> decoded" where
  "decode_load_store word pc insn =
     (let op0 = BITS word 28 2
      in if BIT word 26 \<noteq> 0
         then (if BITS word 28 2 = 0x3 \<and> BITS word 30 2 = 0 \<and> BITS word 25 1 = 0
               then decode_ldst_vector word insn
               else if op0 = 0x2 \<and> BITS word 25 1 = 0 then decode_ldst_pair_vector word insn
               else (OEMU_ERR_UNSUPPORTED, insn))
         else if op0 = 0x0
         then (if BITS word 24 2 \<noteq> 0 then (OEMU_ERR_DECODE, insn)
               else decode_ldst_exclusive word insn)
         else if op0 = 0x1
         then (if BIT word 24 \<noteq> 0 then (OEMU_ERR_DECODE, insn)
               else decode_ldst_literal word pc insn)
         else if op0 = 0x2 then decode_ldst_pair word insn
         else if BIT word 24 \<noteq> 0 then decode_ldst_unsigned_imm word insn
         else if BIT word 21 \<noteq> 0 then decode_ldst_reg_offset word insn
         else decode_ldst_imm_unscaled word insn)"

section \<open>Top level\<close>

definition decode_group :: "u32 \<Rightarrow> u64 \<Rightarrow> oemu_insn \<Rightarrow> decoded" where
  "decode_group word pc insn =
     (let op0 = BITS word 25 4
      in if op0 = 0x8 \<or> op0 = 0x9 then decode_dp_immediate word pc insn
         else if op0 = 0xA \<or> op0 = 0xB then decode_branch_system word pc insn
         else if op0 = 0x4 \<or> op0 = 0x6 \<or> op0 = 0xC \<or> op0 = 0xE then decode_load_store word pc insn
         else if op0 = 0x5 \<or> op0 = 0xD then decode_dp_register word insn
         else if op0 = 0x7 \<or> op0 = 0xF
         then (if word AND 0xBFFFFC00 = 0x0E010C00 then decode_vec_dup word insn
               else (OEMU_ERR_UNSUPPORTED, insn))
         else ((if op0 = 0x2 \<or> op0 = 0x3 then OEMU_ERR_UNSUPPORTED else OEMU_ERR_DECODE), insn))"

definition oemu_decode :: "u32 \<Rightarrow> u64 \<Rightarrow> decoded" where
  "oemu_decode word pc =
     (let (status, insn) = decode_group word pc (insn_reset word)
      in if status \<noteq> OEMU_OK then (status, insn_reset word) else (status, insn))"

lemmas decode_defs [decode_eval] =
  oemu_decode_internal_bits_def oemu_decode_internal_sign_extend_def oemu_decode_internal_ror_def
  bit_masks_len_def oemu_decode_internal_bit_masks_def oemu_decode_internal_extend_amount_valid_def
  field_rd_def field_rn_def field_rm_def field_ra_def width_from_sf_def to_cond_def
  to_shift_type_def to_extend_type_def to_mem_size_def addsub_opcode_def addsub_carry_opcode_def
  move_wide_opcode_def bitfield_opcode_def pair_index_mode_def classify_load_store_def

lemmas decode_group_defs [decode_eval] =
  decode_pc_rel_addr_def decode_addsub_imm_def decode_logical_imm_def decode_move_wide_def
  decode_bitfield_def decode_extract_def decode_dp_immediate_def decode_uncond_branch_imm_def
  decode_cond_branch_imm_def decode_compare_branch_def decode_test_branch_def decode_exception_def
  decode_hints_and_barriers_def decode_system_def decode_uncond_branch_reg_def
  decode_branch_system_def decode_logical_shifted_def decode_addsub_shifted_def
  decode_addsub_extended_def decode_addsub_carry_def decode_cond_compare_def
  decode_cond_select_def decode_dp_1source_def decode_dp_2source_def decode_dp_3source_def
  decode_dp_register_def decode_ldst_unsigned_imm_def decode_ldst_imm_unscaled_def
  decode_ldst_reg_offset_def decode_vec_dup_def decode_ldst_vector_def
  decode_ldst_pair_vector_def decode_ldst_pair_def decode_ldst_literal_def
  decode_ldst_exclusive_def decode_load_store_def decode_group_def oemu_decode_def

declare insn_reset_def [decode_eval] Let_def [decode_eval]

end
