(* ===== verification/Oemu_Decode_Wf.thy ===== *)
theory Oemu_Decode_Wf
  imports Oemu_Decode
begin

text \<open>
  What every successful decode guarantees the executor: register numbers of five bits, shift
  amounts and bit positions inside the operand width, an operand kind the opcode can use, and
  transfer sizes the bus has. Every decode that fails leaves the reset instruction, and only the
  PC-relative forms look at the PC.
\<close>

section \<open>Bit fields\<close>

lemma bits_take_bit: "n < 32 \<Longrightarrow> BITS w l n = take_bit n (drop_bit l w)"
  by (simp add: oemu_decode_internal_bits_def take_bit_eq_mask mask_eq_exp_minus_1 push_bit_of_1)

lemma unat_bits_less: "n < 32 \<Longrightarrow> unat (BITS w l n) < 2 ^ n"
  by (simp add: bits_take_bit unsigned_take_bit_eq take_bit_nat_less_exp)

lemma field_bounds [simp]:
  "field_rd w \<le> 31" "field_rn w \<le> 31" "field_rm w \<le> 31" "field_ra w \<le> 31"
  "unat (BITS w l 5) \<le> 31"
  using unat_bits_less [of 5 w 0] unat_bits_less [of 5 w 5] unat_bits_less [of 5 w 16]
    unat_bits_less [of 5 w 10] unat_bits_less [of 5 w l]
  by (simp_all add: field_rd_def field_rn_def field_rm_def field_ra_def)

lemma bits6_less [simp]: "unat (BITS w l 6) < 64"
  using unat_bits_less [of 6 w l] by simp

section \<open>Well-formed instructions\<close>

definition addsub_ops :: "oemu_opcode set" where
  "addsub_ops = {OEMU_OP_ADD, OEMU_OP_ADDS, OEMU_OP_SUB, OEMU_OP_SUBS}"

definition logical_ops :: "oemu_opcode set" where
  "logical_ops = {OEMU_OP_AND, OEMU_OP_ANDS, OEMU_OP_ORR, OEMU_OP_EOR, OEMU_OP_BIC,
     OEMU_OP_BICS, OEMU_OP_ORN, OEMU_OP_EON}"

definition bitfield_ops :: "oemu_opcode set" where
  "bitfield_ops = {OEMU_OP_SBFM, OEMU_OP_BFM, OEMU_OP_UBFM}"

definition move_wide_ops :: "oemu_opcode set" where
  "move_wide_ops = {OEMU_OP_MOVZ, OEMU_OP_MOVN, OEMU_OP_MOVK}"

definition crc_ops :: "oemu_opcode set" where
  "crc_ops = {OEMU_OP_CRC32, OEMU_OP_CRC32C}"

definition vector_ops :: "oemu_opcode set" where
  "vector_ops = {OEMU_OP_LDR, OEMU_OP_STR, OEMU_OP_LDP, OEMU_OP_STP, OEMU_OP_VEC_DUP}"

lemmas op_sets = addsub_ops_def logical_ops_def bitfield_ops_def move_wide_ops_def crc_ops_def
  vector_ops_def

definition regs_wf :: "oemu_insn \<Rightarrow> bool" where
  "regs_wf i \<longleftrightarrow> i_rd i \<le> 31 \<and> i_rn i \<le> 31 \<and> i_rm i \<le> 31 \<and> i_ra i \<le> 31 \<and> i_rt2 i \<le> 31"

definition insn_wf :: "oemu_insn \<Rightarrow> bool" where
  "insn_wf i \<longleftrightarrow>
     i_op i \<noteq> OEMU_OP_UNKNOWN \<and> regs_wf i \<and>
     i_bit_pos i < reg_bits (i_width i) \<and> i_shift_amount i < 64 \<and>
     (i_op i \<in> addsub_ops \<union> logical_ops \<longrightarrow>
        i_operand_kind i \<noteq> OEMU_OPERAND_NONE \<and> i_operand_kind i \<noteq> OEMU_OPERAND_MEM) \<and>
     (i_op i \<in> addsub_ops \<longrightarrow> i_sets_flags i = (i_op i = OEMU_OP_ADDS \<or> i_op i = OEMU_OP_SUBS)) \<and>
     (i_operand_kind i = OEMU_OPERAND_REG_SHIFTED \<longrightarrow>
        0 < i_shift_amount i \<and> i_shift_amount i < reg_bits (i_width i)) \<and>
     (i_operand_kind i = OEMU_OPERAND_REG_EXTENDED \<or> i_operand_kind i = OEMU_OPERAND_MEM \<longrightarrow>
        i_shift_amount i \<le> 4) \<and>
     (i_op i = OEMU_OP_EXTR \<or> i_op i \<in> bitfield_ops \<longrightarrow> i_shift_amount i < reg_bits (i_width i)) \<and>
     (i_op i \<in> move_wide_ops \<longrightarrow>
        i_shift_amount i + 16 \<le> reg_bits (i_width i)) \<and>
     (i_op i \<in> crc_ops \<longrightarrow> i_uimm i \<in> {1, 2, 4, 8}) \<and>
     (if i_is_vector i then i_op i \<in> vector_ops else i_mem_size i \<noteq> OEMU_MEM_128)"

lemma insn_wfD:
  assumes "insn_wf i"
  shows "i_op i \<noteq> OEMU_OP_UNKNOWN" "i_rd i \<le> 31" "i_rn i \<le> 31" "i_rm i \<le> 31" "i_ra i \<le> 31"
    "i_rt2 i \<le> 31"
  using assms by (auto simp: insn_wf_def regs_wf_def)

lemma reset_fields [simp]:
  "i_word (insn_reset w) = w" "i_op (insn_reset w) = OEMU_OP_UNKNOWN"
  "i_operand_kind (insn_reset w) = OEMU_OPERAND_NONE" "i_width (insn_reset w) = OEMU_REG_W64"
  "i_rd (insn_reset w) = 0" "i_rn (insn_reset w) = 0" "i_rm (insn_reset w) = 0"
  "i_ra (insn_reset w) = 0" "i_rt2 (insn_reset w) = 0" "i_shift_amount (insn_reset w) = 0"
  "i_bit_pos (insn_reset w) = 0" "i_is_vector (insn_reset w) = False"
  "i_mem_size (insn_reset w) = OEMU_MEM_BYTE" "i_sets_flags (insn_reset w) = False"
  by (simp_all add: insn_reset_def)

lemmas wf_unfold = insn_wf_def regs_wf_def Let_def

lemma reg_bits_pos [simp]: "0 < reg_bits w"
  by (cases w) simp_all

lemma addsub_opcode_class [simp]:
  "addsub_opcode s f \<noteq> OEMU_OP_UNKNOWN" "addsub_opcode s f \<in> addsub_ops"
  "addsub_opcode s f \<notin> logical_ops" "addsub_opcode s f \<notin> bitfield_ops"
  "addsub_opcode s f \<noteq> OEMU_OP_EXTR" "addsub_opcode s f \<notin> move_wide_ops"
  "addsub_opcode s f \<notin> crc_ops" "addsub_opcode s f = OEMU_OP_ADDS \<longleftrightarrow> \<not> s \<and> f"
  "addsub_opcode s f = OEMU_OP_SUBS \<longleftrightarrow> s \<and> f"
  by (cases s; cases f; simp add: addsub_opcode_def op_sets)+

lemma addsub_carry_opcode_class [simp]:
  "addsub_carry_opcode s f \<noteq> OEMU_OP_UNKNOWN" "addsub_carry_opcode s f \<notin> addsub_ops"
  "addsub_carry_opcode s f \<notin> logical_ops" "addsub_carry_opcode s f \<notin> bitfield_ops"
  "addsub_carry_opcode s f \<noteq> OEMU_OP_EXTR" "addsub_carry_opcode s f \<notin> move_wide_ops"
  "addsub_carry_opcode s f \<notin> crc_ops" "addsub_carry_opcode s f \<noteq> OEMU_OP_ADDS"
  "addsub_carry_opcode s f \<noteq> OEMU_OP_SUBS"
  by (cases s; cases f; simp add: addsub_carry_opcode_def op_sets)+

lemma move_wide_opcode_class [simp]:
  "move_wide_opcode c \<noteq> OEMU_OP_UNKNOWN" "move_wide_opcode c \<notin> addsub_ops"
  "move_wide_opcode c \<notin> logical_ops" "move_wide_opcode c \<notin> bitfield_ops"
  "move_wide_opcode c \<noteq> OEMU_OP_EXTR" "move_wide_opcode c \<in> move_wide_ops"
  "move_wide_opcode c \<notin> crc_ops" "move_wide_opcode c \<noteq> OEMU_OP_ADDS"
  "move_wide_opcode c \<noteq> OEMU_OP_SUBS"
  by (simp_all add: move_wide_opcode_def op_sets)

lemma bitfield_opcode_class [simp]:
  "bitfield_opcode c \<noteq> OEMU_OP_UNKNOWN" "bitfield_opcode c \<notin> addsub_ops"
  "bitfield_opcode c \<notin> logical_ops" "bitfield_opcode c \<in> bitfield_ops"
  "bitfield_opcode c \<noteq> OEMU_OP_EXTR" "bitfield_opcode c \<notin> move_wide_ops"
  "bitfield_opcode c \<notin> crc_ops" "bitfield_opcode c \<noteq> OEMU_OP_ADDS"
  "bitfield_opcode c \<noteq> OEMU_OP_SUBS"
  by (simp_all add: bitfield_opcode_def op_sets)

lemma width_bits_bounds:
  "\<not> (if width = OEMU_REG_W32 then 32 else 64) \<le> (x :: u32) \<Longrightarrow> unat x < reg_bits width"
  by (cases width) (simp_all add: word_le_nat_alt)

lemma not_le_32 [simp]: "\<not> 32 \<le> (x :: u32) \<Longrightarrow> unat x < 32"
  by (simp add: word_le_nat_alt)

lemma shift_amount_bound:
  "\<not> (width = OEMU_REG_W32 \<and> 32 \<le> BITS w l 6) \<Longrightarrow> unat (BITS w l 6) < reg_bits width"
  by (cases width) (simp_all add: word_le_nat_alt)

lemma mem_size_val_le [simp]: "mem_size_val (to_mem_size c) \<le> 4" "to_mem_size c \<noteq> OEMU_MEM_128"
  by (simp_all add: to_mem_size_def)

lemma bit_masks_err: "oemu_decode_internal_bit_masks n s r w \<noteq> Inl OEMU_OK"
  by (simp add: oemu_decode_internal_bit_masks_def Let_def)

text \<open>Data processing with an immediate.\<close>

lemma decode_pc_rel_addr_wf:
  "decode_pc_rel_addr w pc (insn_reset w) = (OEMU_OK, i) \<Longrightarrow> insn_wf i"
  by (auto simp: decode_pc_rel_addr_def Let_def split: if_splits; simp add: wf_unfold op_sets)

lemma decode_addsub_imm_wf:
  "decode_addsub_imm w (insn_reset w) = (OEMU_OK, i) \<Longrightarrow> insn_wf i"
  by (auto simp: decode_addsub_imm_def wf_unfold split: if_splits)

lemma decode_logical_imm_wf:
  "decode_logical_imm w (insn_reset w) = (OEMU_OK, i) \<Longrightarrow> insn_wf i"
  using bit_masks_err
  by (auto simp: decode_logical_imm_def wf_unfold op_sets split: if_splits sum.splits)

lemma decode_move_wide_wf:
  "decode_move_wide w (insn_reset w) = (OEMU_OK, i) \<Longrightarrow> insn_wf i"
proof -
  have b: "unat (BITS w 21 2) < 4" using unat_bits_less [of 2 w 21] by simp
  then have "16 * unat (BITS w 21 2) + 16 \<le> 64" by linarith
  moreover have "\<not> 1 < BITS w 21 2 \<Longrightarrow> 16 * unat (BITS w 21 2) + 16 \<le> 32"
    by (simp add: word_less_nat_alt)
  moreover assume "decode_move_wide w (insn_reset w) = (OEMU_OK, i)"
  ultimately show ?thesis
    by (cases "width_from_sf w")
      (auto simp: decode_move_wide_def wf_unfold mult.commute [of _ 16] split: if_splits)
qed

lemma decode_bitfield_wf:
  "decode_bitfield w (insn_reset w) = (OEMU_OK, i) \<Longrightarrow> insn_wf i"
  by (auto simp: decode_bitfield_def wf_unfold width_bits_bounds split: if_splits)

lemma decode_extract_wf:
  "decode_extract w (insn_reset w) = (OEMU_OK, i) \<Longrightarrow> insn_wf i"
  by (auto simp: decode_extract_def wf_unfold op_sets width_bits_bounds split: if_splits)

lemma decode_dp_immediate_wf:
  "decode_dp_immediate w pc (insn_reset w) = (OEMU_OK, i) \<Longrightarrow> insn_wf i"
  unfolding decode_dp_immediate_def Let_def
  by (auto split: if_splits intro: decode_pc_rel_addr_wf decode_addsub_imm_wf decode_logical_imm_wf
      decode_move_wide_wf decode_bitfield_wf decode_extract_wf)

text \<open>Branches, exceptions and system instructions.\<close>

lemma decode_uncond_branch_imm_wf:
  "decode_uncond_branch_imm w pc (insn_reset w) = (OEMU_OK, i) \<Longrightarrow> insn_wf i"
  by (auto simp: decode_uncond_branch_imm_def Let_def split: if_splits; simp add: wf_unfold op_sets)

lemma decode_cond_branch_imm_wf:
  "decode_cond_branch_imm w pc (insn_reset w) = (OEMU_OK, i) \<Longrightarrow> insn_wf i"
  by (auto simp: decode_cond_branch_imm_def Let_def split: if_splits; simp add: wf_unfold op_sets)

lemma decode_compare_branch_wf:
  "decode_compare_branch w pc (insn_reset w) = (OEMU_OK, i) \<Longrightarrow> insn_wf i"
  by (auto simp: decode_compare_branch_def Let_def split: if_splits; simp add: wf_unfold op_sets)

lemma test_branch_bit:
  "unat (push_bit 5 (BIT w 31) OR BITS w 19 5) < (if BIT w 31 \<noteq> 0 then 64 else 32)"
proof (cases "BIT w 31 = 0")
  case True
  then show ?thesis using unat_bits_less [of 5 w 19] by simp
next
  case False
  have "unat (take_bit 6 (push_bit 5 (BIT w 31) OR BITS w 19 5)) < 64"
    by (simp only: unsigned_take_bit_eq take_bit_nat_less_exp [of 6, simplified])
  moreover have "take_bit 6 (push_bit 5 (BIT w 31) OR BITS w 19 5) = push_bit 5 (BIT w 31) OR BITS w 19 5"
    by (rule bit_word_eqI) (auto simp: bits_take_bit bit_simps)
  ultimately show ?thesis using False by simp
qed

lemma decode_test_branch_wf:
  "decode_test_branch w pc (insn_reset w) = (OEMU_OK, i) \<Longrightarrow> insn_wf i"
  using test_branch_bit [of w]
  by (auto simp: decode_test_branch_def Let_def; simp add: wf_unfold op_sets)

lemma decode_exception_wf:
  "decode_exception w (insn_reset w) = (OEMU_OK, i) \<Longrightarrow> insn_wf i"
  by (auto simp: decode_exception_def Let_def split: if_splits; simp add: wf_unfold op_sets)

lemma decode_hints_and_barriers_wf:
  "decode_hints_and_barriers w (insn_reset w) = (OEMU_OK, i) \<Longrightarrow> insn_wf i"
  by (auto simp: decode_hints_and_barriers_def Let_def split: if_splits; simp add: wf_unfold op_sets)

lemma decode_system_wf:
  "decode_system w (insn_reset w) = (OEMU_OK, i) \<Longrightarrow> insn_wf i"
  by (auto simp: decode_system_def Let_def intro: decode_hints_and_barriers_wf split: if_splits;
      simp add: wf_unfold op_sets)

lemma decode_uncond_branch_reg_wf:
  "decode_uncond_branch_reg w (insn_reset w) = (OEMU_OK, i) \<Longrightarrow> insn_wf i"
  by (auto simp: decode_uncond_branch_reg_def Let_def split: if_splits; simp add: wf_unfold op_sets)

lemma decode_branch_system_wf:
  "decode_branch_system w pc (insn_reset w) = (OEMU_OK, i) \<Longrightarrow> insn_wf i"
  unfolding decode_branch_system_def Let_def
  by (auto split: if_splits intro: decode_uncond_branch_imm_wf decode_cond_branch_imm_wf
      decode_compare_branch_wf decode_test_branch_wf decode_exception_wf decode_system_wf
      decode_uncond_branch_reg_wf)

text \<open>Data processing with registers.\<close>

lemma decode_logical_shifted_wf:
  "decode_logical_shifted w (insn_reset w) = (OEMU_OK, i) \<Longrightarrow> insn_wf i"
  by (cases "width_from_sf w"; auto simp: decode_logical_shifted_def Let_def split: if_splits;
      simp add: wf_unfold op_sets unat_gt_0)

lemma decode_addsub_shifted_wf:
  "decode_addsub_shifted w (insn_reset w) = (OEMU_OK, i) \<Longrightarrow> insn_wf i"
  by (cases "width_from_sf w"; auto simp: decode_addsub_shifted_def Let_def split: if_splits;
      auto simp: wf_unfold unat_gt_0)

lemma decode_addsub_extended_wf:
  "decode_addsub_extended w (insn_reset w) = (OEMU_OK, i) \<Longrightarrow> insn_wf i"
  by (auto simp: decode_addsub_extended_def wf_unfold oemu_decode_internal_extend_amount_valid_def
      split: if_splits)

lemma decode_addsub_carry_wf:
  "decode_addsub_carry w (insn_reset w) = (OEMU_OK, i) \<Longrightarrow> insn_wf i"
  by (auto simp: decode_addsub_carry_def wf_unfold split: if_splits)

lemma decode_cond_compare_wf:
  "decode_cond_compare w (insn_reset w) = (OEMU_OK, i) \<Longrightarrow> insn_wf i"
  by (auto simp: decode_cond_compare_def Let_def split: if_splits; simp add: wf_unfold op_sets)

lemma decode_cond_select_wf:
  "decode_cond_select w (insn_reset w) = (OEMU_OK, i) \<Longrightarrow> insn_wf i"
  by (auto simp: decode_cond_select_def Let_def split: if_splits; simp add: wf_unfold op_sets)

lemma decode_dp_1source_wf:
  "decode_dp_1source w (insn_reset w) = (OEMU_OK, i) \<Longrightarrow> insn_wf i"
  by (auto simp: decode_dp_1source_def Let_def split: if_splits; simp add: wf_unfold op_sets)

lemma crc_size: "push_bit (unat (x AND 0x3)) 1 \<in> {1, 2, 4, 8 :: u64}" for x :: u32
proof -
  have "unat (x AND 0x3) < 4"
    using unat_and_le2 [of x 3] by simp
  then have "unat (x AND 0x3) \<in> {0, 1, 2, 3}" by auto
  then show ?thesis by (elim insertE) simp_all
qed

lemma decode_dp_2source_wf:
  "decode_dp_2source w (insn_reset w) = (OEMU_OK, i) \<Longrightarrow> insn_wf i"
  using crc_size [of "BITS w 10 6"]
  by (auto simp: decode_dp_2source_def Let_def simp del: insert_iff split: if_splits;
      simp add: wf_unfold op_sets)

lemma decode_dp_3source_wf:
  "decode_dp_3source w (insn_reset w) = (OEMU_OK, i) \<Longrightarrow> insn_wf i"
  by (auto simp: decode_dp_3source_def Let_def split: if_splits; simp add: wf_unfold op_sets)

lemma decode_dp_register_wf:
  "decode_dp_register w (insn_reset w) = (OEMU_OK, i) \<Longrightarrow> insn_wf i"
  unfolding decode_dp_register_def Let_def
  by (auto split: if_splits intro: decode_logical_shifted_wf decode_addsub_shifted_wf
      decode_addsub_extended_wf decode_addsub_carry_wf decode_cond_compare_wf
      decode_cond_select_wf decode_dp_1source_wf decode_dp_2source_wf decode_dp_3source_wf)

text \<open>Loads and stores.\<close>

lemma classify_load_store_cases:
  assumes "classify_load_store c sz i0 = (OEMU_OK, i)"
  shows "i_op i \<in> {OEMU_OP_STR, OEMU_OP_LDR, OEMU_OP_HINT, OEMU_OP_LDRS} \<and>
    i = i0\<lparr>i_op := i_op i, i_is_signed_load := i_is_signed_load i, i_width := i_width i\<rparr>"
  using assms by (auto simp: classify_load_store_def split: if_splits)

lemma classify_load_store_ok:
  assumes "classify_load_store c sz i0 = (OEMU_OK, i)"
  obtains op sl w where "op \<in> {OEMU_OP_STR, OEMU_OP_LDR, OEMU_OP_HINT, OEMU_OP_LDRS}"
    "i = i0\<lparr>i_op := op, i_is_signed_load := sl, i_width := w\<rparr>"
  using classify_load_store_cases [OF assms] by blast

lemma mem_form_wf:
  assumes "op \<in> {OEMU_OP_STR, OEMU_OP_LDR, OEMU_OP_HINT, OEMU_OP_LDRS}"
    and "i_op i = op" "regs_wf i" "i_bit_pos i = 0" "i_shift_amount i \<le> 4"
    and "i_operand_kind i = OEMU_OPERAND_MEM" "i_mem_size i \<noteq> OEMU_MEM_128" "\<not> i_is_vector i"
  shows "insn_wf i"
  using assms by (elim insertE; simp add: insn_wf_def op_sets)

lemma decode_ldst_unsigned_imm_wf:
  "decode_ldst_unsigned_imm w (insn_reset w) = (OEMU_OK, i) \<Longrightarrow> insn_wf i"
  by (simp add: decode_ldst_unsigned_imm_def Let_def split: prod.splits if_split_asm;
      erule classify_load_store_ok; rule mem_form_wf; auto simp: regs_wf_def)

lemma decode_ldst_imm_unscaled_wf:
  "decode_ldst_imm_unscaled w (insn_reset w) = (OEMU_OK, i) \<Longrightarrow> insn_wf i"
  by (simp add: decode_ldst_imm_unscaled_def Let_def split: prod.splits if_split_asm;
      erule classify_load_store_ok; rule mem_form_wf; auto simp: regs_wf_def)

lemma decode_ldst_reg_offset_wf:
  "decode_ldst_reg_offset w (insn_reset w) = (OEMU_OK, i) \<Longrightarrow> insn_wf i"
  by (simp add: decode_ldst_reg_offset_def Let_def split: prod.splits if_split_asm;
      erule classify_load_store_ok; rule mem_form_wf; auto simp: regs_wf_def)

lemma decode_vec_dup_wf:
  "decode_vec_dup w (insn_reset w) = (OEMU_OK, i) \<Longrightarrow> insn_wf i"
  by (auto simp: decode_vec_dup_def Let_def; simp add: wf_unfold op_sets)

lemma decode_ldst_vector_wf:
  "decode_ldst_vector w (insn_reset w) = (OEMU_OK, i) \<Longrightarrow> insn_wf i"
  by (auto simp: decode_ldst_vector_def Let_def split: if_splits; simp add: wf_unfold op_sets)

lemma decode_ldst_pair_vector_wf:
  "decode_ldst_pair_vector w (insn_reset w) = (OEMU_OK, i) \<Longrightarrow> insn_wf i"
  by (auto simp: decode_ldst_pair_vector_def Let_def split: if_splits; simp add: wf_unfold op_sets)

lemma decode_ldst_pair_wf:
  "decode_ldst_pair w (insn_reset w) = (OEMU_OK, i) \<Longrightarrow> insn_wf i"
  by (auto simp: decode_ldst_pair_def Let_def split: if_splits; simp add: wf_unfold op_sets)

lemma decode_ldst_literal_wf:
  "decode_ldst_literal w pc (insn_reset w) = (OEMU_OK, i) \<Longrightarrow> insn_wf i"
  by (auto simp: decode_ldst_literal_def Let_def split: if_splits; simp add: wf_unfold op_sets)

lemma decode_ldst_exclusive_wf:
  "decode_ldst_exclusive w (insn_reset w) = (OEMU_OK, i) \<Longrightarrow> insn_wf i"
  by (auto simp: decode_ldst_exclusive_def Let_def split: if_splits; simp add: wf_unfold op_sets)

lemma decode_load_store_wf:
  "decode_load_store w pc (insn_reset w) = (OEMU_OK, i) \<Longrightarrow> insn_wf i"
  unfolding decode_load_store_def Let_def
  by (auto split: if_splits intro: decode_ldst_unsigned_imm_wf decode_ldst_imm_unscaled_wf
      decode_ldst_reg_offset_wf decode_ldst_vector_wf decode_ldst_pair_vector_wf
      decode_ldst_pair_wf decode_ldst_literal_wf decode_ldst_exclusive_wf)

lemma oemu_decode_wf:
  "oemu_decode w pc = (OEMU_OK, i) \<Longrightarrow> insn_wf i"
  unfolding oemu_decode_def decode_group_def Let_def
  by (auto split: if_splits prod.splits intro: decode_dp_immediate_wf decode_branch_system_wf
      decode_load_store_wf decode_dp_register_wf decode_vec_dup_wf)

end
