(* ===== verification/Oemu_Words.thy ===== *)
theory Oemu_Words
  imports Oemu_Prelude
begin

text \<open>
  Further lemmas on machine words that the component proofs share: truncation and masks as
  arithmetic on natural numbers, and the low bits written as a shifted one minus one.
\<close>

lemma unat_take_bit: "unat (take_bit n (x :: 'a::len word)) = unat x mod 2 ^ n"
  unfolding unsigned_take_bit_eq by (rule take_bit_eq_mod)

lemma unat_and_mask: "unat (x AND mask n) = unat (x :: 'a::len word) mod 2 ^ n"
  by (simp only: unat_take_bit flip: take_bit_eq_mask)

lemma unat_mask: "n \<le> LENGTH('a) \<Longrightarrow> unat (mask n :: 'a::len word) = 2 ^ n - 1"
  unfolding take_bit_minus_one_eq_mask [symmetric] unsigned_take_bit_eq
  by (simp add: unsigned_minus_1_eq_mask take_bit_of_mask min_def) (simp add: mask_eq_exp_minus_1)

lemma push_bit_1_minus_1: "push_bit n 1 - 1 = (mask n :: 'a::len word)"
  by (simp add: mask_eq_exp_minus_1 push_bit_of_1)

lemma mask_full: "LENGTH('a) \<le> n \<Longrightarrow> (mask n :: 'a::len word) = NOT 0"
  by (rule bit_word_eqI) (simp add: bit_simps)

end
