(* ===== verification/Oemu_Decode_Props.thy ===== *)
theory Oemu_Decode_Props
  imports Oemu_Decode_Wf Oemu_Words
begin

text \<open>
  What the decoder computes: the value of a sign-extended field, the bitmask immediates bit by
  bit, how the PC enters a decoded instruction, and the outcome of every 32-bit word.
\<close>

section \<open>Sign extension\<close>

lemma sign_extend_signed_take_bit:
  assumes "0 < n" "n \<le> 64"
  shows "oemu_decode_internal_sign_extend v n = signed_take_bit (n - 1) v"
proof (cases "n = 64")
  case True
  then show ?thesis
    by (auto simp: oemu_decode_internal_sign_extend_def bit_simps intro!: bit_word_eqI)
next
  case False
  with assms have n: "n < 64" by simp
  have m: "push_bit n 1 - 1 = (mask n :: u64)"
    by (simp add: mask_eq_exp_minus_1 push_bit_of_1)
  have s: "(v AND mask n) AND push_bit (n - 1) 1 \<noteq> 0 \<longleftrightarrow> bit v (n - 1)"
    using assms n by (simp only: and_push_bit_ne_0_iff) (auto simp: bit_simps)
  show ?thesis
  proof (rule bit_word_eqI)
    fix k assume k: "k < LENGTH(64)"
    show "bit (oemu_decode_internal_sign_extend v n) k = bit (signed_take_bit (n - 1) v) k"
      unfolding oemu_decode_internal_sign_extend_def m Let_def s
      using assms n False k by (cases "k = n - 1") (auto simp: bit_simps min_def)
  qed
qed

text \<open>Reading the sign-extended field as a signed number gives the field in two's complement.\<close>

lemma sint_sign_extend:
  assumes "0 < n" "n \<le> 64"
  shows "sint (oemu_decode_internal_sign_extend v n) = signed_take_bit (n - 1) (uint v)"
  unfolding sign_extend_signed_take_bit [OF assms]
  using assms by (intro bit_eqI) (auto simp: bit_simps bit_sint_iff min_def)

section \<open>Bitmask immediates\<close>

lemma bit_ror:
  assumes "0 < e" "e \<le> 64"
  shows "bit (oemu_decode_internal_ror v a e) i \<longleftrightarrow> i < e \<and> bit v ((i + a) mod e)"
proof -
  have m: "(if e = 64 then NOT 0 else push_bit e 1 - 1) = (mask e :: u64)"
    using assms by (auto simp: mask_eq_exp_minus_1 push_bit_of_1)
  define s where "s = a mod e"
  have s: "s < e" using assms by (simp add: s_def)
  have am: "(i + a) mod e = (i + s) mod e" by (simp add: s_def mod_add_right_eq)
  show ?thesis
  proof (cases "i < e")
    case True
    have w: "(i + s) mod e = (if i + s < e then i + s else i + s - e)"
    proof (cases "i + s < e")
      case False
      then have "(i + s) mod e = (i + s - e) mod e" by (simp add: le_mod_geq)
      also have "\<dots> = i + s - e" using True s by (intro mod_less) linarith
      finally show ?thesis using False by simp
    qed simp
    show ?thesis
      unfolding oemu_decode_internal_ror_def m Let_def am w s_def [symmetric]
      using True s assms by (auto simp: bit_simps add.commute [of s] split: if_splits)
  next
    case False
    then show ?thesis
      unfolding oemu_decode_internal_ror_def m Let_def by (auto simp: bit_simps)
  qed
qed

lemma bit_replicate_element:
  assumes "\<And>j. bit element j \<Longrightarrow> j < e" "0 < e" "nbits \<le> 64" "i < nbits" "e dvd pos"
  shows "bit (replicate_element element e nbits pos m) i \<longleftrightarrow>
    bit m i \<or> pos \<le> i \<and> bit element (i mod e)"
  using assms
proof (induction element e nbits pos m rule: replicate_element.induct)
  case (1 el e nb ps m)
  show ?case
  proof (cases "ps < nb")
    case True
    with 1 have IH: "bit (replicate_element el e nb ps m) i \<longleftrightarrow>
        bit (m OR push_bit ps el) i \<or> ps + e \<le> i \<and> bit el (i mod e)"
      by (subst replicate_element.simps) simp
    have "bit (push_bit ps el) i \<longleftrightarrow> ps \<le> i \<and> i - ps < e \<and> bit el (i mod e)"
    proof (cases "ps \<le> i \<and> i - ps < e")
      case True
      then have "i mod e = i - ps"
        using \<open>e dvd ps\<close> by (auto elim!: dvdE simp: mod_nat_eqI)
      with True 1 show ?thesis by (auto simp: bit_simps)
    next
      case False
      with 1 show ?thesis by (auto simp: bit_simps)
    qed
    with IH show ?thesis using 1 by (auto simp: bit_simps)
  next
    case False
    with 1 show ?thesis by (subst replicate_element.simps) simp
  qed
qed

text \<open>
  The element size: the search finds the highest set bit of the seven-bit value \<open>N:NOT(imms)\<close>.
\<close>

lemma bit_masks_len_log2:
  assumes "uint c < 128" "c \<noteq> 0"
  shows "0 \<le> bit_masks_len c \<and> bit_masks_len c \<le> 6 \<and>
    2 ^ nat (bit_masks_len c) \<le> uint c \<and> uint c < 2 * 2 ^ nat (bit_masks_len c)"
proof -
  have top: "(c AND push_bit n 1 \<noteq> 0) = (2 ^ n \<le> uint c)" if "uint c < 2 * 2 ^ n" for n
    using that by (simp only: and_push_bit_ne_0_iff bit_uint_top_iff)
  have pos: "1 \<le> uint c" using assms(2) uint_nonnegative [of c] unsigned_eq_0_iff [of c, where 'a = int] by linarith
  consider "64 \<le> uint c" | "32 \<le> uint c" "uint c < 64" | "16 \<le> uint c" "uint c < 32"
    | "8 \<le> uint c" "uint c < 16" | "4 \<le> uint c" "uint c < 8" | "2 \<le> uint c" "uint c < 4"
    | "uint c = 1"
    using pos by linarith
  then show ?thesis
    using assms(1) top [of 6] top [of 5] top [of 4] top [of 3] top [of 2] top [of 1] top [of 0]
    by cases (simp_all add: bit_masks_len_def)
qed

text \<open>The seven-bit selector as a number.\<close>

definition mask_selector :: "bool \<Rightarrow> u32 \<Rightarrow> nat" where
  "mask_selector n imms = 64 * of_bool n + (63 - unat imms mod 64)"

lemma uint_combined:
  "uint (push_bit 6 (if n then 1 else 0) OR (NOT imms AND 0x3F) :: u32) = int (mask_selector n imms)"
proof -
  have a: "NOT imms AND 0x3F = take_bit 6 (NOT imms)"
    by (simp add: take_bit_eq_mask mask_eq_exp_minus_1)
  have "unat (take_bit 6 (NOT imms)) = 63 - unat imms mod 64"
  proof -
    have "take_bit 6 (NOT imms) = mask 6 - take_bit 6 imms"
      by (rule take_bit_not_eq_mask_diff)
    moreover have "take_bit 6 imms \<le> mask 6"
      by (simp only: take_bit_eq_mask word_and_le1)
    ultimately show ?thesis
      by (simp only: unat_sub unat_take_bit unat_mask) (simp add: unat_mask)
  qed
  then have low: "uint (take_bit 6 (NOT imms)) = int (63 - unat imms mod 64)"
    by (metis uint_nat)
  show ?thesis
  proof (cases n)
    case False
    then show ?thesis using a low by (simp add: mask_selector_def)
  next
    case True
    have "bit (64 :: u32) j \<longleftrightarrow> j = 6" for j
      using bit_exp_iff [of 6 j, where 'a = u32] by auto
    then have "(64 :: u32) OR take_bit 6 (NOT imms) = 64 + take_bit 6 (NOT imms)"
      by (subst disjunctive_add) (auto simp: bit_simps)
    moreover have "uint (64 + take_bit 6 (NOT imms)) = 64 + uint (take_bit 6 (NOT imms))"
      by (simp add: uint_word_ariths low)
    ultimately show ?thesis using True a low by (simp add: mask_selector_def)
  qed
qed

lemma bit_masks_at_len:
  assumes k: "bit_masks_len (push_bit 6 (if n then 1 else 0) OR (NOT imms AND 0x3F)) = int k"
    and k1: "1 \<le> k" "2 ^ k \<le> reg_bits w" and k6: "k \<le> 6"
  shows "oemu_decode_internal_bit_masks n imms immr w =
    (if unat imms mod 2 ^ k = 2 ^ k - 1 then Inl OEMU_ERR_DECODE
     else Inr (oemu_regs_internal_truncate (replicate_element
       (oemu_decode_internal_ror (mask (unat imms mod 2 ^ k + 1)) (unat immr mod 2 ^ k) (2 ^ k))
       (2 ^ k) (reg_bits w) 0 0) w))"
proof -
  have len: "2 ^ k \<le> (64 :: nat)" using power_increasing [OF k6, of "2 :: nat"] by simp
  have e: "of_nat (2 ^ k) - 1 = (mask k :: u32)" by (simp add: mask_eq_exp_minus_1)
  have um: "unat (mask k :: u32) = 2 ^ k - 1"
    using k6 by (simp add: unat_mask)
  have top: "(imms AND mask k = mask k) = (unat imms mod 2 ^ k = 2 ^ k - 1)"
    by (simp only: word_unat_eq_iff unat_and_mask um)
  have le: "unat imms mod 2 ^ k < 2 ^ k" by simp
  have s1: "unat ((imms AND mask k) + 1) = unat imms mod 2 ^ k + 1"
    using less_le_trans [OF le len] by (simp add: unat_word_ariths unat_and_mask)
  have el: "(if (imms AND mask k) + 1 = 64 then NOT 0 else push_bit (unat ((imms AND mask k) + 1)) 1 - 1) =
      (mask (unat imms mod 2 ^ k + 1) :: u64)"
    unfolding push_bit_1_minus_1 s1 word_unat_eq_iff [of _ 64] by (simp add: mask_full)
  show ?thesis
    unfolding oemu_decode_internal_bit_masks_def Let_def k nat_int e el top
    unfolding unat_and_mask
    using k1 by (cases w) (simp_all add: oemu_regs_internal_truncate_def)
qed

lemma bit_masks_bits:
  assumes "1 \<le> k" "k \<le> 6" "2 ^ k \<le> reg_bits w"
  shows "bit (oemu_regs_internal_truncate (replicate_element
      (oemu_decode_internal_ror (mask (s + 1)) r (2 ^ k)) (2 ^ k) (reg_bits w) 0 0) w) i \<longleftrightarrow>
    i < reg_bits w \<and> (i + r) mod 2 ^ k \<le> s"
proof -
  have e: "2 ^ k \<le> (64 :: nat)" using power_increasing [OF assms(2), of "2 :: nat"] by simp
  have ror: "bit (oemu_decode_internal_ror (mask (s + 1)) r (2 ^ k)) j \<longleftrightarrow>
      j < 2 ^ k \<and> (j + r) mod 2 ^ k \<le> s" for j
    using e less_le_trans [OF mod_less_divisor [of "2 ^ k" "j + r"] e] by (auto simp: bit_ror bit_simps)
  show ?thesis
  proof (cases "i < reg_bits w")
    case True
    have "reg_bits w \<le> 64" by (cases w) simp_all
    with True show ?thesis
      using bit_replicate_element [of "oemu_decode_internal_ror (mask (s + 1)) r (2 ^ k)" "2 ^ k" "reg_bits w" i 0 0]
      by (simp add: truncate_take_bit bit_take_bit_iff ror [simplified] mod_add_left_eq)
  qed (simp add: truncate_take_bit bit_simps)
qed

lemma log2_unique:
  fixes c :: nat
  assumes "2 ^ a \<le> c" "c < 2 * 2 ^ a" "2 ^ b \<le> c" "c < 2 * 2 ^ b"
  shows "a = b"
proof -
  have "(2 :: nat) ^ a < 2 ^ Suc b" "(2 :: nat) ^ b < 2 ^ Suc a" using assms by simp_all
  then show ?thesis by (simp del: power_Suc)
qed

text \<open>
  Property C25. The bitmask immediates of the logical instructions: a selector is accepted exactly
  when it names an element size \<open>2 ^ k\<close> of at least two bits that fits the register and does not ask
  for an element of all ones, and then bit \<open>i\<close> of the immediate is set exactly when \<open>i + immr\<close>,
  reduced modulo the element size, is at most the element's run length \<open>imms mod 2 ^ k\<close>. Every other
  selector is a decode error.
\<close>

theorem bit_masks_spec:
  "(oemu_decode_internal_bit_masks n imms immr w = Inr m \<longleftrightarrow>
     (\<exists>k. 1 \<le> k \<and> 2 ^ k \<le> reg_bits w \<and> 2 ^ k \<le> mask_selector n imms \<and>
        mask_selector n imms < 2 * 2 ^ k \<and> unat imms mod 2 ^ k \<noteq> 2 ^ k - 1 \<and>
        (\<forall>i. bit m i = (i < reg_bits w \<and>
           (i + unat immr mod 2 ^ k) mod 2 ^ k \<le> unat imms mod 2 ^ k)))) \<and>
   (oemu_decode_internal_bit_masks n imms immr w = Inl OEMU_ERR_DECODE \<or>
    (\<exists>m'. oemu_decode_internal_bit_masks n imms immr w = Inr m'))"
proof -
  let ?c = "push_bit 6 (if n then 1 else 0) OR (NOT imms AND 0x3F) :: u32"
  let ?M = "oemu_decode_internal_bit_masks n imms immr w"
  have c: "uint ?c = int (mask_selector n imms)" by (rule uint_combined)
  have small: "mask_selector n imms < 128" by (cases n) (simp_all add: mask_selector_def)
  show ?thesis
  proof (cases "mask_selector n imms = 0")
    case True
    then have "?c = 0" using c unsigned_eq_0_iff [of ?c, where 'a = int] by simp
    then have "bit_masks_len ?c = - 1" by (simp add: bit_masks_len_def)
    then have "?M = Inl OEMU_ERR_DECODE" by (simp add: oemu_decode_internal_bit_masks_def Let_def)
    with True show ?thesis by simp
  next
    case False
    then have "?c \<noteq> 0" using c by auto
    with bit_masks_len_log2 [of ?c] obtain k where k: "bit_masks_len ?c = int k" "k \<le> 6"
      "2 ^ k \<le> mask_selector n imms" "mask_selector n imms < 2 * 2 ^ k"
      using small unfolding c by (auto elim!: nonneg_int_cases simp flip: power_Suc)
    have uniq: "j = k" if "2 ^ j \<le> mask_selector n imms" "mask_selector n imms < 2 * 2 ^ j" for j
      using log2_unique [OF that k(3,4)] .
    show ?thesis
    proof (cases "1 \<le> k \<and> 2 ^ k \<le> reg_bits w")
      case False
      then have "?M = Inl OEMU_ERR_DECODE"
        by (auto simp: oemu_decode_internal_bit_masks_def Let_def k(1) reg_bits_def)
      with False uniq show ?thesis by auto
    next
      case True
      let ?R = "\<lambda>j i. i < reg_bits w \<and> (i + unat immr mod 2 ^ j) mod 2 ^ j \<le> unat imms mod 2 ^ j"
      obtain V where M: "?M = (if unat imms mod 2 ^ k = 2 ^ k - 1 then Inl OEMU_ERR_DECODE else Inr V)"
        and V: "\<And>i. bit V i = ?R k i"
        using bit_masks_at_len [OF k(1) _ _ k(2), of w immr] bit_masks_bits [OF _ k(2), of w] True
        by blast
      have "(V = m) = (\<forall>i. bit m i = ?R k i)" using V by (metis bit_word_eqI)
      then have "(?M = Inr m) = (unat imms mod 2 ^ k \<noteq> 2 ^ k - 1 \<and> (\<forall>i. bit m i = ?R k i))"
        using M by simp
      also have "\<dots> = (\<exists>j. 1 \<le> j \<and> 2 ^ j \<le> reg_bits w \<and> 2 ^ j \<le> mask_selector n imms \<and>
          mask_selector n imms < 2 * 2 ^ j \<and> unat imms mod 2 ^ j \<noteq> 2 ^ j - 1 \<and>
          (\<forall>i. bit m i = ?R j i))"
        using True k(3,4) uniq by metis
      finally show ?thesis using M by simp
    qed
  qed
qed

section \<open>The outcome of every word\<close>

text \<open>A group function keeps the word and reports success or one of the two decode errors.\<close>

definition group_outcome :: "u32 \<Rightarrow> decoded \<Rightarrow> bool" where
  "group_outcome w d \<longleftrightarrow> i_word (snd d) = w \<and>
     (fst d = OEMU_OK \<or> fst d = OEMU_ERR_DECODE \<or> fst d = OEMU_ERR_UNSUPPORTED)"

lemma bit_masks_status: "oemu_decode_internal_bit_masks n s r w = Inl st \<Longrightarrow> st = OEMU_ERR_DECODE"
  by (auto simp: oemu_decode_internal_bit_masks_def Let_def split: if_splits)

lemma classify_outcome:
  "i_word (snd (classify_load_store c sz i)) = i_word i"
  "fst (classify_load_store c sz i) = OEMU_OK \<or> fst (classify_load_store c sz i) = OEMU_ERR_DECODE"
  by (simp_all add: classify_load_store_def)

lemma classify_outcomeD:
  "classify_load_store c sz i = (st, i') \<Longrightarrow> i_word i' = i_word i \<and> (st = OEMU_OK \<or> st = OEMU_ERR_DECODE)"
  using classify_outcome [of c sz i] by simp

lemma group_outcome_imm:
  assumes "i_word i = w"
  shows
    "group_outcome w (decode_pc_rel_addr w pc i)"
    "group_outcome w (decode_addsub_imm w i)"
    "group_outcome w (decode_logical_imm w i)"
    "group_outcome w (decode_move_wide w i)"
    "group_outcome w (decode_bitfield w i)"
    "group_outcome w (decode_extract w i)"
  using assms
  by (auto dest!: classify_outcomeD bit_masks_status simp: group_outcome_def Let_def decode_pc_rel_addr_def decode_addsub_imm_def decode_logical_imm_def decode_move_wide_def decode_bitfield_def decode_extract_def
      split: sum.split prod.split)

lemma group_outcome_branch:
  assumes "i_word i = w"
  shows
    "group_outcome w (decode_uncond_branch_imm w pc i)"
    "group_outcome w (decode_cond_branch_imm w pc i)"
    "group_outcome w (decode_compare_branch w pc i)"
    "group_outcome w (decode_test_branch w pc i)"
    "group_outcome w (decode_exception w i)"
    "group_outcome w (decode_hints_and_barriers w i)"
    "group_outcome w (decode_uncond_branch_reg w i)"
  using assms
  by (auto dest!: classify_outcomeD bit_masks_status simp: group_outcome_def Let_def decode_uncond_branch_imm_def decode_cond_branch_imm_def decode_compare_branch_def decode_test_branch_def decode_exception_def decode_hints_and_barriers_def decode_uncond_branch_reg_def
      split: sum.split prod.split)

lemma group_outcome_reg:
  assumes "i_word i = w"
  shows
    "group_outcome w (decode_logical_shifted w i)"
    "group_outcome w (decode_addsub_shifted w i)"
    "group_outcome w (decode_addsub_extended w i)"
    "group_outcome w (decode_addsub_carry w i)"
    "group_outcome w (decode_cond_compare w i)"
    "group_outcome w (decode_cond_select w i)"
    "group_outcome w (decode_dp_1source w i)"
    "group_outcome w (decode_dp_2source w i)"
    "group_outcome w (decode_dp_3source w i)"
  using assms
  by (auto dest!: classify_outcomeD bit_masks_status simp: group_outcome_def Let_def decode_logical_shifted_def decode_addsub_shifted_def decode_addsub_extended_def decode_addsub_carry_def decode_cond_compare_def decode_cond_select_def decode_dp_1source_def decode_dp_2source_def decode_dp_3source_def
      split: sum.split prod.split)

lemma group_outcome_mem:
  assumes "i_word i = w"
  shows
    "group_outcome w (decode_ldst_unsigned_imm w i)"
    "group_outcome w (decode_ldst_imm_unscaled w i)"
    "group_outcome w (decode_ldst_reg_offset w i)"
    "group_outcome w (decode_vec_dup w i)"
    "group_outcome w (decode_ldst_vector w i)"
    "group_outcome w (decode_ldst_pair_vector w i)"
    "group_outcome w (decode_ldst_pair w i)"
    "group_outcome w (decode_ldst_literal w pc i)"
    "group_outcome w (decode_ldst_exclusive w i)"
  using assms
  by (auto dest!: classify_outcomeD bit_masks_status simp: group_outcome_def Let_def decode_ldst_unsigned_imm_def decode_ldst_imm_unscaled_def decode_ldst_reg_offset_def decode_vec_dup_def decode_ldst_vector_def decode_ldst_pair_vector_def decode_ldst_pair_def decode_ldst_literal_def decode_ldst_exclusive_def
      split: sum.split prod.split)

lemma group_outcome_error [simp]:
  "group_outcome w (OEMU_ERR_DECODE, i) \<longleftrightarrow> i_word i = w"
  "group_outcome w (OEMU_ERR_UNSUPPORTED, i) \<longleftrightarrow> i_word i = w"
  "group_outcome w (OEMU_OK, i) \<longleftrightarrow> i_word i = w"
  by (simp_all add: group_outcome_def)

lemma group_outcome_if:
  "group_outcome w a \<Longrightarrow> group_outcome w b \<Longrightarrow> group_outcome w (if c then a else b)"
  by simp

lemma decode_group_outcome: "group_outcome w (decode_group w pc (insn_reset w))"
  unfolding decode_group_def decode_dp_immediate_def decode_branch_system_def decode_system_def
    decode_dp_register_def decode_load_store_def Let_def
  by (intro group_outcome_if group_outcome_imm group_outcome_branch group_outcome_reg
      group_outcome_mem; simp)

text \<open>
  A word is accepted with a well-formed instruction that carries it, or refused with one of two statuses;
  a refusal resets the record, whatever a group function had already filled in, where the README has the
  output of a failed decode untouched.
\<close>

lemma decode_resets:
  "(\<exists>i. oemu_decode w pc = (OEMU_OK, i) \<and> insn_wf i \<and> i_word i = w) \<or>
   oemu_decode w pc = (OEMU_ERR_DECODE, insn_reset w) \<or>
   oemu_decode w pc = (OEMU_ERR_UNSUPPORTED, insn_reset w)"
  using decode_group_outcome [of w pc] oemu_decode_wf [of w pc]
  by (auto simp: oemu_decode_def group_outcome_def split: prod.splits)

section \<open>The PC\<close>

text \<open>What moving an instruction from \<open>pc\<close> to \<open>pc'\<close> adds to its resolved immediate.\<close>

definition pc_displacement :: "oemu_opcode \<Rightarrow> u64 \<Rightarrow> u64 \<Rightarrow> u64" where
  "pc_displacement op pc pc' =
     (if op = OEMU_OP_ADRP then (pc' AND NOT 0xFFF) - (pc AND NOT 0xFFF) else pc' - pc)"

definition pc_relative :: "oemu_insn \<Rightarrow> bool" where
  "pc_relative i \<longleftrightarrow> i_op i \<in> {OEMU_OP_ADR, OEMU_OP_ADRP, OEMU_OP_B, OEMU_OP_BL, OEMU_OP_B_COND,
     OEMU_OP_CBZ, OEMU_OP_CBNZ, OEMU_OP_TBZ, OEMU_OP_TBNZ} \<or>
     (i_op i = OEMU_OP_LDR \<or> i_op i = OEMU_OP_LDRS) \<and> i_operand_kind i = OEMU_OPERAND_IMM"

text \<open>The two ways a decode may depend on the PC: not at all, or by the displacement, and then an
  instruction other than the two address forms resolves to a word-aligned distance.\<close>

definition moves_to :: "u64 \<Rightarrow> u64 \<Rightarrow> decoded \<Rightarrow> decoded \<Rightarrow> bool" where
  "moves_to pc pc' d d' \<longleftrightarrow> d' = d \<or>
     fst d = OEMU_OK \<and> pc_relative (snd d) \<and>
     d' = (OEMU_OK, (snd d)\<lparr>i_imm := i_imm (snd d) + pc_displacement (i_op (snd d)) pc pc'\<rparr>) \<and>
     (i_op (snd d) \<noteq> OEMU_OP_ADR \<and> i_op (snd d) \<noteq> OEMU_OP_ADRP \<longrightarrow>
        4 dvd uint (i_imm (snd d) - pc))"

lemma moves_to_refl [simp]: "moves_to pc pc' d d"
  by (simp add: moves_to_def)

lemma dvd4_push_bit_2: "4 dvd uint (push_bit 2 x :: u64)"
  unfolding unsigned_push_bit_eq by (simp add: push_bit_eq_mult take_bit_eq_mod dvd_mod)

lemma moves_to_pc_groups:
  "moves_to pc pc' (decode_pc_rel_addr w pc i) (decode_pc_rel_addr w pc' i)"
  "moves_to pc pc' (decode_uncond_branch_imm w pc i) (decode_uncond_branch_imm w pc' i)"
  "moves_to pc pc' (decode_cond_branch_imm w pc i) (decode_cond_branch_imm w pc' i)"
  "moves_to pc pc' (decode_compare_branch w pc i) (decode_compare_branch w pc' i)"
  "moves_to pc pc' (decode_test_branch w pc i) (decode_test_branch w pc' i)"
  "moves_to pc pc' (decode_ldst_literal w pc i) (decode_ldst_literal w pc' i)"
  by (simp_all add: decode_pc_rel_addr_def decode_uncond_branch_imm_def decode_cond_branch_imm_def
      decode_compare_branch_def decode_test_branch_def decode_ldst_literal_def Let_def
      moves_to_def pc_relative_def pc_displacement_def dvd4_push_bit_2)

lemma moves_to_if:
  "moves_to pc pc' a a' \<Longrightarrow> moves_to pc pc' b b' \<Longrightarrow>
   moves_to pc pc' (if c then a else b) (if c then a' else b')"
  by simp

lemma moves_to_group: "moves_to pc pc' (decode_group w pc i) (decode_group w pc' i)"
  unfolding decode_group_def decode_dp_immediate_def decode_branch_system_def
    decode_load_store_def Let_def
  by (intro moves_to_if moves_to_pc_groups moves_to_refl)

text \<open>
  Position independence of decoding: decoding the same word at another address gives
  the same outcome, except that the immediate of a PC-relative instruction moves by exactly the
  displacement of the address (of the 4 KiB page, for ADRP); and the distance such an instruction
  encodes is a multiple of four, so branches and literal loads resolve to word-aligned addresses
  from a word-aligned PC.
\<close>

lemma decode_position_independent:
  "moves_to pc pc' (oemu_decode w pc) (oemu_decode w pc')"
  using moves_to_group [of pc pc' w "insn_reset w"]
  unfolding oemu_decode_def
  by (cases "decode_group w pc (insn_reset w)"; cases "decode_group w pc' (insn_reset w)")
    (auto simp: moves_to_def simp del: insert_iff)


section \<open>Branch encodings\<close>

text \<open>The A64 encoding of B and BL: the word distance in the low 26 bits.\<close>

definition encode_b :: "bool \<Rightarrow> u64 \<Rightarrow> u64 \<Rightarrow> u32" where
  "encode_b link pc target =
     (if link then 0x94000000 else 0x14000000) OR (ucast (drop_bit 2 (target - pc)) AND 0x3FFFFFF)"

lemma branch_field:
  fixes d :: u64
  assumes "4 dvd uint d" "- (2 ^ 27) \<le> sint d" "sint d < 2 ^ 27"
  shows "push_bit 2 (oemu_decode_internal_sign_extend (ucast (take_bit 26 (ucast (drop_bit 2 d) :: u32))) 26) = d"
proof -
  have "signed_take_bit 27 d = d"
  proof -
    have "sint (signed_take_bit 27 d) = signed_take_bit 27 (sint d)"
      by (rule bit_eqI) (auto simp: bit_simps bit_sint_iff min_def)
    also have "\<dots> = sint d" using assms(2,3) by (simp add: signed_take_bit_int_eq_self)
    finally show ?thesis by (rule signed_word_eqI)
  qed
  then have high: "bit d k = bit d 27" if "27 \<le> k" "k < 64" for k
    using that bit_signed_take_bit_iff [of 27 d k] by (simp add: min_def)
  have "take_bit 2 (uint d) = 0" using assms(1) by (simp add: take_bit_eq_mod dvd_eq_mod_eq_0)
  then have low: "\<not> bit d k" if "k < 2" for k
    using that bit_take_bit_iff [of 2 "uint d" k] by (simp add: bit_uint_iff bit_imp_le_length)
  show ?thesis
    unfolding sign_extend_signed_take_bit [of 26, simplified]
  proof (rule bit_word_eqI)
    fix k assume k: "k < LENGTH(64)"
    consider "k < 2" | "2 \<le> k" "k < 27" | "27 \<le> k" by linarith
    then show "bit (push_bit 2 (signed_take_bit 25 (ucast (take_bit 26 (ucast (drop_bit 2 d) :: u32)) :: u64))) k = bit d k"
    proof cases
      case 1 then show ?thesis using low by (simp add: bit_simps)
    next
      case 2
      then have "Suc (Suc (k - 2)) = k" by simp
      with 2 show ?thesis by (simp add: bit_simps min_def)
    next
      case 3 then show ?thesis using high [of k] k by (auto simp: bit_simps min_def)
    qed
  qed
qed

lemma encode_b_fields:
  "BITS (encode_b l pc t) 25 4 = 0xA \<or> BITS (encode_b l pc t) 25 4 = 0xB"
  "BITS (encode_b l pc t) 29 3 = (if l then 4 else 0)"
  "BITS (encode_b l pc t) 31 1 = (if l then 1 else 0)"
  "BITS (encode_b l pc t) 0 26 = take_bit 26 (ucast (drop_bit 2 (t - pc)))"
proof -
  define x where "x = (ucast (drop_bit 2 (t - pc)) :: u32)"
  have e: "encode_b l pc t = (if l then 0x94000000 else 0x14000000) OR (x AND 0x3FFFFFF)"
    by (simp add: encode_b_def x_def)
  have "drop_bit 25 x AND 1 = 0 \<or> drop_bit 25 x AND 1 = 1"
    using parity_cases [of "drop_bit 25 x"] by (auto simp: and_one_eq)
  then show "BITS (encode_b l pc t) 25 4 = 0xA \<or> BITS (encode_b l pc t) 25 4 = 0xB"
    by (elim disjE) (simp_all add: e bits_take_bit drop_bit_or drop_bit_and take_bit_or take_bit_and)
  show "BITS (encode_b l pc t) 29 3 = (if l then 4 else 0)"
    "BITS (encode_b l pc t) 31 1 = (if l then 1 else 0)"
    by (simp_all add: e bits_take_bit drop_bit_or drop_bit_and take_bit_or take_bit_and)
  have "x AND 0x3FFFFFF = take_bit 26 x" by (simp add: take_bit_eq_mask mask_eq_exp_minus_1)
  then show "BITS (encode_b l pc t) 0 26 = take_bit 26 (ucast (drop_bit 2 (t - pc)))"
    by (simp add: e bits_take_bit take_bit_or flip: x_def)
qed

text \<open>
  Encoding and decoding a branch are inverse: every word-aligned target within the
  128 MiB reach of B and BL has an encoding that decodes at that PC to an unconditional branch (with
  link or without) to exactly that target.
\<close>

theorem branch_roundtrip:
  assumes "4 dvd uint (target - pc)" "- (2 ^ 27) \<le> sint (target - pc)" "sint (target - pc) < 2 ^ 27"
  shows "oemu_decode (encode_b link pc target) pc =
    (OEMU_OK, (insn_reset (encode_b link pc target))\<lparr>i_op := if link then OEMU_OP_BL else OEMU_OP_B,
       i_operand_kind := OEMU_OPERAND_IMM, i_imm := target\<rparr>)"
  using branch_field [OF assms] encode_b_fields [of link pc target]
  by (auto simp: oemu_decode_def decode_group_def decode_branch_system_def
      decode_uncond_branch_imm_def Let_def)


theorem branch_roundtrip_witness:
  "oemu_decode (encode_b True 0x1000 0xFFC) 0x1000 =
    (OEMU_OK, (insn_reset 0x97FFFFFF)\<lparr>i_op := OEMU_OP_BL,
       i_operand_kind := OEMU_OPERAND_IMM, i_imm := 0xFFC\<rparr>)"
  using branch_roundtrip [of "0xFFC" "0x1000" True] by (simp add: encode_b_def)

text \<open>
  The vector load/store with an unsigned immediate reads its scaled offset from bits 21:12 of the
  word, where the encoding has it in bits 21:10: the word \<^verbatim>\<open>0x3D800460\<close>, which the comment at the
  function gives as \<^verbatim>\<open>str q0, [x3, #16]\<close>, decodes to the offset 0.
\<close>

theorem vector_store_offset_lost:
  "\<exists>i. oemu_decode 0x3D800460 pc = (OEMU_OK, i) \<and> i_op i = OEMU_OP_STR \<and> i_is_vector i \<and>
     i_rd i = 0 \<and> i_rn i = 3 \<and> i_imm i = 0"
  by (simp add: decode_eval)

end
