(* ===== verification/Oemu_Bus.thy ===== *)
theory Oemu_Bus
  imports Oemu_Insn
begin

text \<open>
  The bus seam (\<^verbatim>\<open>include/oemu/memops.h\<close>): the four operations the executor needs, as a record of
  functions over the state of whatever backs guest memory, and the contract every provider shares,
  as a locale. A call returns the provider's new state, since a provider may keep a cache; an
  operation with an out parameter returns either the error status or the value. The environment
  seam of the same header is the record of the supervisor-call handler and the halt query.
\<close>

section \<open>The two seams\<close>

abbreviation (input) OEMU_PERM_READ :: u32 where "OEMU_PERM_READ \<equiv> 0x1"
abbreviation (input) OEMU_PERM_WRITE :: u32 where "OEMU_PERM_WRITE \<equiv> 0x2"
abbreviation (input) OEMU_PERM_EXEC :: u32 where "OEMU_PERM_EXEC \<equiv> 0x4"
abbreviation (input) OEMU_PERM_ALL :: u32 where "OEMU_PERM_ALL \<equiv> 0x7"

record 'm oemu_memops =
  mo_fetch32 :: "'m \<Rightarrow> u64 \<Rightarrow> (oemu_status + u32) \<times> 'm"
  mo_read :: "'m \<Rightarrow> u64 \<Rightarrow> oemu_mem_size \<Rightarrow> bool \<Rightarrow> (oemu_status + u64) \<times> 'm"
  mo_write :: "'m \<Rightarrow> u64 \<Rightarrow> oemu_mem_size \<Rightarrow> u64 \<Rightarrow> oemu_status \<times> 'm"
  mo_validate :: "'m \<Rightarrow> u64 \<Rightarrow> u64 \<Rightarrow> u32 \<Rightarrow> oemu_status \<times> 'm"

text \<open>
  The environment: the system-call handler gets the environment's state, the bus state, the call
  number and the six arguments, and returns the value for \<open>x0\<close> with both states updated. The
  firmware conduit gets which of HVC and SMC was used, the immediate and three arguments; a consumed
  call returns the value for \<open>x0\<close>. Each callback may be the null pointer, hence the options.
\<close>

record ('e, 'm) oemu_env_ops =
  env_syscall :: "('e \<Rightarrow> 'm \<Rightarrow> u64 \<Rightarrow> u64 list \<Rightarrow> i64 \<times> 'e \<times> 'm) option"
  env_halted :: "('e \<Rightarrow> bool) option"
  env_fw_call :: "('e \<Rightarrow> bool \<Rightarrow> u16 \<Rightarrow> u64 list \<Rightarrow> u64 option \<times> 'e) option"

definition transfer_bytes :: "oemu_mem_size \<Rightarrow> u64" where
  "transfer_bytes sz = push_bit (mem_size_val sz) 1"

lemma transfer_bytes_simps [simp]:
  "transfer_bytes OEMU_MEM_BYTE = 1" "transfer_bytes OEMU_MEM_HALF = 2"
  "transfer_bytes OEMU_MEM_WORD = 4" "transfer_bytes OEMU_MEM_DWORD = 8"
  "transfer_bytes OEMU_MEM_128 = 16"
  by (simp_all add: transfer_bytes_def)

section \<open>The provider's contract\<close>

text \<open>
  \<open>accepts m a n p\<close> says that an access of \<open>n\<close> bytes at \<open>a\<close> with permissions \<open>p\<close> is allowed, and
  \<open>content\<close> is what the guest can observe of memory. Validation answers exactly \<open>accepts\<close>, a
  validated access of at most eight bytes succeeds, and only a successful write changes the content;
  no operation changes what is accepted.
\<close>

locale bus =
  fixes ops :: "'m oemu_memops"
    and inv :: "'m \<Rightarrow> bool"
    and accepts :: "'m \<Rightarrow> u64 \<Rightarrow> u64 \<Rightarrow> u32 \<Rightarrow> bool"
    and content :: "'m \<Rightarrow> 'c"
  assumes validate_law: "inv m \<Longrightarrow> mo_validate ops m a n p = (st, m') \<Longrightarrow>
      inv m' \<and> accepts m' = accepts m \<and> content m' = content m \<and> (st = OEMU_OK \<longleftrightarrow> accepts m a n p)"
    and read_law: "inv m \<Longrightarrow> mo_read ops m a sz sx = (q, m') \<Longrightarrow>
      inv m' \<and> accepts m' = accepts m \<and> content m' = content m \<and>
      (sz \<noteq> OEMU_MEM_128 \<and> accepts m a (transfer_bytes sz) OEMU_PERM_READ \<longrightarrow> (\<exists>v. q = Inr v))"
    and write_law: "inv m \<Longrightarrow> mo_write ops m a sz v = (st, m') \<Longrightarrow>
      inv m' \<and> accepts m' = accepts m \<and> (st \<noteq> OEMU_OK \<longrightarrow> content m' = content m) \<and>
      (sz \<noteq> OEMU_MEM_128 \<and> accepts m a (transfer_bytes sz) OEMU_PERM_WRITE \<longrightarrow> st = OEMU_OK)"
    and fetch_law: "inv m \<Longrightarrow> mo_fetch32 ops m a = (r, m') \<Longrightarrow>
      inv m' \<and> accepts m' = accepts m \<and> content m' = content m \<and> r \<noteq> Inl OEMU_OK"
begin

text \<open>States the executor cannot tell apart: the same accesses are allowed and the same bytes seen.\<close>

definition same :: "'m \<Rightarrow> 'm \<Rightarrow> bool" where
  "same m m' \<longleftrightarrow> inv m' \<and> accepts m' = accepts m \<and> content m' = content m"

lemma same_refl [simp]: "inv m \<Longrightarrow> same m m"
  by (simp add: same_def)

lemma same_trans [trans]: "same m m' \<Longrightarrow> same m' m'' \<Longrightarrow> same m m''"
  by (simp add: same_def)

lemma same_inv [dest]: "same m m' \<Longrightarrow> inv m'"
  by (simp add: same_def)

lemma same_accepts: "same m m' \<Longrightarrow> accepts m' = accepts m"
  by (simp add: same_def)

lemma validate_cases:
  assumes "inv m"
  obtains m' where "same m m'" "accepts m a n p" "mo_validate ops m a n p = (OEMU_OK, m')"
  | st m' where "same m m'" "\<not> accepts m a n p" "st \<noteq> OEMU_OK" "mo_validate ops m a n p = (st, m')"
  using validate_law [OF assms, of a n p] unfolding same_def by (metis prod.exhaust)

lemma read_accepted:
  assumes "inv m" "sz \<noteq> OEMU_MEM_128" "accepts m a (transfer_bytes sz) OEMU_PERM_READ"
  obtains v m' where "mo_read ops m a sz sx = (Inr v, m')" "same m m'"
  using read_law [OF assms(1), of a sz sx] assms(2,3) unfolding same_def by (metis prod.exhaust)

lemma write_accepted:
  assumes "inv m" "sz \<noteq> OEMU_MEM_128" "accepts m a (transfer_bytes sz) OEMU_PERM_WRITE"
  obtains m' where "mo_write ops m a sz v = (OEMU_OK, m')" "inv m'" "accepts m' = accepts m"
  using write_law [OF assms(1), of a sz v] assms(2,3) by (metis prod.exhaust)

lemma fetch_same: "inv m \<Longrightarrow> mo_fetch32 ops m a = (r, m') \<Longrightarrow> same m m'"
  using fetch_law by (auto simp: same_def)

end

end
