(* ===== verification/Oemu_Alu.thy ===== *)
theory Oemu_Alu
  imports Oemu_Insn Oemu_Words
begin

text \<open>
  The pure helpers of the interpreter (\<^verbatim>\<open>src/exec/exec.c\<close>): the shifter and its carry, the register
  extensions, the logical flags, the high-word multiplies, the bit and byte counting and reversing
  instructions and CRC32. Each is related to what it computes: the multiplies to the integer
  product, the reversals to a permutation of bits, the counts to the position of the leading bit.
\<close>

section \<open>Definitions\<close>

definition reg_bits_of :: "oemu_reg_width \<Rightarrow> nat" where
  "reg_bits_of width = (if width = OEMU_REG_W32 then 32 else 64)"

text \<open>The mask of the low \<open>bits\<close> bits that the helpers compute inline.\<close>

definition width_mask :: "nat \<Rightarrow> u64" where
  "width_mask bits = (if bits = 64 then NOT 0 else push_bit bits 1 - 1)"

definition rotr :: "u64 \<Rightarrow> nat \<Rightarrow> nat \<Rightarrow> u64" where
  "rotr value amount bits =
     (drop_bit amount value OR push_bit (bits - amount) value) AND width_mask bits"

record oemu_exec_shift_result =
  sh_value :: u64
  sh_carry_valid :: bool
  sh_carry :: bool

definition oemu_exec_internal_shift_operand ::
  "u64 \<Rightarrow> oemu_shift_type \<Rightarrow> nat \<Rightarrow> oemu_reg_width \<Rightarrow> oemu_exec_shift_result" where
  "oemu_exec_internal_shift_operand value type amount width =
     (let bits = reg_bits_of width;
          m = width_mask bits;
          masked = value AND m;
          sign = (masked AND push_bit (bits - 1) 1 \<noteq> 0)
      in if amount = 0
         then (case type of
                 OEMU_SHIFT_LSL \<Rightarrow> \<lparr>sh_value = masked, sh_carry_valid = False, sh_carry = False\<rparr>
               | OEMU_SHIFT_LSR \<Rightarrow> \<lparr>sh_value = 0, sh_carry_valid = True,
                                   sh_carry = (drop_bit (bits - 1) masked \<noteq> 0)\<rparr>
               | OEMU_SHIFT_ASR \<Rightarrow> \<lparr>sh_value = (if sign then m else 0), sh_carry_valid = True,
                                   sh_carry = sign\<rparr>
               | OEMU_SHIFT_ROR \<Rightarrow> \<lparr>sh_value = (if sign then m else 0), sh_carry_valid = True,
                                   sh_carry = sign\<rparr>)
         else let shifted =
                    (case type of
                       OEMU_SHIFT_LSL \<Rightarrow> push_bit amount masked AND m
                     | OEMU_SHIFT_LSR \<Rightarrow> drop_bit amount masked
                     | OEMU_SHIFT_ASR \<Rightarrow>
                         (let fill = (if sign then push_bit (bits - amount) m AND m else 0)
                          in (drop_bit amount (masked AND m) OR fill) AND m)
                     | OEMU_SHIFT_ROR \<Rightarrow> rotr masked amount bits);
                  carry_bit = (if type = OEMU_SHIFT_LSL then bits - amount else amount - 1)
              in \<lparr>sh_value = shifted, sh_carry_valid = True,
                  sh_carry = (drop_bit carry_bit masked AND 1 \<noteq> 0)\<rparr>)"

definition oemu_exec_internal_extend_operand ::
  "u64 \<Rightarrow> oemu_extend_type \<Rightarrow> nat \<Rightarrow> bool \<Rightarrow> u64" where
  "oemu_exec_internal_extend_operand index_value type shift is_lsl =
     push_bit shift
       (case type of
          OEMU_EXTEND_UXTB \<Rightarrow> index_value AND 0xFF
        | OEMU_EXTEND_UXTH \<Rightarrow> index_value AND 0xFFFF
        | OEMU_EXTEND_UXTW \<Rightarrow> index_value AND 0xFFFFFFFF
        | OEMU_EXTEND_SXTB \<Rightarrow> scast (ucast index_value :: u8)
        | OEMU_EXTEND_SXTH \<Rightarrow> scast (ucast index_value :: u16)
        | OEMU_EXTEND_SXTW \<Rightarrow> scast (ucast index_value :: u32)
        | OEMU_EXTEND_UXTX \<Rightarrow> index_value
        | OEMU_EXTEND_SXTX \<Rightarrow> index_value)"

definition oemu_exec_internal_nz :: "u64 \<Rightarrow> oemu_reg_width \<Rightarrow> u32" where
  "oemu_exec_internal_nz result width =
     (let bits = reg_bits_of width;
          value = (if bits = 64 then result else result AND 0xFFFFFFFF)
      in (if value = 0 then OEMU_NZCV_Z else 0)
         OR (if value AND push_bit (bits - 1) 1 \<noteq> 0 then OEMU_NZCV_N else 0))"

definition oemu_exec_internal_umulh :: "u64 \<Rightarrow> u64 \<Rightarrow> u64" where
  "oemu_exec_internal_umulh a b =
     (let a_lo = a AND 0xFFFFFFFF;
          a_hi = drop_bit 32 a;
          b_lo = b AND 0xFFFFFFFF;
          b_hi = drop_bit 32 b;
          p0 = a_lo * b_lo;
          p1 = a_lo * b_hi;
          p2 = a_hi * b_lo;
          p3 = a_hi * b_hi;
          mid = drop_bit 32 p0 + (p1 AND 0xFFFFFFFF) + (p2 AND 0xFFFFFFFF)
      in p3 + drop_bit 32 p1 + drop_bit 32 p2 + drop_bit 32 mid)"

definition oemu_exec_internal_smulh :: "u64 \<Rightarrow> u64 \<Rightarrow> u64" where
  "oemu_exec_internal_smulh a b =
     (let hi = oemu_exec_internal_umulh a b;
          hi = (if a AND push_bit 63 1 \<noteq> 0 then hi - b else hi)
      in if b AND push_bit 63 1 \<noteq> 0 then hi - a else hi)"

text \<open>The scan from bit 63 down; the caller has excluded zero, so the scan finds a bit before it
  passes bit 0.\<close>

fun clz64_loop :: "u64 \<Rightarrow> nat \<Rightarrow> u64 \<Rightarrow> u64" where
  "clz64_loop value bt n =
     (if drop_bit bt value AND 1 \<noteq> 0 then n
      else case bt of 0 \<Rightarrow> n + 1 | Suc b \<Rightarrow> clz64_loop value b (n + 1))"

declare clz64_loop.simps [simp del]

definition clz64_ref :: "u64 \<Rightarrow> u64" where
  "clz64_ref value = (if value = 0 then 64 else clz64_loop value 63 0)"

definition oemu_exec_internal_clz :: "u64 \<Rightarrow> oemu_reg_width \<Rightarrow> u64" where
  "oemu_exec_internal_clz value width =
     (if width = OEMU_REG_W32
      then let low = value AND 0xFFFFFFFF in if low = 0 then 32 else clz64_ref (push_bit 32 low)
      else clz64_ref value)"

definition oemu_exec_internal_cls :: "u64 \<Rightarrow> oemu_reg_width \<Rightarrow> u64" where
  "oemu_exec_internal_cls value width =
     (let bits = reg_bits_of width;
          m = width_mask bits;
          v = value AND m
      in if v = 0 \<or> v = m then 0
         else let sign = (if drop_bit (bits - 1) v \<noteq> 0 then m else 0)
              in oemu_exec_internal_clz (v XOR sign) width - 1)"

definition oemu_exec_internal_rbit :: "u64 \<Rightarrow> oemu_reg_width \<Rightarrow> u64" where
  "oemu_exec_internal_rbit value width =
     (let bits = reg_bits_of width
      in fold (\<lambda>i out. if value AND push_bit i 1 \<noteq> 0 then out OR push_bit (bits - 1 - i) 1 else out)
           [0..<bits] 0 AND width_mask bits)"

definition oemu_exec_internal_rev :: "u64 \<Rightarrow> oemu_reg_width \<Rightarrow> u64" where
  "oemu_exec_internal_rev value width =
     (let bits = reg_bits_of width
      in fold (\<lambda>i out. out OR push_bit (8 * (bits div 8 - 1 - i)) (drop_bit (8 * i) value AND 0xFF))
           [0..<bits div 8] 0)"

definition oemu_exec_internal_rev16 :: "u64 \<Rightarrow> oemu_reg_width \<Rightarrow> u64" where
  "oemu_exec_internal_rev16 value width =
     fold (\<lambda>half out.
         let h = drop_bit (16 * half) value AND 0xFFFF;
             swapped = push_bit 8 (h AND 0xFF) OR drop_bit 8 h
         in out OR push_bit (16 * half) swapped)
       [0..<reg_bits_of width div 16] 0"

definition oemu_exec_internal_rev32 :: "u64 \<Rightarrow> u64" where
  "oemu_exec_internal_rev32 value = push_bit 32 (value AND 0xFFFFFFFF) OR drop_bit 32 value"

definition crc32_bit :: "u32 \<Rightarrow> u32 \<Rightarrow> u32" where
  "crc32_bit poly crc = (if crc AND 1 \<noteq> 0 then drop_bit 1 crc XOR poly else drop_bit 1 crc)"

definition oemu_exec_internal_crc32 :: "u32 \<Rightarrow> u64 \<Rightarrow> nat \<Rightarrow> bool \<Rightarrow> u32" where
  "oemu_exec_internal_crc32 crc_in data bytes castagnoli =
     (let poly = (if castagnoli then 0x82F63B78 else 0xEDB88320)
      in fold (\<lambda>i crc. (crc32_bit poly ^^ 8) (crc XOR ucast (drop_bit (8 * i) data AND 0xFF)))
           [0..<bytes] crc_in)"

section \<open>Multiplication\<close>

lemma unat_and_ffffffff: "unat (x AND 0xFFFFFFFF :: u64) = unat x mod 2 ^ 32"
  using unat_and_mask [of x 32] by (simp add: mask_eq_exp_minus_1)

lemma unat_drop_bit: "unat (drop_bit n (x :: 'a::len word)) = unat x div 2 ^ n"
  using uint_drop_bit [of n x] by (metis nat_div_distrib nat_numeral nat_power_eq uint_nonnegative
      unat_eq_nat_uint zero_le_numeral)

lemma unat_mult_small:
  assumes "unat x < 2 ^ 32" "unat y < 2 ^ 32"
  shows "unat (x * y :: u64) = unat x * unat y"
proof -
  have "unat x * unat y < 2 ^ 32 * 2 ^ 32" using assms by (intro mult_strict_mono) simp_all
  then show ?thesis by (simp add: unat_word_ariths)
qed

lemma unat_add3:
  "unat x + unat y + unat z < 2 ^ 64 \<Longrightarrow> unat (x + y + z :: u64) = unat x + unat y + unat z"
  by (simp add: unat_word_ariths mod_simps)

lemma unat_add4: "unat (x + y + z + w :: u64) = (unat x + unat y + unat z + unat w) mod 2 ^ 64"
  by (simp add: unat_word_ariths mod_simps)

text \<open>Schoolbook multiplication in base \<open>B\<close>: the high half of the product from the four partial
  products, with the carries the code propagates.\<close>

lemma schoolbook_high:
  fixes ah al bh bl B :: nat
  assumes B: "0 < B"
  defines "p0 \<equiv> al * bl" and "p1 \<equiv> al * bh" and "p2 \<equiv> ah * bl"
  shows "(ah * B + al) * (bh * B + bl) div (B * B) =
    ah * bh + p1 div B + p2 div B + (p0 div B + p1 mod B + p2 mod B) div B"
proof -
  define q0 q1 q2 r1 r2 where "q0 = p0 div B" and "q1 = p1 div B" and "q2 = p2 div B"
    and "r1 = p1 mod B" and "r2 = p2 mod B"
  define qm rm where "qm = (q0 + r1 + r2) div B" and "rm = (q0 + r1 + r2) mod B"
  note defs = q0_def q1_def q2_def r1_def r2_def qm_def rm_def
  have d: "p0 = q0 * B + p0 mod B" "p1 = q1 * B + r1" "p2 = q2 * B + r2" "q0 + r1 + r2 = qm * B + rm"
    by (simp_all add: defs)
  have "(ah * B + al) * (bh * B + bl) = ah * bh * (B * B) + p1 * B + p2 * B + p0"
    by (simp add: p0_def p1_def p2_def algebra_simps)
  also have "\<dots> = (ah * bh + q1 + q2) * (B * B) + (q0 + r1 + r2) * B + p0 mod B"
    by (subst d(1), subst d(2), subst d(3)) (simp add: algebra_simps)
  also have "\<dots> = (ah * bh + q1 + q2 + qm) * (B * B) + (rm * B + p0 mod B)"
    by (subst d(4)) (simp add: algebra_simps)
  finally have E: "(ah * B + al) * (bh * B + bl) =
      (rm * B + p0 mod B) + (ah * bh + q1 + q2 + qm) * (B * B)" by simp
  have "rm + 1 \<le> B" "p0 mod B < B" using B by (auto simp: rm_def Suc_le_eq)
  then have "(rm + 1) * B \<le> B * B" by (intro mult_right_mono) simp_all
  then have "rm * B + p0 mod B < B * B" using \<open>p0 mod B < B\<close> by simp
  then show ?thesis unfolding E using B by (simp add: div_mult_self1 flip: defs)
qed

lemma umulh_nat: "unat (oemu_exec_internal_umulh a b) = unat a * unat b div 2 ^ 64"
proof -
  let ?al = "unat a mod 2 ^ 32" and ?ah = "unat a div 2 ^ 32"
  let ?bl = "unat b mod 2 ^ 32" and ?bh = "unat b div 2 ^ 32"
  have u: "unat a < 2 ^ 64" "unat b < 2 ^ 64" using unsigned_less [of a] unsigned_less [of b] by simp_all
  have hi: "?ah < 2 ^ 32" "?bh < 2 ^ 32"
    using u by (simp_all add: less_mult_imp_div_less)
  have p: "unat ((a AND 0xFFFFFFFF) * (b AND 0xFFFFFFFF)) = ?al * ?bl"
    "unat ((a AND 0xFFFFFFFF) * drop_bit 32 b) = ?al * ?bh"
    "unat (drop_bit 32 a * (b AND 0xFFFFFFFF)) = ?ah * ?bl"
    "unat (drop_bit 32 a * drop_bit 32 b) = ?ah * ?bh"
    using hi by (subst unat_mult_small; simp add: unat_and_ffffffff unat_drop_bit)+
  have mid: "unat (drop_bit 32 ((a AND 0xFFFFFFFF) * (b AND 0xFFFFFFFF)) +
      ((a AND 0xFFFFFFFF) * drop_bit 32 b AND 0xFFFFFFFF) + (drop_bit 32 a * (b AND 0xFFFFFFFF) AND 0xFFFFFFFF)) =
      ?al * ?bl div 2 ^ 32 + ?al * ?bh mod 2 ^ 32 + ?ah * ?bl mod 2 ^ 32"
  proof -
    have small: "x + y + z < 2 ^ 64" if "x < 2 ^ 32" "y < 2 ^ 32" "z < 2 ^ 32" for x y z :: nat
      using that by simp
    have "?al * ?bl div 2 ^ 32 < 2 ^ 32"
      using mult_strict_mono [of ?al "2 ^ 32" ?bl "2 ^ 32"] by (simp add: less_mult_imp_div_less)
    then have "?al * ?bl div 2 ^ 32 + ?al * ?bh mod 2 ^ 32 + ?ah * ?bl mod 2 ^ 32 < 2 ^ 64"
      by (rule small) simp_all
    then show ?thesis
      by (subst unat_add3) (simp_all only: unat_drop_bit unat_and_ffffffff p)
  qed
  have split: "unat a = ?ah * 2 ^ 32 + ?al" "unat b = ?bh * 2 ^ 32 + ?bl" by simp_all
  have "unat a * unat b < 2 ^ 64 * 2 ^ 64" using u by (intro mult_strict_mono) simp_all
  then have lt: "unat a * unat b div 2 ^ 64 < 2 ^ 64" by (simp add: less_mult_imp_div_less)
  have S: "unat a * unat b div 2 ^ 64 = ?ah * ?bh + ?al * ?bh div 2 ^ 32 + ?ah * ?bl div 2 ^ 32 +
      (?al * ?bl div 2 ^ 32 + ?al * ?bh mod 2 ^ 32 + ?ah * ?bl mod 2 ^ 32) div 2 ^ 32"
    using schoolbook_high [of "2 ^ 32" ?ah ?al ?bh ?bl] by (simp flip: split)
  have "unat (oemu_exec_internal_umulh a b) = (?ah * ?bh + ?al * ?bh div 2 ^ 32 + ?ah * ?bl div 2 ^ 32 +
      (?al * ?bl div 2 ^ 32 + ?al * ?bh mod 2 ^ 32 + ?ah * ?bl mod 2 ^ 32) div 2 ^ 32) mod 2 ^ 64"
    unfolding oemu_exec_internal_umulh_def Let_def
    by (simp only: unat_add4 unat_drop_bit mid p)
  also have "\<dots> = unat a * unat b div 2 ^ 64" unfolding S [symmetric] by (rule mod_less [OF lt])
  finally show ?thesis .
qed

lemma sint_sign_bit: "sint (a :: u64) = uint a - 2 ^ 64 * of_bool (bit a 63)"
proof -
  have "take_bit 64 (uint a) = uint a"
    using uint_bounded [of a] by (intro take_bit_int_eq_self) simp_all
  then show ?thesis
    by (simp add: sint_uint signed_take_bit_eq_take_bit_minus bit_uint_iff)
qed

lemma uint_umulh: "uint (oemu_exec_internal_umulh a b) = uint a * uint b div 2 ^ 64"
  unfolding uint_nat umulh_nat by (simp only: zdiv_int of_nat_mult of_nat_power of_nat_numeral)

lemma umulh_int: "oemu_exec_internal_umulh a b = word_of_int (uint a * uint b div 2 ^ 64)"
  using uint_umulh [of a b] by (metis word_of_int_uint)

lemma smulh_int: "oemu_exec_internal_smulh a b = word_of_int (sint a * sint b div 2 ^ 64)"
proof -
  let ?na = "of_bool (bit a 63) :: int" and ?nb = "of_bool (bit b 63) :: int"
  have "sint a * sint b = uint a * uint b + (2 ^ 64 * ?na * ?nb - ?na * uint b - ?nb * uint a) * 2 ^ 64"
    by (simp add: sint_sign_bit algebra_simps)
  then have D: "sint a * sint b div 2 ^ 64 =
      uint a * uint b div 2 ^ 64 + (2 ^ 64 * ?na * ?nb - ?na * uint b - ?nb * uint a)"
    by simp
  have "oemu_exec_internal_smulh a b =
      oemu_exec_internal_umulh a b - of_bool (bit a 63) * b - of_bool (bit b 63) * a"
    unfolding oemu_exec_internal_smulh_def Let_def and_push_bit_ne_0_iff by simp
  also have "\<dots> = word_of_int (uint a * uint b div 2 ^ 64 - ?na * uint b - ?nb * uint a)"
    by (simp add: umulh_int)
  also have "\<dots> = word_of_int (uint a * uint b div 2 ^ 64 - ?na * uint b - ?nb * uint a + 2 ^ 64 * (?na * ?nb))"
    by (simp add: word_of_int_eq_iff take_bit_eq_mod)
  finally show ?thesis unfolding D by (simp add: algebra_simps)
qed

lemma sint_product_range: "sint a * sint b div 2 ^ 64 \<in> {- (2 ^ 63) ..< 2 ^ 63}" for a b :: u64
proof -
  have s: "\<bar>sint x\<bar> \<le> 2 ^ 63" for x :: u64
    using sint_range_size [of x] by (simp add: word_size abs_le_iff)
  then have "\<bar>sint a * sint b\<bar> \<le> 2 ^ 63 * 2 ^ 63"
    unfolding abs_mult by (intro mult_mono) simp_all
  then have "- (2 ^ 126) \<le> sint a * sint b" "sint a * sint b \<le> 2 ^ 126" by (simp_all add: abs_le_iff)
  then have "- (2 ^ 126) div 2 ^ 64 \<le> sint a * sint b div 2 ^ 64" "sint a * sint b div 2 ^ 64 \<le> 2 ^ 126 div 2 ^ 64"
    by (intro zdiv_mono1; simp)+
  then show ?thesis by simp
qed

text \<open>
  The high-word multiplies: without a 128-bit type, UMULH returns the high 64 bits of
  the unsigned product and SMULH those of the signed product, that is the product divided by
  \<open>2 ^ 64\<close> rounding down.
\<close>

theorem mulh_spec:
  "uint (oemu_exec_internal_umulh a b) = uint a * uint b div 2 ^ 64 \<and>
   sint (oemu_exec_internal_smulh a b) = sint a * sint b div 2 ^ 64"
proof
  show "uint (oemu_exec_internal_umulh a b) = uint a * uint b div 2 ^ 64"
    by (rule uint_umulh)
  show "sint (oemu_exec_internal_smulh a b) = sint a * sint b div 2 ^ 64"
    unfolding smulh_int using sint_product_range [of a b]
    by (simp only: sint_sbintrunc') (simp add: signed_take_bit_int_eq_self)
qed

section \<open>Reversals\<close>

lemma reg_bits_of_eq: "reg_bits_of w = reg_bits w"
  by (simp add: reg_bits_of_def reg_bits_def)

lemma width_mask_eq: "width_mask (reg_bits w) = mask (reg_bits w)"
  by (cases w) (simp_all add: width_mask_def mask_full push_bit_1_minus_1 mask_eq_exp_minus_1)

lemma reg_bits_le_64: "reg_bits w \<le> 64"
  by (cases w) simp_all

lemma bit_fold_or:
  "bit (fold (\<lambda>i out. out OR f i) xs a) k \<longleftrightarrow> bit a k \<or> (\<exists>i \<in> set xs. bit (f i :: u64) k)"
  by (induction xs arbitrary: a) (auto simp: bit_simps)

lemma bit_rbit:
  "bit (oemu_exec_internal_rbit v w) k \<longleftrightarrow> k < reg_bits w \<and> bit v (reg_bits w - 1 - k)"
proof -
  let ?n = "reg_bits w"
  have E: "(\<lambda>i out. if v AND push_bit i 1 \<noteq> 0 then out OR push_bit (?n - 1 - i) 1 else out) =
      (\<lambda>i out. out OR (if bit v i then push_bit (?n - 1 - i) 1 else 0 :: u64))"
    by (simp add: fun_eq_iff and_push_bit_ne_0_iff del: push_bit_of_1)
  have "(\<exists>i \<in> set [0..<?n]. bit (if bit v i then push_bit (?n - 1 - i) 1 else 0 :: u64) k) \<longleftrightarrow>
      k < ?n \<and> bit v (?n - 1 - k)" if "k < ?n"
    using that reg_bits_le_64 [of w]
    by (auto simp: bit_simps intro!: bexI [of _ "?n - 1 - k"])
  then show ?thesis
    unfolding oemu_exec_internal_rbit_def Let_def reg_bits_of_eq E width_mask_eq
    using reg_bits_le_64 [of w] by (cases "k < ?n") (auto simp: bit_simps bit_fold_or)
qed

lemma bit_rev:
  assumes "k < 64"
  shows "bit (oemu_exec_internal_rev v w) k \<longleftrightarrow>
    k < reg_bits w \<and> bit v (8 * (reg_bits w div 8 - 1 - k div 8) + k mod 8)"
proof -
  let ?m = "reg_bits w div 8"
  have m: "8 * ?m = reg_bits w" by (cases w) simp_all
  have ff: "(0xFF :: u64) = mask 8" by (simp add: mask_eq_exp_minus_1)
  have B: "bit (push_bit (8 * (?m - 1 - i)) (drop_bit (8 * i) v AND mask 8)) k \<longleftrightarrow>
      k div 8 = ?m - 1 - i \<and> bit v (8 * i + k mod 8)" if "i < ?m" for i
  proof (cases "k div 8 = ?m - 1 - i")
    case True
    then have "8 * (?m - 1 - i) \<le> k" "k - 8 * (?m - 1 - i) = k mod 8" by (simp_all add: modulo_nat_def)
    moreover have "k mod 8 < 64" by (rule less_trans [OF mod_less_divisor]) simp_all
    ultimately show ?thesis using True assms by (simp add: bit_simps)
  next
    case False
    then have "\<not> (8 * (?m - 1 - i) \<le> k \<and> k - 8 * (?m - 1 - i) < 8)" by linarith
    with False show ?thesis by (auto simp: bit_simps)
  qed
  have "bit (oemu_exec_internal_rev v w) k \<longleftrightarrow> (\<exists>i<?m. k div 8 = ?m - 1 - i \<and> bit v (8 * i + k mod 8))"
    unfolding oemu_exec_internal_rev_def Let_def reg_bits_of_eq ff bit_fold_or using B by (simp only: set_upt) auto
  also have "\<dots> \<longleftrightarrow> k < reg_bits w \<and> bit v (8 * (?m - 1 - k div 8) + k mod 8)"
  proof (cases "k < reg_bits w")
    case True
    then have "k div 8 < ?m" using m by (simp add: less_mult_imp_div_less mult.commute)
    then have "(i < ?m \<and> k div 8 = ?m - 1 - i) = (i = ?m - 1 - k div 8)" for i by auto
    then have "(\<exists>i<?m. k div 8 = ?m - 1 - i \<and> bit v (8 * i + k mod 8)) =
        (\<exists>i. i = ?m - 1 - k div 8 \<and> bit v (8 * i + k mod 8))" by metis
    with True show ?thesis by simp
  next
    case False
    then have "?m \<le> k div 8" using m by (metis div_le_mono nonzero_mult_div_cancel_left not_less zero_neq_numeral)
    with False show ?thesis by auto
  qed
  finally show ?thesis .
qed

text \<open>
  Bit and byte reversal: RBIT sends bit \<open>k\<close> of the register to bit \<open>width - 1 - k\<close>, REV
  sends byte \<open>j\<close> to byte \<open>width / 8 - 1 - j\<close> keeping the order within the byte, both clear the bits
  above a 32-bit register, and each undoes itself.
\<close>

theorem reversal_spec:
  "(\<forall>k. bit (oemu_exec_internal_rbit v w) k = (k < reg_bits w \<and> bit v (reg_bits w - 1 - k))) \<and>
   (\<forall>k. bit (oemu_exec_internal_rev v w) k =
      (k < reg_bits w \<and> bit v (8 * (reg_bits w div 8 - 1 - k div 8) + k mod 8))) \<and>
   oemu_exec_internal_rbit (oemu_exec_internal_rbit v w) w = oemu_regs_internal_truncate v w \<and>
   oemu_exec_internal_rev (oemu_exec_internal_rev v w) w = oemu_regs_internal_truncate v w"
proof (intro conjI allI impI)
  show "bit (oemu_exec_internal_rbit v w) k = (k < reg_bits w \<and> bit v (reg_bits w - 1 - k))" for k
    by (rule bit_rbit)
  show "bit (oemu_exec_internal_rev v w) k =
      (k < reg_bits w \<and> bit v (8 * (reg_bits w div 8 - 1 - k div 8) + k mod 8))" for k
  proof (cases "k < 64")
    case True
    then show ?thesis by (rule bit_rev)
  next
    case False
    then have "\<not> bit (oemu_exec_internal_rev v w) k" "\<not> k < reg_bits w"
      using bit_imp_le_length [of "oemu_exec_internal_rev v w" k] by (cases w; auto)+
    then show ?thesis by simp
  qed
  show "oemu_exec_internal_rbit (oemu_exec_internal_rbit v w) w = oemu_regs_internal_truncate v w"
    by (rule bit_word_eqI) (cases w; auto simp: bit_rbit truncate_take_bit bit_simps)
  show "oemu_exec_internal_rev (oemu_exec_internal_rev v w) w = oemu_regs_internal_truncate v w"
  proof (rule bit_word_eqI)
    fix k assume "k < LENGTH(64)"
    then have k: "k < 64" by simp
    let ?m = "reg_bits w div 8" and ?k = "8 * (reg_bits w div 8 - 1 - k div 8) + k mod 8"
    have m: "?m \<le> 8" "reg_bits w = 8 * ?m" "0 < ?m" by (cases w; simp)+
    show "bit (oemu_exec_internal_rev (oemu_exec_internal_rev v w) w) k = bit (oemu_regs_internal_truncate v w) k"
    proof (cases "k < reg_bits w")
      case True
      then have "k div 8 < ?m" using m(2) by (simp add: less_mult_imp_div_less mult.commute)
      then have "?k < reg_bits w" "?k div 8 = ?m - 1 - k div 8" "?k mod 8 = k mod 8"
        using m by auto
      then have "bit (oemu_exec_internal_rev v w) ?k = bit v (8 * (k div 8) + k mod 8)"
        using \<open>k div 8 < ?m\<close> reg_bits_le_64 [of w] by (subst bit_rev) auto
      then show ?thesis
        using True k by (simp add: bit_rev truncate_take_bit bit_simps)
    qed (use k in \<open>simp add: bit_rev truncate_take_bit bit_simps\<close>)
  qed
qed

section \<open>Counting leading bits\<close>

lemma test_bit_and_1: "drop_bit n x AND 1 \<noteq> 0 \<longleftrightarrow> bit (x :: 'a::len word) n"
  by (simp add: bit_iff_odd_drop_bit and_one_eq odd_iff_mod_2_eq_one)

lemma clz64_loop_spec:
  assumes "v \<noteq> 0" "uint v < 2 * 2 ^ b"
  shows "\<exists>p \<le> b. clz64_loop v b n = n + of_nat (b - p) \<and> 2 ^ p \<le> uint v \<and> uint v < 2 * 2 ^ p"
  using assms(2)
proof (induction b arbitrary: n)
  case 0
  moreover have "0 < uint v" using assms(1) by (simp add: word_less_def word_neq_0_conv)
  ultimately have "uint v = 1" by simp
  then show ?case using bit_uint_top_iff [of v 0] 0
    using test_bit_and_1 [of 0 v] by (intro exI [of _ 0]) (simp add: clz64_loop.simps [of v 0])
next
  case (Suc b)
  show ?case
  proof (cases "bit v (Suc b)")
    case True
    then show ?thesis using Suc.prems bit_uint_top_iff [of v "Suc b"]
      by (intro exI [of _ "Suc b"]) (simp add: clz64_loop.simps [of v "Suc b"] test_bit_and_1)
  next
    case False
    then have "uint v < 2 * 2 ^ b" using Suc.prems bit_uint_top_iff [of v "Suc b"] by simp
    from Suc.IH [OF this, of "n + 1"] obtain p where "p \<le> b" "clz64_loop v b (n + 1) = n + 1 + of_nat (b - p)"
      "2 ^ p \<le> uint v" "uint v < 2 * 2 ^ p" by blast
    then show ?thesis using False
      by (intro exI [of _ p]) (simp add: clz64_loop.simps [of v "Suc b"] test_bit_and_1 Suc_diff_le)
  qed
qed

lemma clz64_ref_spec:
  assumes "v \<noteq> 0"
  obtains p where "p \<le> 63" "unat (clz64_ref v) = 63 - p" "2 ^ p \<le> uint v" "uint v < 2 ^ Suc p"
proof -
  from clz64_loop_spec [OF assms, of 63 0] uint_bounded [of v]
  obtain p where p: "p \<le> 63" "clz64_loop v 63 0 = of_nat (63 - p)" "2 ^ p \<le> uint v" "uint v < 2 * 2 ^ p"
    by auto
  have "unat (of_nat (63 - p) :: u64) = 63 - p" by (simp only: unat_of_nat) simp
  with p assms that show thesis by (simp add: clz64_ref_def)
qed

text \<open>
  CLZ counts the zero bits above the leading one at the operand width: it is the width
  for a zero operand, and otherwise the one number \<open>c\<close> below the width for which the operand lies
  between \<open>2 ^ (width - 1 - c)\<close> and \<open>2 ^ (width - c)\<close>.
\<close>

theorem clz_spec:
  "let t = uint (oemu_regs_internal_truncate v w); c = unat (oemu_exec_internal_clz v w)
   in if t = 0 then c = reg_bits w
      else c < reg_bits w \<and> 2 ^ (reg_bits w - 1 - c) \<le> t \<and> t < 2 ^ (reg_bits w - c)"
proof (cases w)
  case OEMU_REG_W64
  show ?thesis
  proof (cases "v = 0")
    case False
    then obtain p where p: "p \<le> 63" "unat (clz64_ref v) = 63 - p" "2 ^ p \<le> uint v" "uint v < 2 ^ Suc p"
      by (rule clz64_ref_spec)
    then have "64 - (63 - p) = Suc p" "63 - (63 - p) = p" by simp_all
    moreover have "0 < uint v" using False by (simp add: word_less_def word_neq_0_conv)
    moreover have "63 - p < 64" by simp
    ultimately show ?thesis using OEMU_REG_W64 p
      by (simp add: oemu_exec_internal_clz_def Let_def del: power_Suc)
  qed (simp add: OEMU_REG_W64 oemu_exec_internal_clz_def clz64_ref_def)
next
  case OEMU_REG_W32
  let ?t = "v AND 0xFFFFFFFF"
  show ?thesis
  proof (cases "?t = 0")
    case False
    have b: "uint ?t < 2 ^ 32" using uint_and_mask_le [of v "0xFFFFFFFF"] by simp
    have u: "uint (push_bit 32 ?t) = uint ?t * 2 ^ 32"
      unfolding unsigned_push_bit_eq using b by (simp add: push_bit_eq_mult take_bit_int_eq_self)
    have t0: "0 < uint ?t" using False by (simp add: word_less_def word_neq_0_conv)
    have "push_bit 32 ?t \<noteq> 0"
    proof
      assume "push_bit 32 ?t = 0"
      then show False using u t0 by (simp only: unsigned_0) simp
    qed
    then obtain p where p: "p \<le> 63" "unat (clz64_ref (push_bit 32 ?t)) = 63 - p"
      "2 ^ p \<le> uint ?t * 2 ^ 32" "uint ?t * 2 ^ 32 < 2 ^ Suc p"
      using clz64_ref_spec u by metis
    have "(2 :: int) ^ 32 < 2 ^ Suc p" using p(4) t0 by simp
    from power_less_imp_less_exp [OF _ this] have "32 \<le> p" by simp
    then obtain q where q: "p = q + 32" by (metis add.commute le_Suc_ex)
    then have "2 ^ q \<le> uint ?t" "uint ?t < 2 ^ Suc q" "q \<le> 31" using p by (simp_all add: power_add)
    moreover have "32 - (31 - q) = Suc q" "31 - (31 - q) = q" using \<open>q \<le> 31\<close> by simp_all
    moreover have "unat (clz64_ref (push_bit 32 ?t)) = 31 - q" using p(2) q by simp
    ultimately show ?thesis using OEMU_REG_W32 False t0
      by (simp add: oemu_exec_internal_clz_def oemu_regs_internal_truncate_def Let_def del: power_Suc)
  qed (simp add: OEMU_REG_W32 oemu_exec_internal_clz_def oemu_regs_internal_truncate_def)
qed

section \<open>Shifts\<close>

text \<open>The bit that ends up at position \<open>k\<close> when a register of \<open>n\<close> bits is shifted by \<open>a\<close>.\<close>

definition shifted_bit :: "oemu_shift_type \<Rightarrow> nat \<Rightarrow> nat \<Rightarrow> u64 \<Rightarrow> nat \<Rightarrow> bool" where
  "shifted_bit t n a v k =
     (case t of
        OEMU_SHIFT_LSL \<Rightarrow> a \<le> k \<and> bit v (k - a)
      | OEMU_SHIFT_LSR \<Rightarrow> k + a < n \<and> bit v (k + a)
      | OEMU_SHIFT_ASR \<Rightarrow> bit v (min (k + a) (n - 1))
      | OEMU_SHIFT_ROR \<Rightarrow> bit v ((k + a) mod n))"

lemma mod_once: "k < n \<Longrightarrow> a < n \<Longrightarrow> (k + a) mod n = (if k + a < n then k + a else k + a - n)" for n :: nat
  by (simp add: mod_nat_eqI not_less)

text \<open>
  The barrel shifter at its operand width: for an amount inside the register, each
  result bit is the source bit the shift type says (shifted in zeros for LSL and LSR, copies of the
  sign bit of that width for ASR, the bits that fell out for ROR), bits above the width are clear,
  and the reported carry is the last bit shifted out.
\<close>

theorem shift_operand_spec:
  assumes "0 < a" "a < reg_bits w"
  shows "let r = oemu_exec_internal_shift_operand v t a w in
    (\<forall>k. bit (sh_value r) k = (k < reg_bits w \<and> shifted_bit t (reg_bits w) a v k)) \<and>
    sh_carry_valid r \<and>
    sh_carry r = bit v (if t = OEMU_SHIFT_LSL then reg_bits w - a else a - 1)"
proof -
  let ?n = "reg_bits w"
  define r where "r = oemu_exec_internal_shift_operand v t a w"
  have n: "0 < ?n" "?n \<le> 64" by (cases w; simp)+
  have carry: "sh_carry r = bit v (if t = OEMU_SHIFT_LSL then ?n - a else a - 1)"
    using assms(1,2) n
    by (cases t) (auto simp: r_def oemu_exec_internal_shift_operand_def Let_def reg_bits_of_eq
        width_mask_eq test_bit_and_1 bit_simps)
  have sign: "((v AND mask ?n) AND push_bit (?n - 1) 1 \<noteq> 0) = bit v (?n - 1)"
    using n by (simp only: and_push_bit_ne_0_iff) (auto simp: bit_simps)
  have valid: "sh_carry_valid r"
    using assms(1) by (cases t) (simp_all add: r_def oemu_exec_internal_shift_operand_def Let_def)
  have "bit (sh_value r) k = (k < ?n \<and> shifted_bit t ?n a v k)" for k
  proof (cases "k < ?n")
    case True
    with assms(1,2) n show ?thesis
      unfolding r_def oemu_exec_internal_shift_operand_def Let_def reg_bits_of_eq width_mask_eq sign
      by (cases t) (auto simp: shifted_bit_def bit_simps rotr_def width_mask_eq mod_once min_def
          add.commute [of a] split: if_splits)
  next
    case False
    with assms(1,2) n show ?thesis
      unfolding r_def oemu_exec_internal_shift_operand_def Let_def reg_bits_of_eq width_mask_eq sign
      by (cases t) (auto simp: bit_simps rotr_def width_mask_eq)
  qed
  then show ?thesis using valid carry by (simp add: Let_def flip: r_def)
qed

theorem shift_operand_spec_witness:
  "bit (sh_value (oemu_exec_internal_shift_operand 0x80000000 OEMU_SHIFT_ASR 4 OEMU_REG_W32)) 27 \<and>
   \<not> sh_carry (oemu_exec_internal_shift_operand 0x80000000 OEMU_SHIFT_ASR 4 OEMU_REG_W32)"
  using shift_operand_spec [of 4 OEMU_REG_W32 "0x80000000" OEMU_SHIFT_ASR]
  by (auto simp: shifted_bit_def Let_def)

section \<open>CRC32\<close>

lemma crc32_bit_xor: "crc32_bit p (a XOR b) = crc32_bit p a XOR crc32_bit p b XOR crc32_bit p 0"
  using test_bit_and_1 [of 0 a] test_bit_and_1 [of 0 b] test_bit_and_1 [of 0 "a XOR b"]
  by (auto simp: crc32_bit_def bit_simps intro!: bit_word_eqI)

lemma crc32_bit_0 [simp]: "crc32_bit p 0 = 0"
  by (simp add: crc32_bit_def)

lemma crc32_byte_xor:
  "(crc32_bit p ^^ n) (a XOR b) = (crc32_bit p ^^ n) a XOR (crc32_bit p ^^ n) b"
  by (induction n) (simp_all add: crc32_bit_xor)

lemma fold_xor_linear:
  assumes "\<And>x y. F (x XOR y) = F x XOR F (y :: u32)"
  shows "fold (\<lambda>i c. F (c XOR (g i XOR g' i))) xs (c XOR c') =
    fold (\<lambda>i c. F (c XOR g i)) xs c XOR fold (\<lambda>i c. F (c XOR g' i)) xs c'"
proof (induction xs arbitrary: c c')
  case (Cons i xs)
  have "F ((c XOR c') XOR (g i XOR g' i)) = F (c XOR g i) XOR F (c' XOR g' i)"
    by (simp only: assms [symmetric] ac_simps)
  with Cons show ?case by simp
qed simp

text \<open>
  CRC32 over several bytes is CRC32 byte after byte: running \<open>m + n\<close> bytes at once is
  running the low \<open>m\<close> and feeding the result to the next \<open>n\<close>, so that the 8-byte instruction agrees
  with any sequence of narrower ones; and the checksum is linear over exclusive or in seed and data.
\<close>

theorem crc32_compose:
  "oemu_exec_internal_crc32 c d (m + n) k =
     oemu_exec_internal_crc32 (oemu_exec_internal_crc32 c d m k) (drop_bit (8 * m) d) n k \<and>
   oemu_exec_internal_crc32 (c XOR c') (d XOR d') m k =
     oemu_exec_internal_crc32 c d m k XOR oemu_exec_internal_crc32 c' d' m k"
proof
  let ?p = "if k then 0x82F63B78 else 0xEDB88320 :: u32"
  have "fold (\<lambda>i crc. (crc32_bit ?p ^^ 8) (crc XOR ucast (drop_bit (8 * i) d AND 0xFF))) [m..<m + n] x =
      fold (\<lambda>i crc. (crc32_bit ?p ^^ 8) (crc XOR ucast (drop_bit (8 * i) (drop_bit (8 * m) d) AND 0xFF))) [0..<n] x" for x
    by (induction n) (simp_all add: algebra_simps)
  then show "oemu_exec_internal_crc32 c d (m + n) k =
     oemu_exec_internal_crc32 (oemu_exec_internal_crc32 c d m k) (drop_bit (8 * m) d) n k"
    unfolding oemu_exec_internal_crc32_def Let_def upt_add_eq_append [OF le0] fold_append o_def by simp
  have ux: "(ucast ((x XOR y) AND 0xFF) :: u32) = ucast (x AND 0xFF) XOR ucast (y AND 0xFF)" for x y :: u64
    by (auto simp: bit_simps intro!: bit_word_eqI)
  show "oemu_exec_internal_crc32 (c XOR c') (d XOR d') m k =
     oemu_exec_internal_crc32 c d m k XOR oemu_exec_internal_crc32 c' d' m k"
    unfolding oemu_exec_internal_crc32_def Let_def drop_bit_xor ux
    by (rule fold_xor_linear) (rule crc32_byte_xor)
qed

section \<open>Two instructions that differ from the architecture\<close>

text \<open>
  CLS of an operand whose bits all agree is 0 here, where the architecture counts the \<open>width - 1\<close>
  bits below the sign bit that equal it; and REV32 exchanges the two words of the register, where
  the architecture reverses the bytes inside each word.
\<close>

theorem cls_all_equal:
  "oemu_exec_internal_cls 0 w = 0 \<and>
   oemu_exec_internal_cls 0xFFFFFFFFFFFFFFFF OEMU_REG_W64 = 0 \<and>
   oemu_exec_internal_cls 0xFFFFFFFF OEMU_REG_W32 = 0"
  by (simp add: oemu_exec_internal_cls_def Let_def reg_bits_of_def width_mask_def)

theorem rev32_swaps_words:
  "oemu_exec_internal_rev32 0x0102030405060708 = 0x0506070801020304"
  by (simp add: oemu_exec_internal_rev32_def)

end
