(* ===== verification/Oemu_Exec.thy ===== *)
theory Oemu_Exec
  imports Oemu_Decode Oemu_Bus Oemu_Alu
begin

text \<open>
  The interpreter (\<^verbatim>\<open>src/exec/exec.c\<close>), user-mode path: the CPU record, the handlers for memory,
  exclusive, bit-field, conditional and system-register instructions, the dispatch switch with one
  definition for each group of its cases, the single step and the run loop, over any bus and any
  environment. A handler returns the status with the CPU, bus and environment as it leaves them;
  \<^const>\<open>None\<close> is a failed contract check, which aborts the process. The environment-gated tracer
  (\<^verbatim>\<open>oemu_tr_*\<close>) writes diagnostics to host files and never touches guest state; it has no
  counterpart here.
\<close>

section \<open>State\<close>

record oemu_cpu =
  c_regs :: oemu_regs
  c_monitor_addr :: u64
  c_monitor_size :: u64
  c_monitor_valid :: bool
  c_tpidrur_el0 :: u64
  c_v :: "(u64 \<times> u64) list"

definition oemu_cpu_init :: "u64 \<Rightarrow> u64 \<Rightarrow> oemu_cpu" where
  "oemu_cpu_init entry_pc initial_sp =
     \<lparr>c_regs = oemu_regs_init entry_pc initial_sp, c_monitor_addr = 0, c_monitor_size = 0,
      c_monitor_valid = False, c_tpidrur_el0 = 0, c_v = replicate 32 (0, 0)\<rparr>"

definition oemu_vec_read :: "oemu_cpu \<Rightarrow> nat \<Rightarrow> oemu_status + u64 \<times> u64" where
  "oemu_vec_read cpu n = (if n \<ge> 32 then Inl OEMU_ERR_INVALID_ARG else Inr (c_v cpu ! n))"

definition oemu_vec_write :: "oemu_cpu \<Rightarrow> nat \<Rightarrow> u64 \<Rightarrow> u64 \<Rightarrow> oemu_status \<times> oemu_cpu" where
  "oemu_vec_write cpu n lo hi =
     (if n \<ge> 32 then (OEMU_ERR_INVALID_ARG, cpu)
      else (OEMU_OK, cpu\<lparr>c_v := (c_v cpu)[n := (lo, hi)]\<rparr>))"

section \<open>Register access\<close>

definition read_g :: "oemu_cpu \<Rightarrow> nat \<Rightarrow> bool \<Rightarrow> oemu_reg_width \<Rightarrow> u64 option" where
  "read_g cpu n sp_form width =
     (if sp_form then oemu_regs_read_sp_form (c_regs cpu) n width
      else oemu_regs_read (c_regs cpu) n width)"

definition write_g :: "oemu_cpu \<Rightarrow> nat \<Rightarrow> bool \<Rightarrow> oemu_reg_width \<Rightarrow> u64 \<Rightarrow> oemu_cpu option" where
  "write_g cpu n sp_form width value = do {
     regs \<leftarrow> (if sp_form then oemu_regs_write_sp_form (c_regs cpu) n width value
              else oemu_regs_write (c_regs cpu) n width value);
     Some (cpu\<lparr>c_regs := regs\<rparr>)
   }"

definition set_nzcv :: "oemu_cpu \<Rightarrow> u32 \<Rightarrow> oemu_cpu" where
  "set_nzcv cpu nzcv = cpu\<lparr>c_regs := oemu_regs_set_nzcv (c_regs cpu) nzcv\<rparr>"

text \<open>\<^verbatim>\<open>access_or_panic\<close> around a bus read and a bus write: an access that fails after its
  validation is a contract violation.\<close>

definition read_or_panic ::
  "'m oemu_memops \<Rightarrow> 'm \<Rightarrow> u64 \<Rightarrow> oemu_mem_size \<Rightarrow> bool \<Rightarrow> (u64 \<times> 'm) option" where
  "read_or_panic mem m addr sz sx =
     (case mo_read mem m addr sz sx of (Inr v, m') \<Rightarrow> Some (v, m') | (Inl st, m') \<Rightarrow> None)"

definition write_or_panic ::
  "'m oemu_memops \<Rightarrow> 'm \<Rightarrow> u64 \<Rightarrow> oemu_mem_size \<Rightarrow> u64 \<Rightarrow> 'm option" where
  "write_or_panic mem m addr sz value =
     (case mo_write mem m addr sz value of (st, m') \<Rightarrow> do { OEMU_REQUIRE (st = OEMU_OK); Some m' })"

section \<open>Handlers\<close>

definition logical_flags :: "u32 \<Rightarrow> u64 \<Rightarrow> oemu_insn \<Rightarrow> oemu_exec_shift_result option \<Rightarrow> u32" where
  "logical_flags old_nzcv result insn shifted =
     (let nzcv = oemu_exec_internal_nz result (i_width insn);
          (carry_valid, carry) =
            (case shifted of
               Some s \<Rightarrow> (sh_carry_valid s, sh_carry s)
             | None \<Rightarrow> if i_operand_kind insn = OEMU_OPERAND_IMM
                       then (True, i_uimm insn = width_mask (reg_bits_of (i_width insn)))
                       else (False, False))
      in if carry_valid then nzcv OR (if carry then OEMU_NZCV_C else 0)
         else nzcv OR (old_nzcv AND OEMU_NZCV_C))"

text \<open>The second operand; the last two kinds leave the caller's zero in place (their error status is
  not looked at). The shifter's result is returned where there is one.\<close>

definition operand2 :: "oemu_cpu \<Rightarrow> oemu_insn \<Rightarrow> (u64 \<times> oemu_exec_shift_result option) option" where
  "operand2 cpu insn =
     (case i_operand_kind insn of
        OEMU_OPERAND_IMM \<Rightarrow> Some (i_uimm insn, None)
      | OEMU_OPERAND_REG \<Rightarrow> do { v \<leftarrow> read_g cpu (i_rm insn) False (i_width insn); Some (v, None) }
      | OEMU_OPERAND_REG_SHIFTED \<Rightarrow> do {
          v \<leftarrow> read_g cpu (i_rm insn) False (i_width insn);
          let s = oemu_exec_internal_shift_operand v (i_shift_type insn) (i_shift_amount insn) (i_width insn);
          Some (sh_value s, Some s) }
      | OEMU_OPERAND_REG_EXTENDED \<Rightarrow> do {
          v \<leftarrow> read_g cpu (i_rm insn) False OEMU_REG_W64;
          Some (oemu_exec_internal_extend_operand v (i_extend_type insn) (i_shift_amount insn)
                  (i_extend_is_lsl insn), None) }
      | OEMU_OPERAND_NONE \<Rightarrow> Some (0, None)
      | OEMU_OPERAND_MEM \<Rightarrow> Some (0, None))"

definition note_store :: "oemu_cpu \<Rightarrow> u64 \<Rightarrow> u64 \<Rightarrow> oemu_cpu" where
  "note_store cpu addr nbytes =
     (if \<not> c_monitor_valid cpu then cpu
      else let overlap = (if c_monitor_addr cpu \<le> addr
                          then addr - c_monitor_addr cpu < c_monitor_size cpu
                          else c_monitor_addr cpu - addr < nbytes)
           in if overlap then cpu\<lparr>c_monitor_valid := False\<rparr> else cpu)"

abbreviation (input) SYSREG_MASK :: u32 where "SYSREG_MASK \<equiv> 0x3FFF"
abbreviation (input) SYSREG_CURRENT_EL :: u32 where "SYSREG_CURRENT_EL \<equiv> 0x212"
abbreviation (input) SYSREG_SP_EL0 :: u32 where "SYSREG_SP_EL0 \<equiv> 0x208"
abbreviation (input) SYSREG_NZCV :: u32 where "SYSREG_NZCV \<equiv> 0x1A10"
abbreviation (input) SYSREG_TPIDRRO_EL0 :: u32 where "SYSREG_TPIDRRO_EL0 \<equiv> 0x1E83"
abbreviation (input) SYSREG_TPIDRUR_EL0 :: u32 where "SYSREG_TPIDRUR_EL0 \<equiv> 0x1E87"

text \<open>The system-register table is an option: \<^const>\<open>None\<close> is the null table of the user-mode path.\<close>

definition do_mrs ::
  "(u32 \<Rightarrow> oemu_status + u64) option \<Rightarrow> oemu_cpu \<Rightarrow> oemu_insn \<Rightarrow> (oemu_status \<times> oemu_cpu) option" where
  "do_mrs sr cpu insn =
     (let sel = i_sysreg insn AND SYSREG_MASK;
          value =
            (if sel = SYSREG_CURRENT_EL then Some 0
             else if sel = SYSREG_SP_EL0 then Some (oemu_regs_sp (c_regs cpu))
             else if sel = SYSREG_NZCV then Some (ucast (oemu_regs_nzcv (c_regs cpu)))
             else if sel = SYSREG_TPIDRUR_EL0 then Some (c_tpidrur_el0 cpu)
             else if sel = SYSREG_TPIDRRO_EL0 then Some 0
             else case sr of
                    None \<Rightarrow> None
                  | Some f \<Rightarrow> (case f sel of Inl st \<Rightarrow> None | Inr v \<Rightarrow> Some v))
      in case value of
           None \<Rightarrow> Some (OEMU_ERR_UNSUPPORTED, cpu)
         | Some v \<Rightarrow> do { cpu \<leftarrow> write_g cpu (i_rd insn) False OEMU_REG_W64 v; Some (OEMU_OK, cpu) })"

definition do_msr ::
  "('s \<Rightarrow> u32 \<Rightarrow> u64 \<Rightarrow> oemu_status \<times> 's) option \<Rightarrow> 's \<Rightarrow> oemu_cpu \<Rightarrow> oemu_insn \<Rightarrow>
   (oemu_status \<times> 's \<times> oemu_cpu) option" where
  "do_msr sr s cpu insn = do {
     let sel = i_sysreg insn AND SYSREG_MASK;
     value \<leftarrow> read_g cpu (i_rd insn) False OEMU_REG_W64;
     if sel = SYSREG_SP_EL0
     then Some (OEMU_OK, s, cpu\<lparr>c_regs := oemu_regs_set_sp (c_regs cpu) value\<rparr>)
     else if sel = SYSREG_NZCV then Some (OEMU_OK, s, set_nzcv cpu (ucast value))
     else if sel = SYSREG_TPIDRUR_EL0 then Some (OEMU_OK, s, cpu\<lparr>c_tpidrur_el0 := value\<rparr>)
     else case sr of
            None \<Rightarrow> Some (OEMU_ERR_UNSUPPORTED, s, cpu)
          | Some f \<Rightarrow> (case f s sel value of
                       (st, s') \<Rightarrow> Some (if st = OEMU_OK then OEMU_OK else OEMU_ERR_UNSUPPORTED, s', cpu))
   }"

definition do_svc ::
  "('e, 'm) oemu_env_ops option \<Rightarrow> oemu_cpu \<Rightarrow> 'e \<Rightarrow> 'm \<Rightarrow> (oemu_status \<times> oemu_cpu \<times> 'e \<times> 'm) option" where
  "do_svc env cpu e m =
     (case Option.bind env env_syscall of
        None \<Rightarrow> Some (OEMU_ERR_UNSUPPORTED, cpu, e, m)
      | Some syscall \<Rightarrow> do {
          a0 \<leftarrow> oemu_regs_read (c_regs cpu) 0 OEMU_REG_W64;
          a1 \<leftarrow> oemu_regs_read (c_regs cpu) 1 OEMU_REG_W64;
          a2 \<leftarrow> oemu_regs_read (c_regs cpu) 2 OEMU_REG_W64;
          a3 \<leftarrow> oemu_regs_read (c_regs cpu) 3 OEMU_REG_W64;
          a4 \<leftarrow> oemu_regs_read (c_regs cpu) 4 OEMU_REG_W64;
          a5 \<leftarrow> oemu_regs_read (c_regs cpu) 5 OEMU_REG_W64;
          nr \<leftarrow> oemu_regs_read (c_regs cpu) 8 OEMU_REG_W64;
          case syscall e m nr [a0, a1, a2, a3, a4, a5] of
            (result, e', m') \<Rightarrow> do {
              regs \<leftarrow> oemu_regs_write (c_regs cpu) 0 OEMU_REG_W64 result;
              Some (OEMU_OK, cpu\<lparr>c_regs := regs\<rparr>, e', m') } })"

text \<open>The address and the write-back value of a load or store.\<close>

definition resolve_mem_addr :: "oemu_cpu \<Rightarrow> oemu_insn \<Rightarrow> (u64 \<times> u64) option" where
  "resolve_mem_addr cpu insn = do {
     base \<leftarrow> read_g cpu (i_rn insn) True OEMU_REG_W64;
     offset \<leftarrow> (if i_extend_type insn \<noteq> OEMU_EXTEND_UXTB \<or> i_extend_is_lsl insn
                then do { v \<leftarrow> read_g cpu (i_rm insn) False OEMU_REG_W64;
                          Some (oemu_exec_internal_extend_operand v (i_extend_type insn)
                                  (i_shift_amount insn) (i_extend_is_lsl insn)) }
                else Some (i_imm insn));
     Some (if i_index_mode insn = OEMU_INDEX_POST then base else base + offset, base + offset)
   }"

definition write_back :: "oemu_cpu \<Rightarrow> oemu_insn \<Rightarrow> u64 \<Rightarrow> oemu_cpu option" where
  "write_back cpu insn writeback =
     (if i_index_mode insn \<noteq> OEMU_INDEX_NONE then write_g cpu (i_rn insn) True OEMU_REG_W64 writeback
      else Some cpu)"

definition pair_transfer :: "oemu_insn \<Rightarrow> u64" where
  "pair_transfer insn = push_bit (mem_size_val (i_mem_size insn)) 1"

type_synonym 'm outcome = "(oemu_status \<times> oemu_cpu \<times> 'm) option"

text \<open>The transfers of each handler, once its ranges have been validated, are named apart: the loads
  into registers, the stores with the note to the exclusive monitor.\<close>

definition access_pair ::
  "'m oemu_memops \<Rightarrow> oemu_cpu \<Rightarrow> 'm \<Rightarrow> oemu_insn \<Rightarrow> u64 \<Rightarrow> u64 \<Rightarrow> (oemu_cpu \<times> 'm) option" where
  "access_pair mem cpu m insn addr addr2 =
     (if i_op insn = OEMU_OP_STP
      then do { v1 \<leftarrow> read_g cpu (i_rd insn) False (i_width insn);
                v2 \<leftarrow> read_g cpu (i_rt2 insn) False (i_width insn);
                m \<leftarrow> write_or_panic mem m addr (i_mem_size insn) v1;
                m \<leftarrow> write_or_panic mem m addr2 (i_mem_size insn) v2;
                Some (note_store cpu addr (pair_transfer insn * 2), m) }
      else do { (v1, m) \<leftarrow> read_or_panic mem m addr (i_mem_size insn) (i_is_signed_load insn);
                (v2, m) \<leftarrow> read_or_panic mem m addr2 (i_mem_size insn) (i_is_signed_load insn);
                cpu \<leftarrow> write_g cpu (i_rd insn) False (i_width insn) v1;
                cpu \<leftarrow> write_g cpu (i_rt2 insn) False (i_width insn) v2;
                Some (cpu, m) })"

definition do_pair :: "'m oemu_memops \<Rightarrow> oemu_cpu \<Rightarrow> 'm \<Rightarrow> oemu_insn \<Rightarrow> 'm outcome" where
  "do_pair mem cpu m insn = do {
     (addr, writeback) \<leftarrow> resolve_mem_addr cpu insn;
     let transfer = pair_transfer insn;
     let addr2 = addr + transfer;
     let perms = (if i_op insn = OEMU_OP_STP then OEMU_PERM_WRITE else OEMU_PERM_READ);
     let (st, m) = mo_validate mem m addr transfer perms;
     let (st, m) = (if st = OEMU_OK then mo_validate mem m addr2 transfer perms else (st, m));
     if st \<noteq> OEMU_OK then Some (OEMU_ERR_FAULT, cpu, m)
     else do {
       (cpu, m) \<leftarrow> access_pair mem cpu m insn addr addr2;
       cpu \<leftarrow> write_back cpu insn writeback;
       Some (OEMU_OK, cpu, m)
     }
   }"

text \<open>Validating a list of byte ranges in order, stopping at the first refusal: the loops over the
  pieces of a vector transfer.\<close>

primrec validate_all :: "'m oemu_memops \<Rightarrow> 'm \<Rightarrow> u64 list \<Rightarrow> u64 \<Rightarrow> u32 \<Rightarrow> bool \<times> 'm" where
  "validate_all mem m [] bytes perm = (True, m)"
| "validate_all mem m (a # as) bytes perm =
     (case mo_validate mem m a bytes perm of
        (st, m') \<Rightarrow> if st \<noteq> OEMU_OK then (False, m') else validate_all mem m' as bytes perm)"

text \<open>One register of a vector transfer at address \<open>a\<close>: the low piece, and for a 128-bit register
  the high eight bytes.\<close>

definition store_vector_reg ::
  "'m oemu_memops \<Rightarrow> oemu_cpu \<Rightarrow> 'm \<Rightarrow> nat \<Rightarrow> u64 \<Rightarrow> oemu_mem_size \<Rightarrow> bool \<Rightarrow> 'm option" where
  "store_vector_reg mem cpu m reg a piece two = do {
     let (lo, hi) = c_v cpu ! reg;
     m \<leftarrow> write_or_panic mem m a piece lo;
     if two then write_or_panic mem m (a + 8) OEMU_MEM_DWORD hi else Some m
   }"

definition load_vector_reg ::
  "'m oemu_memops \<Rightarrow> oemu_cpu \<Rightarrow> 'm \<Rightarrow> nat \<Rightarrow> u64 \<Rightarrow> oemu_mem_size \<Rightarrow> bool \<Rightarrow> (oemu_cpu \<times> 'm) option" where
  "load_vector_reg mem cpu m reg a piece two = do {
     (lo, m) \<leftarrow> read_or_panic mem m a piece False;
     (hi, m) \<leftarrow> (if two then read_or_panic mem m (a + 8) OEMU_MEM_DWORD False else Some (0, m));
     Some (cpu\<lparr>c_v := (c_v cpu)[reg := (lo, hi)]\<rparr>, m)
   }"

definition access_pair_vector ::
  "'m oemu_memops \<Rightarrow> oemu_cpu \<Rightarrow> 'm \<Rightarrow> oemu_insn \<Rightarrow> u64 \<Rightarrow> u64 \<Rightarrow> oemu_mem_size \<Rightarrow> bool \<Rightarrow>
   (oemu_cpu \<times> 'm) option" where
  "access_pair_vector mem cpu m insn addr stride piece two =
     (if i_op insn = OEMU_OP_STP
      then do { m \<leftarrow> store_vector_reg mem cpu m (i_rd insn) addr piece two;
                m \<leftarrow> store_vector_reg mem cpu m (i_rt2 insn) (addr + stride) piece two;
                Some (note_store cpu addr (stride * 2), m) }
      else do { (cpu, m) \<leftarrow> load_vector_reg mem cpu m (i_rd insn) addr piece two;
                load_vector_reg mem cpu m (i_rt2 insn) (addr + stride) piece two })"

definition do_pair_vector :: "'m oemu_memops \<Rightarrow> oemu_cpu \<Rightarrow> 'm \<Rightarrow> oemu_insn \<Rightarrow> 'm outcome" where
  "do_pair_vector mem cpu m insn = do {
     (addr, writeback) \<leftarrow> resolve_mem_addr cpu insn;
     let two = (i_mem_size insn = OEMU_MEM_128);
     let piece = (if two then OEMU_MEM_DWORD else i_mem_size insn);
     let stride = push_bit (mem_size_val (i_mem_size insn)) 1;
     let bytes = (if stride < 8 then stride else 8);
     let is_store = (i_op insn = OEMU_OP_STP);
     let perm = (if is_store then OEMU_PERM_WRITE else OEMU_PERM_READ);
     let pieces = (if two then [addr, addr + 8, addr + stride, addr + stride + 8]
                   else [addr, addr + stride]);
     let (valid, m) = validate_all mem m pieces bytes perm;
     if \<not> valid then Some (OEMU_ERR_FAULT, cpu, m)
     else do {
       (cpu, m) \<leftarrow> access_pair_vector mem cpu m insn addr stride piece two;
       cpu \<leftarrow> write_back cpu insn writeback;
       Some (OEMU_OK, cpu, m)
     }
   }"

definition access_single_vector ::
  "'m oemu_memops \<Rightarrow> oemu_cpu \<Rightarrow> 'm \<Rightarrow> oemu_insn \<Rightarrow> u64 \<Rightarrow> (oemu_cpu \<times> 'm) option" where
  "access_single_vector mem cpu m insn addr =
     (if i_op insn = OEMU_OP_STR
      then do { m \<leftarrow> store_vector_reg mem cpu m (i_rd insn) addr OEMU_MEM_DWORD True; Some (cpu, m) }
      else load_vector_reg mem cpu m (i_rd insn) addr OEMU_MEM_DWORD True)"

definition do_single_vector :: "'m oemu_memops \<Rightarrow> oemu_cpu \<Rightarrow> 'm \<Rightarrow> oemu_insn \<Rightarrow> 'm outcome" where
  "do_single_vector mem cpu m insn = do {
     let is_store = (i_op insn = OEMU_OP_STR);
     let perm = (if is_store then OEMU_PERM_WRITE else OEMU_PERM_READ);
     (addr, writeback) \<leftarrow> resolve_mem_addr cpu insn;
     let (valid, m) = validate_all mem m [addr, addr + 8] 8 perm;
     if \<not> valid then Some (OEMU_ERR_FAULT, cpu, m)
     else do {
       (cpu, m) \<leftarrow> access_single_vector mem cpu m insn addr;
       cpu \<leftarrow> write_back cpu insn writeback;
       Some (OEMU_OK, cpu, m)
     }
   }"

definition access_single ::
  "'m oemu_memops \<Rightarrow> oemu_cpu \<Rightarrow> 'm \<Rightarrow> oemu_insn \<Rightarrow> u64 \<Rightarrow> bool \<Rightarrow> (oemu_cpu \<times> 'm) option" where
  "access_single mem cpu m insn addr is_store =
     (if is_store
      then do { value \<leftarrow> read_g cpu (i_rd insn) False (i_width insn);
                m \<leftarrow> write_or_panic mem m addr (i_mem_size insn) value;
                Some (note_store cpu addr (push_bit (mem_size_val (i_mem_size insn)) 1), m) }
      else do { (value, m) \<leftarrow> read_or_panic mem m addr (i_mem_size insn) (i_is_signed_load insn);
                cpu \<leftarrow> write_g cpu (i_rd insn) False (i_width insn) value;
                Some (cpu, m) })"

definition do_single_mem :: "'m oemu_memops \<Rightarrow> oemu_cpu \<Rightarrow> 'm \<Rightarrow> oemu_insn \<Rightarrow> 'm outcome" where
  "do_single_mem mem cpu m insn = do {
     let is_store = (i_op insn = OEMU_OP_STR \<or> i_op insn = OEMU_OP_STLR);
     let nbytes = push_bit (mem_size_val (i_mem_size insn)) 1;
     (addr, writeback, has_writeback) \<leftarrow>
       (if i_operand_kind insn = OEMU_OPERAND_IMM then Some (i_imm insn, 0, False)
        else do { (addr, writeback) \<leftarrow> resolve_mem_addr cpu insn;
                  Some (addr, writeback, i_index_mode insn \<noteq> OEMU_INDEX_NONE) });
     let (st, m) = mo_validate mem m addr nbytes (if is_store then OEMU_PERM_WRITE else OEMU_PERM_READ);
     if st \<noteq> OEMU_OK then Some (OEMU_ERR_FAULT, cpu, m)
     else do {
       (cpu, m) \<leftarrow> access_single mem cpu m insn addr is_store;
       cpu \<leftarrow> (if has_writeback then write_g cpu (i_rn insn) True OEMU_REG_W64 writeback else Some cpu);
       Some (OEMU_OK, cpu, m)
     }
   }"

definition do_exclusive :: "'m oemu_memops \<Rightarrow> oemu_cpu \<Rightarrow> 'm \<Rightarrow> oemu_insn \<Rightarrow> 'm outcome" where
  "do_exclusive mem cpu m insn = do {
     let nbytes = push_bit (mem_size_val (i_mem_size insn)) 1;
     let is_load = (i_op insn = OEMU_OP_LDXR);
     addr \<leftarrow> read_g cpu (i_rn insn) True OEMU_REG_W64;
     let (st, m) = mo_validate mem m addr nbytes (if is_load then OEMU_PERM_READ else OEMU_PERM_WRITE);
     if st \<noteq> OEMU_OK then Some (OEMU_ERR_FAULT, cpu, m)
     else if is_load
     then do {
       (value, m) \<leftarrow> read_or_panic mem m addr (i_mem_size insn) False;
       cpu \<leftarrow> write_g cpu (i_rd insn) False (i_width insn) value;
       Some (OEMU_OK, cpu\<lparr>c_monitor_addr := addr, c_monitor_size := nbytes, c_monitor_valid := True\<rparr>, m)
     }
     else do {
       let success = (c_monitor_valid cpu \<and> c_monitor_addr cpu = addr \<and> c_monitor_size cpu = nbytes);
       let cpu = cpu\<lparr>c_monitor_valid := False\<rparr>;
       m \<leftarrow> (if success
             then do { value \<leftarrow> read_g cpu (i_rd insn) False (i_width insn);
                       write_or_panic mem m addr (i_mem_size insn) value }
             else Some m);
       cpu \<leftarrow> write_g cpu (i_rm insn) False OEMU_REG_W32 (if success then 0 else 1);
       Some (OEMU_OK, cpu, m)
     }
   }"

text \<open>The value a bit-field instruction writes, from the source and old destination values.\<close>

definition bitfield_value :: "oemu_opcode \<Rightarrow> nat \<Rightarrow> nat \<Rightarrow> nat \<Rightarrow> u64 \<Rightarrow> u64 \<Rightarrow> u64" where
  "bitfield_value op bits lsb msb src old =
     (let wmask = width_mask bits;
          len = (if msb < lsb then bits - lsb + msb + 1 else msb - lsb + 1);
          rot = (if msb < lsb then push_bit (bits - lsb) src AND wmask
                 else if lsb = 0 then src
                 else (drop_bit lsb src OR push_bit (bits - lsb) src) AND wmask);
          m = (if len = bits then wmask else push_bit len 1 - 1);
          field = rot AND m
      in if op = OEMU_OP_BFM
         then let bottom = (if msb < lsb then bits - lsb else 0);
                  fbits = len - bottom;
                  dm = (if fbits = bits then wmask else push_bit bottom (push_bit fbits 1 - 1))
              in (old AND NOT dm) OR (field AND dm)
         else if op = OEMU_OP_SBFM \<and> drop_bit (len - 1) field AND 1 \<noteq> 0
         then field OR (wmask AND NOT m)
         else field)"

definition do_bitfield :: "oemu_cpu \<Rightarrow> oemu_insn \<Rightarrow> (oemu_status \<times> oemu_cpu) option" where
  "do_bitfield cpu insn =
     (let bits = reg_bits_of (i_width insn);
          lsb = i_shift_amount insn;
          msb = i_bit_pos insn
      in if lsb \<ge> bits \<or> msb \<ge> bits then Some (OEMU_ERR_DECODE, cpu)
         else do {
           src \<leftarrow> read_g cpu (i_rn insn) False (i_width insn);
           old \<leftarrow> (if i_op insn = OEMU_OP_BFM then read_g cpu (i_rd insn) False (i_width insn) else Some 0);
           cpu \<leftarrow> write_g cpu (i_rd insn) False (i_width insn) (bitfield_value (i_op insn) bits lsb msb src old);
           Some (OEMU_OK, cpu)
         })"

definition do_csel :: "oemu_cpu \<Rightarrow> oemu_insn \<Rightarrow> (oemu_status \<times> oemu_cpu) option" where
  "do_csel cpu insn = do {
     a \<leftarrow> read_g cpu (i_rn insn) False (i_width insn);
     b \<leftarrow> read_g cpu (i_rm insn) False (i_width insn);
     let out = (if oemu_regs_cond_holds (c_regs cpu) (i_cond insn) then a
                else if i_op insn = OEMU_OP_CSINC then b + 1
                else if i_op insn = OEMU_OP_CSINV then NOT b
                else if i_op insn = OEMU_OP_CSNEG then 0 - b
                else b);
     cpu \<leftarrow> write_g cpu (i_rd insn) False (i_width insn) out;
     Some (OEMU_OK, cpu)
   }"

definition do_ccmp :: "oemu_cpu \<Rightarrow> oemu_insn \<Rightarrow> (oemu_status \<times> oemu_cpu) option" where
  "do_ccmp cpu insn =
     (if \<not> oemu_regs_cond_holds (c_regs cpu) (i_cond insn)
      then Some (OEMU_OK, set_nzcv cpu (ucast (push_bit 28 (i_uimm insn))))
      else do {
        n \<leftarrow> read_g cpu (i_rn insn) False (i_width insn);
        m \<leftarrow> (if i_operand_kind insn = OEMU_OPERAND_IMM then Some (i_imm insn)
              else read_g cpu (i_rm insn) False (i_width insn));
        let res = (if i_op insn = OEMU_OP_CCMP
                   then oemu_regs_add_with_carry n (NOT m) True (i_width insn)
                   else oemu_regs_add_with_carry n m False (i_width insn));
        Some (OEMU_OK, set_nzcv cpu (alu_nzcv res))
      })"

section \<open>The cases of the switch\<close>

definition exec_addsub :: "oemu_cpu \<Rightarrow> oemu_insn \<Rightarrow> oemu_cpu option" where
  "exec_addsub cpu insn = do {
     (m, s) \<leftarrow> operand2 cpu insn;
     n \<leftarrow> read_g cpu (i_rn insn) (i_rn_is_sp_form insn) (i_width insn);
     let sub = (i_op insn = OEMU_OP_SUB \<or> i_op insn = OEMU_OP_SUBS);
     let r = oemu_regs_add_with_carry n (if sub then NOT m else m) sub (i_width insn);
     cpu \<leftarrow> write_g cpu (i_rd insn) (i_rd_is_sp_form insn) (i_width insn) (alu_value r);
     Some (if i_sets_flags insn then set_nzcv cpu (alu_nzcv r) else cpu)
   }"

text \<open>ADC, ADCS, SBC and SBCS: the carry-in is the old C flag in both directions.\<close>

definition exec_addsub_carry :: "oemu_cpu \<Rightarrow> oemu_insn \<Rightarrow> oemu_cpu option" where
  "exec_addsub_carry cpu insn = do {
     m \<leftarrow> read_g cpu (i_rm insn) False (i_width insn);
     n \<leftarrow> read_g cpu (i_rn insn) False (i_width insn);
     let c = (oemu_regs_nzcv (c_regs cpu) AND OEMU_NZCV_C \<noteq> 0);
     let sub = (i_op insn = OEMU_OP_SBC \<or> i_op insn = OEMU_OP_SBCS);
     let r = oemu_regs_add_with_carry n (if sub then NOT m else m) c (i_width insn);
     cpu \<leftarrow> write_g cpu (i_rd insn) False (i_width insn) (alu_value r);
     Some (if i_op insn = OEMU_OP_ADCS \<or> i_op insn = OEMU_OP_SBCS
           then set_nzcv cpu (alu_nzcv r) else cpu)
   }"

definition logical_result :: "oemu_opcode \<Rightarrow> u64 \<Rightarrow> u64 \<Rightarrow> u64" where
  "logical_result op n m0 =
     (let m = (if op = OEMU_OP_BIC \<or> op = OEMU_OP_BICS \<or> op = OEMU_OP_ORN \<or> op = OEMU_OP_EON
               then NOT m0 else m0)
      in if op = OEMU_OP_AND \<or> op = OEMU_OP_ANDS \<or> op = OEMU_OP_BIC \<or> op = OEMU_OP_BICS then n AND m
         else if op = OEMU_OP_ORR \<or> op = OEMU_OP_ORN then n OR m
         else n XOR m)"

definition exec_logical :: "oemu_cpu \<Rightarrow> oemu_insn \<Rightarrow> oemu_cpu option" where
  "exec_logical cpu insn = do {
     (m, shifted) \<leftarrow> operand2 cpu insn;
     n \<leftarrow> read_g cpu (i_rn insn) False (i_width insn);
     let result = logical_result (i_op insn) n m;
     cpu \<leftarrow> write_g cpu (i_rd insn) False (i_width insn) result;
     Some (if i_op insn = OEMU_OP_ANDS \<or> i_op insn = OEMU_OP_BICS
           then set_nzcv cpu (logical_flags (oemu_regs_nzcv (c_regs cpu)) result insn shifted)
           else cpu)
   }"

definition exec_move_wide :: "oemu_cpu \<Rightarrow> oemu_insn \<Rightarrow> oemu_cpu option" where
  "exec_move_wide cpu insn =
     (if i_op insn = OEMU_OP_MOVZ then write_g cpu (i_rd insn) False (i_width insn) (i_uimm insn)
      else if i_op insn = OEMU_OP_MOVN
      then write_g cpu (i_rd insn) False (i_width insn) (NOT (i_uimm insn))
      else do {
        old \<leftarrow> read_g cpu (i_rd insn) False (i_width insn);
        let m = push_bit (i_shift_amount insn) 0xFFFF;
        write_g cpu (i_rd insn) False (i_width insn) ((old AND NOT m) OR (i_uimm insn AND m))
      })"

definition exec_extr :: "oemu_cpu \<Rightarrow> oemu_insn \<Rightarrow> oemu_cpu option" where
  "exec_extr cpu insn = do {
     lo \<leftarrow> read_g cpu (i_rm insn) False (i_width insn);
     hi \<leftarrow> read_g cpu (i_rn insn) False (i_width insn);
     let bits = reg_bits_of (i_width insn);
     let result = (if i_shift_amount insn = 0 then lo
                   else drop_bit (i_shift_amount insn) lo
                        OR (if i_shift_amount insn = bits then hi
                            else push_bit (bits - i_shift_amount insn) hi));
     write_g cpu (i_rd insn) False (i_width insn) result
   }"

definition exec_shift_variable :: "oemu_cpu \<Rightarrow> oemu_insn \<Rightarrow> oemu_cpu option" where
  "exec_shift_variable cpu insn = do {
     src \<leftarrow> read_g cpu (i_rn insn) False (i_width insn);
     amt_raw \<leftarrow> read_g cpu (i_rm insn) False (i_width insn);
     let bits = reg_bits_of (i_width insn);
     let amt = unat (amt_raw AND (of_nat bits - 1));
     let type = (if i_op insn = OEMU_OP_LSLV then OEMU_SHIFT_LSL
                 else if i_op insn = OEMU_OP_LSRV then OEMU_SHIFT_LSR
                 else if i_op insn = OEMU_OP_ASRV then OEMU_SHIFT_ASR
                 else OEMU_SHIFT_ROR);
     let value = (if amt = 0 then src AND width_mask bits
                  else sh_value (oemu_exec_internal_shift_operand src type amt (i_width insn)));
     write_g cpu (i_rd insn) False (i_width insn) value
   }"

definition exec_crc :: "oemu_cpu \<Rightarrow> oemu_insn \<Rightarrow> oemu_cpu option" where
  "exec_crc cpu insn = do {
     seed \<leftarrow> read_g cpu (i_rn insn) False OEMU_REG_W32;
     data \<leftarrow> read_g cpu (i_rm insn) False OEMU_REG_W64;
     write_g cpu (i_rd insn) False OEMU_REG_W32
       (ucast (oemu_exec_internal_crc32 (ucast seed) data (unat (i_uimm insn))
                 (i_op insn = OEMU_OP_CRC32C)))
   }"

text \<open>RBIT, CLZ, CLS, REV, REV16 and REV32.\<close>

definition exec_one_source :: "oemu_cpu \<Rightarrow> oemu_insn \<Rightarrow> oemu_cpu option" where
  "exec_one_source cpu insn = do {
     v \<leftarrow> read_g cpu (i_rn insn) False (i_width insn);
     write_g cpu (i_rd insn) False (i_width insn)
       (if i_op insn = OEMU_OP_RBIT then oemu_exec_internal_rbit v (i_width insn)
        else if i_op insn = OEMU_OP_CLZ then oemu_exec_internal_clz v (i_width insn)
        else if i_op insn = OEMU_OP_CLS then oemu_exec_internal_cls v (i_width insn)
        else if i_op insn = OEMU_OP_REV then oemu_exec_internal_rev v (i_width insn)
        else if i_op insn = OEMU_OP_REV16 then oemu_exec_internal_rev16 v (i_width insn)
        else oemu_exec_internal_rev32 v)
   }"

text \<open>C's signed division truncates toward zero.\<close>

definition quotient :: "bool \<Rightarrow> oemu_reg_width \<Rightarrow> u64 \<Rightarrow> u64 \<Rightarrow> u64" where
  "quotient is_udiv width n d =
     (if d = 0 then 0
      else if is_udiv
      then (if width = OEMU_REG_W32 then ucast ((ucast n :: u32) div ucast d) else n div d)
      else if width = OEMU_REG_W32
      then let nn = sint (ucast n :: u32); dd = sint (ucast d :: u32)
           in ucast (word_of_int (if nn = - (2 ^ 31) \<and> dd = - 1 then - (2 ^ 31)
                                  else sgn nn * sgn dd * (\<bar>nn\<bar> div \<bar>dd\<bar>)) :: u32)
      else let nn = sint n; dd = sint d
           in word_of_int (if nn = - (2 ^ 63) \<and> dd = - 1 then - (2 ^ 63)
                           else sgn nn * sgn dd * (\<bar>nn\<bar> div \<bar>dd\<bar>)))"

definition exec_divide :: "oemu_cpu \<Rightarrow> oemu_insn \<Rightarrow> oemu_cpu option" where
  "exec_divide cpu insn = do {
     d \<leftarrow> read_g cpu (i_rm insn) False (i_width insn);
     n \<leftarrow> read_g cpu (i_rn insn) False (i_width insn);
     write_g cpu (i_rd insn) False (i_width insn) (quotient (i_op insn = OEMU_OP_UDIV) (i_width insn) n d)
   }"

definition exec_multiply_add :: "oemu_cpu \<Rightarrow> oemu_insn \<Rightarrow> oemu_cpu option" where
  "exec_multiply_add cpu insn = do {
     n \<leftarrow> read_g cpu (i_rn insn) False (i_width insn);
     m \<leftarrow> read_g cpu (i_rm insn) False (i_width insn);
     acc \<leftarrow> read_g cpu (i_ra insn) False (i_width insn);
     write_g cpu (i_rd insn) False (i_width insn)
       (if i_op insn = OEMU_OP_MADD then acc + n * m else acc - n * m)
   }"

definition exec_multiply_long :: "oemu_cpu \<Rightarrow> oemu_insn \<Rightarrow> oemu_cpu option" where
  "exec_multiply_long cpu insn = do {
     let sgnd = (i_op insn = OEMU_OP_SMADDL \<or> i_op insn = OEMU_OP_SMSUBL);
     let add = (i_op insn = OEMU_OP_SMADDL \<or> i_op insn = OEMU_OP_UMADDL);
     n \<leftarrow> read_g cpu (i_rn insn) False OEMU_REG_W32;
     m \<leftarrow> read_g cpu (i_rm insn) False OEMU_REG_W32;
     a \<leftarrow> read_g cpu (i_ra insn) False OEMU_REG_W64;
     let prod = (if sgnd then scast (ucast n :: u32) * scast (ucast m :: u32)
                 else (n AND 0xFFFFFFFF) * (m AND 0xFFFFFFFF));
     write_g cpu (i_rd insn) False OEMU_REG_W64 (if add then a + prod else a - prod)
   }"

definition exec_multiply_high :: "oemu_cpu \<Rightarrow> oemu_insn \<Rightarrow> oemu_cpu option" where
  "exec_multiply_high cpu insn = do {
     n \<leftarrow> read_g cpu (i_rn insn) False OEMU_REG_W64;
     m \<leftarrow> read_g cpu (i_rm insn) False OEMU_REG_W64;
     write_g cpu (i_rd insn) False OEMU_REG_W64
       (if i_op insn = OEMU_OP_SMULH then oemu_exec_internal_smulh n m
        else oemu_exec_internal_umulh n m)
   }"

text \<open>The branches: whether to take it, its target and whether it links.\<close>

record branch =
  br_take :: bool
  br_target :: u64
  br_link :: bool

abbreviation (input) no_branch :: branch where
  "no_branch \<equiv> \<lparr>br_take = False, br_target = 0, br_link = False\<rparr>"

definition exec_branch :: "oemu_cpu \<Rightarrow> oemu_insn \<Rightarrow> branch option" where
  "exec_branch cpu insn =
     (if i_op insn = OEMU_OP_B \<or> i_op insn = OEMU_OP_BL
      then Some \<lparr>br_take = True, br_target = i_imm insn, br_link = (i_op insn = OEMU_OP_BL)\<rparr>
      else if i_op insn = OEMU_OP_B_COND
      then Some \<lparr>br_take = oemu_regs_cond_holds (c_regs cpu) (i_cond insn), br_target = i_imm insn,
                 br_link = False\<rparr>
      else if i_op insn = OEMU_OP_BR \<or> i_op insn = OEMU_OP_BLR \<or> i_op insn = OEMU_OP_RET
      then do { t \<leftarrow> read_g cpu (i_rn insn) False OEMU_REG_W64;
                Some \<lparr>br_take = True, br_target = t, br_link = (i_op insn = OEMU_OP_BLR)\<rparr> }
      else if i_op insn = OEMU_OP_CBZ \<or> i_op insn = OEMU_OP_CBNZ
      then do { v \<leftarrow> read_g cpu (i_rd insn) False (i_width insn);
                Some \<lparr>br_take = ((v = 0) = (i_op insn = OEMU_OP_CBZ)), br_target = i_imm insn,
                      br_link = False\<rparr> }
      else do { v \<leftarrow> read_g cpu (i_rd insn) False (i_width insn);
                let b = (drop_bit (i_bit_pos insn) v AND 1 \<noteq> 0);
                Some \<lparr>br_take = (b = (i_op insn = OEMU_OP_TBNZ)), br_target = i_imm insn,
                      br_link = False\<rparr> })"

section \<open>The switch\<close>

definition branch_ops :: "oemu_opcode set" where
  "branch_ops = {OEMU_OP_B, OEMU_OP_BL, OEMU_OP_B_COND, OEMU_OP_BR, OEMU_OP_BLR, OEMU_OP_RET,
     OEMU_OP_CBZ, OEMU_OP_CBNZ, OEMU_OP_TBZ, OEMU_OP_TBNZ}"

text \<open>The cases that compute on registers only and always complete; \<^const>\<open>None\<close> as the outer
  option is "not such a case".\<close>

definition register_case :: "oemu_cpu \<Rightarrow> oemu_insn \<Rightarrow> oemu_cpu option option" where
  "register_case cpu insn =
     (let op = i_op insn
      in if op = OEMU_OP_ADD \<or> op = OEMU_OP_SUB \<or> op = OEMU_OP_ADDS \<or> op = OEMU_OP_SUBS
         then Some (exec_addsub cpu insn)
         else if op = OEMU_OP_ADC \<or> op = OEMU_OP_ADCS \<or> op = OEMU_OP_SBC \<or> op = OEMU_OP_SBCS
         then Some (exec_addsub_carry cpu insn)
         else if op = OEMU_OP_AND \<or> op = OEMU_OP_ANDS \<or> op = OEMU_OP_ORR \<or> op = OEMU_OP_EOR \<or>
                 op = OEMU_OP_BIC \<or> op = OEMU_OP_BICS \<or> op = OEMU_OP_ORN \<or> op = OEMU_OP_EON
         then Some (exec_logical cpu insn)
         else if op = OEMU_OP_MOVZ \<or> op = OEMU_OP_MOVN \<or> op = OEMU_OP_MOVK
         then Some (exec_move_wide cpu insn)
         else if op = OEMU_OP_ADR \<or> op = OEMU_OP_ADRP
         then Some (write_g cpu (i_rd insn) False (i_width insn) (i_imm insn))
         else if op = OEMU_OP_EXTR then Some (exec_extr cpu insn)
         else if op = OEMU_OP_LSLV \<or> op = OEMU_OP_LSRV \<or> op = OEMU_OP_ASRV \<or> op = OEMU_OP_RORV
         then Some (exec_shift_variable cpu insn)
         else if op = OEMU_OP_CRC32 \<or> op = OEMU_OP_CRC32C then Some (exec_crc cpu insn)
         else if op = OEMU_OP_RBIT \<or> op = OEMU_OP_CLZ \<or> op = OEMU_OP_CLS \<or> op = OEMU_OP_REV \<or>
                 op = OEMU_OP_REV16 \<or> op = OEMU_OP_REV32
         then Some (exec_one_source cpu insn)
         else if op = OEMU_OP_UDIV \<or> op = OEMU_OP_SDIV then Some (exec_divide cpu insn)
         else if op = OEMU_OP_MADD \<or> op = OEMU_OP_MSUB then Some (exec_multiply_add cpu insn)
         else if op = OEMU_OP_SMADDL \<or> op = OEMU_OP_SMSUBL \<or> op = OEMU_OP_UMADDL \<or> op = OEMU_OP_UMSUBL
         then Some (exec_multiply_long cpu insn)
         else if op = OEMU_OP_SMULH \<or> op = OEMU_OP_UMULH then Some (exec_multiply_high cpu insn)
         else if op = OEMU_OP_VEC_DUP
         then Some (do { v \<leftarrow> read_g cpu (i_rm insn) False OEMU_REG_W64;
                         Some (cpu\<lparr>c_v := (c_v cpu)[i_rd insn := (v, 0)]\<rparr>) })
         else if op = OEMU_OP_NOP \<or> op = OEMU_OP_HINT \<or> op = OEMU_OP_WFI \<or> op = OEMU_OP_WFE \<or>
                 op = OEMU_OP_BARRIER
         then Some (Some cpu)
         else None)"

text \<open>The register cases that return a status: bit fields, conditional select and compare, and the
  system registers with no table behind them.\<close>

definition status_case :: "oemu_cpu \<Rightarrow> oemu_insn \<Rightarrow> (oemu_status \<times> oemu_cpu) option option" where
  "status_case cpu insn =
     (let op = i_op insn
      in if op = OEMU_OP_SBFM \<or> op = OEMU_OP_BFM \<or> op = OEMU_OP_UBFM then Some (do_bitfield cpu insn)
         else if op = OEMU_OP_CSEL \<or> op = OEMU_OP_CSINC \<or> op = OEMU_OP_CSINV \<or> op = OEMU_OP_CSNEG
         then Some (do_csel cpu insn)
         else if op = OEMU_OP_CCMP \<or> op = OEMU_OP_CCMN then Some (do_ccmp cpu insn)
         else if op = OEMU_OP_HVC \<or> op = OEMU_OP_SMC \<or> op = OEMU_OP_ERET \<or> op = OEMU_OP_SYS
         then Some (Some (OEMU_ERR_UNSUPPORTED, cpu))
         else if op = OEMU_OP_BRK \<or> op = OEMU_OP_HLT then Some (Some (OEMU_ERR_FAULT, cpu))
         else if op = OEMU_OP_MRS then Some (do_mrs None cpu insn)
         else if op = OEMU_OP_MSR \<or> op = OEMU_OP_MSR_IMM
         then Some (do { (st, _, cpu) \<leftarrow> do_msr None () cpu insn; Some (st, cpu) })
         else None)"

definition memory_case ::
  "'m oemu_memops \<Rightarrow> oemu_cpu \<Rightarrow> 'm \<Rightarrow> oemu_insn \<Rightarrow> 'm outcome option" where
  "memory_case mem cpu m insn =
     (let op = i_op insn
      in if op = OEMU_OP_LDR \<or> op = OEMU_OP_STR
         then Some (if i_is_vector insn then do_single_vector mem cpu m insn
                    else do_single_mem mem cpu m insn)
         else if op = OEMU_OP_LDRS \<or> op = OEMU_OP_LDAR \<or> op = OEMU_OP_STLR
         then Some (do_single_mem mem cpu m insn)
         else if op = OEMU_OP_LDP \<or> op = OEMU_OP_STP
         then Some (if i_is_vector insn then do_pair_vector mem cpu m insn else do_pair mem cpu m insn)
         else if op = OEMU_OP_LDPSW then Some (do_pair mem cpu m insn)
         else if op = OEMU_OP_LDXR \<or> op = OEMU_OP_STXR then Some (do_exclusive mem cpu m insn)
         else None)"

text \<open>After the switch: a status other than OK is returned as it is; a taken branch links and sets
  the PC, anything else advances it.\<close>

definition commit_pc :: "oemu_cpu \<Rightarrow> branch \<Rightarrow> oemu_cpu option" where
  "commit_pc cpu br =
     (if br_take br
      then do {
        regs \<leftarrow> (if br_link br
                 then oemu_regs_write (c_regs cpu) 30 OEMU_REG_W64 (r_pc (c_regs cpu) + OEMU_INSN_SIZE)
                 else Some (c_regs cpu));
        Some (cpu\<lparr>c_regs := oemu_regs_set_pc regs (br_target br)\<rparr>)
      }
      else Some (cpu\<lparr>c_regs := oemu_regs_advance_pc (c_regs cpu)\<rparr>))"

definition oemu_exec_internal_dispatch_bus ::
  "'m oemu_memops \<Rightarrow> ('e, 'm) oemu_env_ops option \<Rightarrow> oemu_cpu \<Rightarrow> 'm \<Rightarrow> 'e \<Rightarrow> oemu_insn \<Rightarrow>
   (oemu_status \<times> oemu_cpu \<times> 'm \<times> 'e) option" where
  "oemu_exec_internal_dispatch_bus mem env cpu m e insn =
     (if i_op insn = OEMU_OP_UNKNOWN then Some (OEMU_ERR_INVALID_ARG, cpu, m, e)
      else do {
        (st, br, cpu, m, e) \<leftarrow>
          (case register_case cpu insn of
             Some r \<Rightarrow> do { cpu \<leftarrow> r; Some (OEMU_OK, no_branch, cpu, m, e) }
           | None \<Rightarrow>
          (case status_case cpu insn of
             Some r \<Rightarrow> do { (st, cpu) \<leftarrow> r; Some (st, no_branch, cpu, m, e) }
           | None \<Rightarrow>
          (case memory_case mem cpu m insn of
             Some r \<Rightarrow> do { (st, cpu, m) \<leftarrow> r; Some (st, no_branch, cpu, m, e) }
           | None \<Rightarrow>
             if i_op insn \<in> branch_ops
             then do { br \<leftarrow> exec_branch cpu insn; Some (OEMU_OK, br, cpu, m, e) }
             else if i_op insn = OEMU_OP_SVC
             then do { (st, cpu, e, m) \<leftarrow> do_svc env cpu e m; Some (st, no_branch, cpu, m, e) }
             else Some (OEMU_ERR_UNSUPPORTED, no_branch, cpu, m, e))));
        if st \<noteq> OEMU_OK then Some (st, cpu, m, e)
        else do { cpu \<leftarrow> commit_pc cpu br; Some (OEMU_OK, cpu, m, e) }
      })"

section \<open>Step and run\<close>

text \<open>The decoded instruction is returned once the fetch has succeeded.\<close>

definition oemu_exec_step_bus ::
  "'m oemu_memops \<Rightarrow> ('e, 'm) oemu_env_ops option \<Rightarrow> oemu_cpu \<Rightarrow> 'm \<Rightarrow> 'e \<Rightarrow>
   (oemu_status \<times> oemu_insn option \<times> oemu_cpu \<times> 'm \<times> 'e) option" where
  "oemu_exec_step_bus mem env cpu m e =
     (case mo_fetch32 mem m (oemu_regs_pc (c_regs cpu)) of
        (Inl fetch, m) \<Rightarrow> Some (fetch, None, cpu, m, e)
      | (Inr word, m) \<Rightarrow>
          (let (dec, insn) = oemu_decode word (oemu_regs_pc (c_regs cpu))
           in if dec \<noteq> OEMU_OK then Some (dec, Some insn, cpu, m, e)
              else do { (st, cpu, m, e) \<leftarrow> oemu_exec_internal_dispatch_bus mem env cpu m e insn;
                        Some (st, Some insn, cpu, m, e) }))"

definition envops_halted :: "('e, 'm) oemu_env_ops option \<Rightarrow> 'e \<Rightarrow> bool" where
  "envops_halted env e = (case Option.bind env env_halted of None \<Rightarrow> False | Some halted \<Rightarrow> halted e)"

text \<open>The run loop: the first argument counts the instructions the budget still allows.\<close>

primrec run_loop ::
  "nat \<Rightarrow> 'm oemu_memops \<Rightarrow> ('e, 'm) oemu_env_ops option \<Rightarrow> nat \<Rightarrow> oemu_cpu \<Rightarrow> 'm \<Rightarrow> 'e \<Rightarrow>
   (oemu_status \<times> nat \<times> oemu_cpu \<times> 'm \<times> 'e) option" where
  "run_loop 0 mem env completed cpu m e =
     Some (if envops_halted env e then OEMU_OK else OEMU_ERR_TIMEOUT, completed, cpu, m, e)"
| "run_loop (Suc budget) mem env completed cpu m e = do {
     (st, _, cpu, m, e) \<leftarrow> oemu_exec_step_bus mem env cpu m e;
     if st \<noteq> OEMU_OK then Some (st, completed, cpu, m, e)
     else if envops_halted env e then Some (OEMU_OK, completed + 1, cpu, m, e)
     else run_loop budget mem env (completed + 1) cpu m e
   }"

definition oemu_exec_run_bus ::
  "'m oemu_memops \<Rightarrow> ('e, 'm) oemu_env_ops option \<Rightarrow> u64 \<Rightarrow> oemu_cpu \<Rightarrow> 'm \<Rightarrow> 'e \<Rightarrow>
   (oemu_status \<times> nat \<times> oemu_cpu \<times> 'm \<times> 'e) option" where
  "oemu_exec_run_bus mem env max_insns cpu m e = run_loop (unat max_insns) mem env 0 cpu m e"

end
