(* ===== verification/Oemu_Exec_Safe.thy ===== *)
theory Oemu_Exec_Safe
  imports Oemu_Exec Oemu_Decode_Wf
begin

text \<open>
  The interpreter is safe on any bus that keeps the contract: no decoded instruction trips a
  contract check, every handler keeps the CPU invariant, and an instruction that does not complete
  leaves the CPU and the contents of memory as they were. The lemmas are proved once for the bus
  locale.
\<close>

section \<open>The CPU invariant and the register accessors\<close>

definition cpu_inv :: "oemu_cpu \<Rightarrow> bool" where
  "cpu_inv cpu \<longleftrightarrow> regs_inv (c_regs cpu) \<and> length (c_v cpu) = 32"

lemma cpu_inv_init [simp]: "cpu_inv (oemu_cpu_init pc sp)"
  by (simp add: cpu_inv_def oemu_cpu_init_def)

text \<open>The accessors as total functions on register numbers up to 31.\<close>

definition g_val :: "oemu_cpu \<Rightarrow> nat \<Rightarrow> bool \<Rightarrow> oemu_reg_width \<Rightarrow> u64" where
  "g_val cpu n sp w =
     (if n = 31 then (if sp then oemu_regs_internal_truncate (r_sp (c_regs cpu)) w else 0)
      else oemu_regs_internal_truncate (r_x (c_regs cpu) ! n) w)"

definition g_set :: "oemu_cpu \<Rightarrow> nat \<Rightarrow> bool \<Rightarrow> oemu_reg_width \<Rightarrow> u64 \<Rightarrow> oemu_cpu" where
  "g_set cpu n sp w v = cpu\<lparr>c_regs :=
     (if n = 31 then (if sp then (c_regs cpu)\<lparr>r_sp := oemu_regs_internal_truncate v w\<rparr> else c_regs cpu)
      else (c_regs cpu)\<lparr>r_x := (r_x (c_regs cpu))[n := oemu_regs_internal_truncate v w]\<rparr>)\<rparr>"

lemma read_g_eq: "n \<le> 31 \<Longrightarrow> read_g cpu n sp w = Some (g_val cpu n sp w)"
  by (simp add: read_g_def g_val_def oemu_regs_read_def oemu_regs_read_sp_form_def Let_def)

lemma write_g_eq: "n \<le> 31 \<Longrightarrow> write_g cpu n sp w v = Some (g_set cpu n sp w v)"
  by (simp add: write_g_def g_set_def oemu_regs_write_def oemu_regs_write_sp_form_def Let_def)

lemma regs_read_eq: "n \<le> 31 \<Longrightarrow> oemu_regs_read (c_regs cpu) n w = Some (g_val cpu n False w)"
  using read_g_eq [of n cpu False w] by (simp add: read_g_def)

lemma regs_write_eq:
  "n \<le> 31 \<Longrightarrow> oemu_regs_write (c_regs cpu) n w v = Some (c_regs (g_set cpu n False w v))"
  by (simp add: g_set_def oemu_regs_write_def)

lemma cpu_inv_g_set [simp]: "cpu_inv cpu \<Longrightarrow> cpu_inv (g_set cpu n sp w v)"
  by (simp add: cpu_inv_def g_set_def regs_inv_def)

lemma cpu_inv_updates [simp]:
  "cpu_inv cpu \<Longrightarrow> cpu_inv (set_nzcv cpu f)"
  "cpu_inv (cpu\<lparr>c_monitor_valid := b\<rparr>) = cpu_inv cpu"
  "cpu_inv (cpu\<lparr>c_monitor_addr := a\<rparr>) = cpu_inv cpu"
  "cpu_inv (cpu\<lparr>c_monitor_size := a\<rparr>) = cpu_inv cpu"
  "cpu_inv (cpu\<lparr>c_tpidrur_el0 := a\<rparr>) = cpu_inv cpu"
  "cpu_inv (cpu\<lparr>c_v := (c_v cpu)[i := x]\<rparr>) = cpu_inv cpu"
  "cpu_inv cpu \<Longrightarrow> cpu_inv (cpu\<lparr>c_regs := oemu_regs_set_sp (c_regs cpu) a\<rparr>)"
  "cpu_inv cpu \<Longrightarrow> cpu_inv (note_store cpu a n)"
  by (simp_all add: cpu_inv_def set_nzcv_def note_store_def Let_def)

lemma g_set_fields [simp]:
  "c_v (g_set cpu n sp w v) = c_v cpu" "c_monitor_addr (g_set cpu n sp w v) = c_monitor_addr cpu"
  "c_monitor_size (g_set cpu n sp w v) = c_monitor_size cpu"
  "c_monitor_valid (g_set cpu n sp w v) = c_monitor_valid cpu"
  "r_pc (c_regs (g_set cpu n sp w v)) = r_pc (c_regs cpu)"
  by (simp_all add: g_set_def)

lemma note_store_regs [simp]:
  "c_regs (note_store cpu a n) = c_regs cpu" "g_val (note_store cpu a n) = g_val cpu"
  by (auto simp: note_store_def Let_def g_val_def fun_eq_iff)

lemmas reg_eqs = read_g_eq write_g_eq regs_read_eq regs_write_eq

section \<open>Cases that only touch registers\<close>

lemma operand2_defined:
  "i_rm i \<le> 31 \<Longrightarrow> \<exists>v s. operand2 cpu i = Some (v, s)"
  by (cases "i_operand_kind i") (simp_all add: operand2_def read_g_eq Let_def)

lemma register_case_safe:
  assumes wf: "insn_wf i" and cpu: "cpu_inv cpu" and r: "register_case cpu i = Some r"
  shows "\<exists>cpu'. r = Some cpu' \<and> cpu_inv cpu'"
proof -
  note b = insn_wfD(2-5) [OF wf]
  obtain v s where o2: "operand2 cpu i = Some (v, s)" using operand2_defined [OF b(3)] by blast
  show ?thesis
    using r b cpu o2
    by (simp add: register_case_def Let_def exec_addsub_def exec_addsub_carry_def exec_logical_def
        exec_move_wide_def exec_extr_def exec_shift_variable_def exec_crc_def exec_one_source_def
        exec_divide_def exec_multiply_add_def exec_multiply_long_def exec_multiply_high_def
        reg_eqs split: if_split_asm) auto
qed

text \<open>The register cases that return a status return either OK or the CPU they were given.\<close>

definition status_ok :: "oemu_cpu \<Rightarrow> (oemu_status \<times> oemu_cpu) option \<Rightarrow> bool" where
  "status_ok cpu r \<longleftrightarrow> (\<exists>st cpu'. r = Some (st, cpu') \<and> cpu_inv cpu' \<and> (st \<noteq> OEMU_OK \<longrightarrow> cpu' = cpu))"

lemma status_okI [intro]:
  "cpu_inv cpu' \<Longrightarrow> status_ok cpu (Some (OEMU_OK, cpu'))" "cpu_inv cpu \<Longrightarrow> status_ok cpu (Some (st, cpu))"
  by (simp_all add: status_ok_def)

lemma status_handlers_ok:
  assumes wf: "insn_wf i" and cpu: "cpu_inv cpu"
  shows "status_ok cpu (do_bitfield cpu i)" "status_ok cpu (do_csel cpu i)"
    "status_ok cpu (do_ccmp cpu i)" "status_ok cpu (do_mrs None cpu i)"
    "status_ok cpu (do { (st, _, cpu) \<leftarrow> do_msr None () cpu i; Some (st, cpu) })"
  using insn_wfD(2-5) [OF wf] cpu
  by (simp_all add: do_bitfield_def do_csel_def do_ccmp_def do_mrs_def do_msr_def reg_eqs Let_def
      status_okI)

lemma status_case_safe:
  assumes wf: "insn_wf i" and cpu: "cpu_inv cpu" and r: "status_case cpu i = Some r"
  shows "status_ok cpu r"
  using r status_handlers_ok [OF wf cpu] status_okI(2) [OF cpu]
  unfolding status_case_def Let_def by (simp only: option.inject option.distinct split: if_split_asm) blast+

lemma exec_branch_defined:
  assumes "insn_wf i"
  shows "\<exists>br. exec_branch cpu i = Some br"
  using insn_wfD(2,3) [OF assms] by (simp add: exec_branch_def reg_eqs Let_def)

lemma commit_pc_safe:
  assumes "cpu_inv cpu"
  shows "\<exists>cpu'. commit_pc cpu br = Some cpu' \<and> cpu_inv cpu'"
proof -
  have "regs_inv (c_regs (g_set cpu 30 False OEMU_REG_W64 v))" for v
    using cpu_inv_g_set [OF assms] by (simp add: cpu_inv_def)
  then show ?thesis
    using assms by (auto simp: commit_pc_def regs_write_eq cpu_inv_def)
qed

section \<open>Weakest preconditions for calls that may abort\<close>

definition wp :: "'a option \<Rightarrow> ('a \<Rightarrow> bool) \<Rightarrow> bool" where
  "wp r P \<longleftrightarrow> (\<exists>x. r = Some x \<and> P x)"

lemma wp_simps [simp]:
  "wp (Some x) P = P x" "wp None P = False"
  "wp (r \<bind> f) P = wp r (\<lambda>x. wp (f x) P)"
  by (cases r; simp add: wp_def)+

lemma wp_mono: "wp r P \<Longrightarrow> (\<And>x. P x \<Longrightarrow> Q x) \<Longrightarrow> wp r Q"
  by (auto simp: wp_def)

lemma wp_if: "(b \<Longrightarrow> wp x P) \<Longrightarrow> (\<not> b \<Longrightarrow> wp y P) \<Longrightarrow> wp (if b then x else y) P"
  by simp

lemma wp_case_if:
  "wp (case (if b then x else y) of (s, m) \<Rightarrow> f s m) P =
   (if b then wp (case x of (s, m) \<Rightarrow> f s m) P else wp (case y of (s, m) \<Rightarrow> f s m) P)"
  by simp

lemma wp_resolve:
  assumes "insn_wf i" "\<And>a wb. P (a, wb)"
  shows "wp (resolve_mem_addr cpu i) P"
  using insn_wfD(3,4) [OF assms(1)] assms(2) by (simp add: resolve_mem_addr_def reg_eqs)

lemma wp_write_back:
  assumes "insn_wf i" "cpu_inv cpu" "\<And>cpu'. cpu_inv cpu' \<Longrightarrow> P cpu'"
  shows "wp (write_back cpu i wb) P"
  using insn_wfD(3) [OF assms(1)] assms(2,3) by (simp add: write_back_def reg_eqs)

section \<open>Memory instructions on a bus that keeps its contract\<close>

context bus
begin

text \<open>The outcome of a handler that may touch memory: it keeps the invariants and what the bus
  accepts, and if it does not complete then CPU and memory content are as before.\<close>

definition precise :: "oemu_cpu \<Rightarrow> 'm \<Rightarrow> oemu_status \<times> oemu_cpu \<times> 'm \<Rightarrow> bool" where
  "precise cpu m = (\<lambda>(st, cpu', m'). cpu_inv cpu' \<and> inv m' \<and> accepts m' = accepts m \<and>
     (st \<noteq> OEMU_OK \<longrightarrow> cpu' = cpu \<and> content m' = content m))"

lemma wp_validate:
  assumes "inv m" "\<And>st m'. same m m' \<Longrightarrow> st = OEMU_OK \<longleftrightarrow> accepts m a n p \<Longrightarrow> wp (f st m') P"
  shows "wp (case mo_validate ops m a n p of (st, m') \<Rightarrow> f st m') P"
  using validate_law [OF assms(1), of a n p] assms(2)
  by (cases "mo_validate ops m a n p") (simp add: same_def)

lemma wp_read:
  assumes "inv m" "sz \<noteq> OEMU_MEM_128" "accepts m a (transfer_bytes sz) OEMU_PERM_READ"
    and "\<And>v m'. same m m' \<Longrightarrow> P (v, m')"
  shows "wp (read_or_panic ops m a sz sx) P"
proof -
  obtain v m' where "mo_read ops m a sz sx = (Inr v, m')" "same m m'"
    using read_accepted [OF assms(1-3)] .
  then show ?thesis using assms(4) by (simp add: read_or_panic_def)
qed

lemma wp_write:
  assumes "inv m" "sz \<noteq> OEMU_MEM_128" "accepts m a (transfer_bytes sz) OEMU_PERM_WRITE"
    and "\<And>m'. inv m' \<Longrightarrow> accepts m' = accepts m \<Longrightarrow> P m'"
  shows "wp (write_or_panic ops m a sz v) P"
proof -
  obtain m' where "mo_write ops m a sz v = (OEMU_OK, m')" "inv m'" "accepts m' = accepts m"
    using write_accepted [OF assms(1-3)] .
  then show ?thesis using assms(4) by (simp add: write_or_panic_def)
qed

lemma shift_transfer: "push_bit (mem_size_val sz) 1 = transfer_bytes sz"
  by (simp add: transfer_bytes_def)

lemma wp_access_single:
  assumes "inv m" "cpu_inv cpu" "insn_wf i" "i_mem_size i \<noteq> OEMU_MEM_128"
    and "accepts m a (transfer_bytes (i_mem_size i)) (if st then OEMU_PERM_WRITE else OEMU_PERM_READ)"
    and "\<And>cpu' m'. cpu_inv cpu' \<Longrightarrow> inv m' \<Longrightarrow> accepts m' = accepts m \<Longrightarrow> P (cpu', m')"
  shows "wp (access_single ops cpu m i a st) P"
proof (cases st)
  case True
  with assms insn_wfD(2) [OF assms(3)] show ?thesis
    by (auto simp: access_single_def reg_eqs intro!: wp_write)
next
  case False
  with assms insn_wfD(2) [OF assms(3)] show ?thesis
    by (auto simp: access_single_def reg_eqs same_def intro!: wp_read)
qed

text \<open>The shape the memory handlers share after validation: fault, or transfer, write back, done.\<close>

lemma wp_transfer_commit:
  assumes "cpu_inv cpu" "same m m'"
    and "st = OEMU_OK \<Longrightarrow> wp access (\<lambda>(cpu', m''). cpu_inv cpu' \<and> inv m'' \<and> accepts m'' = accepts m)"
    and "\<And>cpu'. cpu_inv cpu' \<Longrightarrow> wp (wb cpu') cpu_inv"
  shows "wp (if st \<noteq> OEMU_OK then Some (OEMU_ERR_FAULT, cpu, m')
     else do { (cpu', m'') \<leftarrow> access; cpu'' \<leftarrow> wb cpu'; Some (OEMU_OK, cpu'', m'') }) (precise cpu m)"
proof (cases "st = OEMU_OK")
  case True
  with assms(3) obtain cpu' m'' where a: "access = Some (cpu', m'')" "cpu_inv cpu'" "inv m''" "accepts m'' = accepts m"
    by (auto simp: wp_def)
  from assms(4) [OF a(2)] obtain cpu'' where "wb cpu' = Some cpu''" "cpu_inv cpu''" by (auto simp: wp_def)
  with True a show ?thesis by (simp add: precise_def)
qed (use assms in \<open>simp add: precise_def same_def\<close>)

lemma do_single_mem_precise:
  assumes m: "inv m" and cpu: "cpu_inv cpu" and wf: "insn_wf i" and sz: "i_mem_size i \<noteq> OEMU_MEM_128"
  shows "wp (do_single_mem ops cpu m i) (precise cpu m)"
proof -
  let ?store = "i_op i = OEMU_OP_STR \<or> i_op i = OEMU_OP_STLR"
  let ?p = "if ?store then OEMU_PERM_WRITE else OEMU_PERM_READ"
  let ?wb = "\<lambda>h wb cpu'. if h then write_g cpu' (i_rn i) True OEMU_REG_W64 wb else Some cpu'"
  have R: "wp (case mo_validate ops m a (transfer_bytes (i_mem_size i)) ?p of (st, m') \<Rightarrow>
      if st \<noteq> OEMU_OK then Some (OEMU_ERR_FAULT, cpu, m')
      else do { (cpu', m'') \<leftarrow> access_single ops cpu m' i a ?store; cpu'' \<leftarrow> ?wb h wb cpu';
                Some (OEMU_OK, cpu'', m'') }) (precise cpu m)" for a wb h
  proof (rule wp_validate [OF m])
    fix st m' assume s: "same m m'" and st: "st = OEMU_OK \<longleftrightarrow> accepts m a (transfer_bytes (i_mem_size i)) ?p"
    show "wp (if st \<noteq> OEMU_OK then Some (OEMU_ERR_FAULT, cpu, m')
      else do { (cpu', m'') \<leftarrow> access_single ops cpu m' i a ?store; cpu'' \<leftarrow> ?wb h wb cpu';
                Some (OEMU_OK, cpu'', m'') }) (precise cpu m)"
      using s st insn_wfD(3) [OF wf]
      by (intro wp_transfer_commit wp_access_single cpu wf sz) (auto simp: same_def reg_eqs)
  qed
  show ?thesis
    using R wp_resolve [OF wf, of _ cpu]
    unfolding do_single_mem_def Let_def shift_transfer by simp
qed

lemma wp_access_pair:
  assumes "inv m" "cpu_inv cpu" "insn_wf i" "i_mem_size i \<noteq> OEMU_MEM_128"
    and acc: "\<And>x. x \<in> {a, a2} \<Longrightarrow> accepts m x (transfer_bytes (i_mem_size i))
      (if i_op i = OEMU_OP_STP then OEMU_PERM_WRITE else OEMU_PERM_READ)"
  shows "wp (access_pair ops cpu m i a a2) (\<lambda>(cpu', m'). cpu_inv cpu' \<and> inv m' \<and> accepts m' = accepts m)"
proof (cases "i_op i = OEMU_OP_STP")
  case True
  with assms insn_wfD(2,6) [OF assms(3)] show ?thesis
    by (auto simp: access_pair_def reg_eqs intro!: wp_write)
next
  case False
  with assms insn_wfD(2,6) [OF assms(3)] show ?thesis
    by (auto simp: access_pair_def reg_eqs same_def intro!: wp_read)
qed

lemma do_pair_precise:
  assumes m: "inv m" and cpu: "cpu_inv cpu" and wf: "insn_wf i" and sz: "i_mem_size i \<noteq> OEMU_MEM_128"
  shows "wp (do_pair ops cpu m i) (precise cpu m)"
proof -
  let ?p = "if i_op i = OEMU_OP_STP then OEMU_PERM_WRITE else OEMU_PERM_READ"
  let ?n = "transfer_bytes (i_mem_size i)"
  let ?body = "\<lambda>a wb st m'. if st \<noteq> OEMU_OK then Some (OEMU_ERR_FAULT, cpu, m')
    else do { (cpu', m'') \<leftarrow> access_pair ops cpu m' i a (a + ?n); cpu'' \<leftarrow> write_back cpu' i wb;
              Some (OEMU_OK, cpu'', m'') }"
  have B: "wp (?body a wb st m') (precise cpu m)"
    if "same m m'" "st = OEMU_OK \<Longrightarrow> accepts m a ?n ?p \<and> accepts m (a + ?n) ?n ?p" for a wb st m'
    using that by (intro wp_transfer_commit wp_mono [OF wp_access_pair] wp_write_back wf cpu sz)
      (auto simp: same_def)
  have R: "wp (case mo_validate ops m a ?n ?p of (st, m') \<Rightarrow>
      case (if st = OEMU_OK then mo_validate ops m' (a + ?n) ?n ?p else (st, m')) of (st, m') \<Rightarrow>
      ?body a wb st m') (precise cpu m)" for a wb
  proof (rule wp_validate [OF m])
    fix st m' assume s: "same m m'" and st: "st = OEMU_OK \<longleftrightarrow> accepts m a ?n ?p"
    show "wp (case (if st = OEMU_OK then mo_validate ops m' (a + ?n) ?n ?p else (st, m')) of (st, m') \<Rightarrow>
      ?body a wb st m') (precise cpu m)"
    proof (cases "st = OEMU_OK")
      case True
      have "wp (case mo_validate ops m' (a + ?n) ?n ?p of (st, m') \<Rightarrow> ?body a wb st m') (precise cpu m)"
        using True s st by (intro wp_validate B) (auto simp: same_def)
      then show ?thesis using True by simp
    next
      case False
      with B [OF s, of st a wb] show ?thesis by simp
    qed
  qed
  show ?thesis
    using R wp_resolve [OF wf, of _ cpu]
    unfolding do_pair_def Let_def shift_transfer pair_transfer_def by simp
qed

text \<open>Vector transfers: a validated list of ranges is accepted range by range.\<close>

lemma validate_all_spec:
  assumes "inv m" "validate_all ops m as n p = (valid, m')"
  shows "same m m'" "valid \<longleftrightarrow> (\<forall>a \<in> set as. accepts m a n p)"
proof -
  have "same m m' \<and> (valid \<longleftrightarrow> (\<forall>a \<in> set as. accepts m a n p))"
    using assms
  proof (induction as arbitrary: m)
    case (Cons a as)
    obtain st m1 where v: "mo_validate ops m a n p = (st, m1)" by fastforce
    have s: "same m m1" "st = OEMU_OK \<longleftrightarrow> accepts m a n p"
      using validate_law [OF Cons.prems(1) v] by (auto simp: same_def)
    show ?case
    proof (cases "st = OEMU_OK")
      case True
      with Cons.prems(2) v have "validate_all ops m1 as n p = (valid, m')" by simp
      from Cons.IH [OF same_inv [OF s(1)] this] s True show ?thesis by (auto simp: same_def)
    qed (use Cons.prems(2) v s in auto)
  qed simp
  then show "same m m'" "valid \<longleftrightarrow> (\<forall>a \<in> set as. accepts m a n p)" by auto
qed

definition vec_accepts :: "'m \<Rightarrow> u64 \<Rightarrow> oemu_mem_size \<Rightarrow> bool \<Rightarrow> u32 \<Rightarrow> bool" where
  "vec_accepts m a piece two p \<longleftrightarrow> accepts m a (transfer_bytes piece) p \<and> (two \<longrightarrow> accepts m (a + 8) 8 p)"

lemma wp_store_vector_reg:
  assumes "inv m" "piece \<noteq> OEMU_MEM_128" "vec_accepts m a piece two OEMU_PERM_WRITE"
    and "\<And>m'. inv m' \<Longrightarrow> accepts m' = accepts m \<Longrightarrow> P m'"
  shows "wp (store_vector_reg ops cpu m reg a piece two) P"
  using assms
  by (auto simp: store_vector_reg_def vec_accepts_def split: prod.split intro!: wp_write)

lemma wp_load_vector_reg:
  assumes "inv m" "piece \<noteq> OEMU_MEM_128" "vec_accepts m a piece two OEMU_PERM_READ" "cpu_inv cpu"
    and "\<And>cpu' m'. cpu_inv cpu' \<Longrightarrow> inv m' \<Longrightarrow> accepts m' = accepts m \<Longrightarrow> P (cpu', m')"
  shows "wp (load_vector_reg ops cpu m reg a piece two) P"
  using assms
  by (auto simp: load_vector_reg_def vec_accepts_def same_def intro!: wp_read)

lemma wp_access_pair_vector:
  assumes "inv m" "cpu_inv cpu" "piece \<noteq> OEMU_MEM_128"
    and "\<And>x. x \<in> {a, a + stride} \<Longrightarrow>
      vec_accepts m x piece two (if i_op i = OEMU_OP_STP then OEMU_PERM_WRITE else OEMU_PERM_READ)"
  shows "wp (access_pair_vector ops cpu m i a stride piece two)
    (\<lambda>(cpu', m'). cpu_inv cpu' \<and> inv m' \<and> accepts m' = accepts m)"
proof (cases "i_op i = OEMU_OP_STP")
  case True
  with assms show ?thesis
    by (auto simp: access_pair_vector_def vec_accepts_def intro!: wp_store_vector_reg)
next
  case False
  with assms show ?thesis
    by (auto simp: access_pair_vector_def vec_accepts_def intro!: wp_load_vector_reg)
qed

lemma wp_access_single_vector:
  assumes "inv m" "cpu_inv cpu"
    and "vec_accepts m a OEMU_MEM_DWORD True (if i_op i = OEMU_OP_STR then OEMU_PERM_WRITE else OEMU_PERM_READ)"
  shows "wp (access_single_vector ops cpu m i a)
    (\<lambda>(cpu', m'). cpu_inv cpu' \<and> inv m' \<and> accepts m' = accepts m)"
proof (cases "i_op i = OEMU_OP_STR")
  case True
  with assms show ?thesis
    by (auto simp: access_single_vector_def intro!: wp_store_vector_reg)
next
  case False
  with assms show ?thesis
    by (auto simp: access_single_vector_def intro!: wp_load_vector_reg)
qed

lemma wp_validated_commit:
  assumes m: "inv m" and cpu: "cpu_inv cpu" and wf: "insn_wf i"
    and acc: "\<And>m'. inv m' \<Longrightarrow> accepts m' = accepts m \<Longrightarrow> \<forall>a \<in> set as. accepts m a n p \<Longrightarrow>
      wp (access m') (\<lambda>(cpu', m''). cpu_inv cpu' \<and> inv m'' \<and> accepts m'' = accepts m)"
  shows "wp (case validate_all ops m as n p of (valid, m') \<Rightarrow>
      if \<not> valid then Some (OEMU_ERR_FAULT, cpu, m')
      else do { (cpu', m'') \<leftarrow> access m'; cpu'' \<leftarrow> write_back cpu' i wb;
                Some (OEMU_OK, cpu'', m'') }) (precise cpu m)"
proof -
  obtain valid m' where v: "validate_all ops m as n p = (valid, m')" by fastforce
  note s = validate_all_spec [OF m v]
  have "wp (if (if valid then OEMU_OK else OEMU_ERR_FAULT) \<noteq> OEMU_OK then Some (OEMU_ERR_FAULT, cpu, m')
      else do { (cpu', m'') \<leftarrow> access m'; cpu'' \<leftarrow> write_back cpu' i wb;
                Some (OEMU_OK, cpu'', m'') }) (precise cpu m)"
    using s by (intro wp_transfer_commit cpu acc wp_write_back [OF wf]) (auto simp: same_def split: if_splits)
  then show ?thesis using v by (cases valid) simp_all
qed

lemma do_single_vector_precise:
  assumes m: "inv m" and cpu: "cpu_inv cpu" and wf: "insn_wf i"
  shows "wp (do_single_vector ops cpu m i) (precise cpu m)"
proof -
  let ?p = "if i_op i = OEMU_OP_STR then OEMU_PERM_WRITE else OEMU_PERM_READ"
  have R: "wp (case validate_all ops m [a, a + 8] 8 ?p of (valid, m') \<Rightarrow>
      if \<not> valid then Some (OEMU_ERR_FAULT, cpu, m')
      else do { (cpu', m'') \<leftarrow> access_single_vector ops cpu m' i a; cpu'' \<leftarrow> write_back cpu' i wb;
                Some (OEMU_OK, cpu'', m'') }) (precise cpu m)" for a wb
    by (intro wp_validated_commit m cpu wf wp_mono [OF wp_access_single_vector])
      (auto simp: vec_accepts_def)
  show ?thesis
    using R wp_resolve [OF wf, of _ cpu] unfolding do_single_vector_def Let_def by simp
qed

lemma do_pair_vector_precise:
  assumes m: "inv m" and cpu: "cpu_inv cpu" and wf: "insn_wf i"
  shows "wp (do_pair_vector ops cpu m i) (precise cpu m)"
proof -
  let ?p = "if i_op i = OEMU_OP_STP then OEMU_PERM_WRITE else OEMU_PERM_READ"
  let ?two = "i_mem_size i = OEMU_MEM_128"
  let ?piece = "if ?two then OEMU_MEM_DWORD else i_mem_size i"
  let ?s = "transfer_bytes (i_mem_size i)"
  let ?b = "if ?s < 8 then ?s else 8"
  have b: "?b = transfer_bytes ?piece" by (cases "i_mem_size i") simp_all
  have piece: "?piece \<noteq> OEMU_MEM_128" by simp
  let ?l = "\<lambda>a. if ?two then [a, a + 8, a + ?s, a + ?s + 8] else [a, a + ?s]"
  have R: "wp (case validate_all ops m (?l a) ?b ?p of (valid, m') \<Rightarrow>
      if \<not> valid then Some (OEMU_ERR_FAULT, cpu, m')
      else do { (cpu', m'') \<leftarrow> access_pair_vector ops cpu m' i a ?s ?piece ?two;
                cpu'' \<leftarrow> write_back cpu' i wb;
                Some (OEMU_OK, cpu'', m'') }) (precise cpu m)" for a wb
    unfolding b
    by (intro wp_validated_commit m cpu wf wp_mono [OF wp_access_pair_vector] piece)
      (auto simp: vec_accepts_def split: if_splits)
  show ?thesis
    using R wp_resolve [OF wf, of _ cpu] unfolding do_pair_vector_def Let_def shift_transfer by simp
qed

lemma do_exclusive_precise:
  assumes m: "inv m" and cpu: "cpu_inv cpu" and wf: "insn_wf i" and sz: "i_mem_size i \<noteq> OEMU_MEM_128"
  shows "wp (do_exclusive ops cpu m i) (precise cpu m)"
proof -
  note b = insn_wfD(2-4) [OF wf]
  let ?a = "g_val cpu (i_rn i) True OEMU_REG_W64" and ?n = "transfer_bytes (i_mem_size i)"
  show ?thesis
  proof (cases "i_op i = OEMU_OP_LDXR")
    case True
    then show ?thesis
      unfolding do_exclusive_def Let_def shift_transfer read_g_eq [OF b(2)] wp_simps
      using m cpu sz b by (auto simp: reg_eqs precise_def same_def intro!: wp_validate wp_read)
  next
    case False
    then show ?thesis
      unfolding do_exclusive_def Let_def shift_transfer read_g_eq [OF b(2)] wp_simps
      using m cpu sz b by (auto simp: reg_eqs precise_def same_def intro!: wp_validate wp_write)
  qed
qed

lemma memory_case_precise:
  assumes m: "inv m" and cpu: "cpu_inv cpu" and wf: "insn_wf i" and r: "memory_case ops cpu m i = Some r"
  shows "wp r (precise cpu m)"
proof -
  have v: "if i_is_vector i then i_op i \<in> vector_ops else i_mem_size i \<noteq> OEMU_MEM_128"
    using wf by (simp add: insn_wf_def)
  then have sz: "\<not> i_is_vector i \<Longrightarrow> i_mem_size i \<noteq> OEMU_MEM_128"
    and nv: "i_op i \<notin> vector_ops \<Longrightarrow> i_mem_size i \<noteq> OEMU_MEM_128" by (auto split: if_splits)
  note P = do_single_mem_precise [OF m cpu wf] do_pair_precise [OF m cpu wf] do_exclusive_precise [OF m cpu wf]
    do_single_vector_precise [OF m cpu wf] do_pair_vector_precise [OF m cpu wf]
  show ?thesis
    using r unfolding memory_case_def Let_def
    by (simp only: option.inject option.distinct split: if_split_asm)
      (use P sz nv in \<open>auto simp: vector_ops_def\<close>)
qed

end

section \<open>Dispatch, step and run\<close>

text \<open>The environment's side of the contract: a system call leaves the bus sound and does not change
  what it accepts.\<close>

locale bus_env = bus ops inv accepts content
  for ops :: "'m oemu_memops" and inv accepts and content :: "'m \<Rightarrow> 'c" +
  fixes env :: "('e, 'm) oemu_env_ops"
  assumes syscall_law: "env_syscall env = Some syscall \<Longrightarrow> inv m \<Longrightarrow> syscall e m nr args = (res, e', m') \<Longrightarrow>
      inv m' \<and> accepts m' = accepts m"
begin

definition env_ok :: "('e, 'm) oemu_env_ops option \<Rightarrow> bool" where
  "env_ok eo \<longleftrightarrow> eo = None \<or> eo = Some env"

definition precise_e :: "oemu_cpu \<Rightarrow> 'm \<Rightarrow> 'e \<Rightarrow> oemu_status \<times> oemu_cpu \<times> 'm \<times> 'e \<Rightarrow> bool" where
  "precise_e cpu m e = (\<lambda>(st, cpu', m', e'). cpu_inv cpu' \<and> inv m' \<and> accepts m' = accepts m \<and>
     (st \<noteq> OEMU_OK \<longrightarrow> cpu' = cpu \<and> content m' = content m \<and> e' = e))"

lemma do_svc_safe:
  assumes "inv m" "cpu_inv cpu" "env_ok eo"
  shows "wp (do_svc eo cpu e m) (\<lambda>(st, cpu', e', m'). precise_e cpu m e (st, cpu', m', e'))"
proof (cases "Option.bind eo env_syscall")
  case None
  then show ?thesis using assms by (simp add: do_svc_def precise_e_def)
next
  case (Some syscall)
  then have sc: "env_syscall env = Some syscall" using assms(3) by (auto simp: env_ok_def)
  let ?s = "syscall e m (g_val cpu 8 False OEMU_REG_W64)
    (map (\<lambda>n. g_val cpu n False OEMU_REG_W64) [0, 1, 2, 3, 4, 5])"
  obtain r e' m' where s: "?s = (r, e', m')" by (metis prod_cases3)
  have "cpu_inv (cpu\<lparr>c_regs := c_regs (g_set cpu 0 False OEMU_REG_W64 r)\<rparr>)"
    using cpu_inv_g_set [OF assms(2), of 0 False OEMU_REG_W64 r] by (simp add: cpu_inv_def)
  then show ?thesis
    using Some syscall_law [OF sc assms(1) s] s
    by (simp add: do_svc_def regs_read_eq regs_write_eq precise_e_def)
qed

lemma dispatch_precise:
  assumes m: "inv m" and cpu: "cpu_inv cpu" and wf: "insn_wf i" and eo: "env_ok eo"
  shows "wp (oemu_exec_internal_dispatch_bus ops eo cpu m e i) (precise_e cpu m e)"
proof -
  let ?Q = "\<lambda>(st, br, cpu', m', e'). precise_e cpu m e (st, cpu', m', e')"
  have sw: "wp (case register_case cpu i of
             Some r \<Rightarrow> do { cpu \<leftarrow> r; Some (OEMU_OK, no_branch, cpu, m, e) }
           | None \<Rightarrow>
          (case status_case cpu i of
             Some r \<Rightarrow> do { (st, cpu) \<leftarrow> r; Some (st, no_branch, cpu, m, e) }
           | None \<Rightarrow>
          (case memory_case ops cpu m i of
             Some r \<Rightarrow> do { (st, cpu, m) \<leftarrow> r; Some (st, no_branch, cpu, m, e) }
           | None \<Rightarrow>
             if i_op i \<in> branch_ops
             then do { br \<leftarrow> exec_branch cpu i; Some (OEMU_OK, br, cpu, m, e) }
             else if i_op i = OEMU_OP_SVC
             then do { (st, cpu, e, m) \<leftarrow> do_svc eo cpu e m; Some (st, no_branch, cpu, m, e) }
             else Some (OEMU_ERR_UNSUPPORTED, no_branch, cpu, m, e)))) ?Q"
  proof (cases "register_case cpu i")
    case (Some r)
    with register_case_safe [OF wf cpu Some] m show ?thesis by (auto simp: precise_e_def)
  next
    case None1: None
    show ?thesis
    proof (cases "status_case cpu i")
      case (Some r)
      with None1 status_case_safe [OF wf cpu Some] m show ?thesis
        by (auto simp: status_ok_def precise_e_def)
    next
      case None2: None
      show ?thesis
      proof (cases "memory_case ops cpu m i")
        case (Some r)
        have "wp r (\<lambda>x. wp (case x of (st, cpu, m) \<Rightarrow> Some (st, no_branch, cpu, m, e)) ?Q)"
          by (rule wp_mono [OF memory_case_precise [OF m cpu wf Some]])
            (auto simp: precise_def precise_e_def)
        with None1 None2 Some show ?thesis by simp
      next
        case None3: None
        have "wp (do_svc eo cpu e m) (\<lambda>x. wp (case x of (st, cpu, e, m) \<Rightarrow> Some (st, no_branch, cpu, m, e)) ?Q)"
          by (rule wp_mono [OF do_svc_safe [OF m cpu eo]]) auto
        with None1 None2 None3 exec_branch_defined [OF wf, of cpu] m cpu show ?thesis
          by (auto simp: precise_e_def)
      qed
    qed
  qed
  have "wp (if st \<noteq> OEMU_OK then Some (st, cpu', m', e')
      else do { cpu'' \<leftarrow> commit_pc cpu' br; Some (OEMU_OK, cpu'', m', e') }) (precise_e cpu m e)"
    if "precise_e cpu m e (st, cpu', m', e')" for st br cpu' m' e'
    using that commit_pc_safe [of cpu' br] by (auto simp: precise_e_def)
  then show ?thesis
    using insn_wfD(1) [OF wf] unfolding oemu_exec_internal_dispatch_bus_def
    by (simp only: if_False wp_simps) (rule wp_mono [OF sw], auto)
qed

lemma step_precise:
  assumes m: "inv m" and cpu: "cpu_inv cpu" and eo: "env_ok eo"
  shows "wp (oemu_exec_step_bus ops eo cpu m e) (\<lambda>(st, io, cpu', m', e'). precise_e cpu m e (st, cpu', m', e'))"
proof -
  obtain r m1 where f: "mo_fetch32 ops m (oemu_regs_pc (c_regs cpu)) = (r, m1)" by fastforce
  have s: "same m m1" using fetch_same [OF m f] .
  show ?thesis
  proof (cases r)
    case (Inl st)
    with f s cpu show ?thesis by (simp add: oemu_exec_step_bus_def precise_e_def same_def)
  next
    case (Inr w)
    obtain dec i where d: "oemu_decode w (oemu_regs_pc (c_regs cpu)) = (dec, i)" by fastforce
    show ?thesis
    proof (cases "dec = OEMU_OK")
      case True
      with d have "insn_wf i" using oemu_decode_wf by blast
      with s have "wp (oemu_exec_internal_dispatch_bus ops eo cpu m1 e i)
          (\<lambda>(st, cpu', m', e'). precise_e cpu m e (st, cpu', m', e'))"
        by (intro wp_mono [OF dispatch_precise [OF _ cpu _ eo]]) (auto simp: precise_e_def same_def)
      with f d True Inr show ?thesis by (auto simp: oemu_exec_step_bus_def wp_def)
    next
      case False
      with f d Inr s cpu show ?thesis by (simp add: oemu_exec_step_bus_def precise_e_def same_def)
    qed
  qed
qed

lemma run_loop_safe:
  assumes "inv m" "cpu_inv cpu" "env_ok eo"
  shows "wp (run_loop n ops eo d cpu m e) (\<lambda>(st, d', cpu', m', e').
    cpu_inv cpu' \<and> inv m' \<and> accepts m' = accepts m \<and> d \<le> d' \<and> d' \<le> d + n)"
  using assms(1,2)
proof (induction n arbitrary: d cpu m e)
  case (Suc n)
  let ?Q = "\<lambda>(st, d', cpu', m', e'). cpu_inv cpu' \<and> inv m' \<and> accepts m' = accepts m \<and> d \<le> d' \<and> d' \<le> d + Suc n"
  have "wp (if st \<noteq> OEMU_OK then Some (st, d, cpu', m', e')
      else if envops_halted eo e' then Some (OEMU_OK, d + 1, cpu', m', e')
      else run_loop n ops eo (d + 1) cpu' m' e') ?Q"
    if "precise_e cpu m e (st, cpu', m', e')" for st cpu' m' e'
    using that wp_mono [OF Suc.IH [of m' cpu' "d + 1" e'], of ?Q]
    by (auto simp: precise_e_def)
  then show ?case
    by (simp only: run_loop.simps wp_simps) (rule wp_mono [OF step_precise [OF Suc.prems assms(3)]], auto)
qed (use assms in simp)

end

section \<open>Running in instalments\<close>

lemma run_loop_split:
  assumes "\<not> envops_halted eo e"
  shows "run_loop (a + b) mem eo d cpu m e = do {
    (st, d', cpu', m', e') \<leftarrow> run_loop a mem eo d cpu m e;
    if st = OEMU_ERR_TIMEOUT \<and> d' = d + a then run_loop b mem eo d' cpu' m' e'
    else Some (st, d', cpu', m', e') }"
  using assms
proof (induction a arbitrary: d cpu m e)
  case (Suc a)
  show ?case
  proof (cases "oemu_exec_step_bus mem eo cpu m e")
    case (Some x)
    obtain st io cpu' m' e' where x: "x = (st, io, cpu', m', e')" by (metis prod_cases5)
    show ?thesis
      using Some x Suc.IH [of e' "d + 1" cpu' m'] by (cases "envops_halted eo e'") simp_all
  qed simp
qed simp

end
