(* ===== verification/Oemu_Memory.thy ===== *)
theory Oemu_Memory
  imports Oemu_Bus Oemu_Words
begin

text \<open>
  Flat guest memory (\<^verbatim>\<open>src/memory/memory.c\<close>): the region table over host memory, the containment and
  overlap arithmetic, mapping, validation, little-endian access and instruction fetch, and the bus
  view. Host memory is a function from 64-bit host addresses to bytes, so that two regions that
  alias one host buffer share their bytes. The block an allocation returns is an argument (\<^const>\<open>None\<close>
  when the allocator fails). A structure passed by reference is a value here, so the guards against
  a null structure or a null out pointer have no counterpart; a data pointer that may be null is an
  option.
\<close>

section \<open>Host memory\<close>

type_synonym heap = "u64 \<Rightarrow> u8"

definition memset_zero :: "heap \<Rightarrow> u64 \<Rightarrow> u64 \<Rightarrow> heap" where
  "memset_zero h p n = (\<lambda>a. if a - p < n then 0 else h a)"

definition memcpy_to :: "heap \<Rightarrow> u64 \<Rightarrow> u8 list \<Rightarrow> heap" where
  "memcpy_to h p bs = (\<lambda>a. if unat (a - p) < length bs then bs ! unat (a - p) else h a)"

definition memcpy_from :: "heap \<Rightarrow> u64 \<Rightarrow> nat \<Rightarrow> u8 list" where
  "memcpy_from h p n = map (\<lambda>i. h (p + of_nat i)) [0..<n]"

section \<open>The region table\<close>

record oemu_memory_region =
  rg_gva :: u64
  rg_size :: u64
  rg_perms :: u32
  rg_host :: u64
  rg_owned :: bool

text \<open>The table pointer (\<^const>\<open>None\<close> before initialisation and after disposal), the first
  \<^verbatim>\<open>region_count\<close> entries of the table, and its capacity.\<close>

record oemu_memory =
  mem_table :: "u64 option"
  mem_regions :: "oemu_memory_region list"
  mem_capacity :: nat

definition oemu_memory_internal_check_map_args :: "u64 \<Rightarrow> u64 \<Rightarrow> u32 \<Rightarrow> oemu_status" where
  "oemu_memory_internal_check_map_args gva sz perms =
     (if sz = 0 \<or> perms = 0 then OEMU_ERR_INVALID_ARG
      else if sz - 1 > 0xFFFFFFFFFFFFFFFF - gva then OEMU_ERR_OVERFLOW
      else OEMU_OK)"

definition oemu_memory_internal_ranges_overlap :: "u64 \<Rightarrow> u64 \<Rightarrow> u64 \<Rightarrow> u64 \<Rightarrow> bool" where
  "oemu_memory_internal_ranges_overlap a as b bs = (if a \<le> b then b - a < as else a - b < bs)"

text \<open>The loop of the lookup: the first region that passes the three tests.\<close>

primrec find_region :: "oemu_memory_region list \<Rightarrow> u64 \<Rightarrow> u64 \<Rightarrow> u32 \<Rightarrow> oemu_memory_region option" where
  "find_region [] gva sz perms = None"
| "find_region (r # rs) gva sz perms =
     (if rg_perms r AND perms \<noteq> perms then find_region rs gva sz perms
      else if rg_gva r > gva then find_region rs gva sz perms
      else let off = gva - rg_gva r
           in if off \<ge> rg_size r \<or> sz > rg_size r - off then find_region rs gva sz perms
              else Some r)"

definition oemu_memory_internal_find ::
  "oemu_memory \<Rightarrow> u64 \<Rightarrow> u64 \<Rightarrow> u32 \<Rightarrow> oemu_memory_region option" where
  "oemu_memory_internal_find mem gva sz perms =
     (if sz = 0 then None else find_region (mem_regions mem) gva sz perms)"

definition oemu_memory_internal_disassemble :: "u8 list \<Rightarrow> nat \<Rightarrow> u64" where
  "oemu_memory_internal_disassemble src nbytes =
     fold (\<lambda>i value. value OR push_bit (8 * i) (ucast (src ! i))) [0..<nbytes] 0"

definition oemu_memory_internal_assemble :: "nat \<Rightarrow> u64 \<Rightarrow> u8 list" where
  "oemu_memory_internal_assemble nbytes value =
     map (\<lambda>i. ucast (drop_bit (8 * i) value AND 0xFF)) [0..<nbytes]"

definition oemu_memory_init :: "u64 option \<Rightarrow> nat \<Rightarrow> oemu_memory \<Rightarrow> oemu_status \<times> oemu_memory" where
  "oemu_memory_init table region_capacity mem =
     (if region_capacity = 0 then (OEMU_ERR_INVALID_ARG, mem)
      else case table of
        None \<Rightarrow> (OEMU_ERR_NO_MEMORY, mem)
      | Some t \<Rightarrow> (OEMU_OK, \<lparr>mem_table = Some t, mem_regions = [], mem_capacity = region_capacity\<rparr>))"

text \<open>Disposal returns the pointers it frees, in order.\<close>

definition oemu_memory_dispose :: "oemu_memory \<Rightarrow> u64 list \<times> oemu_memory" where
  "oemu_memory_dispose mem =
     ((case mem_table mem of
         None \<Rightarrow> []
       | Some t \<Rightarrow> map rg_host (filter rg_owned (mem_regions mem)) @ [t]),
      \<lparr>mem_table = None, mem_regions = [], mem_capacity = 0\<rparr>)"

text \<open>
  The common mapping routine. \<open>block\<close> is what the allocator returns for the backing of an owned
  region; \<open>contents\<close> is the source buffer, of which the first \<open>contents_size\<close> bytes are installed.
\<close>

type_synonym flat = "oemu_memory \<times> heap"

definition memory_map ::
  "u64 option \<Rightarrow> u64 \<Rightarrow> u64 \<Rightarrow> u64 \<Rightarrow> u32 \<Rightarrow> bool \<Rightarrow> u8 list option \<Rightarrow> u64 \<Rightarrow> flat \<Rightarrow> oemu_status \<times> flat" where
  "memory_map block gva host sz perms owned contents contents_size = (\<lambda>(mem, h).
     if mem_table mem = None then (OEMU_ERR_INVALID_ARG, (mem, h))
     else let args = oemu_memory_internal_check_map_args gva sz perms
     in if args \<noteq> OEMU_OK then (args, (mem, h))
     else if length (mem_regions mem) \<ge> mem_capacity mem then (OEMU_ERR_RANGE, (mem, h))
     else if \<exists>r \<in> set (mem_regions mem).
            oemu_memory_internal_ranges_overlap gva sz (rg_gva r) (rg_size r)
     then (OEMU_ERR_RANGE, (mem, h))
     else let add = (\<lambda>host. mem\<lparr>mem_regions := mem_regions mem @
            [\<lparr>rg_gva = gva, rg_size = sz, rg_perms = perms, rg_host = host, rg_owned = owned\<rparr>]\<rparr>)
     in if owned
        then if contents_size > sz \<or> (contents = None \<and> contents_size > 0)
             then (OEMU_ERR_INVALID_ARG, (mem, h))
             else case block of
                    None \<Rightarrow> (OEMU_ERR_NO_MEMORY, (mem, h))
                  | Some b \<Rightarrow>
                      let h = memset_zero h b sz;
                          h = (if contents_size > 0
                               then memcpy_to h b (take (unat contents_size) (the contents)) else h)
                      in (OEMU_OK, (add b, h))
        else (OEMU_OK, (add host, h)))"

definition oemu_memory_map :: "u64 option \<Rightarrow> u64 \<Rightarrow> u64 \<Rightarrow> u32 \<Rightarrow> flat \<Rightarrow> oemu_status \<times> flat" where
  "oemu_memory_map block gva sz perms = memory_map block gva 0 sz perms True None 0"

definition oemu_memory_map_image ::
  "u64 option \<Rightarrow> u64 \<Rightarrow> u64 \<Rightarrow> u32 \<Rightarrow> u8 list option \<Rightarrow> u64 \<Rightarrow> flat \<Rightarrow> oemu_status \<times> flat" where
  "oemu_memory_map_image block gva sz perms contents contents_size =
     memory_map block gva 0 sz perms True contents contents_size"

definition oemu_memory_map_alias :: "u64 \<Rightarrow> u64 \<Rightarrow> u64 \<Rightarrow> u32 \<Rightarrow> flat \<Rightarrow> oemu_status \<times> flat" where
  "oemu_memory_map_alias gva host sz perms st =
     (if host = 0 then (OEMU_ERR_INVALID_ARG, st)
      else memory_map None gva host sz perms False None 0 st)"

section \<open>Access\<close>

definition oemu_memory_validate :: "oemu_memory \<Rightarrow> u64 \<Rightarrow> u64 \<Rightarrow> u32 \<Rightarrow> oemu_status" where
  "oemu_memory_validate mem gva sz perms =
     (if sz = 0 then OEMU_ERR_INVALID_ARG
      else if oemu_memory_internal_find mem gva sz perms \<noteq> None then OEMU_OK else OEMU_ERR_FAULT)"

text \<open>Reads and writes go through an eight-byte buffer, so they are meaningful for transfers of at
  most eight bytes; the executor asks for no other.\<close>

definition oemu_memory_read :: "flat \<Rightarrow> u64 \<Rightarrow> oemu_mem_size \<Rightarrow> bool \<Rightarrow> oemu_status + u64" where
  "oemu_memory_read = (\<lambda>(mem, h) gva sz sign_extend.
     let nbytes = 2 ^ mem_size_val sz
     in case oemu_memory_internal_find mem gva (of_nat nbytes) OEMU_PERM_READ of
          None \<Rightarrow> Inl OEMU_ERR_FAULT
        | Some r \<Rightarrow>
            let bytes = memcpy_from h (rg_host r + (gva - rg_gva r)) nbytes;
                value = oemu_memory_internal_disassemble bytes nbytes
            in Inr (if sign_extend \<and> value AND push_bit (8 * nbytes - 1) 1 \<noteq> 0
                    then value OR NOT (drop_bit (64 - 8 * nbytes) 0xFFFFFFFFFFFFFFFF)
                    else value))"

definition oemu_memory_write :: "flat \<Rightarrow> u64 \<Rightarrow> oemu_mem_size \<Rightarrow> u64 \<Rightarrow> oemu_status \<times> flat" where
  "oemu_memory_write = (\<lambda>(mem, h) gva sz value.
     let nbytes = 2 ^ mem_size_val sz
     in case oemu_memory_internal_find mem gva (of_nat nbytes) OEMU_PERM_WRITE of
          None \<Rightarrow> (OEMU_ERR_FAULT, (mem, h))
        | Some r \<Rightarrow>
            (OEMU_OK, (mem, memcpy_to h (rg_host r + (gva - rg_gva r))
               (oemu_memory_internal_assemble nbytes value))))"

definition oemu_memory_write_bytes :: "flat \<Rightarrow> u64 \<Rightarrow> u8 list option \<Rightarrow> u64 \<Rightarrow> oemu_status \<times> flat" where
  "oemu_memory_write_bytes = (\<lambda>(mem, h) gva src sz.
     if sz = 0 then (OEMU_OK, (mem, h))
     else case src of
       None \<Rightarrow> (OEMU_ERR_INVALID_ARG, (mem, h))
     | Some bs \<Rightarrow>
         (case oemu_memory_internal_find mem gva sz OEMU_PERM_WRITE of
            None \<Rightarrow> (OEMU_ERR_FAULT, (mem, h))
          | Some r \<Rightarrow> (OEMU_OK, (mem, memcpy_to h (rg_host r + (gva - rg_gva r)) (take (unat sz) bs)))))"

definition oemu_memory_fetch32 :: "flat \<Rightarrow> u64 \<Rightarrow> oemu_status + u32" where
  "oemu_memory_fetch32 = (\<lambda>(mem, h) pc.
     if pc AND (4 - 1) \<noteq> 0 then Inl OEMU_ERR_FAULT
     else case oemu_memory_internal_find mem pc 4 OEMU_PERM_EXEC of
            None \<Rightarrow> Inl OEMU_ERR_FAULT
          | Some r \<Rightarrow> Inr (ucast (oemu_memory_internal_disassemble
              (memcpy_from h (rg_host r + (pc - rg_gva r)) 4) 4)))"

text \<open>The bus view adds no behaviour of its own.\<close>

definition oemu_memory_memops :: "flat oemu_memops" where
  "oemu_memory_memops =
     \<lparr>mo_fetch32 = (\<lambda>st pa. (oemu_memory_fetch32 st pa, st)),
      mo_read = (\<lambda>st pa sz sx. (oemu_memory_read st pa sz sx, st)),
      mo_write = oemu_memory_write,
      mo_validate = (\<lambda>st pa sz perms. (oemu_memory_validate (fst st) pa sz perms, st))\<rparr>"

section \<open>Ranges as integer intervals\<close>

definition guest_range :: "u64 \<Rightarrow> u64 \<Rightarrow> int set" where
  "guest_range a n = {uint a ..< uint a + uint n}"

definition region_contains :: "oemu_memory_region \<Rightarrow> u64 \<Rightarrow> u64 \<Rightarrow> bool" where
  "region_contains r g n \<longleftrightarrow>
     uint (rg_gva r) \<le> uint g \<and> uint g + uint n \<le> uint (rg_gva r) + uint (rg_size r)"

lemma uint_minus_le: "b \<le> a \<Longrightarrow> uint (a - b) = uint a - uint (b :: 'a::len word)"
  by (metis uint_minus_simple_alt)

lemma ranges_overlap_iff:
  assumes "0 < as" "0 < bs"
  shows "oemu_memory_internal_ranges_overlap a as b bs \<longleftrightarrow> guest_range a as \<inter> guest_range b bs \<noteq> {}"
proof -
  have "guest_range a as \<inter> guest_range b bs \<noteq> {} \<longleftrightarrow>
      uint a < uint b + uint bs \<and> uint b < uint a + uint as"
    using assms by (auto simp: guest_range_def word_less_def)
  then show ?thesis
    using assms uint_minus_le [of a b] uint_minus_le [of b a]
    by (auto simp: oemu_memory_internal_ranges_overlap_def word_less_def word_le_def)
qed

lemma check_map_args_ok:
  "oemu_memory_internal_check_map_args g n p = OEMU_OK \<longleftrightarrow>
     n \<noteq> 0 \<and> p \<noteq> 0 \<and> uint g + uint n \<le> 2 ^ 64"
proof -
  have "uint (0xFFFFFFFFFFFFFFFF - g) = 2 ^ 64 - 1 - uint g"
    using uint_minus_le [of g "0xFFFFFFFFFFFFFFFF"] uint_bounded [of g]
    by (simp add: word_le_def)
  moreover have "uint (n - 1) = uint n - 1" if "n \<noteq> 0"
    using that uint_minus_le [of 1 n] by (simp add: word_le_def word_neq_0_conv word_less_def)
  ultimately show ?thesis
    by (auto simp: oemu_memory_internal_check_map_args_def word_less_def)
qed

lemma region_test:
  "\<not> rg_gva r > g \<and> \<not> (g - rg_gva r \<ge> rg_size r \<or> n > rg_size r - (g - rg_gva r)) \<longleftrightarrow>
   region_contains r g n \<and> uint g < uint (rg_gva r) + uint (rg_size r)"
  using uint_minus_le [of "rg_gva r" g] uint_minus_le [of "g - rg_gva r" "rg_size r"]
  by (auto simp: region_contains_def word_less_def word_le_def)

text \<open>The lookup in closed form, and what a hit means.\<close>

lemma find_region_eq:
  "find_region rs g n p = List.find (\<lambda>r. rg_perms r AND p = p \<and> region_contains r g n \<and>
     uint g < uint (rg_gva r) + uint (rg_size r)) rs"
  using region_test [where g = g and n = n] by (induction rs) (auto simp: Let_def)

lemma find_eq:
  "oemu_memory_internal_find mem g n p =
     (if n = 0 then None
      else List.find (\<lambda>r. rg_perms r AND p = p \<and> region_contains r g n) (mem_regions mem))"
proof (cases "n = 0")
  case False
  then have "0 < uint n" by (simp add: word_neq_0_conv word_less_def)
  then have "(region_contains r g n \<and> uint g < uint (rg_gva r) + uint (rg_size r)) = region_contains r g n"
    for r by (auto simp: region_contains_def)
  with False show ?thesis by (simp add: oemu_memory_internal_find_def find_region_eq)
qed (simp add: oemu_memory_internal_find_def)

section \<open>The invariant\<close>

text \<open>
  Every mapped range is nonempty, carries a permission and ends within the address space; no two
  overlap; the table is allocated and not over-full. The host side says the same of the backing
  blocks: they do not wrap and are pairwise disjoint.
\<close>

definition region_ok :: "oemu_memory_region \<Rightarrow> bool" where
  "region_ok r \<longleftrightarrow> rg_size r \<noteq> 0 \<and> rg_perms r \<noteq> 0 \<and> uint (rg_gva r) + uint (rg_size r) \<le> 2 ^ 64"

definition mem_inv :: "oemu_memory \<Rightarrow> bool" where
  "mem_inv mem \<longleftrightarrow> mem_table mem \<noteq> None \<and> length (mem_regions mem) \<le> mem_capacity mem \<and>
     list_all region_ok (mem_regions mem) \<and>
     sorted_wrt (\<lambda>r s. guest_range (rg_gva r) (rg_size r) \<inter> guest_range (rg_gva s) (rg_size s) = {})
       (mem_regions mem)"

definition host_inv :: "oemu_memory \<Rightarrow> bool" where
  "host_inv mem \<longleftrightarrow>
     list_all (\<lambda>r. uint (rg_host r) + uint (rg_size r) \<le> 2 ^ 64) (mem_regions mem) \<and>
     sorted_wrt (\<lambda>r s. guest_range (rg_host r) (rg_size r) \<inter> guest_range (rg_host s) (rg_size s) = {})
       (mem_regions mem)"

text \<open>What the allocator (or the owner of an aliased buffer) promises of a new block.\<close>

definition fresh_block :: "oemu_memory \<Rightarrow> u64 \<Rightarrow> u64 \<Rightarrow> bool" where
  "fresh_block mem b n \<longleftrightarrow> uint b + uint n \<le> 2 ^ 64 \<and>
     (\<forall>r \<in> set (mem_regions mem). guest_range (rg_host r) (rg_size r) \<inter> guest_range b n = {})"

lemma sorted_wrt_sym_nth:
  assumes "sorted_wrt P xs" "\<And>x y. P x y \<Longrightarrow> P y x" "i < length xs" "j < length xs" "i \<noteq> j"
  shows "P (xs ! i) (xs ! j)"
  using assms sorted_wrt_nth_less [OF assms(1), of i j] sorted_wrt_nth_less [OF assms(1), of j i]
  by (cases "i < j") auto

text \<open>In a sound table at most one region holds an address, so the order of the table is
  immaterial.\<close>

lemma region_unique:
  assumes "mem_inv mem" "i < length (mem_regions mem)" "j < length (mem_regions mem)"
    "region_contains (mem_regions mem ! i) g n" "region_contains (mem_regions mem ! j) g' n'"
    "n \<noteq> 0" "n' \<noteq> 0" "guest_range g n \<inter> guest_range g' n' \<noteq> {}"
  shows "i = j"
proof (rule ccontr)
  let ?R = "\<lambda>k. guest_range (rg_gva (mem_regions mem ! k)) (rg_size (mem_regions mem ! k))"
  assume "i \<noteq> j"
  with assms(1-3) have "?R i \<inter> ?R j = {}"
    by (intro sorted_wrt_sym_nth [where P = "\<lambda>r s. guest_range (rg_gva r) (rg_size r) \<inter> guest_range (rg_gva s) (rg_size s) = {}"])
      (auto simp: mem_inv_def)
  moreover have "guest_range g n \<subseteq> ?R i" "guest_range g' n' \<subseteq> ?R j"
    using assms(4,5) by (auto simp: guest_range_def region_contains_def)
  ultimately show False using assms(8) by blast
qed

lemma find_hit:
  "oemu_memory_internal_find mem g n p = Some r \<Longrightarrow>
    n \<noteq> 0 \<and> r \<in> set (mem_regions mem) \<and> rg_perms r AND p = p \<and> region_contains r g n"
  by (auto simp: find_eq List.find_Some_iff split: if_splits)

lemma find_miss:
  "oemu_memory_internal_find mem g n p = None \<longleftrightarrow>
    n = 0 \<or> (\<forall>r \<in> set (mem_regions mem). \<not> (rg_perms r AND p = p \<and> region_contains r g n))"
  by (auto simp: find_eq List.find_None_iff)

lemma guest_range_nonempty: "n \<noteq> 0 \<Longrightarrow> guest_range g n \<noteq> {}"
  by (simp add: guest_range_def word_neq_0_conv word_less_def)

lemma find_unique:
  assumes "mem_inv mem" "n \<noteq> 0" "r \<in> set (mem_regions mem)" "rg_perms r AND p = p" "region_contains r g n"
  shows "oemu_memory_internal_find mem g n p = Some r"
proof (cases "oemu_memory_internal_find mem g n p")
  case None
  with assms show ?thesis by (auto simp: find_miss)
next
  case (Some r')
  from find_hit [OF this] have r': "r' \<in> set (mem_regions mem)" "region_contains r' g n" by auto
  then obtain i j where "i < length (mem_regions mem)" "mem_regions mem ! i = r"
    "j < length (mem_regions mem)" "mem_regions mem ! j = r'"
    using assms(3) by (metis in_set_conv_nth)
  with region_unique [OF assms(1), of i j g n g n] assms(2,5) r' guest_range_nonempty [OF assms(2)]
  show ?thesis using Some by auto
qed

lemma find_iff:
  assumes "mem_inv mem"
  shows "oemu_memory_internal_find mem g n p = Some r \<longleftrightarrow>
    n \<noteq> 0 \<and> r \<in> set (mem_regions mem) \<and> rg_perms r AND p = p \<and> region_contains r g n"
  using find_hit [of mem g n p r] find_unique [OF assms] by blast

section \<open>What the guest sees\<close>

text \<open>The byte at a guest address, whatever the permissions.\<close>

definition guest_byte :: "flat \<Rightarrow> u64 \<Rightarrow> u8 option" where
  "guest_byte = (\<lambda>(mem, h) a. map_option (\<lambda>r. h (rg_host r + (a - rg_gva r)))
     (oemu_memory_internal_find mem a 1 0))"

lemma unat_less_int: "unat x < n \<longleftrightarrow> uint x < int n"
  by (simp only: uint_nat of_nat_less_iff)

lemma unat_minus_less_iff:
  fixes b g :: u64
  assumes "uint g + int n \<le> 2 ^ 64"
  shows "unat (b - g) < n \<longleftrightarrow> uint g \<le> uint b \<and> uint b < uint g + int n"
proof (cases "g \<le> b")
  case True
  then show ?thesis using uint_minus_le [OF True] by (auto simp: word_le_def unat_less_int)
next
  case False
  then have "uint (b - g) = (uint b - uint g + 2 ^ 64) mod 2 ^ 64"
    by (simp add: uint_word_ariths)
  also have "\<dots> = uint b - uint g + 2 ^ 64"
  proof (rule mod_pos_pos_trivial)
    have "uint g < 2 ^ 64" using uint_bounded [of g] by simp
    then show "0 \<le> uint b - uint g + 2 ^ 64" using uint_nonnegative [of b] by linarith
    show "uint b - uint g + 2 ^ 64 < 2 ^ 64" using False by (simp add: word_le_def)
  qed
  finally have "uint (b - g) = uint b - uint g + 2 ^ 64" .
  then have "\<not> uint (b - g) < int n" using assms uint_nonnegative [of b] by linarith
  with False show ?thesis by (simp add: word_le_def unat_less_int)
qed

lemma region_contains_byte_iff:
  "region_contains r b 1 \<longleftrightarrow> uint b \<in> guest_range (rg_gva r) (rg_size r)"
  by (auto simp: region_contains_def guest_range_def)

lemma guest_byte_Some_iff:
  assumes "mem_inv mem"
  shows "guest_byte (mem, h) b = Some v \<longleftrightarrow>
    (\<exists>r \<in> set (mem_regions mem). uint b \<in> guest_range (rg_gva r) (rg_size r) \<and>
       v = h (rg_host r + (b - rg_gva r)))"
  by (auto simp: guest_byte_def find_iff [OF assms] region_contains_byte_iff)

lemma regions_disjoint:
  assumes "sorted_wrt (\<lambda>r s. guest_range (f r) (rg_size r) \<inter> guest_range (f s) (rg_size s) = {})
      (mem_regions mem)"
    and "r \<in> set (mem_regions mem)" "r' \<in> set (mem_regions mem)" "r \<noteq> r'"
  shows "guest_range (f r) (rg_size r) \<inter> guest_range (f r') (rg_size r') = {}"
proof -
  obtain i j where "i < length (mem_regions mem)" "mem_regions mem ! i = r"
    "j < length (mem_regions mem)" "mem_regions mem ! j = r'"
    using assms(2,3) by (metis in_set_conv_nth)
  with assms(4) sorted_wrt_sym_nth [OF assms(1), of i j] show ?thesis by auto
qed

text \<open>Copying bytes over the host image of a found range changes exactly the guest bytes of the
  range.\<close>

lemma host_offset:
  assumes "uint (rg_host r) + uint (rg_size r) \<le> 2 ^ 64" "uint b \<in> guest_range (rg_gva r) (rg_size r)"
  shows "uint (rg_host r + (b - rg_gva r)) = uint (rg_host r) + (uint b - uint (rg_gva r))"
proof -
  have le: "rg_gva r \<le> b" using assms(2) by (simp add: guest_range_def word_le_def)
  have "uint (rg_host r) + (uint b - uint (rg_gva r)) < 2 ^ 64"
    using assms by (simp add: guest_range_def)
  then show ?thesis
    using uint_minus_le [OF le] assms(2)
    by (simp add: uint_word_ariths(1) mod_pos_pos_trivial guest_range_def)
qed

lemma guest_byte_memcpy:
  assumes inv: "mem_inv mem" "host_inv mem"
    and hit: "oemu_memory_internal_find mem g (of_nat (length bs)) p = Some r"
    and len: "length bs < 2 ^ 64"
  shows "guest_byte (mem, memcpy_to h (rg_host r + (g - rg_gva r)) bs) b =
    (if unat (b - g) < length bs then Some (bs ! unat (b - g)) else guest_byte (mem, h) b)"
proof -
  let ?P = "rg_host r + (g - rg_gva r)" and ?n = "length bs"
  have un: "uint (of_nat ?n :: u64) = int ?n" using len by (simp add: uint_nat unat_of_nat)
  from find_hit [OF hit] have r: "?n \<noteq> 0" "r \<in> set (mem_regions mem)" "region_contains r g (of_nat ?n)"
    by auto
  have okr: "uint (rg_gva r) + uint (rg_size r) \<le> 2 ^ 64" "uint (rg_host r) + uint (rg_size r) \<le> 2 ^ 64"
    using inv r(2) by (auto simp: mem_inv_def host_inv_def list_all_iff region_ok_def)
  have cont: "uint (rg_gva r) \<le> uint g" "uint g + int ?n \<le> uint (rg_gva r) + uint (rg_size r)"
    using r(3) un by (simp_all add: region_contains_def)
  have g: "uint g + int ?n \<le> 2 ^ 64" using cont okr by simp
  have in_r: "uint b \<in> guest_range (rg_gva r) (rg_size r)" if "unat (b - g) < ?n"
    using that cont unfolding unat_minus_less_iff [OF g] by (simp add: guest_range_def)
  have gr: "uint g \<in> guest_range (rg_gva r) (rg_size r)" 
    using cont r(1) by (cases bs) (simp_all add: guest_range_def)
  have same: "(r'' = r \<and> unat (rg_host r'' + (b - rg_gva r'') - ?P) < ?n) = (r'' = r \<and> unat (b - g) < ?n)" for r''
    by (auto simp: algebra_simps)
  have other: "\<not> unat (rg_host r' + (b - rg_gva r') - ?P) < ?n"
    if r': "r' \<in> set (mem_regions mem)" "r' \<noteq> r" "uint b \<in> guest_range (rg_gva r') (rg_size r')" for r'
  proof -
    have ok': "uint (rg_host r') + uint (rg_size r') \<le> 2 ^ 64"
      using inv r'(1) by (auto simp: host_inv_def list_all_iff)
    have "guest_range (rg_host r') (rg_size r') \<inter> guest_range (rg_host r) (rg_size r) = {}"
      using inv(2) r' r(2) by (intro regions_disjoint) (auto simp: host_inv_def)
    moreover have "uint (rg_host r' + (b - rg_gva r')) \<in> guest_range (rg_host r') (rg_size r')"
      unfolding host_offset [OF ok' r'(3)] using r'(3) by (auto simp: guest_range_def)
    moreover have "uint ?P + int ?n \<le> uint (rg_host r) + uint (rg_size r)" "uint (rg_host r) \<le> uint ?P"
      unfolding host_offset [OF okr(2) gr] using cont by auto
    ultimately show ?thesis
      using okr(2) by (subst unat_minus_less_iff) (auto simp: guest_range_def)
  qed
  show ?thesis
  proof (cases "oemu_memory_internal_find mem b 1 0")
    case None
    then have "\<not> unat (b - g) < ?n"
      using in_r r(2) by (auto simp: find_miss region_contains_byte_iff)
    with None show ?thesis by (simp add: guest_byte_def)
  next
    case (Some r')
    then have r': "r' \<in> set (mem_regions mem)" "uint b \<in> guest_range (rg_gva r') (rg_size r')"
      using find_hit [OF Some] by (auto simp: region_contains_byte_iff)
    show ?thesis
    proof (cases "r' = r")
      case True
      then show ?thesis using Some same [of r] by (simp add: guest_byte_def memcpy_to_def algebra_simps)
    next
      case False
      then have "\<not> unat (b - g) < ?n"
        using in_r r'(2) regions_disjoint [of rg_gva mem r r'] inv(1) r(2) r'(1)
        by (auto simp: mem_inv_def)
      with False Some other [OF r'(1) False r'(2)] show ?thesis
        by (simp add: guest_byte_def memcpy_to_def)
    qed
  qed
qed

lemma memcpy_from_guest:
  assumes "mem_inv mem" "oemu_memory_internal_find mem g (of_nat n) p = Some r" "n < 2 ^ 64"
  shows "memcpy_from h (rg_host r + (g - rg_gva r)) n =
    map (\<lambda>i. the (guest_byte (mem, h) (g + of_nat i))) [0..<n]"
proof -
  have un: "uint (of_nat n :: u64) = int n" using assms(3) by (simp add: uint_nat unat_of_nat)
  from find_hit [OF assms(2)] have r: "r \<in> set (mem_regions mem)" "region_contains r g (of_nat n)" by auto
  then have ok: "uint (rg_gva r) + uint (rg_size r) \<le> 2 ^ 64"
    using assms(1) by (auto simp: mem_inv_def list_all_iff region_ok_def)
  have "guest_byte (mem, h) (g + of_nat i) = Some (h (rg_host r + (g - rg_gva r) + of_nat i))" if "i < n" for i
  proof -
    have i: "uint (of_nat i :: u64) = int i" using that assms(3) by (simp add: uint_nat unat_of_nat)
    have "uint g + int i < 2 ^ 64" using r(2) un ok that by (simp add: region_contains_def)
    then have "uint (g + of_nat i) = uint g + int i"
      by (simp only: uint_word_ariths i) simp
    then show ?thesis
      using r un that unfolding guest_byte_Some_iff [OF assms(1)]
      by (intro bexI [of _ r]) (auto simp: guest_range_def region_contains_def algebra_simps)
  qed
  then show ?thesis by (simp add: memcpy_from_def)
qed

section \<open>Little-endian assembly\<close>

lemma bit_disassemble:
  assumes "k < 64"
  shows "bit (oemu_memory_internal_disassemble bs n) k \<longleftrightarrow> k < 8 * n \<and> bit (bs ! (k div 8)) (k mod 8)"
proof (induction n)
  case 0
  then show ?case by (simp add: oemu_memory_internal_disassemble_def)
next
  case (Suc n)
  have "bit (push_bit (8 * n) (ucast (bs ! n) :: u64)) k \<longleftrightarrow> 8 * n \<le> k \<and> k < 8 * Suc n \<and> bit (bs ! (k div 8)) (k mod 8)"
  proof (cases "8 * n \<le> k \<and> k < 8 * Suc n")
    case True
    then have "k div 8 = n" "k mod 8 = k - 8 * n" by (auto simp: div_nat_eqI minus_mult_div_eq_mod [symmetric])
    with True assms show ?thesis by (auto simp: bit_simps)
  next
    case False
    then show ?thesis using bit_imp_le_length [of "bs ! n" "k - 8 * n"] by (auto simp: bit_simps)
  qed
  with Suc show ?case by (auto simp: oemu_memory_internal_disassemble_def bit_simps)
qed

lemma length_assemble [simp]: "length (oemu_memory_internal_assemble n v) = n"
  by (simp add: oemu_memory_internal_assemble_def)

lemma byte_mask: "(0xFF :: u64) = mask 8"
  by (simp add: mask_eq_exp_minus_1)

lemma nth_assemble: "i < n \<Longrightarrow> oemu_memory_internal_assemble n v ! i = ucast (drop_bit (8 * i) v)"
  by (auto simp: oemu_memory_internal_assemble_def byte_mask bit_simps intro!: bit_word_eqI)

lemma disassemble_assemble:
  "oemu_memory_internal_disassemble (oemu_memory_internal_assemble n v) n = take_bit (8 * n) v"
proof (rule bit_word_eqI)
  fix k assume k: "k < LENGTH(64)"
  show "bit (oemu_memory_internal_disassemble (oemu_memory_internal_assemble n v) n) k = bit (take_bit (8 * n) v) k"
    using k by (auto simp: bit_disassemble nth_assemble bit_simps)
qed

lemma sign_extend_read:
  assumes "n \<in> {1, 2, 4, 8 :: nat}"
  shows "(if take_bit (8 * n) v AND push_bit (8 * n - 1) 1 \<noteq> 0
     then take_bit (8 * n) v OR NOT (drop_bit (64 - 8 * n) 0xFFFFFFFFFFFFFFFF)
     else take_bit (8 * n) v) = (signed_take_bit (8 * n - 1) v :: u64)"
proof -
  have ones: "drop_bit (64 - 8 * n) 0xFFFFFFFFFFFFFFFF = (mask (8 * n) :: u64)"
    using assms by (elim insertE) (simp_all add: mask_eq_exp_minus_1)
  have n: "0 < n" "8 * n \<le> 64" using assms by auto
  show ?thesis unfolding ones and_push_bit_ne_0_iff
  proof (rule bit_word_eqI)
    fix k assume k: "k < LENGTH(64)"
    show "bit (if bit (take_bit (8 * n) v) (8 * n - 1) then take_bit (8 * n) v OR NOT (mask (8 * n))
       else take_bit (8 * n) v) k = bit (signed_take_bit (8 * n - 1) v) k"
      using n k by (cases "k = 8 * n - 1"; cases "k < 8 * n") (auto simp: bit_simps min_def)
  qed
qed

lemma mem_size_bytes:
  "sz \<noteq> OEMU_MEM_128 \<Longrightarrow> 2 ^ mem_size_val sz \<in> {1, 2, 4, 8 :: nat}"
  "of_nat (2 ^ mem_size_val sz) = transfer_bytes sz"
  by (cases sz; simp)+

lemma write_read_back:
  assumes inv: "mem_inv mem" "host_inv mem" and sz: "sz \<noteq> OEMU_MEM_128"
    and w: "oemu_memory_validate mem g (transfer_bytes sz) OEMU_PERM_WRITE = OEMU_OK"
  shows "\<exists>h'. oemu_memory_write (mem, h) g sz v = (OEMU_OK, (mem, h')) \<and>
    (\<forall>b. guest_byte (mem, h') b =
       (if unat (b - g) < 2 ^ mem_size_val sz then Some (ucast (drop_bit (8 * unat (b - g)) v))
        else guest_byte (mem, h) b)) \<and>
    (oemu_memory_validate mem g (transfer_bytes sz) OEMU_PERM_READ = OEMU_OK \<longrightarrow>
       oemu_memory_read (mem, h') g sz sx =
         Inr (if sx then signed_take_bit (8 * 2 ^ mem_size_val sz - 1) v
              else take_bit (8 * 2 ^ mem_size_val sz) v))"
proof -
  let ?n = "2 ^ mem_size_val sz :: nat" and ?bs = "oemu_memory_internal_assemble (2 ^ mem_size_val sz) v"
  have n: "?n \<in> {1, 2, 4, 8}" and n64: "?n < 2 ^ 64" using mem_size_bytes(1) [OF sz] by auto
  have tb: "of_nat ?n = transfer_bytes sz" by (rule mem_size_bytes)
  from w obtain r where hit: "oemu_memory_internal_find mem g (of_nat ?n) OEMU_PERM_WRITE = Some r"
    unfolding tb by (auto simp: oemu_memory_validate_def split: if_splits)
  let ?h = "memcpy_to h (rg_host r + (g - rg_gva r)) ?bs"
  have W: "oemu_memory_write (mem, h) g sz v = (OEMU_OK, (mem, ?h))"
    using hit by (simp add: oemu_memory_write_def Let_def)
  have B: "guest_byte (mem, ?h) b = (if unat (b - g) < ?n then Some (ucast (drop_bit (8 * unat (b - g)) v))
      else guest_byte (mem, h) b)" for b
    using guest_byte_memcpy [of mem g ?bs OEMU_PERM_WRITE r h b] inv hit n64 by (simp add: nth_assemble)
  have R: "oemu_memory_read (mem, ?h) g sz sx =
      Inr (if sx then signed_take_bit (8 * ?n - 1) v else take_bit (8 * ?n) v)"
    if rd: "oemu_memory_validate mem g (transfer_bytes sz) OEMU_PERM_READ = OEMU_OK"
  proof -
    from rd obtain r' where hit': "oemu_memory_internal_find mem g (of_nat ?n) OEMU_PERM_READ = Some r'"
      unfolding tb by (auto simp: oemu_memory_validate_def split: if_splits)
    have "memcpy_from ?h (rg_host r' + (g - rg_gva r')) ?n = map (\<lambda>i. ?bs ! i) [0..<?n]"
      unfolding memcpy_from_guest [OF inv(1) hit' n64] using n
      by (intro map_cong refl) (auto simp: B nth_assemble unat_of_nat)
    also have "\<dots> = ?bs" using map_nth [of ?bs] by simp
    finally have "oemu_memory_internal_disassemble (memcpy_from ?h (rg_host r' + (g - rg_gva r')) ?n) ?n =
        take_bit (8 * ?n) v" by (simp only: disassemble_assemble)
    then show ?thesis
      using hit' sign_extend_read [OF n, of v]
      by (auto simp: oemu_memory_read_def Let_def split: if_splits)
  qed
  show ?thesis using W B R by blast
qed

text \<open>
  Property C9. A store to flat memory is read back: on a sound region table with disjoint backing
  blocks, a write that validation allows changes exactly the guest bytes of its range, to the value's
  bytes in little-endian order, leaves every other guest byte as it was, and a read of the same range
  and size returns the value truncated to the size, sign-extended when asked. The table itself is
  unchanged.
\<close>

theorem memory_write_read:
  assumes inv: "mem_inv mem" "host_inv mem" and sz: "sz \<noteq> OEMU_MEM_128"
    and w: "oemu_memory_validate mem g (transfer_bytes sz) OEMU_PERM_WRITE = OEMU_OK"
  shows "\<exists>h'. oemu_memory_write (mem, h) g sz v = (OEMU_OK, (mem, h')) \<and>
    (\<forall>b. guest_byte (mem, h') b =
       (if unat (b - g) < 2 ^ mem_size_val sz then Some (ucast (drop_bit (8 * unat (b - g)) v))
        else guest_byte (mem, h) b)) \<and>
    (oemu_memory_validate mem g (transfer_bytes sz) OEMU_PERM_READ = OEMU_OK \<longrightarrow>
       oemu_memory_read (mem, h') g sz sx =
         Inr (if sx then signed_take_bit (8 * 2 ^ mem_size_val sz - 1) v
              else take_bit (8 * 2 ^ mem_size_val sz) v))"
  by (rule write_read_back [OF assms])

section \<open>Mapping\<close>

definition new_region :: "u64 \<Rightarrow> u64 \<Rightarrow> u32 \<Rightarrow> u64 \<Rightarrow> bool \<Rightarrow> oemu_memory_region" where
  "new_region gva sz perms host owned =
     \<lparr>rg_gva = gva, rg_size = sz, rg_perms = perms, rg_host = host, rg_owned = owned\<rparr>"

text \<open>The conditions under which a range can be added, in the terms of the documentation.\<close>

definition can_map :: "oemu_memory \<Rightarrow> u64 \<Rightarrow> u64 \<Rightarrow> u32 \<Rightarrow> bool" where
  "can_map mem gva sz perms \<longleftrightarrow> sz \<noteq> 0 \<and> perms \<noteq> 0 \<and> uint gva + uint sz \<le> 2 ^ 64 \<and>
     length (mem_regions mem) < mem_capacity mem \<and>
     (\<forall>r \<in> set (mem_regions mem). guest_range gva sz \<inter> guest_range (rg_gva r) (rg_size r) = {})"

lemma no_overlap_iff:
  assumes "mem_inv mem" "sz \<noteq> 0"
  shows "(\<exists>r \<in> set (mem_regions mem). oemu_memory_internal_ranges_overlap gva sz (rg_gva r) (rg_size r)) \<longleftrightarrow>
    \<not> (\<forall>r \<in> set (mem_regions mem). guest_range gva sz \<inter> guest_range (rg_gva r) (rg_size r) = {})"
  using assms ranges_overlap_iff [of sz _ gva]
  by (auto simp: mem_inv_def list_all_iff region_ok_def word_neq_0_conv)

lemma mem_inv_add:
  assumes "mem_inv mem" "can_map mem gva sz perms"
  shows "mem_inv (mem\<lparr>mem_regions := mem_regions mem @ [new_region gva sz perms host owned]\<rparr>)"
  using assms
  by (auto simp: mem_inv_def can_map_def new_region_def region_ok_def sorted_wrt_append Int_commute)

lemma host_inv_add:
  assumes "host_inv mem" "fresh_block mem host sz"
  shows "host_inv (mem\<lparr>mem_regions := mem_regions mem @ [new_region gva sz perms host owned]\<rparr>)"
  using assms by (auto simp: host_inv_def fresh_block_def new_region_def sorted_wrt_append)

lemma memory_map_status:
  assumes "mem_inv mem"
  shows "memory_map block gva host sz perms owned contents csz (mem, h) =
    (if sz = 0 \<or> perms = 0 then (OEMU_ERR_INVALID_ARG, (mem, h))
     else if \<not> uint gva + uint sz \<le> 2 ^ 64 then (OEMU_ERR_OVERFLOW, (mem, h))
     else if \<not> can_map mem gva sz perms then (OEMU_ERR_RANGE, (mem, h))
     else if owned
     then if csz > sz \<or> contents = None \<and> csz > 0 then (OEMU_ERR_INVALID_ARG, (mem, h))
          else case block of
            None \<Rightarrow> (OEMU_ERR_NO_MEMORY, (mem, h))
          | Some b \<Rightarrow> (OEMU_OK,
              (mem\<lparr>mem_regions := mem_regions mem @ [new_region gva sz perms b owned]\<rparr>,
               (if csz > 0 then memcpy_to (memset_zero h b sz) b (take (unat csz) (the contents))
                else memset_zero h b sz)))
     else (OEMU_OK,
       (mem\<lparr>mem_regions := mem_regions mem @ [new_region gva sz perms host owned]\<rparr>, h)))"
proof -
  obtain tb where t: "mem_table mem = Some tb" using assms by (auto simp: mem_inv_def)
  have a: "oemu_memory_internal_check_map_args gva sz perms =
      (if sz = 0 \<or> perms = 0 then OEMU_ERR_INVALID_ARG
       else if \<not> uint gva + uint sz \<le> 2 ^ 64 then OEMU_ERR_OVERFLOW else OEMU_OK)"
    using check_map_args_ok [of gva sz perms]
    by (auto simp: oemu_memory_internal_check_map_args_def split: if_splits)
  show ?thesis
  proof (cases "sz = 0 \<or> perms = 0 \<or> \<not> uint gva + uint sz \<le> 2 ^ 64")
    case True
    with t show ?thesis
      unfolding memory_map_def split_conv Let_def a by (cases "sz = 0 \<or> perms = 0") simp_all
  next
    case False
    then have ok: "oemu_memory_internal_check_map_args gva sz perms = OEMU_OK" by (simp add: a)
    have n: "can_map mem gva sz perms \<longleftrightarrow> \<not> length (mem_regions mem) \<ge> mem_capacity mem \<and>
        \<not> (\<exists>r \<in> set (mem_regions mem). oemu_memory_internal_ranges_overlap gva sz (rg_gva r) (rg_size r))"
      using False no_overlap_iff [OF assms, of sz gva] by (auto simp: can_map_def not_le)
    show ?thesis
    proof (cases "can_map mem gva sz perms")
      case True
      with n False t show ?thesis
        unfolding memory_map_def split_conv Let_def ok new_region_def by (simp split: option.split)
    next
      case False
      with n \<open>\<not> (sz = 0 \<or> perms = 0 \<or> \<not> uint gva + uint sz \<le> 2 ^ 64)\<close> t show ?thesis
        unfolding memory_map_def split_conv Let_def ok by auto
    qed
  qed
qed

text \<open>
  Property C10. Mapping keeps the region table sound and says precisely why it refuses: on a sound
  table a request for zero bytes or no permissions is an invalid argument, one that runs past the
  top of the address space an overflow (a range that ends exactly there is accepted), one that meets
  an existing region or a full table a range error, an allocator failure is out of memory, and each
  refusal leaves table and memory untouched; a request that is none of these succeeds, adds exactly
  one region, and with a fresh backing block keeps both the guest and the host side disjoint.
\<close>

theorem memory_map_sound:
  assumes "mem_inv mem" "host_inv mem" "\<And>b. block = Some b \<Longrightarrow> fresh_block mem b sz"
  shows "\<exists>st mem' h'. oemu_memory_map block gva sz perms (mem, h) = (st, (mem', h')) \<and>
    (st \<noteq> OEMU_OK \<longrightarrow> mem' = mem \<and> h' = h) \<and>
    st = (if sz = 0 \<or> perms = 0 then OEMU_ERR_INVALID_ARG
          else if \<not> uint gva + uint sz \<le> 2 ^ 64 then OEMU_ERR_OVERFLOW
          else if \<not> can_map mem gva sz perms then OEMU_ERR_RANGE
          else if block = None then OEMU_ERR_NO_MEMORY else OEMU_OK) \<and>
    (st = OEMU_OK \<longrightarrow> mem_regions mem' = mem_regions mem @ [new_region gva sz perms (the block) True]) \<and>
    mem_inv mem' \<and> host_inv mem'"
  using assms mem_inv_add [OF assms(1), of gva sz perms] host_inv_add [OF assms(2), of _ sz]
  by (auto simp: oemu_memory_map_def memory_map_status split: option.split)

theorem memory_map_sound_witness:
  "\<exists>st mem' h'. oemu_memory_map (Some 0x7000) 0x10000 0x1000 OEMU_PERM_ALL
      (\<lparr>mem_table = Some 0x100, mem_regions = [], mem_capacity = 4\<rparr>, \<lambda>_. 0) = (st, (mem', h')) \<and>
    st = OEMU_OK \<and> mem_inv mem' \<and> host_inv mem'"
  using memory_map_sound [of "\<lparr>mem_table = Some 0x100, mem_regions = [], mem_capacity = 4\<rparr>"
      "Some 0x7000" "0x1000" "0x10000" OEMU_PERM_ALL "\<lambda>_. 0"]
  by (auto simp: mem_inv_def host_inv_def fresh_block_def can_map_def)

lemma guest_byte_add:
  assumes "mem_inv mem" "can_map mem gva sz perms"
    and "mem' = mem\<lparr>mem_regions := mem_regions mem @ [new_region gva sz perms host owned]\<rparr>"
  shows "guest_byte (mem', h) b =
    (if uint b \<in> guest_range gva sz then Some (h (host + (b - gva))) else guest_byte (mem, h) b)"
proof -
  have inv': "mem_inv mem'" using mem_inv_add [OF assms(1,2)] assms(3) by simp
  show ?thesis
  proof (cases "uint b \<in> guest_range gva sz")
    case True
    then have "guest_byte (mem', h) b = Some (h (host + (b - gva)))"
      unfolding guest_byte_Some_iff [OF inv'] unfolding assms(3)
      by (intro bexI [of _ "new_region gva sz perms host owned"]) (auto simp: new_region_def)
    with True show ?thesis by simp
  next
    case False
    then have "guest_byte (mem', h) b = Some v \<longleftrightarrow> guest_byte (mem, h) b = Some v" for v
      unfolding guest_byte_Some_iff [OF inv'] guest_byte_Some_iff [OF assms(1)] unfolding assms(3)
      by (auto simp: new_region_def)
    with False show ?thesis by (metis not_None_eq)
  qed
qed

text \<open>Writing inside a block no region uses is invisible to the guest.\<close>

lemma guest_byte_frame:
  assumes "mem_inv mem" "host_inv mem" "fresh_block mem p n"
    and "\<And>a. uint a \<notin> guest_range p n \<Longrightarrow> h' a = h a"
  shows "guest_byte (mem, h') b = guest_byte (mem, h) b"
proof -
  have "h' (rg_host r + (b - rg_gva r)) = h (rg_host r + (b - rg_gva r))"
    if r: "r \<in> set (mem_regions mem)" "uint b \<in> guest_range (rg_gva r) (rg_size r)" for r
  proof -
    have "uint (rg_host r) + uint (rg_size r) \<le> 2 ^ 64"
      using assms(2) r(1) by (auto simp: host_inv_def list_all_iff)
    then have "uint (rg_host r + (b - rg_gva r)) \<in> guest_range (rg_host r) (rg_size r)"
      using r(2) by (subst host_offset) (auto simp: guest_range_def)
    then show ?thesis using assms(3,4) r(1) unfolding fresh_block_def by blast
  qed
  then have "guest_byte (mem, h') b = Some v \<longleftrightarrow> guest_byte (mem, h) b = Some v" for v
    unfolding guest_byte_Some_iff [OF assms(1)] by auto
  then show ?thesis by (metis not_None_eq)
qed

lemma in_block_iff:
  assumes "uint p + uint n \<le> 2 ^ 64"
  shows "a - p < n \<longleftrightarrow> uint a \<in> guest_range p (n :: u64)"
  using unat_minus_less_iff [of p "unat n" a] assms
  by (auto simp: guest_range_def word_less_nat_alt)

text \<open>
  A freshly mapped image: once mapping an image has succeeded, every address of the
  new region reads the image's byte, or zero past its end, and no other guest byte has changed.
\<close>

theorem memory_map_image_contents:
  assumes inv: "mem_inv mem" "host_inv mem" and fresh: "fresh_block mem blk sz"
    and len: "length bs < 2 ^ 64"
    and ok: "oemu_memory_map_image (Some blk) gva sz perms (Some bs) (of_nat (length bs)) (mem, h) = (OEMU_OK, st)"
  shows "guest_byte st b =
    (if b - gva < sz then Some (if unat (b - gva) < length bs then bs ! unat (b - gva) else 0)
     else guest_byte (mem, h) b)"
proof -
  let ?n = "of_nat (length bs) :: u64"
  let ?h = "if ?n > 0 then memcpy_to (memset_zero h blk sz) blk (take (unat ?n) bs) else memset_zero h blk sz"
  let ?mem = "mem\<lparr>mem_regions := mem_regions mem @ [new_region gva sz perms blk True]\<rparr>"
  have n: "unat ?n = length bs" using len by (simp add: unat_of_nat)
  have st: "can_map mem gva sz perms" "?n \<le> sz" "st = (?mem, ?h)"
    using ok unfolding oemu_memory_map_image_def memory_map_status [OF inv(1)] by (auto split: if_splits)
  have gr: "b - gva < sz \<longleftrightarrow> uint b \<in> guest_range gva sz"
    using st(1) by (intro in_block_iff) (simp add: can_map_def)
  have blk: "uint blk + uint sz \<le> 2 ^ 64" using fresh by (simp add: fresh_block_def)
  have le: "length bs \<le> unat sz" using st(2) n by (simp add: word_le_nat_alt)
  have "guest_byte (mem, ?h) b = guest_byte (mem, h) b"
    using le n by (intro guest_byte_frame [OF inv fresh])
      (auto simp: memcpy_to_def memset_zero_def in_block_iff [OF blk, symmetric] word_less_nat_alt)
  then show ?thesis
    unfolding st(3) guest_byte_add [OF inv(1) st(1) refl] gr [symmetric]
    using n by (auto simp: memcpy_to_def memset_zero_def word_less_nat_alt unat_eq_0)
qed

section \<open>The bus view\<close>

definition flat_inv :: "flat \<Rightarrow> bool" where
  "flat_inv st \<longleftrightarrow> mem_inv (fst st) \<and> host_inv (fst st)"

definition flat_accepts :: "flat \<Rightarrow> u64 \<Rightarrow> u64 \<Rightarrow> u32 \<Rightarrow> bool" where
  "flat_accepts st a n p \<longleftrightarrow> oemu_memory_validate (fst st) a n p = OEMU_OK"

lemma validate_find:
  "oemu_memory_validate mem a n p = OEMU_OK \<longleftrightarrow> oemu_memory_internal_find mem a n p \<noteq> None"
  by (simp add: oemu_memory_validate_def oemu_memory_internal_find_def)

lemma access_results:
  "(\<exists>v. oemu_memory_read st a sz sx = Inr v) \<longleftrightarrow> flat_accepts st a (transfer_bytes sz) OEMU_PERM_READ"
  "fst (oemu_memory_write st a sz v) = OEMU_OK \<longleftrightarrow> flat_accepts st a (transfer_bytes sz) OEMU_PERM_WRITE"
  "fst (snd (oemu_memory_write st a sz v)) = fst st"
  "(\<exists>w. oemu_memory_fetch32 st a = Inr w) \<longleftrightarrow> a AND 3 = 0 \<and> flat_accepts st a 4 OEMU_PERM_EXEC"
  "oemu_memory_fetch32 st a \<noteq> Inl OEMU_OK"
  by (cases st; auto simp: oemu_memory_read_def oemu_memory_write_def oemu_memory_fetch32_def
      flat_accepts_def validate_find mem_size_bytes(2) [simplified] Let_def split: option.split)+

lemma write_refused: "fst (oemu_memory_write st a sz v) \<noteq> OEMU_OK \<Longrightarrow> snd (oemu_memory_write st a sz v) = st"
  by (cases st) (auto simp: oemu_memory_write_def Let_def split: option.splits)

interpretation flat_bus: bus oemu_memory_memops flat_inv flat_accepts guest_byte
proof unfold_locales
  fix m a n p st m'
  show "flat_inv m \<Longrightarrow> mo_validate oemu_memory_memops m a n p = (st, m') \<Longrightarrow>
    flat_inv m' \<and> flat_accepts m' = flat_accepts m \<and> guest_byte m' = guest_byte m \<and>
    (st = OEMU_OK) = flat_accepts m a n p"
    by (auto simp: oemu_memory_memops_def flat_accepts_def)
next
  fix m sz a sx r m'
  show "flat_inv m \<Longrightarrow> mo_read oemu_memory_memops m a sz sx = (r, m') \<Longrightarrow>
    flat_inv m' \<and> flat_accepts m' = flat_accepts m \<and> guest_byte m' = guest_byte m \<and>
    (sz \<noteq> OEMU_MEM_128 \<and> flat_accepts m a (transfer_bytes sz) OEMU_PERM_READ \<longrightarrow> (\<exists>v. r = Inr v))"
    using access_results(1) [of m a sz sx] by (auto simp: oemu_memory_memops_def)
next
  fix m sz a v st m'
  show "flat_inv m \<Longrightarrow> mo_write oemu_memory_memops m a sz v = (st, m') \<Longrightarrow>
    flat_inv m' \<and> flat_accepts m' = flat_accepts m \<and> (st \<noteq> OEMU_OK \<longrightarrow> guest_byte m' = guest_byte m) \<and>
    (sz \<noteq> OEMU_MEM_128 \<and> flat_accepts m a (transfer_bytes sz) OEMU_PERM_WRITE \<longrightarrow> st = OEMU_OK)"
    using access_results(2,3) [of m a sz v] write_refused [of m a sz v]
    by (auto simp: oemu_memory_memops_def flat_inv_def flat_accepts_def fun_eq_iff)
next
  fix m a r m'
  show "flat_inv m \<Longrightarrow> mo_fetch32 oemu_memory_memops m a = (r, m') \<Longrightarrow>
    flat_inv m' \<and> flat_accepts m' = flat_accepts m \<and> guest_byte m' = guest_byte m \<and> r \<noteq> Inl OEMU_OK"
    using access_results(5) [of m a] by (auto simp: oemu_memory_memops_def)
qed

text \<open>
  Validation is the whole truth about access: on a sound table, validation succeeds
  exactly when one region with the permissions contains the byte range, compared as unbounded
  integers so that nothing wraps at the top of the address space; that region is then unique; and a
  read, a write or an aligned fetch succeeds exactly when validation with its permission does.
\<close>

theorem memory_access_iff:
  assumes "mem_inv mem"
  shows "(oemu_memory_validate mem a n p = OEMU_OK \<longleftrightarrow> n \<noteq> 0 \<and>
      (\<exists>!r. r \<in> set (mem_regions mem) \<and> rg_perms r AND p = p \<and> region_contains r a n)) \<and>
    ((\<exists>v. oemu_memory_read (mem, h) a sz sx = Inr v) \<longleftrightarrow>
       oemu_memory_validate mem a (transfer_bytes sz) OEMU_PERM_READ = OEMU_OK) \<and>
    (fst (oemu_memory_write (mem, h) a sz v) = OEMU_OK \<longleftrightarrow>
       oemu_memory_validate mem a (transfer_bytes sz) OEMU_PERM_WRITE = OEMU_OK) \<and>
    ((\<exists>w. oemu_memory_fetch32 (mem, h) a = Inr w) \<longleftrightarrow>
       a AND 3 = 0 \<and> oemu_memory_validate mem a 4 OEMU_PERM_EXEC = OEMU_OK)"
proof -
  have "oemu_memory_validate mem a n p = OEMU_OK \<longleftrightarrow> (\<exists>r. oemu_memory_internal_find mem a n p = Some r)"
    by (auto simp: validate_find)
  also have "\<dots> \<longleftrightarrow> n \<noteq> 0 \<and>
      (\<exists>!r. r \<in> set (mem_regions mem) \<and> rg_perms r AND p = p \<and> region_contains r a n)"
    using find_iff [OF assms, of a n p] by (metis option.inject)
  finally show ?thesis
    using access_results(1,2,4) [of "(mem, h)" a] by (simp add: flat_accepts_def)
qed

text \<open>A sound two-region memory for the concrete instances: text and data.\<close>

definition sample_mem :: oemu_memory where
  "sample_mem = \<lparr>mem_table = Some 0x100,
     mem_regions = [new_region 0x10000 0x1000 5 0x7000 True, new_region 0x20000 0x1000 3 0x9000 True],
     mem_capacity = 4\<rparr>"

lemma sample_mem_inv [simp]: "mem_inv sample_mem" "host_inv sample_mem"
  by (auto simp: sample_mem_def mem_inv_def host_inv_def new_region_def region_ok_def guest_range_def)

theorem memory_access_iff_witness:
  "oemu_memory_validate sample_mem 0x20FF8 8 OEMU_PERM_WRITE = OEMU_OK \<and>
   fst (oemu_memory_write (sample_mem, \<lambda>_. 0) 0x20FF8 OEMU_MEM_DWORD 7) = OEMU_OK"
  using memory_access_iff [OF sample_mem_inv(1), of "0x20FF8" 8 OEMU_PERM_WRITE "\<lambda>_. 0" OEMU_MEM_DWORD False 7]
  by (simp add: sample_mem_def oemu_memory_validate_def oemu_memory_internal_find_def new_region_def)

theorem memory_write_read_witness:
  "\<exists>h'. oemu_memory_write (sample_mem, \<lambda>_. 0) 0x20FF8 OEMU_MEM_HALF 0x12FEDC = (OEMU_OK, (sample_mem, h')) \<and>
     oemu_memory_read (sample_mem, h') 0x20FF8 OEMU_MEM_HALF True = Inr 0xFFFFFFFFFFFFFEDC"
  using memory_write_read [OF sample_mem_inv, of OEMU_MEM_HALF "0x20FF8" "\<lambda>_. 0" "0x12FEDC" True]
  by (auto simp: sample_mem_def oemu_memory_validate_def oemu_memory_internal_find_def new_region_def)

theorem memory_map_image_contents_witness:
  "guest_byte (snd (oemu_memory_map_image (Some 0xB000) 0x30000 0x1000 OEMU_PERM_READ (Some [0xAB, 0xCD])
     2 (sample_mem, \<lambda>_. 1))) 0x30001 = Some 0xCD"
  using memory_map_image_contents [OF sample_mem_inv, of "0xB000" "0x1000" "[0xAB, 0xCD]" "0x30000"
      OEMU_PERM_READ "\<lambda>_. 1" _ "0x30001"]
  by (simp add: sample_mem_def fresh_block_def new_region_def guest_range_def
      oemu_memory_map_image_def memory_map_def Let_def oemu_memory_internal_check_map_args_def
      oemu_memory_internal_ranges_overlap_def)

end
