(* ===== verification/Oemu_Sysenv.thy ===== *)
theory Oemu_Sysenv
  imports Oemu_Exec_Safe Oemu_Memory
begin

text \<open>
  The user-mode environment (\<^verbatim>\<open>src/core/sysenv.c\<close>): exit, write, clock_gettime and the refusal of
  everything else, over any bus. The host's side is a parameter: \<open>hw out chunk\<close> is how many bytes of
  \<open>chunk\<close> the stream accepts when \<open>out\<close> has been written to it, and \<open>clk k id\<close> is what the \<open>k\<close>-th
  reading of clock \<open>id\<close> returns, \<^const>\<open>None\<close> when the host call fails. The bytes that have reached the
  stream and the number of clock readings are part of the environment's state.
\<close>

record oemu_sysenv =
  se_out :: "u8 list"
  se_clock_reads :: nat
  se_exit_code :: u32
  se_exited :: bool

record host =
  hw :: "u8 list \<Rightarrow> u8 list \<Rightarrow> nat"
  clk :: "nat \<Rightarrow> u64 \<Rightarrow> (u64 \<times> u64) option"

abbreviation (input) OEMU_SYS_WRITE :: u64 where "OEMU_SYS_WRITE \<equiv> 64"
abbreviation (input) OEMU_SYS_EXIT :: u64 where "OEMU_SYS_EXIT \<equiv> 93"
abbreviation (input) OEMU_SYS_EXIT_GROUP :: u64 where "OEMU_SYS_EXIT_GROUP \<equiv> 94"
abbreviation (input) OEMU_SYS_CLOCK_GETTIME :: u64 where "OEMU_SYS_CLOCK_GETTIME \<equiv> 113"
abbreviation (input) OEMU_EBADF :: i64 where "OEMU_EBADF \<equiv> 9"
abbreviation (input) OEMU_EINVAL :: i64 where "OEMU_EINVAL \<equiv> 22"
abbreviation (input) OEMU_EFAULT :: i64 where "OEMU_EFAULT \<equiv> 14"
abbreviation (input) OEMU_ENOSYS :: i64 where "OEMU_ENOSYS \<equiv> 38"

definition oemu_sysenv_init :: oemu_sysenv where
  "oemu_sysenv_init = \<lparr>se_out = [], se_clock_reads = 0, se_exit_code = 0, se_exited = False\<rparr>"

definition oemu_sysenv_exited :: "oemu_sysenv \<Rightarrow> bool" where
  "oemu_sysenv_exited env = se_exited env"

definition oemu_sysenv_exit_code :: "oemu_sysenv \<Rightarrow> u32" where
  "oemu_sysenv_exit_code env = (if se_exited env then se_exit_code env else 0)"

section \<open>System calls\<close>

text \<open>The inner loop of \<^verbatim>\<open>sys_write\<close>: \<open>n\<close> bytes from \<open>a\<close>, one bus read each; \<^const>\<open>None\<close> at the first
  read that fails.\<close>

primrec read_chunk :: "'m oemu_memops \<Rightarrow> 'm \<Rightarrow> u64 \<Rightarrow> nat \<Rightarrow> u8 list option \<times> 'm" where
  "read_chunk mem m a 0 = (Some [], m)"
| "read_chunk mem m a (Suc n) =
     (case mo_read mem m a OEMU_MEM_BYTE False of
        (Inl st, m') \<Rightarrow> (None, m')
      | (Inr byte, m') \<Rightarrow>
          (case read_chunk mem m' (a + 1) n of
             (None, m'') \<Rightarrow> (None, m'')
           | (Some bs, m'') \<Rightarrow> (Some (ucast (byte AND 0xFF) # bs), m'')))"

text \<open>The outer loop: chunks of at most 256 bytes until all are written, a read fails, or the stream
  takes less than it was given. The standard lets \<^verbatim>\<open>fwrite\<close> accept at most what it is given, hence
  the minimum.\<close>

function write_loop ::
  "host \<Rightarrow> 'm oemu_memops \<Rightarrow> u64 \<Rightarrow> nat \<Rightarrow> nat \<Rightarrow> oemu_sysenv \<Rightarrow> 'm \<Rightarrow> i64 \<times> oemu_sysenv \<times> 'm" where
  "write_loop host mem buf count written env m =
     (if \<not> written < count then (of_nat written, env, m)
      else let want = min (count - written) 256
      in case read_chunk mem m (buf + of_nat written) want of
           (None, m') \<Rightarrow> ((if written > 0 then of_nat written else - OEMU_EFAULT), env, m')
         | (Some chunk, m') \<Rightarrow>
             let got = min (hw host (se_out env) chunk) want;
                 env' = env\<lparr>se_out := se_out env @ take got chunk\<rparr>
             in if got < want then (of_nat (written + got), env', m')
                else write_loop host mem buf count (written + got) env' m')"
  by pat_completeness auto
termination
  by (relation "measure (\<lambda>(host, mem, buf, count, written, env, m). count - written)") auto

declare write_loop.simps [simp del]

lemma write_loop_step:
  assumes "written < count" and want: "want = min (count - written) 256"
    and rc: "read_chunk mem m (buf + of_nat written) want = (c, m1)"
  shows "write_loop host mem buf count written env m =
    (case c of
       None \<Rightarrow> ((if written > 0 then of_nat written else - OEMU_EFAULT), env, m1)
     | Some chunk \<Rightarrow>
         if hw host (se_out env) chunk < want
         then (of_nat (written + hw host (se_out env) chunk),
               env\<lparr>se_out := se_out env @ take (hw host (se_out env) chunk) chunk\<rparr>, m1)
         else write_loop host mem buf count (written + want)
                (env\<lparr>se_out := se_out env @ take want chunk\<rparr>) m1)"
  by (subst write_loop.simps)
    (use assms in \<open>simp add: Let_def min_absorb1 min_absorb2 flip: want split: option.split\<close>)

definition sys_write ::
  "host \<Rightarrow> 'm oemu_memops \<Rightarrow> oemu_sysenv \<Rightarrow> 'm \<Rightarrow> u64 \<Rightarrow> u64 \<Rightarrow> u64 \<Rightarrow> i64 \<times> oemu_sysenv \<times> 'm" where
  "sys_write host mem env m fd buf count =
     (if fd \<noteq> 1 \<and> fd \<noteq> 2 then (- OEMU_EBADF, env, m)
      else if count = 0 then (0, env, m)
      else if count > 0xFFFFFFFFFFFFFFFF - buf then (- OEMU_EFAULT, env, m)
      else case mo_validate mem m buf count OEMU_PERM_READ of
        (st, m') \<Rightarrow> if st \<noteq> OEMU_OK then (- OEMU_EFAULT, env, m')
                    else write_loop host mem buf (unat count) 0 env m')"

definition sys_clock_gettime ::
  "host \<Rightarrow> 'm oemu_memops \<Rightarrow> oemu_sysenv \<Rightarrow> 'm \<Rightarrow> u64 \<Rightarrow> u64 \<Rightarrow> i64 \<times> oemu_sysenv \<times> 'm" where
  "sys_clock_gettime host mem env m clock_id ts_addr =
     (if clock_id \<noteq> 0 \<and> clock_id \<noteq> 1 then (- OEMU_EINVAL, env, m)
      else let env' = env\<lparr>se_clock_reads := se_clock_reads env + 1\<rparr>
      in case clk host (se_clock_reads env) clock_id of
           None \<Rightarrow> (- OEMU_EFAULT, env', m)
         | Some (sec, nsec) \<Rightarrow>
             (let (st1, m) = mo_validate mem m ts_addr 8 OEMU_PERM_WRITE
              in if st1 \<noteq> OEMU_OK then (- OEMU_EFAULT, env', m)
              else let (st2, m) = mo_validate mem m (ts_addr + 8) 8 OEMU_PERM_WRITE
              in if st2 \<noteq> OEMU_OK then (- OEMU_EFAULT, env', m)
              else let (w1, m) = mo_write mem m ts_addr OEMU_MEM_DWORD sec
              in if w1 \<noteq> OEMU_OK then (- OEMU_EFAULT, env', m)
              else let (w2, m) = mo_write mem m (ts_addr + 8) OEMU_MEM_DWORD nsec
              in if w2 \<noteq> OEMU_OK then (- OEMU_EFAULT, env', m)
              else (0, env', m)))"

definition sysenv_syscall_ops ::
  "host \<Rightarrow> 'm oemu_memops \<Rightarrow> oemu_sysenv \<Rightarrow> 'm \<Rightarrow> u64 \<Rightarrow> u64 list \<Rightarrow> i64 \<times> oemu_sysenv \<times> 'm" where
  "sysenv_syscall_ops host mem env m nr args =
     (if nr = OEMU_SYS_EXIT \<or> nr = OEMU_SYS_EXIT_GROUP
      then (0, env\<lparr>se_exit_code := ucast (args ! 0), se_exited := True\<rparr>, m)
      else if nr = OEMU_SYS_WRITE then sys_write host mem env m (args ! 0) (args ! 1) (args ! 2)
      else if nr = OEMU_SYS_CLOCK_GETTIME then sys_clock_gettime host mem env m (args ! 0) (args ! 1)
      else (- OEMU_ENOSYS, env, m))"

definition oemu_sysenv_envops :: "host \<Rightarrow> 'm oemu_memops \<Rightarrow> (oemu_sysenv, 'm) oemu_env_ops" where
  "oemu_sysenv_envops host mem =
     \<lparr>env_syscall = Some (\<lambda>env m nr args. sysenv_syscall_ops host mem env m nr args),
      env_halted = Some oemu_sysenv_exited, env_fw_call = None\<rparr>"

section \<open>The environment keeps the bus sound\<close>

locale user_bus = bus ops inv accepts content
  for ops :: "'m oemu_memops" and inv accepts and content :: "'m \<Rightarrow> 'c" +
  fixes host :: host
begin

lemma read_chunk_same: "inv m \<Longrightarrow> read_chunk ops m a n = (r, m') \<Longrightarrow> same m m'"
proof (induction n arbitrary: m a r)
  case (Suc n)
  obtain q m1 where rd: "mo_read ops m a OEMU_MEM_BYTE False = (q, m1)" by fastforce
  then have s: "same m m1" using read_law [OF Suc.prems(1) rd] by (simp add: same_def)
  show ?case
    using Suc.prems(2) rd s Suc.IH [OF same_inv [OF s], of "a + 1"] same_trans [OF s]
    by (auto split: sum.splits option.splits prod.splits)
qed simp

lemma write_loop_same:
  "inv m \<Longrightarrow> write_loop host ops buf count written env m = (r, env', m') \<Longrightarrow> same m m'"
proof (induction "count - written" arbitrary: written env m rule: less_induct)
  case less
  define want where "want = min (count - written) 256"
  obtain c m1 where rc: "read_chunk ops m (buf + of_nat written) want = (c, m1)" by fastforce
  then have s: "same m m1" using read_chunk_same [OF less.prems(1)] by blast
  show ?case
  proof (cases "written < count")
    case True
    note step = write_loop_step [OF True want_def rc]
    have "count - (written + want) < count - written" using True by (simp add: want_def)
    note IH = less.hyps [OF this same_inv [OF s]]
    show ?thesis
      using less.prems(2) step s IH same_trans [OF s] by (auto split: option.splits if_splits)
  next
    case False
    with less.prems show ?thesis by (simp add: write_loop.simps)
  qed
qed

lemma sys_write_same:
  assumes "inv m" "sys_write host ops env m fd buf count = (r, env', m')"
  shows "same m m'"
proof -
  obtain st m1 where v: "mo_validate ops m buf count OEMU_PERM_READ = (st, m1)" by fastforce
  have s: "same m m1" using validate_law [OF assms(1) v] by (simp add: same_def)
  show ?thesis
    using assms v s write_loop_same [OF same_inv [OF s]] same_trans [OF s]
    by (auto simp: sys_write_def split: if_splits)
qed

lemma sys_clock_sound:
  assumes "inv m" "sys_clock_gettime host ops env m c a = (r, env', m')"
  shows "inv m' \<and> accepts m' = accepts m"
proof -
  have V: "inv m2 \<and> accepts m2 = accepts m1" if "inv m1" "mo_validate ops m1 x n p = (st, m2)" for m1 m2 x n p st
    using validate_law [OF that] by blast
  have W: "inv m2 \<and> accepts m2 = accepts m1" if "inv m1" "mo_write ops m1 x sz v = (st, m2)" for m1 m2 x sz v st
    using write_law [OF that] by blast
  obtain s1 m1 where v1: "mo_validate ops m a 8 OEMU_PERM_WRITE = (s1, m1)" by fastforce
  obtain s2 m2 where v2: "mo_validate ops m1 (a + 8) 8 OEMU_PERM_WRITE = (s2, m2)" by fastforce
  note i1 = V [OF assms(1) v1]
  then have i2: "inv m2 \<and> accepts m2 = accepts m" using V [OF _ v2] by simp
  show ?thesis
  proof (cases "\<exists>sec nsec. clk host (se_clock_reads env) c = Some (sec, nsec)")
    case True
    then obtain sec nsec where k: "clk host (se_clock_reads env) c = Some (sec, nsec)" by blast
    obtain s3 m3 where w1: "mo_write ops m2 a OEMU_MEM_DWORD sec = (s3, m3)" by fastforce
    obtain s4 m4 where w2: "mo_write ops m3 (a + 8) OEMU_MEM_DWORD nsec = (s4, m4)" by fastforce
    have i3: "inv m3 \<and> accepts m3 = accepts m" using W [OF _ w1] i2 by simp
    then have i4: "inv m4 \<and> accepts m4 = accepts m" using W [OF _ w2] by simp
    from assms(2) have "m' \<in> {m, m1, m2, m3, m4}"
      by (simp add: sys_clock_gettime_def k v1 v2 w1 w2 Let_def split: if_splits)
    then show ?thesis using assms(1) i1 i2 i3 i4 by fast
  next
    case False
    then have "m' = m" using assms(2)
      by (cases "clk host (se_clock_reads env) c") (auto simp: sys_clock_gettime_def Let_def split: if_splits)
    then show ?thesis using assms(1) by simp
  qed
qed

lemma syscall_sound:
  assumes "inv m" "sysenv_syscall_ops host ops env m nr args = (r, env', m')"
  shows "inv m' \<and> accepts m' = accepts m"
  using assms sys_write_same [of m] sys_clock_sound [of m]
  by (auto simp: sysenv_syscall_ops_def same_def split: if_splits)

end

text \<open>The environment of the user-mode emulator meets the executor's contract on every sound bus.\<close>

sublocale user_bus \<subseteq> user: bus_env ops inv accepts content "oemu_sysenv_envops host ops"
  by unfold_locales (use syscall_sound in \<open>auto simp: oemu_sysenv_envops_def\<close>)

interpretation flat_user: user_bus oemu_memory_memops flat_inv flat_accepts guest_byte host for host
  by unfold_locales

section \<open>What write emits\<close>

lemma flat_read_byte:
  assumes "flat_inv st" "oemu_memory_validate (fst st) buf n OEMU_PERM_READ = OEMU_OK" "i < unat n"
  shows "mo_read oemu_memory_memops st (buf + of_nat i) OEMU_MEM_BYTE False =
    (Inr (ucast (the (guest_byte st (buf + of_nat i)))), st)"
proof -
  obtain mem h where st: "st = (mem, h)" by fastforce
  have inv: "mem_inv mem" using assms(1) st by (simp add: flat_inv_def)
  obtain r where f: "oemu_memory_internal_find mem buf n OEMU_PERM_READ = Some r"
    using assms(2) st by (auto simp: validate_find)
  note h = find_hit [OF f]
  have in_n: "int i < uint n" using assms(3) by (simp only: uint_nat of_nat_less_iff)
  then have "int i < 2 ^ 64" using uint_bounded [of n] by simp
  then have i: "uint (of_nat i :: u64) = int i"
    by (simp add: uint_word_of_int_eq unsigned_of_nat take_bit_nat_eq_self take_bit_int_eq_self)
  have ok: "uint (rg_gva r) + uint (rg_size r) \<le> 2 ^ 64"
    using inv h by (auto simp: mem_inv_def list_all_iff region_ok_def)
  have "uint buf + int i < 2 ^ 64" using h ok in_n by (simp add: region_contains_def)
  then have ub: "uint (buf + of_nat i) = uint buf + int i" by (simp only: uint_word_ariths i) simp
  then have "region_contains r (buf + of_nat i) 1"
    using h in_n by (simp add: region_contains_def)
  then have f1: "oemu_memory_internal_find mem (buf + of_nat i) (of_nat 1) OEMU_PERM_READ = Some r"
    using h find_unique [OF inv, of 1 r OEMU_PERM_READ "buf + of_nat i"] by simp
  have "memcpy_from h (rg_host r + (buf + of_nat i - rg_gva r)) 1 = [the (guest_byte st (buf + of_nat i))]"
    using memcpy_from_guest [OF inv f1, of h] st by simp
  moreover have "oemu_memory_internal_disassemble [x] 1 = ucast x" for x
    by (simp add: oemu_memory_internal_disassemble_def)
  ultimately show ?thesis
    using f1 st by (simp add: oemu_memory_memops_def oemu_memory_read_def Let_def)
qed

text \<open>The \<open>n\<close> guest bytes from \<open>buf\<close>.\<close>

definition guest_bytes :: "flat \<Rightarrow> u64 \<Rightarrow> nat \<Rightarrow> u8 list" where
  "guest_bytes st buf n = map (\<lambda>i. the (guest_byte st (buf + of_nat i))) [0..<n]"

lemma length_guest_bytes [simp]: "length (guest_bytes st buf n) = n"
  by (simp add: guest_bytes_def)

lemma guest_bytes_0 [simp]: "guest_bytes st buf 0 = []"
  by (simp add: guest_bytes_def)

lemma guest_bytes_add: "guest_bytes st buf (i + n) = guest_bytes st buf i @ guest_bytes st (buf + of_nat i) n"
  by (rule nth_equalityI) (auto simp: guest_bytes_def nth_append algebra_simps)

lemma take_guest_bytes: "k \<le> n \<Longrightarrow> take k (guest_bytes st buf n) = guest_bytes st buf k"
  by (simp add: guest_bytes_def take_map)

lemma guest_bytes_Suc: "guest_bytes st buf (Suc n) = the (guest_byte st buf) # guest_bytes st (buf + 1) n"
  using guest_bytes_add [of st buf 1 n] by (simp add: guest_bytes_def)

lemma flat_read_chunk:
  assumes "flat_inv st" "oemu_memory_validate (fst st) buf n OEMU_PERM_READ = OEMU_OK"
  shows "i + k \<le> unat n \<Longrightarrow>
    read_chunk oemu_memory_memops st (buf + of_nat i) k = (Some (guest_bytes st (buf + of_nat i) k), st)"
proof (induction k arbitrary: i)
  case (Suc k)
  have eq: "buf + of_nat (Suc i) = buf + of_nat i + 1" by (simp add: algebra_simps)
  have IH: "read_chunk oemu_memory_memops st (buf + of_nat i + 1) k =
      (Some (guest_bytes st (buf + of_nat i + 1) k), st)"
    using Suc.IH [of "Suc i"] Suc.prems by (simp only: eq)
  have byte: "ucast (ucast x AND 0xFF :: u64) = x" for x :: u8
  proof -
    have ff: "(0xFF :: u64) = mask 8" by (simp add: mask_eq_exp_minus_1)
    show ?thesis unfolding ff by (rule bit_word_eqI) (auto simp: bit_simps)
  qed
  show ?case using IH Suc.prems flat_read_byte [OF assms, of i] by (simp add: guest_bytes_Suc byte)
qed (simp add: guest_bytes_def)

lemma write_loop_flat:
  assumes "flat_inv st" "oemu_memory_validate (fst st) buf n OEMU_PERM_READ = OEMU_OK"
  shows "i \<le> unat n \<Longrightarrow> \<exists>k. i + k \<le> unat n \<and>
    write_loop host oemu_memory_memops buf (unat n) i env st =
      (of_nat (i + k), env\<lparr>se_out := se_out env @ guest_bytes st (buf + of_nat i) k\<rparr>, st) \<and>
    ((\<forall>out bs. hw host out bs \<ge> length bs) \<longrightarrow> i + k = unat n)"
proof (induction "unat n - i" arbitrary: i env rule: less_induct)
  case less
  show ?case
  proof (cases "i < unat n")
    case True
    define want where "want = min (unat n - i) 256"
    let ?chunk = "guest_bytes st (buf + of_nat i) want"
    let ?got = "hw host (se_out env) ?chunk"
    have "i + want \<le> unat n" using True by (simp add: want_def)
    note step = write_loop_step [OF True want_def flat_read_chunk [OF assms this], of host env]
    show ?thesis
    proof (cases "?got < want")
      case True
      have "take ?got ?chunk = guest_bytes st (buf + of_nat i) ?got"
        using True by (simp add: take_guest_bytes)
      moreover have "\<not> (\<forall>out bs. hw host out bs \<ge> length bs)"
        using True by (metis length_guest_bytes not_le)
      ultimately show ?thesis using step True \<open>i + want \<le> unat n\<close> by (intro exI [of _ ?got]) simp
    next
      case False
      have "unat n - (i + want) < unat n - i" using \<open>i < unat n\<close> by (simp add: want_def)
      from less.hyps [OF this \<open>i + want \<le> unat n\<close>, of "env\<lparr>se_out := se_out env @ ?chunk\<rparr>"]
      obtain k where k: "i + want + k \<le> unat n"
        "write_loop host oemu_memory_memops buf (unat n) (i + want) (env\<lparr>se_out := se_out env @ ?chunk\<rparr>) st =
          (of_nat (i + want + k), env\<lparr>se_out := (se_out env @ ?chunk) @
             guest_bytes st (buf + of_nat (i + want)) k\<rparr>, st)"
        "(\<forall>out bs. hw host out bs \<ge> length bs) \<longrightarrow> i + want + k = unat n"
        by auto
      have "guest_bytes st (buf + of_nat i) (want + k) = ?chunk @ guest_bytes st (buf + of_nat (i + want)) k"
        by (simp add: guest_bytes_add add.assoc)
      with step False k show ?thesis by (intro exI [of _ "want + k"]) (simp add: algebra_simps)
    qed
  next
    case False
    with less.prems show ?thesis
      by (intro exI [of _ 0]) (simp add: write_loop.simps guest_bytes_def)
  qed
qed

text \<open>
  Property C26. The write system call on a readable buffer of flat memory: whatever the host stream
  does, the value returned is the number of bytes that reached the stream, these are the first that
  many bytes of the guest's buffer in order, and the guest's memory is unchanged. When the stream takes
  all it is given the whole buffer is written, across as many 256-byte chunks as that needs.
\<close>

theorem sys_write_spec:
  assumes "flat_inv st" and "fd = 1 \<or> fd = 2" and "count \<noteq> 0" and "count \<le> 0xFFFFFFFFFFFFFFFF - buf"
    and "oemu_memory_validate (fst st) buf count OEMU_PERM_READ = OEMU_OK"
  shows "\<exists>n \<le> unat count.
    sys_write host oemu_memory_memops env st fd buf count =
      (of_nat n, env\<lparr>se_out := se_out env @ guest_bytes st buf n\<rparr>, st) \<and>
    ((\<forall>out bs. hw host out bs \<ge> length bs) \<longrightarrow> n = unat count)"
proof -
  have "mo_validate oemu_memory_memops st buf count OEMU_PERM_READ = (OEMU_OK, st)"
    using assms(5) by (cases st) (simp add: oemu_memory_memops_def)
  with assms write_loop_flat [OF assms(1,5), of 0 host env] show ?thesis
    by (auto simp: sys_write_def not_less)
qed

definition hello_heap :: heap where
  "hello_heap = (\<lambda>a. if a = 0x9000 then 0x68 else if a = 0x9001 then 0x69 else 0)"

theorem sys_write_spec_witness:
  "sys_write \<lparr>hw = \<lambda>out bs. length bs, clk = \<lambda>_ _. None\<rparr> oemu_memory_memops oemu_sysenv_init
     (sample_mem, hello_heap) 1 0x20000 2 = (2, oemu_sysenv_init\<lparr>se_out := [0x68, 0x69]\<rparr>, (sample_mem, hello_heap))"
proof -
  have v: "oemu_memory_validate sample_mem 0x20000 2 OEMU_PERM_READ = OEMU_OK"
    by (simp add: sample_mem_def oemu_memory_validate_def oemu_memory_internal_find_def new_region_def)
  have b: "guest_bytes (sample_mem, hello_heap) 0x20000 2 = [0x68, 0x69]"
    unfolding numeral_2_eq_2
    by (simp add: guest_bytes_Suc guest_byte_def sample_mem_def hello_heap_def
        oemu_memory_internal_find_def new_region_def word_le_nat_alt)
  show ?thesis
    using sys_write_spec [of "(sample_mem, hello_heap)" 1 2 "0x20000"
        "\<lparr>hw = \<lambda>out bs. length bs, clk = \<lambda>_ _. None\<rparr>" oemu_sysenv_init] v b
    by (simp add: flat_inv_def oemu_sysenv_init_def)
qed

text \<open>
  A buffer that ends exactly at the top of the address space does not wrap, and a region can hold
  it, but write answers EFAULT: the test that is meant to catch a wrapping range is one short.
\<close>

theorem sys_write_refuses_top:
  "mem_inv \<lparr>mem_table = Some 0x100, mem_regions = [new_region (- 0x1000) 0x1000 OEMU_PERM_READ 0xA000 True], mem_capacity = 8\<rparr>"
  "oemu_memory_validate \<lparr>mem_table = Some 0x100, mem_regions = [new_region (- 0x1000) 0x1000 OEMU_PERM_READ 0xA000 True],
     mem_capacity = 8\<rparr> (- 2) 2 OEMU_PERM_READ = OEMU_OK"
  "sys_write host mem env m 1 (- 2) 2 = (- OEMU_EFAULT, env, m)"
  by (auto simp: sys_write_def mem_inv_def new_region_def region_ok_def oemu_memory_validate_def
      oemu_memory_internal_find_def)

end
