(* ===== verification/Oemu_Exec_Props.thy ===== *)
theory Oemu_Exec_Props
  imports Oemu_Sysenv
begin

text \<open>
  What the interpreter guarantees on flat memory with the user-mode environment. The safety results
  are the bus lemmas at the interpretation for \<^verbatim>\<open>memory.c\<close> and \<^verbatim>\<open>sysenv.c\<close>; the functional ones say
  what single instructions and short sequences compute.
\<close>

section \<open>Stepping and running\<close>

text \<open>The environment argument of the user-mode entry points: absent, or the one of \<^verbatim>\<open>sysenv.c\<close>.\<close>

definition user_env :: "host \<Rightarrow> (oemu_sysenv, flat) oemu_env_ops option \<Rightarrow> bool" where
  "user_env host eo \<longleftrightarrow> eo = None \<or> eo = Some (oemu_sysenv_envops host oemu_memory_memops)"

lemma flat_env_ok: "user_env host eo \<Longrightarrow> flat_user.user.env_ok host eo"
  by (simp add: user_env_def flat_user.user.env_ok_def)

lemma run_loop_status:
  "run_loop n mem eo d cpu m e = Some (st, d', cpu', m', e') \<Longrightarrow>
    (st = OEMU_OK \<longrightarrow> envops_halted eo e') \<and> (\<not> envops_halted eo e' \<and> d' = d + n \<longrightarrow> st = OEMU_ERR_TIMEOUT)"
proof (induction n arbitrary: d cpu m e)
  case (Suc n)
  then obtain s io c2 m2 e2 where st: "oemu_exec_step_bus mem eo cpu m e = Some (s, io, c2, m2, e2)"
    by (auto simp: bind_eq_Some_conv)
  with Suc.prems Suc.IH [of "d + 1" c2 m2 e2] show ?case by (auto split: if_splits)
qed (auto split: if_splits)

lemma run_loop_count:
  "run_loop n mem eo (k + d) cpu m e = do {
     (st, d', cpu', m', e') \<leftarrow> run_loop n mem eo d cpu m e; Some (st, k + d', cpu', m', e') }"
proof (induction n arbitrary: d cpu m e)
  case (Suc n)
  show ?case
  proof (cases "oemu_exec_step_bus mem eo cpu m e")
    case (Some x)
    obtain s io c2 m2 e2 where "x = (s, io, c2, m2, e2)" by (metis prod_cases5)
    with Some Suc.IH [of "d + 1" c2 m2 e2] show ?thesis by simp
  qed simp
qed simp

text \<open>
  Property C1. Precise faults: on sound flat memory, a single step of the interpreter always returns,
  whatever word the guest has at its PC, so no contract check of the emulator can be tripped by
  guest code; it keeps the CPU and the memory sound and never changes which accesses are allowed; and
  when its status is not OK, the registers, the monitor, every guest byte and the environment are as
  they were before the step.
\<close>

theorem exec_step_precise:
  assumes "flat_inv m" and "cpu_inv cpu" and "user_env host eo"
  shows "\<exists>st io cpu' m' e'. oemu_exec_step_bus oemu_memory_memops eo cpu m e = Some (st, io, cpu', m', e') \<and>
    cpu_inv cpu' \<and> flat_inv m' \<and> flat_accepts m' = flat_accepts m \<and>
    (st = OEMU_OK \<or> cpu' = cpu \<and> guest_byte m' = guest_byte m \<and> e' = e)"
  using flat_user.user.step_precise [OF assms(1,2) flat_env_ok [OF assms(3)], of e]
  by (auto simp: wp_def flat_user.user.precise_e_def)

text \<open>
  Property C5. Running a guest: the run loop returns for every budget, executes at most that many
  instructions, keeps CPU and memory sound, reports OK only when the environment has halted, and
  reports a timeout when the budget is used up and the guest still runs.
\<close>

theorem exec_run_safe:
  assumes "flat_inv m" and "cpu_inv cpu" and "user_env host eo"
  shows "\<exists>st d cpu' m' e'. oemu_exec_run_bus oemu_memory_memops eo budget cpu m e = Some (st, d, cpu', m', e') \<and>
    d \<le> unat budget \<and> cpu_inv cpu' \<and> flat_inv m' \<and> flat_accepts m' = flat_accepts m \<and>
    (st = OEMU_OK \<longrightarrow> envops_halted eo e') \<and>
    (\<not> envops_halted eo e' \<and> d = unat budget \<longrightarrow> st = OEMU_ERR_TIMEOUT)"
proof -
  obtain st d cpu' m' e' where r: "run_loop (unat budget) oemu_memory_memops eo 0 cpu m e = Some (st, d, cpu', m', e')"
    "cpu_inv cpu'" "flat_inv m'" "flat_accepts m' = flat_accepts m" "d \<le> unat budget"
    using flat_user.user.run_loop_safe [OF assms(1,2) flat_env_ok [OF assms(3)], of "unat budget" 0 e]
    by (auto simp: wp_def)
  with run_loop_status [OF r(1)] show ?thesis by (auto simp: oemu_exec_run_bus_def)
qed

text \<open>
  Running in instalments: a budget may be split. Running \<open>a + b\<close> instructions is running
  \<open>a\<close> and, when those were used up with the guest still going, running \<open>b\<close> more from where the first
  run stopped; the counts add up.
\<close>

theorem exec_run_instalments:
  assumes "\<not> envops_halted eo e" and "unat a + unat b < 2 ^ 64"
  shows "oemu_exec_run_bus mem eo (a + b) cpu m e = do {
    (st, d, cpu', m', e') \<leftarrow> oemu_exec_run_bus mem eo a cpu m e;
    if st = OEMU_ERR_TIMEOUT \<and> d = unat a
    then do { (st, d', cpu', m', e') \<leftarrow> oemu_exec_run_bus mem eo b cpu' m' e'; Some (st, d + d', cpu', m', e') }
    else Some (st, d, cpu', m', e') }"
proof -
  have u: "unat (a + b) = unat a + unat b" using assms(2) by (simp add: unat_word_ariths)
  show ?thesis
  proof (cases "run_loop (unat a) mem eo 0 cpu m e")
    case None
    then show ?thesis by (simp add: oemu_exec_run_bus_def u run_loop_split [OF assms(1)])
  next
    case (Some x)
    obtain st d c2 m2 e2 where x: "x = (st, d, c2, m2, e2)" by (metis prod_cases5)
    show ?thesis
      using Some x run_loop_count [of "unat b" mem eo "unat a" 0 c2 m2 e2]
      by (simp add: oemu_exec_run_bus_def u run_loop_split [OF assms(1)])
  qed
qed

section \<open>Compare and branch\<close>

text \<open>The comparison a condition stands for after SUBS, on the unsigned values \<open>a\<close>, \<open>b\<close> and the signed
  values \<open>sa\<close>, \<open>sb\<close> of the operands; the four conditions that test a single flag have none.\<close>

fun comparison :: "oemu_cond \<Rightarrow> int \<Rightarrow> int \<Rightarrow> int \<Rightarrow> int \<Rightarrow> bool option" where
  "comparison OEMU_COND_EQ a b sa sb = Some (a = b)"
| "comparison OEMU_COND_NE a b sa sb = Some (a \<noteq> b)"
| "comparison OEMU_COND_CS a b sa sb = Some (b \<le> a)"
| "comparison OEMU_COND_CC a b sa sb = Some (a < b)"
| "comparison OEMU_COND_HI a b sa sb = Some (b < a)"
| "comparison OEMU_COND_LS a b sa sb = Some (a \<le> b)"
| "comparison OEMU_COND_GE a b sa sb = Some (sb \<le> sa)"
| "comparison OEMU_COND_LT a b sa sb = Some (sa < sb)"
| "comparison OEMU_COND_GT a b sa sb = Some (sb < sa)"
| "comparison OEMU_COND_LE a b sa sb = Some (sa \<le> sb)"
| "comparison OEMU_COND_AL a b sa sb = Some True"
| "comparison OEMU_COND_NV a b sa sb = Some True"
| "comparison _ a b sa sb = None"

lemma comparison_sound:
  assumes "comparison c (uint (oemu_regs_internal_truncate x w)) (uint (oemu_regs_internal_truncate y w))
    (SInt (reg_bits w) (uint (oemu_regs_internal_truncate x w)))
    (SInt (reg_bits w) (uint (oemu_regs_internal_truncate y w))) = Some t"
  shows "oemu_regs_internal_cond_holds (alu_nzcv (oemu_regs_add_with_carry x (NOT y) True w)) c = t"
  using assms sub_conditions [of x y w] by (cases c) (simp_all add: Let_def)

lemma alu_nzcv_canonical: "alu_nzcv (oemu_regs_add_with_carry x y c w) AND OEMU_NZCV_MASK =
    alu_nzcv (oemu_regs_add_with_carry x y c w)"
proof -
  obtain v fn fz fc fv where A: "AddWithCarry (reg_bits w) (uint (oemu_regs_internal_truncate x w))
      (uint (oemu_regs_internal_truncate y w)) c = (v, fn, fz, fc, fv)"
    using prod_cases5 by blast
  from add_with_carry_flags [OF A] show ?thesis
    by (simp add: oemu_regs_add_with_carry_def pack_nzcv_masked)
qed

text \<open>
  Property C22. Compare and branch, end to end: dispatching CMP (SUBS on two registers) and then B.cond
  takes the branch exactly when the unsigned or signed comparison that the condition names holds
  between the two register values at the operand width; otherwise execution falls through. Memory and
  environment are untouched.
\<close>

theorem compare_and_branch:
  assumes "insn_wf s" and "i_op s = OEMU_OP_SUBS" and "i_operand_kind s = OEMU_OPERAND_REG"
    and "i_rn_is_sp_form s = False" and "i_rd_is_sp_form s = False"
    and "i_op b = OEMU_OP_B_COND"
    and "comparison (i_cond b) (uint x) (uint y) (SInt (reg_bits (i_width s)) (uint x))
      (SInt (reg_bits (i_width s)) (uint y)) = Some t"
    and "x = g_val cpu (i_rn s) False (i_width s)" and "y = g_val cpu (i_rm s) False (i_width s)"
  shows "\<exists>cpu1 cpu2. oemu_exec_internal_dispatch_bus mem eo cpu m e s = Some (OEMU_OK, cpu1, m, e) \<and>
    oemu_exec_internal_dispatch_bus mem eo cpu1 m e b = Some (OEMU_OK, cpu2, m, e) \<and>
    r_pc (c_regs cpu2) = (if t then i_imm b else r_pc (c_regs cpu) + 8)"
proof -
  note wf = insn_wfD(2-4) [OF assms(1)]
  let ?w = "i_width s"
  let ?r = "oemu_regs_add_with_carry x (NOT y) True ?w"
  let ?c = "set_nzcv (g_set cpu (i_rd s) False ?w (alu_value ?r)) (alu_nzcv ?r)"
  let ?c1 = "?c\<lparr>c_regs := oemu_regs_advance_pc (c_regs ?c)\<rparr>"
  have flags: "i_sets_flags s" using assms(1,2) by (simp add: insn_wf_def addsub_ops_def)
  have "exec_addsub cpu s = Some ?c"
    using assms(2-5) wf flags by (simp add: exec_addsub_def operand2_def reg_eqs assms(8,9) Let_def)
  then have 1: "oemu_exec_internal_dispatch_bus mem eo cpu m e s = Some (OEMU_OK, ?c1, m, e)"
    using assms(2) by (simp add: oemu_exec_internal_dispatch_bus_def register_case_def commit_pc_def)
  have tr: "oemu_regs_internal_truncate x ?w = x" "oemu_regs_internal_truncate y ?w = y"
    by (simp_all add: assms(8,9) g_val_def oemu_regs_internal_truncate_def)
  have "oemu_regs_internal_cond_holds (alu_nzcv ?r) (i_cond b) = t"
    using assms(7) by (intro comparison_sound) (simp add: tr)
  then have cond: "oemu_regs_cond_holds (c_regs ?c1) (i_cond b) = t"
    by (simp add: oemu_regs_cond_holds_def set_nzcv_def oemu_regs_set_nzcv_def oemu_regs_advance_pc_def
        alu_nzcv_canonical oemu_regs_nzcv_def)
  have pc: "r_pc (c_regs ?c1) = r_pc (c_regs cpu) + 4"
    by (simp add: set_nzcv_def oemu_regs_set_nzcv_def oemu_regs_advance_pc_def)
  have 2: "oemu_exec_internal_dispatch_bus mem eo ?c1 m e b = Some (OEMU_OK,
      ?c1\<lparr>c_regs := if t then oemu_regs_set_pc (c_regs ?c1) (i_imm b) else oemu_regs_advance_pc (c_regs ?c1)\<rparr>, m, e)"
    using assms(6) cond
    by (simp add: oemu_exec_internal_dispatch_bus_def register_case_def status_case_def memory_case_def
        branch_ops_def exec_branch_def commit_pc_def)
  show ?thesis
    using 1 2 pc by (auto simp: oemu_regs_set_pc_def oemu_regs_advance_pc_def)
qed

section \<open>Stores and loads\<close>

lemma flat_write_read:
  assumes "flat_inv m" "sz \<noteq> OEMU_MEM_128" "flat_accepts m a (transfer_bytes sz) OEMU_PERM_WRITE"
  shows "\<exists>m'. mo_write oemu_memory_memops m a sz v = (OEMU_OK, m') \<and> flat_inv m' \<and>
    flat_accepts m' = flat_accepts m \<and>
    (\<forall>b. guest_byte m' b = (if unat (b - a) < 2 ^ mem_size_val sz
       then Some (ucast (drop_bit (8 * unat (b - a)) v)) else guest_byte m b)) \<and>
    (flat_accepts m a (transfer_bytes sz) OEMU_PERM_READ \<longrightarrow>
       mo_read oemu_memory_memops m' a sz False = (Inr (take_bit (8 * 2 ^ mem_size_val sz) v), m'))"
proof -
  obtain t h where m: "m = (t, h)" by fastforce
  have inv: "mem_inv t" "host_inv t" using assms(1) m by (simp_all add: flat_inv_def)
  have w: "oemu_memory_validate t a (transfer_bytes sz) OEMU_PERM_WRITE = OEMU_OK"
    using assms(3) m by (simp add: flat_accepts_def)
  have "flat_accepts (t, h') = flat_accepts (t, h)" for h' by (simp add: flat_accepts_def fun_eq_iff)
  with write_read_back [OF inv assms(2) w, of h v False] m assms(1) show ?thesis
    by (auto simp: oemu_memory_memops_def flat_inv_def) (auto simp: flat_accepts_def)
qed

text \<open>The base-plus-immediate form without write-back: address and transfer.\<close>

definition plain_mem :: "oemu_insn \<Rightarrow> bool" where
  "plain_mem i \<longleftrightarrow> i_operand_kind i = OEMU_OPERAND_MEM \<and> i_index_mode i = OEMU_INDEX_NONE \<and>
     i_extend_type i = OEMU_EXTEND_UXTB \<and> \<not> i_extend_is_lsl i \<and> \<not> i_is_vector i"

lemma dispatch_str:
  assumes "flat_inv m" "insn_wf i" "i_op i = OEMU_OP_STR" "plain_mem i"
    and "a = g_val cpu (i_rn i) True OEMU_REG_W64 + i_imm i"
    and "flat_accepts m a (transfer_bytes (i_mem_size i)) OEMU_PERM_WRITE"
    and "mo_write oemu_memory_memops m a (i_mem_size i) (g_val cpu (i_rd i) False (i_width i)) = (OEMU_OK, m')"
  shows "oemu_exec_internal_dispatch_bus oemu_memory_memops eo cpu m e i =
    Some (OEMU_OK, (note_store cpu a (transfer_bytes (i_mem_size i)))\<lparr>c_regs := oemu_regs_advance_pc (c_regs cpu)\<rparr>, m', e)"
  using assms insn_wfD(2,3) [OF assms(2)]
  by (simp add: oemu_exec_internal_dispatch_bus_def register_case_def status_case_def memory_case_def
      do_single_mem_def resolve_mem_addr_def plain_mem_def reg_eqs Let_def access_single_def
      write_or_panic_def flat_accepts_def commit_pc_def oemu_memory_memops_def transfer_bytes_def
      split: prod.splits)

lemma dispatch_ldr:
  assumes "flat_inv m" "insn_wf i" "i_op i = OEMU_OP_LDR" "plain_mem i"
    and "a = g_val cpu (i_rn i) True OEMU_REG_W64 + i_imm i"
    and "flat_accepts m a (transfer_bytes (i_mem_size i)) OEMU_PERM_READ"
    and "mo_read oemu_memory_memops m a (i_mem_size i) (i_is_signed_load i) = (Inr v, m')"
  shows "oemu_exec_internal_dispatch_bus oemu_memory_memops eo cpu m e i =
    Some (OEMU_OK, (g_set cpu (i_rd i) False (i_width i) v)\<lparr>c_regs :=
      oemu_regs_advance_pc (c_regs (g_set cpu (i_rd i) False (i_width i) v))\<rparr>, m', e)"
  using assms insn_wfD(2,3) [OF assms(2)]
  by (auto simp: oemu_exec_internal_dispatch_bus_def register_case_def status_case_def memory_case_def
      do_single_mem_def resolve_mem_addr_def plain_mem_def reg_eqs Let_def access_single_def
      read_or_panic_def flat_accepts_def commit_pc_def oemu_memory_memops_def transfer_bytes_def
      split: prod.splits)

lemma g_val_advance [simp]:
  "g_val (cpu\<lparr>c_regs := oemu_regs_advance_pc (c_regs cpu')\<rparr>) n sp w = g_val cpu' n sp w"
  by (simp add: g_val_def oemu_regs_advance_pc_def)

lemma g_val_g_set:
  "cpu_inv cpu \<Longrightarrow> n < 31 \<Longrightarrow> g_val (g_set cpu n sp w v) n sp w = oemu_regs_internal_truncate v w"
  by (simp add: g_val_def g_set_def cpu_inv_def regs_inv_def)

text \<open>
  Property C21. Store then load: STR of a register followed by LDR of the same size from the same base
  and offset brings the stored register's value back, truncated to the transfer size, into the
  loaded register; the guest bytes of the range are the value's little-endian bytes, no other guest
  byte changes, and the PC has moved past both instructions.
\<close>

theorem store_load_roundtrip:
  assumes m: "flat_inv m" and cpu: "cpu_inv cpu" and wf: "insn_wf s" "insn_wf l"
    and op: "i_op s = OEMU_OP_STR" "i_op l = OEMU_OP_LDR" and pl: "plain_mem s" "plain_mem l"
    and eq: "i_mem_size l = i_mem_size s" "i_rn l = i_rn s" "i_imm l = i_imm s"
    and rd: "i_rd l < 31" "i_is_signed_load l = False"
    and a: "a = g_val cpu (i_rn s) True OEMU_REG_W64 + i_imm s"
    and acc: "flat_accepts m a (transfer_bytes (i_mem_size s)) OEMU_PERM_WRITE"
      "flat_accepts m a (transfer_bytes (i_mem_size s)) OEMU_PERM_READ"
    and v: "v = g_val cpu (i_rd s) False (i_width s)"
  shows "\<exists>cpu1 m' cpu2.
    oemu_exec_internal_dispatch_bus oemu_memory_memops eo cpu m e s = Some (OEMU_OK, cpu1, m', e) \<and>
    oemu_exec_internal_dispatch_bus oemu_memory_memops eo cpu1 m' e l = Some (OEMU_OK, cpu2, m', e) \<and>
    g_val cpu2 (i_rd l) False (i_width l) =
      oemu_regs_internal_truncate (take_bit (8 * 2 ^ mem_size_val (i_mem_size s)) v) (i_width l) \<and>
    (\<forall>b. guest_byte m' b = (if unat (b - a) < 2 ^ mem_size_val (i_mem_size s)
       then Some (ucast (drop_bit (8 * unat (b - a)) v)) else guest_byte m b)) \<and>
    r_pc (c_regs cpu2) = r_pc (c_regs cpu) + 8"
proof -
  have sz: "i_mem_size s \<noteq> OEMU_MEM_128" using wf(1) pl(1) by (simp add: insn_wf_def plain_mem_def)
  from flat_write_read [OF m sz acc(1), of v] acc(2) obtain m' where
    w: "mo_write oemu_memory_memops m a (i_mem_size s) v = (OEMU_OK, m')" "flat_inv m'"
      "flat_accepts m' = flat_accepts m"
    and b: "\<forall>b. guest_byte m' b = (if unat (b - a) < 2 ^ mem_size_val (i_mem_size s)
       then Some (ucast (drop_bit (8 * unat (b - a)) v)) else guest_byte m b)"
    and r: "mo_read oemu_memory_memops m' a (i_mem_size s) False =
      (Inr (take_bit (8 * 2 ^ mem_size_val (i_mem_size s)) v), m')" by auto
  let ?n = "transfer_bytes (i_mem_size s)"
  let ?c1 = "(note_store cpu a ?n)\<lparr>c_regs := oemu_regs_advance_pc (c_regs cpu)\<rparr>"
  have 1: "oemu_exec_internal_dispatch_bus oemu_memory_memops eo cpu m e s = Some (OEMU_OK, ?c1, m', e)"
    using w(1) v by (intro dispatch_str m wf op pl a acc) simp
  have inv1: "cpu_inv ?c1" using cpu by (simp add: cpu_inv_def note_store_def Let_def regs_inv_def oemu_regs_advance_pc_def)
  have 2: "oemu_exec_internal_dispatch_bus oemu_memory_memops eo ?c1 m' e l = Some (OEMU_OK,
      (g_set ?c1 (i_rd l) False (i_width l) (take_bit (8 * 2 ^ mem_size_val (i_mem_size s)) v))\<lparr>c_regs :=
        oemu_regs_advance_pc (c_regs (g_set ?c1 (i_rd l) False (i_width l)
          (take_bit (8 * 2 ^ mem_size_val (i_mem_size s)) v)))\<rparr>, m', e)"
    using r acc(2) w(2,3) rd eq a by (intro dispatch_ldr wf op pl) simp_all
  show ?thesis
  proof (intro exI conjI)
    show "r_pc (c_regs ((g_set ?c1 (i_rd l) False (i_width l) (take_bit (8 * 2 ^ mem_size_val (i_mem_size s)) v))\<lparr>c_regs :=
        oemu_regs_advance_pc (c_regs (g_set ?c1 (i_rd l) False (i_width l)
          (take_bit (8 * 2 ^ mem_size_val (i_mem_size s)) v)))\<rparr>)) = r_pc (c_regs cpu) + 8"
      by (simp add: oemu_regs_advance_pc_def)
  qed (use 1 2 b g_val_g_set [OF inv1 rd(1), of False] in simp_all)
qed

section \<open>The exclusive monitor\<close>

text \<open>Two byte ranges that do not wrap have a byte in common.\<close>

definition overlaps :: "u64 \<Rightarrow> u64 \<Rightarrow> u64 \<Rightarrow> u64 \<Rightarrow> bool" where
  "overlaps a n b k \<longleftrightarrow> (\<exists>x. uint a \<le> x \<and> x < uint a + uint n \<and> uint b \<le> x \<and> x < uint b + uint k)"

lemma note_store_overlap:
  assumes "0 < n" "0 < c_monitor_size cpu"
  shows "c_monitor_valid (note_store cpu a n) \<longleftrightarrow>
    c_monitor_valid cpu \<and> \<not> overlaps (c_monitor_addr cpu) (c_monitor_size cpu) a n"
proof -
  let ?m = "c_monitor_addr cpu" and ?s = "c_monitor_size cpu"
  have "(if ?m \<le> a then a - ?m < ?s else ?m - a < n) \<longleftrightarrow>
      (if uint ?m \<le> uint a then uint a - uint ?m < uint ?s else uint ?m - uint a < uint n)"
    by (simp add: word_le_def word_less_def uint_minus_le)
  also have "\<dots> \<longleftrightarrow> overlaps ?m ?s a n"
    using assms unfolding overlaps_def word_less_def
    by (auto intro: exI [of _ "max (uint ?m) (uint a)"])
  finally show ?thesis by (simp add: note_store_def Let_def)
qed

lemma note_store_monitor [simp]:
  "c_monitor_addr (note_store cpu a n) = c_monitor_addr cpu" "c_monitor_size (note_store cpu a n) = c_monitor_size cpu"
  by (simp_all add: note_store_def Let_def)

definition note_stores :: "(u64 \<times> u64) list \<Rightarrow> oemu_cpu \<Rightarrow> oemu_cpu" where
  "note_stores = fold (\<lambda>(a, n) cpu. note_store cpu a n)"

lemma note_stores_spec:
  assumes "\<forall>(a, n) \<in> set ss. 0 < n" "0 < c_monitor_size cpu"
  shows "c_regs (note_stores ss cpu) = c_regs cpu" "c_monitor_addr (note_stores ss cpu) = c_monitor_addr cpu"
    "c_monitor_size (note_stores ss cpu) = c_monitor_size cpu"
    "c_monitor_valid (note_stores ss cpu) \<longleftrightarrow> c_monitor_valid cpu \<and>
      \<not> (\<exists>(a, n) \<in> set ss. overlaps (c_monitor_addr cpu) (c_monitor_size cpu) a n)"
  using assms
proof (induction ss arbitrary: cpu)
  case (Cons x ss)
  obtain a n where x: "x = (a, n)" by fastforce
  {
    case 1 then show ?case using Cons.IH(1) [of "note_store cpu a n"] by (simp add: note_stores_def x)
  next
    case 2 then show ?case using Cons.IH(2) [of "note_store cpu a n"] by (simp add: note_stores_def x)
  next
    case 3 then show ?case using Cons.IH(3) [of "note_store cpu a n"] by (simp add: note_stores_def x)
  next
    case 4 then show ?case
      using Cons.IH(4) [of "note_store cpu a n"] note_store_overlap [of n cpu a] by (auto simp: note_stores_def x)
  }
qed (simp_all add: note_stores_def)

lemma cpu_inv_note_stores [simp]: "cpu_inv cpu \<Longrightarrow> cpu_inv (note_stores ss cpu)"
  by (induction ss arbitrary: cpu) (auto simp: note_stores_def note_store_def Let_def)

lemma do_ldxr:
  assumes "insn_wf i" "i_op i = OEMU_OP_LDXR" "do_exclusive mem cpu m i = Some (OEMU_OK, cpu', m')"
  shows "\<exists>v. cpu' = (g_set cpu (i_rd i) False (i_width i) v)\<lparr>c_monitor_addr := g_val cpu (i_rn i) True OEMU_REG_W64,
    c_monitor_size := transfer_bytes (i_mem_size i), c_monitor_valid := True\<rparr>"
  using assms(2,3) insn_wfD(2,3) [OF assms(1)]
  by (auto simp: do_exclusive_def reg_eqs Let_def bind_eq_Some_conv transfer_bytes_def
      split: prod.splits if_splits)

lemma do_stxr:
  assumes "insn_wf i" "i_op i = OEMU_OP_STXR" "flat_inv m" "a = g_val cpu (i_rn i) True OEMU_REG_W64"
    and "flat_accepts m a (transfer_bytes (i_mem_size i)) OEMU_PERM_WRITE"
    and "ok \<longleftrightarrow> c_monitor_valid cpu \<and> c_monitor_addr cpu = a \<and> c_monitor_size cpu = transfer_bytes (i_mem_size i)"
    and "mo_write oemu_memory_memops m a (i_mem_size i) (g_val cpu (i_rd i) False (i_width i)) = (OEMU_OK, m1)"
  shows "do_exclusive oemu_memory_memops cpu m i = Some (OEMU_OK,
    g_set (cpu\<lparr>c_monitor_valid := False\<rparr>) (i_rm i) False OEMU_REG_W32 (if ok then 0 else 1), if ok then m1 else m)"
proof -
  have "mo_validate oemu_memory_memops m a (transfer_bytes (i_mem_size i)) OEMU_PERM_WRITE = (OEMU_OK, m)"
    using assms(5) by (simp add: oemu_memory_memops_def flat_accepts_def)
  moreover have "g_val (cpu\<lparr>c_monitor_valid := False\<rparr>) = g_val cpu" by (simp add: g_val_def fun_eq_iff)
  ultimately show ?thesis
    using assms(2,4,6,7) insn_wfD(2-4) [OF assms(1)]
    unfolding do_exclusive_def transfer_bytes_def [symmetric] by (simp add: reg_eqs Let_def write_or_panic_def)
qed

text \<open>
  Property C20. The exclusive monitor: a store-exclusive that follows a load-exclusive of the same size
  from the same address, with any sequence of noted stores between them, stores and reports 0 exactly
  when none of those stores touched a byte of the reserved range; otherwise it reports 1 and leaves
  memory alone. Either way the reservation is gone afterwards.
\<close>

theorem exclusive_protocol:
  assumes wf: "insn_wf ld" "insn_wf st" and op: "i_op ld = OEMU_OP_LDXR" "i_op st = OEMU_OP_STXR"
    and sz: "i_mem_size st = i_mem_size ld" and ldxr: "do_exclusive mem cpu m ld = Some (OEMU_OK, cpu1, m1)"
    and ss: "\<forall>(x, k) \<in> set ss. 0 < k" and cpu: "cpu_inv cpu"
    and a: "a = g_val cpu (i_rn ld) True OEMU_REG_W64" "g_val (note_stores ss cpu1) (i_rn st) True OEMU_REG_W64 = a"
    and m2: "flat_inv m2" "flat_accepts m2 a (transfer_bytes (i_mem_size st)) OEMU_PERM_WRITE"
    and rm: "i_rm st < 31" and v: "v = g_val (note_stores ss cpu1) (i_rd st) False (i_width st)"
  shows "\<exists>cpu3 m3. do_exclusive oemu_memory_memops (note_stores ss cpu1) m2 st = Some (OEMU_OK, cpu3, m3) \<and>
    \<not> c_monitor_valid cpu3 \<and>
    (if \<exists>(x, k) \<in> set ss. overlaps a (transfer_bytes (i_mem_size st)) x k
     then g_val cpu3 (i_rm st) False OEMU_REG_W32 = 1 \<and> m3 = m2
     else g_val cpu3 (i_rm st) False OEMU_REG_W32 = 0 \<and>
       (\<forall>b. guest_byte m3 b = (if unat (b - a) < 2 ^ mem_size_val (i_mem_size st)
          then Some (ucast (drop_bit (8 * unat (b - a)) v)) else guest_byte m2 b)))"
proof -
  let ?n = "transfer_bytes (i_mem_size st)" and ?c2 = "note_stores ss cpu1"
  obtain u where c1: "cpu1 = (g_set cpu (i_rd ld) False (i_width ld) u)\<lparr>c_monitor_addr := a,
      c_monitor_size := ?n, c_monitor_valid := True\<rparr>"
    using do_ldxr [OF wf(1) op(1) ldxr] a(1) sz by auto
  have "0 < c_monitor_size cpu1" by (cases "i_mem_size st") (simp_all add: c1)
  note ns = note_stores_spec [OF ss this]
  have sz': "i_mem_size st \<noteq> OEMU_MEM_128"
    using wf(2) op(2) by (auto simp: insn_wf_def vector_ops_def split: if_splits)
  from flat_write_read [OF m2(1) sz' m2(2), of v] obtain m3 where
    w: "mo_write oemu_memory_memops m2 a (i_mem_size st) v = (OEMU_OK, m3)"
    and b: "\<forall>b. guest_byte m3 b = (if unat (b - a) < 2 ^ mem_size_val (i_mem_size st)
          then Some (ucast (drop_bit (8 * unat (b - a)) v)) else guest_byte m2 b)" by auto
  let ?ok = "\<not> (\<exists>(x, k) \<in> set ss. overlaps a ?n x k)"
  have "do_exclusive oemu_memory_memops ?c2 m2 st = Some (OEMU_OK,
      g_set (?c2\<lparr>c_monitor_valid := False\<rparr>) (i_rm st) False OEMU_REG_W32 (if ?ok then 0 else 1), if ?ok then m3 else m2)"
    using ns w m2 a v by (intro do_stxr wf op) (simp_all add: c1)
  moreover have "cpu_inv ?c2" using cpu by (simp add: c1)
  then have "g_val (g_set (?c2\<lparr>c_monitor_valid := False\<rparr>) (i_rm st) False OEMU_REG_W32 x) (i_rm st) False OEMU_REG_W32 =
      oemu_regs_internal_truncate x OEMU_REG_W32" for x
    using rm by (intro g_val_g_set) simp_all
  ultimately show ?thesis
    using b by (auto simp: oemu_regs_internal_truncate_def)
qed

section \<open>A complete guest program\<close>

text \<open>A host whose stream takes everything and whose clock fails.\<close>

definition plain_host :: host where
  "plain_host = \<lparr>hw = \<lambda>out bs. length bs, clk = \<lambda>_ _. None\<rparr>"

text \<open>The three instructions in the text region of the sample memory.\<close>

definition exit_heap :: heap where
  "exit_heap = (\<lambda>a. if 0x7000 \<le> a \<and> a < 0x700C
     then [0x40, 0x05, 0x80, 0xD2, 0xA8, 0x0B, 0x80, 0xD2, 0x01, 0x00, 0x00, 0xD4] ! unat (a - 0x7000) else 0)"

lemma upt4: "[0..<4] = [0, 1, 2, 3 :: nat]"
  by (simp add: upt_conv_Cons)

lemma exit_fetch:
  "oemu_memory_fetch32 (sample_mem, exit_heap) 0x10000 = Inr 0xD2800540"
  "oemu_memory_fetch32 (sample_mem, exit_heap) 0x10004 = Inr 0xD2800BA8"
  "oemu_memory_fetch32 (sample_mem, exit_heap) 0x10008 = Inr 0xD4000001"
  by (simp_all add: oemu_memory_fetch32_def sample_mem_def oemu_memory_internal_find_def new_region_def
     memcpy_from_def exit_heap_def oemu_memory_internal_disassemble_def upt4)

lemma exit_decode:
  "\<exists>i. oemu_decode 0xD2800540 pc = (OEMU_OK, i) \<and> i_op i = OEMU_OP_MOVZ \<and> i_rd i = 0 \<and> i_uimm i = 42 \<and> i_width i = OEMU_REG_W64"
  "\<exists>i. oemu_decode 0xD2800BA8 pc = (OEMU_OK, i) \<and> i_op i = OEMU_OP_MOVZ \<and> i_rd i = 8 \<and> i_uimm i = 93 \<and> i_width i = OEMU_REG_W64"
  "\<exists>i. oemu_decode 0xD4000001 pc = (OEMU_OK, i) \<and> i_op i = OEMU_OP_SVC"
  by (simp_all add: decode_eval)

lemma run_loop_three:
  assumes "oemu_exec_step_bus mem eo c0 m0 e0 = Some (OEMU_OK, i0, c1, m1, e1)"
    and "oemu_exec_step_bus mem eo c1 m1 e1 = Some (OEMU_OK, i1, c2, m2, e2)"
    and "oemu_exec_step_bus mem eo c2 m2 e2 = Some (OEMU_OK, i2, c3, m3, e3)"
    and "\<not> envops_halted eo e1" "\<not> envops_halted eo e2" "envops_halted eo e3"
  shows "run_loop (Suc (Suc (Suc n))) mem eo 0 c0 m0 e0 = Some (OEMU_OK, 3, c3, m3, e3)"
  using assms by simp

text \<open>
  A complete guest: with \<^verbatim>\<open>mov x0, #42; mov x8, #93; svc #0\<close> in memory, fetching, decoding,
  executing and the exit system call compose to a run that stops by itself after three instructions,
  with status OK and exit code 42, and leaves memory unchanged.
\<close>

theorem run_exit_program:
  "\<exists>cpu. oemu_exec_run_bus oemu_memory_memops (Some (oemu_sysenv_envops plain_host oemu_memory_memops)) 10
    (oemu_cpu_init 0x10000 0x20800) (sample_mem, exit_heap) oemu_sysenv_init =
    Some (OEMU_OK, 3, cpu, (sample_mem, exit_heap), oemu_sysenv_init\<lparr>se_exit_code := 42, se_exited := True\<rparr>)"
proof -
  let ?env = "Some (oemu_sysenv_envops plain_host oemu_memory_memops)" and ?m = "(sample_mem, exit_heap)"
  let ?step = "\<lambda>cpu. oemu_exec_step_bus oemu_memory_memops ?env cpu ?m oemu_sysenv_init"
  let ?next = "\<lambda>cpu. cpu\<lparr>c_regs := oemu_regs_advance_pc (c_regs cpu)\<rparr>"
  have movz: "?step cpu = Some (OEMU_OK, Some i, ?next (g_set cpu (i_rd i) False OEMU_REG_W64 (i_uimm i)), ?m, oemu_sysenv_init)"
    if "oemu_memory_fetch32 ?m (r_pc (c_regs cpu)) = Inr w" "oemu_decode w (r_pc (c_regs cpu)) = (OEMU_OK, i)"
      "i_op i = OEMU_OP_MOVZ" "i_width i = OEMU_REG_W64" "i_rd i \<le> 31" for cpu i w
    using that by (simp add: oemu_exec_step_bus_def oemu_memory_memops_def oemu_regs_pc_def
        oemu_exec_internal_dispatch_bus_def register_case_def exec_move_wide_def reg_eqs commit_pc_def)
  have svc: "?step cpu = Some (OEMU_OK, Some i, ?next (g_set cpu 0 False OEMU_REG_W64 0), ?m,
      oemu_sysenv_init\<lparr>se_exit_code := ucast (g_val cpu 0 False OEMU_REG_W64), se_exited := True\<rparr>)"
    if "oemu_memory_fetch32 ?m (r_pc (c_regs cpu)) = Inr w" "oemu_decode w (r_pc (c_regs cpu)) = (OEMU_OK, i)"
      "i_op i = OEMU_OP_SVC" "g_val cpu 8 False OEMU_REG_W64 = 93" for cpu i w
    using that by (simp add: oemu_exec_step_bus_def oemu_memory_memops_def oemu_regs_pc_def
        oemu_exec_internal_dispatch_bus_def register_case_def status_case_def memory_case_def branch_ops_def
        do_svc_def reg_eqs commit_pc_def oemu_sysenv_envops_def sysenv_syscall_ops_def g_set_def)
  let ?c0 = "oemu_cpu_init 0x10000 0x20800"
  let ?c1 = "?next (g_set ?c0 0 False OEMU_REG_W64 42)"
  let ?c2 = "?next (g_set ?c1 8 False OEMU_REG_W64 93)"
  have pc: "r_pc (c_regs ?c0) = 0x10000" "r_pc (c_regs ?c1) = 0x10004" "r_pc (c_regs ?c2) = 0x10008"
    by (simp_all add: oemu_cpu_init_def oemu_regs_init_def oemu_regs_advance_pc_def)
  have vals: "g_val ?c2 8 False OEMU_REG_W64 = 93" "g_val ?c2 0 False OEMU_REG_W64 = 42"
    by (simp_all add: g_val_def g_set_def oemu_cpu_init_def oemu_regs_init_def oemu_regs_advance_pc_def)
  obtain i0 i1 i2 where
    0: "?step ?c0 = Some (OEMU_OK, Some i0, ?c1, ?m, oemu_sysenv_init)" and
    1: "?step ?c1 = Some (OEMU_OK, Some i1, ?c2, ?m, oemu_sysenv_init)" and
    2: "?step ?c2 = Some (OEMU_OK, Some i2, ?next (g_set ?c2 0 False OEMU_REG_W64 0), ?m,
      oemu_sysenv_init\<lparr>se_exit_code := 42, se_exited := True\<rparr>)"
    using movz [of ?c0 "0xD2800540"] movz [of ?c1 "0xD2800BA8"] svc [of ?c2 "0xD4000001"]
      exit_fetch exit_decode [of "0x10000"] exit_decode [of "0x10004"] exit_decode [of "0x10008"] vals
    unfolding pc by auto
  have run: "envops_halted ?env oemu_sysenv_init = False"
    "envops_halted ?env (oemu_sysenv_init\<lparr>se_exit_code := 42, se_exited := True\<rparr>) = True"
    by (simp_all add: envops_halted_def oemu_sysenv_envops_def oemu_sysenv_exited_def oemu_sysenv_init_def)
  have n: "unat (10 :: u64) = Suc (Suc (Suc 7))" by simp
  show ?thesis
    unfolding oemu_exec_run_bus_def n
    by (rule exI, rule run_loop_three [OF 0 1 2]) (use run in simp_all)
qed

section \<open>Concrete instances\<close>

abbreviation (input) sample_env :: "(oemu_sysenv, flat) oemu_env_ops option" where
  "sample_env \<equiv> Some (oemu_sysenv_envops plain_host oemu_memory_memops)"

lemma sample_flat [simp]: "flat_inv (sample_mem, h)" "user_env plain_host sample_env"
  by (simp_all add: flat_inv_def user_env_def)

theorem exec_step_precise_witness:
  "\<exists>st io cpu' m' e'. oemu_exec_step_bus oemu_memory_memops sample_env (oemu_cpu_init 0x10000 0x20800)
     (sample_mem, exit_heap) oemu_sysenv_init = Some (st, io, cpu', m', e') \<and> cpu_inv cpu'"
  using exec_step_precise [of "(sample_mem, exit_heap)" "oemu_cpu_init 0x10000 0x20800" plain_host sample_env oemu_sysenv_init]
  by auto

theorem exec_run_safe_witness:
  "\<exists>st d cpu' m' e'. oemu_exec_run_bus oemu_memory_memops sample_env 100 (oemu_cpu_init 0x10000 0x20800)
     (sample_mem, \<lambda>_. 0) oemu_sysenv_init = Some (st, d, cpu', m', e') \<and> d \<le> 100"
  using exec_run_safe [of "(sample_mem, \<lambda>_. 0)" "oemu_cpu_init 0x10000 0x20800" plain_host sample_env 100 oemu_sysenv_init]
  by auto

theorem exec_run_instalments_witness:
  "oemu_exec_run_bus oemu_memory_memops sample_env 5 (oemu_cpu_init 0x10000 0x20800) (sample_mem, exit_heap) oemu_sysenv_init = do {
     (st, d, cpu', m', e') \<leftarrow> oemu_exec_run_bus oemu_memory_memops sample_env 2 (oemu_cpu_init 0x10000 0x20800)
       (sample_mem, exit_heap) oemu_sysenv_init;
     if st = OEMU_ERR_TIMEOUT \<and> d = 2
     then do { (st, d', cpu', m', e') \<leftarrow> oemu_exec_run_bus oemu_memory_memops sample_env 3 cpu' m' e';
               Some (st, d + d', cpu', m', e') }
     else Some (st, d, cpu', m', e') }"
proof -
  have "\<not> envops_halted sample_env oemu_sysenv_init"
    by (simp add: envops_halted_def oemu_sysenv_envops_def oemu_sysenv_exited_def oemu_sysenv_init_def)
  from exec_run_instalments [OF this, of 2 3] show ?thesis by simp
qed

text \<open>\<^verbatim>\<open>cmp x1, x2\<close> and \<^verbatim>\<open>b.lt\<close> with equal registers; \<^verbatim>\<open>str x1, [sp]\<close> and \<^verbatim>\<open>ldr x2, [sp]\<close>; \<^verbatim>\<open>ldxr x1, [sp]\<close>
  and \<^verbatim>\<open>stxr w3, x2, [sp]\<close> with a store between them that misses the reserved range.\<close>

definition cmp_insn :: oemu_insn where
  "cmp_insn = (insn_reset 0)\<lparr>i_op := OEMU_OP_SUBS, i_operand_kind := OEMU_OPERAND_REG, i_rd := 31, i_rn := 1,
     i_rm := 2, i_sets_flags := True\<rparr>"

definition blt_insn :: oemu_insn where
  "blt_insn = (insn_reset 0)\<lparr>i_op := OEMU_OP_B_COND, i_cond := OEMU_COND_LT, i_imm := 0x10040\<rparr>"

definition mem_insn :: "oemu_opcode \<Rightarrow> nat \<Rightarrow> nat \<Rightarrow> oemu_insn" where
  "mem_insn op rd rm = (insn_reset 0)\<lparr>i_op := op, i_operand_kind := OEMU_OPERAND_MEM, i_rd := rd, i_rn := 31,
     i_rm := rm, i_mem_size := OEMU_MEM_DWORD, i_rn_is_sp_form := True\<rparr>"

theorem compare_and_branch_witness:
  "\<exists>cpu1 cpu2. oemu_exec_internal_dispatch_bus oemu_memory_memops sample_env (oemu_cpu_init 0x10000 0) (sample_mem, \<lambda>_. 0)
     oemu_sysenv_init cmp_insn = Some (OEMU_OK, cpu1, (sample_mem, \<lambda>_. 0), oemu_sysenv_init) \<and>
   oemu_exec_internal_dispatch_bus oemu_memory_memops sample_env cpu1 (sample_mem, \<lambda>_. 0)
     oemu_sysenv_init blt_insn = Some (OEMU_OK, cpu2, (sample_mem, \<lambda>_. 0), oemu_sysenv_init) \<and>
   r_pc (c_regs cpu2) = 0x10008"
proof -
  have "insn_wf cmp_insn" by (simp add: cmp_insn_def insn_wf_def regs_wf_def op_sets)
  moreover have "r_pc (c_regs (oemu_cpu_init 0x10000 0)) = 0x10000"
    by (simp add: oemu_cpu_init_def oemu_regs_init_def)
  ultimately show ?thesis
    using compare_and_branch [of cmp_insn blt_insn "g_val (oemu_cpu_init 0x10000 0) 1 False OEMU_REG_W64"
        "g_val (oemu_cpu_init 0x10000 0) 2 False OEMU_REG_W64" False "oemu_cpu_init 0x10000 0" oemu_memory_memops
        sample_env "(sample_mem, \<lambda>_. 0)" oemu_sysenv_init]
    by (simp add: cmp_insn_def blt_insn_def insn_reset_def g_val_def oemu_cpu_init_def oemu_regs_init_def)
qed

lemma mem_insn_wf: "op \<in> {OEMU_OP_LDR, OEMU_OP_STR, OEMU_OP_LDXR, OEMU_OP_STXR} \<Longrightarrow> rd \<le> 31 \<Longrightarrow> rm \<le> 31 \<Longrightarrow>
    insn_wf (mem_insn op rd rm)"
  by (auto simp: mem_insn_def insn_wf_def regs_wf_def op_sets)

lemma mem_insn_fields [simp]:
  "i_op (mem_insn op rd rm) = op" "i_rd (mem_insn op rd rm) = rd" "i_rm (mem_insn op rd rm) = rm"
  "i_rn (mem_insn op rd rm) = 31" "i_imm (mem_insn op rd rm) = 0" "plain_mem (mem_insn op rd rm)"
  "i_mem_size (mem_insn op rd rm) = OEMU_MEM_DWORD" "i_width (mem_insn op rd rm) = OEMU_REG_W64"
  "i_is_signed_load (mem_insn op rd rm) = False"
  by (simp_all add: mem_insn_def plain_mem_def insn_reset_def)

lemma sample_stack [simp]:
  "flat_accepts (sample_mem, h) 0x20800 8 OEMU_PERM_WRITE" "flat_accepts (sample_mem, h) 0x20800 8 OEMU_PERM_READ"
  "g_val (oemu_cpu_init pc 0x20800) 31 True OEMU_REG_W64 = 0x20800"
  by (simp_all add: flat_accepts_def sample_mem_def oemu_memory_validate_def oemu_memory_internal_find_def
      new_region_def g_val_def oemu_cpu_init_def oemu_regs_init_def)

theorem store_load_roundtrip_witness:
  "\<exists>cpu1 m' cpu2.
    oemu_exec_internal_dispatch_bus oemu_memory_memops sample_env (g_set (oemu_cpu_init 0x10000 0x20800) 1 False OEMU_REG_W64 7)
      (sample_mem, \<lambda>_. 0) oemu_sysenv_init (mem_insn OEMU_OP_STR 1 0) = Some (OEMU_OK, cpu1, m', oemu_sysenv_init) \<and>
    oemu_exec_internal_dispatch_bus oemu_memory_memops sample_env cpu1 m' oemu_sysenv_init (mem_insn OEMU_OP_LDR 2 0) =
      Some (OEMU_OK, cpu2, m', oemu_sysenv_init) \<and> g_val cpu2 2 False OEMU_REG_W64 = 7"
proof -
  let ?c = "g_set (oemu_cpu_init 0x10000 0x20800) 1 False OEMU_REG_W64 7"
  have "g_val ?c 31 True OEMU_REG_W64 = 0x20800" "g_val ?c 1 False OEMU_REG_W64 = 7"
    by (simp_all add: g_val_def g_set_def oemu_cpu_init_def oemu_regs_init_def)
  then show ?thesis
    using store_load_roundtrip [of "(sample_mem, \<lambda>_. 0)" ?c "mem_insn OEMU_OP_STR 1 0" "mem_insn OEMU_OP_LDR 2 0"
        "0x20800" 7 sample_env oemu_sysenv_init] by (auto simp: mem_insn_wf)
qed

theorem exclusive_protocol_witness:
  "\<exists>cpu1 cpu3 m3. do_exclusive oemu_memory_memops (oemu_cpu_init 0x10000 0x20800) (sample_mem, \<lambda>_. 0)
     (mem_insn OEMU_OP_LDXR 1 0) = Some (OEMU_OK, cpu1, (sample_mem, \<lambda>_. 0)) \<and>
   do_exclusive oemu_memory_memops (note_stores [(0x20810, 8)] cpu1) (sample_mem, \<lambda>_. 0) (mem_insn OEMU_OP_STXR 2 3) =
     Some (OEMU_OK, cpu3, m3) \<and> g_val cpu3 3 False OEMU_REG_W32 = 0"
proof -
  let ?c = "oemu_cpu_init 0x10000 0x20800"
  let ?c1 = "(g_set ?c 1 False OEMU_REG_W64 0)\<lparr>c_monitor_addr := 0x20800, c_monitor_size := 8, c_monitor_valid := True\<rparr>"
  have read: "mo_read oemu_memory_memops (sample_mem, \<lambda>_. 0) 0x20800 OEMU_MEM_DWORD False = (Inr 0, (sample_mem, \<lambda>_. 0))"
    by (simp add: oemu_memory_memops_def oemu_memory_read_def sample_mem_def oemu_memory_internal_find_def new_region_def
        memcpy_from_def oemu_memory_internal_disassemble_def Let_def upt_conv_Cons)
  have val: "mo_validate oemu_memory_memops (sample_mem, \<lambda>_. 0) 0x20800 8 OEMU_PERM_READ = (OEMU_OK, (sample_mem, \<lambda>_. 0))"
    using sample_stack(2) by (simp add: oemu_memory_memops_def flat_accepts_def)
  have ld: "do_exclusive oemu_memory_memops ?c (sample_mem, \<lambda>_. 0) (mem_insn OEMU_OP_LDXR 1 0) =
      Some (OEMU_OK, ?c1, (sample_mem, \<lambda>_. 0))"
    using read val by (simp add: do_exclusive_def reg_eqs Let_def read_or_panic_def)
  have "\<not> overlaps 0x20800 8 0x20810 8" by (simp add: overlaps_def)
  moreover have "g_val (note_stores [(0x20810, 8)] ?c1) 31 True OEMU_REG_W64 = 0x20800"
    by (simp add: note_stores_def g_val_def g_set_def oemu_cpu_init_def oemu_regs_init_def)
  ultimately show ?thesis
    using exclusive_protocol [of "mem_insn OEMU_OP_LDXR 1 0" "mem_insn OEMU_OP_STXR 2 3" oemu_memory_memops ?c
        "(sample_mem, \<lambda>_. 0)" ?c1 "(sample_mem, \<lambda>_. 0)" "[(0x20810, 8)]" "0x20800" "(sample_mem, \<lambda>_. 0)"] ld
    by (auto simp: mem_insn_wf)
qed

end
