(* ===== verification/Oemu_Arith_Props.thy ===== *)
theory Oemu_Arith_Props
  imports Oemu_Exec_Safe
begin

text \<open>
  The bit-field and division instructions against their architectural meaning: which source bit each
  result bit of SBFM, UBFM and BFM comes from, and truncating division with its two special cases.
\<close>

section \<open>Bit fields\<close>

text \<open>The source bit that lands at position \<open>k\<close>, if the field covers \<open>k\<close>: extraction moves bits
  \<open>msb..lsb\<close> down to 0, the wrapped form moves bits \<open>msb..0\<close> up by \<open>bits - lsb\<close>.\<close>

definition field_source :: "nat \<Rightarrow> nat \<Rightarrow> nat \<Rightarrow> nat \<Rightarrow> nat option" where
  "field_source bits lsb msb k =
     (if msb < lsb
      then (if bits - lsb \<le> k \<and> k \<le> bits - lsb + msb then Some (k - (bits - lsb)) else None)
      else (if k \<le> msb - lsb then Some (lsb + k) else None))"

text \<open>The highest position the field covers.\<close>

definition field_top :: "nat \<Rightarrow> nat \<Rightarrow> nat \<Rightarrow> nat" where
  "field_top bits lsb msb = (if msb < lsb then bits - lsb + msb else msb - lsb)"

lemma bit_bitfield_value:
  assumes "lsb < reg_bits w" "msb < reg_bits w"
    and "take_bit (reg_bits w) src = src" "take_bit (reg_bits w) old = old"
  shows "bit (bitfield_value op (reg_bits w) lsb msb src old) k \<longleftrightarrow> k < reg_bits w \<and>
    (case field_source (reg_bits w) lsb msb k of
       Some j \<Rightarrow> bit src j
     | None \<Rightarrow> if op = OEMU_OP_BFM then bit old k
               else op = OEMU_OP_SBFM \<and> field_top (reg_bits w) lsb msb < k \<and> bit src msb)"
proof -
  define b where "b = reg_bits w"
  have b: "b \<le> 64" "lsb < b" "msb < b" using reg_bits_le_64 assms(1,2) by (simp_all add: b_def)
  define len where "len = Suc (field_top b lsb msb)"
  have len: "len = (if msb < lsb then b - lsb + msb + 1 else msb - lsb + 1)" "len \<le> b" "0 < len"
    using b by (auto simp: len_def field_top_def)
  define rot where "rot = (if msb < lsb then push_bit (b - lsb) src AND mask b
                 else if lsb = 0 then src
                 else (drop_bit lsb src OR push_bit (b - lsb) src) AND mask b)"
  have src: "bit src j \<Longrightarrow> j < b" and old: "bit old j \<Longrightarrow> j < b" for j
    using assms(3,4) by (metis b_def bit_take_bit_iff)+
  have field: "bit (rot AND mask len) k \<longleftrightarrow> k < len \<and> k < 64 \<and>
      (case field_source b lsb msb k of Some j \<Rightarrow> bit src j | None \<Rightarrow> False)" for k
    using b len src [of "lsb + k"] by (auto simp: rot_def field_source_def bit_simps)
  have m: "(if len = b then mask b else push_bit len 1 - 1 :: u64) = mask len"
    by (simp add: mask_eq_exp_minus_1)
  define bottom where "bottom = (if msb < lsb then b - lsb else 0)"
  have dm: "(if len - bottom = b then mask b else push_bit bottom (push_bit (len - bottom) 1 - 1)) =
      push_bit bottom (mask (len - bottom) :: u64)"
    using b len by (auto simp: mask_eq_exp_minus_1 bottom_def)
  have dmk: "bit (push_bit bottom (mask (len - bottom) :: u64)) k \<longleftrightarrow> k < 64 \<and> field_source b lsb msb k \<noteq> None" for k
    using b len by (auto simp: field_source_def bit_simps bottom_def)
  have top: "drop_bit (len - 1) (rot AND mask len) AND 1 \<noteq> 0 \<longleftrightarrow> bit src msb"
    using b len field [of "len - 1"] unfolding test_bit_and_1
    by (auto simp: field_source_def len_def field_top_def)
  have "bitfield_value op b lsb msb src old =
    (if op = OEMU_OP_BFM
     then (old AND NOT (push_bit bottom (mask (len - bottom)))) OR
       ((rot AND mask len) AND push_bit bottom (mask (len - bottom)))
     else if op = OEMU_OP_SBFM \<and> bit src msb then (rot AND mask len) OR (mask b AND NOT (mask len))
     else rot AND mask len)"
    unfolding bitfield_value_def Let_def b_def [symmetric] width_mask_eq [of w, folded b_def]
      len(1) [symmetric] rot_def [symmetric] m bottom_def [symmetric] dm top ..
  then show ?thesis
    using b len(2,3) field [of k] dmk [of k] old [of k]
    by (auto simp: b_def [symmetric] bit_simps len_def split: option.splits)
qed

text \<open>
  Property C23. Bit fields: SBFM, UBFM and BFM write, for every bit position, the source bit that the
  architecture assigns to it, in the extracting form and in the wrapped form that shifts left. Outside
  the field UBFM clears, BFM keeps the destination, and SBFM clears below the field and copies the
  field's top bit above it.
\<close>

theorem bitfield_spec:
  assumes "insn_wf i" and "i_op i = OEMU_OP_SBFM \<or> i_op i = OEMU_OP_UBFM \<or> i_op i = OEMU_OP_BFM"
  shows "\<exists>v. do_bitfield cpu i = Some (OEMU_OK, g_set cpu (i_rd i) False (i_width i) v) \<and>
    (\<forall>k. bit v k = (k < reg_bits (i_width i) \<and>
       (case field_source (reg_bits (i_width i)) (i_shift_amount i) (i_bit_pos i) k of
          Some j \<Rightarrow> bit (g_val cpu (i_rn i) False (i_width i)) j
        | None \<Rightarrow>
            if i_op i = OEMU_OP_BFM then bit (g_val cpu (i_rd i) False (i_width i)) k
            else i_op i = OEMU_OP_SBFM \<and>
              field_top (reg_bits (i_width i)) (i_shift_amount i) (i_bit_pos i) < k \<and>
              bit (g_val cpu (i_rn i) False (i_width i)) (i_bit_pos i))))"
proof -
  let ?w = "i_width i"
  have lt: "i_shift_amount i < reg_bits ?w" "i_bit_pos i < reg_bits ?w"
    using assms by (auto simp: insn_wf_def bitfield_ops_def)
  have t: "take_bit (reg_bits ?w) (g_val cpu n False ?w) = g_val cpu n False ?w" for n
    by (simp add: g_val_def truncate_take_bit)
  let ?old = "if i_op i = OEMU_OP_BFM then g_val cpu (i_rd i) False ?w else 0"
  let ?v = "bitfield_value (i_op i) (reg_bits ?w) (i_shift_amount i) (i_bit_pos i) (g_val cpu (i_rn i) False ?w) ?old"
  have old: "take_bit (reg_bits ?w) ?old = ?old" using t by simp
  have "do_bitfield cpu i = Some (OEMU_OK, g_set cpu (i_rd i) False ?w ?v)"
    using lt insn_wfD(2,3) [OF assms(1)] by (simp add: do_bitfield_def reg_bits_of_eq reg_eqs Let_def not_le)
  with bit_bitfield_value [OF lt t old] show ?thesis
    by (intro exI [of _ ?v]) (auto split: option.splits)
qed

section \<open>Division\<close>

text \<open>Division toward zero: the quotient with the remainder that has the dividend's sign and is
  smaller than the divisor.\<close>

definition divides_toward_zero :: "int \<Rightarrow> int \<Rightarrow> int \<Rightarrow> bool" where
  "divides_toward_zero n d q \<longleftrightarrow> (\<exists>r. n = q * d + r \<and> \<bar>r\<bar> < \<bar>d\<bar> \<and> r * n \<ge> 0)"

lemma truncating_quotient:
  assumes "d \<noteq> (0::int)"
  shows "divides_toward_zero n d (sgn n * sgn d * (\<bar>n\<bar> div \<bar>d\<bar>))"
proof -
  let ?r = "sgn n * (\<bar>n\<bar> mod \<bar>d\<bar>)"
  have "sgn n * sgn d * (\<bar>n\<bar> div \<bar>d\<bar>) * d + ?r = sgn n * (\<bar>n\<bar> div \<bar>d\<bar> * \<bar>d\<bar> + \<bar>n\<bar> mod \<bar>d\<bar>)"
    using assms by (simp add: algebra_simps abs_sgn)
  also have "\<dots> = n" by (simp add: sgn_mult_abs)
  moreover have "\<bar>?r\<bar> < \<bar>d\<bar>" using assms by (simp add: abs_mult sgn_if)
  moreover have "?r * n \<ge> 0"
    using assms pos_mod_sign [of "\<bar>d\<bar>" n] pos_mod_sign [of "\<bar>d\<bar>" "- n"] by (auto simp: sgn_if zero_le_mult_iff)
  ultimately show ?thesis unfolding divides_toward_zero_def by (metis)
qed

text \<open>A register value read as a signed number at its width.\<close>

definition reg_sint :: "oemu_reg_width \<Rightarrow> u64 \<Rightarrow> int" where
  "reg_sint w x = (if w = OEMU_REG_W32 then sint (ucast x :: u32) else sint x)"

lemma truncated_in_range:
  assumes "- (2 ^ k) \<le> n" "n < 2 ^ k" "d \<noteq> (0::int)" "\<not> (n = - (2 ^ k) \<and> d = - 1)"
  shows "- (2 ^ k) \<le> sgn n * sgn d * (\<bar>n\<bar> div \<bar>d\<bar>)" "sgn n * sgn d * (\<bar>n\<bar> div \<bar>d\<bar>) < 2 ^ k"
proof -
  let ?a = "\<bar>n\<bar> div \<bar>d\<bar>"
  have a: "0 \<le> ?a" "?a \<le> \<bar>n\<bar>"
    using assms(3) zdiv_mono2 [of "\<bar>n\<bar>" 1 "\<bar>d\<bar>"] by (simp_all add: pos_imp_zdiv_nonneg_iff)
  have strict: "?a < 2 ^ k \<or> (n < 0 \<and> d > 0)"
  proof (cases "\<bar>d\<bar> = 1")
    case False
    then have "1 < \<bar>d\<bar>" using assms(3) by linarith
    then have "n \<noteq> 0 \<Longrightarrow> ?a < \<bar>n\<bar>" using int_div_less_self [of "\<bar>n\<bar>" "\<bar>d\<bar>"] by simp
    then show ?thesis using assms(1,2) by (cases "n = 0") auto
  next
    case True
    then show ?thesis using assms by (auto simp: abs_if split: if_splits)
  qed
  have "\<bar>n\<bar> \<le> 2 ^ k" using assms(1,2) by linarith
  with a strict show "- (2 ^ k) \<le> sgn n * sgn d * ?a" "sgn n * sgn d * ?a < 2 ^ k"
    by (auto simp: sgn_if)
qed

lemma sint_word_of_int:
  "- (2 ^ 31) \<le> z \<Longrightarrow> z < 2 ^ 31 \<Longrightarrow> sint (word_of_int z :: u32) = z"
  "- (2 ^ 63) \<le> z \<Longrightarrow> z < 2 ^ 63 \<Longrightarrow> sint (word_of_int z :: u64) = z"
  by (simp_all add: sint_sbintrunc' signed_take_bit_int_eq_self)

lemma quotient_signed:
  assumes "reg_sint w d \<noteq> 0" "d \<noteq> 0"
  shows "if reg_sint w n = - (2 ^ (reg_bits w - 1)) \<and> reg_sint w d = - 1
    then reg_sint w (quotient False w n d) = reg_sint w n
    else divides_toward_zero (reg_sint w n) (reg_sint w d) (reg_sint w (quotient False w n d))"
proof -
  let ?n = "reg_sint w n" and ?d = "reg_sint w d" and ?k = "reg_bits w - 1"
  define z where "z = sgn ?n * sgn ?d * (\<bar>?n\<bar> div \<bar>?d\<bar>)"
  define ovf where "ovf \<longleftrightarrow> ?n = - (2 ^ ?k) \<and> ?d = - 1"
  have range: "- (2 ^ ?k) \<le> ?n" "?n < 2 ^ ?k"
    using sint_greater_eq [of "ucast n :: u32"] sint_lt [of "ucast n :: u32"] sint_greater_eq [of n] sint_lt [of n]
    by (cases w; simp add: reg_sint_def)+
  have z: "\<not> ovf \<Longrightarrow> - (2 ^ ?k) \<le> z \<and> z < 2 ^ ?k"
    using truncated_in_range [OF range assms(1)] by (auto simp: z_def ovf_def)
  have up: "ucast (ucast x :: u64) = x" for x :: u32 by (rule bit_word_eqI) (simp add: bit_simps)
  have "quotient False w n d = (if w = OEMU_REG_W32 then ucast (word_of_int (if ovf then - (2 ^ 31) else z) :: u32)
      else word_of_int (if ovf then - (2 ^ 63) else z))"
    using assms(2) by (cases w) (simp_all only: quotient_def Let_def z_def ovf_def reg_sint_def reg_bits_simps, simp_all)
  then have q: "reg_sint w (quotient False w n d) = (if ovf then - (2 ^ ?k) else z)"
    using z by (cases w) (auto simp: reg_sint_def up sint_word_of_int)
  show ?thesis
    unfolding q ovf_def [symmetric] using truncating_quotient [OF assms(1), of ?n]
    by (simp add: ovf_def z_def)
qed

lemma quotient_unsigned:
  assumes "take_bit (reg_bits w) n = n" "take_bit (reg_bits w) d = d" "d \<noteq> 0"
  shows "uint (quotient True w n d) = uint n div uint d"
proof (cases w)
  case OEMU_REG_W32
  have "uint (ucast n :: u32) = uint n" "uint (ucast d :: u32) = uint d"
    using arg_cong [OF assms(1), of uint] arg_cong [OF assms(2), of uint] OEMU_REG_W32
    by (simp_all add: unsigned_ucast_eq unsigned_take_bit_eq)
  moreover have "uint (ucast x :: u64) = uint x" for x :: u32
    using uint_bounded [of x] by (simp add: unsigned_ucast_eq take_bit_int_eq_self)
  ultimately show ?thesis using OEMU_REG_W32 assms(3) by (simp add: quotient_def uint_div)
next
  case OEMU_REG_W64
  then show ?thesis using assms(3) by (simp add: quotient_def uint_div)
qed

text \<open>
  Division: UDIV and SDIV never trap. A zero divisor gives zero, UDIV is the quotient of
  the unsigned values, and SDIV is the quotient toward zero of the signed values at the operand width,
  except that the most negative value divided by minus one wraps to itself.
\<close>

theorem divide_spec:
  assumes "insn_wf i" and "i_op i = OEMU_OP_UDIV \<or> i_op i = OEMU_OP_SDIV"
  shows "\<exists>q. exec_divide cpu i = Some (g_set cpu (i_rd i) False (i_width i) q) \<and>
    (let w = i_width i; n = g_val cpu (i_rn i) False w; d = g_val cpu (i_rm i) False w
     in if d = 0 then q = 0
        else if i_op i = OEMU_OP_UDIV then uint q = uint n div uint d
        else if reg_sint w n = - (2 ^ (reg_bits w - 1)) \<and> reg_sint w d = - 1
        then reg_sint w q = reg_sint w n
        else divides_toward_zero (reg_sint w n) (reg_sint w d) (reg_sint w q))"
proof -
  let ?w = "i_width i"
  let ?n = "g_val cpu (i_rn i) False ?w" and ?d = "g_val cpu (i_rm i) False ?w"
  let ?q = "quotient (i_op i = OEMU_OP_UDIV) ?w ?n ?d"
  have t: "take_bit (reg_bits ?w) (g_val cpu n False ?w) = g_val cpu n False ?w" for n
    by (simp add: g_val_def truncate_take_bit)
  have nz: "reg_sint ?w ?d \<noteq> 0" if "?d \<noteq> 0"
  proof (cases ?w)
    case OEMU_REG_W32
    have "ucast (ucast ?d :: u32) = take_bit 32 ?d" by (rule bit_word_eqI) (auto simp: bit_simps)
    then have "ucast (ucast ?d :: u32) = ?d" using t [of "i_rm i"] OEMU_REG_W32 by simp
    then have "(ucast ?d :: u32) \<noteq> 0" using that by auto
    then have "sint (ucast ?d :: u32) \<noteq> 0" by (simp add: signed_eq_0_iff)
    then show ?thesis using OEMU_REG_W32 by (simp add: reg_sint_def)
  qed (use that in \<open>simp add: reg_sint_def signed_eq_0_iff\<close>)
  have "exec_divide cpu i = Some (g_set cpu (i_rd i) False ?w ?q)"
    using insn_wfD(2-4) [OF assms(1)] by (simp add: exec_divide_def reg_eqs)
  moreover have "?d = 0 \<Longrightarrow> ?q = 0" by (simp add: quotient_def)
  ultimately show ?thesis
    using quotient_signed [of ?w ?d ?n] quotient_unsigned [OF t t, of "i_rm i" "i_rn i"] nz assms(2)
    by (intro exI [of _ ?q]) (auto simp: Let_def)
qed

text \<open>\<^verbatim>\<open>ubfx w0, w1, #4, #8\<close> and \<^verbatim>\<open>sdiv x0, x1, x2\<close>.\<close>

definition ubfx_insn :: oemu_insn where
  "ubfx_insn = (insn_reset 0)\<lparr>i_op := OEMU_OP_UBFM, i_width := OEMU_REG_W32, i_rd := 0, i_rn := 1,
     i_shift_amount := 4, i_bit_pos := 11\<rparr>"

theorem bitfield_spec_witness:
  "\<exists>v. do_bitfield (g_set (oemu_cpu_init 0 0) 1 False OEMU_REG_W64 0x10) ubfx_insn =
     Some (OEMU_OK, g_set (g_set (oemu_cpu_init 0 0) 1 False OEMU_REG_W64 0x10) 0 False OEMU_REG_W32 v) \<and>
   bit v 0 \<and> \<not> bit v 8"
proof -
  have "insn_wf ubfx_insn" by (simp add: ubfx_insn_def insn_wf_def regs_wf_def op_sets)
  moreover have "g_val (g_set (oemu_cpu_init 0 0) 1 False OEMU_REG_W64 0x10) 1 False OEMU_REG_W32 = 0x10"
    by (simp add: g_val_def g_set_def oemu_cpu_init_def oemu_regs_init_def oemu_regs_internal_truncate_def)
  moreover have "bit (0x10 :: u64) 4" by simp
  ultimately show ?thesis
    using bitfield_spec [of ubfx_insn "g_set (oemu_cpu_init 0 0) 1 False OEMU_REG_W64 0x10"]
    by (auto simp: ubfx_insn_def field_source_def)
qed

definition sdiv_insn :: oemu_insn where
  "sdiv_insn = (insn_reset 0)\<lparr>i_op := OEMU_OP_SDIV, i_rd := 0, i_rn := 1, i_rm := 2\<rparr>"

theorem divide_spec_witness:
  "\<exists>q. exec_divide (g_set (g_set (oemu_cpu_init 0 0) 1 False OEMU_REG_W64 (- 7)) 2 False OEMU_REG_W64 2) sdiv_insn =
     Some (g_set (g_set (g_set (oemu_cpu_init 0 0) 1 False OEMU_REG_W64 (- 7)) 2 False OEMU_REG_W64 2) 0 False OEMU_REG_W64 q) \<and>
   divides_toward_zero (- 7) 2 (sint q)"
proof -
  let ?c = "g_set (g_set (oemu_cpu_init 0 0) 1 False OEMU_REG_W64 (- 7)) 2 False OEMU_REG_W64 2"
  have "insn_wf sdiv_insn" by (simp add: sdiv_insn_def insn_wf_def regs_wf_def op_sets)
  moreover have "g_val ?c 1 False OEMU_REG_W64 = - 7" "g_val ?c 2 False OEMU_REG_W64 = 2"
    by (simp_all add: g_val_def g_set_def oemu_cpu_init_def oemu_regs_init_def)
  moreover have "reg_sint OEMU_REG_W64 (- 7) = - 7" "reg_sint OEMU_REG_W64 2 = 2" by (simp_all add: reg_sint_def)
  ultimately show ?thesis
    using divide_spec [of sdiv_insn ?c] by (auto simp: sdiv_insn_def reg_sint_def)
qed

end
