(* ===== verification/Oemu_Device.thy ===== *)
theory Oemu_Device
  imports Oemu_Insn
begin

text \<open>
  The device seam (\<^verbatim>\<open>include/oemu/device.h\<close>): the two bus operations of a memory-mapped device, as a
  record of functions over the state the devices of a machine share, and the contract its header asks
  of every model, as a locale: an access keeps the device sound, and an access that fails has no side
  effect.
\<close>

record 'd oemu_device_ops =
  dv_read :: "'d \<Rightarrow> u64 \<Rightarrow> oemu_mem_size \<Rightarrow> (oemu_status + u64) \<times> 'd"
  dv_write :: "'d \<Rightarrow> u64 \<Rightarrow> oemu_mem_size \<Rightarrow> u64 \<Rightarrow> oemu_status \<times> 'd"

text \<open>One access a bus may make: an offset, a size, and the value for a write.\<close>

definition dev_access :: "'d oemu_device_ops \<Rightarrow> u64 \<times> oemu_mem_size \<times> u64 option \<Rightarrow> 'd \<Rightarrow> 'd" where
  "dev_access ops = (\<lambda>(off, sz, w) d. case w of None \<Rightarrow> snd (dv_read ops d off sz) | Some v \<Rightarrow> snd (dv_write ops d off sz v))"

locale device =
  fixes ops :: "'d oemu_device_ops" and inv :: "'d \<Rightarrow> bool"
  assumes dev_read: "inv d \<Longrightarrow> dv_read ops d off sz = (r, d') \<Longrightarrow> inv d' \<and> (r \<noteq> Inl OEMU_OK) \<and> (\<forall>st. r = Inl st \<longrightarrow> d' = d)"
    and dev_write: "inv d \<Longrightarrow> dv_write ops d off sz v = (st, d') \<Longrightarrow> inv d' \<and> (st \<noteq> OEMU_OK \<longrightarrow> d' = d)"
begin

lemma access_inv:
  assumes "inv d"
  shows "inv (dev_access ops x d)"
proof -
  obtain off sz w where x: "x = (off, sz, w)" by (metis prod_cases3)
  obtain r d' where rd: "dv_read ops d off sz = (r, d')" by fastforce
  obtain st d'' where wr: "dv_write ops d off sz (the w) = (st, d'')" by fastforce
  show ?thesis
    using dev_read [OF assms rd] dev_write [OF assms wr] rd wr x by (cases w) (simp_all add: dev_access_def)
qed

lemma accesses_inv: "inv d \<Longrightarrow> inv (fold (dev_access ops) xs d)"
  by (induction xs arbitrary: d) (simp_all add: access_inv)

end

end
