(* ===== verification/Oemu_Gicv2.thy ===== *)
theory Oemu_Gicv2
  imports Oemu_Device Oemu_Words "HOL-Library.Product_Lexorder"
begin

text \<open>
  The interrupt controller (\<^verbatim>\<open>src/dev/gicv2.c\<close>): the distributor and CPU-interface register files,
  the priority scan, acknowledgement and end of interrupt. The per-line arrays of the structure are
  lists of 64 bytes.
\<close>

section \<open>State\<close>

abbreviation (input) OEMU_GICV2_LINES :: nat where "OEMU_GICV2_LINES \<equiv> 64"
abbreviation (input) OEMU_GICV2_SPURIOUS :: nat where "OEMU_GICV2_SPURIOUS \<equiv> 1023"

record oemu_gicv2 =
  g_ctl :: u32
  g_typer :: u32
  g_iidr :: u32
  g_cpu_ctl :: u32
  g_cpu_pmr :: u32
  g_cpu_bpr :: u32
  g_running_pri :: u32
  g_ccpner :: u32
  g_enable :: "u8 list"
  g_pending :: "u8 list"
  g_active :: "u8 list"
  g_config :: "u8 list"
  g_group :: "u8 list"
  g_priority :: "u8 list"
  g_target :: "u8 list"
  g_sgir :: u64

abbreviation (input) DIST_CTL :: u32 where "DIST_CTL \<equiv> 0x000"
abbreviation (input) DIST_TYPER :: u32 where "DIST_TYPER \<equiv> 0x004"
abbreviation (input) DIST_IIDR :: u32 where "DIST_IIDR \<equiv> 0x008"
abbreviation (input) DIST_IGROUP0 :: u64 where "DIST_IGROUP0 \<equiv> 0x080"
abbreviation (input) DIST_ISENABLER0 :: u64 where "DIST_ISENABLER0 \<equiv> 0x100"
abbreviation (input) DIST_ICENABLER0 :: u64 where "DIST_ICENABLER0 \<equiv> 0x180"
abbreviation (input) DIST_ISPENDR0 :: u64 where "DIST_ISPENDR0 \<equiv> 0x200"
abbreviation (input) DIST_ICPENDR0 :: u64 where "DIST_ICPENDR0 \<equiv> 0x280"
abbreviation (input) DIST_ISACTIVER0 :: u64 where "DIST_ISACTIVER0 \<equiv> 0x300"
abbreviation (input) DIST_ICACTIVER0 :: u64 where "DIST_ICACTIVER0 \<equiv> 0x380"
abbreviation (input) DIST_PRIORITY0 :: u64 where "DIST_PRIORITY0 \<equiv> 0x400"
abbreviation (input) DIST_TARGET0 :: u64 where "DIST_TARGET0 \<equiv> 0x800"
abbreviation (input) DIST_CFG0 :: u64 where "DIST_CFG0 \<equiv> 0xC00"
abbreviation (input) DIST_SGIR :: u32 where "DIST_SGIR \<equiv> 0xF00"
abbreviation (input) DIST_CID0 :: u32 where "DIST_CID0 \<equiv> 0xF88"
abbreviation (input) DIST_PID0 :: u32 where "DIST_PID0 \<equiv> 0xFE0"
abbreviation (input) CPU_CTL :: u32 where "CPU_CTL \<equiv> 0x000"
abbreviation (input) CPU_PMR :: u32 where "CPU_PMR \<equiv> 0x004"
abbreviation (input) CPU_BPR :: u32 where "CPU_BPR \<equiv> 0x008"
abbreviation (input) CPU_IAR :: u32 where "CPU_IAR \<equiv> 0x00C"
abbreviation (input) CPU_EOIR :: u32 where "CPU_EOIR \<equiv> 0x010"
abbreviation (input) CIDR0 :: u32 where "CIDR0 \<equiv> 0x0D"
abbreviation (input) CIDR1 :: u32 where "CIDR1 \<equiv> 0xF0"
abbreviation (input) CIDR2 :: u32 where "CIDR2 \<equiv> 0x05"
abbreviation (input) CIDR3 :: u32 where "CIDR3 \<equiv> 0xB1"
abbreviation (input) PIDR0 :: u32 where "PIDR0 \<equiv> 0x00"
abbreviation (input) PIDR1 :: u32 where "PIDR1 \<equiv> 0x00"
abbreviation (input) PIDR2 :: u32 where "PIDR2 \<equiv> 0x2B"
abbreviation (input) PIDR3 :: u32 where "PIDR3 \<equiv> 0x02"

section \<open>The priority scan\<close>

definition lines_of :: "oemu_gicv2 \<Rightarrow> nat" where
  "lines_of gic = (unat (g_typer gic AND 0x1F) + 1) * 32"

definition gic_running_priority :: "oemu_gicv2 \<Rightarrow> u32" where
  "gic_running_priority gic =
     fold (\<lambda>i best. if g_active gic ! i \<noteq> 0 \<and> ucast (g_priority gic ! i) < best
                    then ucast (g_priority gic ! i) else best)
       [0..<OEMU_GICV2_LINES] 256"

text \<open>One iteration of the scan's loop over the best line and its priority so far.\<close>

definition scan_step ::
  "u8 list \<Rightarrow> u8 list \<Rightarrow> u8 list \<Rightarrow> u8 list \<Rightarrow> u8 list \<Rightarrow> u32 \<Rightarrow> nat \<Rightarrow> nat \<times> u32 \<Rightarrow> nat \<times> u32" where
  "scan_step enable pending active priority target pmr i = (\<lambda>(best, best_pri).
     if enable ! i = 0 \<or> pending ! i = 0 \<or> active ! i \<noteq> 0 \<or> target ! i AND 1 = 0 then (best, best_pri)
     else let pri = ucast (priority ! i)
          in if pri \<ge> pmr \<or> pri \<ge> best_pri then (best, best_pri) else (i, pri))"

definition oemu_gicv2_internal_scan ::
  "u8 list \<Rightarrow> u8 list \<Rightarrow> u8 list \<Rightarrow> u8 list \<Rightarrow> u8 list \<Rightarrow> u32 \<Rightarrow> u32 \<Rightarrow> nat \<Rightarrow> nat" where
  "oemu_gicv2_internal_scan enable pending active priority target running_pri pmr lines =
     fst (fold (scan_step enable pending active priority target pmr) [0..<min lines OEMU_GICV2_LINES]
       (OEMU_GICV2_SPURIOUS, running_pri))"

definition gic_scan :: "oemu_gicv2 \<Rightarrow> nat" where
  "gic_scan gic = oemu_gicv2_internal_scan (g_enable gic) (g_pending gic) (g_active gic) (g_priority gic)
     (g_target gic) (gic_running_priority gic) (g_cpu_pmr gic AND 0xFF) (lines_of gic)"

definition gic_acknowledge :: "oemu_gicv2 \<Rightarrow> nat \<times> oemu_gicv2" where
  "gic_acknowledge gic =
     (let id = gic_scan gic
      in if id = OEMU_GICV2_SPURIOUS then (OEMU_GICV2_SPURIOUS, gic)
         else let gic = gic\<lparr>g_active := (g_active gic)[id := 1], g_pending := (g_pending gic)[id := 0]\<rparr>
              in (id, gic\<lparr>g_running_pri := gic_running_priority gic\<rparr>))"

definition oemu_gicv2_init :: "nat \<Rightarrow> oemu_gicv2 option" where
  "oemu_gicv2_init lines = do {
     OEMU_REQUIRE (lines mod 32 = 0 \<and> lines \<ge> 32 \<and> lines \<le> OEMU_GICV2_LINES);
     Some \<lparr>g_ctl = 0, g_typer = push_bit 16 16 OR of_nat (lines div 32 - 1), g_iidr = 0, g_cpu_ctl = 0,
       g_cpu_pmr = 0, g_cpu_bpr = 0, g_running_pri = 0, g_ccpner = 0,
       g_enable = replicate OEMU_GICV2_LINES 0, g_pending = replicate OEMU_GICV2_LINES 0,
       g_active = replicate OEMU_GICV2_LINES 0, g_config = replicate OEMU_GICV2_LINES 0,
       g_group = replicate OEMU_GICV2_LINES 0, g_priority = replicate OEMU_GICV2_LINES 0x80,
       g_target = replicate OEMU_GICV2_LINES 1, g_sgir = 0\<rparr> }"

section \<open>Register access\<close>

definition pack_bank :: "u8 list \<Rightarrow> nat \<Rightarrow> u32" where
  "pack_bank state base_line =
     fold (\<lambda>b v. if base_line + b < OEMU_GICV2_LINES \<and> state ! (base_line + b) \<noteq> 0 then v OR push_bit b 1 else v)
       [0..<32] 0"

definition poke_bank :: "u8 list \<Rightarrow> nat \<Rightarrow> u32 \<Rightarrow> bool \<Rightarrow> u8 list" where
  "poke_bank state base_line m is_set =
     fold (\<lambda>b state. if drop_bit b m AND 1 \<noteq> 0 \<and> base_line + b < OEMU_GICV2_LINES
                     then state[base_line + b := if is_set then 1 else 0] else state)
       [0..<32] state"

text \<open>The word index of a banked register, and whether an offset falls in a bank of the given size.\<close>

definition bank_word :: "u64 \<Rightarrow> u64 \<Rightarrow> nat" where
  "bank_word offset base = unat (ucast ((offset - base) div 4) :: u32)"

definition in_bank :: "u64 \<Rightarrow> u64 \<Rightarrow> u64 \<Rightarrow> bool" where
  "in_bank offset base n \<longleftrightarrow> offset \<ge> base \<and> offset < base + n"

definition dist_read_plain :: "oemu_gicv2 \<Rightarrow> u32 \<Rightarrow> u32" where
  "dist_read_plain gic off =
     (if off = DIST_CTL then g_ctl gic
      else if off = DIST_TYPER then g_typer gic
      else if off = DIST_IIDR then g_iidr gic
      else if off = DIST_CID0 then CIDR0
      else if off = DIST_CID0 + 0x4 then CIDR1
      else if off = DIST_CID0 + 0x8 then CIDR2
      else if off = DIST_CID0 + 0xC then CIDR3
      else if off = DIST_PID0 then PIDR0
      else if off = DIST_PID0 + 0x4 then PIDR1
      else if off = DIST_PID0 + 0x8 then PIDR2
      else if off = DIST_PID0 + 0xC then PIDR3
      else 0)"

definition dist_value :: "oemu_gicv2 \<Rightarrow> u64 \<Rightarrow> u32" where
  "dist_value gic offset =
     (if in_bank offset DIST_IGROUP0 0x20 then pack_bank (g_group gic) (bank_word offset DIST_IGROUP0 * 32)
      else if in_bank offset DIST_ISENABLER0 0x80 then pack_bank (g_enable gic) (bank_word offset DIST_ISENABLER0 * 32)
      else if in_bank offset DIST_ICENABLER0 0x80 then pack_bank (g_enable gic) (bank_word offset DIST_ICENABLER0 * 32)
      else if in_bank offset DIST_ISPENDR0 0x80 then pack_bank (g_pending gic) (bank_word offset DIST_ISPENDR0 * 32)
      else if in_bank offset DIST_ICPENDR0 0x80 then pack_bank (g_pending gic) (bank_word offset DIST_ICPENDR0 * 32)
      else if in_bank offset DIST_ISACTIVER0 0x80 then pack_bank (g_active gic) (bank_word offset DIST_ISACTIVER0 * 32)
      else if in_bank offset DIST_ICACTIVER0 0x80 then pack_bank (g_active gic) (bank_word offset DIST_ICACTIVER0 * 32)
      else if in_bank offset DIST_PRIORITY0 0x100
      then fold (\<lambda>b v. let line = bank_word offset DIST_PRIORITY0 * 4 + b
                       in v OR push_bit (b * 8) (ucast (if line < OEMU_GICV2_LINES then g_priority gic ! line else 0)))
             [0..<4] 0
      else if in_bank offset DIST_TARGET0 (4 * of_nat (lines_of gic))
      then let line = bank_word offset DIST_TARGET0
           in (if line < lines_of gic then ucast (g_target gic ! line) else 0)
      else if in_bank offset DIST_CFG0 0x40
      then fold (\<lambda>b v. let line = bank_word offset DIST_CFG0 * 16 + b
                       in if line < OEMU_GICV2_LINES then v OR push_bit (b * 2) (ucast (g_config gic ! line)) else v)
             [0..<16] 0
      else dist_read_plain gic (ucast (offset AND NOT 3)))"

definition dist_read :: "oemu_gicv2 \<Rightarrow> u64 \<Rightarrow> oemu_mem_size \<Rightarrow> (oemu_status + u64) \<times> oemu_gicv2" where
  "dist_read gic offset sz = (Inr (ucast (dist_value gic offset)), gic)"

definition dist_update :: "oemu_gicv2 \<Rightarrow> u64 \<Rightarrow> u32 \<Rightarrow> oemu_gicv2" where
  "dist_update gic offset v =
     (if in_bank offset DIST_IGROUP0 0x20
      then let base = bank_word offset DIST_IGROUP0 * 32
           in gic\<lparr>g_group := fold (\<lambda>b s. if base + b < OEMU_GICV2_LINES
                                         then s[base + b := ucast (drop_bit b v AND 1)] else s) [0..<32] (g_group gic)\<rparr>
      else if in_bank offset DIST_ISENABLER0 0x80
      then gic\<lparr>g_enable := poke_bank (g_enable gic) (bank_word offset DIST_ISENABLER0 * 32) v True\<rparr>
      else if in_bank offset DIST_ICENABLER0 0x80
      then gic\<lparr>g_enable := poke_bank (g_enable gic) (bank_word offset DIST_ICENABLER0 * 32) v False\<rparr>
      else if in_bank offset DIST_ISPENDR0 0x80
      then gic\<lparr>g_pending := poke_bank (g_pending gic) (bank_word offset DIST_ISPENDR0 * 32) v True\<rparr>
      else if in_bank offset DIST_ICPENDR0 0x80
      then gic\<lparr>g_pending := poke_bank (g_pending gic) (bank_word offset DIST_ICPENDR0 * 32) v False\<rparr>
      else if in_bank offset DIST_ISACTIVER0 0x80
      then gic\<lparr>g_active := poke_bank (g_active gic) (bank_word offset DIST_ISACTIVER0 * 32) v True\<rparr>
      else if in_bank offset DIST_ICACTIVER0 0x80
      then gic\<lparr>g_active := poke_bank (g_active gic) (bank_word offset DIST_ICACTIVER0 * 32) v False\<rparr>
      else if in_bank offset DIST_PRIORITY0 0x100
      then gic\<lparr>g_priority := fold (\<lambda>b s. let line = bank_word offset DIST_PRIORITY0 * 4 + b
                                         in if line < OEMU_GICV2_LINES
                                            then s[line := ucast (drop_bit (b * 8) v AND 0xFF)] else s)
                               [0..<4] (g_priority gic)\<rparr>
      else if in_bank offset DIST_TARGET0 (4 * of_nat (lines_of gic))
      then let line = bank_word offset DIST_TARGET0
           in if line < lines_of gic \<and> line \<ge> 32
              then gic\<lparr>g_target := (g_target gic)[line := ucast (v AND 0xFF)]\<rparr> else gic
      else if in_bank offset DIST_CFG0 0x40
      then gic\<lparr>g_config := fold (\<lambda>b s. let line = bank_word offset DIST_CFG0 * 16 + b
                                       in if line < OEMU_GICV2_LINES
                                          then s[line := ucast (drop_bit (b * 2) v AND 0x3)] else s)
                             [0..<16] (g_config gic)\<rparr>
      else let off = ucast (offset AND NOT 3) :: u32
           in if off = DIST_CTL then gic\<lparr>g_ctl := v AND 0x3F\<rparr>
              else if off = DIST_SGIR then gic\<lparr>g_sgir := ucast v\<rparr>
              else gic)"

definition dist_write :: "oemu_gicv2 \<Rightarrow> u64 \<Rightarrow> oemu_mem_size \<Rightarrow> u64 \<Rightarrow> oemu_status \<times> oemu_gicv2" where
  "dist_write gic offset sz value = (OEMU_OK, dist_update gic offset (ucast value))"

definition cpu_read :: "oemu_gicv2 \<Rightarrow> u64 \<Rightarrow> oemu_mem_size \<Rightarrow> (oemu_status + u64) \<times> oemu_gicv2" where
  "cpu_read gic offset sz =
     (let off = ucast (offset AND NOT 3) :: u32
      in if off = CPU_CTL then (Inr (ucast (g_cpu_ctl gic)), gic)
         else if off = CPU_PMR then (Inr (ucast (g_cpu_pmr gic)), gic)
         else if off = CPU_BPR then (Inr (ucast (g_cpu_bpr gic)), gic)
         else if off = CPU_IAR then (case gic_acknowledge gic of (line, gic') \<Rightarrow> (Inr (of_nat line), gic'))
         else (Inr 0, gic))"

definition cpu_write :: "oemu_gicv2 \<Rightarrow> u64 \<Rightarrow> oemu_mem_size \<Rightarrow> u64 \<Rightarrow> oemu_status \<times> oemu_gicv2" where
  "cpu_write gic offset sz value =
     (let off = ucast (offset AND NOT 3) :: u32
      in (OEMU_OK,
          if off = CPU_CTL then gic\<lparr>g_cpu_ctl := ucast value AND 1\<rparr>
          else if off = CPU_PMR then gic\<lparr>g_cpu_pmr := ucast value AND 0xFF\<rparr>
          else if off = CPU_BPR then gic\<lparr>g_cpu_bpr := ucast value AND 0x7\<rparr>
          else if off = CPU_EOIR
          then let id = unat (ucast value AND 0x3FF :: u32);
                   gic = (if id < OEMU_GICV2_LINES then gic\<lparr>g_active := (g_active gic)[id := 0]\<rparr> else gic)
               in gic\<lparr>g_running_pri := gic_running_priority gic\<rparr>
          else gic))"

definition oemu_gicv2_irq_level :: "oemu_gicv2 \<Rightarrow> bool" where
  "oemu_gicv2_irq_level gic =
     (if g_ctl gic AND 1 = 0 \<or> g_cpu_ctl gic AND 1 = 0 then False
      else gic_scan gic \<noteq> OEMU_GICV2_SPURIOUS)"

definition oemu_gicv2_nr_lines :: "oemu_gicv2 \<Rightarrow> nat" where
  "oemu_gicv2_nr_lines gic = lines_of gic"

definition oemu_gicv2_set_pending :: "oemu_gicv2 \<Rightarrow> nat \<Rightarrow> bool \<Rightarrow> oemu_gicv2" where
  "oemu_gicv2_set_pending gic intid level =
     (if intid \<ge> OEMU_GICV2_LINES then gic
      else gic\<lparr>g_pending := (g_pending gic)[intid := if level then 1 else 0]\<rparr>)"

definition dist_ops :: "oemu_gicv2 oemu_device_ops" where
  "dist_ops = \<lparr>dv_read = dist_read, dv_write = dist_write\<rparr>"

definition cpu_ops :: "oemu_gicv2 oemu_device_ops" where
  "cpu_ops = \<lparr>dv_read = cpu_read, dv_write = cpu_write\<rparr>"

section \<open>The scan picks the right line\<close>

text \<open>A line the scan may return: enabled, pending, not active, targeted here, and more urgent than the
  mask and than the running priority.\<close>

definition eligible ::
  "u8 list \<Rightarrow> u8 list \<Rightarrow> u8 list \<Rightarrow> u8 list \<Rightarrow> u8 list \<Rightarrow> u32 \<Rightarrow> u32 \<Rightarrow> nat \<Rightarrow> bool" where
  "eligible enable pending active priority target running_pri pmr i \<longleftrightarrow>
     enable ! i \<noteq> 0 \<and> pending ! i \<noteq> 0 \<and> active ! i = 0 \<and> target ! i AND 1 \<noteq> 0 \<and>
     uint (priority ! i) < uint pmr \<and> uint (priority ! i) < uint running_pri"

lemma ucast_u8_less [simp]:
  "(ucast (x :: u8) :: u32) < y \<longleftrightarrow> uint x < uint y" "y \<le> (ucast (x :: u8) :: u32) \<longleftrightarrow> uint y \<le> uint x"
proof -
  have "uint (ucast x :: u32) = uint x"
    using uint_bounded [of x] by (simp add: unsigned_ucast_eq take_bit_int_eq_self)
  then show "(ucast (x :: u8) :: u32) < y \<longleftrightarrow> uint x < uint y" "y \<le> (ucast (x :: u8) :: u32) \<longleftrightarrow> uint y \<le> uint x"
    by (simp_all add: word_less_def word_le_def)
qed

lemma uint_ucast_u8 [simp]: "uint (ucast (x :: u8) :: u32) = uint x"
  using uint_bounded [of x] by (simp add: unsigned_ucast_eq take_bit_int_eq_self)

lemma scan_fold:
  fixes e p a pr t run pmr
  defines "E \<equiv> eligible e p a pr t run pmr"
  assumes "fold (scan_step e p a pr t pmr) [0..<n] (1023, run) = (best, bp)"
  shows "(best = 1023 \<and> bp = run \<and> (\<forall>i<n. \<not> E i)) \<or>
    (best < n \<and> E best \<and> bp = ucast (pr ! best) \<and>
     (\<forall>j<n. E j \<longrightarrow> uint (pr ! best) < uint (pr ! j) \<or> uint (pr ! best) = uint (pr ! j) \<and> best \<le> j))"
  using assms(2)
proof (induction n arbitrary: best bp)
  case (Suc n)
  obtain b0 p0 where f: "fold (scan_step e p a pr t pmr) [0..<n] (1023, run) = (b0, p0)" by fastforce
  have st: "scan_step e p a pr t pmr n (b0, p0) = (best, bp)" using Suc.prems f by simp
  show ?case
    using Suc.IH [OF f] st
    by (auto simp: scan_step_def E_def eligible_def Let_def less_Suc_eq not_le split: if_splits; fastforce)
qed simp

lemma scan_cases:
  fixes e p a pr t run pmr lines
  defines "E \<equiv> \<lambda>i. i < min lines 64 \<and> eligible e p a pr t run pmr i"
    and "id0 \<equiv> oemu_gicv2_internal_scan e p a pr t run pmr lines"
  shows "if \<exists>i. E i then E id0 \<and> is_arg_min (\<lambda>j. (uint (pr ! j), j)) E id0 else id0 = 1023"
proof -
  obtain best bp where f: "fold (scan_step e p a pr t pmr) [0..<min lines 64] (1023, run) = (best, bp)" by fastforce
  have b: "id0 = best" using f by (simp add: id0_def oemu_gicv2_internal_scan_def)
  show ?thesis
  proof (cases "\<exists>i. E i")
    case True
    with scan_fold [OF f] have best: "E best"
      "\<And>j. E j \<Longrightarrow> uint (pr ! best) < uint (pr ! j) \<or> uint (pr ! best) = uint (pr ! j) \<and> best \<le> j"
      by (auto simp: E_def)
    have "\<not> (uint (pr ! j), j) < (uint (pr ! best), best)" if "E j" for j
      using best(2) [OF that] by auto
    with best(1) True show ?thesis by (auto simp: b is_arg_min_def)
  next
    case False
    with scan_fold [OF f] b show ?thesis by (auto simp: E_def)
  qed
qed

text \<open>
  The priority scan is the architecture's choice: the line it returns is one of the
  enabled, pending, inactive, targeted lines that beat both the priority mask and the running
  priority; no such line has a smaller priority value, and among equals it has the smallest number. It
  returns the spurious number 1023 exactly when there is no such line.
\<close>

theorem gic_scan_spec:
  "let run = gic_running_priority gic; pmr = g_cpu_pmr gic AND 0xFF;
       E = (\<lambda>i. i < min (lines_of gic) 64 \<and> eligible (g_enable gic) (g_pending gic) (g_active gic) (g_priority gic)
              (g_target gic) run pmr i);
       line = gic_scan gic
   in if \<exists>i. E i
      then E line \<and> is_arg_min (\<lambda>j. (uint (g_priority gic ! j), j)) E line
      else line = 1023"
  using scan_cases [of "lines_of gic" "g_enable gic" "g_pending gic" "g_active gic" "g_priority gic" "g_target gic"
      "gic_running_priority gic" "g_cpu_pmr gic AND 0xFF"]
  by (simp only: Let_def gic_scan_def)

section \<open>Running priority\<close>

lemma running_fold:
  "fold (\<lambda>i best. if a ! i \<noteq> 0 \<and> ucast (pr ! i) < best then ucast (pr ! i) else best) [0..<n] (256 :: u32) = r \<Longrightarrow>
   (\<forall>i<n. a ! i \<noteq> (0 :: u8) \<longrightarrow> uint r \<le> uint (pr ! i :: u8)) \<and>
   (r = 256 \<and> (\<forall>i<n. a ! i = 0) \<or> (\<exists>i<n. a ! i \<noteq> 0 \<and> r = ucast (pr ! i)))"
proof (induction n arbitrary: r)
  case (Suc n)
  let ?r = "fold (\<lambda>i best. if a ! i \<noteq> 0 \<and> ucast (pr ! i) < best then ucast (pr ! i) else best) [0..<n] (256 :: u32)"
  have r: "r = (if a ! n \<noteq> 0 \<and> uint (pr ! n) < uint ?r then ucast (pr ! n) else ?r)" using Suc.prems [symmetric] by simp
  have "uint (pr ! n) < 256" using uint_bounded [of "pr ! n"] by simp
  with Suc.IH [OF refl] r show ?case by (auto simp: less_Suc_eq)
qed simp

lemma running_priority_spec:
  "i < 64 \<Longrightarrow> g_active gic ! i \<noteq> 0 \<Longrightarrow> uint (gic_running_priority gic) \<le> uint (g_priority gic ! i)"
  "gic_running_priority gic = 256 \<and> (\<forall>i<64. g_active gic ! i = 0) \<or>
   (\<exists>i<64. g_active gic ! i \<noteq> 0 \<and> gic_running_priority gic = ucast (g_priority gic ! i))"
  using running_fold [of "g_active gic" "g_priority gic" 64, OF refl]
  by (auto simp: gic_running_priority_def)

section \<open>Every access keeps the controller sound\<close>

definition gic_inv :: "oemu_gicv2 \<Rightarrow> bool" where
  "gic_inv gic \<longleftrightarrow> length (g_enable gic) = 64 \<and> length (g_pending gic) = 64 \<and> length (g_active gic) = 64 \<and>
     length (g_config gic) = 64 \<and> length (g_group gic) = 64 \<and> length (g_priority gic) = 64 \<and>
     length (g_target gic) = 64 \<and> lines_of gic \<le> 64"

lemma length_fold_update [simp]:
  "length (fold (\<lambda>b s. if P b then s[f b := g b] else s) bs s) = length s"
  by (induction bs arbitrary: s) auto

lemma init_sound:
  assumes a: "oemu_gicv2_init lines = Some gic"
  shows gic_inv_init: "gic_inv gic" and lines_of_init: "lines_of gic = lines"
proof -
  from a have "lines mod 32 = 0" "32 \<le> lines" "lines \<le> 64"
    by (simp_all add: oemu_gicv2_init_def bind_eq_Some_conv)
  then have "lines = 32 \<or> lines = 64" by presburger
  with a show "gic_inv gic" "lines_of gic = lines"
    by (auto simp: oemu_gicv2_init_def gic_inv_def lines_of_def)
qed

lemma length_poke_bank [simp]: "length (poke_bank s b m k) = length s"
  by (simp add: poke_bank_def)

lemma gic_inv_dist: "gic_inv gic \<Longrightarrow> gic_inv (dist_update gic off v)"
  unfolding dist_update_def Let_def gic_inv_def lines_of_def by simp

lemma gic_inv_ack: "gic_inv gic \<Longrightarrow> gic_inv (snd (gic_acknowledge gic))"
  by (simp add: gic_inv_def gic_acknowledge_def lines_of_def Let_def)

lemma gic_inv_cpu:
  "gic_inv gic \<Longrightarrow> gic_inv (snd (cpu_read gic off sz))"
  "gic_inv gic \<Longrightarrow> gic_inv (snd (cpu_write gic off sz w))"
proof -
  show "gic_inv gic \<Longrightarrow> gic_inv (snd (cpu_read gic off sz))"
    using gic_inv_ack [of gic] by (cases "gic_acknowledge gic") (simp add: cpu_read_def Let_def)
  show "gic_inv gic \<Longrightarrow> gic_inv (snd (cpu_write gic off sz w))"
    by (simp add: cpu_write_def Let_def gic_inv_def lines_of_def)
qed

lemma gic_inv_set_pending: "gic_inv gic \<Longrightarrow> gic_inv (oemu_gicv2_set_pending gic n l)"
  by (simp add: gic_inv_def oemu_gicv2_set_pending_def lines_of_def)

interpretation gic_dist: device dist_ops gic_inv
  by unfold_locales (auto simp: dist_ops_def dist_read_def dist_write_def gic_inv_dist)

lemma cpu_access_ok: "\<exists>v. fst (cpu_read gic off sz) = Inr v" "fst (cpu_write gic off sz w) = OEMU_OK"
  by (simp_all add: cpu_read_def cpu_write_def Let_def split: prod.split)

interpretation gic_cpu: device cpu_ops gic_inv
proof unfold_locales
  fix d off sz r d'
  assume "gic_inv d" "dv_read cpu_ops d off sz = (r, d')"
  then show "gic_inv d' \<and> r \<noteq> Inl OEMU_OK \<and> (\<forall>st. r = Inl st \<longrightarrow> d' = d)"
    using gic_inv_cpu(1) [of d off sz] cpu_access_ok(1) [of d off sz] by (auto simp: cpu_ops_def)
next
  fix d off sz v st d'
  assume "gic_inv d" "dv_write cpu_ops d off sz v = (st, d')"
  then show "gic_inv d' \<and> (st \<noteq> OEMU_OK \<longrightarrow> d' = d)"
    using gic_inv_cpu(2) [of d off sz v] cpu_access_ok(2) [of d off sz v] by (auto simp: cpu_ops_def)
qed

lemma gic_lines: "gic_inv g \<Longrightarrow> lines_of g = 32 \<or> lines_of g = 64"
  by (auto simp: gic_inv_def lines_of_def)

lemma dist_identity: "gic_inv g \<Longrightarrow> dist_value g 0xFE8 = 0x2B"
  using gic_lines [of g] by (auto simp: dist_value_def in_bank_def dist_read_plain_def)

text \<open>
  Register accesses of both windows: every offset, size and value is accepted, never a
  fault, and any sequence of accesses to the two windows keeps the controller sound with its number
  of lines, whatever the guest does; the identification register always answers the value the
  driver insists on.
\<close>

theorem gic_accesses_sound:
  assumes "oemu_gicv2_init lines = Some g0"
    and "g = fold (\<lambda>(dist, x). dev_access (if dist then dist_ops else cpu_ops) x) xs g0"
  shows "gic_inv g \<and> oemu_gicv2_nr_lines g = lines \<and> dist_value g 0xFE8 = 0x2B \<and>
    (\<exists>r. fst (dist_read g off sz) = Inr r) \<and> fst (dist_write g off sz v) = OEMU_OK \<and>
    (\<exists>r. fst (cpu_read g off sz) = Inr r) \<and> fst (cpu_write g off sz v) = OEMU_OK"
proof -
  let ?step = "\<lambda>(dist, x). dev_access (if dist then dist_ops else cpu_ops) x"
  have "gic_inv h \<Longrightarrow> gic_inv (?step y h)" for y h
    using gic_dist.access_inv gic_cpu.access_inv by (cases y) auto
  then have inv: "gic_inv h \<Longrightarrow> gic_inv (fold ?step ys h)" for ys h by (induction ys arbitrary: h) auto
  have "lines_of (?step y h) = lines_of h" for y h
    by (cases y) (auto simp: dev_access_def dist_ops_def cpu_ops_def dist_read_def dist_write_def dist_update_def
        cpu_read_def cpu_write_def gic_acknowledge_def lines_of_def Let_def split: option.splits prod.splits)
  then have "lines_of (fold ?step ys h) = lines_of h" for ys h by (induction ys arbitrary: h) auto
  then have "oemu_gicv2_nr_lines g = lines"
    using assms lines_of_init by (simp add: oemu_gicv2_nr_lines_def)
  with inv [OF gic_inv_init [OF assms(1)], of xs] show ?thesis
    unfolding assms(2) by (simp add: dist_identity dist_read_def dist_write_def cpu_access_ok)
qed

section \<open>Acknowledgement and end of interrupt\<close>

lemma scan_eligible:
  assumes "gic_scan gic \<noteq> 1023"
  shows "gic_scan gic < 64" "gic_scan gic < lines_of gic" "g_active gic ! gic_scan gic = 0"
    "uint (g_priority gic ! gic_scan gic) < uint (gic_running_priority gic)"
  using assms scan_cases [of "lines_of gic" "g_enable gic" "g_pending gic" "g_active gic" "g_priority gic" "g_target gic"
      "gic_running_priority gic" "g_cpu_pmr gic AND 0xFF"]
  unfolding gic_scan_def [symmetric] by (auto simp: eligible_def split: if_splits)

lemma running_priority_cong:
  "g_active g = g_active h \<Longrightarrow> g_priority g = g_priority h \<Longrightarrow> gic_running_priority g = gic_running_priority h"
  by (simp add: gic_running_priority_def cong: if_cong)

lemma running_priority_updates [simp]:
  "gic_running_priority (g\<lparr>g_running_pri := x\<rparr>) = gic_running_priority g"
  "gic_running_priority (g\<lparr>g_pending := p\<rparr>) = gic_running_priority g"
  by (rule running_priority_cong; simp)+

lemma running_priority_ack:
  assumes "g_active g1 = (g_active g)[line := 1]" "g_priority g1 = g_priority g" "length (g_active g) = 64" "line < 64"
    and less: "uint (g_priority g ! line) < uint (gic_running_priority g)"
  shows "gic_running_priority g1 = ucast (g_priority g ! line)"
proof -
  have on: "g_active g1 ! line \<noteq> 0" using assms(1,3,4) by simp
  then obtain i where i: "i < 64" "g_active g1 ! i \<noteq> 0" "gic_running_priority g1 = ucast (g_priority g ! i)"
    using running_priority_spec(2) [of g1] assms(2,4) by auto
  have le: "uint (g_priority g ! i) \<le> uint (g_priority g ! line)"
    using running_priority_spec(1) [OF assms(4) on] i(3) assms(2) by simp
  have "i = line"
  proof (rule ccontr)
    assume "i \<noteq> line"
    then have "g_active g ! i \<noteq> 0" using i(1,2) assms(1,3) by simp
    from running_priority_spec(1) [OF i(1) this] le less show False by simp
  qed
  with i(3) show ?thesis by simp
qed

text \<open>
  Property C27. Taking an interrupt, while the distributor and the CPU interface are both enabled: the
  interrupt line to the core is up exactly when reading the acknowledge register would return a real line. The read makes that line active
  and no longer pending and changes no other line; its priority becomes the running priority; writing
  the number to the end-of-interrupt register makes the set of active lines and the running priority
  what they were before, with only the pending bit consumed.
\<close>

theorem gic_acknowledge_eoi:
  assumes "gic_inv g" and "g_ctl g AND 1 \<noteq> 0" and "g_cpu_ctl g AND 1 \<noteq> 0"
  shows "\<exists>line g1. cpu_read g 0xC OEMU_MEM_WORD = (Inr (of_nat line), g1) \<and>
    oemu_gicv2_irq_level g = (line \<noteq> 1023) \<and>
    (if line = 1023 then g1 = g
     else line < 64 \<and> g_active g ! line = 0 \<and> g_active g1 = (g_active g)[line := 1] \<and>
       g_pending g1 = (g_pending g)[line := 0] \<and>
       gic_running_priority g1 = ucast (g_priority g ! line) \<and>
       (let g2 = snd (cpu_write g1 0x10 OEMU_MEM_WORD (of_nat line))
        in g_active g2 = g_active g \<and> gic_running_priority g2 = gic_running_priority g \<and>
           g2 = g\<lparr>g_pending := (g_pending g)[line := 0], g_running_pri := gic_running_priority g\<rparr>))"
proof -
  let ?line = "gic_scan g" and ?g1 = "snd (gic_acknowledge g)"
  have r: "cpu_read g 0xC OEMU_MEM_WORD = (Inr (of_nat ?line), ?g1)"
    by (simp add: cpu_read_def gic_acknowledge_def Let_def)
  have l: "oemu_gicv2_irq_level g = (?line \<noteq> 1023)" using assms(2,3) by (simp add: oemu_gicv2_irq_level_def)
  show ?thesis
  proof (cases "?line = 1023")
    case True
    with r l show ?thesis by (intro exI [of _ ?line] exI [of _ g]) (simp add: gic_acknowledge_def)
  next
    case False
    note e = scan_eligible [OF False]
    have len: "length (g_active g) = 64" using assms(1) by (simp add: gic_inv_def)
    have g1: "g_active ?g1 = (g_active g)[?line := 1]" "g_pending ?g1 = (g_pending g)[?line := 0]"
      "g_priority ?g1 = g_priority g" using False by (simp_all add: gic_acknowledge_def Let_def)
    have run: "gic_running_priority ?g1 = ucast (g_priority g ! ?line)"
      using running_priority_ack [OF g1(1,3) len e(1,4)] .
    have "(0x3FF :: u32) = mask 10" by (simp add: mask_eq_exp_minus_1)
    then have id: "unat (ucast (of_nat ?line :: u64) AND 0x3FF :: u32) = ?line"
      using e(1) by (simp only: unat_and_mask) (simp add: unsigned_ucast_eq unsigned_of_nat take_bit_nat_eq_self)
    let ?g2 = "snd (cpu_write ?g1 0x10 OEMU_MEM_WORD (of_nat ?line))"
    have act: "g_active ?g2 = g_active g" and pri: "g_priority ?g2 = g_priority g"
      using e(1,3) id len g1(1,3) by (simp_all add: cpu_write_def Let_def list_update_same_conv)
    have run2: "gic_running_priority ?g2 = gic_running_priority g" by (rule running_priority_cong [OF act pri])
    have "g_running_pri ?g2 = gic_running_priority ?g2"
      by (simp add: cpu_write_def Let_def)
    with run2 have rp: "g_running_pri ?g2 = gic_running_priority g" by simp
    have "?g2 = g\<lparr>g_pending := (g_pending g)[?line := 0], g_running_pri := gic_running_priority g\<rparr>"
      using act pri rp g1(2) False
      by (intro oemu_gicv2.equality) (simp_all add: cpu_write_def gic_acknowledge_def Let_def)
    with r l False e g1 run act run2 show ?thesis
      by (intro exI [of _ ?line] exI [of _ ?g1]) (simp add: Let_def)
  qed
qed

section \<open>The banked registers\<close>

lemma nth_fold_update:
  "i < length s \<Longrightarrow> fold (\<lambda>b s. if P b then s[base + b := c] else s) [0..<n] s ! i =
    (if base \<le> i \<and> i < base + n \<and> P (i - base) then c else s ! i)"
proof (induction n)
  case (Suc n)
  then show ?case by (auto simp: nth_list_update less_Suc_eq)
qed auto

lemma nth_poke_bank:
  "length s = 64 \<Longrightarrow> i < 64 \<Longrightarrow> poke_bank s base m k ! i =
    (if base \<le> i \<and> i < base + 32 \<and> bit m (i - base) then (if k then 1 else 0) else s ! i)"
  unfolding poke_bank_def using nth_fold_update [of i s "\<lambda>b. drop_bit b m AND 1 \<noteq> 0 \<and> base + b < 64" base "if k then 1 else 0" 32]
  by (auto simp: and_one_eq bit_iff_odd_drop_bit odd_iff_mod_2_eq_one)

lemma bit_pack_bank:
  "bit (pack_bank s base) b \<longleftrightarrow> b < 32 \<and> base + b < 64 \<and> s ! (base + b) \<noteq> 0"
proof -
  have "n \<le> 32 \<Longrightarrow> bit (fold (\<lambda>b v. if P b then v OR push_bit b (1 :: u32) else v) [0..<n] 0) b \<longleftrightarrow> b < n \<and> P b" for n P
  proof (induction n)
    case (Suc n)
    then show ?case by (auto simp: bit_simps less_Suc_eq)
  qed simp
  from this [of 32] show ?thesis unfolding pack_bank_def by simp
qed

text \<open>The pairs of set and clear registers for word \<open>k\<close> of the enable, pending and active state.\<close>

definition bank_pairs :: "(u64 \<times> u64 \<times> (oemu_gicv2 \<Rightarrow> u8 list)) set" where
  "bank_pairs = {(DIST_ISENABLER0, DIST_ICENABLER0, g_enable), (DIST_ISPENDR0, DIST_ICPENDR0, g_pending),
     (DIST_ISACTIVER0, DIST_ICACTIVER0, g_active)}"

lemma bank_access:
  assumes "(s, c, field) \<in> bank_pairs" "k < 2"
  shows "dist_value g (s + 4 * of_nat k) = pack_bank (field g) (32 * k)"
    "dist_value g (c + 4 * of_nat k) = pack_bank (field g) (32 * k)"
    "field (dist_update g (s + 4 * of_nat k) v) = poke_bank (field g) (32 * k) v True"
    "field (dist_update g (c + 4 * of_nat k) v) = poke_bank (field g) (32 * k) v False"
proof -
  have k: "k = 0 \<or> k = 1" using assms(2) by (simp add: less_2_cases_iff)
  have p: "(s, c, field) = (DIST_ISENABLER0, DIST_ICENABLER0, g_enable) \<or>
    (s, c, field) = (DIST_ISPENDR0, DIST_ICPENDR0, g_pending) \<or>
    (s, c, field) = (DIST_ISACTIVER0, DIST_ICACTIVER0, g_active)"
    using assms(1) by (simp add: bank_pairs_def)
  show "dist_value g (s + 4 * of_nat k) = pack_bank (field g) (32 * k)"
    "dist_value g (c + 4 * of_nat k) = pack_bank (field g) (32 * k)"
    using k p by (elim disjE; simp add: dist_value_def in_bank_def bank_word_def)+
  show "field (dist_update g (s + 4 * of_nat k) v) = poke_bank (field g) (32 * k) v True"
    "field (dist_update g (c + 4 * of_nat k) v) = poke_bank (field g) (32 * k) v False"
    using k p by (elim disjE; simp add: dist_update_def in_bank_def bank_word_def)+
qed

text \<open>
  The banked registers of the distributor: for the enable, pending and active state of
  each word of 32 lines, writing a mask to the set register turns those lines on and writing it to the
  clear register turns them off, lines not named keep their state, and both registers read back the
  state.
\<close>

theorem gic_bank_write_read:
  assumes "gic_inv g" and "(s, c, field) \<in> bank_pairs" and "k < 2"
  shows "dist_value (dist_update g (s + 4 * of_nat k) v) (s + 4 * of_nat k) = dist_value g (s + 4 * of_nat k) OR v \<and>
    dist_value (dist_update g (c + 4 * of_nat k) v) (s + 4 * of_nat k) = dist_value g (s + 4 * of_nat k) AND NOT v \<and>
    dist_value g (c + 4 * of_nat k) = dist_value g (s + 4 * of_nat k) \<and>
    dist_value (dist_update g (s + 4 * of_nat k) v) (s + 4 * of_nat (1 - k)) = dist_value g (s + 4 * of_nat (1 - k))"
proof -
  have len: "length (field g) = 64" using assms(1,2) by (auto simp: gic_inv_def bank_pairs_def)
  have k: "1 - k < 2" using assms(3) by simp
  note B = bank_access [OF assms(2,3)] and B' = bank_access(1) [OF assms(2) k]
  have "pack_bank (poke_bank (field g) (32 * k) v True) (32 * k) = pack_bank (field g) (32 * k) OR v"
    "pack_bank (poke_bank (field g) (32 * k) v False) (32 * k) = pack_bank (field g) (32 * k) AND NOT v"
    "pack_bank (poke_bank (field g) (32 * k) v True) (32 * (1 - k)) = pack_bank (field g) (32 * (1 - k))"
    using len assms(3)
    by (rule_tac [!] bit_word_eqI)
      (auto simp: bit_pack_bank nth_poke_bank bit_simps less_2_cases_iff split: if_split_asm)
  with B B' show ?thesis by simp
qed

section \<open>Nesting\<close>

text \<open>
  The controller as a state machine. Sources drive pending bits, the CPU interface is read and written
  freely, and the distributor is read and written anywhere, priorities included, as long as a write
  neither forces a line active (the set-active bank) nor changes the priority of a line that is active.
\<close>

inductive gic_step :: "oemu_gicv2 \<Rightarrow> oemu_gicv2 \<Rightarrow> bool" where
  source: "gic_step g (oemu_gicv2_set_pending g n level)"
| cpu_rd: "cpu_read g off sz = (r, g') \<Longrightarrow> gic_step g g'"
| cpu_wr: "cpu_write g off sz v = (st, g') \<Longrightarrow> gic_step g g'"
| dist_rd: "dist_read g off sz = (r, g') \<Longrightarrow> gic_step g g'"
| dist_wr: "dist_write g off sz v = (st, g') \<Longrightarrow> \<not> in_bank off DIST_ISACTIVER0 0x80 \<Longrightarrow>
    \<forall>i<64. g_active g ! i \<noteq> 0 \<longrightarrow> g_priority g' ! i = g_priority g ! i \<Longrightarrow> gic_step g g'"

inductive_cases gic_stepE: "gic_step g g'"

text \<open>The active lines have pairwise distinct priorities: they form a preemption stack.\<close>

definition nested :: "oemu_gicv2 \<Rightarrow> bool" where
  "nested g \<longleftrightarrow> gic_inv g \<and> (\<forall>i<64. \<forall>j<64. g_active g ! i \<noteq> 0 \<and> g_active g ! j \<noteq> 0 \<and>
     g_priority g ! i = g_priority g ! j \<longrightarrow> i = j)"

lemma nested_mono:
  assumes "nested g" "gic_inv g'" "\<forall>i<64. g_active g ! i \<noteq> 0 \<longrightarrow> g_priority g' ! i = g_priority g ! i"
    "\<And>i. i < 64 \<Longrightarrow> g_active g' ! i \<noteq> 0 \<Longrightarrow> g_active g ! i \<noteq> 0"
  shows "nested g'"
  unfolding nested_def
proof (intro conjI allI impI assms(2))
  fix i j
  assume "i < 64" "j < 64" "g_active g' ! i \<noteq> 0 \<and> g_active g' ! j \<noteq> 0 \<and> g_priority g' ! i = g_priority g' ! j"
  with assms(3,4) have "g_active g ! i \<noteq> 0" "g_active g ! j \<noteq> 0" "g_priority g ! i = g_priority g ! j" by auto
  with \<open>i < 64\<close> \<open>j < 64\<close> assms(1) show "i = j" by (simp add: nested_def)
qed

lemma nested_ack:
  assumes "nested g"
  shows "nested (snd (gic_acknowledge g))"
proof (cases "gic_scan g = 1023")
  case False
  note e = scan_eligible [OF False]
  have inv: "gic_inv g" using assms by (simp add: nested_def)
  have "uint (g_priority g ! gic_scan g) < uint (g_priority g ! i)" if "i < 64" "g_active g ! i \<noteq> 0" for i
    using running_priority_spec(1) [OF that] e(4) by simp
  then have ne: "g_priority g ! gic_scan g \<noteq> g_priority g ! i" if "i < 64" "g_active g ! i \<noteq> 0" for i
    using that by fastforce
  let ?g = "snd (gic_acknowledge g)"
  have act: "g_active ?g ! i = (if i = gic_scan g then 1 else g_active g ! i)" if "i < 64" for i
    using False that inv by (simp add: gic_acknowledge_def Let_def gic_inv_def nth_list_update)
  have pri: "g_priority ?g = g_priority g" by (simp add: gic_acknowledge_def Let_def)
  have "i = j" if ij: "i < 64" "j < 64" "g_active ?g ! i \<noteq> 0" "g_active ?g ! j \<noteq> 0" "g_priority g ! i = g_priority g ! j" for i j
  proof (cases "i = gic_scan g \<or> j = gic_scan g")
    case True
    then show ?thesis using ij act [OF ij(1)] act [OF ij(2)] ne [OF ij(1)] ne [OF ij(2)] by (auto split: if_splits)
  next
    case False
    then have "g_active g ! i \<noteq> 0" "g_active g ! j \<noteq> 0" using ij act by simp_all
    then show ?thesis using assms ij by (simp add: nested_def)
  qed
  then show ?thesis using gic_inv_ack [OF inv] by (simp add: nested_def pri)
qed (use assms in \<open>simp add: gic_acknowledge_def\<close>)

lemma nth_clear: "i < length xs \<Longrightarrow> xs[n := 0] ! i \<noteq> (0 :: u8) \<Longrightarrow> xs ! i \<noteq> 0"
  by (cases "n = i") auto

lemma nested_step:
  assumes "gic_step g g'" "nested g"
  shows "nested g'"
  using assms(1)
proof cases
  case (source n level)
  have "gic_inv g'" using assms(2) by (simp add: nested_def source gic_inv_set_pending)
  moreover have "g_priority g' = g_priority g" "g_active g' = g_active g"
    by (simp_all add: source oemu_gicv2_set_pending_def)
  ultimately show ?thesis by (intro nested_mono [OF assms(2)]) simp_all
next
  case (cpu_rd off sz r)
  then show ?thesis using assms(2) nested_ack [OF assms(2)]
    by (auto simp: cpu_read_def Let_def split: if_splits prod.splits)
next
  case (cpu_wr off sz v st)
  have inv: "gic_inv g" using assms(2) by (simp add: nested_def)
  have "gic_inv g'" using gic_inv_cpu(2) [OF inv, of off sz v] cpu_wr by simp
  moreover have "g' = snd (cpu_write g off sz v)" using cpu_wr by simp
  then have "g_priority g' = g_priority g" "g_active g' = g_active g \<or> (\<exists>n. g_active g' = (g_active g)[n := 0])"
    by (auto simp: cpu_write_def Let_def)
  moreover have "g_active g' ! i \<noteq> 0 \<Longrightarrow> g_active g ! i \<noteq> 0" if "i < 64" for i
    using calculation(3) nth_clear [of i "g_active g"] inv that by (auto simp: gic_inv_def)
  ultimately show ?thesis by (intro nested_mono [OF assms(2)]) simp_all
next
  case (dist_rd off sz r)
  then show ?thesis using assms(2) by (simp add: dist_read_def)
next
  case (dist_wr off sz v st)
  have inv: "gic_inv g" using assms(2) by (simp add: nested_def)
  have g': "g' = dist_update g off (ucast v)" using dist_wr(1) by (simp add: dist_write_def)
  have "gic_inv g'" using gic_inv_dist [OF inv] by (simp add: g')
  moreover have "g_active g' = g_active g \<or> (\<exists>base m. g_active g' = poke_bank (g_active g) base m False)"
    using dist_wr(2) by (simp add: g' dist_update_def Let_def) blast
  ultimately show ?thesis
    using inv by (intro nested_mono [OF assms(2) _ dist_wr(3)]) (auto simp: gic_inv_def nth_poke_bank split: if_splits)
qed

text \<open>
  Property C28. Preemption nests: in every state reachable from reset by raising and clearing sources,
  reading and writing the CPU interface and reading and writing the distributor, where a write neither
  forces a line active nor rewrites the priority of a line that is active, no two active lines have the
  same priority, so the active interrupts form a stack; and the next line acknowledged is strictly more
  urgent than every line already active.
\<close>

theorem gic_preemption_nests:
  assumes "oemu_gicv2_init lines = Some g0" and "gic_step\<^sup>*\<^sup>* g0 g"
  shows "nested g \<and>
    (gic_scan g = 1023 \<or>
     (\<forall>i<64. g_active g ! i \<noteq> 0 \<longrightarrow> uint (g_priority g ! gic_scan g) < uint (g_priority g ! i)))"
proof
  have "nested g0"
    using gic_inv_init [OF assms(1)] assms(1)
    by (auto simp: nested_def oemu_gicv2_init_def bind_eq_Some_conv)
  with assms(2) show "nested g"
    by (induction rule: rtranclp_induct) (auto intro: nested_step)
  show "gic_scan g = 1023 \<or>
     (\<forall>i<64. g_active g ! i \<noteq> 0 \<longrightarrow> uint (g_priority g ! gic_scan g) < uint (g_priority g ! i))"
    using scan_eligible(4) [of g] running_priority_spec(1) [of _ g] by (metis order_less_le_trans)
qed

section \<open>Sample states\<close>

text \<open>A controller of 64 lines with line 33 enabled and pending, both enables set and the mask open.\<close>

definition sample_gic :: oemu_gicv2 where
  "sample_gic = \<lparr>g_ctl = 1, g_typer = push_bit 16 16 OR 1, g_iidr = 0, g_cpu_ctl = 1,
     g_cpu_pmr = 0xFF, g_cpu_bpr = 0, g_running_pri = 0, g_ccpner = 0,
     g_enable = (replicate 64 0)[33 := 1], g_pending = (replicate 64 0)[33 := 1],
     g_active = replicate 64 0, g_config = replicate 64 0, g_group = replicate 64 0,
     g_priority = replicate 64 0x80, g_target = replicate 64 1, g_sgir = 0\<rparr>"

lemma sample_gic_inv: "gic_inv sample_gic"
  by (simp add: gic_inv_def sample_gic_def lines_of_def)

lemma sample_gic_scan: "gic_scan sample_gic = 33"
  by code_simp

theorem gic_acknowledge_eoi_witness:
  "gic_inv sample_gic \<and> g_ctl sample_gic AND 1 \<noteq> 0 \<and> g_cpu_ctl sample_gic AND 1 \<noteq> 0 \<and> gic_scan sample_gic = 33 \<and>
   (\<exists>line g1. cpu_read sample_gic 0xC OEMU_MEM_WORD = (Inr (of_nat line), g1) \<and>
      oemu_gicv2_irq_level sample_gic = (line \<noteq> 1023) \<and>
      (line \<noteq> 1023 \<longrightarrow> g_active g1 = (g_active sample_gic)[line := 1] \<and>
        g_active (snd (cpu_write g1 0x10 OEMU_MEM_WORD (of_nat line))) = g_active sample_gic))"
proof -
  have en: "g_ctl sample_gic AND 1 \<noteq> 0" "g_cpu_ctl sample_gic AND 1 \<noteq> 0" by (simp_all add: sample_gic_def)
  from gic_acknowledge_eoi [OF sample_gic_inv en] sample_gic_inv en sample_gic_scan show ?thesis
    unfolding Let_def by (metis (full_types))
qed

theorem gic_accesses_sound_witness:
  "\<exists>g0. oemu_gicv2_init 64 = Some g0 \<and>
     gic_inv (fold (\<lambda>(dist, x). dev_access (if dist then dist_ops else cpu_ops) x)
       [(True, 0x104, OEMU_MEM_WORD, Some 2), (False, 0xC, OEMU_MEM_WORD, None)] g0)"
proof -
  obtain g0 where "oemu_gicv2_init 64 = Some g0" by (simp add: oemu_gicv2_init_def)
  with gic_accesses_sound [OF this refl] show ?thesis by blast
qed

theorem gic_bank_write_read_witness:
  "(DIST_ISENABLER0, DIST_ICENABLER0, g_enable) \<in> bank_pairs \<and>
   dist_value (dist_update sample_gic (DIST_ISENABLER0 + 4 * of_nat 1) 0xF0) (DIST_ISENABLER0 + 4 * of_nat 1) =
     dist_value sample_gic (DIST_ISENABLER0 + 4 * of_nat 1) OR 0xF0"
proof -
  have b: "(DIST_ISENABLER0, DIST_ICENABLER0, g_enable) \<in> bank_pairs" by (simp add: bank_pairs_def)
  from gic_bank_write_read [OF sample_gic_inv b, of 1 "0xF0"] b show ?thesis by simp
qed

text \<open>Line 34 is made more urgent than line 33 and preempts it: both are active in the end.\<close>

definition nest_sources :: "oemu_gicv2 \<Rightarrow> oemu_gicv2" where
  "nest_sources g = (let
     g = snd (dist_write g 0x420 OEMU_MEM_WORD 0x80408080);
     g = snd (dist_write g 0x104 OEMU_MEM_WORD 0x6);
     g = snd (cpu_write g 0x4 OEMU_MEM_WORD 0xFF);
     g = snd (cpu_read (oemu_gicv2_set_pending g 33 True) 0xC OEMU_MEM_WORD)
   in snd (cpu_read (oemu_gicv2_set_pending g 34 True) 0xC OEMU_MEM_WORD))"

definition reset_gic :: oemu_gicv2 where
  "reset_gic = the (oemu_gicv2_init 64)"

lemma reset_gic: "oemu_gicv2_init 64 = Some reset_gic" "g_active reset_gic = replicate 64 0"
  by (simp_all add: reset_gic_def oemu_gicv2_init_def)

lemma nest_sources_active:
  "g_active (nest_sources reset_gic) ! 33 = 1" "g_active (nest_sources reset_gic) ! 34 = 1"
  "g_priority (nest_sources reset_gic) ! 33 = 0x80" "g_priority (nest_sources reset_gic) ! 34 = 0x40"
  by code_simp+

lemma gic_step_snd:
  "gic_step g (snd (cpu_read g off sz))" "gic_step g (snd (cpu_write g off sz v))"
  "\<not> in_bank off DIST_ISACTIVER0 0x80 \<Longrightarrow>
     \<forall>i<64. g_active g ! i \<noteq> 0 \<longrightarrow> g_priority (snd (dist_write g off sz v)) ! i = g_priority g ! i \<Longrightarrow>
     gic_step g (snd (dist_write g off sz v))"
  using gic_step.cpu_rd [OF surjective_pairing] gic_step.cpu_wr [OF surjective_pairing] gic_step.dist_wr [OF surjective_pairing] by blast+

lemma nest_sources_steps: "gic_step\<^sup>*\<^sup>* reset_gic (nest_sources reset_gic)"
proof -
  let ?g = "snd (dist_write reset_gic 0x420 OEMU_MEM_WORD 0x80408080)"
  have "gic_step reset_gic ?g" by (rule gic_step_snd(3)) (simp_all add: in_bank_def reset_gic(2))
  moreover have "g_active ?g = replicate 64 0" by (simp add: dist_write_def dist_update_def Let_def in_bank_def reset_gic(2))
  then have "gic_step ?g (snd (dist_write ?g 0x104 OEMU_MEM_WORD 0x6))" by (intro gic_step_snd(3)) (simp_all add: in_bank_def)
  ultimately show ?thesis unfolding nest_sources_def Let_def
    by (meson converse_rtranclp_into_rtranclp rtranclp.rtrancl_refl gic_step_snd(1,2) gic_step.source)
qed

theorem gic_preemption_nests_witness:
  "nested (nest_sources reset_gic) \<and>
   g_active (nest_sources reset_gic) ! 33 \<noteq> 0 \<and> g_active (nest_sources reset_gic) ! 34 \<noteq> 0"
  using gic_preemption_nests [OF reset_gic(1) nest_sources_steps] nest_sources_active by simp

end
