(* ===== verification/Oemu_Pl011.thy ===== *)
theory Oemu_Pl011
  imports Oemu_Device
begin

text \<open>
  The PL011 serial port (\<^verbatim>\<open>include/oemu/pl011.h\<close>, \<^verbatim>\<open>src/dev/pl011.c\<close>): the register file, the two rings,
  the flag register, the interrupt line and the console sink. The sink is a parameter of the device: a
  function on the installer's state. The rings are shown to implement two bounded queues.
\<close>

section \<open>State\<close>

abbreviation (input) OEMU_PL011_TX_RING :: nat where "OEMU_PL011_TX_RING \<equiv> 65536"
abbreviation (input) OEMU_PL011_RX_RING :: nat where "OEMU_PL011_RX_RING \<equiv> 16"

record 'u oemu_pl011 =
  ua_fr :: u32
  ua_cr :: u32
  ua_ibrd :: u32
  ua_fbrd :: u32
  ua_lcr_h :: u32
  ua_fifls :: u32
  ua_imsc :: u32
  ua_ris :: u32
  ua_tx :: "u8 list"
  ua_tx_head :: nat
  ua_tx_count :: nat
  ua_rx :: "u8 list"
  ua_rx_head :: nat
  ua_rx_tail :: nat
  ua_rx_count :: nat
  ua_tx_emitted :: u64
  ua_tx_dropped :: u64
  ua_rx_dropped :: u64
  ua_sink :: "('u \<Rightarrow> u8 \<Rightarrow> 'u) option"
  ua_sink_user :: 'u

abbreviation (input) PL011_FR_RXFE :: u32 where "PL011_FR_RXFE \<equiv> 0x10"
abbreviation (input) PL011_FR_TXFE :: u32 where "PL011_FR_TXFE \<equiv> 0x80"
abbreviation (input) PL011_CR_UARTEN :: u32 where "PL011_CR_UARTEN \<equiv> 0x01"
abbreviation (input) PL011_CR_FEN :: u32 where "PL011_CR_FEN \<equiv> 0x10"
abbreviation (input) PL011_CR_LBE :: u32 where "PL011_CR_LBE \<equiv> 0x80"
abbreviation (input) PL011_CR_TXE :: u32 where "PL011_CR_TXE \<equiv> 0x100"
abbreviation (input) PL011_CR_RXE :: u32 where "PL011_CR_RXE \<equiv> 0x200"
abbreviation (input) PL011_CR_RESET :: u32 where "PL011_CR_RESET \<equiv> PL011_CR_TXE OR PL011_CR_LBE"
abbreviation (input) PL011_INT_RX :: u32 where "PL011_INT_RX \<equiv> 0x10 OR 0x40"
abbreviation (input) PL011_INT_TXIS :: u32 where "PL011_INT_TXIS \<equiv> 0x20"
abbreviation (input) PL011_PID0 :: u32 where "PL011_PID0 \<equiv> 0x11"
abbreviation (input) PL011_PID1 :: u32 where "PL011_PID1 \<equiv> 0x10"
abbreviation (input) PL011_PID2 :: u32 where "PL011_PID2 \<equiv> 0x14"
abbreviation (input) PL011_PID3 :: u32 where "PL011_PID3 \<equiv> 0x00"
abbreviation (input) PL011_CID0 :: u32 where "PL011_CID0 \<equiv> 0x0D"
abbreviation (input) PL011_CID1 :: u32 where "PL011_CID1 \<equiv> 0xF0"
abbreviation (input) PL011_CID2 :: u32 where "PL011_CID2 \<equiv> 0x05"
abbreviation (input) PL011_CID3 :: u32 where "PL011_CID3 \<equiv> 0xB1"

definition oemu_pl011_init :: "('u \<Rightarrow> u8 \<Rightarrow> 'u) option \<Rightarrow> 'u \<Rightarrow> 'u oemu_pl011" where
  "oemu_pl011_init sink sink_user =
     \<lparr>ua_fr = 0, ua_cr = PL011_CR_RESET, ua_ibrd = 0, ua_fbrd = 0, ua_lcr_h = 0, ua_fifls = 0, ua_imsc = 0, ua_ris = 0,
      ua_tx = replicate OEMU_PL011_TX_RING 0, ua_tx_head = 0, ua_tx_count = 0,
      ua_rx = replicate OEMU_PL011_RX_RING 0, ua_rx_head = 0, ua_rx_tail = 0, ua_rx_count = 0,
      ua_tx_emitted = 0, ua_tx_dropped = 0, ua_rx_dropped = 0, ua_sink = sink, ua_sink_user = sink_user\<rparr>"

definition oemu_pl011_internal_update_flags :: "'u oemu_pl011 \<Rightarrow> 'u oemu_pl011" where
  "oemu_pl011_internal_update_flags uart =
     (let fr = PL011_FR_TXFE;
          fr = (if ua_rx_count uart = 0 then fr OR PL011_FR_RXFE else fr)
      in uart\<lparr>ua_fr := fr\<rparr>)"

definition pl011_tx_push :: "'u oemu_pl011 \<Rightarrow> u8 \<Rightarrow> 'u oemu_pl011" where
  "pl011_tx_push uart byte =
     (let uart = (if ua_tx_count uart \<ge> OEMU_PL011_TX_RING
                  then uart\<lparr>ua_tx_head := (ua_tx_head uart + 1) mod OEMU_PL011_TX_RING,
                            ua_tx_count := ua_tx_count uart - 1, ua_tx_dropped := ua_tx_dropped uart + 1\<rparr>
                  else uart);
          tail = (ua_tx_head uart + ua_tx_count uart) mod OEMU_PL011_TX_RING
      in uart\<lparr>ua_tx := (ua_tx uart)[tail := byte], ua_tx_count := ua_tx_count uart + 1\<rparr>)"

text \<open>One byte handed to the sink, if there is one.\<close>

definition sink_byte :: "'u oemu_pl011 \<Rightarrow> u8 \<Rightarrow> 'u oemu_pl011" where
  "sink_byte uart byte =
     (case ua_sink uart of None \<Rightarrow> uart | Some sink \<Rightarrow> uart\<lparr>ua_sink_user := sink (ua_sink_user uart) byte\<rparr>)"

definition oemu_pl011_inject :: "'u oemu_pl011 \<Rightarrow> u8 \<Rightarrow> oemu_status \<times> 'u oemu_pl011" where
  "oemu_pl011_inject uart byte =
     (if ua_cr uart AND (PL011_CR_UARTEN OR PL011_CR_RXE) \<noteq> (PL011_CR_UARTEN OR PL011_CR_RXE) then (OEMU_ERR_STATE, uart)
      else if ua_rx_count uart \<ge> OEMU_PL011_RX_RING then (OEMU_ERR_FULL, uart)
      else (OEMU_OK, oemu_pl011_internal_update_flags
             (uart\<lparr>ua_rx := (ua_rx uart)[ua_rx_tail uart := byte], ua_rx_tail := (ua_rx_tail uart + 1) mod OEMU_PL011_RX_RING,
                   ua_rx_count := ua_rx_count uart + 1, ua_ris := ua_ris uart OR PL011_INT_RX\<rparr>)))"

section \<open>Register accesses\<close>

text \<open>Reading the data register: the front of the receive ring, zero when it is empty.\<close>

definition read_dr :: "'u oemu_pl011 \<Rightarrow> u32 \<times> 'u oemu_pl011" where
  "read_dr uart =
     (let (v, uart) =
        (if ua_rx_count uart \<noteq> 0
         then (let v = ucast (ua_rx uart ! ua_rx_head uart);
                   uart = uart\<lparr>ua_rx_head := (ua_rx_head uart + 1) mod OEMU_PL011_RX_RING, ua_rx_count := ua_rx_count uart - 1\<rparr>
               in (v, if ua_rx_count uart = 0 then uart\<lparr>ua_ris := ua_ris uart AND NOT PL011_INT_RX\<rparr> else uart))
         else (0, uart))
      in (v, oemu_pl011_internal_update_flags uart))"

text \<open>The registers whose reading has no side effect.\<close>

definition read_plain :: "'u oemu_pl011 \<Rightarrow> u64 \<Rightarrow> u32" where
  "read_plain uart offset =
     (if offset = 0x18 then ua_fr uart
      else if offset = 0x20 then 0
      else if offset = 0x24 then ua_ibrd uart
      else if offset = 0x28 then ua_fbrd uart
      else if offset = 0x2C then ua_lcr_h uart
      else if offset = 0x30 then ua_cr uart
      else if offset = 0x34 then ua_fifls uart
      else if offset = 0x04 then 0
      else if offset = 0x38 then ua_imsc uart
      else if offset = 0x44 then 0
      else if offset = 0x3C then ua_ris uart
      else if offset = 0x40 then ua_ris uart AND ua_imsc uart
      else if offset = 0xFE0 then PL011_PID0
      else if offset = 0xFE4 then PL011_PID1
      else if offset = 0xFE8 then PL011_PID2
      else if offset = 0xFEC then PL011_PID3
      else if offset = 0xFF0 then PL011_CID0
      else if offset = 0xFF4 then PL011_CID1
      else if offset = 0xFF8 then PL011_CID2
      else if offset = 0xFFC then PL011_CID3
      else 0)"

definition pl011_read :: "'u oemu_pl011 \<Rightarrow> u64 \<Rightarrow> oemu_mem_size \<Rightarrow> (oemu_status + u64) \<times> 'u oemu_pl011" where
  "pl011_read uart offset sz =
     (if sz = OEMU_MEM_128 then (Inl OEMU_ERR_INVALID_ARG, uart)
      else let (v, uart) = (if offset = 0 then read_dr uart else (read_plain uart offset, uart))
           in (Inr (ucast v), uart))"

text \<open>Writing the data register: the byte goes to the sink at once, or into the transmit ring when the
  FIFO is on; with loopback it is received as well.\<close>

definition write_dr :: "'u oemu_pl011 \<Rightarrow> u32 \<Rightarrow> 'u oemu_pl011" where
  "write_dr uart v =
     (let uart = (if ua_cr uart AND PL011_CR_FEN = 0
                  then (sink_byte uart (ucast v))\<lparr>ua_tx_emitted := ua_tx_emitted uart + 1\<rparr>
                  else pl011_tx_push uart (ucast v));
          uart = uart\<lparr>ua_ris := ua_ris uart OR PL011_INT_TXIS\<rparr>
      in if ua_cr uart AND PL011_CR_LBE \<noteq> 0 \<and> ua_cr uart AND PL011_CR_RXE \<noteq> 0
         then (case oemu_pl011_inject uart (ucast v) of (st, uart) \<Rightarrow>
                 if st \<noteq> OEMU_OK then uart\<lparr>ua_rx_dropped := ua_rx_dropped uart + 1\<rparr> else uart)
         else uart)"

definition write_reg :: "'u oemu_pl011 \<Rightarrow> u64 \<Rightarrow> u32 \<Rightarrow> 'u oemu_pl011" where
  "write_reg uart offset v =
     (if offset = 0 then write_dr uart v
      else if offset = 0x24 then uart\<lparr>ua_ibrd := v\<rparr>
      else if offset = 0x28 then uart\<lparr>ua_fbrd := v\<rparr>
      else if offset = 0x2C then uart\<lparr>ua_lcr_h := v\<rparr>
      else if offset = 0x30 then uart\<lparr>ua_cr := v\<rparr>
      else if offset = 0x34 then uart\<lparr>ua_fifls := v\<rparr>
      else if offset = 0x38 then uart\<lparr>ua_imsc := v\<rparr>
      else if offset = 0x44 then uart\<lparr>ua_ris := ua_ris uart AND NOT v\<rparr>
      else uart)"

definition pl011_write :: "'u oemu_pl011 \<Rightarrow> u64 \<Rightarrow> oemu_mem_size \<Rightarrow> u64 \<Rightarrow> oemu_status \<times> 'u oemu_pl011" where
  "pl011_write uart offset sz value =
     (if sz = OEMU_MEM_128 then (OEMU_ERR_INVALID_ARG, uart)
      else (OEMU_OK, oemu_pl011_internal_update_flags (write_reg uart offset (ucast value))))"

definition pl011_ops :: "'u oemu_pl011 oemu_device_ops" where
  "pl011_ops = \<lparr>dv_read = pl011_read, dv_write = pl011_write\<rparr>"

section \<open>Service\<close>

definition oemu_pl011_tx_dropped :: "'u oemu_pl011 \<Rightarrow> u64" where
  "oemu_pl011_tx_dropped uart = ua_tx_dropped uart"

lemma sink_byte_fields [simp]:
  "ua_tx (sink_byte uart b) = ua_tx uart" "ua_tx_head (sink_byte uart b) = ua_tx_head uart" "ua_tx_count (sink_byte uart b) = ua_tx_count uart"
  "ua_rx (sink_byte uart b) = ua_rx uart" "ua_rx_head (sink_byte uart b) = ua_rx_head uart" "ua_rx_tail (sink_byte uart b) = ua_rx_tail uart"
  "ua_rx_count (sink_byte uart b) = ua_rx_count uart" "ua_ris (sink_byte uart b) = ua_ris uart" "ua_sink (sink_byte uart b) = ua_sink uart"
  "ua_cr (sink_byte uart b) = ua_cr uart" "ua_tx_emitted (sink_byte uart b) = ua_tx_emitted uart"
  by (simp_all add: sink_byte_def split: option.split)

function pump_loop :: "'u oemu_pl011 \<Rightarrow> nat \<Rightarrow> nat \<times> 'u oemu_pl011" where
  "pump_loop uart emitted =
     (if ua_tx_count uart = 0 then (emitted, uart)
      else let byte = ua_tx uart ! ua_tx_head uart;
               uart = uart\<lparr>ua_tx_head := (ua_tx_head uart + 1) mod OEMU_PL011_TX_RING, ua_tx_count := ua_tx_count uart - 1\<rparr>;
               uart = (sink_byte uart byte)\<lparr>ua_tx_emitted := ua_tx_emitted uart + 1\<rparr>
           in pump_loop uart (emitted + 1))"
  by pat_completeness auto

termination
  by (relation "measure (\<lambda>(uart, n). ua_tx_count uart)") (auto simp: Let_def)

declare pump_loop.simps [simp del]

definition oemu_pl011_pump :: "'u oemu_pl011 \<Rightarrow> nat \<times> 'u oemu_pl011" where
  "oemu_pl011_pump uart =
     (case pump_loop uart 0 of (emitted, uart) \<Rightarrow> (emitted, oemu_pl011_internal_update_flags uart))"

definition oemu_pl011_irq_level :: "'u oemu_pl011 \<Rightarrow> bool" where
  "oemu_pl011_irq_level uart \<longleftrightarrow> ua_ris uart AND ua_imsc uart \<noteq> 0"

section \<open>Rings as queues\<close>

text \<open>The contents of a ring, oldest first.\<close>

definition ring_list :: "'a list \<Rightarrow> nat \<Rightarrow> nat \<Rightarrow> 'a list" where
  "ring_list buf head n = map (\<lambda>i. buf ! ((head + i) mod length buf)) [0..<n]"

lemma ring_length [simp]: "length (ring_list buf head n) = n"
  by (simp add: ring_list_def)

lemma ring_empty [simp]: "ring_list buf head 0 = []"
  by (simp add: ring_list_def)

lemma ring_push:
  assumes "n < length buf"
  shows "ring_list (buf[(head + n) mod length buf := x]) head (Suc n) = ring_list buf head n @ [x]"
proof -
  have "(head + n) mod length buf \<noteq> (head + i) mod length buf" if "i < n" for i
  proof
    assume "(head + n) mod length buf = (head + i) mod length buf"
    then have "length buf dvd n - i" using that mod_eq_dvd_iff_nat [of "head + i" "head + n" "length buf"] by auto
    then show False using that assms dvd_imp_le [of "length buf" "n - i"] by auto
  qed
  moreover have "k mod length buf < length buf" for k using assms by (intro mod_less_divisor) linarith
  ultimately show ?thesis by (simp add: ring_list_def)
qed

lemma ring_pop:
  assumes "0 < n" "head < length buf"
  shows "ring_list buf head n = buf ! head # ring_list buf ((head + 1) mod length buf) (n - 1)"
proof -
  have "[0..<n] = 0 # map Suc [0..<n - 1]" using assms(1) by (metis Suc_pred map_Suc_upt upt_conv_Cons One_nat_def)
  then show ?thesis using assms by (simp add: ring_list_def mod_Suc_eq mod_add_left_eq)
qed

definition tx_queue :: "'u oemu_pl011 \<Rightarrow> u8 list" where
  "tx_queue uart = ring_list (ua_tx uart) (ua_tx_head uart) (ua_tx_count uart)"

definition rx_queue :: "'u oemu_pl011 \<Rightarrow> u8 list" where
  "rx_queue uart = ring_list (ua_rx uart) (ua_rx_head uart) (ua_rx_count uart)"

definition pl011_inv :: "'u oemu_pl011 \<Rightarrow> bool" where
  "pl011_inv uart \<longleftrightarrow>
     length (ua_tx uart) = OEMU_PL011_TX_RING \<and> ua_tx_head uart < OEMU_PL011_TX_RING \<and> ua_tx_count uart \<le> OEMU_PL011_TX_RING \<and>
     length (ua_rx uart) = OEMU_PL011_RX_RING \<and> ua_rx_head uart < OEMU_PL011_RX_RING \<and> ua_rx_count uart \<le> OEMU_PL011_RX_RING \<and>
     ua_rx_tail uart = (ua_rx_head uart + ua_rx_count uart) mod OEMU_PL011_RX_RING \<and>
     (ua_rx_count uart = 0 \<longrightarrow> ua_ris uart AND PL011_INT_RX = 0)"

lemma update_flags_fields [simp]:
  "pl011_inv (oemu_pl011_internal_update_flags uart) = pl011_inv uart" "rx_queue (oemu_pl011_internal_update_flags uart) = rx_queue uart"
  "tx_queue (oemu_pl011_internal_update_flags uart) = tx_queue uart" "ua_ris (oemu_pl011_internal_update_flags uart) = ua_ris uart"
  "ua_sink_user (oemu_pl011_internal_update_flags uart) = ua_sink_user uart" "ua_sink (oemu_pl011_internal_update_flags uart) = ua_sink uart"
  "ua_tx_dropped (oemu_pl011_internal_update_flags uart) = ua_tx_dropped uart"
  by (simp_all add: oemu_pl011_internal_update_flags_def Let_def pl011_inv_def rx_queue_def tx_queue_def)

lemma queue_bounds: "pl011_inv uart \<Longrightarrow> length (rx_queue uart) \<le> OEMU_PL011_RX_RING \<and> length (tx_queue uart) \<le> OEMU_PL011_TX_RING"
  by (simp add: pl011_inv_def rx_queue_def tx_queue_def)

lemma rx_queue_empty: "rx_queue uart = [] \<longleftrightarrow> ua_rx_count uart = 0"
  by (metis length_0_conv ring_length rx_queue_def)

lemma init_inv: "pl011_inv (oemu_pl011_init sink u)" "rx_queue (oemu_pl011_init sink u) = []" "tx_queue (oemu_pl011_init sink u) = []"
  by (simp_all add: oemu_pl011_init_def pl011_inv_def rx_queue_def tx_queue_def)

lemma inject_queue:
  assumes "pl011_inv uart" "oemu_pl011_inject uart b = (st, uart')"
  shows "pl011_inv uart'" "tx_queue uart' = tx_queue uart" "ua_sink_user uart' = ua_sink_user uart" "ua_sink uart' = ua_sink uart"
    "ua_tx_dropped uart' = ua_tx_dropped uart"
    "if ua_cr uart AND 0x201 \<noteq> 0x201 then st = OEMU_ERR_STATE \<and> uart' = uart
     else if length (rx_queue uart) = OEMU_PL011_RX_RING then st = OEMU_ERR_FULL \<and> uart' = uart
     else st = OEMU_OK \<and> rx_queue uart' = rx_queue uart @ [b] \<and> ua_ris uart' AND PL011_INT_RX = PL011_INT_RX"
proof -
  note r = assms(2) [symmetric]
  have n: "length (rx_queue uart) = ua_rx_count uart" by (simp add: rx_queue_def)
  have or: "(x OR y) AND y = y" for x y :: u32 by (rule bit_eqI) (auto simp: bit_simps)
  have push: "ring_list ((ua_rx uart)[ua_rx_tail uart := b]) (ua_rx_head uart) (Suc (ua_rx_count uart)) = rx_queue uart @ [b]"
    if "ua_rx_count uart < OEMU_PL011_RX_RING"
    using that assms(1) ring_push [of "ua_rx_count uart" "ua_rx uart" "ua_rx_head uart" b] by (simp add: pl011_inv_def rx_queue_def)
  have ok: "pl011_inv (uart\<lparr>ua_rx := (ua_rx uart)[ua_rx_tail uart := b], ua_rx_tail := (ua_rx_tail uart + 1) mod OEMU_PL011_RX_RING,
       ua_rx_count := ua_rx_count uart + 1, ua_ris := ua_ris uart OR PL011_INT_RX\<rparr>)" if "ua_rx_count uart < OEMU_PL011_RX_RING"
    using that assms(1) by (auto simp: pl011_inv_def mod_Suc_eq)
  show "pl011_inv uart'" using r ok assms(1) by (auto simp: oemu_pl011_inject_def not_le split: if_split_asm)
  show "tx_queue uart' = tx_queue uart" "ua_sink_user uart' = ua_sink_user uart" "ua_sink uart' = ua_sink uart"
    "ua_tx_dropped uart' = ua_tx_dropped uart"
    using r by (auto simp: oemu_pl011_inject_def tx_queue_def oemu_pl011_internal_update_flags_def Let_def split: if_split_asm)
  show "if ua_cr uart AND 0x201 \<noteq> 0x201 then st = OEMU_ERR_STATE \<and> uart' = uart
     else if length (rx_queue uart) = OEMU_PL011_RX_RING then st = OEMU_ERR_FULL \<and> uart' = uart
     else st = OEMU_OK \<and> rx_queue uart' = rx_queue uart @ [b] \<and> ua_ris uart' AND PL011_INT_RX = PL011_INT_RX"
  proof (cases "ua_cr uart AND 0x201 = 0x201 \<and> ua_rx_count uart < OEMU_PL011_RX_RING")
    case True
    then show ?thesis using r push or by (simp add: oemu_pl011_inject_def n) (simp add: rx_queue_def)
  next
    case False
    then show ?thesis using r assms(1) by (auto simp: oemu_pl011_inject_def n pl011_inv_def)
  qed
qed

lemma read_dr_queue:
  assumes "pl011_inv uart" "read_dr uart = (v, uart')"
  shows "pl011_inv uart'" "v = (case rx_queue uart of [] \<Rightarrow> 0 | b # bs \<Rightarrow> ucast b)" "rx_queue uart' = tl (rx_queue uart)"
    "tx_queue uart' = tx_queue uart" "ua_sink_user uart' = ua_sink_user uart"
proof -
  have e: "rx_queue uart = ua_rx uart ! ua_rx_head uart # ring_list (ua_rx uart) ((ua_rx_head uart + 1) mod 16) (ua_rx_count uart - 1)"
    if "ua_rx_count uart \<noteq> 0"
    using ring_pop [of "ua_rx_count uart" "ua_rx_head uart" "ua_rx uart"] that assms(1) by (simp add: rx_queue_def pl011_inv_def)
  have wrap: "(Suc h mod 16 + (c - Suc 0)) mod 16 = (h + c) mod 16" if "0 < c" for h c :: nat
    using that by (cases c) (simp_all add: mod_add_left_eq)
  note unf = read_dr_def oemu_pl011_internal_update_flags_def Let_def
  show "pl011_inv uart'" "v = (case rx_queue uart of [] \<Rightarrow> 0 | b # bs \<Rightarrow> ucast b)" "rx_queue uart' = tl (rx_queue uart)"
    "tx_queue uart' = tx_queue uart" "ua_sink_user uart' = ua_sink_user uart"
    using assms e wrap by (auto simp: unf pl011_inv_def rx_queue_empty tx_queue_def rx_queue_def and.assoc le_Suc_eq split: if_split_asm)
qed

lemma tx_push_queue:
  assumes "pl011_inv uart"
  shows "pl011_inv (pl011_tx_push uart b)" "rx_queue (pl011_tx_push uart b) = rx_queue uart"
    "ua_sink_user (pl011_tx_push uart b) = ua_sink_user uart" "ua_cr (pl011_tx_push uart b) = ua_cr uart"
    "tx_queue (pl011_tx_push uart b) = (if length (tx_queue uart) = OEMU_PL011_TX_RING then tl (tx_queue uart) else tx_queue uart) @ [b]"
    "ua_tx_dropped (pl011_tx_push uart b) = ua_tx_dropped uart + (if length (tx_queue uart) = OEMU_PL011_TX_RING then 1 else 0)"
proof -
  have n: "length (tx_queue uart) = ua_tx_count uart" by (simp add: tx_queue_def)
  let ?room = "uart\<lparr>ua_tx_head := (ua_tx_head uart + 1) mod OEMU_PL011_TX_RING, ua_tx_count := ua_tx_count uart - 1,
    ua_tx_dropped := ua_tx_dropped uart + 1\<rparr>"
  let ?base = "if ua_tx_count uart \<ge> OEMU_PL011_TX_RING then ?room else uart"
  have base: "pl011_inv ?base" "ua_tx_count ?base < OEMU_PL011_TX_RING" using assms by (auto simp: pl011_inv_def)
  have drop: "tx_queue ?base = (if ua_tx_count uart = OEMU_PL011_TX_RING then tl (tx_queue uart) else tx_queue uart)"
    using ring_pop [of "ua_tx_count uart" "ua_tx_head uart" "ua_tx uart"] assms by (auto simp: tx_queue_def pl011_inv_def)
  have push: "ring_list ((ua_tx ?base)[(ua_tx_head ?base + ua_tx_count ?base) mod OEMU_PL011_TX_RING := b]) (ua_tx_head ?base) (Suc (ua_tx_count ?base)) =
      tx_queue ?base @ [b]"
    using ring_push [of "ua_tx_count ?base" "ua_tx ?base" "ua_tx_head ?base" b] base by (simp only: tx_queue_def pl011_inv_def)
  have eq: "pl011_tx_push uart b = ?base\<lparr>ua_tx := (ua_tx ?base)[(ua_tx_head ?base + ua_tx_count ?base) mod OEMU_PL011_TX_RING := b],
      ua_tx_count := ua_tx_count ?base + 1\<rparr>"
    by (simp add: pl011_tx_push_def Let_def)
  show "pl011_inv (pl011_tx_push uart b)" unfolding eq using base by (simp add: pl011_inv_def)
  show "tx_queue (pl011_tx_push uart b) = (if length (tx_queue uart) = OEMU_PL011_TX_RING then tl (tx_queue uart) else tx_queue uart) @ [b]"
    unfolding eq n using push by (simp add: tx_queue_def drop [unfolded tx_queue_def])
  show "rx_queue (pl011_tx_push uart b) = rx_queue uart" "ua_sink_user (pl011_tx_push uart b) = ua_sink_user uart"
    "ua_cr (pl011_tx_push uart b) = ua_cr uart"
    "ua_tx_dropped (pl011_tx_push uart b) = ua_tx_dropped uart + (if length (tx_queue uart) = OEMU_PL011_TX_RING then 1 else 0)"
    using assms unfolding eq n by (auto simp: rx_queue_def pl011_inv_def)
qed

definition sink_bytes :: "'u oemu_pl011 \<Rightarrow> u8 list \<Rightarrow> 'u" where
  "sink_bytes uart bs = (case ua_sink uart of None \<Rightarrow> ua_sink_user uart | Some sink \<Rightarrow> fold (\<lambda>b u. sink u b) bs (ua_sink_user uart))"

lemma pump_loop_queue:
  "pl011_inv uart \<Longrightarrow> pump_loop uart n = (k, uart') \<Longrightarrow>
   k = n + length (tx_queue uart) \<and> pl011_inv uart' \<and> tx_queue uart' = [] \<and> rx_queue uart' = rx_queue uart \<and>
   ua_sink_user uart' = sink_bytes uart (tx_queue uart) \<and> ua_tx_emitted uart' = ua_tx_emitted uart + of_nat (length (tx_queue uart))"
proof (induction uart n rule: pump_loop.induct)
  case (1 uart n)
  show ?case
  proof (cases "ua_tx_count uart = 0")
    case True
    then show ?thesis using 1(2,3) by (simp add: pump_loop.simps [of uart n] tx_queue_def sink_bytes_def split: option.split)
  next
    case False
    let ?b = "ua_tx uart ! ua_tx_head uart"
    let ?u = "uart\<lparr>ua_tx_head := (ua_tx_head uart + 1) mod OEMU_PL011_TX_RING, ua_tx_count := ua_tx_count uart - 1\<rparr>"
    let ?v = "(sink_byte ?u ?b)\<lparr>ua_tx_emitted := ua_tx_emitted ?u + 1\<rparr>"
    have q: "tx_queue uart = ?b # tx_queue ?v"
      using ring_pop [of "ua_tx_count uart" "ua_tx_head uart" "ua_tx uart"] 1(2) False by (simp add: tx_queue_def pl011_inv_def)
    have inv: "pl011_inv ?v" using 1(2) by (auto simp: pl011_inv_def)
    have snk: "sink_bytes ?v bs = sink_bytes uart (?b # bs)" for bs by (simp add: sink_bytes_def sink_byte_def split: option.split)
    have "pump_loop ?v (n + 1) = (k, uart')" using 1(3) False by (simp add: pump_loop.simps [of uart n] Let_def)
    from 1(1) [OF False refl refl refl inv this] show ?thesis using q snk by (simp add: rx_queue_def)
  qed
qed

section \<open>The device\<close>

lemma sink_byte_queue [simp]:
  "pl011_inv (sink_byte uart b) = pl011_inv uart" "rx_queue (sink_byte uart b) = rx_queue uart" "tx_queue (sink_byte uart b) = tx_queue uart"
  by (simp_all add: pl011_inv_def rx_queue_def tx_queue_def)

lemma plain_updates [simp]:
  "pl011_inv (uart\<lparr>ua_tx_emitted := n\<rparr>) = pl011_inv uart" "pl011_inv (uart\<lparr>ua_rx_dropped := n\<rparr>) = pl011_inv uart"
  "pl011_inv uart \<Longrightarrow> pl011_inv (uart\<lparr>ua_ris := ua_ris uart OR PL011_INT_TXIS\<rparr>)"
  "pl011_inv uart \<Longrightarrow> pl011_inv (uart\<lparr>ua_ris := ua_ris uart AND v\<rparr>)"
proof -
  have "(x OR 0x20) AND 0x50 = x AND 0x50" for x :: u32
  proof -
    have "(x OR 0x20) AND 0x50 = (x AND 0x50) OR (0x20 AND 0x50)" by (simp only: bit.conj_disj_distrib2)
    then show ?thesis by simp
  qed
  moreover have "(x AND y) AND z = 0" if "x AND z = 0" for x y z :: u32 using that by (metis and.assoc and.commute zero_and_eq)
  ultimately show "pl011_inv uart \<Longrightarrow> pl011_inv (uart\<lparr>ua_ris := ua_ris uart OR PL011_INT_TXIS\<rparr>)"
    "pl011_inv uart \<Longrightarrow> pl011_inv (uart\<lparr>ua_ris := ua_ris uart AND v\<rparr>)" by (auto simp: pl011_inv_def)
qed (simp_all add: pl011_inv_def)

lemma queue_updates [simp]:
  "rx_queue (uart\<lparr>ua_ris := r\<rparr>) = rx_queue uart" "tx_queue (uart\<lparr>ua_ris := r\<rparr>) = tx_queue uart"
  "rx_queue (uart\<lparr>ua_tx_emitted := n\<rparr>) = rx_queue uart" "tx_queue (uart\<lparr>ua_tx_emitted := n\<rparr>) = tx_queue uart"
  "rx_queue (uart\<lparr>ua_rx_dropped := n\<rparr>) = rx_queue uart" "tx_queue (uart\<lparr>ua_rx_dropped := n\<rparr>) = tx_queue uart"
  by (simp_all add: rx_queue_def tx_queue_def)

lemma write_dr_inv: "pl011_inv uart \<Longrightarrow> pl011_inv (write_dr uart v)"
proof -
  assume i: "pl011_inv uart"
  let ?u = "if ua_cr uart AND PL011_CR_FEN = 0 then (sink_byte uart (ucast v))\<lparr>ua_tx_emitted := ua_tx_emitted uart + 1\<rparr>
    else pl011_tx_push uart (ucast v)"
  have "pl011_inv ?u" using i tx_push_queue(1) [OF i] by simp
  then have u: "pl011_inv (?u\<lparr>ua_ris := ua_ris ?u OR PL011_INT_TXIS\<rparr>)" by (rule plain_updates(3))
  obtain st u' where j: "oemu_pl011_inject (?u\<lparr>ua_ris := ua_ris ?u OR PL011_INT_TXIS\<rparr>) (ucast v) = (st, u')" by fastforce
  from inject_queue(1) [OF u j] u show ?thesis unfolding write_dr_def Let_def by (simp add: j)
qed

lemma write_reg_inv: "pl011_inv uart \<Longrightarrow> pl011_inv (write_reg uart off v)"
  using write_dr_inv [of uart v] by (simp add: write_reg_def) (simp add: pl011_inv_def)

interpretation pl011_dev: device "pl011_ops :: 'u oemu_pl011 oemu_device_ops" pl011_inv
proof unfold_locales
  fix d :: "'u oemu_pl011" and off sz r d'
  assume "pl011_inv d" "dv_read pl011_ops d off sz = (r, d')"
  then show "pl011_inv d' \<and> r \<noteq> Inl OEMU_OK \<and> (\<forall>st. r = Inl st \<longrightarrow> d' = d)"
    using read_dr_queue(1) by (auto simp: pl011_ops_def pl011_read_def Let_def split: if_split_asm prod.split_asm)
next
  fix d :: "'u oemu_pl011" and off sz v st d'
  assume "pl011_inv d" "dv_write pl011_ops d off sz v = (st, d')"
  then show "pl011_inv d' \<and> (st \<noteq> OEMU_OK \<longrightarrow> d' = d)"
    using write_reg_inv by (auto simp: pl011_ops_def pl011_write_def split: if_split_asm)
qed

text \<open>What happens to a port: the guest accesses its registers, the host injects bytes and pumps.\<close>

inductive pl011_reach :: "'u oemu_pl011 \<Rightarrow> bool" where
  reset: "pl011_reach (oemu_pl011_init sink u)"
| access: "pl011_reach uart \<Longrightarrow> pl011_reach (dev_access pl011_ops x uart)"
| inject: "pl011_reach uart \<Longrightarrow> pl011_reach (snd (oemu_pl011_inject uart b))"
| pump: "pl011_reach uart \<Longrightarrow> pl011_reach (snd (oemu_pl011_pump uart))"

lemma pl011_reach_inv: "pl011_reach uart \<Longrightarrow> pl011_inv uart"
proof (induction rule: pl011_reach.induct)
  case (inject uart b)
  then show ?case using inject_queue(1) [of uart b] by (cases "oemu_pl011_inject uart b") simp
next
  case (pump uart)
  then show ?case using pump_loop_queue [of uart 0] by (cases "pump_loop uart 0") (simp add: oemu_pl011_pump_def)
qed (simp_all add: init_inv pl011_dev.access_inv)

text \<open>What a port has received and not yet handed over, has yet to send, has sent, and has lost.\<close>

definition port_view :: "'u oemu_pl011 \<Rightarrow> u8 list \<times> u8 list \<times> 'u \<times> u64 \<times> u64" where
  "port_view uart = (rx_queue uart, tx_queue uart, ua_sink_user uart, ua_rx_dropped uart, ua_tx_dropped uart)"

lemma rx_dropped_fields [simp]:
  "ua_rx_dropped (sink_byte uart b) = ua_rx_dropped uart" "ua_tx_dropped (sink_byte uart b) = ua_tx_dropped uart"
  "ua_rx_dropped (pl011_tx_push uart b) = ua_rx_dropped uart"
  "ua_rx_dropped (oemu_pl011_internal_update_flags uart) = ua_rx_dropped uart"
  "ua_rx_dropped (snd (oemu_pl011_inject uart b)) = ua_rx_dropped uart" "ua_rx_dropped (snd (read_dr uart)) = ua_rx_dropped uart"
  "ua_tx_dropped (snd (read_dr uart)) = ua_tx_dropped uart"
  by (simp_all add: sink_byte_def pl011_tx_push_def oemu_pl011_internal_update_flags_def oemu_pl011_inject_def read_dr_def Let_def split: option.split)

lemma pump_loop_dropped [simp]:
  "ua_rx_dropped (snd (pump_loop uart n)) = ua_rx_dropped uart" "ua_tx_dropped (snd (pump_loop uart n)) = ua_tx_dropped uart"
proof (induction uart n rule: pump_loop.induct)
  case (1 uart n)
  {
    case 1
    with "1.IH"(1) show ?case by (simp add: pump_loop.simps [of uart n] Let_def)
  next
    case 2
    with "1.IH"(2) show ?case by (simp add: pump_loop.simps [of uart n] Let_def)
  }
qed

text \<open>A byte offered to the receiver: kept, or refused with the port as it was.\<close>

lemma inject_view:
  assumes "pl011_inv uart" "oemu_pl011_inject uart b = (st, uart')" "port_view uart = (rx, tx, u, rd, td)"
  shows "if ua_cr uart AND 0x201 \<noteq> 0x201 then st = OEMU_ERR_STATE \<and> uart' = uart
    else if length rx = OEMU_PL011_RX_RING then st = OEMU_ERR_FULL \<and> uart' = uart
    else st = OEMU_OK \<and> port_view uart' = (rx @ [b], tx, u, rd, td) \<and> ua_ris uart' AND PL011_INT_RX = PL011_INT_RX"
  using inject_queue(2-6) [OF assms(1,2)] assms(2,3) rx_dropped_fields(5) [of uart b] by (auto simp: port_view_def)

text \<open>A byte written to the data register: sent or queued, and received as well in loopback.\<close>

lemma write_dr_view:
  assumes i: "pl011_inv uart" and v: "port_view uart = (rx, tx, u, rd, td)"
    and loop: "loop = (ua_cr uart AND PL011_CR_LBE \<noteq> 0 \<and> ua_cr uart AND PL011_CR_RXE \<noteq> 0)"
    and kept: "kept = (loop \<and> ua_cr uart AND 0x201 = 0x201 \<and> length rx < OEMU_PL011_RX_RING)"
    and fifo: "fifo = (ua_cr uart AND PL011_CR_FEN \<noteq> 0)"
  shows "port_view (write_dr uart w) =
    (if kept then rx @ [ucast w] else rx,
     if fifo then (if length tx = OEMU_PL011_TX_RING then tl tx else tx) @ [ucast w] else tx,
     if fifo then u else sink_bytes uart [ucast w],
     if loop \<and> \<not> kept then rd + 1 else rd,
     if fifo \<and> length tx = OEMU_PL011_TX_RING then td + 1 else td)"
proof -
  let ?u = "if ua_cr uart AND PL011_CR_FEN = 0 then (sink_byte uart (ucast w))\<lparr>ua_tx_emitted := ua_tx_emitted uart + 1\<rparr>
    else pl011_tx_push uart (ucast w)"
  let ?m = "?u\<lparr>ua_ris := ua_ris ?u OR PL011_INT_TXIS\<rparr>"
  have "pl011_inv ?u" using i tx_push_queue(1) [OF i] by simp
  then have m: "pl011_inv ?m" by (rule plain_updates(3))
  have cr: "ua_cr ?m = ua_cr uart" using tx_push_queue(4) [OF i] by simp
  have emit: "ua_sink_user (sink_byte uart b) = sink_bytes uart [b]" for b by (simp add: sink_byte_def sink_bytes_def split: option.split)
  have mv: "port_view ?m = (rx,
     if fifo then (if length tx = OEMU_PL011_TX_RING then tl tx else tx) @ [ucast w] else tx,
     if fifo then u else sink_bytes uart [ucast w], rd,
     if fifo \<and> length tx = OEMU_PL011_TX_RING then td + 1 else td)"
    using v tx_push_queue [OF i] by (auto simp: port_view_def fifo emit)
  obtain st u' where j: "oemu_pl011_inject ?m (ucast w) = (st, u')" by fastforce
  have full: "length rx \<le> OEMU_PL011_RX_RING" using queue_bounds [OF i] v by (simp add: port_view_def)
  have w: "write_dr uart w = (if loop then if st \<noteq> OEMU_OK then u'\<lparr>ua_rx_dropped := ua_rx_dropped u' + 1\<rparr> else u' else ?m)"
    unfolding write_dr_def Let_def cr loop j by simp
  show ?thesis
  proof (cases loop)
    case False
    with w mv kept show ?thesis by simp
  next
    case True
    have d: "port_view (x\<lparr>ua_rx_dropped := n\<rparr>) = (case port_view x of (a, b, c, _, e) \<Rightarrow> (a, b, c, n, e))" for x :: "'a oemu_pl011" and n
      by (simp add: port_view_def)
    have "ua_rx_dropped ?m = rd" using mv by (simp add: port_view_def)
    with inject_view [OF m j mv] True full mv show ?thesis unfolding w cr kept by (auto simp: d split: if_split_asm)
  qed
qed

text \<open>
  Property C29. The serial port is two bounded queues in order. In every state that register accesses,
  injections and pumping can reach, the host's injection appends to the receive queue of sixteen bytes, or
  says that the receiver is off or the queue full and changes nothing; a read of the data register returns
  the oldest received byte, zero when there is none. A write of the data register appends to the transmit
  queue when the FIFO is on, losing and counting the oldest byte when it is full, and is in the console at
  once when it is off; in loopback with the receive side enabled the byte is also appended to the receive
  queue, or counted as a receive loss when the port is off or the queue full. Pumping hands the whole
  transmit queue to the console in order. No other register access, and no access of 128 bits, changes
  either queue, the console or a loss count. The receive interrupt is never raised over an empty queue.
\<close>

theorem pl011_queues:
  assumes "pl011_reach uart" and "port_view uart = (rx, tx, u, rd, td)"
    and "loop = (ua_cr uart AND PL011_CR_LBE \<noteq> 0 \<and> ua_cr uart AND PL011_CR_RXE \<noteq> 0)"
    and "kept = (loop \<and> ua_cr uart AND (PL011_CR_UARTEN OR PL011_CR_RXE) = PL011_CR_UARTEN OR PL011_CR_RXE \<and> length rx < OEMU_PL011_RX_RING)"
    and "fifo = (ua_cr uart AND PL011_CR_FEN \<noteq> 0)"
  shows "length rx \<le> OEMU_PL011_RX_RING \<and> length tx \<le> OEMU_PL011_TX_RING \<and>
    (rx = [] \<longrightarrow> ua_ris uart AND PL011_INT_RX = 0) \<and>
    (case oemu_pl011_inject uart b of (st, uart') \<Rightarrow>
       if ua_cr uart AND (PL011_CR_UARTEN OR PL011_CR_RXE) \<noteq> PL011_CR_UARTEN OR PL011_CR_RXE then st = OEMU_ERR_STATE \<and> uart' = uart
       else if length rx = OEMU_PL011_RX_RING then st = OEMU_ERR_FULL \<and> uart' = uart
       else st = OEMU_OK \<and> port_view uart' = (rx @ [b], tx, u, rd, td) \<and> ua_ris uart' AND PL011_INT_RX = PL011_INT_RX) \<and>
    (case pl011_read uart off sz of (r, uart') \<Rightarrow>
       if off = 0 \<and> sz \<noteq> OEMU_MEM_128
       then r = Inr (case rx of [] \<Rightarrow> 0 | b # bs \<Rightarrow> ucast b) \<and> port_view uart' = (tl rx, tx, u, rd, td)
       else port_view uart' = (rx, tx, u, rd, td)) \<and>
    (case pl011_write uart off sz v of (st, uart') \<Rightarrow>
       if off = 0 \<and> sz \<noteq> OEMU_MEM_128
       then st = OEMU_OK \<and> port_view uart' =
         (if kept then rx @ [ucast v] else rx,
          if fifo then (if length tx = OEMU_PL011_TX_RING then tl tx else tx) @ [ucast v] else tx,
          if fifo then u else sink_bytes uart [ucast v],
          if loop \<and> \<not> kept then rd + 1 else rd,
          if fifo \<and> length tx = OEMU_PL011_TX_RING then td + 1 else td)
       else port_view uart' = (rx, tx, u, rd, td)) \<and>
    (case oemu_pl011_pump uart of (n, uart') \<Rightarrow> n = length tx \<and> port_view uart' = (rx, [], sink_bytes uart tx, rd, td))"
proof -
  note i = pl011_reach_inv [OF assms(1)]
  have view: "rx_queue uart = rx" "tx_queue uart = tx" "ua_sink_user uart = u" "ua_rx_dropped uart = rd" "ua_tx_dropped uart = td"
    using assms(2) by (simp_all add: port_view_def)
  obtain st1 u1 where 1: "oemu_pl011_inject uart b = (st1, u1)" by fastforce
  obtain r2 u2 where 2: "read_dr uart = (r2, u2)" by fastforce
  obtain n4 u4 where 4: "pump_loop uart 0 = (n4, u4)" by fastforce
  have widen: "ucast (ucast x :: u32) = (ucast x :: u64)" for x :: u8
    by (rule bit_eqI) (auto simp: bit_simps dest: bit_imp_le_length)
  have narrow: "ucast (ucast x :: u32) = (ucast x :: u8)" for x :: u64 by (rule bit_eqI) (auto simp: bit_simps)
  have flags: "port_view (oemu_pl011_internal_update_flags x) = port_view x" for x :: "'a oemu_pl011" by (simp add: port_view_def)
  have rest: "port_view (write_reg uart off w) = port_view uart" if "off \<noteq> 0" for w
    using that by (simp add: write_reg_def port_view_def rx_queue_def tx_queue_def)
  have "length rx \<le> OEMU_PL011_RX_RING" "length tx \<le> OEMU_PL011_TX_RING" "rx = [] \<longrightarrow> ua_ris uart AND PL011_INT_RX = 0"
    using queue_bounds [OF i] i rx_queue_empty [of uart] unfolding view by (simp_all add: pl011_inv_def)
  moreover have "port_view u2 = (tl rx, tx, u, rd, td) \<and> r2 = (case rx of [] \<Rightarrow> 0 | b # bs \<Rightarrow> ucast b)"
    using read_dr_queue [OF i 2] rx_dropped_fields(6,7) [of uart] 2 view by (simp add: port_view_def split: list.split)
  moreover have "port_view (write_dr uart (ucast v)) =
         (if kept then rx @ [ucast v] else rx,
          if fifo then (if length tx = OEMU_PL011_TX_RING then tl tx else tx) @ [ucast v] else tx,
          if fifo then u else sink_bytes uart [ucast v],
          if loop \<and> \<not> kept then rd + 1 else rd,
          if fifo \<and> length tx = OEMU_PL011_TX_RING then td + 1 else td)"
    using write_dr_view [OF i assms(2,3) _ assms(5), of kept "ucast v"] assms(4) narrow by simp
  moreover have "n4 = length tx \<and> port_view u4 = (rx, [], sink_bytes uart tx, rd, td)"
    using pump_loop_queue [OF i 4] pump_loop_dropped [of uart 0] 4 view by (simp add: port_view_def)
  ultimately show ?thesis
    using inject_view [OF i 1 assms(2)] 1 2 4 rest assms(2) widen
    by (auto simp: pl011_read_def pl011_write_def oemu_pl011_pump_def flags write_reg_def [of uart 0] split: list.split)
qed

section \<open>Witness\<close>

text \<open>A port in loopback whose receiver is on, with one byte received; its console collects bytes in a list.\<close>

definition sample_port :: "u8 list oemu_pl011" where
  "sample_port = snd (oemu_pl011_inject (dev_access pl011_ops (0x30, OEMU_MEM_WORD, Some 0x381)
     (oemu_pl011_init (Some (\<lambda>bs b. bs @ [b])) [])) 0x41)"

lemma sample_port_reach: "pl011_reach sample_port"
  unfolding sample_port_def by (intro pl011_reach.intros)

lemma sample_port_rx: "ua_cr sample_port = 0x381" "ua_sink sample_port = Some (\<lambda>bs b. bs @ [b])" "ua_sink_user sample_port = []"
  and sample_port_view: "port_view sample_port = ([0x41], [], [], 0, 0)"
  by (simp_all add: sample_port_def dev_access_def pl011_ops_def pl011_write_def write_reg_def oemu_pl011_internal_update_flags_def
      oemu_pl011_init_def oemu_pl011_inject_def port_view_def rx_queue_def tx_queue_def ring_list_def)

theorem pl011_queues_witness:
  "pl011_reach sample_port \<and> fst (pl011_read sample_port 0 OEMU_MEM_WORD) = Inr 0x41 \<and>
   port_view (snd (pl011_write sample_port 0 OEMU_MEM_WORD 0x42)) = ([0x41, 0x42], [], [0x42], 0, 0)"
  using pl011_queues [OF sample_port_reach sample_port_view refl refl refl, of 0 0 OEMU_MEM_WORD "0x42"] sample_port_reach
  by (simp add: sample_port_rx sink_bytes_def split_beta)

end
