(* ===== verification/Oemu_Sysreg.thy ===== *)
theory Oemu_Sysreg
  imports Oemu_Regs
begin

text \<open>
  System registers (\<^verbatim>\<open>include/oemu/sysreg.h\<close>, \<^verbatim>\<open>src/sysreg/sysreg.c\<close>) and the generic timer's condition
  (\<^verbatim>\<open>src/dev/gtimer.c\<close>). The structure points at the register file it is paired with; here the two
  travel as a pair. A table row keeps its \<^verbatim>\<open>offsetof\<close> as the selector and the update function of the
  field it names, and \<^const>\<open>None\<close> for the rows whose offset is zero. The lemmas show that the table
  is well formed, what MRS and MSR do with it, and that the stack-pointer banks behave as four
  separate registers of which the live one is in the register file.
\<close>

section \<open>Exception levels\<close>

datatype oemu_el = OEMU_EL0 | OEMU_EL1 | OEMU_EL2 | OEMU_EL3

primrec el_val :: "oemu_el \<Rightarrow> nat" where
  "el_val OEMU_EL0 = 0"
| "el_val OEMU_EL1 = 1"
| "el_val OEMU_EL2 = 2"
| "el_val OEMU_EL3 = 3"

instantiation oemu_el :: linorder
begin

definition less_eq_oemu_el :: "oemu_el \<Rightarrow> oemu_el \<Rightarrow> bool" where
  "less_eq_oemu_el a b \<longleftrightarrow> el_val a \<le> el_val b"

definition less_oemu_el :: "oemu_el \<Rightarrow> oemu_el \<Rightarrow> bool" where
  "less_oemu_el a b \<longleftrightarrow> el_val a < el_val b"

instance
proof
  fix x y :: oemu_el
  show "x \<le> y \<Longrightarrow> y \<le> x \<Longrightarrow> x = y" by (cases x; cases y) (simp_all add: less_eq_oemu_el_def)
qed (auto simp: less_eq_oemu_el_def less_oemu_el_def)

end

lemma el_val_less_4 [simp]: "el_val el < 4"
  by (cases el) simp_all

lemma el_val_inject [simp]: "el_val a = el_val b \<longleftrightarrow> a = b"
  by (cases a; cases b) simp_all

lemma el_val_eq [simp]: "el_val b = 0 \<longleftrightarrow> b = OEMU_EL0" "el_val b = 1 \<longleftrightarrow> b = OEMU_EL1" "el_val b = Suc 0 \<longleftrightarrow> b = OEMU_EL1"
  "Suc 0 = el_val b \<longleftrightarrow> b = OEMU_EL1"
  by (cases b; simp)+

section \<open>PSTATE\<close>

abbreviation (input) OEMU_PSTATE_M_MASK :: u64 where "OEMU_PSTATE_M_MASK \<equiv> 0x1F"
abbreviation (input) OEMU_PSTATE_SPSEL :: u64 where "OEMU_PSTATE_SPSEL \<equiv> 0x01"
abbreviation (input) OEMU_PSTATE_DAIF_SHIFT :: nat where "OEMU_PSTATE_DAIF_SHIFT \<equiv> 6"
abbreviation (input) OEMU_PSTATE_DAIF_MASK :: u64 where "OEMU_PSTATE_DAIF_MASK \<equiv> 0xF"
abbreviation (input) OEMU_PSTATE_IL :: u64 where "OEMU_PSTATE_IL \<equiv> 0x100000"

primrec oemu_pstate_mode :: "oemu_el \<Rightarrow> u64" where
  "oemu_pstate_mode OEMU_EL0 = 0x00"
| "oemu_pstate_mode OEMU_EL1 = 0x05"
| "oemu_pstate_mode OEMU_EL2 = 0x09"
| "oemu_pstate_mode OEMU_EL3 = 0x0D"

definition oemu_pstate_el :: "u64 \<Rightarrow> oemu_el" where
  "oemu_pstate_el pstate =
     (let n = drop_bit 2 pstate AND 3
      in if n = 0 then OEMU_EL0 else if n = 1 then OEMU_EL1 else if n = 2 then OEMU_EL2 else OEMU_EL3)"

definition oemu_pstate_sp_sel :: "u64 \<Rightarrow> u32" where
  "oemu_pstate_sp_sel pstate = ucast (pstate AND OEMU_PSTATE_SPSEL)"

definition oemu_pstate_daif :: "u64 \<Rightarrow> u32" where
  "oemu_pstate_daif pstate = ucast (drop_bit OEMU_PSTATE_DAIF_SHIFT pstate AND OEMU_PSTATE_DAIF_MASK)"

section \<open>State\<close>

record oemu_sysregs =
  sr_sp_el :: "u64 list"
  sr_elr_el :: "u64 list"
  sr_spsr_el :: "u64 list"
  sr_vbar_el :: "u64 list"
  sr_esr_el :: "u64 list"
  sr_far_el :: "u64 list"
  sr_sctlr_el1 :: u64
  sr_ttbr0_el1 :: u64
  sr_ttbr1_el1 :: u64
  sr_tcr_el1 :: u64
  sr_mair_el1 :: u64
  sr_par_el1 :: u64
  sr_cntvoff_el1 :: u64
  sr_cntv_ctl_el1 :: u64
  sr_cntv_cval_el1 :: u64
  sr_cntkctl_el1 :: u64
  sr_cntp_ctl_el1 :: u64
  sr_cntp_cval_el1 :: u64
  sr_cntfrq_el0 :: u64
  sr_cntvct :: u64
  sr_amair_el1 :: u64
  sr_contextidr_el1 :: u64
  sr_cpacr_el1 :: u64
  sr_fpcr :: u64
  sr_fpsr :: u64
  sr_tpidr_el1 :: u64
  sr_tpidr_el0 :: u64
  sr_tpidrro_el0 :: u64
  sr_midr_el1 :: u64
  sr_mpidr_el1 :: u64
  sr_revidr_el1 :: u64
  sr_ctr_el0 :: u64
  sr_clidr_el1 :: u64
  sr_ccsidr_el1 :: u64
  sr_dczid_el0 :: u64
  sr_id_aa64pfr0_el1 :: u64
  sr_id_aa64isar0_el1 :: u64
  sr_id_aa64isar1_el1 :: u64
  sr_id_aa64dfr0_el1 :: u64
  sr_id_aa64mmfr0_el1 :: u64
  sr_id_aa64mmfr1_el1 :: u64
  sr_pstate :: u64

type_synonym sysstate = "oemu_regs \<times> oemu_sysregs"

section \<open>The generic timer's condition\<close>

abbreviation (input) OEMU_GTIMER_CTL_ENABLE :: u64 where "OEMU_GTIMER_CTL_ENABLE \<equiv> 0x1"
abbreviation (input) OEMU_GTIMER_CTL_IMASK :: u64 where "OEMU_GTIMER_CTL_IMASK \<equiv> 0x2"
abbreviation (input) OEMU_GTIMER_CTL_ISTAT :: u64 where "OEMU_GTIMER_CTL_ISTAT \<equiv> 0x4"

definition oemu_gtimer_pending :: "u64 \<Rightarrow> u64 \<Rightarrow> u64 \<Rightarrow> bool" where
  "oemu_gtimer_pending counter ctl cval =
     (if ctl AND OEMU_GTIMER_CTL_ENABLE = 0 then False
      else if ctl AND OEMU_GTIMER_CTL_IMASK \<noteq> 0 then False
      else sint (counter - cval) \<ge> 0)"

section \<open>Callbacks of the table\<close>

definition get_current_el :: "sysstate \<Rightarrow> u64" where
  "get_current_el = (\<lambda>(regs, sr). push_bit 2 (of_nat (el_val (oemu_pstate_el (sr_pstate sr)))))"

definition get_sp_sel :: "sysstate \<Rightarrow> u64" where
  "get_sp_sel = (\<lambda>(regs, sr). sr_pstate sr AND OEMU_PSTATE_SPSEL)"

definition oemu_sysregs_switch_sp :: "sysstate \<Rightarrow> u64 \<Rightarrow> sysstate" where
  "oemu_sysregs_switch_sp = (\<lambda>(regs, sr) new_pstate.
     let old_el = oemu_pstate_el (sr_pstate sr);
         new_el = oemu_pstate_el new_pstate;
         old_user = (oemu_pstate_sp_sel (sr_pstate sr) = 0 \<or> old_el = OEMU_EL0);
         new_user = (oemu_pstate_sp_sel new_pstate = 0 \<or> new_el = OEMU_EL0);
         (regs, sr) =
           (if old_user \<noteq> new_user \<or> (\<not> old_user \<and> old_el \<noteq> new_el)
            then let sr = sr\<lparr>sr_sp_el := (sr_sp_el sr)[el_val (if old_user then OEMU_EL0 else old_el) := r_sp regs]\<rparr>
                 in (regs\<lparr>r_sp := sr_sp_el sr ! el_val (if new_user then OEMU_EL0 else new_el)\<rparr>, sr)
            else (regs, sr))
     in (regs, sr\<lparr>sr_pstate := new_pstate\<rparr>))"

definition set_sp_sel :: "sysstate \<Rightarrow> u64 \<Rightarrow> sysstate" where
  "set_sp_sel st value =
     oemu_sysregs_switch_sp st ((sr_pstate (snd st) AND NOT OEMU_PSTATE_SPSEL) OR (value AND OEMU_PSTATE_SPSEL))"

definition get_daif :: "sysstate \<Rightarrow> u64" where
  "get_daif = (\<lambda>(regs, sr). sr_pstate sr AND push_bit OEMU_PSTATE_DAIF_SHIFT OEMU_PSTATE_DAIF_MASK)"

definition set_daif :: "sysstate \<Rightarrow> u64 \<Rightarrow> sysstate" where
  "set_daif = (\<lambda>(regs, sr) value.
     let field = push_bit OEMU_PSTATE_DAIF_SHIFT OEMU_PSTATE_DAIF_MASK
     in (regs, sr\<lparr>sr_pstate := (sr_pstate sr AND NOT field) OR (value AND field)\<rparr>))"

definition get_nzcv :: "sysstate \<Rightarrow> u64" where
  "get_nzcv = (\<lambda>(regs, sr). ucast (oemu_regs_nzcv regs))"

definition set_nzcv :: "sysstate \<Rightarrow> u64 \<Rightarrow> sysstate" where
  "set_nzcv = (\<lambda>(regs, sr) value. (oemu_regs_set_nzcv regs (ucast value), sr))"

definition sp_el0_active :: "oemu_sysregs \<Rightarrow> bool" where
  "sp_el0_active sr \<longleftrightarrow> oemu_pstate_el (sr_pstate sr) = OEMU_EL0 \<or> oemu_pstate_sp_sel (sr_pstate sr) = 0"

definition get_sp_el0 :: "sysstate \<Rightarrow> u64" where
  "get_sp_el0 = (\<lambda>(regs, sr). if sp_el0_active sr then r_sp regs else sr_sp_el sr ! el_val OEMU_EL0)"

definition set_sp_el0 :: "sysstate \<Rightarrow> u64 \<Rightarrow> sysstate" where
  "set_sp_el0 = (\<lambda>(regs, sr) value.
     let sr = sr\<lparr>sr_sp_el := (sr_sp_el sr)[el_val OEMU_EL0 := value]\<rparr>
     in (if sp_el0_active sr then regs\<lparr>r_sp := value\<rparr> else regs, sr))"

definition get_sp_el1 :: "sysstate \<Rightarrow> u64" where
  "get_sp_el1 = (\<lambda>(regs, sr).
     let active = (oemu_pstate_el (sr_pstate sr) = OEMU_EL1 \<and> oemu_pstate_sp_sel (sr_pstate sr) \<noteq> 0)
     in if active then r_sp regs else sr_sp_el sr ! el_val OEMU_EL1)"

definition set_sp_el1 :: "sysstate \<Rightarrow> u64 \<Rightarrow> sysstate" where
  "set_sp_el1 = (\<lambda>(regs, sr) value.
     let sr = sr\<lparr>sr_sp_el := (sr_sp_el sr)[el_val OEMU_EL1 := value]\<rparr>
     in (if oemu_pstate_el (sr_pstate sr) = OEMU_EL1 \<and> oemu_pstate_sp_sel (sr_pstate sr) \<noteq> 0
         then regs\<lparr>r_sp := value\<rparr> else regs, sr))"

definition get_cntvct :: "sysstate \<Rightarrow> u64" where
  "get_cntvct = (\<lambda>(regs, sr). sr_cntvct sr - sr_cntvoff_el1 sr)"

definition get_cntpct :: "sysstate \<Rightarrow> u64" where
  "get_cntpct = (\<lambda>(regs, sr). sr_cntvct sr)"

definition get_cntp_tval :: "sysstate \<Rightarrow> u64" where
  "get_cntp_tval = (\<lambda>(regs, sr). sr_cntp_cval_el1 sr - sr_cntvct sr)"

definition get_cntv_ctl :: "sysstate \<Rightarrow> u64" where
  "get_cntv_ctl = (\<lambda>(regs, sr).
     let stored = sr_cntv_ctl_el1 sr AND NOT OEMU_GTIMER_CTL_ISTAT;
         pending = oemu_gtimer_pending (sr_cntvct sr - sr_cntvoff_el1 sr) (sr_cntv_ctl_el1 sr) (sr_cntv_cval_el1 sr)
     in stored OR (if pending then OEMU_GTIMER_CTL_ISTAT else 0))"

definition get_cntp_ctl :: "sysstate \<Rightarrow> u64" where
  "get_cntp_ctl = (\<lambda>(regs, sr).
     let stored = sr_cntp_ctl_el1 sr AND NOT OEMU_GTIMER_CTL_ISTAT;
         pending = oemu_gtimer_pending (sr_cntvct sr) (sr_cntp_ctl_el1 sr) (sr_cntp_cval_el1 sr)
     in stored OR (if pending then OEMU_GTIMER_CTL_ISTAT else 0))"

definition set_cntv_ctl :: "sysstate \<Rightarrow> u64 \<Rightarrow> sysstate" where
  "set_cntv_ctl = (\<lambda>(regs, sr) value. (regs, sr\<lparr>sr_cntv_ctl_el1 := value AND NOT OEMU_GTIMER_CTL_ISTAT\<rparr>))"

definition set_cntp_ctl :: "sysstate \<Rightarrow> u64 \<Rightarrow> sysstate" where
  "set_cntp_ctl = (\<lambda>(regs, sr) value. (regs, sr\<lparr>sr_cntp_ctl_el1 := value AND NOT OEMU_GTIMER_CTL_ISTAT\<rparr>))"

definition get_cntv_tval :: "sysstate \<Rightarrow> u64" where
  "get_cntv_tval = (\<lambda>(regs, sr). sr_cntv_cval_el1 sr - (sr_cntvct sr - sr_cntvoff_el1 sr))"

definition set_cntv_tval :: "sysstate \<Rightarrow> u64 \<Rightarrow> sysstate" where
  "set_cntv_tval = (\<lambda>(regs, sr) value.
     (regs, sr\<lparr>sr_cntv_cval_el1 := (sr_cntvct sr - sr_cntvoff_el1 sr) + value\<rparr>))"

definition set_cntp_tval :: "sysstate \<Rightarrow> u64 \<Rightarrow> sysstate" where
  "set_cntp_tval = (\<lambda>(regs, sr) value. (regs, sr\<lparr>sr_cntp_cval_el1 := sr_cntvct sr + value\<rparr>))"

section \<open>The table\<close>

datatype oemu_sysreg_flags = OEMU_SYSREG_F_NONE | OEMU_SYSREG_F_RO | OEMU_SYSREG_F_WI

type_synonym sysreg_field = "(oemu_sysregs \<Rightarrow> u64) \<times> ((u64 \<Rightarrow> u64) \<Rightarrow> oemu_sysregs \<Rightarrow> oemu_sysregs)"

record oemu_sysreg_row =
  row_name :: string
  row_sel :: u32
  row_min_el :: oemu_el
  row_flags :: oemu_sysreg_flags
  row_offset :: "sysreg_field option"
  row_write_mask :: u64
  row_reset_value :: u64
  row_get :: "(sysstate \<Rightarrow> u64) option"
  row_set :: "(sysstate \<Rightarrow> u64 \<Rightarrow> sysstate) option"

definition sysreg_row :: "string \<Rightarrow> u32 \<Rightarrow> oemu_el \<Rightarrow> oemu_sysreg_flags \<Rightarrow> sysreg_field option \<Rightarrow> u64 \<Rightarrow> u64 \<Rightarrow>
    (sysstate \<Rightarrow> u64) option \<Rightarrow> (sysstate \<Rightarrow> u64 \<Rightarrow> sysstate) option \<Rightarrow> oemu_sysreg_row" where
  "sysreg_row name sel min_el flags offset write_mask reset_value get set_fn =
     \<lparr>row_name = name, row_sel = sel, row_min_el = min_el, row_flags = flags, row_offset = offset,
      row_write_mask = write_mask, row_reset_value = reset_value, row_get = get, row_set = set_fn\<rparr>"

text \<open>One element of a banked array as a field.\<close>

definition banked :: "(oemu_sysregs \<Rightarrow> u64 list) \<Rightarrow> ((u64 list \<Rightarrow> u64 list) \<Rightarrow> oemu_sysregs \<Rightarrow> oemu_sysregs) \<Rightarrow>
    nat \<Rightarrow> sysreg_field" where
  "banked sel upd i = (\<lambda>sr. sel sr ! i, \<lambda>f. upd (\<lambda>xs. xs[i := f (xs ! i)]))"

text \<open>The table, in the sections of the source.\<close>

definition id_rows :: "oemu_sysreg_row list" where
  "id_rows = [
     sysreg_row ''MIDR_EL1'' 0x0000 OEMU_EL0 OEMU_SYSREG_F_RO
       (Some (sr_midr_el1, sr_midr_el1_update)) (NOT 0) 0x410FD034 None None,
     sysreg_row ''MPIDR_EL1'' 0x0005 OEMU_EL0 OEMU_SYSREG_F_RO
       (Some (sr_mpidr_el1, sr_mpidr_el1_update)) (NOT 0) 0x80000000 None None,
     sysreg_row ''REVIDR_EL1'' 0x0006 OEMU_EL0 OEMU_SYSREG_F_RO
       (Some (sr_revidr_el1, sr_revidr_el1_update)) (NOT 0) 0x00000100 None None,
     sysreg_row ''MDSCR_EL1'' 0x0012 OEMU_EL1 OEMU_SYSREG_F_WI
       None 0 0 None None,
     sysreg_row ''ID_AA64PFR0_EL1'' 0x0020 OEMU_EL0 OEMU_SYSREG_F_RO
       (Some (sr_id_aa64pfr0_el1, sr_id_aa64pfr0_el1_update)) (NOT 0) 0x00000010 None None,
     sysreg_row ''ID_AA64PFR1_EL1'' 0x0021 OEMU_EL0 OEMU_SYSREG_F_WI
       None 0 0 None None,
     sysreg_row ''ID_AA64PFR2_EL1'' 0x0022 OEMU_EL0 OEMU_SYSREG_F_WI
       None 0 0 None None,
     sysreg_row ''ID_AA64ZFR0_EL1'' 0x0024 OEMU_EL0 OEMU_SYSREG_F_WI
       None 0 0 None None,
     sysreg_row ''ID_AA64SMFR0_EL1'' 0x0025 OEMU_EL0 OEMU_SYSREG_F_WI
       None 0 0 None None,
     sysreg_row ''ID_AA64DFR0_EL1'' 0x0028 OEMU_EL0 OEMU_SYSREG_F_RO
       (Some (sr_id_aa64dfr0_el1, sr_id_aa64dfr0_el1_update)) (NOT 0) 0x10305106 None None,
     sysreg_row ''ID_AA64DFR1_EL1'' 0x0029 OEMU_EL0 OEMU_SYSREG_F_WI
       None 0 0 None None,
     sysreg_row ''ID_AA64DFR2_EL1'' 0x002A OEMU_EL0 OEMU_SYSREG_F_WI
       None 0 0 None None,
     sysreg_row ''ID_AA64AFR0_EL1'' 0x002C OEMU_EL0 OEMU_SYSREG_F_WI
       None 0 0 None None,
     sysreg_row ''ID_AA64ISAR0_EL1'' 0x0030 OEMU_EL0 OEMU_SYSREG_F_RO
       (Some (sr_id_aa64isar0_el1, sr_id_aa64isar0_el1_update)) (NOT 0) 0x00011120 None None,
     sysreg_row ''ID_AA64ISAR1_EL1'' 0x0031 OEMU_EL0 OEMU_SYSREG_F_RO
       (Some (sr_id_aa64isar1_el1, sr_id_aa64isar1_el1_update)) (NOT 0) 0x00000000 None None,
     sysreg_row ''ID_AA64ISAR2_EL1'' 0x0032 OEMU_EL0 OEMU_SYSREG_F_WI
       None 0 0 None None,
     sysreg_row ''ID_AA64ISAR3_EL1'' 0x0033 OEMU_EL0 OEMU_SYSREG_F_WI
       None 0 0 None None,
     sysreg_row ''ID_AA64ISAR4_EL1'' 0x0034 OEMU_EL0 OEMU_SYSREG_F_WI
       None 0 0 None None,
     sysreg_row ''ID_AA64ISAR5_EL1'' 0x0035 OEMU_EL0 OEMU_SYSREG_F_WI
       None 0 0 None None,
     sysreg_row ''ID_AA64MMFR0_EL1'' 0x0038 OEMU_EL0 OEMU_SYSREG_F_RO
       (Some (sr_id_aa64mmfr0_el1, sr_id_aa64mmfr0_el1_update)) (NOT 0) 0x00001122 None None,
     sysreg_row ''ID_AA64MMFR1_EL1'' 0x0039 OEMU_EL0 OEMU_SYSREG_F_RO
       (Some (sr_id_aa64mmfr1_el1, sr_id_aa64mmfr1_el1_update)) (NOT 0) 0x00000000 None None,
     sysreg_row ''ID_AA64MMFR2_EL1'' 0x003A OEMU_EL0 OEMU_SYSREG_F_WI
       None 0 0 None None,
     sysreg_row ''ID_AA64MMFR3_EL1'' 0x003B OEMU_EL0 OEMU_SYSREG_F_WI
       None 0 0 None None]"

definition control_rows :: "oemu_sysreg_row list" where
  "control_rows = [
     sysreg_row ''SCTLR_EL1'' 0x0080 OEMU_EL1 OEMU_SYSREG_F_NONE
       (Some (sr_sctlr_el1, sr_sctlr_el1_update)) (NOT 0) 0x30D00800 None None,
     sysreg_row ''CPACR_EL1'' 0x0082 OEMU_EL1 OEMU_SYSREG_F_NONE
       (Some (sr_cpacr_el1, sr_cpacr_el1_update)) (NOT 0) 0 None None,
     sysreg_row ''OSLAR_EL1'' 0x0084 OEMU_EL1 OEMU_SYSREG_F_WI
       None 0 0 None None,
     sysreg_row ''OSDLR_EL1'' 0x009C OEMU_EL1 OEMU_SYSREG_F_WI
       None 0 0 None None,
     sysreg_row ''TTBR0_EL1'' 0x0100 OEMU_EL1 OEMU_SYSREG_F_NONE
       (Some (sr_ttbr0_el1, sr_ttbr0_el1_update)) (NOT 0) 0 None None,
     sysreg_row ''TTBR1_EL1'' 0x0101 OEMU_EL1 OEMU_SYSREG_F_NONE
       (Some (sr_ttbr1_el1, sr_ttbr1_el1_update)) (NOT 0) 0 None None,
     sysreg_row ''TCR_EL1'' 0x0102 OEMU_EL1 OEMU_SYSREG_F_NONE
       (Some (sr_tcr_el1, sr_tcr_el1_update)) (NOT 0) 0 None None,
     sysreg_row ''TCR2_EL1'' 0x0103 OEMU_EL1 OEMU_SYSREG_F_WI
       None 0 0 None None]"

definition link_rows :: "oemu_sysreg_row list" where
  "link_rows = [
     sysreg_row ''SPSR_EL1'' 0x0200 OEMU_EL1 OEMU_SYSREG_F_NONE
       (Some (banked sr_spsr_el sr_spsr_el_update 1)) (NOT 0) 0 None None,
     sysreg_row ''ELR_EL1'' 0x0201 OEMU_EL1 OEMU_SYSREG_F_NONE
       (Some (banked sr_elr_el sr_elr_el_update 1)) (NOT 0) 0 None None,
     sysreg_row ''SP_EL0'' 0x0208 OEMU_EL0 OEMU_SYSREG_F_NONE
       None (NOT 0) 0 (Some get_sp_el0) (Some set_sp_el0),
     sysreg_row ''SPSEL'' 0x0210 OEMU_EL1 OEMU_SYSREG_F_NONE
       None (NOT 0) 0 (Some get_sp_sel) (Some set_sp_sel),
     sysreg_row ''CurrentEL'' 0x0212 OEMU_EL1 OEMU_SYSREG_F_RO
       None (NOT 0) 0 (Some get_current_el) None,
     sysreg_row ''ESR_EL1'' 0x0290 OEMU_EL1 OEMU_SYSREG_F_NONE
       (Some (banked sr_esr_el sr_esr_el_update 1)) (NOT 0) 0 None None,
     sysreg_row ''FAR_EL1'' 0x0300 OEMU_EL1 OEMU_SYSREG_F_NONE
       (Some (banked sr_far_el sr_far_el_update 1)) (NOT 0) 0 None None,
     sysreg_row ''PAR_EL1'' 0x03A0 OEMU_EL1 OEMU_SYSREG_F_RO
       (Some (sr_par_el1, sr_par_el1_update)) 0 0 None None]"

definition more_control_rows :: "oemu_sysreg_row list" where
  "more_control_rows = [
     sysreg_row ''MAIR_EL1'' 0x0510 OEMU_EL1 OEMU_SYSREG_F_NONE
       (Some (sr_mair_el1, sr_mair_el1_update)) (NOT 0) 0 None None,
     sysreg_row ''PIRE0_EL1'' 0x0512 OEMU_EL1 OEMU_SYSREG_F_WI
       None 0 0 None None,
     sysreg_row ''PIR_EL1'' 0x0513 OEMU_EL1 OEMU_SYSREG_F_WI
       None 0 0 None None,
     sysreg_row ''AMAIR_EL1'' 0x0518 OEMU_EL1 OEMU_SYSREG_F_NONE
       (Some (sr_amair_el1, sr_amair_el1_update)) (NOT 0) 0 None None,
     sysreg_row ''VBAR_EL1'' 0x0600 OEMU_EL1 OEMU_SYSREG_F_NONE
       (Some (banked sr_vbar_el sr_vbar_el_update 1)) (NOT 0) 0 None None,
     sysreg_row ''DISR_EL1'' 0x0609 OEMU_EL1 OEMU_SYSREG_F_WI
       None 0 0 None None,
     sysreg_row ''CONTEXTIDR_EL1'' 0x0681 OEMU_EL1 OEMU_SYSREG_F_NONE
       (Some (sr_contextidr_el1, sr_contextidr_el1_update)) (NOT 0) 0 None None,
     sysreg_row ''TPIDR_EL1'' 0x0684 OEMU_EL1 OEMU_SYSREG_F_NONE
       (Some (sr_tpidr_el1, sr_tpidr_el1_update)) (NOT 0) 0 None None,
     sysreg_row ''CNTKCTL_EL1'' 0x0708 OEMU_EL1 OEMU_SYSREG_F_NONE
       (Some (sr_cntkctl_el1, sr_cntkctl_el1_update)) (NOT 0) 0 None None]"

definition cache_rows :: "oemu_sysreg_row list" where
  "cache_rows = [
     sysreg_row ''CCSIDR_EL1'' 0x0800 OEMU_EL1 OEMU_SYSREG_F_RO
       (Some (sr_ccsidr_el1, sr_ccsidr_el1_update)) (NOT 0) 0x100FE01A None None,
     sysreg_row ''CLIDR_EL1'' 0x0801 OEMU_EL1 OEMU_SYSREG_F_RO
       (Some (sr_clidr_el1, sr_clidr_el1_update)) (NOT 0) 0x0A200023 None None,
     sysreg_row ''CSSELR_EL1'' 0x1000 OEMU_EL1 OEMU_SYSREG_F_WI
       None (NOT 0) 0 None None]"

definition el0_rows :: "oemu_sysreg_row list" where
  "el0_rows = [
     sysreg_row ''CTR_EL0'' 0x1801 OEMU_EL0 OEMU_SYSREG_F_RO
       (Some (sr_ctr_el0, sr_ctr_el0_update)) (NOT 0) 0x84448004 None None,
     sysreg_row ''DCZID_EL0'' 0x1807 OEMU_EL0 OEMU_SYSREG_F_RO
       (Some (sr_dczid_el0, sr_dczid_el0_update)) (NOT 0) 0x00000010 None None,
     sysreg_row ''NZCV'' 0x1A10 OEMU_EL0 OEMU_SYSREG_F_NONE
       None (NOT 0) 0 (Some get_nzcv) (Some set_nzcv),
     sysreg_row ''DAIF'' 0x1A11 OEMU_EL1 OEMU_SYSREG_F_NONE
       None (NOT 0) 0 (Some get_daif) (Some set_daif),
     sysreg_row ''FPCR'' 0x1A20 OEMU_EL0 OEMU_SYSREG_F_NONE
       (Some (sr_fpcr, sr_fpcr_update)) 0xFFFFFFFF 0 None None,
     sysreg_row ''FPSR'' 0x1A21 OEMU_EL0 OEMU_SYSREG_F_NONE
       (Some (sr_fpsr, sr_fpsr_update)) 0xFFFFFFFF 0 None None,
     sysreg_row ''PMUSERENR_EL0'' 0x1CF0 OEMU_EL0 OEMU_SYSREG_F_WI
       None 0 0 None None,
     sysreg_row ''TPIDR_EL0'' 0x1E82 OEMU_EL0 OEMU_SYSREG_F_NONE
       (Some (sr_tpidr_el0, sr_tpidr_el0_update)) (NOT 0) 0 None None,
     sysreg_row ''TPIDRRO_EL0'' 0x1E83 OEMU_EL0 OEMU_SYSREG_F_NONE
       (Some (sr_tpidrro_el0, sr_tpidrro_el0_update)) (NOT 0) 0 None None,
     sysreg_row ''AMUSERENR_EL0'' 0x1E93 OEMU_EL0 OEMU_SYSREG_F_WI
       None 0 0 None None]"

definition timer_rows :: "oemu_sysreg_row list" where
  "timer_rows = [
     sysreg_row ''CNTFRQ_EL0'' 0x1F00 OEMU_EL0 OEMU_SYSREG_F_RO
       (Some (sr_cntfrq_el0, sr_cntfrq_el0_update)) (NOT 0) 62500000 None None,
     sysreg_row ''CNTPCT_EL0'' 0x1F01 OEMU_EL0 OEMU_SYSREG_F_RO
       None 0 0 (Some get_cntpct) None,
     sysreg_row ''CNTVCT_EL0'' 0x1F02 OEMU_EL0 OEMU_SYSREG_F_RO
       None 0 0 (Some get_cntvct) None,
     sysreg_row ''CNTVOFF_EL1'' 0x1F03 OEMU_EL1 OEMU_SYSREG_F_NONE
       (Some (sr_cntvoff_el1, sr_cntvoff_el1_update)) (NOT 0) 0 None None,
     sysreg_row ''CNTPCTSS_EL0'' 0x1F05 OEMU_EL1 OEMU_SYSREG_F_RO
       None 0 0 (Some get_cntpct) None,
     sysreg_row ''CNTVCTSS_EL0'' 0x1F06 OEMU_EL1 OEMU_SYSREG_F_RO
       None 0 0 (Some get_cntvct) None,
     sysreg_row ''CNTP_CTL_EL1'' 0x1F11 OEMU_EL1 OEMU_SYSREG_F_NONE
       None (NOT 0) 0 (Some get_cntp_ctl) (Some set_cntp_ctl),
     sysreg_row ''CNTP_CVAL_EL1'' 0x1F12 OEMU_EL1 OEMU_SYSREG_F_NONE
       (Some (sr_cntp_cval_el1, sr_cntp_cval_el1_update)) (NOT 0) 0 None None,
     sysreg_row ''CNTP_TVAL_EL1'' 0x1F13 OEMU_EL1 OEMU_SYSREG_F_NONE
       None (NOT 0) 0 (Some get_cntp_tval) (Some set_cntp_tval),
     sysreg_row ''CNTV_CTL_EL0'' 0x1F19 OEMU_EL1 OEMU_SYSREG_F_NONE
       None (NOT 0) 0 (Some get_cntv_ctl) (Some set_cntv_ctl),
     sysreg_row ''CNTV_CVAL_EL0'' 0x1F1A OEMU_EL1 OEMU_SYSREG_F_NONE
       (Some (sr_cntv_cval_el1, sr_cntv_cval_el1_update)) (NOT 0) 0 None None,
     sysreg_row ''CNTV_TVAL_EL0'' 0x1F1B OEMU_EL1 OEMU_SYSREG_F_NONE
       None (NOT 0) 0 (Some get_cntv_tval) (Some set_cntv_tval),
     sysreg_row ''SP_EL1'' 0x2208 OEMU_EL2 OEMU_SYSREG_F_NONE
       None (NOT 0) 0 (Some get_sp_el1) (Some set_sp_el1)]"

definition el3_rows :: "oemu_sysreg_row list" where
  "el3_rows = [
     sysreg_row ''SPSR_EL3'' 0x3200 OEMU_EL3 OEMU_SYSREG_F_NONE
       (Some (banked sr_spsr_el sr_spsr_el_update 3)) (NOT 0) 0 None None,
     sysreg_row ''ELR_EL3'' 0x3201 OEMU_EL3 OEMU_SYSREG_F_NONE
       (Some (banked sr_elr_el sr_elr_el_update 3)) (NOT 0) 0 None None,
     sysreg_row ''ESR_EL3'' 0x3290 OEMU_EL3 OEMU_SYSREG_F_NONE
       (Some (banked sr_esr_el sr_esr_el_update 3)) (NOT 0) 0 None None,
     sysreg_row ''FAR_EL3'' 0x3300 OEMU_EL3 OEMU_SYSREG_F_NONE
       (Some (banked sr_far_el sr_far_el_update 3)) (NOT 0) 0 None None,
     sysreg_row ''VBAR_EL3'' 0x3600 OEMU_EL3 OEMU_SYSREG_F_NONE
       (Some (banked sr_vbar_el sr_vbar_el_update 3)) (NOT 0) 0 None None]"

definition k_rows :: "oemu_sysreg_row list" where
  "k_rows = id_rows @ control_rows @ link_rows @ more_control_rows @ cache_rows @ el0_rows @ timer_rows @ el3_rows"

lemmas table_sections = k_rows_def id_rows_def control_rows_def link_rows_def
  more_control_rows_def cache_rows_def el0_rows_def timer_rows_def el3_rows_def
lemmas table_defs = table_sections sysreg_row_def

definition oemu_sysreg_internal_table :: "oemu_sysreg_row list" where
  "oemu_sysreg_internal_table = k_rows"

definition oemu_sysreg_internal_find :: "u32 \<Rightarrow> oemu_sysreg_row option" where
  "oemu_sysreg_internal_find sel = List.find (\<lambda>row. row_sel row = sel) k_rows"

section \<open>Operations\<close>

definition zero_sysregs :: oemu_sysregs where
  "zero_sysregs = \<lparr>sr_sp_el = replicate 4 0, sr_elr_el = replicate 4 0, sr_spsr_el = replicate 4 0, sr_vbar_el =
     replicate 4 0, sr_esr_el = replicate 4 0, sr_far_el = replicate 4 0, sr_sctlr_el1 = 0, sr_ttbr0_el1
     = 0, sr_ttbr1_el1 = 0, sr_tcr_el1 = 0, sr_mair_el1 = 0, sr_par_el1 = 0, sr_cntvoff_el1 = 0,
     sr_cntv_ctl_el1 = 0, sr_cntv_cval_el1 = 0, sr_cntkctl_el1 = 0, sr_cntp_ctl_el1 = 0, sr_cntp_cval_el1
     = 0, sr_cntfrq_el0 = 0, sr_cntvct = 0, sr_amair_el1 = 0, sr_contextidr_el1 = 0, sr_cpacr_el1 = 0,
     sr_fpcr = 0, sr_fpsr = 0, sr_tpidr_el1 = 0, sr_tpidr_el0 = 0, sr_tpidrro_el0 = 0, sr_midr_el1 = 0,
     sr_mpidr_el1 = 0, sr_revidr_el1 = 0, sr_ctr_el0 = 0, sr_clidr_el1 = 0, sr_ccsidr_el1 = 0,
     sr_dczid_el0 = 0, sr_id_aa64pfr0_el1 = 0, sr_id_aa64isar0_el1 = 0, sr_id_aa64isar1_el1 = 0,
     sr_id_aa64dfr0_el1 = 0, sr_id_aa64mmfr0_el1 = 0, sr_id_aa64mmfr1_el1 = 0, sr_pstate = 0\<rparr>"

definition row_reset :: "oemu_sysreg_row \<Rightarrow> oemu_sysregs \<Rightarrow> oemu_sysregs" where
  "row_reset row sr =
     (case row_offset row of None \<Rightarrow> sr | Some (sel, upd) \<Rightarrow> upd (\<lambda>_. row_reset_value row) sr)"

definition oemu_sysregs_init :: "oemu_regs \<Rightarrow> oemu_el \<Rightarrow> oemu_sysregs option" where
  "oemu_sysregs_init regs el = do {
     OEMU_REQUIRE (el \<noteq> OEMU_EL2);
     let sr = fold row_reset oemu_sysreg_internal_table zero_sysregs;
     let sr = sr\<lparr>sr_pstate := oemu_pstate_mode el OR push_bit OEMU_PSTATE_DAIF_SHIFT OEMU_PSTATE_DAIF_MASK\<rparr>;
     Some (sr\<lparr>sr_sp_el := (sr_sp_el sr)[el_val el := r_sp regs]\<rparr>)
   }"

definition row_access_allowed :: "oemu_sysregs \<Rightarrow> oemu_sysreg_row \<Rightarrow> bool" where
  "row_access_allowed sr row \<longleftrightarrow> oemu_pstate_el (sr_pstate sr) \<ge> row_min_el row"

definition row_read :: "sysstate \<Rightarrow> oemu_sysreg_row \<Rightarrow> u64" where
  "row_read st row =
     (case row_get row of
        Some get \<Rightarrow> get st
      | None \<Rightarrow>
          if row_flags row = OEMU_SYSREG_F_WI then 0
          else case row_offset row of
                 Some (sel, upd) \<Rightarrow> sel (snd st) AND row_write_mask row
               | None \<Rightarrow> 0)"

definition row_write :: "sysstate \<Rightarrow> oemu_sysreg_row \<Rightarrow> u64 \<Rightarrow> sysstate" where
  "row_write st row value =
     (case row_set row of
        Some set_fn \<Rightarrow> set_fn st value
      | None \<Rightarrow>
          (case row_offset row of
             Some (sel, upd) \<Rightarrow>
               (fst st, upd (\<lambda>current. (current AND NOT (row_write_mask row)) OR (value AND row_write_mask row)) (snd st))
           | None \<Rightarrow> st))"

definition oemu_sysreg_read :: "sysstate \<Rightarrow> u32 \<Rightarrow> oemu_status + u64" where
  "oemu_sysreg_read st sel =
     (case oemu_sysreg_internal_find sel of
        None \<Rightarrow> Inl OEMU_ERR_UNSUPPORTED
      | Some row \<Rightarrow>
          if \<not> row_access_allowed (snd st) row then Inl OEMU_ERR_UNSUPPORTED
          else Inr (row_read st row))"

definition oemu_sysreg_write :: "sysstate \<Rightarrow> u32 \<Rightarrow> u64 \<Rightarrow> oemu_status \<times> sysstate" where
  "oemu_sysreg_write st sel value =
     (case oemu_sysreg_internal_find sel of
        None \<Rightarrow> (OEMU_ERR_UNSUPPORTED, st)
      | Some row \<Rightarrow>
          if \<not> row_access_allowed (snd st) row \<or> row_flags row = OEMU_SYSREG_F_RO then (OEMU_ERR_UNSUPPORTED, st)
          else if row_flags row = OEMU_SYSREG_F_WI then (OEMU_OK, st)
          else (OEMU_OK, row_write st row value))"

definition oemu_sysreg_name :: "u32 \<Rightarrow> string" where
  "oemu_sysreg_name sel =
     (case oemu_sysreg_internal_find sel of Some row \<Rightarrow> row_name row | None \<Rightarrow> ''unknown'')"


section \<open>The table is well formed\<close>

lemma sorted_wrt_less_Cons2:
  "sorted_wrt (<) (x # y # zs) \<longleftrightarrow> x < y \<and> sorted_wrt (<) (y # zs :: 'a::order list)"
  by (auto dest: order_less_trans)

lemma table_sorted: "sorted_wrt (<) (map row_sel k_rows)"
  by (simp add: table_defs sorted_wrt_less_Cons2 sorted_wrt1 del: sorted_wrt.simps(2))

lemma table_distinct: "distinct (map row_sel k_rows)"
  using table_sorted strict_sorted_iff by blast

lemma find_distinct:
  "distinct (map f xs) \<Longrightarrow> x \<in> set xs \<Longrightarrow> List.find (\<lambda>y. f y = f x) xs = Some x"
  by (induction xs) (auto simp: image_iff)

lemma find_row: "oemu_sysreg_internal_find sel = Some row \<longleftrightarrow> row \<in> set k_rows \<and> row_sel row = sel"
proof
  assume "row \<in> set k_rows \<and> row_sel row = sel"
  then show "oemu_sysreg_internal_find sel = Some row"
    using find_distinct [OF table_distinct] by (auto simp: oemu_sysreg_internal_find_def)
qed (auto simp: oemu_sysreg_internal_find_def find_Some_iff)

text \<open>A row is a constant or computed read-only register, a register that reads as zero and ignores
  writes, a stored field, or a pair of callbacks; so the accessors never touch the storage of a row
  that has none.\<close>

definition row_ok :: "oemu_sysreg_row \<Rightarrow> bool" where
  "row_ok row \<longleftrightarrow>
     (case row_flags row of
        OEMU_SYSREG_F_RO \<Rightarrow> row_set row = None \<and> (row_get row = None) = (row_offset row \<noteq> None)
      | OEMU_SYSREG_F_WI \<Rightarrow> row_set row = None \<and> row_get row = None \<and> row_offset row = None
      | OEMU_SYSREG_F_NONE \<Rightarrow> (row_set row = None) = (row_offset row \<noteq> None) \<and>
          (row_get row = None) = (row_set row = None))"

lemma row_ok_stored: "row_ok row \<Longrightarrow> row_offset row = Some a \<Longrightarrow> row_get row = None \<and> row_set row = None"
  by (cases "row_flags row"; cases a) (auto simp: row_ok_def)

lemma table_ok: "list_all row_ok k_rows"
  by (simp add: table_defs row_ok_def)

section \<open>Stored registers\<close>

definition sr_inv :: "oemu_sysregs \<Rightarrow> bool" where
  "sr_inv sr \<longleftrightarrow> length (sr_sp_el sr) = 4 \<and> length (sr_elr_el sr) = 4 \<and> length (sr_spsr_el sr) = 4 \<and>
     length (sr_vbar_el sr) = 4 \<and> length (sr_esr_el sr) = 4 \<and> length (sr_far_el sr) = 4"

text \<open>Two fields overlap only when they are the same: a field reads back what was put into it and is
  untouched by an update of the other.\<close>

definition field_frame :: "sysreg_field \<Rightarrow> sysreg_field \<Rightarrow> bool" where
  "field_frame a b \<longleftrightarrow> (\<forall>sr f. sr_inv sr \<longrightarrow> fst a (snd b f sr) = fst a sr)"

definition field_ok :: "sysreg_field \<Rightarrow> bool" where
  "field_ok a \<longleftrightarrow> (\<forall>sr f. sr_inv sr \<longrightarrow>
     fst a (snd a f sr) = f (fst a sr) \<and> sr_inv (snd a f sr) \<and> sr_pstate (snd a f sr) = sr_pstate sr)"


lemma table_fields_ok: "list_all (\<lambda>row. case row_offset row of None \<Rightarrow> True | Some a \<Rightarrow> field_ok a) k_rows"
  by (simp add: table_defs field_ok_def banked_def sr_inv_def)

definition rows_frame :: "oemu_sysreg_row \<Rightarrow> oemu_sysreg_row \<Rightarrow> bool" where
  "rows_frame r r' \<longleftrightarrow> (\<forall>a b. row_offset r = Some a \<and> row_offset r' = Some b \<longrightarrow> field_frame a b \<and> field_frame b a)"

lemma rows_frame_row:
  "rows_frame (sysreg_row n s e fl None m rv g st) r'"
  "rows_frame r (sysreg_row n s e fl None m rv g st)"
  "rows_frame (sysreg_row n s e fl (Some a) m rv g st) (sysreg_row n' s' e' fl' (Some b) m' rv' g' st') =
     (field_frame a b \<and> field_frame b a)"
  by (auto simp: rows_frame_def sysreg_row_def simp del: split_paired_All)

lemma sorted_wrt_Cons_list_all: "sorted_wrt P (x # xs) \<longleftrightarrow> list_all (P x) xs \<and> sorted_wrt P xs"
  by (simp add: list_all_iff)

lemma table_frame: "sorted_wrt rows_frame k_rows"
  by (simp add: table_sections rows_frame_row field_frame_def banked_def sr_inv_def
      sorted_wrt_Cons_list_all sorted_wrt1 del: sorted_wrt.simps(2))

lemma rows_frameD:
  assumes "r \<in> set k_rows" "r' \<in> set k_rows" "row_sel r \<noteq> row_sel r'" "row_offset r = Some a" "row_offset r' = Some b"
  shows "field_frame a b"
proof -
  obtain i j where ij: "i < length k_rows" "j < length k_rows" "r = k_rows ! i" "r' = k_rows ! j"
    using assms(1,2) by (metis in_set_conv_nth)
  then have "i \<noteq> j" using assms(3) by auto
  then consider "i < j" | "j < i" by linarith
  then show ?thesis
    using sorted_wrt_nth_less [OF table_frame, of i j] sorted_wrt_nth_less [OF table_frame, of j i] ij assms(4,5)
    by cases (auto simp: rows_frame_def simp del: split_paired_All)
qed

text \<open>
  Property C39. Stored system registers, those the table keeps in a field of the register block: an MSR of
  one that the table accepts is read back by the next MRS through the register's write mask, and changes
  nothing else that is stored: not the general registers, not PSTATE, not what is read from any other
  stored register. (The computed rows, such as the timer's views of the counter, are not in its scope.)
\<close>

theorem sysreg_write_read:
  assumes "sr_inv sr" and "oemu_sysreg_write (regs, sr) sel v = (OEMU_OK, (regs', sr'))"
    and "oemu_sysreg_internal_find sel = Some row" and "row_offset row \<noteq> None"
  shows "oemu_sysreg_read (regs', sr') sel = Inr (v AND row_write_mask row) \<and> regs' = regs \<and>
    sr_inv sr' \<and> sr_pstate sr' = sr_pstate sr \<and>
    (\<forall>sel' row'. sel' \<noteq> sel \<and> oemu_sysreg_internal_find sel' = Some row' \<and> row_offset row' \<noteq> None \<longrightarrow>
       oemu_sysreg_read (regs', sr') sel' = oemu_sysreg_read (regs, sr) sel')"
proof -
  from assms(3) have row: "row \<in> set k_rows" "row_sel row = sel" by (simp_all add: find_row)
  obtain a where off: "row_offset row = Some a" using assms(4) by auto
  have ok: "row_ok row" "field_ok a"
    using row(1) table_ok table_fields_ok off by (force simp: list_all_iff)+
  have flags: "row_flags row = OEMU_SYSREG_F_NONE" "row_set row = None" "row_get row = None"
    and el: "row_access_allowed sr row"
    using assms(2,3) ok(1) off by (auto simp: oemu_sysreg_write_def row_ok_def split: if_splits oemu_sysreg_flags.splits)
  let ?f = "\<lambda>current. (current AND NOT (row_write_mask row)) OR (v AND row_write_mask row)"
  have st: "regs' = regs" "sr' = snd a ?f sr"
    using assms(2,3) flags off el by (auto simp: oemu_sysreg_write_def row_write_def split: prod.splits)
  have new: "fst a sr' = ?f (fst a sr)" "sr_inv sr'" "sr_pstate sr' = sr_pstate sr"
    using ok(2) assms(1) by (simp_all add: field_ok_def st)
  have "?f x AND row_write_mask row = v AND row_write_mask row" for x
    by (rule bit_word_eqI) (auto simp: bit_simps)
  then have 1: "oemu_sysreg_read (regs', sr') sel = Inr (v AND row_write_mask row)"
    using assms(3) el flags off new by (cases a) (simp add: oemu_sysreg_read_def row_read_def row_access_allowed_def)
  have "oemu_sysreg_read (regs', sr') sel' = oemu_sysreg_read (regs, sr) sel'"
    if "sel' \<noteq> sel" "oemu_sysreg_internal_find sel' = Some row'" "row_offset row' = Some b" for sel' row' b
  proof -
    have row': "row' \<in> set k_rows" "row_sel row' = sel'" using that(2) by (simp_all add: find_row)
    then have "row_get row' = None"
      using table_ok that(3) row_ok_stored by (auto simp: list_all_iff)
    moreover have "fst b sr' = fst b sr"
      using rows_frameD [OF row'(1) row(1) _ that(3) off] row row' that(1) assms(1) by (auto simp: field_frame_def st)
    ultimately show ?thesis
      using that(2,3) new(3) by (cases b) (simp add: oemu_sysreg_read_def row_read_def row_access_allowed_def)
  qed
  with 1 new st(1) show ?thesis by blast
qed

section \<open>The stack-pointer banks\<close>

text \<open>Four separate stack pointers, as the architecture has them: the bank that PSTATE selects lives
  in the register file, the others in the structure.\<close>

definition active_bank :: "u64 \<Rightarrow> oemu_el" where
  "active_bank pstate = (if oemu_pstate_sp_sel pstate = 0 then OEMU_EL0 else oemu_pstate_el pstate)"

definition sp_of :: "sysstate \<Rightarrow> oemu_el \<Rightarrow> u64" where
  "sp_of = (\<lambda>(regs, sr) b. if active_bank (sr_pstate sr) = b then r_sp regs else sr_sp_el sr ! el_val b)"

lemma switch_sp_fields:
  assumes "oemu_sysregs_switch_sp (regs, sr) p = (regs', sr')"
  shows "sr_pstate sr' = p" "r_pc regs' = r_pc regs" "r_x regs' = r_x regs" "r_nzcv regs' = r_nzcv regs"
    "length (sr_sp_el sr') = length (sr_sp_el sr)" "sr' = sr\<lparr>sr_sp_el := sr_sp_el sr', sr_pstate := p\<rparr>"
  using assms by (auto simp: oemu_sysregs_switch_sp_def Let_def split: if_splits)

text \<open>The switch in closed form: it moves the live stack pointer exactly when the active bank changes.\<close>

lemma switch_sp_eq:
  "oemu_sysregs_switch_sp (regs, sr) p =
    (let old = active_bank (sr_pstate sr); new = active_bank p; sp = (sr_sp_el sr)[el_val old := r_sp regs]
     in if old = new then (regs, sr\<lparr>sr_pstate := p\<rparr>)
        else (regs\<lparr>r_sp := sp ! el_val new\<rparr>, sr\<lparr>sr_sp_el := sp, sr_pstate := p\<rparr>))"
  by (cases "oemu_pstate_sp_sel (sr_pstate sr) = 0"; cases "oemu_pstate_sp_sel p = 0")
    (auto simp: oemu_sysregs_switch_sp_def active_bank_def Let_def)

lemma switch_sp_banks:
  assumes "length (sr_sp_el sr) = 4"
  shows "sp_of (oemu_sysregs_switch_sp (regs, sr) p) = sp_of (regs, sr)"
    "r_sp (fst (oemu_sysregs_switch_sp (regs, sr) p)) = sp_of (regs, sr) (active_bank p)"
  using assms by (auto simp: fun_eq_iff sp_of_def switch_sp_eq Let_def)

lemma sp_active_iff:
  "sp_el0_active sr \<longleftrightarrow> active_bank (sr_pstate sr) = OEMU_EL0"
  "oemu_pstate_el (sr_pstate sr) = OEMU_EL1 \<and> oemu_pstate_sp_sel (sr_pstate sr) \<noteq> 0 \<longleftrightarrow> active_bank (sr_pstate sr) = OEMU_EL1"
  by (auto simp: sp_el0_active_def active_bank_def)

text \<open>
  The stack-pointer banks refine four separate registers: a switch of PSTATE, by MSR SPSel,
  exception entry or return, changes none of them and makes the newly selected one the live stack
  pointer; SP_EL0 and SP_EL1 read and write exactly their own bank, whether it is live or not.
\<close>

theorem sp_banks_refine:
  assumes "length (sr_sp_el (snd st)) = 4"
  shows "sp_of (oemu_sysregs_switch_sp st p) = sp_of st \<and>
    r_sp (fst (oemu_sysregs_switch_sp st p)) = sp_of st (active_bank p) \<and>
    sr_pstate (snd (oemu_sysregs_switch_sp st p)) = p \<and>
    get_sp_el0 st = sp_of st OEMU_EL0 \<and> sp_of (set_sp_el0 st v) = (sp_of st)(OEMU_EL0 := v) \<and>
    get_sp_el1 st = sp_of st OEMU_EL1 \<and> sp_of (set_sp_el1 st v) = (sp_of st)(OEMU_EL1 := v)"
proof -
  obtain regs sr where st: "st = (regs, sr)" by fastforce
  have pst: "sr_pstate (snd (oemu_sysregs_switch_sp (regs, sr) p)) = p"
    using switch_sp_fields(1) by (metis prod.collapse)
  have g: "get_sp_el0 st = sp_of st OEMU_EL0" "get_sp_el1 st = sp_of st OEMU_EL1"
    by (simp_all only: st get_sp_el0_def get_sp_el1_def sp_of_def sp_active_iff split Let_def)
  have s0: "sp_of (set_sp_el0 st v) = (sp_of st)(OEMU_EL0 := v)"
    using assms by (simp add: fun_eq_iff st set_sp_el0_def sp_of_def sp_active_iff Let_def nth_list_update)
  have s1: "sp_of (set_sp_el1 st v) = (sp_of st)(OEMU_EL1 := v)"
    unfolding st set_sp_el1_def sp_of_def split Let_def oemu_sysregs.simps sp_active_iff
    using assms by (simp add: fun_eq_iff st nth_list_update)
  show ?thesis
    using g s0 s1 pst switch_sp_banks [of sr regs p] assms by (simp add: st)
qed

section \<open>The timer\<close>

lemma sint_minus_nonneg_iff:
  assumes "uint n < 2 ^ 63" "uint v < 2 ^ 63"
  shows "0 \<le> sint (n - v :: u64) \<longleftrightarrow> v \<le> n"
proof -
  have sub: "uint (n - v) = (if uint v \<le> uint n then uint n - uint v else uint n - uint v + 2 ^ 64)"
    using uint_sub_if' [of n v] by simp
  have nonneg: "0 \<le> sint (n - v) \<longleftrightarrow> uint (n - v) < 2 ^ 63"
    using bit_last_iff [of "n - v"] bit_uint_top_iff [of "n - v" 63] uint_bounded [of "n - v"] by auto
  show ?thesis
  proof (cases "uint v \<le> uint n")
    case True
    then have "uint (n - v) = uint n - uint v" using sub by simp
    then have "uint (n - v) < 2 ^ 63" using assms(1) uint_ge_0 [of v] by linarith
    with True nonneg show ?thesis by (simp add: word_le_def)
  next
    case False
    then have "uint (n - v) = uint n - uint v + 2 ^ 64" using sub by simp
    moreover have "(2 :: int) ^ 64 = 2 ^ 63 + 2 ^ 63" by simp
    ultimately have "\<not> uint (n - v) < 2 ^ 63" using assms(2) uint_ge_0 [of n] by linarith
    with False nonneg show ?thesis by (simp add: word_le_def)
  qed
qed

lemma istat_bit: "((x AND NOT 4) OR (if p then 4 else 0)) AND (4 :: u64) \<noteq> 0 \<longleftrightarrow> p"
proof -
  have "(4 :: u64) = push_bit 2 1" by simp
  then show ?thesis by (simp only: and_push_bit_ne_0_iff) (simp add: bit_simps)
qed

text \<open>
  Arming the virtual timer: after MSR CNTV_TVAL with a positive delta, an enabled and
  unmasked timer asserts its condition exactly from the moment the counter has advanced by that
  delta, also when counter or comparator wrap around; CNTV_TVAL reads the counts that remain and bit 2
  of CNTV_CTL is the condition itself.
\<close>

theorem timer_fires_after:
  assumes "sr_cntv_ctl_el1 sr AND 1 \<noteq> 0" and "sr_cntv_ctl_el1 sr AND 2 = 0"
    and "uint delta < 2 ^ 63" and "uint n < 2 ^ 63" and "set_cntv_tval (regs, sr) delta = (regs', sr')"
  shows "let st = (regs', sr'\<lparr>sr_cntvct := sr_cntvct sr' + n\<rparr>)
    in (get_cntv_ctl st AND OEMU_GTIMER_CTL_ISTAT \<noteq> 0 \<longleftrightarrow> delta \<le> n) \<and> get_cntv_tval st = delta - n \<and>
       get_cntvct st = get_cntvct (regs, sr) + n"
proof -
  have c: "get_cntv_ctl (regs', sr'\<lparr>sr_cntvct := sr_cntvct sr' + n\<rparr>) AND OEMU_GTIMER_CTL_ISTAT \<noteq> 0 \<longleftrightarrow>
      0 \<le> sint (n - delta)"
    using assms(1,2,5) unfolding get_cntv_ctl_def split Let_def istat_bit
    by (auto simp: set_cntv_tval_def oemu_gtimer_pending_def)
  have "0 \<le> sint (n - delta) \<longleftrightarrow> delta \<le> n" by (rule sint_minus_nonneg_iff [OF assms(4,3)])
  with c assms(5) show ?thesis
    by (auto simp: Let_def get_cntv_tval_def get_cntvct_def set_cntv_tval_def)
qed

section \<open>The translation result register\<close>

text \<open>The row of PAR_EL1 has a write mask of zero, and reads are masked with it, so the result that
  an address-translation instruction leaves there reads as zero.\<close>

lemma par_el1_reads_zero:
  "OEMU_EL1 \<le> oemu_pstate_el (sr_pstate sr) \<Longrightarrow> oemu_sysreg_read (regs, sr) 0x3A0 = Inr 0"
proof -
  have "\<exists>row. oemu_sysreg_internal_find 0x3A0 = Some row \<and> row_get row = None \<and> row_write_mask row = 0 \<and> row_min_el row = OEMU_EL1"
    by (simp add: oemu_sysreg_internal_find_def table_defs)
  then show "OEMU_EL1 \<le> oemu_pstate_el (sr_pstate sr) \<Longrightarrow> oemu_sysreg_read (regs, sr) 0x3A0 = Inr 0"
    by (auto simp: oemu_sysreg_read_def row_read_def row_access_allowed_def split: option.splits)
qed

text \<open>TPIDRRO_EL0, read-only below EL1 in the architecture, is an ordinary row: EL0 can write it.\<close>

lemma tpidrro_writable: "fst (oemu_sysreg_write (regs, sr) 0x1E83 v) = OEMU_OK"
proof -
  have "\<exists>row. oemu_sysreg_internal_find 0x1E83 = Some row \<and> row_flags row = OEMU_SYSREG_F_NONE \<and> row_min_el row = OEMU_EL0"
    by (simp add: oemu_sysreg_internal_find_def table_defs)
  then show ?thesis by (auto simp: oemu_sysreg_write_def row_access_allowed_def less_eq_oemu_el_def)
qed

section \<open>Sample states\<close>

definition el1_sysregs :: oemu_sysregs where
  "el1_sysregs = zero_sysregs\<lparr>sr_pstate := 0x3C5, sr_cntv_ctl_el1 := 1, sr_cntvct := 0xFFFFFFFFFFFFFFFE\<rparr>"

lemma el1_sysregs_inv: "sr_inv el1_sysregs"
  by (simp add: sr_inv_def el1_sysregs_def zero_sysregs_def)

lemma find_vbar: "oemu_sysreg_internal_find 0x600 =
    Some (sysreg_row ''VBAR_EL1'' 0x600 OEMU_EL1 OEMU_SYSREG_F_NONE (Some (banked sr_vbar_el sr_vbar_el_update 1)) (NOT 0) 0 None None)"
  by (simp add: oemu_sysreg_internal_find_def table_defs)

lemma el1_write_vbar: "oemu_sysreg_write (regs, el1_sysregs) 0x600 v =
    (OEMU_OK, (regs, el1_sysregs\<lparr>sr_vbar_el := [0, v, 0, 0]\<rparr>))"
proof -
  have "replicate 4 (0 :: u64) = [0, 0, 0, 0]" by (simp add: numeral_eq_Suc)
  then show ?thesis
    by (simp add: oemu_sysreg_write_def find_vbar sysreg_row_def row_access_allowed_def less_eq_oemu_el_def
        oemu_pstate_el_def el1_sysregs_def zero_sysregs_def row_write_def banked_def)
qed

theorem sysreg_write_read_witness:
  "oemu_sysreg_write (oemu_regs_init 0 0, el1_sysregs) 0x600 0x80000 =
     (OEMU_OK, (oemu_regs_init 0 0, el1_sysregs\<lparr>sr_vbar_el := [0, 0x80000, 0, 0]\<rparr>)) \<and>
   oemu_sysreg_read (oemu_regs_init 0 0, el1_sysregs\<lparr>sr_vbar_el := [0, 0x80000, 0, 0]\<rparr>) 0x600 = Inr 0x80000"
  using sysreg_write_read [OF el1_sysregs_inv el1_write_vbar find_vbar] el1_write_vbar
  by (simp add: sysreg_row_def)

theorem sp_banks_refine_witness:
  "length (sr_sp_el (snd (oemu_regs_init 0 0x1000, el1_sysregs))) = 4 \<and>
   sp_of (oemu_sysregs_switch_sp (oemu_regs_init 0 0x1000, el1_sysregs) 0) OEMU_EL1 = 0x1000"
proof -
  have "length (sr_sp_el (snd (oemu_regs_init 0 0x1000, el1_sysregs))) = 4"
    using el1_sysregs_inv by (simp add: sr_inv_def)
  moreover have "sp_of (oemu_regs_init 0 0x1000, el1_sysregs) OEMU_EL1 = 0x1000"
    by (simp add: sp_of_def active_bank_def oemu_pstate_sp_sel_def oemu_pstate_el_def el1_sysregs_def oemu_regs_init_def)
  ultimately show ?thesis using sp_banks_refine [of "(oemu_regs_init 0 0x1000, el1_sysregs)" 0] by simp
qed

theorem timer_fires_after_witness:
  "\<exists>sr'. set_cntv_tval (oemu_regs_init 0 0, el1_sysregs) 5 = (oemu_regs_init 0 0, sr') \<and>
     get_cntv_ctl (oemu_regs_init 0 0, sr'\<lparr>sr_cntvct := sr_cntvct sr' + 4\<rparr>) AND 4 = 0 \<and>
     get_cntv_ctl (oemu_regs_init 0 0, sr'\<lparr>sr_cntvct := sr_cntvct sr' + 5\<rparr>) AND 4 \<noteq> 0"
proof -
  obtain sr' where sr': "set_cntv_tval (oemu_regs_init 0 0, el1_sysregs) 5 = (oemu_regs_init 0 0, sr')"
    by (simp add: set_cntv_tval_def)
  have "sr_cntv_ctl_el1 el1_sysregs AND 1 \<noteq> 0" "sr_cntv_ctl_el1 el1_sysregs AND 2 = 0"
    by (simp_all add: el1_sysregs_def)
  from timer_fires_after [OF this _ _ sr', of 4] timer_fires_after [OF this _ _ sr', of 5] sr'
  show ?thesis by (auto simp: Let_def)
qed

end
