(* ===== verification/Oemu_Exc.thy ===== *)
theory Oemu_Exc
  imports Oemu_Sysreg Oemu_Words
begin

text \<open>
  Exception entry and return (\<^verbatim>\<open>include/oemu/exc.h\<close>, \<^verbatim>\<open>src/exc/exc.c\<close>): syndrome words, routing, the vector
  offset, the entry sequence and ERET, over the pair of register file and system registers. An
  operation that could trip the check of its delivery level returns an option.
\<close>

section \<open>Syndromes\<close>

datatype oemu_exc_ec =
    OEMU_EXC_EC_UNKNOWN | OEMU_EXC_EC_WFX | OEMU_EXC_EC_FP_ASIMD | OEMU_EXC_EC_SVC64 | OEMU_EXC_EC_HVC64
  | OEMU_EXC_EC_SMC64 | OEMU_EXC_EC_SYSREG | OEMU_EXC_EC_ILLEGAL_ERET | OEMU_EXC_EC_IABORT_LOWER
  | OEMU_EXC_EC_IABORT_SAME | OEMU_EXC_EC_DABORT_LOWER | OEMU_EXC_EC_DABORT_SAME | OEMU_EXC_EC_SERROR
  | OEMU_EXC_EC_BREAKPOINT | OEMU_EXC_EC_BRK64

primrec ec_val :: "oemu_exc_ec \<Rightarrow> u32" where
  "ec_val OEMU_EXC_EC_UNKNOWN = 0x00"
| "ec_val OEMU_EXC_EC_WFX = 0x01"
| "ec_val OEMU_EXC_EC_FP_ASIMD = 0x07"
| "ec_val OEMU_EXC_EC_SVC64 = 0x15"
| "ec_val OEMU_EXC_EC_HVC64 = 0x16"
| "ec_val OEMU_EXC_EC_SMC64 = 0x17"
| "ec_val OEMU_EXC_EC_SYSREG = 0x18"
| "ec_val OEMU_EXC_EC_ILLEGAL_ERET = 0x1A"
| "ec_val OEMU_EXC_EC_IABORT_LOWER = 0x20"
| "ec_val OEMU_EXC_EC_IABORT_SAME = 0x21"
| "ec_val OEMU_EXC_EC_DABORT_LOWER = 0x24"
| "ec_val OEMU_EXC_EC_DABORT_SAME = 0x25"
| "ec_val OEMU_EXC_EC_SERROR = 0x2F"
| "ec_val OEMU_EXC_EC_BREAKPOINT = 0x30"
| "ec_val OEMU_EXC_EC_BRK64 = 0x3C"

datatype oemu_exc_kind = OEMU_EXC_KIND_SYNC | OEMU_EXC_KIND_IRQ | OEMU_EXC_KIND_FIQ | OEMU_EXC_KIND_SERROR

primrec kind_val :: "oemu_exc_kind \<Rightarrow> nat" where
  "kind_val OEMU_EXC_KIND_SYNC = 0"
| "kind_val OEMU_EXC_KIND_IRQ = 1"
| "kind_val OEMU_EXC_KIND_FIQ = 2"
| "kind_val OEMU_EXC_KIND_SERROR = 3"

definition oemu_exc_internal_esr :: "oemu_exc_ec \<Rightarrow> u32 \<Rightarrow> u32" where
  "oemu_exc_internal_esr ec iss = push_bit 26 (ec_val ec) OR push_bit 25 1 OR (iss AND 0x01FFFFFF)"

definition oemu_exc_internal_esr_undefined :: "u32 \<Rightarrow> u32" where
  "oemu_exc_internal_esr_undefined insn = oemu_exc_internal_esr OEMU_EXC_EC_UNKNOWN (insn AND 0x01FFFFFF)"

definition oemu_exc_internal_esr_imm16 :: "oemu_exc_ec \<Rightarrow> u32 \<Rightarrow> u32" where
  "oemu_exc_internal_esr_imm16 ec imm16 = oemu_exc_internal_esr ec (imm16 AND 0xFFFF)"

definition oemu_exc_internal_esr_data_abort :: "oemu_exc_ec \<Rightarrow> nat \<Rightarrow> bool \<Rightarrow> bool \<Rightarrow> u8 \<Rightarrow> u32" where
  "oemu_exc_internal_esr_data_abort ec log2_size is_write isv dfsc =
     (let iss = ucast (dfsc AND 0x3F);
          iss = (if isv then iss OR push_bit 24 1 OR push_bit 21 (of_nat log2_size AND 3) OR push_bit 11 1 else iss);
          iss = (if is_write then iss OR push_bit 6 1 else iss)
      in oemu_exc_internal_esr ec iss)"

definition oemu_exc_internal_esr_instruction_abort :: "oemu_exc_ec \<Rightarrow> u8 \<Rightarrow> u32" where
  "oemu_exc_internal_esr_instruction_abort ec dfsc = oemu_exc_internal_esr ec (ucast dfsc AND 0x3F)"

definition oemu_exc_internal_esr_illegal_eret :: u32 where
  "oemu_exc_internal_esr_illegal_eret = oemu_exc_internal_esr OEMU_EXC_EC_ILLEGAL_ERET 0"

section \<open>Mode and routing\<close>

definition oemu_exc_internal_mode_valid :: "u64 \<Rightarrow> bool" where
  "oemu_exc_internal_mode_valid mode =
     (let el = drop_bit 2 mode AND 3
      in mode AND 0x12 = 0 \<and> \<not> (el = 0 \<and> mode AND 1 \<noteq> 0))"

definition oemu_exc_route :: "oemu_el \<Rightarrow> oemu_el" where
  "oemu_exc_route from = (if from = OEMU_EL3 then OEMU_EL3 else OEMU_EL1)"

definition oemu_exc_vector_offset :: "bool \<Rightarrow> bool \<Rightarrow> oemu_exc_kind \<Rightarrow> u64" where
  "oemu_exc_vector_offset same_el sp_sel kind =
     (let group = (if same_el then (if sp_sel then 0x200 else 0x000) else 0x400)
      in group + push_bit 7 (of_nat (kind_val kind)))"

section \<open>Entry and return\<close>

definition entry_pstate :: "oemu_el \<Rightarrow> u64" where
  "entry_pstate target = oemu_pstate_mode target OR push_bit OEMU_PSTATE_DAIF_SHIFT OEMU_PSTATE_DAIF_MASK"

definition oemu_exc_take ::
  "sysstate \<Rightarrow> oemu_exc_kind \<Rightarrow> oemu_el \<Rightarrow> u32 \<Rightarrow> u64 \<Rightarrow> bool \<Rightarrow> sysstate option" where
  "oemu_exc_take = (\<lambda>(regs, sr) kind target esr far far_valid. do {
     OEMU_REQUIRE (target \<noteq> OEMU_EL0 \<and> target \<noteq> OEMU_EL2);
     let t = el_val target;
     let old_pstate = sr_pstate sr;
     let from = oemu_pstate_el old_pstate;
     let vector = sr_vbar_el sr ! t + oemu_exc_vector_offset (from = target) (oemu_pstate_sp_sel old_pstate \<noteq> 0) kind;
     let (regs, sr) = oemu_sysregs_switch_sp (regs, sr) (entry_pstate target);
     let sr = sr\<lparr>sr_spsr_el := (sr_spsr_el sr)[t := (old_pstate AND NOT (ucast OEMU_NZCV_MASK)) OR ucast (oemu_regs_nzcv regs)]\<rparr>;
     let sr = sr\<lparr>sr_elr_el := (sr_elr_el sr)[t := r_pc regs]\<rparr>;
     let sr = (if kind = OEMU_EXC_KIND_SYNC \<or> kind = OEMU_EXC_KIND_SERROR
               then sr\<lparr>sr_esr_el := (sr_esr_el sr)[t := ucast esr]\<rparr> else sr);
     let sr = (if far_valid then sr\<lparr>sr_far_el := (sr_far_el sr)[t := far]\<rparr> else sr);
     Some (regs\<lparr>r_pc := vector\<rparr>, sr)
   })"

definition exc_route_of :: "sysstate \<Rightarrow> oemu_el" where
  "exc_route_of st = oemu_exc_route (oemu_pstate_el (sr_pstate (snd st)))"

definition oemu_exc_undefined :: "sysstate \<Rightarrow> u32 \<Rightarrow> sysstate option" where
  "oemu_exc_undefined st insn =
     oemu_exc_take st OEMU_EXC_KIND_SYNC (exc_route_of st) (oemu_exc_internal_esr_undefined insn) 0 False"

definition oemu_exc_eret :: "sysstate \<Rightarrow> sysstate option" where
  "oemu_exc_eret = (\<lambda>(regs, sr).
     let cur = oemu_pstate_el (sr_pstate sr)
     in if cur = OEMU_EL0 then oemu_exc_undefined (regs, sr) 0xD69F03E0
        else let saved = sr_spsr_el sr ! el_val cur
        in if saved AND OEMU_PSTATE_IL \<noteq> 0
           then oemu_exc_take (regs, sr) OEMU_EXC_KIND_SYNC cur oemu_exc_internal_esr_illegal_eret 0 False
        else let mode = saved AND OEMU_PSTATE_M_MASK; target = oemu_pstate_el mode
        in if \<not> oemu_exc_internal_mode_valid mode \<or> target > cur
           then oemu_exc_take (regs, sr) OEMU_EXC_KIND_SYNC cur (oemu_exc_internal_esr_undefined 0xD69F03E0) 0 False
        else let (regs, sr) = oemu_sysregs_switch_sp (regs, sr) (saved AND NOT (ucast OEMU_NZCV_MASK));
                 regs = oemu_regs_set_nzcv regs (ucast (saved AND ucast OEMU_NZCV_MASK))
             in Some (regs\<lparr>r_pc := sr_elr_el sr ! el_val cur\<rparr>, sr))"

section \<open>Fault sources\<close>

definition pc_past_insn :: "sysstate \<Rightarrow> sysstate" where
  "pc_past_insn = (\<lambda>(regs, sr). (regs\<lparr>r_pc := r_pc regs + OEMU_INSN_SIZE\<rparr>, sr))"

definition oemu_exc_svc :: "sysstate \<Rightarrow> u16 \<Rightarrow> sysstate option" where
  "oemu_exc_svc st imm16 =
     oemu_exc_take (pc_past_insn st) OEMU_EXC_KIND_SYNC (exc_route_of st)
       (oemu_exc_internal_esr_imm16 OEMU_EXC_EC_SVC64 (ucast imm16)) 0 False"

definition oemu_exc_brk :: "sysstate \<Rightarrow> u16 \<Rightarrow> sysstate option" where
  "oemu_exc_brk st imm16 =
     oemu_exc_take st OEMU_EXC_KIND_SYNC (exc_route_of st)
       (oemu_exc_internal_esr_imm16 OEMU_EXC_EC_BRK64 (ucast imm16)) 0 False"

definition oemu_exc_smc :: "sysstate \<Rightarrow> u16 \<Rightarrow> sysstate option" where
  "oemu_exc_smc st imm16 = oemu_exc_undefined st (0xD4000003 OR push_bit 5 (ucast imm16))"

definition oemu_exc_hvc :: "sysstate \<Rightarrow> u16 \<Rightarrow> sysstate option" where
  "oemu_exc_hvc st imm16 = oemu_exc_undefined (pc_past_insn st) (0xD4000002 OR push_bit 5 (ucast imm16))"

definition oemu_exc_breakpoint :: "sysstate \<Rightarrow> sysstate option" where
  "oemu_exc_breakpoint st =
     oemu_exc_take st OEMU_EXC_KIND_SYNC (exc_route_of st)
       (oemu_exc_internal_esr OEMU_EXC_EC_BREAKPOINT (push_bit 24 1 OR 0x04)) 0 False"

definition oemu_exc_instruction_abort :: "sysstate \<Rightarrow> u64 \<Rightarrow> sysstate option" where
  "oemu_exc_instruction_abort st far =
     (let from = oemu_pstate_el (sr_pstate (snd st));
          target = oemu_exc_route from;
          ec = (if from < target then OEMU_EXC_EC_IABORT_LOWER else OEMU_EXC_EC_IABORT_SAME)
      in oemu_exc_take st OEMU_EXC_KIND_SYNC target (oemu_exc_internal_esr_instruction_abort ec 0x2C) far True)"

definition oemu_exc_data_abort :: "sysstate \<Rightarrow> u64 \<Rightarrow> nat \<Rightarrow> bool \<Rightarrow> bool \<Rightarrow> u8 \<Rightarrow> sysstate option" where
  "oemu_exc_data_abort st far log2_size is_write isv dfsc =
     (let from = oemu_pstate_el (sr_pstate (snd st));
          target = oemu_exc_route from;
          ec = (if from < target then OEMU_EXC_EC_DABORT_LOWER else OEMU_EXC_EC_DABORT_SAME)
      in oemu_exc_take st OEMU_EXC_KIND_SYNC target
           (oemu_exc_internal_esr_data_abort ec log2_size is_write isv dfsc) far True)"

section \<open>Entry\<close>

lemma pstate_el_mode [simp]: "oemu_pstate_el (entry_pstate el) = el"
  by (cases el) (simp_all add: entry_pstate_def oemu_pstate_el_def)

lemma active_bank_mode: "target \<noteq> OEMU_EL0 \<Longrightarrow> active_bank (entry_pstate target) = target"
  by (cases target) (simp_all add: entry_pstate_def active_bank_def oemu_pstate_el_def oemu_pstate_sp_sel_def)

lemma route_target [simp]: "oemu_exc_route el \<noteq> OEMU_EL0" "oemu_exc_route el \<noteq> OEMU_EL2"
  by (simp_all add: oemu_exc_route_def)

lemma route_ge: "el \<noteq> OEMU_EL2 \<Longrightarrow> el \<le> oemu_exc_route el"
  by (cases el) (simp_all add: oemu_exc_route_def less_eq_oemu_el_def)

lemma sp_of_cong:
  "r_sp regs' = r_sp regs \<Longrightarrow> sr_sp_el sr' = sr_sp_el sr \<Longrightarrow> sr_pstate sr' = sr_pstate sr \<Longrightarrow>
   sp_of (regs', sr') = sp_of (regs, sr)"
  by (simp add: sp_of_def fun_eq_iff)

text \<open>Everything entry leaves behind, field by field.\<close>

lemma exc_take_fields:
  assumes "oemu_exc_take (regs, sr) kind target esr far far_valid = Some (regs', sr')" and "sr_inv sr"
  defines "t \<equiv> el_val target"
  shows "target \<noteq> OEMU_EL0" "target \<noteq> OEMU_EL2" "sr_inv sr'"
    "r_x regs' = r_x regs" "r_nzcv regs' = r_nzcv regs"
    "r_pc regs' = sr_vbar_el sr ! t +
       oemu_exc_vector_offset (oemu_pstate_el (sr_pstate sr) = target) (oemu_pstate_sp_sel (sr_pstate sr) \<noteq> 0) kind"
    "sr_pstate sr' = entry_pstate target"
    "sr_spsr_el sr' ! t = (sr_pstate sr AND NOT (ucast OEMU_NZCV_MASK)) OR ucast (r_nzcv regs)"
    "sr_elr_el sr' ! t = r_pc regs"
    "sr_esr_el sr' = (if kind = OEMU_EXC_KIND_SYNC \<or> kind = OEMU_EXC_KIND_SERROR then (sr_esr_el sr)[t := ucast esr] else sr_esr_el sr)"
    "sr_far_el sr' = (if far_valid then (sr_far_el sr)[t := far] else sr_far_el sr)"
    "sp_of (regs', sr') = sp_of (regs, sr)"
proof -
  obtain regs1 sr1 where sw: "oemu_sysregs_switch_sp (regs, sr) (entry_pstate target) = (regs1, sr1)"
    by fastforce
  have len: "length (sr_sp_el sr) = 4" using assms(2) by (simp add: sr_inv_def)
  note F = switch_sp_fields [OF sw] and B = switch_sp_banks [OF len, of regs "entry_pstate target", unfolded sw]
  have same: "sr_elr_el sr1 = sr_elr_el sr" "sr_spsr_el sr1 = sr_spsr_el sr" "sr_vbar_el sr1 = sr_vbar_el sr"
    "sr_esr_el sr1 = sr_esr_el sr" "sr_far_el sr1 = sr_far_el sr"
    by (subst F(6), simp)+
  have t: "t < 4" by (simp add: t_def)
  from assms(1) have ok: "target \<noteq> OEMU_EL0 \<and> target \<noteq> OEMU_EL2"
    and r: "regs' = regs1\<lparr>r_pc := sr_vbar_el sr ! t +
       oemu_exc_vector_offset (oemu_pstate_el (sr_pstate sr) = target) (oemu_pstate_sp_sel (sr_pstate sr) \<noteq> 0) kind\<rparr>"
    and s: "sr' = (let sr2 = sr1\<lparr>sr_spsr_el := (sr_spsr_el sr)[t := (sr_pstate sr AND NOT (ucast OEMU_NZCV_MASK)) OR ucast (r_nzcv regs)],
           sr_elr_el := (sr_elr_el sr)[t := r_pc regs]\<rparr>;
         sr2 = (if kind = OEMU_EXC_KIND_SYNC \<or> kind = OEMU_EXC_KIND_SERROR then sr2\<lparr>sr_esr_el := (sr_esr_el sr)[t := ucast esr]\<rparr> else sr2)
       in if far_valid then sr2\<lparr>sr_far_el := (sr_far_el sr)[t := far]\<rparr> else sr2)"
    using F(1-4) same by (cases "kind = OEMU_EXC_KIND_SYNC \<or> kind = OEMU_EXC_KIND_SERROR"; cases far_valid;
        simp add: oemu_exc_take_def bind_eq_Some_conv Let_def sw t_def oemu_regs_nzcv_def)+
  show "target \<noteq> OEMU_EL0" "target \<noteq> OEMU_EL2" using ok by simp_all
  show "sr_inv sr'" using assms(2) F(5) same by (simp add: sr_inv_def s Let_def)
  show "r_x regs' = r_x regs" "r_nzcv regs' = r_nzcv regs" using F(1-4) by (simp_all add: r)
  show "r_pc regs' = sr_vbar_el sr ! t +
     oemu_exc_vector_offset (oemu_pstate_el (sr_pstate sr) = target) (oemu_pstate_sp_sel (sr_pstate sr) \<noteq> 0) kind"
    by (simp add: r)
  show "sr_pstate sr' = entry_pstate target" using F(1) by (simp add: s Let_def)
  show "sr_spsr_el sr' ! t = (sr_pstate sr AND NOT (ucast OEMU_NZCV_MASK)) OR ucast (r_nzcv regs)"
    "sr_elr_el sr' ! t = r_pc regs" using assms(2) t by (simp_all add: s sr_inv_def Let_def)
  show "sr_esr_el sr' = (if kind = OEMU_EXC_KIND_SYNC \<or> kind = OEMU_EXC_KIND_SERROR then (sr_esr_el sr)[t := ucast esr] else sr_esr_el sr)"
    "sr_far_el sr' = (if far_valid then (sr_far_el sr)[t := far] else sr_far_el sr)" using same by (simp_all add: s Let_def)
  have "sp_of (regs', sr') = sp_of (regs1, sr1)" by (rule sp_of_cong) (simp_all add: r s Let_def)
  then show "sp_of (regs', sr') = sp_of (regs, sr)" using B(1) by simp
qed

lemma exc_take_defined:
  "target \<noteq> OEMU_EL0 \<Longrightarrow> target \<noteq> OEMU_EL2 \<Longrightarrow> \<exists>regs' sr'. oemu_exc_take st kind target esr far fv = Some (regs', sr')"
  by (auto simp: oemu_exc_take_def Let_def split: prod.splits)

text \<open>
  Property C37. Exception entry: delivery to the level the routing rule gives never trips a check. The
  handler runs at that level with its own stack pointer and all four interrupt masks set, at the
  vector that the level and stack of the interrupted code select; the link register holds the
  interrupted address and the saved status the interrupted PSTATE with the live flags; the general
  registers, the flags and all four stack pointers keep their values; the syndrome is written for
  synchronous exceptions and system errors only, the fault address only when there is one.
\<close>

theorem exception_entry:
  assumes "sr_inv sr" and "from = oemu_pstate_el (sr_pstate sr)" and "target = oemu_exc_route from" and "t = el_val target"
  shows "\<exists>regs' sr'. oemu_exc_take (regs, sr) kind target esr far far_valid = Some (regs', sr') \<and> sr_inv sr' \<and>
    oemu_pstate_el (sr_pstate sr') = target \<and> active_bank (sr_pstate sr') = target \<and> oemu_pstate_daif (sr_pstate sr') = 0xF \<and>
    r_pc regs' = sr_vbar_el sr ! t +
      (if from \<noteq> target then 0x400 else if oemu_pstate_sp_sel (sr_pstate sr) \<noteq> 0 then 0x200 else 0) + 0x80 * of_nat (kind_val kind) \<and>
    sr_elr_el sr' ! t = r_pc regs \<and>
    sr_spsr_el sr' ! t = (sr_pstate sr AND NOT (ucast OEMU_NZCV_MASK)) OR ucast (r_nzcv regs) \<and>
    sr_esr_el sr' ! t = (if kind \<in> {OEMU_EXC_KIND_SYNC, OEMU_EXC_KIND_SERROR} then ucast esr else sr_esr_el sr ! t) \<and>
    sr_far_el sr' ! t = (if far_valid then far else sr_far_el sr ! t) \<and>
    r_x regs' = r_x regs \<and> r_nzcv regs' = r_nzcv regs \<and> sp_of (regs', sr') = sp_of (regs, sr)"
proof -
  have tgt: "target \<noteq> OEMU_EL0" "target \<noteq> OEMU_EL2" using assms(3) by simp_all
  obtain regs' sr' where take: "oemu_exc_take (regs, sr) kind target esr far far_valid = Some (regs', sr')"
    using exc_take_defined [OF tgt] by blast
  note F = exc_take_fields [OF take assms(1), folded assms(4)]
  have t: "t < 4" using assms(4) by simp
  have "oemu_pstate_daif (entry_pstate target) = 0xF"
    by (cases target) (simp_all add: entry_pstate_def oemu_pstate_daif_def)
  moreover have "oemu_exc_vector_offset (from = target) b kind =
      (if from \<noteq> target then 0x400 else if b then 0x200 else 0) + 0x80 * of_nat (kind_val kind)" for b
    by (cases kind) (simp_all add: oemu_exc_vector_offset_def)
  ultimately show ?thesis
    using take F t assms(1,2) active_bank_mode [OF tgt(1)]
    by (intro exI [of _ regs'] exI [of _ sr']) (auto simp: add.assoc sr_inv_def)
qed

section \<open>Return\<close>

lemma eret_fields:
  assumes "cur = oemu_pstate_el (sr_pstate sr)" "cur \<noteq> OEMU_EL0" "saved = sr_spsr_el sr ! el_val cur"
    and "saved AND OEMU_PSTATE_IL = 0" "oemu_exc_internal_mode_valid (saved AND 0x1F)" "oemu_pstate_el (saved AND 0x1F) \<le> cur"
    and "length (sr_sp_el sr) = 4"
  shows "\<exists>regs' sr'. oemu_exc_eret (regs, sr) = Some (regs', sr') \<and>
    r_pc regs' = sr_elr_el sr ! el_val cur \<and> r_x regs' = r_x regs \<and>
    r_nzcv regs' = ucast (saved AND ucast OEMU_NZCV_MASK) AND OEMU_NZCV_MASK \<and>
    sr_pstate sr' = saved AND NOT (ucast OEMU_NZCV_MASK) \<and> sp_of (regs', sr') = sp_of (regs, sr)"
proof -
  let ?p = "saved AND NOT (ucast OEMU_NZCV_MASK) :: u64"
  obtain regs1 sr1 where sw: "oemu_sysregs_switch_sp (regs, sr) ?p = (regs1, sr1)" by fastforce
  note F = switch_sp_fields [OF sw] and B = switch_sp_banks(1) [OF assms(7), of regs ?p, unfolded sw]
  have elr: "sr_elr_el sr1 = sr_elr_el sr" by (subst F(6)) simp
  let ?regs2 = "(oemu_regs_set_nzcv regs1 (ucast (saved AND ucast OEMU_NZCV_MASK)))\<lparr>r_pc := sr_elr_el sr ! el_val cur\<rparr>"
  have e: "oemu_exc_eret (regs, sr) = Some (?regs2, sr1)"
    unfolding oemu_exc_eret_def split Let_def assms(1) [symmetric] assms(3) [symmetric]
    using assms(2,4-6) elr by (simp add: sw not_less [symmetric])
  have "sp_of (?regs2, sr1) = sp_of (regs1, sr1)" by (rule sp_of_cong) (simp_all add: oemu_regs_set_nzcv_def)
  with e F(1-4) B show ?thesis
    by (intro exI [of _ ?regs2] exI [of _ sr1]) (simp add: oemu_regs_set_nzcv_def)
qed

lemma nzcv_mask_bits: "bit OEMU_NZCV_MASK n \<longleftrightarrow> 28 \<le> n \<and> n < 32"
proof (cases "n < 32")
  case True
  then have "n \<in> {0..<32}" by simp
  then show ?thesis by (simp add: OEMU_NZCV_MASK_def atLeastLessThan_nat_numeral bit_simps, elim disjE; simp add: bit_numeral_rec)
qed (auto dest: bit_imp_le_length)

text \<open>The saved status keeps the mode and the illegal-state bit of PSTATE, and the flags beside them.\<close>

lemma saved_pstate:
  fixes p :: u64 and nz :: u32
  assumes "nz AND NOT OEMU_NZCV_MASK = 0"
  defines "saved \<equiv> (p AND NOT (ucast OEMU_NZCV_MASK)) OR ucast nz"
  shows "saved AND 0x1F = p AND 0x1F" "saved AND 0x100000 = p AND 0x100000"
    "saved AND NOT (ucast OEMU_NZCV_MASK) = p AND NOT (ucast OEMU_NZCV_MASK)"
    "ucast (saved AND ucast OEMU_NZCV_MASK) AND OEMU_NZCV_MASK = nz"
proof -
  have nz: "bit nz n \<Longrightarrow> 28 \<le> n \<and> n < 32" for n
    using assms(1) nzcv_mask_bits [of n] bit_imp_le_length [of nz n] by (auto simp: bit_eq_iff bit_simps)
  have m: "(0x1F :: u64) = mask 5" by (simp add: mask_eq_exp_minus_1)
  have "(0x100000 :: u64) = push_bit 20 1" by simp
  then have il: "bit (0x100000 :: u64) n \<longleftrightarrow> n = 20" for n by (simp only: bit_push_bit_iff bit_1_iff possible_bit_word) auto
  show "saved AND 0x1F = p AND 0x1F"
    unfolding m saved_def by (rule bit_word_eqI) (auto simp: bit_simps nzcv_mask_bits dest: nz)
  show "saved AND 0x100000 = p AND 0x100000"
  proof (rule bit_word_eqI)
    fix n assume "n < LENGTH(64)"
    show "bit (saved AND 0x100000) n = bit (p AND 0x100000) n"
    proof (cases "n = 20")
      case True
      then show ?thesis using nz [of 20] by (auto simp: saved_def bit_simps nzcv_mask_bits)
    next
      case False
      then have "\<not> bit (0x100000 :: u64) n" using il by blast
      then show ?thesis by (simp only: bit_and_iff simp_thms)
    qed
  qed
  show "saved AND NOT (ucast OEMU_NZCV_MASK) = p AND NOT (ucast OEMU_NZCV_MASK)"
    unfolding saved_def by (rule bit_word_eqI) (auto simp: bit_simps nzcv_mask_bits dest: nz)
  show "ucast (saved AND ucast OEMU_NZCV_MASK) AND OEMU_NZCV_MASK = nz"
    unfolding saved_def by (rule bit_word_eqI) (auto simp: bit_simps nzcv_mask_bits dest: nz)
qed

lemma and_not_disjoint:
  assumes "p AND m = (0 :: u64)"
  shows "p AND NOT m = p"
proof (rule bit_word_eqI)
  fix n assume "n < LENGTH(64)"
  then show "bit (p AND NOT m) n = bit p n"
    using arg_cong [OF assms, of "\<lambda>x. bit x n"] by (auto simp: bit_simps)
qed

lemma pstate_el_mask: "oemu_pstate_el (p AND 0x1F) = oemu_pstate_el p"
proof -
  have "drop_bit 2 (p AND 0x1F) AND 3 = drop_bit 2 p AND (3 :: u64)"
  proof -
    have m: "(0x1F :: u64) = mask 5" "(3 :: u64) = mask 2" by (simp_all add: mask_eq_exp_minus_1)
    show ?thesis unfolding m by (rule bit_word_eqI) (auto simp: bit_simps)
  qed
  then show ?thesis by (simp add: oemu_pstate_el_def)
qed

text \<open>
  Property C36. Exceptions return: whatever the handler did, if it executes ERET at the level it was
  entered at, with the link register and the saved status it was given, then the interrupted code
  goes on at the interrupted address, with its PSTATE and condition flags, on its own stack pointer;
  the general registers are the handler's, and no stack pointer changes value. For a supervisor call
  the code goes on at the next instruction.
\<close>

theorem exception_return:
  assumes "sr_inv sr" and "regs_inv regs"
    and "oemu_exc_internal_mode_valid (sr_pstate sr AND 0x1F)" and "oemu_pstate_el (sr_pstate sr) \<noteq> OEMU_EL2"
    and "sr_pstate sr AND OEMU_PSTATE_IL = 0" and "sr_pstate sr AND ucast OEMU_NZCV_MASK = 0"
    and "target = oemu_exc_route (oemu_pstate_el (sr_pstate sr))"
    and "oemu_exc_take (regs, sr) kind target esr far far_valid = Some (regs1, sr1) \<and> resume = r_pc regs \<or>
         oemu_exc_svc (regs, sr) imm = Some (regs1, sr1) \<and> resume = r_pc regs + 4"
    and "oemu_pstate_el (sr_pstate sr2) = target" and "length (sr_sp_el sr2) = 4"
    and "sr_spsr_el sr2 ! el_val target = sr_spsr_el sr1 ! el_val target" and "sr_elr_el sr2 ! el_val target = sr_elr_el sr1 ! el_val target"
  shows "\<exists>regs3 sr3. oemu_exc_eret (regs2, sr2) = Some (regs3, sr3) \<and> r_pc regs3 = resume \<and>
    sr_pstate sr3 = sr_pstate sr \<and> r_nzcv regs3 = r_nzcv regs \<and> r_x regs3 = r_x regs2 \<and>
    sp_of (regs3, sr3) = sp_of (regs2, sr2)"
proof -
  obtain regs0 kind' esr' far' fv' where take: "oemu_exc_take (regs0, sr) kind' target esr' far' fv' = Some (regs1, sr1)"
    and r0: "r_pc regs0 = resume" "r_nzcv regs0 = r_nzcv regs"
    using assms(7,8) by (auto simp: oemu_exc_svc_def pc_past_insn_def exc_route_of_def)
  note F = exc_take_fields [OF take assms(1)]
  have nz: "r_nzcv regs AND NOT OEMU_NZCV_MASK = 0" using assms(2) by (simp add: regs_inv_def)
  define saved where "saved = (sr_pstate sr AND NOT (ucast OEMU_NZCV_MASK)) OR ucast (r_nzcv regs)"
  note S = saved_pstate [OF nz, of "sr_pstate sr", folded saved_def]
  have saved: "saved = sr_spsr_el sr2 ! el_val target" using F(8) assms(11) r0 by (simp add: saved_def)
  have el: "oemu_pstate_el (saved AND 0x1F) \<le> target"
    using S(1) pstate_el_mask route_ge [OF assms(4)] assms(7) by simp
  have p: "sr_pstate sr AND NOT (ucast OEMU_NZCV_MASK) = sr_pstate sr"
    by (rule and_not_disjoint [OF assms(6)])
  obtain regs3 sr3 where e: "oemu_exc_eret (regs2, sr2) = Some (regs3, sr3)"
    "r_pc regs3 = sr_elr_el sr2 ! el_val target" "r_x regs3 = r_x regs2"
    "r_nzcv regs3 = ucast (saved AND ucast OEMU_NZCV_MASK) AND OEMU_NZCV_MASK"
    "sr_pstate sr3 = saved AND NOT (ucast OEMU_NZCV_MASK)" "sp_of (regs3, sr3) = sp_of (regs2, sr2)"
    using eret_fields [OF assms(9) [symmetric] _ saved _ _ el assms(10), of regs2] assms(3,5,7) S(1,2) by auto
  with S(3,4) p F(9) assms(12) r0 show ?thesis by auto
qed

text \<open>
  Property C38. ERET never raises privilege: from a handler's level it ends at that level or below, or,
  when the saved status is illegal, asks for a higher level or for AArch32, at the same level in its
  own vector with the architecture's syndrome; at EL0 it is an undefined instruction taken to EL1.
\<close>

theorem eret_privilege:
  assumes "sr_inv sr" and "cur = oemu_pstate_el (sr_pstate sr)" and "cur \<noteq> OEMU_EL2" and "saved = sr_spsr_el sr ! el_val cur"
    and "bad = (saved AND OEMU_PSTATE_IL \<noteq> 0 \<or> \<not> oemu_exc_internal_mode_valid (saved AND 0x1F) \<or> oemu_pstate_el (saved AND 0x1F) > cur)"
  shows "\<exists>regs' sr'. oemu_exc_eret (regs, sr) = Some (regs', sr') \<and>
    (if cur = OEMU_EL0 then oemu_pstate_el (sr_pstate sr') = OEMU_EL1 \<and> r_pc regs' = sr_vbar_el sr ! 1 + 0x400
     else oemu_pstate_el (sr_pstate sr') \<le> cur \<and>
       (bad \<longrightarrow> oemu_pstate_el (sr_pstate sr') = cur \<and> sr_elr_el sr' ! el_val cur = r_pc regs \<and>
          sr_esr_el sr' ! el_val cur = (if saved AND OEMU_PSTATE_IL \<noteq> 0 then 0x6A000000 else 0x029F03E0)))"
proof -
  have len: "length (sr_sp_el sr) = 4" "length (sr_esr_el sr) = 4" using assms(1) by (simp_all add: sr_inv_def)
  consider (el0) "cur = OEMU_EL0" | (bad) "cur \<noteq> OEMU_EL0" bad | (good) "cur \<noteq> OEMU_EL0" "\<not> bad" by blast
  then show ?thesis
  proof cases
    case el0
    let ?take = "oemu_exc_take (regs, sr) OEMU_EXC_KIND_SYNC OEMU_EL1 (oemu_exc_internal_esr_undefined 0xD69F03E0) 0 False"
    obtain regs' sr' where take: "?take = Some (regs', sr')" using exc_take_defined by blast
    have "oemu_exc_eret (regs, sr) = ?take"
      using el0 assms(2) by (simp add: oemu_exc_eret_def oemu_exc_undefined_def exc_route_of_def oemu_exc_route_def)
    with take exc_take_fields(6,7) [OF take assms(1)] el0 assms(2) show ?thesis
      by (simp add: oemu_exc_vector_offset_def)
  next
    case bad
    let ?esr = "if saved AND OEMU_PSTATE_IL \<noteq> 0 then oemu_exc_internal_esr_illegal_eret else oemu_exc_internal_esr_undefined 0xD69F03E0"
    let ?take = "oemu_exc_take (regs, sr) OEMU_EXC_KIND_SYNC cur ?esr 0 False"
    obtain regs' sr' where take: "?take = Some (regs', sr')" using exc_take_defined bad(1) assms(3) by blast
    have "oemu_exc_eret (regs, sr) = ?take"
      unfolding oemu_exc_eret_def split Let_def assms(2) [symmetric] assms(4) [symmetric] using bad assms(5) by auto
    with take exc_take_fields(7,9,10) [OF take assms(1)] bad(1) len show ?thesis
      by (simp add: oemu_exc_internal_esr_illegal_eret_def oemu_exc_internal_esr_undefined_def oemu_exc_internal_esr_def)
  next
    case good
    then have ok: "saved AND OEMU_PSTATE_IL = 0" "oemu_exc_internal_mode_valid (saved AND 0x1F)" "oemu_pstate_el (saved AND 0x1F) \<le> cur"
      using assms(5) by auto
    have "oemu_pstate_el (saved AND NOT (ucast OEMU_NZCV_MASK)) = oemu_pstate_el (saved AND 0x1F)"
      using saved_pstate(1) [of 0 saved] pstate_el_mask [of "saved AND NOT (ucast OEMU_NZCV_MASK)"] by simp
    with eret_fields [OF assms(2) good(1) assms(4) ok len(1), of regs] good ok(3) show ?thesis by auto
  qed
qed

section \<open>Sample states\<close>

text \<open>A core at EL0 with interrupts open, and the same core in its EL1 handler.\<close>

definition el0_sysregs :: oemu_sysregs where
  "el0_sysregs = zero_sysregs\<lparr>sr_vbar_el := [0, 0x80000, 0, 0]\<rparr>"

lemma el0_sysregs_inv: "sr_inv el0_sysregs" "sr_pstate el0_sysregs = 0"
  by (simp_all add: sr_inv_def el0_sysregs_def zero_sysregs_def)

lemma el0_route: "oemu_pstate_el (sr_pstate el0_sysregs) = OEMU_EL0" "oemu_exc_route OEMU_EL0 = OEMU_EL1"
  by (simp_all add: el0_sysregs_inv oemu_pstate_el_def oemu_exc_route_def)

theorem exception_entry_witness:
  "sr_inv el0_sysregs \<and>
   (\<exists>regs' sr'. oemu_exc_take (oemu_regs_init 0x1000 0x2000, el0_sysregs) OEMU_EXC_KIND_IRQ OEMU_EL1 0 0 False = Some (regs', sr') \<and>
      r_pc regs' = 0x80480 \<and> sr_elr_el sr' ! 1 = 0x1000)"
proof -
  have "sr_vbar_el el0_sysregs ! 1 = 0x80000" by (simp add: el0_sysregs_def)
  then show ?thesis
    using exception_entry [OF el0_sysregs_inv(1) el0_route(1) [symmetric] el0_route(2) [symmetric] refl,
        of "oemu_regs_init 0x1000 0x2000" OEMU_EXC_KIND_IRQ 0 0 False] el0_sysregs_inv(1)
    by (auto simp: oemu_regs_init_def)
qed

theorem exception_return_witness:
  "\<exists>regs1 sr1 regs3 sr3. oemu_exc_svc (oemu_regs_init 0x1000 0x2000, el0_sysregs) 7 = Some (regs1, sr1) \<and>
     oemu_exc_eret (regs1, sr1) = Some (regs3, sr3) \<and> r_pc regs3 = 0x1004 \<and> sr_pstate sr3 = 0"
proof -
  let ?regs = "oemu_regs_init 0x1000 0x2000"
  obtain regs1 sr1 where svc: "oemu_exc_svc (?regs, el0_sysregs) 7 = Some (regs1, sr1)"
    using exc_take_defined by (metis oemu_exc_svc_def exc_route_of_def route_target)
  then have take: "oemu_exc_take (pc_past_insn (?regs, el0_sysregs)) OEMU_EXC_KIND_SYNC OEMU_EL1
      (oemu_exc_internal_esr_imm16 OEMU_EXC_EC_SVC64 (ucast (7 :: u16))) 0 False = Some (regs1, sr1)"
    by (simp add: oemu_exc_svc_def exc_route_of_def el0_route)
  have F: "length (sr_sp_el sr1) = 4" "oemu_pstate_el (sr_pstate sr1) = OEMU_EL1"
    using exc_take_fields(3,7) [OF take [unfolded pc_past_insn_def split] el0_sysregs_inv(1)] by (simp_all add: sr_inv_def)
  have p: "oemu_exc_internal_mode_valid (sr_pstate el0_sysregs AND 0x1F)" "oemu_pstate_el (sr_pstate el0_sysregs) \<noteq> OEMU_EL2"
    "sr_pstate el0_sysregs AND OEMU_PSTATE_IL = 0" "sr_pstate el0_sysregs AND ucast OEMU_NZCV_MASK = 0"
    "OEMU_EL1 = oemu_exc_route (oemu_pstate_el (sr_pstate el0_sysregs))"
    using el0_route by (simp_all add: el0_sysregs_inv oemu_exc_internal_mode_valid_def)
  have pc: "r_pc ?regs + 4 = 0x1004" by (simp add: oemu_regs_init_def)
  note R = exception_return [OF el0_sysregs_inv(1) regs_inv_init p disjI2 [OF conjI [OF svc pc [symmetric]]] F(2,1) refl refl, of regs1]
  have "\<exists>regs3 sr3. oemu_exc_eret (regs1, sr1) = Some (regs3, sr3) \<and> r_pc regs3 = 0x1004 \<and> sr_pstate sr3 = 0"
    using R unfolding el0_sysregs_inv(2) by blast
  with svc show ?thesis by blast
qed

theorem eret_privilege_witness:
  "\<exists>regs' sr'. oemu_exc_eret (oemu_regs_init 0x1000 0, el1_sysregs\<lparr>sr_spsr_el := [0, 0x100000, 0, 0]\<rparr>) = Some (regs', sr') \<and>
     sr_esr_el sr' ! 1 = 0x6A000000"
proof -
  let ?sr = "el1_sysregs\<lparr>sr_spsr_el := [0, 0x100000, 0, 0]\<rparr>"
  have "sr_inv ?sr" using el1_sysregs_inv by (simp add: sr_inv_def)
  moreover have "oemu_pstate_el (sr_pstate ?sr) = OEMU_EL1" by (simp add: el1_sysregs_def oemu_pstate_el_def)
  moreover have "sr_spsr_el ?sr ! el_val OEMU_EL1 = 0x100000" by simp
  ultimately show ?thesis
    using eret_privilege [where sr = ?sr and cur = OEMU_EL1 and saved = "0x100000" and regs = "oemu_regs_init 0x1000 0", OF _ _ _ _ refl]
    by auto
qed

end
