(* ===== verification/Oemu_Mmu.thy ===== *)
theory Oemu_Mmu
  imports Oemu_Exc Oemu_Bus
begin

text \<open>
  Stage-1 translation (\<^verbatim>\<open>include/oemu/mmu.h\<close>, \<^verbatim>\<open>src/mmu/mmu.c\<close>): the pure decision functions, the table walk
  over any physical bus, the direct-mapped cache with its control epoch, and the translated bus. The
  layer's pointer to the system registers and its copy of the bus view are arguments; its own state is
  the fault slot, the cache, the epoch and the counters. The cache array is a function of the set
  index.
\<close>

section \<open>Control and descriptor bits\<close>

definition TCR_T0SZ :: "u64 \<Rightarrow> nat" where "TCR_T0SZ t = unat (t AND 0x3F)"
definition TCR_T1SZ :: "u64 \<Rightarrow> nat" where "TCR_T1SZ t = unat (drop_bit 16 t AND 0x3F)"
definition TCR_PS :: "u64 \<Rightarrow> nat" where "TCR_PS t = unat (drop_bit 27 t AND 0x3F)"

abbreviation (input) TCR_EPD0 :: nat where "TCR_EPD0 \<equiv> 7"
abbreviation (input) TCR_EPD1 :: nat where "TCR_EPD1 \<equiv> 23"
abbreviation (input) TCR_TBI0 :: nat where "TCR_TBI0 \<equiv> 24"
abbreviation (input) TCR_TBI1 :: nat where "TCR_TBI1 \<equiv> 63"
abbreviation (input) SCTLR_M :: nat where "SCTLR_M \<equiv> 0"
abbreviation (input) SCTLR_A :: nat where "SCTLR_A \<equiv> 1"
abbreviation (input) SCTLR_SA0 :: nat where "SCTLR_SA0 \<equiv> 4"
abbreviation (input) DESC_ADDR_MASK :: u64 where "DESC_ADDR_MASK \<equiv> 0x0000FFFFFFFFF000"
abbreviation (input) MMU_PAGE_SIZE :: u64 where "MMU_PAGE_SIZE \<equiv> 0x1000"
abbreviation (input) OEMU_MMU_TLB_ENTRIES :: u64 where "OEMU_MMU_TLB_ENTRIES \<equiv> 4096"

text \<open>The control and descriptor bits are single bits; \<open>has\<close> is the code's test of one of them.\<close>

definition has :: "u64 \<Rightarrow> nat \<Rightarrow> bool" where
  "has w n \<longleftrightarrow> w AND push_bit n 1 \<noteq> 0"

definition g_pamax_map :: "nat list" where
  "g_pamax_map = [32, 36, 40, 42, 44, 48, 52, 52]"

definition level_shift :: "nat \<Rightarrow> nat" where
  "level_shift level = 12 + (3 - level) * 9"

abbreviation (input) TATTR_PXN :: u32 where "TATTR_PXN \<equiv> 0x01"
abbreviation (input) TATTR_XN :: u32 where "TATTR_XN \<equiv> 0x02"
abbreviation (input) TATTR_APT0 :: u32 where "TATTR_APT0 \<equiv> 0x04"
abbreviation (input) TATTR_APT1 :: u32 where "TATTR_APT1 \<equiv> 0x08"

section \<open>Decision functions\<close>

datatype oemu_mmu_fault_class =
    OEMU_MMU_FAULT_TRANSLATION | OEMU_MMU_FAULT_TRANSLATION_NO_WALK | OEMU_MMU_FAULT_ACCESS_FLAG
  | OEMU_MMU_FAULT_PERMISSION | OEMU_MMU_FAULT_ADDRESS_SIZE | OEMU_MMU_FAULT_ALIGNMENT

definition oemu_mmu_internal_dfsc :: "oemu_mmu_fault_class \<Rightarrow> int \<Rightarrow> u8 option" where
  "oemu_mmu_internal_dfsc cls level =
     (case cls of
        OEMU_MMU_FAULT_TRANSLATION \<Rightarrow> do { OEMU_REQUIRE (level \<ge> 0 \<and> level \<le> 3); Some (0x04 + of_int level) }
      | OEMU_MMU_FAULT_TRANSLATION_NO_WALK \<Rightarrow> Some 0x2C
      | OEMU_MMU_FAULT_ACCESS_FLAG \<Rightarrow> do { OEMU_REQUIRE (level \<ge> 1 \<and> level \<le> 3); Some (0x08 + of_int level) }
      | OEMU_MMU_FAULT_PERMISSION \<Rightarrow> do { OEMU_REQUIRE (level \<ge> 1 \<and> level \<le> 3); Some (0x0C + of_int level) }
      | OEMU_MMU_FAULT_ADDRESS_SIZE \<Rightarrow>
          if level < 0 then Some (if level = -1 then 0x29 else 0x2C) else Some (0x00 + of_int level)
      | OEMU_MMU_FAULT_ALIGNMENT \<Rightarrow> Some 0x21)"

definition oemu_mmu_internal_start_level :: "nat \<Rightarrow> int" where
  "oemu_mmu_internal_start_level inputsize =
     (if inputsize < 25 \<or> inputsize > 48 then -1 else int (4 - (inputsize - 4) div 9))"

definition oemu_mmu_internal_use_ttbr1 :: "u64 \<Rightarrow> bool" where
  "oemu_mmu_internal_use_ttbr1 va \<longleftrightarrow> drop_bit 55 va AND 1 \<noteq> 0"

definition oemu_mmu_internal_region_ok :: "u64 \<Rightarrow> nat \<Rightarrow> nat \<Rightarrow> bool \<Rightarrow> bool" where
  "oemu_mmu_internal_region_ok va inputsize addrsize ttbr1 =
     (if inputsize \<ge> addrsize then True
      else let width = addrsize - inputsize;
               m = (if width \<ge> 64 then 0xFFFFFFFFFFFFFFFF else push_bit width 1 - 1);
               top = drop_bit inputsize va AND m
           in if ttbr1 then top = m else top = 0)"

definition oemu_mmu_internal_alignment_required :: "oemu_sysregs \<Rightarrow> bool \<Rightarrow> bool" where
  "oemu_mmu_internal_alignment_required sr el0 = has (sr_sctlr_el1 sr) (if el0 then SCTLR_SA0 else SCTLR_A)"

record oemu_mmu_desc =
  md_valid :: bool
  md_table :: bool
  md_block_page :: bool
  md_address :: u64
  md_ng :: bool
  md_af :: bool
  md_ap :: u32
  md_xn :: bool
  md_pxn :: bool
  md_table_pxn :: bool
  md_table_xn :: bool
  md_table_apt0 :: bool
  md_table_apt1 :: bool

definition oemu_mmu_internal_decode :: "u64 \<Rightarrow> oemu_mmu_desc" where
  "oemu_mmu_internal_decode descriptor =
     \<lparr>md_valid = has descriptor 0,
      md_table = (descriptor AND 3 = 3),
      md_block_page = (descriptor AND 3 = 1),
      md_address = descriptor AND DESC_ADDR_MASK,
      md_ng = has descriptor 11,
      md_af = has descriptor 10,
      md_ap = (if has descriptor 7 then 2 else 0) + (if has descriptor 6 then 1 else 0),
      md_xn = has descriptor 54,
      md_pxn = has descriptor 53,
      md_table_pxn = has descriptor 59,
      md_table_xn = has descriptor 60,
      md_table_apt0 = has descriptor 61,
      md_table_apt1 = has descriptor 62\<rparr>"

definition oemu_mmu_internal_table_attrs :: "u64 \<Rightarrow> u32" where
  "oemu_mmu_internal_table_attrs descriptor = ucast (drop_bit 59 descriptor AND 0x1F)"

definition oemu_mmu_internal_permits :: "u32 \<Rightarrow> bool \<Rightarrow> bool \<Rightarrow> bool \<Rightarrow> bool \<Rightarrow> bool \<Rightarrow> bool" where
  "oemu_mmu_internal_permits ap xn pxn el0 is_write is_fetch =
     (let user = (ap AND 1 \<noteq> 0);
          ro = (ap AND 2 \<noteq> 0);
          read_ok = (if el0 then user else True);
          write_ok = (if el0 then user \<and> \<not> ro else \<not> ro)
      in if is_fetch then (if el0 then read_ok \<and> \<not> xn else \<not> pxn)
         else if is_write then write_ok else read_ok)"

definition oemu_mmu_internal_esr :: "bool \<Rightarrow> bool \<Rightarrow> bool \<Rightarrow> u8 \<Rightarrow> u32" where
  "oemu_mmu_internal_esr to_lower_el is_fetch is_write dfsc =
     (let ec = (if is_fetch
                then (if to_lower_el then OEMU_EXC_EC_IABORT_LOWER else OEMU_EXC_EC_IABORT_SAME)
                else (if to_lower_el then OEMU_EXC_EC_DABORT_LOWER else OEMU_EXC_EC_DABORT_SAME))
      in push_bit 26 (ec_val ec) OR push_bit 25 1 OR ucast dfsc OR
         (if \<not> is_fetch \<and> is_write then push_bit 6 1 else 0))"

definition oemu_mmu_internal_index :: "u64 \<Rightarrow> nat \<Rightarrow> u64" where
  "oemu_mmu_internal_index va level = push_bit 3 (drop_bit (level_shift level) va AND 0x1FF)"

section \<open>The walk\<close>

record walk_fault =
  wf_cls :: oemu_mmu_fault_class
  wf_level :: int
  wf_far :: u64

record walk_info =
  wi_walked :: bool
  wi_level :: nat
  wi_ap :: u32
  wi_xn :: bool
  wi_pxn :: bool
  wi_ng :: bool

definition not_walked :: walk_info where
  "not_walked = \<lparr>wi_walked = False, wi_level = 0, wi_ap = 0, wi_xn = False, wi_pxn = False, wi_ng = False\<rparr>"

type_synonym walk_result = "walk_fault + u64 \<times> walk_info"

definition mmu_fault :: "oemu_mmu_fault_class \<Rightarrow> int \<Rightarrow> u64 \<Rightarrow> walk_result" where
  "mmu_fault c lvl va = Inl \<lparr>wf_cls = c, wf_level = lvl, wf_far = va\<rparr>"

text \<open>The access kind: the executing level, store, fetch.\<close>

type_synonym access = "oemu_el \<times> bool \<times> bool"

text \<open>A leaf: the output address, the constraints of the tables above, the access flag, the permission.\<close>

definition walk_leaf :: "nat \<Rightarrow> u64 \<Rightarrow> access \<Rightarrow> nat \<Rightarrow> u32 \<Rightarrow> oemu_mmu_desc \<Rightarrow> walk_result" where
  "walk_leaf out_bits va = (\<lambda>(cur, is_write, is_fetch) level tattrs d.
     let page_size = push_bit (level_shift level) 1 :: u64;
         addr = (md_address d AND NOT (page_size - 1)) OR (va AND (page_size - 1))
     in if drop_bit out_bits addr \<noteq> 0 then mmu_fault OEMU_MMU_FAULT_ADDRESS_SIZE (int level) va
     else let pxn = (md_pxn d \<or> tattrs AND TATTR_PXN \<noteq> 0);
              xn = (md_xn d \<or> tattrs AND TATTR_XN \<noteq> 0);
              ap = (if tattrs AND TATTR_APT0 \<noteq> 0 then md_ap d AND NOT 1 else md_ap d);
              ap = (if tattrs AND TATTR_APT1 \<noteq> 0 then ap OR 2 else ap)
     in if \<not> md_af d then mmu_fault OEMU_MMU_FAULT_ACCESS_FLAG (int level) va
     else if \<not> oemu_mmu_internal_permits ap xn pxn (cur = OEMU_EL0) is_write is_fetch
     then mmu_fault OEMU_MMU_FAULT_PERMISSION (int level) va
     else Inr (addr, \<lparr>wi_walked = True, wi_level = level, wi_ap = ap, wi_xn = xn, wi_pxn = pxn, wi_ng = md_ng d\<rparr>))"

text \<open>The loop over the levels: a table entry moves one level down, and there is none below level 3.\<close>

function walk_loop ::
  "'p oemu_memops \<Rightarrow> nat \<Rightarrow> u64 \<Rightarrow> access \<Rightarrow> u64 \<Rightarrow> nat \<Rightarrow> u32 \<Rightarrow> 'p \<Rightarrow> walk_result \<times> 'p" where
  "walk_loop phys out_bits va acc base level tattrs p =
     (case mo_read phys p (base OR oemu_mmu_internal_index va level) OEMU_MEM_DWORD False of
        (Inl st, p') \<Rightarrow> (mmu_fault OEMU_MMU_FAULT_TRANSLATION_NO_WALK (-1) va, p')
      | (Inr raw, p') \<Rightarrow>
          let d = oemu_mmu_internal_decode raw
          in if \<not> md_valid d then (mmu_fault OEMU_MMU_FAULT_TRANSLATION (int level) va, p')
          else if md_table d \<and> level < 3
          then (if drop_bit out_bits (md_address d) \<noteq> 0 then (mmu_fault OEMU_MMU_FAULT_ADDRESS_SIZE (int level) va, p')
                else walk_loop phys out_bits va acc (md_address d AND NOT (MMU_PAGE_SIZE - 1)) (level + 1)
                       (tattrs OR oemu_mmu_internal_table_attrs raw) p')
          else if \<not> (md_table d \<or> md_block_page d) then (mmu_fault OEMU_MMU_FAULT_TRANSLATION (int level) va, p')
          else if level = 0 then (mmu_fault OEMU_MMU_FAULT_TRANSLATION 0 va, p')
          else (walk_leaf out_bits va acc level tattrs d, p'))"
  by pat_completeness auto

termination
  by (relation "measure (\<lambda>(phys, out_bits, va, acc, base, level, tattrs, p). 3 - level)") auto

declare walk_loop.simps [simp del]

definition tbi_of :: "u64 \<Rightarrow> u64 \<Rightarrow> bool" where
  "tbi_of tcr va = has tcr (if oemu_mmu_internal_use_ttbr1 va then TCR_TBI1 else TCR_TBI0)"

definition strip_tag :: "u64 \<Rightarrow> u64 \<Rightarrow> u64" where
  "strip_tag tcr va = (if tbi_of tcr va then va AND NOT (push_bit 56 0xFF) else va)"

definition walk_inputsize :: "u64 \<Rightarrow> bool \<Rightarrow> nat" where
  "walk_inputsize tcr ttbr1 = 64 - (if ttbr1 then TCR_T1SZ tcr else TCR_T0SZ tcr)"

definition walk_out_bits :: "u64 \<Rightarrow> nat" where
  "walk_out_bits tcr = g_pamax_map ! (if TCR_PS tcr > 1 then 1 else TCR_PS tcr)"

definition walk_base :: "oemu_sysregs \<Rightarrow> bool \<Rightarrow> u64" where
  "walk_base sr ttbr1 = (if ttbr1 then sr_ttbr1_el1 sr else sr_ttbr0_el1 sr) AND (push_bit 48 1 - 2)"

text \<open>The table-driven part: \<open>va\<close> is the address without its tag, \<open>ttbr1\<close> the half it selects.\<close>

definition walk_tables ::
  "oemu_sysregs \<Rightarrow> 'p oemu_memops \<Rightarrow> bool \<Rightarrow> bool \<Rightarrow> u64 \<Rightarrow> access \<Rightarrow> 'p \<Rightarrow> walk_result \<times> 'p" where
  "walk_tables sr phys ttbr1 tbi va acc p =
     (let tcr = sr_tcr_el1 sr;
          inputsize = walk_inputsize tcr ttbr1;
          out_bits = walk_out_bits tcr;
          level = oemu_mmu_internal_start_level inputsize;
          base = walk_base sr ttbr1
      in if level < 0 then (mmu_fault OEMU_MMU_FAULT_TRANSLATION 0 va, p)
         else if \<not> oemu_mmu_internal_region_ok va inputsize (if tbi then 56 else 64) ttbr1
         then (mmu_fault OEMU_MMU_FAULT_TRANSLATION level va, p)
         else if has tcr (if ttbr1 then TCR_EPD1 else TCR_EPD0) then (mmu_fault OEMU_MMU_FAULT_TRANSLATION level va, p)
         else if drop_bit out_bits base \<noteq> 0 then (mmu_fault OEMU_MMU_FAULT_ADDRESS_SIZE (-1) va, p)
         else walk_loop phys out_bits va acc (base AND NOT (MMU_PAGE_SIZE - 1)) (nat level) 0 p)"

definition walk :: "oemu_sysregs \<Rightarrow> 'p oemu_memops \<Rightarrow> u64 \<Rightarrow> access \<Rightarrow> 'p \<Rightarrow> walk_result \<times> 'p" where
  "walk sr phys va acc p =
     (if fst acc \<ge> OEMU_EL3 then (Inr (va, not_walked), p)
      else if \<not> has (sr_sctlr_el1 sr) SCTLR_M then (Inr (va, not_walked), p)
      else walk_tables sr phys (oemu_mmu_internal_use_ttbr1 va) (tbi_of (sr_tcr_el1 sr) va)
             (strip_tag (sr_tcr_el1 sr) va) acc p)"

section \<open>The translation layer\<close>

record oemu_mmu_fault =
  mf_esr :: u32
  mf_far :: u64

record oemu_tlb_entry =
  te_va :: u64
  te_pa :: u64
  te_asid :: u32
  te_level :: u8
  te_flags :: u8
  te_vmid :: u8

definition free_entry :: oemu_tlb_entry where
  "free_entry = \<lparr>te_va = 0, te_pa = 0, te_asid = 0, te_level = 0, te_flags = 0, te_vmid = 0\<rparr>"

record oemu_mmu =
  mm_fault :: oemu_mmu_fault
  mm_fault_valid :: bool
  mm_tlb :: "nat \<Rightarrow> oemu_tlb_entry"
  mm_epoch :: "u64 list"
  mm_epoch_valid :: bool
  mm_tlb_hits :: u64
  mm_tlb_misses :: u64
  mm_tlb_flushes :: u64

definition oemu_mmu_init :: oemu_mmu where
  "oemu_mmu_init = \<lparr>mm_fault = \<lparr>mf_esr = 0, mf_far = 0\<rparr>, mm_fault_valid = False, mm_tlb = (\<lambda>_. free_entry),
     mm_epoch = replicate 5 0, mm_epoch_valid = False, mm_tlb_hits = 0, mm_tlb_misses = 0, mm_tlb_flushes = 0\<rparr>"

definition to_lower_from :: "oemu_el \<Rightarrow> bool" where
  "to_lower_from cur \<longleftrightarrow> cur < oemu_exc_route cur"

text \<open>The fault code is checked for a sensible level; the lemma \<open>walk_fault_level\<close> below shows that every
  fault a walk reports passes that check.\<close>

definition compose_esr :: "oemu_el \<Rightarrow> bool \<Rightarrow> bool \<Rightarrow> oemu_mmu_fault_class \<Rightarrow> int \<Rightarrow> u32" where
  "compose_esr cur is_fetch is_write cls level =
     oemu_mmu_internal_esr (to_lower_from cur) is_fetch is_write (the (oemu_mmu_internal_dfsc cls level))"

definition tlb_epoch_read :: "oemu_sysregs \<Rightarrow> u64 list" where
  "tlb_epoch_read sr = [sr_sctlr_el1 sr, sr_tcr_el1 sr, sr_ttbr0_el1 sr, sr_ttbr1_el1 sr, sr_mair_el1 sr]"

definition tlb_index :: "u64 \<Rightarrow> nat" where
  "tlb_index va = unat (drop_bit 12 va AND (OEMU_MMU_TLB_ENTRIES - 1))"

abbreviation (input) OEMU_TLB_NG :: u8 where "OEMU_TLB_NG \<equiv> 0x01"
abbreviation (input) OEMU_TLB_AP :: u8 where "OEMU_TLB_AP \<equiv> 0x06"
abbreviation (input) OEMU_TLB_XN :: u8 where "OEMU_TLB_XN \<equiv> 0x08"
abbreviation (input) OEMU_TLB_PXN :: u8 where "OEMU_TLB_PXN \<equiv> 0x10"

definition tlb_flags :: "walk_info \<Rightarrow> u8" where
  "tlb_flags wi =
     (if wi_ng wi then OEMU_TLB_NG else 0) OR (ucast (push_bit 1 (wi_ap wi)) AND OEMU_TLB_AP) OR
     (if wi_xn wi then OEMU_TLB_XN else 0) OR (if wi_pxn wi then OEMU_TLB_PXN else 0)"

definition oemu_mmu_flush_all :: "oemu_mmu \<Rightarrow> oemu_mmu" where
  "oemu_mmu_flush_all mmu = mmu\<lparr>mm_tlb := (\<lambda>_. free_entry), mm_tlb_flushes := mm_tlb_flushes mmu + 1\<rparr>"

datatype tlb_served = TLB_SERVED u64 | TLB_DENIED oemu_mmu_fault | TLB_MISS

definition tlb_lookup :: "oemu_mmu \<Rightarrow> u64 \<Rightarrow> access \<Rightarrow> tlb_served \<times> oemu_mmu" where
  "tlb_lookup mmu va = (\<lambda>(cur, is_write, is_fetch).
     let e = mm_tlb mmu (tlb_index va)
     in if te_level e = 0 \<or> te_va e \<noteq> va AND NOT (MMU_PAGE_SIZE - 1)
        then (TLB_MISS, mmu\<lparr>mm_tlb_misses := mm_tlb_misses mmu + 1\<rparr>)
        else let ap = ucast (drop_bit 1 (te_flags e AND OEMU_TLB_AP)) :: u32
        in if \<not> oemu_mmu_internal_permits ap (te_flags e AND OEMU_TLB_XN \<noteq> 0) (te_flags e AND OEMU_TLB_PXN \<noteq> 0)
                (cur = OEMU_EL0) is_write is_fetch
           then (TLB_DENIED \<lparr>mf_esr = compose_esr cur is_fetch is_write OEMU_MMU_FAULT_PERMISSION (uint (te_level e)), mf_far = va\<rparr>,
                 mmu\<lparr>mm_tlb_hits := mm_tlb_hits mmu + 1\<rparr>)
           else (TLB_SERVED (te_pa e OR (va AND (MMU_PAGE_SIZE - 1))), mmu\<lparr>mm_tlb_hits := mm_tlb_hits mmu + 1\<rparr>))"

definition tlb_fill :: "oemu_sysregs \<Rightarrow> oemu_mmu \<Rightarrow> u64 \<Rightarrow> u64 \<Rightarrow> walk_info \<Rightarrow> oemu_mmu" where
  "tlb_fill sr mmu va pa wi =
     (let ttbr1 = oemu_mmu_internal_use_ttbr1 va;
          e = \<lparr>te_va = va AND NOT (MMU_PAGE_SIZE - 1), te_pa = pa AND NOT (MMU_PAGE_SIZE - 1),
               te_asid = ucast (drop_bit 48 (if ttbr1 then sr_ttbr1_el1 sr else sr_ttbr0_el1 sr)),
               te_level = of_nat (wi_level wi), te_flags = tlb_flags wi, te_vmid = 0\<rparr>
      in mmu\<lparr>mm_tlb := (mm_tlb mmu)(tlb_index va := e)\<rparr>)"

definition tlb_epoch_check :: "oemu_sysregs \<Rightarrow> oemu_mmu \<Rightarrow> oemu_mmu" where
  "tlb_epoch_check sr mmu =
     (let now = tlb_epoch_read sr;
          mmu = (if mm_epoch_valid mmu then (if mm_epoch mmu \<noteq> now then oemu_mmu_flush_all mmu else mmu)
                 else mmu\<lparr>mm_epoch_valid := True\<rparr>)
      in mmu\<lparr>mm_epoch := now\<rparr>)"

definition fault_of :: "access \<Rightarrow> walk_fault \<Rightarrow> oemu_mmu_fault" where
  "fault_of = (\<lambda>(cur, is_write, is_fetch) w.
     \<lparr>mf_esr = compose_esr cur is_fetch is_write (wf_cls w) (wf_level w), mf_far = wf_far w\<rparr>)"

definition translate ::
  "oemu_sysregs \<Rightarrow> 'p oemu_memops \<Rightarrow> u64 \<Rightarrow> access \<Rightarrow> oemu_mmu \<times> 'p \<Rightarrow> (oemu_mmu_fault + u64) \<times> oemu_mmu \<times> 'p" where
  "translate sr phys va acc = (\<lambda>(mmu, p).
     let mmu = tlb_epoch_check sr mmu;
         tva = strip_tag (sr_tcr_el1 sr) va;
         cacheable = (has (sr_sctlr_el1 sr) SCTLR_M \<and> fst acc < OEMU_EL3);
         (served, mmu) = (if cacheable then tlb_lookup mmu tva acc else (TLB_MISS, mmu))
     in case served of
          TLB_SERVED pa \<Rightarrow> (Inr pa, mmu, p)
        | TLB_DENIED f \<Rightarrow> (Inl f, mmu, p)
        | TLB_MISS \<Rightarrow>
            (case walk sr phys va acc p of
               (Inl w, p') \<Rightarrow> (Inl (fault_of acc w), mmu, p')
             | (Inr (pa, wi), p') \<Rightarrow> (Inr pa, if cacheable \<and> wi_walked wi then tlb_fill sr mmu tva pa wi else mmu, p')))"

definition refuse :: "oemu_mmu \<Rightarrow> access \<Rightarrow> oemu_mmu_fault_class \<Rightarrow> int \<Rightarrow> u64 \<Rightarrow> oemu_mmu" where
  "refuse mmu = (\<lambda>(cur, is_write, is_fetch) cls level far.
     mmu\<lparr>mm_fault := \<lparr>mf_esr = compose_esr cur is_fetch is_write cls level, mf_far = far\<rparr>, mm_fault_valid := True\<rparr>)"

definition record_fault :: "oemu_mmu \<Rightarrow> oemu_mmu_fault \<Rightarrow> oemu_mmu" where
  "record_fault mmu f = mmu\<lparr>mm_fault := f, mm_fault_valid := True\<rparr>"

definition oemu_mmu_take_fault :: "oemu_mmu \<Rightarrow> oemu_mmu_fault option \<times> oemu_mmu" where
  "oemu_mmu_take_fault mmu =
     (if \<not> mm_fault_valid mmu then (None, mmu) else (Some (mm_fault mmu), mmu\<lparr>mm_fault_valid := False\<rparr>))"

definition oemu_mmu_translate ::
  "oemu_sysregs \<Rightarrow> 'p oemu_memops \<Rightarrow> u64 \<Rightarrow> bool \<Rightarrow> bool \<Rightarrow> oemu_mmu \<times> 'p \<Rightarrow> (oemu_mmu_fault + u64) \<times> oemu_mmu \<times> 'p" where
  "oemu_mmu_translate sr phys va is_write is_fetch =
     translate sr phys va (oemu_pstate_el (sr_pstate sr), is_write, is_fetch)"

definition oemu_mmu_internal_walk ::
  "oemu_sysregs \<Rightarrow> 'p oemu_memops \<Rightarrow> u64 \<Rightarrow> access \<Rightarrow> 'p \<Rightarrow> (oemu_mmu_fault + u64) \<times> 'p" where
  "oemu_mmu_internal_walk sr phys va acc p =
     (case walk sr phys va acc p of
        (Inl w, p') \<Rightarrow> (Inl (fault_of acc w), p')
      | (Inr (pa, wi), p') \<Rightarrow> (Inr pa, p'))"

definition oemu_mmu_internal_tlb_peek :: "oemu_mmu \<Rightarrow> nat \<Rightarrow> oemu_tlb_entry option" where
  "oemu_mmu_internal_tlb_peek mmu index =
     (if index \<ge> 4096 then None
      else let e = mm_tlb mmu index in if te_level e = 0 then None else Some e)"

section \<open>The translated bus\<close>

text \<open>
  Each operation first translates, then applies the alignment policy, then asks the physical bus. A
  misaligned access the policy allows is checked byte by byte and then made byte by byte. The local
  fault record of the C code is uninitialised until a translation fills it: its initial value is the
  argument \<open>f0\<close>.
\<close>

definition mmu_access :: "oemu_sysregs \<Rightarrow> bool \<Rightarrow> bool \<Rightarrow> access" where
  "mmu_access sr is_write is_fetch = (oemu_pstate_el (sr_pstate sr), is_write, is_fetch)"

definition mmu_refuse :: "access \<Rightarrow> oemu_mmu_fault_class \<Rightarrow> u64 \<Rightarrow> oemu_mmu \<times> 'p \<Rightarrow> oemu_mmu \<times> 'p" where
  "mmu_refuse acc cls far = (\<lambda>(mmu, p). (refuse mmu acc cls (-1) far, p))"

definition mmu_record :: "oemu_mmu_fault \<Rightarrow> oemu_mmu \<times> 'p \<Rightarrow> oemu_mmu \<times> 'p" where
  "mmu_record f = (\<lambda>(mmu, p). (record_fault mmu f, p))"

definition phys_validate :: "'p oemu_memops \<Rightarrow> u64 \<Rightarrow> u64 \<Rightarrow> u32 \<Rightarrow> oemu_mmu \<times> 'p \<Rightarrow> oemu_status \<times> oemu_mmu \<times> 'p" where
  "phys_validate phys pa n perms = (\<lambda>(mmu, p). case mo_validate phys p pa n perms of (st, p) \<Rightarrow> (st, (mmu, p)))"

definition phys_read :: "'p oemu_memops \<Rightarrow> u64 \<Rightarrow> oemu_mem_size \<Rightarrow> oemu_mmu \<times> 'p \<Rightarrow> (oemu_status + u64) \<times> oemu_mmu \<times> 'p" where
  "phys_read phys pa sz = (\<lambda>(mmu, p). case mo_read phys p pa sz False of (q, p) \<Rightarrow> (q, (mmu, p)))"

definition phys_write :: "'p oemu_memops \<Rightarrow> u64 \<Rightarrow> oemu_mem_size \<Rightarrow> u64 \<Rightarrow> oemu_mmu \<times> 'p \<Rightarrow> oemu_status \<times> oemu_mmu \<times> 'p" where
  "phys_write phys pa sz v = (\<lambda>(mmu, p). case mo_write phys p pa sz v of (st, p) \<Rightarrow> (st, (mmu, p)))"

definition phys_fetch32 :: "'p oemu_memops \<Rightarrow> u64 \<Rightarrow> oemu_mmu \<times> 'p \<Rightarrow> (oemu_status + u32) \<times> oemu_mmu \<times> 'p" where
  "phys_fetch32 phys pa = (\<lambda>(mmu, p). case mo_fetch32 phys p pa of (q, p) \<Rightarrow> (q, (mmu, p)))"

definition mmu_fetch32 :: "oemu_sysregs \<Rightarrow> 'p oemu_memops \<Rightarrow> oemu_mmu \<times> 'p \<Rightarrow> u64 \<Rightarrow> (oemu_status + u32) \<times> oemu_mmu \<times> 'p" where
  "mmu_fetch32 sr phys s va =
     (let acc = mmu_access sr False True in
      case translate sr phys va acc s of
        (Inl f, s) \<Rightarrow> (Inl OEMU_ERR_FAULT, mmu_record f s)
      | (Inr pa, s) \<Rightarrow>
          (case phys_validate phys pa 4 OEMU_PERM_EXEC s of (st, s) \<Rightarrow>
             if st \<noteq> OEMU_OK then (Inl OEMU_ERR_FAULT, mmu_refuse acc OEMU_MMU_FAULT_TRANSLATION_NO_WALK va s)
             else (case phys_fetch32 phys pa s of
                     (Inl st, s) \<Rightarrow> (Inl OEMU_ERR_FAULT, mmu_refuse acc OEMU_MMU_FAULT_TRANSLATION_NO_WALK va s)
                   | (Inr w, s) \<Rightarrow> (Inr w, s))))"

fun split_check ::
  "oemu_mmu_fault \<Rightarrow> oemu_sysregs \<Rightarrow> 'p oemu_memops \<Rightarrow> u64 \<Rightarrow> access \<Rightarrow> nat list \<Rightarrow> oemu_mmu \<times> 'p \<Rightarrow>
   oemu_mmu_fault option \<times> oemu_mmu \<times> 'p" where
  "split_check f0 sr phys va acc [] s = (None, s)"
| "split_check f0 sr phys va acc (i # is) s =
     (case translate sr phys (va + of_nat i) acc s of
        (Inl f, s) \<Rightarrow> (Some f, s)
      | (Inr pa, s) \<Rightarrow>
          (case phys_validate phys pa 1 (if fst (snd acc) then OEMU_PERM_WRITE else OEMU_PERM_READ) s of (st, s) \<Rightarrow>
             if st \<noteq> OEMU_OK
             then (Some (f0\<lparr>mf_esr := compose_esr (fst acc) False (fst (snd acc)) OEMU_MMU_FAULT_TRANSLATION_NO_WALK (-1)\<rparr>), s)
             else split_check f0 sr phys va acc is s))"

text \<open>The address of one byte of a split access; a translation that fails here leaves the zero it had.\<close>

definition translate_or_zero ::
  "oemu_sysregs \<Rightarrow> 'p oemu_memops \<Rightarrow> u64 \<Rightarrow> access \<Rightarrow> oemu_mmu \<times> 'p \<Rightarrow> u64 \<times> oemu_mmu \<times> 'p" where
  "translate_or_zero sr phys va acc s =
     (case translate sr phys va acc s of (Inl f, s) \<Rightarrow> (0, s) | (Inr pa, s) \<Rightarrow> (pa, s))"

fun read_bytes ::
  "oemu_sysregs \<Rightarrow> 'p oemu_memops \<Rightarrow> u64 \<Rightarrow> access \<Rightarrow> nat list \<Rightarrow> u64 \<Rightarrow> oemu_mmu \<times> 'p \<Rightarrow>
   u64 option \<times> oemu_mmu \<times> 'p" where
  "read_bytes sr phys va acc [] v s = (Some v, s)"
| "read_bytes sr phys va acc (i # is) v s =
     (case translate_or_zero sr phys (va + of_nat i) acc s of (bpa, s) \<Rightarrow>
       (case phys_read phys bpa OEMU_MEM_BYTE s of
          (Inl st, s) \<Rightarrow> (None, mmu_refuse acc OEMU_MMU_FAULT_TRANSLATION_NO_WALK va s)
        | (Inr b, s) \<Rightarrow> read_bytes sr phys va acc is (v OR push_bit (i * 8) (b AND 0xFF)) s))"

fun write_bytes ::
  "oemu_sysregs \<Rightarrow> 'p oemu_memops \<Rightarrow> u64 \<Rightarrow> access \<Rightarrow> nat list \<Rightarrow> u64 \<Rightarrow> oemu_mmu \<times> 'p \<Rightarrow>
   oemu_status \<times> oemu_mmu \<times> 'p" where
  "write_bytes sr phys va acc [] v s = (OEMU_OK, s)"
| "write_bytes sr phys va acc (i # is) v s =
     (case translate_or_zero sr phys (va + of_nat i) acc s of (bpa, s) \<Rightarrow>
       (case phys_write phys bpa OEMU_MEM_BYTE (drop_bit (i * 8) v AND 0xFF) s of (st, s) \<Rightarrow>
          if st \<noteq> OEMU_OK then (OEMU_ERR_FAULT, mmu_refuse acc OEMU_MMU_FAULT_TRANSLATION_NO_WALK va s)
          else write_bytes sr phys va acc is v s))"

definition misaligned :: "u64 \<Rightarrow> oemu_mem_size \<Rightarrow> bool" where
  "misaligned va sz \<longleftrightarrow> va AND (transfer_bytes sz - 1) \<noteq> 0"

definition mmu_extend :: "oemu_mem_size \<Rightarrow> bool \<Rightarrow> u64 \<Rightarrow> u64" where
  "mmu_extend sz sign_extend value =
     (let bytes = 2 ^ mem_size_val sz :: nat
      in if sign_extend \<and> bytes < 8 \<and> drop_bit (bytes * 8 - 1) value AND 1 \<noteq> 0
         then value OR NOT (push_bit (bytes * 8) 1 - 1) else value)"

definition mmu_read ::
  "oemu_mmu_fault \<Rightarrow> oemu_sysregs \<Rightarrow> 'p oemu_memops \<Rightarrow> oemu_mmu \<times> 'p \<Rightarrow> u64 \<Rightarrow> oemu_mem_size \<Rightarrow> bool \<Rightarrow>
   (oemu_status + u64) \<times> oemu_mmu \<times> 'p" where
  "mmu_read f0 sr phys s va sz sign_extend =
     (let acc = mmu_access sr False False in
      case translate sr phys va acc s of
        (Inl f, s) \<Rightarrow> (Inl OEMU_ERR_FAULT, mmu_record f s)
      | (Inr pa, s) \<Rightarrow>
          if misaligned va sz \<and> oemu_mmu_internal_alignment_required sr (fst acc = OEMU_EL0)
          then (Inl OEMU_ERR_FAULT, mmu_refuse acc OEMU_MMU_FAULT_ALIGNMENT va s)
          else if misaligned va sz
          then (case split_check f0 sr phys va acc [0..<2 ^ mem_size_val sz] s of
                  (Some f, s) \<Rightarrow> (Inl OEMU_ERR_FAULT, mmu_record f s)
                | (None, s) \<Rightarrow>
                    (case read_bytes sr phys va acc [0..<2 ^ mem_size_val sz] 0 s of
                       (None, s) \<Rightarrow> (Inl OEMU_ERR_FAULT, s)
                     | (Some v, s) \<Rightarrow> (Inr (mmu_extend sz sign_extend v), s)))
          else (case phys_validate phys pa (transfer_bytes sz) OEMU_PERM_READ s of (st, s) \<Rightarrow>
                  if st \<noteq> OEMU_OK
                  then (Inl OEMU_ERR_FAULT, mmu_refuse acc OEMU_MMU_FAULT_TRANSLATION_NO_WALK va s)
                  else (case phys_read phys pa sz s of
                          (Inl st, s) \<Rightarrow> (Inl OEMU_ERR_FAULT, mmu_refuse acc OEMU_MMU_FAULT_TRANSLATION_NO_WALK va s)
                        | (Inr v, s) \<Rightarrow> (Inr (mmu_extend sz sign_extend v), s))))"

definition mmu_write ::
  "oemu_mmu_fault \<Rightarrow> oemu_sysregs \<Rightarrow> 'p oemu_memops \<Rightarrow> oemu_mmu \<times> 'p \<Rightarrow> u64 \<Rightarrow> oemu_mem_size \<Rightarrow> u64 \<Rightarrow>
   oemu_status \<times> oemu_mmu \<times> 'p" where
  "mmu_write f0 sr phys s va sz v =
     (let acc = mmu_access sr True False in
      case translate sr phys va acc s of
        (Inl f, s) \<Rightarrow> (OEMU_ERR_FAULT, mmu_record f s)
      | (Inr pa, s) \<Rightarrow>
          if misaligned va sz \<and> oemu_mmu_internal_alignment_required sr (fst acc = OEMU_EL0)
          then (OEMU_ERR_FAULT, mmu_refuse acc OEMU_MMU_FAULT_ALIGNMENT va s)
          else if misaligned va sz
          then (case split_check f0 sr phys va acc [0..<2 ^ mem_size_val sz] s of
                  (Some f, s) \<Rightarrow> (OEMU_ERR_FAULT, mmu_record f s)
                | (None, s) \<Rightarrow> write_bytes sr phys va acc [0..<2 ^ mem_size_val sz] v s)
          else (case phys_validate phys pa (transfer_bytes sz) OEMU_PERM_WRITE s of (st, s) \<Rightarrow>
                  if st \<noteq> OEMU_OK
                  then (OEMU_ERR_FAULT, mmu_refuse acc OEMU_MMU_FAULT_TRANSLATION_NO_WALK va s)
                  else (case phys_write phys pa sz v s of (st, s) \<Rightarrow>
                          if st \<noteq> OEMU_OK
                          then (OEMU_ERR_FAULT, mmu_refuse acc OEMU_MMU_FAULT_TRANSLATION_NO_WALK va s)
                          else (OEMU_OK, s))))"

text \<open>A probe walks the range page by page; each chunk is positive, so the offset reaches the size.\<close>

definition probe_chunk :: "u64 \<Rightarrow> u64 \<Rightarrow> u64 \<Rightarrow> u64" where
  "probe_chunk va n off =
     (let page_off = (va + off) AND (MMU_PAGE_SIZE - 1);
          span = MMU_PAGE_SIZE - page_off
      in if span \<le> n - off then span else n - off)"

lemma probe_chunk_bounds:
  assumes "off < n"
  shows "0 < probe_chunk va n off" "probe_chunk va n off \<le> n - off"
proof -
  have "(va + off) AND 0xFFF \<le> 0xFFF" by (rule word_and_le1)
  then have "0 < 0x1000 - ((va + off) AND 0xFFF)"
    by (simp add: word_le_nat_alt word_less_nat_alt unat_sub)
  moreover have "0 < n - off" using assms by (auto simp: word_gt_0)
  ultimately show "0 < probe_chunk va n off" by (simp add: probe_chunk_def Let_def)
  show "probe_chunk va n off \<le> n - off" by (simp add: probe_chunk_def Let_def)
qed

lemma probe_chunk_measure:
  assumes "off < n"
  shows "unat (n - (off + probe_chunk va n off)) < unat (n - off)"
proof -
  note b = probe_chunk_bounds [OF assms, of va]
  have eq: "n - (off + probe_chunk va n off) = (n - off) - probe_chunk va n off" by simp
  have "unat ((n - off) - probe_chunk va n off) = unat (n - off) - unat (probe_chunk va n off)"
    using b(2) by (rule unat_sub)
  then show ?thesis unfolding eq using b by (simp add: word_less_nat_alt word_le_nat_alt)
qed

function validate_loop ::
  "oemu_sysregs \<Rightarrow> 'p oemu_memops \<Rightarrow> u64 \<Rightarrow> u64 \<Rightarrow> u32 \<Rightarrow> access \<Rightarrow> u64 \<Rightarrow> oemu_mmu \<times> 'p \<Rightarrow>
   oemu_status \<times> oemu_mmu \<times> 'p" where
  "validate_loop sr phys va n perms acc off s =
     (if \<not> off < n then (OEMU_OK, s)
      else case translate sr phys (va + off) acc s of
             (Inl f, s) \<Rightarrow> (OEMU_ERR_FAULT, mmu_record f s)
           | (Inr pa, s) \<Rightarrow>
               (case phys_validate phys pa (ucast (ucast (probe_chunk va n off) :: u32)) perms s of (st, s) \<Rightarrow>
                  if st \<noteq> OEMU_OK
                  then (OEMU_ERR_FAULT, mmu_refuse acc OEMU_MMU_FAULT_TRANSLATION_NO_WALK (va + off) s)
                  else validate_loop sr phys va n perms acc (off + probe_chunk va n off) s))"
  by pat_completeness auto

termination
  by (relation "measure (\<lambda>(sr, phys, va, n, perms, acc, off, s). unat (n - off))") (auto simp: probe_chunk_measure)

declare validate_loop.simps [simp del]

definition mmu_validate ::
  "oemu_sysregs \<Rightarrow> 'p oemu_memops \<Rightarrow> oemu_mmu \<times> 'p \<Rightarrow> u64 \<Rightarrow> u64 \<Rightarrow> u32 \<Rightarrow> oemu_status \<times> oemu_mmu \<times> 'p" where
  "mmu_validate sr phys s va n perms =
     (if n = 0 then (OEMU_OK, s)
      else validate_loop sr phys va n perms
             (mmu_access sr (perms AND OEMU_PERM_WRITE \<noteq> 0) (perms AND OEMU_PERM_EXEC \<noteq> 0)) 0 s)"

definition oemu_mmu_memops :: "oemu_mmu_fault \<Rightarrow> oemu_sysregs \<Rightarrow> 'p oemu_memops \<Rightarrow> (oemu_mmu \<times> 'p) oemu_memops" where
  "oemu_mmu_memops f0 sr phys =
     \<lparr>mo_fetch32 = mmu_fetch32 sr phys, mo_read = mmu_read f0 sr phys, mo_write = mmu_write f0 sr phys,
      mo_validate = mmu_validate sr phys\<rparr>"

end
