(* ===== verification/Oemu_System.thy ===== *)
theory Oemu_System
  imports Oemu_Exec Oemu_Mmu
begin

text \<open>
  System-mode dispatch (\<^verbatim>\<open>src/exec/exec.c\<close>, \<^verbatim>\<open>oemu_exec_internal_dispatch_system\<close>): one instruction at
  the current exception level. Traps go through the exception model, system registers through their
  table, cache and translation maintenance through its classifier; everything else is the shared
  switch of \<^verbatim>\<open>Oemu_Exec\<close>, with its faults delivered as exceptions. The CPU's registers, the system
  registers, the bus state and the environment are passed explicitly.
\<close>

section \<open>Bus and translation layer\<close>

text \<open>
  The two arguments \<open>mem\<close> and \<open>mmu\<close> of the dispatch, as the code uses them: the bus under the current
  system registers, and the three calls on the translation layer. With a null \<open>mmu\<close> there is nothing to
  flush, no fault is recorded and an address translation fails.
\<close>

record 'm sys_view =
  sv_mem :: "oemu_sysregs \<Rightarrow> 'm oemu_memops"
  sv_flush_all :: "'m \<Rightarrow> 'm"
  sv_take_fault :: "'m \<Rightarrow> oemu_mmu_fault option \<times> 'm"
  sv_translate :: "oemu_sysregs \<Rightarrow> u64 \<Rightarrow> bool \<Rightarrow> 'm \<Rightarrow> u64 option \<times> 'm"

definition physical_view :: "'m oemu_memops \<Rightarrow> 'm sys_view" where
  "physical_view mem = \<lparr>sv_mem = (\<lambda>sr. mem), sv_flush_all = (\<lambda>m. m), sv_take_fault = (\<lambda>m. (None, m)),
     sv_translate = (\<lambda>sr va is_write m. (None, m))\<rparr>"

definition translated_view :: "oemu_mmu_fault \<Rightarrow> 'p oemu_memops \<Rightarrow> (oemu_mmu \<times> 'p) sys_view" where
  "translated_view f0 phys =
     \<lparr>sv_mem = (\<lambda>sr. oemu_mmu_memops f0 sr phys),
      sv_flush_all = (\<lambda>(mmu, p). (oemu_mmu_flush_all mmu, p)),
      sv_take_fault = (\<lambda>(mmu, p). case oemu_mmu_take_fault mmu of (f, mmu) \<Rightarrow> (f, (mmu, p))),
      sv_translate = (\<lambda>sr va is_write m. case oemu_mmu_translate sr phys va is_write False m of
         (Inl f, m) \<Rightarrow> (None, m) | (Inr pa, m) \<Rightarrow> (Some pa, m))\<rparr>"

section \<open>System instructions\<close>

abbreviation (input) SYSREG_MASK :: u32 where "SYSREG_MASK \<equiv> 0x3FFF"
abbreviation (input) SYS_DC_ZVA :: u32 where "SYS_DC_ZVA \<equiv> 0x1BA1"
abbreviation (input) EXEC_CACHE_LINE :: u64 where "EXEC_CACHE_LINE \<equiv> 64"
abbreviation (input) OEMU_SYSREG_SPSEL :: u32 where "OEMU_SYSREG_SPSEL \<equiv> 0x0210"
abbreviation (input) OEMU_SYSREG_DAIF :: u32 where "OEMU_SYSREG_DAIF \<equiv> 0x1A11"

definition SYS_OP1 :: "u32 \<Rightarrow> u32" where "SYS_OP1 s = drop_bit 11 s AND 7"
definition SYS_CRN :: "u32 \<Rightarrow> u32" where "SYS_CRN s = drop_bit 7 s AND 0xF"
definition SYS_CRM :: "u32 \<Rightarrow> u32" where "SYS_CRM s = drop_bit 3 s AND 0xF"

datatype oemu_exec_sys_action =
  OEMU_EXEC_SYS_TRAP | OEMU_EXEC_SYS_NOP | OEMU_EXEC_SYS_DC_ZVA | OEMU_EXEC_SYS_TLBI | OEMU_EXEC_SYS_AT

definition oemu_exec_internal_sys_action :: "u32 \<Rightarrow> oemu_exec_sys_action" where
  "oemu_exec_internal_sys_action sel =
     (let op1 = SYS_OP1 sel; crn = SYS_CRN sel; crm = SYS_CRM sel
      in if sel = SYS_DC_ZVA then OEMU_EXEC_SYS_DC_ZVA
         else if (crn = 8 \<or> crn = 9) \<and> (op1 = 0 \<or> op1 = 1 \<or> op1 = 2 \<or> op1 = 4) then OEMU_EXEC_SYS_TLBI
         else if crn = 7 \<and> (crm = 8 \<or> crm = 9) \<and> op1 = 0 then OEMU_EXEC_SYS_AT
         else if crn = 7 \<and> (crm = 8 \<or> crm = 9) \<and> op1 = 4 then OEMU_EXEC_SYS_TRAP
         else if (op1 = 0 \<or> op1 = 3) \<and> (crn = 7 \<or> crn = 10 \<or> crn = 11 \<or> crn = 15) then OEMU_EXEC_SYS_NOP
         else OEMU_EXEC_SYS_TRAP)"

definition oemu_exec_internal_reencode_sys :: "u32 \<Rightarrow> nat \<Rightarrow> u32" where
  "oemu_exec_internal_reencode_sys sel rt =
     0xD5000000 OR push_bit 19 1 OR push_bit 5 (sel AND SYSREG_MASK) OR (of_nat rt AND 0x1F)"

definition fault_far_of :: "oemu_cpu \<Rightarrow> oemu_insn \<Rightarrow> u64 option" where
  "fault_far_of cpu insn =
     (if i_operand_kind insn = OEMU_OPERAND_IMM then Some (i_imm insn)
      else if i_op insn = OEMU_OP_LDXR \<or> i_op insn = OEMU_OP_STXR then read_g cpu (i_rn insn) True OEMU_REG_W64
      else map_option fst (resolve_mem_addr cpu insn))"

definition op_is_store :: "oemu_opcode \<Rightarrow> bool" where
  "op_is_store op \<longleftrightarrow> op = OEMU_OP_STR \<or> op = OEMU_OP_STP \<or> op = OEMU_OP_STLR \<or> op = OEMU_OP_STXR"

text \<open>An exception delivered on the CPU's registers and the system registers.\<close>

definition deliver :: "(sysstate \<Rightarrow> sysstate option) \<Rightarrow> oemu_cpu \<Rightarrow> oemu_sysregs \<Rightarrow> (oemu_cpu \<times> oemu_sysregs) option" where
  "deliver exc cpu sr = do { (regs, sr) \<leftarrow> exc (c_regs cpu, sr); Some (cpu\<lparr>c_regs := regs\<rparr>, sr) }"

text \<open>A handler's result; \<open>OEMU_ERR_FAULT\<close> says that an exception was delivered.\<close>

type_synonym 'm sys_result = "(oemu_status \<times> oemu_cpu \<times> oemu_sysregs \<times> 'm) option"

definition delivered :: "(sysstate \<Rightarrow> sysstate option) \<Rightarrow> oemu_cpu \<Rightarrow> oemu_sysregs \<Rightarrow> 'm \<Rightarrow> 'm sys_result" where
  "delivered exc cpu sr m = do { (cpu, sr) \<leftarrow> deliver exc cpu sr; Some (OEMU_ERR_FAULT, cpu, sr, m) }"

definition do_mrs_system :: "oemu_cpu \<Rightarrow> oemu_sysregs \<Rightarrow> 'm \<Rightarrow> oemu_insn \<Rightarrow> u32 \<Rightarrow> 'm sys_result" where
  "do_mrs_system cpu sr m insn word =
     (case oemu_sysreg_read (c_regs cpu, sr) (i_sysreg insn AND SYSREG_MASK) of
        Inl st \<Rightarrow> delivered (\<lambda>st. oemu_exc_undefined st word) cpu sr m
      | Inr value \<Rightarrow> do { cpu \<leftarrow> write_g cpu (i_rd insn) False OEMU_REG_W64 value; Some (OEMU_OK, cpu, sr, m) })"

definition do_msr_system :: "oemu_cpu \<Rightarrow> oemu_sysregs \<Rightarrow> 'm \<Rightarrow> oemu_insn \<Rightarrow> u32 \<Rightarrow> 'm sys_result" where
  "do_msr_system cpu sr m insn word = do {
     value \<leftarrow> read_g cpu (i_rd insn) False OEMU_REG_W64;
     (case oemu_sysreg_write (c_regs cpu, sr) (i_sysreg insn AND SYSREG_MASK) value of (st, (regs', sr')) \<Rightarrow>
        if st \<noteq> OEMU_OK then delivered (\<lambda>st. oemu_exc_undefined st word) cpu sr m
        else Some (OEMU_OK, cpu\<lparr>c_regs := regs'\<rparr>, sr', m))
   }"

abbreviation (input) MSR_IMM_SPSel :: u64 where "MSR_IMM_SPSel \<equiv> 5"
abbreviation (input) MSR_IMM_DAIFSET :: u64 where "MSR_IMM_DAIFSET \<equiv> 6"
abbreviation (input) MSR_IMM_DAIFCLR :: u64 where "MSR_IMM_DAIFCLR \<equiv> 7"

definition do_msr_immediate :: "oemu_cpu \<Rightarrow> oemu_sysregs \<Rightarrow> 'm \<Rightarrow> oemu_insn \<Rightarrow> u32 \<Rightarrow> 'm sys_result" where
  "do_msr_immediate cpu sr m insn word =
     (let op2 = ucast (ucast (i_uimm insn) :: u32) :: u64;
          imm = ucast (ucast (i_imm insn) AND 0xF :: u32) :: u64;
          put = (\<lambda>sel value. case oemu_sysreg_write (c_regs cpu, sr) sel value of (st, (regs', sr')) \<Rightarrow>
                   Some (if st = OEMU_OK then OEMU_OK else OEMU_ERR_FAULT, cpu\<lparr>c_regs := regs'\<rparr>, sr', m))
      in if op2 = MSR_IMM_SPSel then put OEMU_SYSREG_SPSEL (imm AND 1)
         else if op2 = MSR_IMM_DAIFSET \<or> op2 = MSR_IMM_DAIFCLR
         then (case oemu_sysreg_read (c_regs cpu, sr) OEMU_SYSREG_DAIF of
                 Inl st \<Rightarrow> Some (OEMU_ERR_FAULT, cpu, sr, m)
               | Inr daif \<Rightarrow>
                   (let field = push_bit OEMU_PSTATE_DAIF_SHIFT (imm AND 0xF)
                    in put OEMU_SYSREG_DAIF (if op2 = MSR_IMM_DAIFSET then daif OR field else daif AND NOT field)))
         else if op2 = 1 \<or> op2 = 2 \<or> op2 = 3 \<or> op2 = 4 then Some (OEMU_OK, cpu, sr, m)
         else delivered (\<lambda>st. oemu_exc_undefined st word) cpu sr m)"

text \<open>A refused access: the record of the translation layer when there is one, the given abort otherwise.\<close>

definition deliver_fault ::
  "'m sys_view \<Rightarrow> (sysstate \<Rightarrow> sysstate option) \<Rightarrow> oemu_cpu \<Rightarrow> oemu_sysregs \<Rightarrow> 'm \<Rightarrow> (oemu_cpu \<times> oemu_sysregs \<times> 'm) option" where
  "deliver_fault view abort cpu sr m =
     (case sv_take_fault view m of
        (Some f, m) \<Rightarrow> do {
          (cpu, sr) \<leftarrow> deliver (\<lambda>st. oemu_exc_take st OEMU_EXC_KIND_SYNC (exc_route_of st) (mf_esr f) (mf_far f) True) cpu sr;
          Some (cpu, sr, m) }
      | (None, m) \<Rightarrow> do { (cpu, sr) \<leftarrow> deliver abort cpu sr; Some (cpu, sr, m) })"

primrec zero_line :: "'m oemu_memops \<Rightarrow> u64 \<Rightarrow> nat list \<Rightarrow> 'm \<Rightarrow> 'm option" where
  "zero_line mem line [] m = Some m"
| "zero_line mem line (off # offs) m = do {
     m \<leftarrow> write_or_panic mem m (line + of_nat off) OEMU_MEM_DWORD 0;
     zero_line mem line offs m
   }"

definition do_dc_zva :: "'m sys_view \<Rightarrow> oemu_cpu \<Rightarrow> oemu_sysregs \<Rightarrow> 'm \<Rightarrow> oemu_insn \<Rightarrow> 'm sys_result" where
  "do_dc_zva view cpu sr m insn = do {
     addr \<leftarrow> read_g cpu (i_rd insn) False OEMU_REG_W64;
     if addr AND (8 - 1) \<noteq> 0
     then delivered (\<lambda>st. oemu_exc_data_abort st addr 3 True False 0x21) cpu sr m
     else let line = addr AND NOT (EXEC_CACHE_LINE - 1); mem = sv_mem view sr
     in (case mo_validate mem m line EXEC_CACHE_LINE OEMU_PERM_WRITE of (st, m) \<Rightarrow>
           if st \<noteq> OEMU_OK
           then do { (cpu, sr, m) \<leftarrow> deliver_fault view (\<lambda>st. oemu_exc_data_abort st line 3 True False 0x2C) cpu sr m;
                     Some (OEMU_ERR_FAULT, cpu, sr, m) }
           else do { m \<leftarrow> zero_line mem line [0, 8, 16, 24, 32, 40, 48, 56] m; Some (OEMU_OK, cpu, sr, m) })
   }"

definition do_sys :: "'m sys_view \<Rightarrow> oemu_cpu \<Rightarrow> oemu_sysregs \<Rightarrow> 'm \<Rightarrow> oemu_insn \<Rightarrow> u32 \<Rightarrow> 'm sys_result" where
  "do_sys view cpu sr m insn word =
     (case oemu_exec_internal_sys_action (i_sysreg insn AND SYSREG_MASK) of
        OEMU_EXEC_SYS_NOP \<Rightarrow> Some (OEMU_OK, cpu, sr, m)
      | OEMU_EXEC_SYS_TRAP \<Rightarrow> delivered (\<lambda>st. oemu_exc_undefined st word) cpu sr m
      | OEMU_EXEC_SYS_TLBI \<Rightarrow> Some (OEMU_OK, cpu, sr, sv_flush_all view m)
      | OEMU_EXEC_SYS_AT \<Rightarrow> do {
          at_addr \<leftarrow> read_g cpu (i_rd insn) False OEMU_REG_W64;
          let at_op2 = drop_bit 5 word AND 7;
          let at_write = (at_op2 = 1 \<or> at_op2 = 3);
          (case sv_translate view sr at_addr at_write m of (r, m) \<Rightarrow>
             Some (OEMU_OK, cpu, sr\<lparr>sr_par_el1 := (case r of Some pa \<Rightarrow> pa AND NOT 1 | None \<Rightarrow> 1)\<rparr>, m)) }
      | OEMU_EXEC_SYS_DC_ZVA \<Rightarrow> do_dc_zva view cpu sr m insn)"

section \<open>Dispatch\<close>

type_synonym ('m, 'e) sys_step = "(oemu_status \<times> oemu_cpu \<times> oemu_sysregs \<times> 'm \<times> 'e) option"

definition exc_case :: "oemu_insn \<Rightarrow> (sysstate \<Rightarrow> sysstate option) option" where
  "exc_case insn =
     (let imm16 = ucast (i_imm insn) :: u16
      in if i_op insn = OEMU_OP_SVC then Some (\<lambda>st. oemu_exc_svc st imm16)
         else if i_op insn = OEMU_OP_BRK then Some (\<lambda>st. oemu_exc_brk st imm16)
         else if i_op insn = OEMU_OP_HLT then Some oemu_exc_breakpoint
         else if i_op insn = OEMU_OP_ERET then Some oemu_exc_eret
         else None)"

definition firmware_case ::
  "('e, 'm) oemu_env_ops option \<Rightarrow> oemu_cpu \<Rightarrow> oemu_sysregs \<Rightarrow> 'm \<Rightarrow> 'e \<Rightarrow> oemu_insn \<Rightarrow> ('m, 'e) sys_step" where
  "firmware_case env cpu sr m e insn = do {
     a0 \<leftarrow> oemu_regs_read (c_regs cpu) 0 OEMU_REG_W64;
     a1 \<leftarrow> oemu_regs_read (c_regs cpu) 1 OEMU_REG_W64;
     a2 \<leftarrow> oemu_regs_read (c_regs cpu) 2 OEMU_REG_W64;
     let imm16 = (ucast (i_imm insn) :: u16);
     let hvc = (i_op insn = OEMU_OP_HVC);
     let (answer, e) = (case Option.bind env env_fw_call of
                          None \<Rightarrow> (None, e) | Some fw_call \<Rightarrow> fw_call e hvc imm16 [a0, a1, a2]);
     (case answer of
        Some ret0 \<Rightarrow> do {
          regs \<leftarrow> oemu_regs_write (c_regs cpu) 0 OEMU_REG_W64 ret0;
          Some (OEMU_OK, cpu\<lparr>c_regs := oemu_regs_set_pc regs (oemu_regs_pc regs + OEMU_INSN_SIZE)\<rparr>, sr, m, e) }
      | None \<Rightarrow> do {
          (cpu, sr) \<leftarrow> deliver (\<lambda>st. if hvc then oemu_exc_hvc st imm16 else oemu_exc_smc st imm16) cpu sr;
          Some (OEMU_OK, cpu, sr, m, e) })
   }"

definition sysreg_case ::
  "'m sys_view \<Rightarrow> oemu_cpu \<Rightarrow> oemu_sysregs \<Rightarrow> 'm \<Rightarrow> oemu_insn \<Rightarrow> u32 \<Rightarrow> 'm sys_result option" where
  "sysreg_case view cpu sr m insn word =
     (if i_op insn = OEMU_OP_MRS then Some (do_mrs_system cpu sr m insn word)
      else if i_op insn = OEMU_OP_MSR then Some (do_msr_system cpu sr m insn word)
      else if i_op insn = OEMU_OP_MSR_IMM then Some (do_msr_immediate cpu sr m insn word)
      else if i_op insn = OEMU_OP_SYS then Some (do_sys view cpu sr m insn word)
      else None)"

definition shared_case ::
  "'m sys_view \<Rightarrow> oemu_cpu \<Rightarrow> oemu_sysregs \<Rightarrow> 'm \<Rightarrow> 'e \<Rightarrow> oemu_insn \<Rightarrow> u32 \<Rightarrow> ('m, 'e) sys_step" where
  "shared_case view cpu sr m e insn word = do {
     (st, cpu, m, e) \<leftarrow> oemu_exec_internal_dispatch_bus (sv_mem view sr) None cpu m e insn;
     if st = OEMU_ERR_FAULT
     then do {
       let is_write = op_is_store (i_op insn);
       let is_pair = (i_op insn = OEMU_OP_LDP \<or> i_op insn = OEMU_OP_STP \<or> i_op insn = OEMU_OP_LDPSW);
       (cpu, sr, m) \<leftarrow> deliver_fault view
         (\<lambda>st. do { far \<leftarrow> fault_far_of cpu insn;
                   oemu_exc_data_abort st far (mem_size_val (i_mem_size insn)) is_write (\<not> is_pair) 0x2C }) cpu sr m;
       Some (OEMU_OK, cpu, sr, m, e) }
     else if st = OEMU_ERR_UNSUPPORTED
     then do { (cpu, sr) \<leftarrow> deliver (\<lambda>st. oemu_exc_undefined st word) cpu sr; Some (OEMU_OK, cpu, sr, m, e) }
     else Some (st, cpu, sr, m, e)
   }"

definition oemu_exec_internal_dispatch_system ::
  "'m sys_view \<Rightarrow> ('e, 'm) oemu_env_ops option \<Rightarrow> oemu_cpu \<Rightarrow> oemu_sysregs \<Rightarrow> 'm \<Rightarrow> 'e \<Rightarrow> oemu_insn \<Rightarrow> u32 \<Rightarrow>
   ('m, 'e) sys_step" where
  "oemu_exec_internal_dispatch_system view env cpu sr m e insn word =
     (if i_op insn = OEMU_OP_UNKNOWN then Some (OEMU_ERR_INVALID_ARG, cpu, sr, m, e)
      else case exc_case insn of
        Some exc \<Rightarrow> do { (cpu, sr) \<leftarrow> deliver exc cpu sr; Some (OEMU_OK, cpu, sr, m, e) }
      | None \<Rightarrow>
          if i_op insn = OEMU_OP_HVC \<or> i_op insn = OEMU_OP_SMC then firmware_case env cpu sr m e insn
          else case sysreg_case view cpu sr m insn word of
            Some r \<Rightarrow> do {
              (st, cpu, sr, m) \<leftarrow> r;
              if st = OEMU_ERR_FAULT then Some (OEMU_OK, cpu, sr, m, e)
              else if st \<noteq> OEMU_OK then Some (st, cpu, sr, m, e)
              else Some (OEMU_OK, cpu\<lparr>c_regs := oemu_regs_advance_pc (c_regs cpu)\<rparr>, sr, m, e) }
          | None \<Rightarrow> shared_case view cpu sr m e insn word)"

end
