(* ===== verification/Oemu_Vcpu.thy ===== *)
theory Oemu_Vcpu
  imports Oemu_System
begin

text \<open>
  The virtual CPU (\<^verbatim>\<open>include/oemu/vcpu.h\<close>, \<^verbatim>\<open>src/vcpu/vcpu.c\<close>): interrupt pins, the event register, the
  wait instructions, the instruction quantum, and the step that puts fetch, decode and system dispatch
  together over the translated bus. The physical bus and the environment are arguments; their states
  are passed beside the CPU.
\<close>

section \<open>State\<close>

record oemu_vcpu =
  vc_cpu :: oemu_cpu
  vc_sysregs :: oemu_sysregs
  vc_mmu :: oemu_mmu
  vc_irq_level :: bool
  vc_fiq_level :: bool
  vc_event_reg :: bool
  vc_quantum :: u64
  vc_insns_left :: u64

abbreviation (input) VCPU_I_MASK :: u64 where "VCPU_I_MASK \<equiv> 0x80"
abbreviation (input) VCPU_F_MASK :: u64 where "VCPU_F_MASK \<equiv> 0x40"
abbreviation (input) OEMU_TIMER_COUNTS_PER_INSN :: u64 where "OEMU_TIMER_COUNTS_PER_INSN \<equiv> 1"

definition oemu_vcpu_internal_pending_kind :: "u64 \<Rightarrow> bool \<Rightarrow> bool \<Rightarrow> oemu_exc_kind option" where
  "oemu_vcpu_internal_pending_kind pstate irq_level fiq_level =
     (if fiq_level \<and> pstate AND VCPU_F_MASK = 0 then Some OEMU_EXC_KIND_FIQ
      else if irq_level \<and> pstate AND VCPU_I_MASK = 0 then Some OEMU_EXC_KIND_IRQ
      else None)"

text \<open>The null and half-built views have no counterpart here: a bus is always complete.\<close>

definition oemu_vcpu_init :: "oemu_el \<Rightarrow> u64 \<Rightarrow> u64 \<Rightarrow> u64 \<Rightarrow> (oemu_status + oemu_vcpu) option" where
  "oemu_vcpu_init el entry_pc entry_sp quantum =
     (if el = OEMU_EL2 \<or> quantum = 0 then Some (Inl OEMU_ERR_INVALID_ARG)
      else let cpu = oemu_cpu_init entry_pc entry_sp
      in do {
        sr \<leftarrow> oemu_sysregs_init (c_regs cpu) el;
        Some (Inr \<lparr>vc_cpu = cpu, vc_sysregs = sr, vc_mmu = oemu_mmu_init, vc_irq_level = False, vc_fiq_level = False,
                   vc_event_reg = False, vc_quantum = quantum, vc_insns_left = quantum\<rparr>) })"

definition oemu_vcpu_el :: "oemu_vcpu \<Rightarrow> oemu_el" where
  "oemu_vcpu_el v = oemu_pstate_el (sr_pstate (vc_sysregs v))"

definition oemu_vcpu_set_irq :: "oemu_vcpu \<Rightarrow> bool \<Rightarrow> oemu_vcpu" where
  "oemu_vcpu_set_irq v level = v\<lparr>vc_irq_level := level\<rparr>"

definition oemu_vcpu_set_fiq :: "oemu_vcpu \<Rightarrow> bool \<Rightarrow> oemu_vcpu" where
  "oemu_vcpu_set_fiq v level = v\<lparr>vc_fiq_level := level\<rparr>"

definition oemu_vcpu_rearm :: "oemu_vcpu \<Rightarrow> oemu_vcpu" where
  "oemu_vcpu_rearm v = v\<lparr>vc_insns_left := vc_quantum v\<rparr>"

text \<open>The CPU after an exception was delivered on its registers.\<close>

definition vcpu_deliver :: "(sysstate \<Rightarrow> sysstate option) \<Rightarrow> oemu_vcpu \<Rightarrow> oemu_vcpu option" where
  "vcpu_deliver exc v = do {
     (cpu, sr) \<leftarrow> deliver exc (vc_cpu v) (vc_sysregs v);
     Some (v\<lparr>vc_cpu := cpu, vc_sysregs := sr\<rparr>)
   }"

definition oemu_vcpu_take_pending :: "oemu_vcpu \<Rightarrow> (bool \<times> oemu_vcpu) option" where
  "oemu_vcpu_take_pending v =
     (case oemu_vcpu_internal_pending_kind (sr_pstate (vc_sysregs v)) (vc_irq_level v) (vc_fiq_level v) of
        None \<Rightarrow> Some (False, v)
      | Some kind \<Rightarrow> do { v \<leftarrow> vcpu_deliver (\<lambda>st. oemu_exc_take st kind (exc_route_of st) 0 0 False) v; Some (True, v) })"

section \<open>Step\<close>

definition vcpu_wait :: "oemu_vcpu \<Rightarrow> oemu_insn \<Rightarrow> oemu_status \<times> oemu_vcpu" where
  "vcpu_wait v insn =
     (if \<not> (vc_irq_level v \<or> vc_fiq_level v \<or> i_op insn = OEMU_OP_WFE \<and> vc_event_reg v) then (OEMU_ERR_BLOCKED, v)
      else (OEMU_OK, if i_op insn = OEMU_OP_WFE then v\<lparr>vc_event_reg := False\<rparr> else v))"

definition vcpu_halted :: "('e, 'm) oemu_env_ops option \<Rightarrow> 'e \<Rightarrow> bool" where
  "vcpu_halted env e = (case Option.bind env env_halted of None \<Rightarrow> False | Some halted \<Rightarrow> halted e)"

definition charge :: "oemu_vcpu \<Rightarrow> oemu_vcpu" where
  "charge v = v\<lparr>vc_insns_left := vc_insns_left v - 1\<rparr>"

type_synonym ('p, 'e) vcpu_outcome = "(oemu_status \<times> oemu_insn option \<times> oemu_vcpu \<times> 'p \<times> 'e) option"

text \<open>After a successful decode: the event register, the wait decision, the dispatch.\<close>

definition vcpu_execute ::
  "oemu_mmu_fault \<Rightarrow> 'p oemu_memops \<Rightarrow> ('e, oemu_mmu \<times> 'p) oemu_env_ops option \<Rightarrow> oemu_vcpu \<Rightarrow> 'p \<Rightarrow> 'e \<Rightarrow> oemu_insn \<Rightarrow> u32 \<Rightarrow>
   ('p, 'e) vcpu_outcome" where
  "vcpu_execute f0 phys env v p e insn word =
     (let v = (if i_op insn = OEMU_OP_HINT \<and> (i_uimm insn = 4 \<or> i_uimm insn = 5) then v\<lparr>vc_event_reg := True\<rparr> else v);
          (wait, v) = (if i_op insn = OEMU_OP_WFI \<or> i_op insn = OEMU_OP_WFE then vcpu_wait v insn else (OEMU_OK, v))
      in if wait \<noteq> OEMU_OK then Some (wait, Some insn, v, p, e)
         else do {
           (st, cpu, sr, (mmu, p), e) \<leftarrow> oemu_exec_internal_dispatch_system (translated_view f0 phys) env
             (vc_cpu v) (vc_sysregs v) (vc_mmu v, p) e insn word;
           let v = v\<lparr>vc_cpu := cpu, vc_sysregs := sr, vc_mmu := mmu\<rparr>;
           if st \<noteq> OEMU_OK then Some (st, Some insn, v, p, e)
           else Some (OEMU_OK, Some insn, charge v, p, e) })"

text \<open>With no interrupt taken: fetch and decode at the PC.\<close>

definition vcpu_fetch_execute ::
  "oemu_mmu_fault \<Rightarrow> 'p oemu_memops \<Rightarrow> ('e, oemu_mmu \<times> 'p) oemu_env_ops option \<Rightarrow> oemu_vcpu \<Rightarrow> 'p \<Rightarrow> 'e \<Rightarrow>
   ('p, 'e) vcpu_outcome" where
  "vcpu_fetch_execute f0 phys env v p e =
     (let view = translated_view f0 phys; pc = oemu_regs_pc (c_regs (vc_cpu v))
      in (case mo_fetch32 (sv_mem view (vc_sysregs v)) (vc_mmu v, p) pc of
            (Inl st, m) \<Rightarrow> do {
              (cpu, sr, (mmu, p)) \<leftarrow> deliver_fault view (\<lambda>st. oemu_exc_instruction_abort st pc) (vc_cpu v) (vc_sysregs v) m;
              Some (OEMU_OK, None, charge (v\<lparr>vc_cpu := cpu, vc_sysregs := sr, vc_mmu := mmu\<rparr>), p, e) }
          | (Inr word, (mmu, p)) \<Rightarrow>
              (let v = v\<lparr>vc_mmu := mmu\<rparr>; (dec, insn) = oemu_decode word pc
               in if dec \<noteq> OEMU_OK
                  then do { v \<leftarrow> vcpu_deliver (\<lambda>st. oemu_exc_undefined st word) v; Some (OEMU_OK, Some insn, charge v, p, e) }
                  else vcpu_execute f0 phys env v p e insn word)))"

definition oemu_vcpu_step ::
  "oemu_mmu_fault \<Rightarrow> 'p oemu_memops \<Rightarrow> ('e, oemu_mmu \<times> 'p) oemu_env_ops option \<Rightarrow> oemu_vcpu \<Rightarrow> 'p \<Rightarrow> 'e \<Rightarrow>
   ('p, 'e) vcpu_outcome" where
  "oemu_vcpu_step f0 phys env v p e =
     (if vc_insns_left v = 0 then Some (OEMU_ERR_TIMEOUT, None, v, p, e)
      else let sr = vc_sysregs v;
               v = v\<lparr>vc_sysregs := sr\<lparr>sr_cntvct := sr_cntvct sr + OEMU_TIMER_COUNTS_PER_INSN\<rparr>\<rparr>
      in do {
        (taken, v) \<leftarrow> oemu_vcpu_take_pending v;
        if taken then Some (OEMU_OK, None, charge v, p, e)
        else vcpu_fetch_execute f0 phys env v p e })"

section \<open>Run\<close>

primrec vcpu_run_loop ::
  "nat \<Rightarrow> oemu_mmu_fault \<Rightarrow> 'p oemu_memops \<Rightarrow> ('e, oemu_mmu \<times> 'p) oemu_env_ops option \<Rightarrow> nat \<Rightarrow> oemu_vcpu \<Rightarrow> 'p \<Rightarrow> 'e \<Rightarrow>
   (oemu_status \<times> nat \<times> oemu_vcpu \<times> 'p \<times> 'e) option" where
  "vcpu_run_loop 0 f0 phys env completed v p e =
     Some (if vcpu_halted env e then OEMU_OK else OEMU_ERR_TIMEOUT, completed, v, p, e)"
| "vcpu_run_loop (Suc budget) f0 phys env completed v p e =
     (if vcpu_halted env e then Some (OEMU_OK, completed, v, p, e)
      else do {
        (st, _, v, p, e) \<leftarrow> oemu_vcpu_step f0 phys env v p e;
        if st \<noteq> OEMU_OK then Some (st, completed, v, p, e)
        else vcpu_run_loop budget f0 phys env (completed + 1) v p e })"

definition oemu_vcpu_run ::
  "oemu_mmu_fault \<Rightarrow> 'p oemu_memops \<Rightarrow> ('e, oemu_mmu \<times> 'p) oemu_env_ops option \<Rightarrow> u64 \<Rightarrow> oemu_vcpu \<Rightarrow> 'p \<Rightarrow> 'e \<Rightarrow>
   (oemu_status \<times> nat \<times> oemu_vcpu \<times> 'p \<times> 'e) option" where
  "oemu_vcpu_run f0 phys env max_insns v p e = vcpu_run_loop (unat max_insns) f0 phys env 0 v p e"

end
