(* ===== verification/Oemu_Mmu_Props.thy ===== *)
theory Oemu_Mmu_Props
  imports Oemu_Mmu
begin

text \<open>
  What the translation layer promises: every answer of a walk is in bounds and permitted, or a fault
  with a defined code; the cache never changes an answer; and every refused bus access leaves its
  fault record behind.
\<close>

section \<open>Addresses on one page\<close>

definition same_page :: "u64 \<Rightarrow> u64 \<Rightarrow> bool" where
  "same_page va va' \<longleftrightarrow> drop_bit 12 va = drop_bit 12 va'"

lemma same_page_bit: "same_page va va' \<Longrightarrow> 12 \<le> i \<Longrightarrow> bit va i \<longleftrightarrow> bit va' i"
proof -
  assume "same_page va va'" and i: "12 \<le> i"
  then have "bit (drop_bit 12 va) (i - 12) = bit (drop_bit 12 va') (i - 12)" by (simp add: same_page_def)
  then show ?thesis using i by (simp add: bit_drop_bit_eq)
qed

lemma same_page_drop: "same_page va va' \<Longrightarrow> 12 \<le> k \<Longrightarrow> drop_bit k va = drop_bit k va'"
  by (intro bit_eqI) (simp add: bit_drop_bit_eq same_page_bit)

lemma low_mask: "(0xFFF :: u64) = mask 12"
  by (simp add: mask_eq_decr_exp)

lemma page_base_eq_iff: "va AND NOT (mask 12) = va' AND NOT (mask 12) \<longleftrightarrow> same_page va va'" for va va' :: u64
proof
  assume e: "va AND NOT (mask 12) = va' AND NOT (mask 12)"
  have "drop_bit 12 (va AND NOT (mask 12)) = drop_bit 12 va" for va :: u64
    by (rule bit_eqI) (auto simp: bit_simps dest: bit_imp_le_length)
  then show "same_page va va'" using e unfolding same_page_def by metis
next
  assume "same_page va va'"
  then show "va AND NOT (mask 12) = va' AND NOT (mask 12)"
    using same_page_bit [of va va'] by (intro bit_eqI) (auto simp: bit_simps not_less)
qed

section \<open>Leaves\<close>

text \<open>What a leaf found for one address answers for every address of the page and every access kind.\<close>

definition serve :: "u64 \<Rightarrow> walk_info \<Rightarrow> u64 \<Rightarrow> access \<Rightarrow> walk_result" where
  "serve pa wi va = (\<lambda>(cur, is_write, is_fetch).
     if oemu_mmu_internal_permits (wi_ap wi) (wi_xn wi) (wi_pxn wi) (cur = OEMU_EL0) is_write is_fetch
     then Inr (pa AND NOT (mask 12) OR va AND mask 12, wi)
     else mmu_fault OEMU_MMU_FAULT_PERMISSION (int (wi_level wi)) va)"

definition leaf_addr :: "u64 \<Rightarrow> nat \<Rightarrow> u64 \<Rightarrow> u64" where
  "leaf_addr a s va = a AND NOT (mask s) OR va AND mask s"

lemma leaf_addr_page:
  assumes "12 \<le> s" "same_page va va'"
  shows "leaf_addr a s va' = leaf_addr a s va AND NOT (mask 12) OR va' AND mask 12"
  using assms(1) same_page_bit [OF assms(2)] unfolding leaf_addr_def
  by (intro bit_eqI) (auto simp: bit_simps)

lemma leaf_addr_drop:
  assumes "12 \<le> s" "same_page va va'" "12 \<le> k"
  shows "drop_bit k (leaf_addr a s va') = drop_bit k (leaf_addr a s va)"
  using assms(1,3) same_page_bit [OF assms(2)] unfolding leaf_addr_def
  by (intro bit_eqI) (auto simp: bit_simps)

lemma level_shift_ge: "12 \<le> level_shift level"
  by (simp add: level_shift_def)

lemma walk_leaf_unfold:
  "walk_leaf out_bits va (cur, is_write, is_fetch) level tattrs d =
     (let addr = leaf_addr (md_address d) (level_shift level) va;
          pxn = (md_pxn d \<or> tattrs AND TATTR_PXN \<noteq> 0);
          xn = (md_xn d \<or> tattrs AND TATTR_XN \<noteq> 0);
          ap = (if tattrs AND TATTR_APT0 \<noteq> 0 then md_ap d AND NOT 1 else md_ap d);
          ap = (if tattrs AND TATTR_APT1 \<noteq> 0 then ap OR 2 else ap)
      in if drop_bit out_bits addr \<noteq> 0 then mmu_fault OEMU_MMU_FAULT_ADDRESS_SIZE (int level) va
         else if \<not> md_af d then mmu_fault OEMU_MMU_FAULT_ACCESS_FLAG (int level) va
         else if \<not> oemu_mmu_internal_permits ap xn pxn (cur = OEMU_EL0) is_write is_fetch
         then mmu_fault OEMU_MMU_FAULT_PERMISSION (int level) va
         else Inr (addr, \<lparr>wi_walked = True, wi_level = level, wi_ap = ap, wi_xn = xn, wi_pxn = pxn, wi_ng = md_ng d\<rparr>))"
  unfolding walk_leaf_def leaf_addr_def mask_eq_decr_exp push_bit_eq_mult by (simp add: Let_def)

lemma walk_leaf_page:
  assumes "walk_leaf out_bits va acc level tattrs d = Inr (pa, wi)" and "12 \<le> out_bits"
  shows "wi_walked wi \<and> wi_level wi = level \<and>
    (\<forall>va' acc'. same_page va va' \<longrightarrow> walk_leaf out_bits va' acc' level tattrs d = serve pa wi va' acc')"
proof -
  obtain cur w f where acc: "acc = (cur, w, f)" by (cases acc) auto
  note le = level_shift_ge [of level]
  show ?thesis
    using assms(1) leaf_addr_page [OF le] leaf_addr_drop [OF le _ assms(2)] unfolding acc
    by (auto simp: walk_leaf_unfold Let_def mmu_fault_def serve_def split: if_splits)
qed

section \<open>The walk\<close>

definition pure_reads :: "'p oemu_memops \<Rightarrow> bool" where
  "pure_reads phys \<longleftrightarrow> (\<forall>p a. \<exists>q. mo_read phys p a OEMU_MEM_DWORD False = (q, p))"

lemma index_page: "same_page va va' \<Longrightarrow> oemu_mmu_internal_index va' level = oemu_mmu_internal_index va level"
  by (simp add: oemu_mmu_internal_index_def same_page_drop level_shift_ge)

lemma walk_loop_page:
  assumes "pure_reads phys" "12 \<le> out_bits"
  shows "walk_loop phys out_bits va acc base level tattrs p = (r, p') \<Longrightarrow> level \<le> 3 \<Longrightarrow>
    p' = p \<and> (\<forall>pa wi. r = Inr (pa, wi) \<longrightarrow> wi_walked wi \<and> 1 \<le> wi_level wi \<and> wi_level wi \<le> 3 \<and>
      (\<forall>va' acc'. same_page va va' \<longrightarrow> walk_loop phys out_bits va' acc' base level tattrs p = (serve pa wi va' acc', p)))"
  using assms
proof (induction phys out_bits va acc base level tattrs p rule: walk_loop.induct)
  case (1 phys out_bits va acc base level tattrs p)
  obtain q where q: "mo_read phys p (base OR oemu_mmu_internal_index va level) OEMU_MEM_DWORD False = (q, p)"
    using 1(4) by (auto simp: pure_reads_def)
  note unf = walk_loop.simps [of phys out_bits _ _ base level tattrs p]
  show ?case
  proof (cases q)
    case (Inl st)
    then show ?thesis using 1(2) q by (auto simp: unf [of va] mmu_fault_def)
  next
    case (Inr raw)
    let ?d = "oemu_mmu_internal_decode raw"
    show ?thesis
    proof (cases "md_valid ?d \<and> md_table ?d \<and> level < 3 \<and> drop_bit out_bits (md_address ?d) = 0")
      case True
      note next_level = 1(1) [OF q [symmetric] Inr refl]
      have "walk_loop phys out_bits va acc (md_address ?d AND NOT (MMU_PAGE_SIZE - 1)) (level + 1)
          (tattrs OR oemu_mmu_internal_table_attrs raw) p = (r, p')"
        using 1(2) True q Inr by (simp add: unf [of va] Let_def)
      then show ?thesis using next_level True 1(4,5) q Inr by (auto simp: unf Let_def index_page)
    next
      case False
      then show ?thesis using 1(2,3,5) q Inr walk_leaf_page [of out_bits va acc level tattrs ?d]
        by (auto simp: unf Let_def index_page mmu_fault_def split: if_splits)
    qed
  qed
qed

lemma strip_bit: "i < 56 \<Longrightarrow> bit (strip_tag tcr va) i \<longleftrightarrow> bit va i"
  by (cases "tbi_of tcr va") (auto simp only: strip_tag_def if_True if_False bit_and_iff bit_not_iff bit_push_bit_iff
      dest: bit_imp_possible_bit)

lemma use_ttbr1_bit: "oemu_mmu_internal_use_ttbr1 va \<longleftrightarrow> bit va 55"
  by (simp add: oemu_mmu_internal_use_ttbr1_def and_one_eq bit_drop_bit_eq odd_iff_mod_2_eq_one [symmetric] flip: bit_0)

lemma use_ttbr1_strip [simp]: "oemu_mmu_internal_use_ttbr1 (strip_tag tcr va) = oemu_mmu_internal_use_ttbr1 va"
  by (simp add: use_ttbr1_bit strip_bit)

lemma tbi_strip [simp]: "tbi_of tcr (strip_tag tcr va) = tbi_of tcr va"
  by (simp add: tbi_of_def)

lemma start_level_bounds:
  assumes "\<not> oemu_mmu_internal_start_level n < 0"
  shows "25 \<le> n" "n \<le> 48" "oemu_mmu_internal_start_level n \<le> 2"
proof -
  show n: "25 \<le> n" "n \<le> 48" using assms by (auto simp: oemu_mmu_internal_start_level_def split: if_splits)
  have "2 \<le> (n - 4) div 9" using n by (simp add: less_eq_div_iff_mult_less_eq)
  then show "oemu_mmu_internal_start_level n \<le> 2" using n by (simp add: oemu_mmu_internal_start_level_def)
qed

lemma region_ok_page:
  "same_page va va' \<Longrightarrow> 25 \<le> n \<Longrightarrow> oemu_mmu_internal_region_ok va' n a t = oemu_mmu_internal_region_ok va n a t"
  by (simp add: oemu_mmu_internal_region_ok_def same_page_drop [of va va' n])

lemma out_bits_bounds: "12 \<le> walk_out_bits tcr" "walk_out_bits tcr \<le> 36"
  by (auto simp: walk_out_bits_def g_pamax_map_def not_less le_Suc_eq)

text \<open>The checks before the first table read.\<close>

definition walk_gate :: "oemu_sysregs \<Rightarrow> bool \<Rightarrow> bool \<Rightarrow> u64 \<Rightarrow> bool" where
  "walk_gate sr t b va \<longleftrightarrow> \<not> oemu_mmu_internal_start_level (walk_inputsize (sr_tcr_el1 sr) t) < 0 \<and>
     oemu_mmu_internal_region_ok va (walk_inputsize (sr_tcr_el1 sr) t) (if b then 56 else 64) t \<and>
     \<not> has (sr_tcr_el1 sr) (if t then TCR_EPD1 else TCR_EPD0) \<and> drop_bit (walk_out_bits (sr_tcr_el1 sr)) (walk_base sr t) = 0"

definition walk_from :: "oemu_sysregs \<Rightarrow> 'p oemu_memops \<Rightarrow> bool \<Rightarrow> u64 \<Rightarrow> access \<Rightarrow> 'p \<Rightarrow> walk_result \<times> 'p" where
  "walk_from sr phys t va acc p = walk_loop phys (walk_out_bits (sr_tcr_el1 sr)) va acc
     (walk_base sr t AND NOT (MMU_PAGE_SIZE - 1)) (nat (oemu_mmu_internal_start_level (walk_inputsize (sr_tcr_el1 sr) t))) 0 p"

definition fault_ok :: "walk_fault \<Rightarrow> u64 \<Rightarrow> bool" where
  "fault_ok f va \<longleftrightarrow> wf_far f = va \<and> oemu_mmu_internal_dfsc (wf_cls f) (wf_level f) \<noteq> None"

lemma walk_tables_pass: "walk_gate sr t b va \<Longrightarrow> walk_tables sr phys t b va acc p = walk_from sr phys t va acc p"
  by (simp add: walk_gate_def walk_tables_def walk_from_def Let_def)

lemma dfsc_defined:
  "0 \<le> l \<Longrightarrow> l \<le> 3 \<Longrightarrow> oemu_mmu_internal_dfsc OEMU_MMU_FAULT_TRANSLATION l \<noteq> None"
  "1 \<le> l \<Longrightarrow> l \<le> 3 \<Longrightarrow> oemu_mmu_internal_dfsc OEMU_MMU_FAULT_ACCESS_FLAG l \<noteq> None"
  "1 \<le> l \<Longrightarrow> l \<le> 3 \<Longrightarrow> oemu_mmu_internal_dfsc OEMU_MMU_FAULT_PERMISSION l \<noteq> None"
  "oemu_mmu_internal_dfsc OEMU_MMU_FAULT_TRANSLATION_NO_WALK l \<noteq> None"
  "oemu_mmu_internal_dfsc OEMU_MMU_FAULT_ADDRESS_SIZE l \<noteq> None"
  "oemu_mmu_internal_dfsc OEMU_MMU_FAULT_ALIGNMENT l \<noteq> None"
  by (simp_all add: oemu_mmu_internal_dfsc_def OEMU_REQUIRE_def)

lemma mmu_fault_ok: "oemu_mmu_internal_dfsc c l \<noteq> None \<Longrightarrow> \<exists>f. mmu_fault c l va = Inl f \<and> fault_ok f va"
  by (simp add: mmu_fault_def fault_ok_def)

lemma walk_tables_stop:
  assumes "\<not> walk_gate sr t b va"
  obtains f where "walk_tables sr phys t b va acc p = (Inl f, p)" "fault_ok f va"
proof -
  let ?n = "walk_inputsize (sr_tcr_el1 sr) t"
  obtain c l where cl: "walk_tables sr phys t b va acc p = (mmu_fault c l va, p)" "oemu_mmu_internal_dfsc c l \<noteq> None"
  proof (cases "oemu_mmu_internal_start_level ?n < 0")
    case True
    then show ?thesis using that [of OEMU_MMU_FAULT_TRANSLATION 0] by (simp add: walk_tables_def dfsc_defined)
  next
    case False
    have d: "oemu_mmu_internal_dfsc OEMU_MMU_FAULT_TRANSLATION (oemu_mmu_internal_start_level ?n) \<noteq> None"
      using False start_level_bounds(3) [OF False] by (intro dfsc_defined) auto
    show ?thesis
    proof (cases "oemu_mmu_internal_region_ok va ?n (if b then 56 else 64) t \<and> \<not> has (sr_tcr_el1 sr) (if t then TCR_EPD1 else TCR_EPD0)")
      case True
      then have "walk_tables sr phys t b va acc p = (mmu_fault OEMU_MMU_FAULT_ADDRESS_SIZE (-1) va, p)"
        using assms False by (simp add: walk_tables_def walk_gate_def Let_def)
      then show ?thesis using that dfsc_defined(5) by blast
    next
      case gate: False
      then have "walk_tables sr phys t b va acc p = (mmu_fault OEMU_MMU_FAULT_TRANSLATION (oemu_mmu_internal_start_level ?n) va, p)"
        using False unfolding walk_tables_def Let_def by (simp only: if_False) (metis (full_types))
      then show ?thesis using that d by blast
    qed
  qed
  then show ?thesis using that mmu_fault_ok [OF cl(2), of va] by auto
qed

lemma gate_page:
  assumes "same_page va va'"
  shows "walk_gate sr t b va' = walk_gate sr t b va"
  using region_ok_page [OF assms] start_level_bounds(1) [of "walk_inputsize (sr_tcr_el1 sr) t"]
  unfolding walk_gate_def by (auto split: if_split_asm)

lemma walk_tables_page:
  assumes "pure_reads phys" and "walk_tables sr phys t b va acc p = (r, p')"
  shows "p' = p \<and> (\<forall>pa wi. r = Inr (pa, wi) \<longrightarrow> wi_walked wi \<and> 1 \<le> wi_level wi \<and> wi_level wi \<le> 3 \<and>
    (\<forall>va' acc'. same_page va va' \<longrightarrow> walk_tables sr phys t b va' acc' p = (serve pa wi va' acc', p)))"
proof (cases "walk_gate sr t b va")
  case True
  then have "oemu_mmu_internal_start_level (walk_inputsize (sr_tcr_el1 sr) t) \<le> 2"
    by (simp add: walk_gate_def start_level_bounds(3))
  then have lvl: "nat (oemu_mmu_internal_start_level (walk_inputsize (sr_tcr_el1 sr) t)) \<le> 3" by linarith
  have "walk_from sr phys t va acc p = (r, p')" using assms(2) by (simp add: walk_tables_pass True)
  from walk_loop_page [OF assms(1) out_bits_bounds(1) this [unfolded walk_from_def] lvl, folded walk_from_def]
  show ?thesis using True by (simp add: walk_tables_pass gate_page)
next
  case False
  then show ?thesis using assms(2) by (auto elim: walk_tables_stop [of sr t b va phys acc p])
qed

lemma half_page:
  assumes "same_page (strip_tag tcr va) (strip_tag tcr va')"
  shows "oemu_mmu_internal_use_ttbr1 va' = oemu_mmu_internal_use_ttbr1 va" "tbi_of tcr va' = tbi_of tcr va"
proof -
  show t: "oemu_mmu_internal_use_ttbr1 va' = oemu_mmu_internal_use_ttbr1 va"
    using same_page_bit [OF assms, of 55] by (simp add: use_ttbr1_bit strip_bit)
  show "tbi_of tcr va' = tbi_of tcr va" by (simp add: tbi_of_def t)
qed

definition translating :: "oemu_sysregs \<Rightarrow> access \<Rightarrow> bool" where
  "translating sr acc \<longleftrightarrow> has (sr_sctlr_el1 sr) SCTLR_M \<and> fst acc < OEMU_EL3"

lemma walk_identity: "\<not> translating sr acc \<Longrightarrow> walk sr phys va acc p = (Inr (va, not_walked), p)"
  by (auto simp: walk_def translating_def)

lemma walk_translating:
  "translating sr acc \<Longrightarrow> walk sr phys va acc p = walk_tables sr phys (oemu_mmu_internal_use_ttbr1 va)
     (tbi_of (sr_tcr_el1 sr) va) (strip_tag (sr_tcr_el1 sr) va) acc p"
  by (auto simp: walk_def translating_def)

lemma walk_page:
  assumes "pure_reads phys" and "walk sr phys va acc p = (Inr (pa, wi), p')" and "wi_walked wi"
    and "translating sr acc'" and "same_page (strip_tag (sr_tcr_el1 sr) va) (strip_tag (sr_tcr_el1 sr) va')"
  shows "1 \<le> wi_level wi \<and> wi_level wi \<le> 3 \<and> walk sr phys va' acc' p = (serve pa wi (strip_tag (sr_tcr_el1 sr) va') acc', p)"
proof -
  have tr: "translating sr acc" using assms(2,3) by (rule_tac ccontr) (auto simp: walk_identity not_walked_def)
  from walk_tables_page [OF assms(1) assms(2) [unfolded walk_translating [OF tr]]] assms(5)
  show ?thesis by (simp add: walk_translating [OF assms(4)] half_page [OF assms(5)] del: split_paired_All)
qed

lemma walk_pure: "pure_reads phys \<Longrightarrow> snd (walk sr phys va acc p) = p"
  using walk_tables_page [of phys sr] by (cases "translating sr acc") (simp_all add: walk_identity walk_translating, metis prod.collapse)

lemma walk_epoch: "tlb_epoch_read sr = tlb_epoch_read sr' \<Longrightarrow> walk sr' phys = walk sr phys"
  by (intro ext) (simp add: tlb_epoch_read_def walk_def walk_tables_def walk_base_def)

section \<open>The cache\<close>

text \<open>What an entry answers for an address of its page.\<close>

definition tlb_answer :: "oemu_tlb_entry \<Rightarrow> u64 \<Rightarrow> access \<Rightarrow> oemu_mmu_fault + u64" where
  "tlb_answer e va = (\<lambda>(cur, is_write, is_fetch).
     if oemu_mmu_internal_permits (ucast (drop_bit 1 (te_flags e AND OEMU_TLB_AP))) (te_flags e AND OEMU_TLB_XN \<noteq> 0)
          (te_flags e AND OEMU_TLB_PXN \<noteq> 0) (cur = OEMU_EL0) is_write is_fetch
     then Inr (te_pa e OR va AND mask 12)
     else Inl \<lparr>mf_esr = compose_esr cur is_fetch is_write OEMU_MMU_FAULT_PERMISSION (uint (te_level e)), mf_far = va\<rparr>)"

lemma permits_bits:
  "oemu_mmu_internal_permits ap xn pxn el0 is_write is_fetch =
     (if is_fetch then (if el0 then bit ap 0 \<and> \<not> xn else \<not> pxn)
      else if is_write then (el0 \<longrightarrow> bit ap 0) \<and> \<not> bit ap 1 else el0 \<longrightarrow> bit ap 0)"
  using bit_iff_and_push_bit_not_eq_0 [of ap 0] bit_iff_and_push_bit_not_eq_0 [of ap 1]
  by (auto simp: oemu_mmu_internal_permits_def Let_def)

lemma flag_bits: "f AND OEMU_TLB_XN \<noteq> 0 \<longleftrightarrow> bit f 3" "f AND OEMU_TLB_PXN \<noteq> 0 \<longleftrightarrow> bit f 4" for f :: u8
  using bit_iff_and_push_bit_not_eq_0 [of f 3] bit_iff_and_push_bit_not_eq_0 [of f 4] by simp_all

lemma tlb_flags_bits:
  "bit (tlb_flags wi) 1 = bit (wi_ap wi) 0" "bit (tlb_flags wi) 2 = bit (wi_ap wi) 1"
  "bit (tlb_flags wi) 3 = wi_xn wi" "bit (tlb_flags wi) 4 = wi_pxn wi"
  by (simp_all add: tlb_flags_def bit_simps mult.commute [of _ "2 :: u32"] bit_double_iff)

lemma tlb_flags_permits:
  "oemu_mmu_internal_permits (ucast (drop_bit 1 (tlb_flags wi AND OEMU_TLB_AP))) (tlb_flags wi AND OEMU_TLB_XN \<noteq> 0)
     (tlb_flags wi AND OEMU_TLB_PXN \<noteq> 0) el0 w f =
   oemu_mmu_internal_permits (wi_ap wi) (wi_xn wi) (wi_pxn wi) el0 w f"
  by (simp add: permits_bits flag_bits bit_simps tlb_flags_bits tlb_flags_bits(1) [unfolded One_nat_def] numeral_2_eq_2 [symmetric])

definition filled :: "oemu_sysregs \<Rightarrow> u64 \<Rightarrow> u64 \<Rightarrow> walk_info \<Rightarrow> oemu_tlb_entry" where
  "filled sr va pa wi = mm_tlb (tlb_fill sr oemu_mmu_init va pa wi) (tlb_index va)"

lemma tlb_fill_filled: "mm_tlb (tlb_fill sr mmu va pa wi) = (mm_tlb mmu)(tlb_index va := filled sr va pa wi)"
  by (simp add: tlb_fill_def filled_def Let_def)

lemma filled_answer:
  assumes "1 \<le> wi_level wi" "wi_level wi \<le> 3"
  shows "te_level (filled sr va pa wi) \<noteq> 0" "te_va (filled sr va pa wi) = va AND NOT (mask 12)"
    and "tlb_answer (filled sr va pa wi) va' acc =
      (case serve pa wi va' acc of Inl f \<Rightarrow> Inl (fault_of acc f) | Inr (a, _) \<Rightarrow> Inr a)"
proof -
  have "wi_level wi = 1 \<or> wi_level wi = 2 \<or> wi_level wi = 3" using assms by auto
  then have lvl: "uint (of_nat (wi_level wi) :: u8) = int (wi_level wi)" "(of_nat (wi_level wi) :: u8) \<noteq> 0" by auto
  have m: "- 4096 = NOT (mask 12 :: u64)" by (simp add: mask_eq_decr_exp)
  have fl: "te_flags (filled sr va pa wi) = tlb_flags wi" "te_pa (filled sr va pa wi) = pa AND NOT (mask 12)"
      "te_va (filled sr va pa wi) = va AND NOT (mask 12)" "te_level (filled sr va pa wi) = of_nat (wi_level wi)"
    by (simp_all add: filled_def tlb_fill_def Let_def m)
  show "te_level (filled sr va pa wi) \<noteq> 0" "te_va (filled sr va pa wi) = va AND NOT (mask 12)"
    using lvl fl by simp_all
  show "tlb_answer (filled sr va pa wi) va' acc =
      (case serve pa wi va' acc of Inl f \<Rightarrow> Inl (fault_of acc f) | Inr (a, _) \<Rightarrow> Inr a)"
    unfolding tlb_answer_def fl lvl tlb_flags_permits by (cases acc) (simp add: serve_def mmu_fault_def fault_of_def)
qed

text \<open>
  The agreement invariant: under the control registers of the epoch, an occupied entry answers as the
  walk would, for every address of its page and every kind of access.
\<close>

definition entry_ok :: "'p oemu_memops \<Rightarrow> 'p \<Rightarrow> oemu_sysregs \<Rightarrow> oemu_tlb_entry \<Rightarrow> bool" where
  "entry_ok phys p sr e \<longleftrightarrow> (te_level e \<noteq> 0 \<longrightarrow>
     (\<forall>va acc. translating sr acc \<and> te_va e = strip_tag (sr_tcr_el1 sr) va AND NOT (mask 12) \<longrightarrow>
        oemu_mmu_internal_walk sr phys va acc p = (tlb_answer e (strip_tag (sr_tcr_el1 sr) va) acc, p)))"

definition tlb_ok :: "'p oemu_memops \<Rightarrow> 'p \<Rightarrow> oemu_mmu \<Rightarrow> bool" where
  "tlb_ok phys p mmu \<longleftrightarrow>
     (if mm_epoch_valid mmu then \<forall>sr i. tlb_epoch_read sr = mm_epoch mmu \<longrightarrow> entry_ok phys p sr (mm_tlb mmu i)
      else \<forall>i. te_level (mm_tlb mmu i) = 0)"

lemma free_entry_ok [simp]: "te_level e = 0 \<Longrightarrow> entry_ok phys p sr e" "te_level free_entry = 0"
  by (simp_all add: entry_ok_def free_entry_def)

lemma tlb_ok_empty: "(\<And>i. te_level (mm_tlb mmu i) = 0) \<Longrightarrow> tlb_ok phys p mmu"
  by (simp add: tlb_ok_def)

lemma tlb_ok_cong:
  "mm_tlb mmu' = mm_tlb mmu \<Longrightarrow> mm_epoch mmu' = mm_epoch mmu \<Longrightarrow> mm_epoch_valid mmu' = mm_epoch_valid mmu \<Longrightarrow>
   tlb_ok phys p mmu' = tlb_ok phys p mmu"
  by (simp add: tlb_ok_def)

lemma epoch_check_ok:
  assumes "tlb_ok phys p mmu"
  shows "tlb_ok phys p (tlb_epoch_check sr mmu)" "mm_epoch_valid (tlb_epoch_check sr mmu)"
    "mm_epoch (tlb_epoch_check sr mmu) = tlb_epoch_read sr"
proof -
  show "mm_epoch_valid (tlb_epoch_check sr mmu)" "mm_epoch (tlb_epoch_check sr mmu) = tlb_epoch_read sr"
    by (simp_all add: tlb_epoch_check_def Let_def oemu_mmu_flush_all_def)
  show "tlb_ok phys p (tlb_epoch_check sr mmu)"
  proof (cases "mm_epoch_valid mmu \<and> mm_epoch mmu = tlb_epoch_read sr")
    case True
    then have "tlb_epoch_check sr mmu = mmu" by (simp add: tlb_epoch_check_def Let_def)
    then show ?thesis using assms by simp
  next
    case False
    then show ?thesis using assms
      by (intro tlb_ok_empty) (auto simp: tlb_epoch_check_def Let_def oemu_mmu_flush_all_def tlb_ok_def)
  qed
qed

lemma lookup_answer:
  assumes "te_level e \<noteq> 0" "te_va e = va AND NOT (mask 12)" "e = mm_tlb mmu (tlb_index va)"
  shows "tlb_lookup mmu va acc =
    ((case tlb_answer e va acc of Inl f \<Rightarrow> TLB_DENIED f | Inr pa \<Rightarrow> TLB_SERVED pa), mmu\<lparr>mm_tlb_hits := mm_tlb_hits mmu + 1\<rparr>)"
  using assms by (cases acc) (simp add: tlb_lookup_def tlb_answer_def Let_def mask_eq_decr_exp)

lemma lookup_miss:
  "te_level (mm_tlb mmu (tlb_index va)) = 0 \<or> te_va (mm_tlb mmu (tlb_index va)) \<noteq> va AND NOT (mask 12) \<Longrightarrow>
   tlb_lookup mmu va acc = (TLB_MISS, mmu\<lparr>mm_tlb_misses := mm_tlb_misses mmu + 1\<rparr>)"
  by (cases acc) (auto simp: tlb_lookup_def Let_def mask_eq_decr_exp)

lemma fill_ok:
  assumes "pure_reads phys" "tlb_ok phys p mmu" "mm_epoch_valid mmu" "mm_epoch mmu = tlb_epoch_read sr"
    and "walk sr phys va acc p = (Inr (pa, wi), p')" "wi_walked wi" "translating sr acc"
  shows "tlb_ok phys p (tlb_fill sr mmu (strip_tag (sr_tcr_el1 sr) va) pa wi)"
proof -
  let ?tva = "strip_tag (sr_tcr_el1 sr) va"
  have same: "same_page va va" for va by (simp add: same_page_def)
  note lvl = walk_page [OF assms(1,5,6,7) same]
  have new: "entry_ok phys p sr' (filled sr ?tva pa wi)" if e: "tlb_epoch_read sr' = tlb_epoch_read sr" for sr'
    unfolding entry_ok_def
  proof (intro impI allI, elim conjE)
    fix va' acc' assume tr: "translating sr' acc'" and va': "te_va (filled sr ?tva pa wi) = strip_tag (sr_tcr_el1 sr') va' AND NOT (mask 12)"
    have eqs: "sr_tcr_el1 sr' = sr_tcr_el1 sr" "translating sr acc'" "walk sr' phys = walk sr phys"
      using e tr walk_epoch [OF e [symmetric], of phys] by (auto simp: tlb_epoch_read_def translating_def)
    have "same_page ?tva (strip_tag (sr_tcr_el1 sr) va')"
      using va' lvl by (simp add: filled_answer eqs page_base_eq_iff)
    from walk_page [OF assms(1,5,6) eqs(2) this] show "oemu_mmu_internal_walk sr' phys va' acc' p =
        (tlb_answer (filled sr ?tva pa wi) (strip_tag (sr_tcr_el1 sr') va') acc', p)"
      by (auto simp: oemu_mmu_internal_walk_def eqs filled_answer(3) split: sum.splits prod.splits)
  qed
  have "mm_epoch_valid (tlb_fill sr mmu ?tva pa wi)" "mm_epoch (tlb_fill sr mmu ?tva pa wi) = mm_epoch mmu"
    using assms(3) by (simp_all add: tlb_fill_def Let_def)
  then show ?thesis using assms(2-4) new by (simp add: tlb_ok_def tlb_fill_filled)
qed

lemma translate_agrees:
  assumes "pure_reads phys" "tlb_ok phys p mmu"
  obtains mmu' where "translate sr phys va acc (mmu, p) = (fst (oemu_mmu_internal_walk sr phys va acc p), mmu', p)"
    and "tlb_ok phys p mmu'"
proof -
  define m1 where "m1 = tlb_epoch_check sr mmu"
  define tva where "tva = strip_tag (sr_tcr_el1 sr) va"
  note m1 = epoch_check_ok [OF assms(2), of sr, folded m1_def]
  note wp = walk_pure [OF assms(1), of sr va acc p]
  have cacheable: "(has (sr_sctlr_el1 sr) SCTLR_M \<and> fst acc < OEMU_EL3) = translating sr acc" by (simp add: translating_def)
  note unf = translate_def Let_def cacheable m1_def [symmetric] tva_def [symmetric] oemu_mmu_internal_walk_def
  show thesis
  proof (cases "translating sr acc")
    case False
    then show thesis using m1 by (intro that [of m1]) (simp_all add: unf walk_identity)
  next
    case tr: True
    let ?e = "mm_tlb m1 (tlb_index tva)"
    show thesis
    proof (cases "te_level ?e \<noteq> 0 \<and> te_va ?e = tva AND NOT (mask 12)")
      case hit: True
      have "oemu_mmu_internal_walk sr phys va acc p = (tlb_answer ?e tva acc, p)"
        using m1 hit tr by (simp add: tlb_ok_def entry_ok_def tva_def del: split_paired_All)
      moreover have lk: "tlb_lookup m1 tva acc = ((case tlb_answer ?e tva acc of Inl f \<Rightarrow> TLB_DENIED f | Inr pa \<Rightarrow> TLB_SERVED pa),
          m1\<lparr>mm_tlb_hits := mm_tlb_hits m1 + 1\<rparr>)"
        using hit by (intro lookup_answer) auto
      have "translate sr phys va acc (mmu, p) = (tlb_answer ?e tva acc, m1\<lparr>mm_tlb_hits := mm_tlb_hits m1 + 1\<rparr>, p)"
        by (cases "tlb_answer ?e tva acc") (simp_all add: unf tr lk)
      moreover have "tlb_ok phys p (m1\<lparr>mm_tlb_hits := mm_tlb_hits m1 + 1\<rparr>)" using m1(1) by (simp add: tlb_ok_def)
      ultimately show thesis using that by simp
    next
      case False
      define m2 where "m2 = m1\<lparr>mm_tlb_misses := mm_tlb_misses m1 + 1\<rparr>"
      have miss: "tlb_lookup m1 tva acc = (TLB_MISS, m2)" using False by (simp add: lookup_miss m2_def)
      have m2: "tlb_ok phys p m2" "mm_epoch_valid m2" "mm_epoch m2 = tlb_epoch_read sr"
        using m1 by (simp_all add: m2_def tlb_ok_def)
      obtain r where w: "walk sr phys va acc p = (r, p)" using wp by (metis prod.collapse)
      show thesis
      proof (cases r)
        case (Inl f)
        then show thesis using w m2 tr miss by (intro that [of m2]) (simp_all add: unf)
      next
        case (Inr paw)
        then obtain pa wi where r: "r = Inr (pa, wi)" by (cases paw) auto
        show thesis using w r m2 tr miss fill_ok [OF assms(1) m2 w [unfolded r]]
          by (intro that [of "if wi_walked wi then tlb_fill sr m2 tva pa wi else m2"]) (simp_all add: unf)
      qed
    qed
  qed
qed

section \<open>Agreement over every run\<close>

text \<open>
  A run of the layer: translations under any control registers and at any level, the fault slot
  filled or emptied, and flushes, before which the guest may have rewritten its tables.
\<close>

inductive mmu_run :: "'p oemu_memops \<Rightarrow> oemu_mmu \<Rightarrow> 'p \<Rightarrow> bool" for phys where
  run_init: "mmu_run phys oemu_mmu_init p"
| run_translate: "mmu_run phys mmu p \<Longrightarrow> translate sr phys va acc (mmu, p) = (r, mmu', p') \<Longrightarrow> mmu_run phys mmu' p'"
| run_fault: "mmu_run phys mmu p \<Longrightarrow> mmu_run phys (mmu\<lparr>mm_fault := f, mm_fault_valid := v\<rparr>) p"
| run_flush: "mmu_run phys mmu p \<Longrightarrow> mmu_run phys (oemu_mmu_flush_all mmu) p'"

lemma mmu_run_ok: "mmu_run phys mmu p \<Longrightarrow> pure_reads phys \<Longrightarrow> tlb_ok phys p mmu"
proof (induction rule: mmu_run.induct)
  case (run_init p)
  show ?case by (rule tlb_ok_empty) (simp add: oemu_mmu_init_def)
next
  case (run_translate mmu p sr va acc r mmu' p')
  then show ?case by (auto elim: translate_agrees [of phys p mmu sr va acc])
next
  case run_fault
  then show ?case by (simp add: tlb_ok_def)
next
  case (run_flush mmu p p')
  show ?case by (rule tlb_ok_empty) (simp add: oemu_mmu_flush_all_def)
qed

text \<open>
  Property C33. The translation cache may only be faster: after any run of translations, control-register
  changes, faults and flushes, a translation gives exactly the answer of a fresh table walk, the same
  physical address or the same fault record, for every address and access kind. The physical reads of
  the walk are those of plain memory: they have no side effect.
\<close>

theorem mmu_translate_parity:
  assumes "mmu_run phys mmu p" and "\<forall>p a. \<exists>q. mo_read phys p a OEMU_MEM_DWORD False = (q, p)"
  shows "\<exists>mmu'. translate sr phys va acc (mmu, p) = (fst (oemu_mmu_internal_walk sr phys va acc p), mmu', p)"
proof -
  have "pure_reads phys" using assms(2) by (simp add: pure_reads_def)
  with mmu_run_ok [OF assms(1)] show ?thesis by (auto elim: translate_agrees [of phys p mmu sr va acc])
qed

section \<open>Answers of a walk\<close>

text \<open>The permissions of a leaf: user access, no write, and the two no-execute bits.\<close>

definition allowed :: "walk_info \<Rightarrow> access \<Rightarrow> bool" where
  "allowed wi = (\<lambda>(cur, is_write, is_fetch).
     (cur = OEMU_EL0 \<and> \<not> bit (wi_ap wi) 0 \<longrightarrow> is_fetch \<and> False) \<and> (is_write \<and> \<not> is_fetch \<longrightarrow> \<not> bit (wi_ap wi) 1) \<and>
     (is_fetch \<longrightarrow> \<not> (if cur = OEMU_EL0 then wi_xn wi else wi_pxn wi)))"

definition walk_sound :: "nat \<Rightarrow> u64 \<Rightarrow> access \<Rightarrow> walk_result \<Rightarrow> bool" where
  "walk_sound out_bits va acc r = (case r of
     Inl f \<Rightarrow> fault_ok f va
   | Inr (pa, wi) \<Rightarrow> wi_walked wi \<and> drop_bit out_bits pa = 0 \<and> pa AND mask 12 = va AND mask 12 \<and> allowed wi acc)"

lemma walk_sound_fault: "oemu_mmu_internal_dfsc c l \<noteq> None \<Longrightarrow> walk_sound ob va acc (mmu_fault c l va)"
  by (simp add: walk_sound_def mmu_fault_def fault_ok_def)

lemma leaf_offset: "12 \<le> s \<Longrightarrow> leaf_addr a s va AND mask 12 = va AND mask 12"
  unfolding leaf_addr_def by (intro bit_eqI) (auto simp: bit_simps)

lemma permits_allowed:
  "oemu_mmu_internal_permits (wi_ap wi) (wi_xn wi) (wi_pxn wi) (cur = OEMU_EL0) w f \<longleftrightarrow> allowed wi (cur, w, f)"
  by (auto simp: permits_bits allowed_def)

lemma walk_leaf_sound:
  assumes "1 \<le> level" "level \<le> 3"
  shows "walk_sound out_bits va acc (walk_leaf out_bits va acc level tattrs d)"
proof -
  obtain cur w f where acc: "acc = (cur, w, f)" by (cases acc) auto
  have d: "oemu_mmu_internal_dfsc OEMU_MMU_FAULT_ACCESS_FLAG (int level) \<noteq> None"
      "oemu_mmu_internal_dfsc OEMU_MMU_FAULT_PERMISSION (int level) \<noteq> None"
    using assms dfsc_defined(2,3) [of "int level"] by simp_all
  note faults = walk_sound_fault [OF d(1), of out_bits va acc] walk_sound_fault [OF d(2), of out_bits va acc]
    walk_sound_fault [OF dfsc_defined(5), of out_bits va acc "int level"]
  have inr: "walk_sound out_bits va acc (Inr (leaf_addr a (level_shift level) va, wi))"
    if "drop_bit out_bits (leaf_addr a (level_shift level) va) = 0" "wi_walked wi"
      "oemu_mmu_internal_permits (wi_ap wi) (wi_xn wi) (wi_pxn wi) (cur = OEMU_EL0) w f" for a wi
    using that by (simp add: walk_sound_def leaf_offset level_shift_ge permits_allowed acc)
  show ?thesis unfolding acc walk_leaf_unfold Let_def using faults inr unfolding acc
    by (auto simp del: split_paired_All)
qed

lemma walk_loop_sound:
  "level \<le> 3 \<Longrightarrow> walk_sound out_bits va acc (fst (walk_loop phys out_bits va acc base level tattrs p))"
proof (induction phys out_bits va acc base level tattrs p rule: walk_loop.induct)
  case (1 phys out_bits va acc base level tattrs p)
  obtain q p' where q: "mo_read phys p (base OR oemu_mmu_internal_index va level) OEMU_MEM_DWORD False = (q, p')" by fastforce
  note unf = walk_loop.simps [of phys out_bits va acc base level tattrs p]
  have t: "oemu_mmu_internal_dfsc OEMU_MMU_FAULT_TRANSLATION (int level) \<noteq> None"
    using 1(2) by (intro dfsc_defined) auto
  note faults = walk_sound_fault [OF t, of out_bits va acc] walk_sound_fault [OF dfsc_defined(4), of out_bits va acc "-1"]
    walk_sound_fault [OF dfsc_defined(5), of out_bits va acc "int level"] walk_sound_fault [OF dfsc_defined(1) [of 0], of out_bits va acc]
  show ?case
  proof (cases q)
    case (Inl st)
    then show ?thesis using faults q by (simp add: unf)
  next
    case (Inr raw)
    note ih = 1(1) [OF q [symmetric] Inr refl]
    show ?thesis unfolding unf Let_def q Inr
      using ih faults 1(2) walk_leaf_sound [of level out_bits va acc tattrs "oemu_mmu_internal_decode raw"]
      by (cases "level = 0") auto
  qed
qed

text \<open>
  Property C34. What a walk answers: with stage 1 on and below EL3, either a physical address within the
  implemented 36 bits, at the same offset in its page, through a leaf whose merged permissions allow
  this very access at this level, or a fault whose code is defined (its level passes the check of the
  code table) and whose address is the tag-stripped input; otherwise the address itself, unchecked.
\<close>

theorem mmu_walk_sound:
  assumes "walk sr phys va acc p = (r, p')"
  shows "case r of
      Inl f \<Rightarrow> wf_far f = strip_tag (sr_tcr_el1 sr) va \<and> oemu_mmu_internal_dfsc (wf_cls f) (wf_level f) \<noteq> None
    | Inr (pa, wi) \<Rightarrow>
        if has (sr_sctlr_el1 sr) SCTLR_M \<and> fst acc < OEMU_EL3
        then uint pa < 2 ^ 36 \<and> pa AND 0xFFF = va AND 0xFFF \<and> allowed wi acc
        else pa = va"
proof (cases "translating sr acc")
  case False
  then show ?thesis using assms by (auto simp: walk_identity translating_def)
next
  case True
  let ?va = "strip_tag (sr_tcr_el1 sr) va" and ?t = "oemu_mmu_internal_use_ttbr1 va"
  have r: "r = fst (walk_tables sr phys ?t (tbi_of (sr_tcr_el1 sr) va) ?va acc p)" using assms True by (simp add: walk_translating)
  have "walk_sound (walk_out_bits (sr_tcr_el1 sr)) ?va acc r"
  proof (cases "walk_gate sr ?t (tbi_of (sr_tcr_el1 sr) va) ?va")
    case gate: True
    then have "oemu_mmu_internal_start_level (walk_inputsize (sr_tcr_el1 sr) ?t) \<le> 2"
      by (simp add: walk_gate_def start_level_bounds(3))
    then show ?thesis unfolding r by (simp add: walk_tables_pass gate walk_from_def walk_loop_sound)
  next
    case False
    then show ?thesis unfolding r by (rule walk_tables_stop [where phys = phys and acc = acc and p = p]) (simp add: walk_sound_def)
  qed
  moreover have "?va AND mask 12 = va AND mask 12" by (intro bit_eqI) (auto simp: bit_simps strip_bit)
  moreover have "uint pa < 2 ^ 36" if "drop_bit (walk_out_bits (sr_tcr_el1 sr)) pa = 0" for pa :: u64
  proof -
    have "drop_bit 36 pa = 0" using arg_cong [OF that, of "drop_bit (36 - walk_out_bits (sr_tcr_el1 sr))"] out_bits_bounds [of "sr_tcr_el1 sr"]
      by simp
    moreover have "uint (drop_bit 36 pa) = uint pa div 2 ^ 36" by (simp add: drop_bit_eq_div uint_div)
    ultimately have "uint pa div 2 ^ 36 = 0" by simp
    then show ?thesis by (auto simp: zdiv_eq_0_iff)
  qed
  ultimately show ?thesis using True by (auto simp: walk_sound_def fault_ok_def translating_def low_mask split: sum.splits)
qed

section \<open>Faults of the translated bus\<close>

definition slot :: "oemu_mmu \<times> 'p \<Rightarrow> oemu_mmu_fault \<times> bool" where
  "slot s = (mm_fault (fst s), mm_fault_valid (fst s))"

text \<open>The exception class of the abort an access raises.\<close>

definition abort_class :: "access \<Rightarrow> u32" where
  "abort_class = (\<lambda>(cur, is_write, is_fetch).
     if is_fetch then (if cur = OEMU_EL0 then 0x20 else 0x21) else (if cur = OEMU_EL0 then 0x24 else 0x25))"

definition pending :: "access \<Rightarrow> oemu_mmu \<times> 'p \<Rightarrow> bool" where
  "pending acc s \<longleftrightarrow> mm_fault_valid (fst s) \<and> drop_bit 26 (mf_esr (mm_fault (fst s))) = abort_class acc"

lemma esr_class: "drop_bit 26 (compose_esr cur is_fetch is_write cls level) = abort_class (cur, is_write, is_fetch)"
proof -
  have low: "drop_bit 26 (ucast (d :: u8) :: u32) = 0" for d by (rule bit_eqI) (auto simp: bit_simps dest: bit_imp_le_length)
  have lower: "to_lower_from cur = (cur = OEMU_EL0)" by (cases cur) (simp_all add: to_lower_from_def oemu_exc_route_def less_oemu_el_def)
  show ?thesis
    by (simp add: compose_esr_def oemu_mmu_internal_esr_def Let_def low lower abort_class_def)
qed

lemma refuse_pending: "pending acc (mmu_refuse acc cls far s)"
  by (cases s; cases acc) (simp add: pending_def mmu_refuse_def refuse_def esr_class)

lemma record_pending: "drop_bit 26 (mf_esr f) = abort_class acc \<Longrightarrow> pending acc (mmu_record f s)"
  by (cases s) (simp add: pending_def mmu_record_def record_fault_def)

lemma fault_of_class: "drop_bit 26 (mf_esr (fault_of acc w)) = abort_class acc"
  by (cases acc) (simp add: fault_of_def esr_class)

lemma slot_simps [simp]:
  "slot (snd (phys_validate phys pa n perms s)) = slot s" "slot (snd (phys_read phys pa sz s)) = slot s"
  "slot (snd (phys_write phys pa sz v s)) = slot s" "slot (snd (phys_fetch32 phys pa s)) = slot s"
  by (cases s; simp add: slot_def phys_validate_def phys_read_def phys_write_def phys_fetch32_def split: prod.splits)+

lemma lookup_slot: "tlb_lookup mmu va acc = (r, mmu') \<Longrightarrow> slot (mmu', p') = slot (mmu, p) \<and>
    (\<forall>f. r = TLB_DENIED f \<longrightarrow> drop_bit 26 (mf_esr f) = abort_class acc)"
  by (cases acc) (auto simp: tlb_lookup_def Let_def slot_def esr_class split: if_splits)

lemma translate_slot:
  assumes "translate sr phys va acc s = (r, s')"
  shows "slot s' = slot s" "r = Inl f \<Longrightarrow> drop_bit 26 (mf_esr f) = abort_class acc"
proof -
  obtain mmu p where s: "s = (mmu, p)" by fastforce
  let ?m = "tlb_epoch_check sr mmu"
  have m: "slot (?m, p) = slot s" by (simp add: s slot_def tlb_epoch_check_def Let_def oemu_mmu_flush_all_def)
  obtain served m2 where l: "(if has (sr_sctlr_el1 sr) SCTLR_M \<and> fst acc < OEMU_EL3
      then tlb_lookup ?m (strip_tag (sr_tcr_el1 sr) va) acc else (TLB_MISS, ?m)) = (served, m2)" by fastforce
  then have m2: "slot (m2, p) = slot s" "\<And>f. served = TLB_DENIED f \<Longrightarrow> drop_bit 26 (mf_esr f) = abort_class acc"
    using lookup_slot [of ?m "strip_tag (sr_tcr_el1 sr) va" acc served m2 p p] m by (auto split: if_splits)
  show "slot s' = slot s" "r = Inl f \<Longrightarrow> drop_bit 26 (mf_esr f) = abort_class acc"
    using assms m2 unfolding s translate_def Let_def prod.case l
    by (auto simp: slot_def tlb_fill_def Let_def fault_of_class split: tlb_served.splits prod.splits sum.splits if_splits)
qed

lemma split_check_slot:
  "split_check f0 sr phys va acc is s = (r, s') \<Longrightarrow> snd (snd acc) = False \<Longrightarrow>
   slot s' = slot s \<and> (\<forall>f. r = Some f \<longrightarrow> drop_bit 26 (mf_esr f) = abort_class acc)"
proof (induction "is" arbitrary: s)
  case (Cons i js)
  obtain q s1 where t: "translate sr phys (va + of_nat i) acc s = (q, s1)" by (metis prod.collapse)
  note ts = translate_slot [OF t]
  show ?case
  proof (cases q)
    case (Inl f)
    then show ?thesis using Cons.prems t ts by auto
  next
    case (Inr pa)
    obtain st s2 where v: "phys_validate phys pa 1 (if fst (snd acc) then OEMU_PERM_WRITE else OEMU_PERM_READ) s1 = (st, s2)" by (metis prod.collapse)
    have "slot s2 = slot s" using slot_simps(1) [of phys pa 1 "if fst (snd acc) then OEMU_PERM_WRITE else OEMU_PERM_READ" s1] v ts(1) by simp
    moreover have "drop_bit 26 (compose_esr (fst acc) False (fst (snd acc)) cls l) = abort_class acc" for cls l
      using Cons.prems(2) esr_class [of "fst acc" False "fst (snd acc)" cls l] by (metis prod.collapse)
    ultimately show ?thesis using Cons.prems t Inr v Cons.IH [of s2] by (cases "st = OEMU_OK") auto
  qed
qed simp

text \<open>An access either fails with its fault recorded, or leaves the slot as it was.\<close>

definition reports :: "access \<Rightarrow> bool \<Rightarrow> oemu_mmu \<times> 'p \<Rightarrow> oemu_mmu \<times> 'p \<Rightarrow> bool" where
  "reports acc failed s s' \<longleftrightarrow> (if failed then pending acc s' else slot s' = slot s)"

lemma reports_slot: "slot s1 = slot s \<Longrightarrow> reports acc b s1 s' = reports acc b s s'"
  by (simp add: reports_def)

lemma reports_refuse [simp]: "reports acc True s (mmu_refuse acc cls far s1)"
  by (simp add: reports_def refuse_pending)

lemma reports_record: "translate sr phys va acc s = (Inl f, s1) \<Longrightarrow> reports acc True s' (mmu_record f s1)"
  by (simp add: reports_def record_pending translate_slot(2) [OF _ refl])

lemma phys_slot:
  "phys_validate phys pa n perms s = (st, s') \<Longrightarrow> slot s' = slot s"
  "phys_read phys pa sz s = (q, s') \<Longrightarrow> slot s' = slot s"
  "phys_write phys pa sz v s = (st, s') \<Longrightarrow> slot s' = slot s"
  "phys_fetch32 phys pa s = (w, s') \<Longrightarrow> slot s' = slot s"
  using slot_simps by (metis snd_conv)+

lemma translate_or_zero_slot: "translate_or_zero sr phys va acc s = (pa, s') \<Longrightarrow> slot s' = slot s"
  by (auto simp: translate_or_zero_def dest: translate_slot split: sum.splits prod.splits)

lemma read_bytes_reports:
  "read_bytes sr phys va acc is v s = (r, s') \<Longrightarrow> reports acc (r = None) s s'"
  by (induction "is" arbitrary: v s) (auto simp: reports_def refuse_pending dest!: phys_slot translate_or_zero_slot split: prod.splits sum.splits)

lemma write_bytes_reports:
  "write_bytes sr phys va acc is v s = (st, s') \<Longrightarrow> st \<in> {OEMU_OK, OEMU_ERR_FAULT} \<and> reports acc (st \<noteq> OEMU_OK) s s'"
  by (induction "is" arbitrary: s) (auto simp: reports_def refuse_pending dest!: phys_slot translate_or_zero_slot split: prod.splits if_splits)

lemma validate_loop_reports:
  "validate_loop sr phys va n perms acc off s = (st, s') \<Longrightarrow> st \<in> {OEMU_OK, OEMU_ERR_FAULT} \<and> reports acc (st \<noteq> OEMU_OK) s s'"
proof (induction sr phys va n perms acc off s rule: validate_loop.induct)
  case (1 sr phys va n perms acc off s)
  obtain q s1 where t: "translate sr phys (va + off) acc s = (q, s1)" by (metis prod.collapse)
  show ?case
  proof (cases "off < n")
    case True
    show ?thesis
    proof (cases q)
      case (Inl f)
      then have "st = OEMU_ERR_FAULT" "s' = mmu_record f s1"
        using 1(2) t True by (auto simp: validate_loop.simps [of sr phys va n perms acc off s])
      then show ?thesis using reports_record t Inl by simp
    next
      case (Inr pa)
      obtain st1 s2 where v: "phys_validate phys pa (ucast (ucast (probe_chunk va n off) :: u32)) perms s1 = (st1, s2)" by (metis prod.collapse)
      have sl: "slot s2 = slot s" using phys_slot(1) [OF v] translate_slot(1) [OF t] by simp
      show ?thesis
      proof (cases "st1 = OEMU_OK")
        case ok: True
        then have "validate_loop sr phys va n perms acc (off + probe_chunk va n off) s2 = (st, s')"
          using 1(2) t Inr v True by (simp add: validate_loop.simps [of sr phys va n perms acc off s])
        with 1(1) [OF _ t [symmetric] Inr v [symmetric]] True ok show ?thesis by (simp add: reports_slot [OF sl])
      next
        case False
        then show ?thesis using 1(2) t Inr v True by (auto simp: validate_loop.simps [of sr phys va n perms acc off s])
      qed
    qed
  next
    case False
    then show ?thesis using 1(2) by (auto simp: reports_def validate_loop.simps [of sr phys va n perms acc off s])
  qed
qed

lemma mmu_fetch32_reports:
  assumes "mmu_fetch32 sr phys s va = (q, s')"
  shows "reports (mmu_access sr False True) (\<exists>st. q = Inl st) s s' \<and> (\<forall>st. q = Inl st \<longrightarrow> st = OEMU_ERR_FAULT)"
proof -
  let ?acc = "mmu_access sr False True"
  obtain r s1 where t: "translate sr phys va ?acc s = (r, s1)" by (metis prod.collapse)
  show ?thesis
  proof (cases r)
    case (Inl f)
    then show ?thesis using assms t by (auto simp: mmu_fetch32_def Let_def intro: reports_record)
  next
    case (Inr pa)
    obtain st s2 where v: "phys_validate phys pa 4 OEMU_PERM_EXEC s1 = (st, s2)" by (metis prod.collapse)
    obtain w s3 where f: "phys_fetch32 phys pa s2 = (w, s3)" by (metis prod.collapse)
    have sl: "slot s2 = slot s" "slot s3 = slot s" using phys_slot(1) [OF v] phys_slot(4) [OF f] translate_slot(1) [OF t] by simp_all
    show ?thesis using assms t Inr v f sl
      by (cases "st = OEMU_OK"; cases w) (auto simp: mmu_fetch32_def Let_def reports_def refuse_pending)
  qed
qed

lemma mmu_read_reports:
  assumes "mmu_read f0 sr phys s va sz sx = (q, s')"
  shows "reports (mmu_access sr False False) (\<exists>st. q = Inl st) s s' \<and> (\<forall>st. q = Inl st \<longrightarrow> st = OEMU_ERR_FAULT)"
proof -
  let ?acc = "mmu_access sr False False" and ?is = "[0..<2 ^ mem_size_val sz]"
  obtain r s1 where t: "translate sr phys va ?acc s = (r, s1)" by (metis prod.collapse)
  show ?thesis
  proof (cases r)
    case (Inl f)
    then show ?thesis using assms t by (auto simp: mmu_read_def Let_def intro: reports_record)
  next
    case (Inr pa)
    note unf = mmu_read_def Let_def t Inr
    have s1: "slot s1 = slot s" by (rule translate_slot(1) [OF t])
    show ?thesis
    proof (cases "misaligned va sz")
      case True
      obtain c s2 where c: "split_check f0 sr phys va ?acc ?is s1 = (c, s2)" by (metis prod.collapse)
      obtain b s3 where b: "read_bytes sr phys va ?acc ?is 0 s2 = (b, s3)" by (metis prod.collapse)
      have sc: "slot s2 = slot s1" "\<And>f. c = Some f \<Longrightarrow> pending ?acc (mmu_record f s2)"
        using split_check_slot [OF c] by (auto simp: mmu_access_def intro: record_pending)
      note rb = read_bytes_reports [OF b]
      show ?thesis using assms s1 sc rb True
        by (cases "oemu_mmu_internal_alignment_required sr (fst ?acc = OEMU_EL0)"; cases c; cases b)
          (auto simp: unf c b reports_def refuse_pending)
    next
      case False
      obtain st s2 where v: "phys_validate phys pa (transfer_bytes sz) OEMU_PERM_READ s1 = (st, s2)" by (metis prod.collapse)
      obtain w s3 where f: "phys_read phys pa sz s2 = (w, s3)" by (metis prod.collapse)
      have "slot s2 = slot s" "slot s3 = slot s" using phys_slot(1) [OF v] phys_slot(2) [OF f] s1 by simp_all
      then show ?thesis using assms False by (cases "st = OEMU_OK"; cases w) (auto simp: unf v f reports_def refuse_pending)
    qed
  qed
qed

lemma mmu_write_reports:
  assumes "mmu_write f0 sr phys s va sz v = (st', s')"
  shows "reports (mmu_access sr True False) (st' \<noteq> OEMU_OK) s s' \<and> st' \<in> {OEMU_OK, OEMU_ERR_FAULT}"
proof -
  let ?acc = "mmu_access sr True False" and ?is = "[0..<2 ^ mem_size_val sz]"
  obtain r s1 where t: "translate sr phys va ?acc s = (r, s1)" by (metis prod.collapse)
  show ?thesis
  proof (cases r)
    case (Inl f)
    then show ?thesis using assms t by (auto simp: mmu_write_def Let_def intro: reports_record)
  next
    case (Inr pa)
    note unf = mmu_write_def Let_def t Inr
    have s1: "slot s1 = slot s" by (rule translate_slot(1) [OF t])
    show ?thesis
    proof (cases "misaligned va sz")
      case True
      obtain c s2 where c: "split_check f0 sr phys va ?acc ?is s1 = (c, s2)" by (metis prod.collapse)
      obtain b s3 where b: "write_bytes sr phys va ?acc ?is v s2 = (b, s3)" by (metis prod.collapse)
      have sc: "slot s2 = slot s1" "\<And>f. c = Some f \<Longrightarrow> pending ?acc (mmu_record f s2)"
        using split_check_slot [OF c] by (auto simp: mmu_access_def intro: record_pending)
      note wb = write_bytes_reports [OF b]
      show ?thesis using assms s1 sc wb True
        by (cases "oemu_mmu_internal_alignment_required sr (fst ?acc = OEMU_EL0)"; cases c)
          (auto simp: unf c b reports_def refuse_pending)
    next
      case False
      obtain st s2 where v: "phys_validate phys pa (transfer_bytes sz) OEMU_PERM_WRITE s1 = (st, s2)" by (metis prod.collapse)
      obtain w s3 where f: "phys_write phys pa sz v s2 = (w, s3)" by (metis prod.collapse)
      have "slot s2 = slot s" "slot s3 = slot s" using phys_slot(1) [OF v] phys_slot(3) [OF f] s1 by simp_all
      then show ?thesis using assms False
        by (cases "st = OEMU_OK"; cases "w = OEMU_OK") (auto simp: unf v f reports_def refuse_pending)
    qed
  qed
qed

lemma mmu_validate_reports:
  "mmu_validate sr phys s va n perms = (st, s') \<Longrightarrow> st \<in> {OEMU_OK, OEMU_ERR_FAULT} \<and>
     reports (mmu_access sr (perms AND OEMU_PERM_WRITE \<noteq> 0) (perms AND OEMU_PERM_EXEC \<noteq> 0)) (st \<noteq> OEMU_OK) s s'"
  by (cases "n = 0") (auto simp: mmu_validate_def reports_def dest!: validate_loop_reports)

text \<open>
  Property C35. Faults of the translated bus are never lost: every fetch, read, write and probe either
  succeeds and leaves the fault slot alone, or returns the fault status with a record pending whose
  exception class is the abort of this access, instruction or data, from EL0 or from the same level.
\<close>

theorem mmu_fault_recorded:
  assumes "cur = oemu_pstate_el (sr_pstate sr)" and "is_write = (perms AND OEMU_PERM_WRITE \<noteq> 0)"
    and "is_fetch = (perms AND OEMU_PERM_EXEC \<noteq> 0)"
  shows "(case mmu_fetch32 sr phys s va of
       (Inl st, s') \<Rightarrow> st = OEMU_ERR_FAULT \<and> pending (cur, False, True) s' | (Inr w, s') \<Rightarrow> slot s' = slot s) \<and>
    (case mmu_read f0 sr phys s va sz sx of
       (Inl st, s') \<Rightarrow> st = OEMU_ERR_FAULT \<and> pending (cur, False, False) s' | (Inr v, s') \<Rightarrow> slot s' = slot s) \<and>
    (case mmu_write f0 sr phys s va sz v of
       (st, s') \<Rightarrow> st \<in> {OEMU_OK, OEMU_ERR_FAULT} \<and> (if st \<noteq> OEMU_OK then pending (cur, True, False) s' else slot s' = slot s)) \<and>
    (case mmu_validate sr phys s va n perms of
       (st, s') \<Rightarrow> st \<in> {OEMU_OK, OEMU_ERR_FAULT} \<and> (if st \<noteq> OEMU_OK then pending (cur, is_write, is_fetch) s' else slot s' = slot s))"
proof (intro conjI)
  note acc = mmu_access_def assms(1) [symmetric] reports_def
  obtain q s1 where 1: "mmu_fetch32 sr phys s va = (q, s1)" by (metis prod.collapse)
  then show "case mmu_fetch32 sr phys s va of
      (Inl st, s') \<Rightarrow> st = OEMU_ERR_FAULT \<and> pending (cur, False, True) s' | (Inr w, s') \<Rightarrow> slot s' = slot s"
    using mmu_fetch32_reports [OF 1] by (cases q) (simp_all add: acc)
  obtain r s2 where 2: "mmu_read f0 sr phys s va sz sx = (r, s2)" by (metis prod.collapse)
  then show "case mmu_read f0 sr phys s va sz sx of
      (Inl st, s') \<Rightarrow> st = OEMU_ERR_FAULT \<and> pending (cur, False, False) s' | (Inr v, s') \<Rightarrow> slot s' = slot s"
    using mmu_read_reports [OF 2] by (cases r) (simp_all add: acc)
  obtain st3 s3 where 3: "mmu_write f0 sr phys s va sz v = (st3, s3)" by (metis prod.collapse)
  then show "case mmu_write f0 sr phys s va sz v of
       (st, s') \<Rightarrow> st \<in> {OEMU_OK, OEMU_ERR_FAULT} \<and> (if st \<noteq> OEMU_OK then pending (cur, True, False) s' else slot s' = slot s)"
    using mmu_write_reports [OF 3] by (auto simp add: acc)
  obtain st4 s4 where 4: "mmu_validate sr phys s va n perms = (st4, s4)" by (metis prod.collapse)
  then show "case mmu_validate sr phys s va n perms of
       (st, s') \<Rightarrow> st \<in> {OEMU_OK, OEMU_ERR_FAULT} \<and> (if st \<noteq> OEMU_OK then pending (cur, is_write, is_fetch) s' else slot s' = slot s)"
    using mmu_validate_reports [OF 4] unfolding assms(2,3) by (auto simp add: acc)
qed

section \<open>A page table\<close>

text \<open>
  A physical bus of plain words holding a three-level table: TCR_EL1 of 39-bit halves, a level-1 table
  at 0x1000, level 2 at 0x2000, level 3 at 0x3000, and a user-readable page for 0x40201000.
\<close>

definition table_bus :: "(u64 \<Rightarrow> u64) oemu_memops" where
  "table_bus = \<lparr>mo_fetch32 = (\<lambda>m a. (Inr (ucast (m a)), m)), mo_read = (\<lambda>m a sz sx. (Inr (m a), m)),
     mo_write = (\<lambda>m a sz v. (OEMU_OK, m(a := v))), mo_validate = (\<lambda>m a n p. (OEMU_OK, m))\<rparr>"

definition sample_tables :: "u64 \<Rightarrow> u64" where
  "sample_tables = (\<lambda>_. 0)(0x1008 := 0x2003, 0x2008 := 0x3003, 0x3008 := 0x800004C3)"

definition sample_regs :: oemu_sysregs where
  "sample_regs = el1_sysregs\<lparr>sr_sctlr_el1 := 1, sr_tcr_el1 := 0x00190019, sr_ttbr0_el1 := 0x1000\<rparr>"

lemma table_bus_pure: "\<forall>p a. \<exists>q. mo_read table_bus p a OEMU_MEM_DWORD False = (q, p)"
  by (simp add: table_bus_def)

lemmas sample_defs [sample_eval] = sample_regs_def el1_sysregs_def zero_sysregs_def sample_tables_def table_bus_def

lemma sample_controls:
  "walk_out_bits (sr_tcr_el1 sample_regs) = 32" "walk_inputsize (sr_tcr_el1 sample_regs) False = 39"
  "walk_base sample_regs False = 0x1000" "tbi_of (sr_tcr_el1 sample_regs) 0x40201234 = False"
  "has (sr_sctlr_el1 sample_regs) SCTLR_M" "\<not> has (sr_tcr_el1 sample_regs) TCR_EPD0"
  "oemu_mmu_internal_use_ttbr1 0x40201234 = False"
  by (simp_all add: sample_eval walk_out_bits_def walk_inputsize_def walk_base_def TCR_PS_def TCR_T0SZ_def g_pamax_map_def tbi_of_def
      has_def oemu_mmu_internal_use_ttbr1_def)

definition sample_info :: walk_info where
  "sample_info = \<lparr>wi_walked = True, wi_level = 3, wi_ap = 3, wi_xn = False, wi_pxn = False, wi_ng = False\<rparr>"

lemma sample_walk:
  "walk sample_regs table_bus 0x40201234 (OEMU_EL0, False, False) sample_tables = (Inr (0x80000234, sample_info), sample_tables)"
proof -
  have r: "mo_read table_bus sample_tables a sz sx = (Inr (sample_tables a), sample_tables)" for a sz sx
    by (simp add: table_bus_def)
  have st: "sample_tables 0x1008 = 0x2003" "sample_tables 0x2008 = 0x3003" "sample_tables 0x3008 = 0x800004C3"
    by (simp_all add: sample_tables_def)
  note step = r st Let_def oemu_mmu_internal_index_def level_shift_def oemu_mmu_internal_decode_def has_def oemu_mmu_internal_table_attrs_def
  have w3: "walk_loop table_bus 32 0x40201234 (OEMU_EL0, False, False) 0x3000 3 0 sample_tables = (Inr (0x80000234, sample_info), sample_tables)"
    by (simp add: walk_loop.simps [of _ _ _ _ _ 3] step walk_leaf_def oemu_mmu_internal_permits_def sample_info_def)
  have w2: "walk_loop table_bus 32 0x40201234 (OEMU_EL0, False, False) 0x2000 2 0 sample_tables = (Inr (0x80000234, sample_info), sample_tables)"
    by (simp add: walk_loop.simps [of _ _ _ _ _ 2] step w3)
  have w1: "walk_loop table_bus 32 0x40201234 (OEMU_EL0, False, False) 0x1000 1 0 sample_tables = (Inr (0x80000234, sample_info), sample_tables)"
    by (simp add: walk_loop.simps [of _ _ _ _ _ "Suc 0"] step w2 [unfolded numeral_2_eq_2])
  show ?thesis
    using w1 by (simp add: walk_def walk_tables_def sample_controls strip_tag_def oemu_mmu_internal_start_level_def
        oemu_mmu_internal_region_ok_def less_eq_oemu_el_def)
qed

theorem mmu_translate_parity_witness:
  "\<exists>mmu'. translate sample_regs table_bus 0x40201234 (OEMU_EL0, False, False)
      (fst (snd (translate sample_regs table_bus 0x40201234 (OEMU_EL0, True, False) (oemu_mmu_init, sample_tables))), sample_tables) =
    (Inr 0x80000234, mmu', sample_tables)"
proof -
  let ?acc = "(OEMU_EL0, True, False)"
  obtain m where m: "translate sample_regs table_bus 0x40201234 ?acc (oemu_mmu_init, sample_tables) =
      (fst (oemu_mmu_internal_walk sample_regs table_bus 0x40201234 ?acc sample_tables), m, sample_tables)"
    using mmu_translate_parity [OF run_init table_bus_pure] by blast
  have "mmu_run table_bus m sample_tables" using m by (rule run_translate [OF run_init])
  from mmu_translate_parity [OF this table_bus_pure, of sample_regs "0x40201234" "(OEMU_EL0, False, False)"] m
  show ?thesis by (simp add: oemu_mmu_internal_walk_def sample_walk)
qed

theorem mmu_walk_sound_witness:
  "uint (0x80000234 :: u64) < 2 ^ 36 \<and> (0x80000234 :: u64) AND 0xFFF = 0x40201234 AND 0xFFF \<and> allowed sample_info (OEMU_EL0, False, False)"
  using mmu_walk_sound [OF sample_walk] sample_controls(5) by (simp add: less_oemu_el_def)

lemma sample_fetch: "fst (mmu_fetch32 sample_regs table_bus (oemu_mmu_init, \<lambda>_. 0) 0x5000) = Inl OEMU_ERR_FAULT"
proof -
  have "walk_loop table_bus 32 0x5000 acc 0x1000 (Suc 0) 0 (\<lambda>_. 0) = (mmu_fault OEMU_MMU_FAULT_TRANSLATION 1 0x5000, \<lambda>_. 0)" for acc
    by (simp add: walk_loop.simps [of _ _ _ _ _ "Suc 0"] table_bus_def Let_def oemu_mmu_internal_decode_def has_def)
  then have w: "fst (walk sample_regs table_bus 0x5000 acc (\<lambda>_. 0)) = mmu_fault OEMU_MMU_FAULT_TRANSLATION 1 0x5000" if "fst acc = OEMU_EL1" for acc
    using sample_controls(1-3,5,6) that by (simp add: walk_def walk_tables_def strip_tag_def oemu_mmu_internal_start_level_def
        oemu_mmu_internal_region_ok_def less_eq_oemu_el_def tbi_of_def oemu_mmu_internal_use_ttbr1_def has_def sample_regs_def)
  have el: "mmu_access sample_regs False True = (OEMU_EL1, False, True)"
    by (simp add: mmu_access_def sample_eval oemu_pstate_el_def)
  obtain m where "translate sample_regs table_bus 0x5000 (OEMU_EL1, False, True) (oemu_mmu_init, \<lambda>_. 0) =
      (fst (oemu_mmu_internal_walk sample_regs table_bus 0x5000 (OEMU_EL1, False, True) (\<lambda>_. 0)), m, \<lambda>_. 0)"
    by (rule translate_agrees [of table_bus "\<lambda>_. 0" oemu_mmu_init])
      (use table_bus_pure in \<open>auto simp: pure_reads_def oemu_mmu_init_def intro!: tlb_ok_empty\<close>)
  then show ?thesis using w [of "(OEMU_EL1, False, True)"]
    by (simp add: mmu_fetch32_def el oemu_mmu_internal_walk_def mmu_fault_def split_beta split: sum.splits)
qed

theorem mmu_fault_recorded_witness:
  "pending (OEMU_EL1, False, True) (snd (mmu_fetch32 sample_regs table_bus (oemu_mmu_init, \<lambda>_. 0) 0x5000))"
proof -
  have "oemu_pstate_el (sr_pstate sample_regs) = OEMU_EL1" by (simp add: sample_eval oemu_pstate_el_def)
  with mmu_fault_recorded [where cur = OEMU_EL1 and sr = sample_regs and phys = table_bus and s = "(oemu_mmu_init, \<lambda>_. 0)"
      and va = "0x5000" and perms = 0 and is_write = False and is_fetch = False] sample_fetch
  show ?thesis by (cases "mmu_fetch32 sample_regs table_bus (oemu_mmu_init, \<lambda>_. 0) 0x5000") auto
qed

section \<open>Two limits\<close>

text \<open>
  In a TTBR1 half of 36 bits the level-1 table has 64 entries; the index is nevertheless taken from nine
  address bits, of which the three above the region are ones, so every walk reads beyond the table.
\<close>

lemma ttbr1_index_beyond_table:
  "walk_inputsize 0x001C0000 True = 36" "oemu_mmu_internal_start_level 36 = 1"
  "oemu_mmu_internal_region_ok 0xFFFFFFF000000000 36 64 True" "oemu_mmu_internal_index 0xFFFFFFF000000000 1 = 8 * 448"
  by (simp_all add: walk_inputsize_def TCR_T1SZ_def oemu_mmu_internal_start_level_def oemu_mmu_internal_region_ok_def
      oemu_mmu_internal_index_def level_shift_def Let_def)

text \<open>
  A misaligned access under the alignment check is accepted by the probe, which knows no alignment, and
  refused by the read itself.
\<close>

lemma misaligned_validated_then_refused:
  assumes "translate sr phys va (mmu_access sr False False) s = (Inr pa, s1)" and "phys_validate phys pa 4 OEMU_PERM_READ s1 = (OEMU_OK, s2)"
    and "va = 0x1001" and "oemu_mmu_internal_alignment_required sr (fst (mmu_access sr False False) = OEMU_EL0)"
  shows "fst (mmu_validate sr phys s va 4 OEMU_PERM_READ) = OEMU_OK \<and> fst (mmu_read f0 sr phys s va OEMU_MEM_WORD False) = Inl OEMU_ERR_FAULT"
  using assms by (simp add: mmu_validate_def validate_loop.simps [of _ _ _ 4] probe_chunk_def mmu_read_def misaligned_def)

end
