(* ===== verification/Oemu_Aspace.thy ===== *)
theory Oemu_Aspace
  imports Oemu_Device Oemu_Memory
begin

text \<open>
  The physical address space of the machine (\<^verbatim>\<open>src/aspace/aspace.c\<close>): a region table in which a region
  is RAM, answered from host memory, or a device, answered through its operations. The state is the
  table, host memory as in the flat-memory theory, and the state \<^typ>\<open>'d\<close> that the attached devices
  share. The lemmas relate RAM accesses to flat memory, whose lookup and byte order the C code
  repeats, and say when a device is called and with what.
\<close>

section \<open>The region table\<close>

datatype oemu_region_kind = OEMU_REGION_RAM | OEMU_REGION_DEVICE

record 'd oemu_aspace_region =
  ar_pa :: u64
  ar_size :: u64
  ar_perms :: u32
  ar_kind :: oemu_region_kind
  ar_host :: u64
  ar_owned :: bool
  ar_ops :: "'d oemu_device_ops option"

record 'd oemu_aspace =
  as_table :: "u64 option"
  as_regions :: "'d oemu_aspace_region list"
  as_capacity :: nat

type_synonym 'd space = "'d oemu_aspace \<times> heap \<times> 'd"

primrec size_to_bytes :: "oemu_mem_size \<Rightarrow> nat" where
  "size_to_bytes OEMU_MEM_BYTE = 1"
| "size_to_bytes OEMU_MEM_HALF = 2"
| "size_to_bytes OEMU_MEM_WORD = 4"
| "size_to_bytes OEMU_MEM_DWORD = 8"
| "size_to_bytes OEMU_MEM_128 = 16"

definition extend :: "u64 \<Rightarrow> nat \<Rightarrow> bool \<Rightarrow> u64" where
  "extend value nbytes sign_extend =
     (if nbytes < 8
      then let m = push_bit (nbytes * 8) 1 - 1;
               value = value AND m
           in if sign_extend \<and> value AND push_bit (nbytes * 8 - 1) 1 \<noteq> 0 then value OR NOT m else value
      else value)"

definition region_test_as :: "'d oemu_aspace_region \<Rightarrow> u64 \<Rightarrow> u64 \<Rightarrow> u32 \<Rightarrow> bool" where
  "region_test_as r pa sz perms \<longleftrightarrow>
     pa \<ge> ar_pa r \<and> pa - ar_pa r \<le> ar_size r - 1 \<and> ar_size r - (pa - ar_pa r) \<ge> sz \<and> ar_perms r AND perms = perms"

definition oemu_aspace_internal_find ::
  "'d oemu_aspace \<Rightarrow> u64 \<Rightarrow> u64 \<Rightarrow> u32 \<Rightarrow> 'd oemu_aspace_region option" where
  "oemu_aspace_internal_find as pa sz perms =
     (if sz = 0 then None else List.find (\<lambda>r. region_test_as r pa sz perms) (as_regions as))"

definition oemu_aspace_internal_ranges_overlap :: "u64 \<Rightarrow> u64 \<Rightarrow> u64 \<Rightarrow> u64 \<Rightarrow> bool" where
  "oemu_aspace_internal_ranges_overlap a a_size b b_size = (if a \<le> b then b - a < a_size else a - b < b_size)"

definition oemu_aspace_internal_check_map_args :: "u64 \<Rightarrow> u64 \<Rightarrow> u32 \<Rightarrow> oemu_status" where
  "oemu_aspace_internal_check_map_args pa sz perms =
     (if sz = 0 \<or> perms = 0 then OEMU_ERR_INVALID_ARG
      else if sz - 1 > 0xFFFFFFFFFFFFFFFF - pa then OEMU_ERR_OVERFLOW
      else OEMU_OK)"

definition oemu_aspace_internal_disassemble :: "u8 list \<Rightarrow> nat \<Rightarrow> u64" where
  "oemu_aspace_internal_disassemble src nbytes =
     fold (\<lambda>i value. value OR push_bit (i * 8) (ucast (src ! i))) [0..<nbytes] 0"

definition oemu_aspace_internal_assemble :: "nat \<Rightarrow> u64 \<Rightarrow> u8 list" where
  "oemu_aspace_internal_assemble nbytes value = map (\<lambda>i. ucast (drop_bit (i * 8) value)) [0..<nbytes]"

definition check_room :: "'d oemu_aspace \<Rightarrow> u64 \<Rightarrow> u64 \<Rightarrow> oemu_status" where
  "check_room as pa sz =
     (if \<exists>r \<in> set (as_regions as). oemu_aspace_internal_ranges_overlap pa sz (ar_pa r) (ar_size r) then OEMU_ERR_RANGE
      else if length (as_regions as) = as_capacity as then OEMU_ERR_RANGE
      else OEMU_OK)"

definition map_common :: "'d oemu_aspace \<Rightarrow> u64 \<Rightarrow> u64 \<Rightarrow> u32 \<Rightarrow> oemu_status" where
  "map_common as pa sz perms =
     (let st = oemu_aspace_internal_check_map_args pa sz perms
      in if st \<noteq> OEMU_OK then st else check_room as pa sz)"

text \<open>\<open>table\<close> and \<open>block\<close> are what the allocator returns.\<close>

definition oemu_aspace_init :: "u64 option \<Rightarrow> nat \<Rightarrow> 'd oemu_aspace \<Rightarrow> oemu_status \<times> 'd oemu_aspace" where
  "oemu_aspace_init table region_capacity as =
     (if region_capacity = 0 then (OEMU_ERR_INVALID_ARG, as)
      else case table of
        None \<Rightarrow> (OEMU_ERR_NO_MEMORY, \<lparr>as_table = None, as_regions = [], as_capacity = 0\<rparr>)
      | Some t \<Rightarrow> (OEMU_OK, \<lparr>as_table = Some t, as_regions = [], as_capacity = region_capacity\<rparr>))"

definition oemu_aspace_dispose :: "'d oemu_aspace \<Rightarrow> u64 list \<times> 'd oemu_aspace" where
  "oemu_aspace_dispose as =
     ((case as_table as of
         None \<Rightarrow> []
       | Some t \<Rightarrow> map ar_host (filter (\<lambda>r. ar_kind r = OEMU_REGION_RAM \<and> ar_owned r) (as_regions as)) @ [t]),
      \<lparr>as_table = None, as_regions = [], as_capacity = 0\<rparr>)"

definition add_region :: "'d oemu_aspace \<Rightarrow> 'd oemu_aspace_region \<Rightarrow> 'd oemu_aspace" where
  "add_region as r = as\<lparr>as_regions := as_regions as @ [r]\<rparr>"

text \<open>The backing pointer a caller may ask for is the block itself.\<close>

definition oemu_aspace_map_ram :: "u64 option \<Rightarrow> 'd space \<Rightarrow> u64 \<Rightarrow> u64 \<Rightarrow> u32 \<Rightarrow> oemu_status \<times> 'd space" where
  "oemu_aspace_map_ram block = (\<lambda>(as, h, d) pa sz perms.
     if as_table as = None then (OEMU_ERR_INVALID_ARG, (as, h, d))
     else let st = map_common as pa sz perms
     in if st \<noteq> OEMU_OK then (st, (as, h, d))
     else case block of
       None \<Rightarrow> (OEMU_ERR_NO_MEMORY, (as, h, d))
     | Some img \<Rightarrow>
         (OEMU_OK, (add_region as \<lparr>ar_pa = pa, ar_size = sz, ar_perms = perms, ar_kind = OEMU_REGION_RAM,
            ar_host = img, ar_owned = True, ar_ops = None\<rparr>, memset_zero h img sz, d)))"

definition oemu_aspace_map_ram_alias :: "'d space \<Rightarrow> u64 \<Rightarrow> u64 \<Rightarrow> u64 \<Rightarrow> u32 \<Rightarrow> oemu_status \<times> 'd space" where
  "oemu_aspace_map_ram_alias = (\<lambda>(as, h, d) pa host sz perms.
     if as_table as = None \<or> host = 0 then (OEMU_ERR_INVALID_ARG, (as, h, d))
     else let st = map_common as pa sz perms
     in if st \<noteq> OEMU_OK then (st, (as, h, d))
     else (OEMU_OK, (add_region as \<lparr>ar_pa = pa, ar_size = sz, ar_perms = perms, ar_kind = OEMU_REGION_RAM,
            ar_host = host, ar_owned = False, ar_ops = None\<rparr>, h, d)))"

definition oemu_aspace_attach_device ::
  "'d space \<Rightarrow> u64 \<Rightarrow> u64 \<Rightarrow> 'd oemu_device_ops option \<Rightarrow> oemu_status \<times> 'd space" where
  "oemu_aspace_attach_device = (\<lambda>(as, h, d) pa sz ops.
     if as_table as = None \<or> ops = None then (OEMU_ERR_INVALID_ARG, (as, h, d))
     else if sz = 0 \<or> sz AND (sz - 1) \<noteq> 0 \<or> pa mod sz \<noteq> 0 then (OEMU_ERR_INVALID_ARG, (as, h, d))
     else let st = map_common as pa sz (OEMU_PERM_READ OR OEMU_PERM_WRITE)
     in if st \<noteq> OEMU_OK then (st, (as, h, d))
     else (OEMU_OK, (add_region as \<lparr>ar_pa = pa, ar_size = sz, ar_perms = OEMU_PERM_READ OR OEMU_PERM_WRITE,
            ar_kind = OEMU_REGION_DEVICE, ar_host = 0, ar_owned = False, ar_ops = ops\<rparr>, h, d)))"

section \<open>Access\<close>

definition oemu_aspace_validate :: "'d oemu_aspace \<Rightarrow> u64 \<Rightarrow> u64 \<Rightarrow> u32 \<Rightarrow> oemu_status" where
  "oemu_aspace_validate as pa sz perms =
     (if as_table as = None \<or> sz = 0 then OEMU_ERR_INVALID_ARG
      else if oemu_aspace_internal_find as pa sz perms \<noteq> None then OEMU_OK else OEMU_ERR_FAULT)"

text \<open>A device region always carries its operations; a table entry of kind device without them does
  not arise (\<^verbatim>\<open>attach_device\<close> refuses a null table), and the model answers it with a fault.\<close>

definition oemu_aspace_read :: "'d space \<Rightarrow> u64 \<Rightarrow> oemu_mem_size \<Rightarrow> bool \<Rightarrow> (oemu_status + u64) \<times> 'd space" where
  "oemu_aspace_read = (\<lambda>(as, h, d) pa sz sign_extend.
     if as_table as = None then (Inl OEMU_ERR_INVALID_ARG, (as, h, d))
     else let nbytes = size_to_bytes sz
     in case oemu_aspace_internal_find as pa (of_nat nbytes) OEMU_PERM_READ of
          None \<Rightarrow> (Inl OEMU_ERR_FAULT, (as, h, d))
        | Some r \<Rightarrow>
            let offset = pa - ar_pa r
            in (case (ar_kind r, ar_ops r) of
                  (OEMU_REGION_DEVICE, Some ops) \<Rightarrow>
                    if pa mod of_nat nbytes \<noteq> 0 then (Inl OEMU_ERR_FAULT, (as, h, d))
                    else (case dv_read ops d offset sz of
                            (Inl st, d') \<Rightarrow> (Inl st, (as, h, d'))
                          | (Inr value, d') \<Rightarrow> (Inr (extend value nbytes sign_extend), (as, h, d')))
                | (OEMU_REGION_DEVICE, None) \<Rightarrow> (Inl OEMU_ERR_FAULT, (as, h, d))
                | (OEMU_REGION_RAM, _) \<Rightarrow>
                    (Inr (extend (oemu_aspace_internal_disassemble (memcpy_from h (ar_host r + offset) nbytes) nbytes)
                       nbytes sign_extend), (as, h, d))))"

definition oemu_aspace_write :: "'d space \<Rightarrow> u64 \<Rightarrow> oemu_mem_size \<Rightarrow> u64 \<Rightarrow> oemu_status \<times> 'd space" where
  "oemu_aspace_write = (\<lambda>(as, h, d) pa sz value.
     if as_table as = None then (OEMU_ERR_INVALID_ARG, (as, h, d))
     else let nbytes = size_to_bytes sz
     in case oemu_aspace_internal_find as pa (of_nat nbytes) OEMU_PERM_WRITE of
          None \<Rightarrow> (OEMU_ERR_FAULT, (as, h, d))
        | Some r \<Rightarrow>
            let offset = pa - ar_pa r
            in (case (ar_kind r, ar_ops r) of
                  (OEMU_REGION_DEVICE, Some ops) \<Rightarrow>
                    if pa mod of_nat nbytes \<noteq> 0 then (OEMU_ERR_FAULT, (as, h, d))
                    else (case dv_write ops d offset sz (extend value nbytes False) of (st, d') \<Rightarrow> (st, (as, h, d')))
                | (OEMU_REGION_DEVICE, None) \<Rightarrow> (OEMU_ERR_FAULT, (as, h, d))
                | (OEMU_REGION_RAM, _) \<Rightarrow>
                    (OEMU_OK, (as, memcpy_to h (ar_host r + offset) (oemu_aspace_internal_assemble nbytes value), d))))"

definition oemu_aspace_fetch32 :: "'d space \<Rightarrow> u64 \<Rightarrow> oemu_status + u32" where
  "oemu_aspace_fetch32 = (\<lambda>(as, h, d) pa.
     if as_table as = None then Inl OEMU_ERR_INVALID_ARG
     else if pa mod 4 \<noteq> 0 then Inl OEMU_ERR_INVALID_ARG
     else case oemu_aspace_internal_find as pa 4 OEMU_PERM_EXEC of
            None \<Rightarrow> Inl OEMU_ERR_FAULT
          | Some r \<Rightarrow>
              if ar_kind r = OEMU_REGION_DEVICE then Inl OEMU_ERR_FAULT
              else Inr (ucast (oemu_aspace_internal_disassemble (memcpy_from h (ar_host r + (pa - ar_pa r)) 4) 4)))"

definition oemu_aspace_memops :: "'d space oemu_memops" where
  "oemu_aspace_memops =
     \<lparr>mo_fetch32 = (\<lambda>s pa. (oemu_aspace_fetch32 s pa, s)),
      mo_read = oemu_aspace_read,
      mo_write = oemu_aspace_write,
      mo_validate = (\<lambda>s pa sz perms. (oemu_aspace_validate (fst s) pa sz perms, s))\<rparr>"

section \<open>The table as a flat memory\<close>

definition region_of :: "'d oemu_aspace_region \<Rightarrow> oemu_memory_region" where
  "region_of r = \<lparr>rg_gva = ar_pa r, rg_size = ar_size r, rg_perms = ar_perms r, rg_host = ar_host r, rg_owned = ar_owned r\<rparr>"

definition mem_of :: "('d oemu_aspace_region \<Rightarrow> bool) \<Rightarrow> 'd oemu_aspace \<Rightarrow> oemu_memory" where
  "mem_of P as = \<lparr>mem_table = as_table as, mem_regions = map region_of (filter P (as_regions as)), mem_capacity = as_capacity as\<rparr>"

definition is_ram :: "'d oemu_aspace_region \<Rightarrow> bool" where
  "is_ram r \<longleftrightarrow> ar_kind r = OEMU_REGION_RAM"

definition device_ok :: "'d oemu_aspace_region \<Rightarrow> bool" where
  "device_ok r \<longleftrightarrow> (ar_kind r = OEMU_REGION_DEVICE \<longrightarrow>
     ar_ops r \<noteq> None \<and> ar_perms r = OEMU_PERM_READ OR OEMU_PERM_WRITE \<and> ar_pa r mod ar_size r = 0)"

text \<open>A sound table: regions nonempty, within the address space and disjoint, devices complete.\<close>

definition as_inv :: "'d oemu_aspace \<Rightarrow> bool" where
  "as_inv as \<longleftrightarrow> mem_inv (mem_of (\<lambda>_. True) as) \<and> list_all device_ok (as_regions as)"

lemma as_inv_ram: "as_inv as \<Longrightarrow> mem_inv (mem_of is_ram as)"
  by (auto simp: as_inv_def mem_inv_def mem_of_def list_all_iff sorted_wrt_map sorted_wrt_filter
      intro: le_trans [OF length_filter_le])

lemma region_test_as:
  assumes "ar_size r \<noteq> 0" "sz \<noteq> 0"
  shows "region_test_as r pa sz perms \<longleftrightarrow> ar_perms r AND perms = perms \<and> region_contains (region_of r) pa sz"
proof -
  have "uint (ar_size r - 1) = uint (ar_size r) - 1" "0 < uint sz"
    using assms uint_minus_le [of 1 "ar_size r"] by (simp_all add: word_le_def word_neq_0_conv word_less_def)
  then show ?thesis
    using uint_minus_le [of "ar_pa r" pa] uint_minus_le [of "pa - ar_pa r" "ar_size r"]
    by (auto simp: region_test_as_def region_contains_def region_of_def word_le_def)
qed

lemma as_regions_ok: "as_inv as \<Longrightarrow> r \<in> set (as_regions as) \<Longrightarrow> ar_size r \<noteq> 0 \<and> device_ok r"
  by (auto simp: as_inv_def mem_inv_def mem_of_def list_all_iff region_ok_def region_of_def)

lemma find_mapped: "List.find P (map f xs) = map_option f (List.find (P \<circ> f) xs)"
  by (induction xs) auto

lemma find_cong_set: "(\<And>x. x \<in> set xs \<Longrightarrow> P x = Q x) \<Longrightarrow> List.find P xs = List.find Q xs"
  by (induction xs) auto

text \<open>The lookup of the address space is flat memory's lookup over the same ranges.\<close>

lemma find_space:
  assumes "as_inv as"
  shows "oemu_memory_internal_find (mem_of (\<lambda>_. True) as) pa sz perms =
    map_option region_of (oemu_aspace_internal_find as pa sz perms)"
proof (cases "sz = 0")
  case False
  have "List.find (\<lambda>r. region_test_as r pa sz perms) (as_regions as) =
      List.find ((\<lambda>r. rg_perms r AND perms = perms \<and> region_contains r pa sz) \<circ> region_of) (as_regions as)"
    using as_regions_ok [OF assms] False by (intro find_cong_set) (simp add: region_test_as, simp add: region_of_def)
  with False show ?thesis
    by (simp add: find_eq oemu_aspace_internal_find_def mem_of_def find_mapped)
qed (simp add: oemu_memory_internal_find_def oemu_aspace_internal_find_def)

lemma find_space_set: "oemu_aspace_internal_find as pa sz perms = Some r \<Longrightarrow> r \<in> set (as_regions as)"
  by (auto simp: oemu_aspace_internal_find_def find_Some_iff split: if_splits)

text \<open>In a sound table the RAM regions alone answer the same for a range that no device covers.\<close>

lemma find_space_ram:
  assumes inv: "as_inv as"
    and ram: "\<And>r. oemu_aspace_internal_find as pa sz perms = Some r \<Longrightarrow> is_ram r"
  shows "oemu_memory_internal_find (mem_of is_ram as) pa sz perms =
    map_option region_of (oemu_aspace_internal_find as pa sz perms)"
proof (cases "oemu_aspace_internal_find as pa sz perms")
  case None
  have "region_contains (region_of r) pa sz \<Longrightarrow> sz \<noteq> 0 \<Longrightarrow> rg_perms (region_of r) AND perms = perms \<Longrightarrow>
      r \<in> set (as_regions as) \<Longrightarrow> False" for r
    using None region_test_as [of r sz pa perms] as_regions_ok [OF inv, of r]
    by (auto simp: oemu_aspace_internal_find_def find_None_iff region_of_def split: if_splits)
  then have "oemu_memory_internal_find (mem_of is_ram as) pa sz perms = None"
    unfolding find_eq by (auto simp: find_None_iff mem_of_def)
  with None show ?thesis by simp
next
  case (Some r)
  have "oemu_memory_internal_find (mem_of (\<lambda>_. True) as) pa sz perms = Some (region_of r)"
    using Some find_space [OF inv] by simp
  from find_hit [OF this] have hit: "sz \<noteq> 0" "rg_perms (region_of r) AND perms = perms" "region_contains (region_of r) pa sz"
    by auto
  have "region_of r \<in> set (mem_regions (mem_of is_ram as))"
    using ram [OF Some] find_space_set [OF Some] by (auto simp: mem_of_def)
  then show ?thesis
    using find_unique [OF as_inv_ram [OF inv]] hit Some by auto
qed

section \<open>Byte order and extension\<close>

lemma space_bytes:
  "oemu_aspace_internal_disassemble = oemu_memory_internal_disassemble"
  "oemu_aspace_internal_assemble n v = oemu_memory_internal_assemble n v"
proof -
  show "oemu_aspace_internal_disassemble = oemu_memory_internal_disassemble"
    by (simp add: fun_eq_iff oemu_aspace_internal_disassemble_def oemu_memory_internal_disassemble_def mult.commute)
  show "oemu_aspace_internal_assemble n v = oemu_memory_internal_assemble n v"
    by (rule nth_equalityI) (simp_all add: nth_assemble oemu_aspace_internal_assemble_def mult.commute)
qed

lemma size_to_bytes_eq: "size_to_bytes sz = 2 ^ mem_size_val sz"
  by (cases sz) simp_all

lemma extend_eq:
  assumes "n \<in> {1, 2, 4, 8}"
  shows "extend v n sx = (if sx then signed_take_bit (8 * n - 1) v else take_bit (8 * n) v)"
proof (cases "n = 8")
  case False
  then have n: "n < 8" "0 < n" using assms by auto
  then have m: "push_bit (8 * n) 1 - 1 = (mask (8 * n) :: u64)"
    by (simp add: mask_eq_exp_minus_1 push_bit_eq_mult)
  have ones: "drop_bit (64 - 8 * n) 0xFFFFFFFFFFFFFFFF = (mask (8 * n) :: u64)"
    using assms by (elim insertE) (simp_all add: mask_eq_exp_minus_1)
  show ?thesis
    unfolding extend_def mult.commute [of n 8] m Let_def sign_extend_read [OF assms, symmetric] ones take_bit_eq_mask
    using n by (cases sx; simp only: simp_thms if_True if_False)
next
  case True
  have "signed_take_bit 63 v = v"
  proof (rule bit_word_eqI)
    fix k assume "k < LENGTH(64)"
    then show "bit (signed_take_bit 63 v) k = bit v k" by (cases "k = 63") (simp_all add: bit_signed_take_bit_iff)
  qed
  moreover have "take_bit 64 v = v" by (simp add: take_bit_word_eq_self)
  ultimately show ?thesis using True by (simp add: extend_def)
qed

lemma take_bit_disassemble: "take_bit (8 * n) (oemu_memory_internal_disassemble bs n) = oemu_memory_internal_disassemble bs n"
  by (rule bit_word_eqI) (auto simp: bit_take_bit_iff bit_disassemble)

section \<open>Routing\<close>

definition hits_device :: "'d oemu_aspace \<Rightarrow> u64 \<Rightarrow> u64 \<Rightarrow> u32 \<Rightarrow> bool" where
  "hits_device as pa sz perms \<longleftrightarrow>
     (case oemu_aspace_internal_find as pa sz perms of None \<Rightarrow> False | Some r \<Rightarrow> \<not> is_ram r)"

lemma ram_read:
  assumes "as_inv as" "sz \<noteq> OEMU_MEM_128" "\<not> hits_device as pa (transfer_bytes sz) OEMU_PERM_READ"
  shows "oemu_aspace_read (as, h, d) pa sz sx = (oemu_memory_read (mem_of is_ram as, h) pa sz sx, (as, h, d))"
proof -
  let ?n = "2 ^ mem_size_val sz :: nat"
  have n: "?n \<in> {1, 2, 4, 8}" by (rule mem_size_bytes(1) [OF assms(2)])
  obtain tb where t: "as_table as = Some tb" using assms(1) by (auto simp: as_inv_def mem_inv_def mem_of_def)
  have f: "oemu_memory_internal_find (mem_of is_ram as) pa (transfer_bytes sz) OEMU_PERM_READ =
      map_option region_of (oemu_aspace_internal_find as pa (transfer_bytes sz) OEMU_PERM_READ)"
    using assms(1,3) by (intro find_space_ram) (auto simp: hits_device_def)
  show ?thesis
  proof (cases "oemu_aspace_internal_find as pa (transfer_bytes sz) OEMU_PERM_READ")
    case None
    with f t show ?thesis
      by (simp add: oemu_aspace_read_def oemu_memory_read_def size_to_bytes_eq mem_size_bytes(2) [simplified] Let_def)
  next
    case (Some r)
    then have "ar_kind r = OEMU_REGION_RAM" using assms(3) by (simp add: hits_device_def is_ram_def)
    moreover have "extend (oemu_memory_internal_disassemble bs ?n) ?n sx =
        (let v = oemu_memory_internal_disassemble bs ?n
         in if sx \<and> v AND push_bit (8 * ?n - 1) 1 \<noteq> 0 then v OR NOT (drop_bit (64 - 8 * ?n) 0xFFFFFFFFFFFFFFFF) else v)" for bs
      unfolding extend_eq [OF n] Let_def sign_extend_read [OF n, symmetric] take_bit_disassemble
      by (cases sx; simp only: simp_thms if_True if_False)
    ultimately show ?thesis
      using f t Some unfolding mem_size_bytes(2) [symmetric]
      by (simp add: oemu_aspace_read_def oemu_memory_read_def size_to_bytes_eq space_bytes Let_def region_of_def
          split del: if_split)
  qed
qed

lemma ram_write:
  assumes "as_inv as" "sz \<noteq> OEMU_MEM_128" "\<not> hits_device as pa (transfer_bytes sz) OEMU_PERM_WRITE"
  shows "oemu_aspace_write (as, h, d) pa sz v =
    (case oemu_memory_write (mem_of is_ram as, h) pa sz v of (st, (mem', h')) \<Rightarrow> (st, (as, h', d)))"
proof -
  obtain tb where t: "as_table as = Some tb" using assms(1) by (auto simp: as_inv_def mem_inv_def mem_of_def)
  have f: "oemu_memory_internal_find (mem_of is_ram as) pa (transfer_bytes sz) OEMU_PERM_WRITE =
      map_option region_of (oemu_aspace_internal_find as pa (transfer_bytes sz) OEMU_PERM_WRITE)"
    using assms(1,3) by (intro find_space_ram) (auto simp: hits_device_def)
  show ?thesis
    using f t assms(3) unfolding mem_size_bytes(2) [symmetric]
    by (cases "oemu_aspace_internal_find as pa (of_nat (2 ^ mem_size_val sz)) OEMU_PERM_WRITE")
      (simp_all add: oemu_aspace_write_def oemu_memory_write_def size_to_bytes_eq space_bytes Let_def region_of_def
        hits_device_def is_ram_def)
qed

text \<open>A device region has no execute permission, so a fetch never reaches one.\<close>

lemma fetch_no_device: "as_inv as \<Longrightarrow> \<not> hits_device as pa 4 OEMU_PERM_EXEC"
proof
  assume inv: "as_inv as" and "hits_device as pa 4 OEMU_PERM_EXEC"
  then obtain r where r: "oemu_aspace_internal_find as pa 4 OEMU_PERM_EXEC = Some r" "ar_kind r = OEMU_REGION_DEVICE"
    by (auto simp: hits_device_def is_ram_def split: option.splits) (metis oemu_region_kind.exhaust)
  have "device_ok r" using as_regions_ok [OF inv find_space_set [OF r(1)]] by simp
  moreover have "ar_perms r AND OEMU_PERM_EXEC = OEMU_PERM_EXEC"
    using r(1) by (auto simp: oemu_aspace_internal_find_def find_Some_iff region_test_as_def)
  ultimately show False using r(2) by (simp add: device_ok_def)
qed

lemma ram_fetch:
  assumes "as_inv as" "pa mod 4 = 0"
  shows "oemu_aspace_fetch32 (as, h, d) pa = oemu_memory_fetch32 (mem_of is_ram as, h) pa"
proof -
  obtain tb where t: "as_table as = Some tb" using assms(1) by (auto simp: as_inv_def mem_inv_def mem_of_def)
  have f: "oemu_memory_internal_find (mem_of is_ram as) pa 4 OEMU_PERM_EXEC =
      map_option region_of (oemu_aspace_internal_find as pa 4 OEMU_PERM_EXEC)"
    using assms(1) fetch_no_device [OF assms(1), of pa] by (intro find_space_ram) (auto simp: hits_device_def)
  have "pa AND 3 = pa mod 4"
    using take_bit_eq_mask [of 2 pa] take_bit_eq_mod [of 2 pa] by (simp add: mask_eq_exp_minus_1)
  with assms(2) show ?thesis
    using f t fetch_no_device [OF assms(1), of pa]
    by (auto simp: oemu_aspace_fetch32_def oemu_memory_fetch32_def space_bytes region_of_def hits_device_def is_ram_def
        split: option.splits)
qed

text \<open>
  Property C40. Routing of physical accesses: an access whose range no device covers is exactly the
  access of flat memory to the RAM regions, faults included, and touches no device; an access to a
  device is refused without a call when it is not naturally aligned, and otherwise is one call with
  the offset inside the window, a read value being cut to the access width and extended, a written
  value cut to it, and RAM staying as it was; an instruction fetch never reaches a device.
\<close>

theorem aspace_routing:
  assumes "as_inv as" and "sz \<noteq> OEMU_MEM_128" and "n = 2 ^ mem_size_val sz"
  shows "(\<not> hits_device as pa (transfer_bytes sz) OEMU_PERM_READ \<longrightarrow>
      oemu_aspace_read (as, h, d) pa sz sx = (oemu_memory_read (mem_of is_ram as, h) pa sz sx, (as, h, d))) \<and>
    (\<not> hits_device as pa (transfer_bytes sz) OEMU_PERM_WRITE \<longrightarrow>
      oemu_aspace_write (as, h, d) pa sz v =
        (case oemu_memory_write (mem_of is_ram as, h) pa sz v of (st, (mem', h')) \<Rightarrow> (st, (as, h', d)))) \<and>
    (\<forall>r ops. oemu_aspace_internal_find as pa (transfer_bytes sz) OEMU_PERM_READ = Some r \<and> \<not> is_ram r \<and> ar_ops r = Some ops \<longrightarrow>
      oemu_aspace_read (as, h, d) pa sz sx =
        (if pa mod transfer_bytes sz \<noteq> 0 then (Inl OEMU_ERR_FAULT, (as, h, d))
         else case dv_read ops d (pa - ar_pa r) sz of (q, d') \<Rightarrow>
           (map_sum id (\<lambda>v. if sx then signed_take_bit (8 * n - 1) v else take_bit (8 * n) v) q, (as, h, d')))) \<and>
    (\<forall>r ops. oemu_aspace_internal_find as pa (transfer_bytes sz) OEMU_PERM_WRITE = Some r \<and> \<not> is_ram r \<and> ar_ops r = Some ops \<longrightarrow>
      oemu_aspace_write (as, h, d) pa sz v =
        (if pa mod transfer_bytes sz \<noteq> 0 then (OEMU_ERR_FAULT, (as, h, d))
         else case dv_write ops d (pa - ar_pa r) sz (take_bit (8 * n) v) of (st, d') \<Rightarrow> (st, (as, h, d')))) \<and>
    (pa mod 4 = 0 \<longrightarrow> oemu_aspace_fetch32 (as, h, d) pa = oemu_memory_fetch32 (mem_of is_ram as, h) pa)"
proof (intro conjI allI impI)
  obtain tb where t: "as_table as = Some tb" using assms(1) by (auto simp: as_inv_def mem_inv_def mem_of_def)
  have n: "n \<in> {1, 2, 4, 8}" "size_to_bytes sz = n" "(of_nat n :: u64) = transfer_bytes sz"
    using mem_size_bytes [of sz] assms(2,3) by (simp_all only: size_to_bytes_eq) auto
  show "oemu_aspace_read (as, h, d) pa sz sx = (oemu_memory_read (mem_of is_ram as, h) pa sz sx, (as, h, d))"
    if "\<not> hits_device as pa (transfer_bytes sz) OEMU_PERM_READ"
    by (rule ram_read [OF assms(1,2) that])
  show "oemu_aspace_write (as, h, d) pa sz v =
      (case oemu_memory_write (mem_of is_ram as, h) pa sz v of (st, (mem', h')) \<Rightarrow> (st, (as, h', d)))"
    if "\<not> hits_device as pa (transfer_bytes sz) OEMU_PERM_WRITE"
    by (rule ram_write [OF assms(1,2) that])
  fix r ops
  show "oemu_aspace_read (as, h, d) pa sz sx =
      (if pa mod transfer_bytes sz \<noteq> 0 then (Inl OEMU_ERR_FAULT, (as, h, d))
       else case dv_read ops d (pa - ar_pa r) sz of (q, d') \<Rightarrow>
         (map_sum id (\<lambda>v. if sx then signed_take_bit (8 * n - 1) v else take_bit (8 * n) v) q, (as, h, d')))"
    if "oemu_aspace_internal_find as pa (transfer_bytes sz) OEMU_PERM_READ = Some r \<and> \<not> is_ram r \<and> ar_ops r = Some ops"
    using that t n extend_eq [OF n(1)]
    by (cases "ar_kind r") (auto simp: oemu_aspace_read_def is_ram_def Let_def split: prod.split sum.split)
  show "oemu_aspace_write (as, h, d) pa sz v =
      (if pa mod transfer_bytes sz \<noteq> 0 then (OEMU_ERR_FAULT, (as, h, d))
       else case dv_write ops d (pa - ar_pa r) sz (take_bit (8 * n) v) of (st, d') \<Rightarrow> (st, (as, h, d')))"
    if "oemu_aspace_internal_find as pa (transfer_bytes sz) OEMU_PERM_WRITE = Some r \<and> \<not> is_ram r \<and> ar_ops r = Some ops"
    using that t n extend_eq [OF n(1)]
    by (cases "ar_kind r") (auto simp: oemu_aspace_write_def is_ram_def Let_def split: prod.split)
qed (rule ram_fetch [OF assms(1)])

section \<open>Mapping\<close>

lemma map_common_ok:
  assumes "as_inv as"
  shows "map_common as pa sz perms = OEMU_OK \<longleftrightarrow> can_map (mem_of (\<lambda>_. True) as) pa sz perms"
proof (cases "sz = 0 \<or> perms = 0")
  case False
  have ov: "oemu_aspace_internal_ranges_overlap = oemu_memory_internal_ranges_overlap"
    by (simp add: fun_eq_iff oemu_aspace_internal_ranges_overlap_def oemu_memory_internal_ranges_overlap_def)
  have ca: "oemu_aspace_internal_check_map_args pa sz perms = oemu_memory_internal_check_map_args pa sz perms"
    by (simp add: oemu_aspace_internal_check_map_args_def oemu_memory_internal_check_map_args_def)
  have "(\<exists>r \<in> set (as_regions as). oemu_aspace_internal_ranges_overlap pa sz (ar_pa r) (ar_size r)) \<longleftrightarrow>
      \<not> (\<forall>r \<in> set (mem_regions (mem_of (\<lambda>_. True) as)). guest_range pa sz \<inter> guest_range (rg_gva r) (rg_size r) = {})"
    using no_overlap_iff [of "mem_of (\<lambda>_. True) as" sz pa] assms False
    by (simp add: as_inv_def ov mem_of_def region_of_def)
  moreover have "length (as_regions as) \<le> as_capacity as" using assms by (simp add: as_inv_def mem_inv_def mem_of_def)
  ultimately show ?thesis
    using False check_map_args_ok [of pa sz perms]
    by (auto simp: map_common_def ca check_room_def can_map_def Let_def mem_of_def)
qed (auto simp: map_common_def oemu_aspace_internal_check_map_args_def can_map_def)

lemma as_inv_add:
  assumes "as_inv as" "map_common as (ar_pa r) (ar_size r) (ar_perms r) = OEMU_OK" "device_ok r"
  shows "as_inv (add_region as r)"
proof -
  have "mem_inv (mem_of (\<lambda>_. True) as)" using assms(1) by (simp add: as_inv_def)
  from mem_inv_add [OF this assms(2) [unfolded map_common_ok [OF assms(1)]], of "ar_host r" "ar_owned r"] assms(1,3)
  show ?thesis by (simp add: as_inv_def add_region_def mem_of_def new_region_def region_of_def)
qed

text \<open>
  Building the address space: mapping RAM, aliasing a host buffer and attaching a device
  each keep the region table sound, whatever their arguments; a call that is refused changes nothing;
  a call succeeds exactly when the range is nonempty, has permissions, ends within the address space,
  meets no region and finds room in the table, with an allocated block for RAM, a buffer for an alias,
  and for a device a power-of-two window aligned to its size.
\<close>

theorem aspace_map_sound:
  assumes "as_inv as" and "op = oemu_aspace_map_ram block (as, h, d) pa sz perms \<and> extra = (block \<noteq> None) \<or>
      op = oemu_aspace_map_ram_alias (as, h, d) pa host sz perms \<and> extra = (host \<noteq> 0) \<or>
      op = oemu_aspace_attach_device (as, h, d) pa sz ops \<and> perms = OEMU_PERM_READ OR OEMU_PERM_WRITE \<and>
        extra = (ops \<noteq> None \<and> sz AND (sz - 1) = 0 \<and> pa mod sz = 0)"
  shows "\<exists>st as' h'. op = (st, (as', h', d)) \<and> as_inv as' \<and> (st \<noteq> OEMU_OK \<longrightarrow> as' = as \<and> h' = h) \<and>
    (st = OEMU_OK \<longleftrightarrow> can_map (mem_of (\<lambda>_. True) as) pa sz perms \<and> extra)"
proof -
  obtain tb where t: "as_table as = Some tb" using assms(1) by (auto simp: as_inv_def mem_inv_def mem_of_def)
  have nz: "can_map (mem_of (\<lambda>_. True) as) pa sz perms \<Longrightarrow> sz \<noteq> 0" by (simp add: can_map_def)
  show ?thesis
    using assms(2)
  proof (elim disjE conjE)
    assume op: "op = oemu_aspace_map_ram block (as, h, d) pa sz perms" "extra = (block \<noteq> None)"
    then show ?thesis
      using t map_common_ok [OF assms(1), of pa sz perms] assms(1)
      by (cases block) (auto simp: oemu_aspace_map_ram_def Let_def device_ok_def intro!: as_inv_add)
  next
    assume op: "op = oemu_aspace_map_ram_alias (as, h, d) pa host sz perms" "extra = (host \<noteq> 0)"
    then show ?thesis
      using t map_common_ok [OF assms(1), of pa sz perms] assms(1)
      by (auto simp: oemu_aspace_map_ram_alias_def Let_def device_ok_def intro!: as_inv_add)
  next
    assume op: "op = oemu_aspace_attach_device (as, h, d) pa sz ops" "perms = OEMU_PERM_READ OR OEMU_PERM_WRITE"
      "extra = (ops \<noteq> None \<and> sz AND (sz - 1) = 0 \<and> pa mod sz = 0)"
    then show ?thesis
      using t map_common_ok [OF assms(1), of pa sz perms] assms(1) nz
      by (auto simp: oemu_aspace_attach_device_def Let_def device_ok_def intro!: as_inv_add del: mod_0_imp_dvd)
  qed
qed

section \<open>The bus contract\<close>

text \<open>With RAM regions only, the address space is a bus in the executor's sense. With a device the
  contract fails: validation answers for the window as a whole, while a misaligned access to it is
  refused.\<close>

definition ram_inv :: "'d space \<Rightarrow> bool" where
  "ram_inv s \<longleftrightarrow> as_inv (fst s) \<and> list_all is_ram (as_regions (fst s))"

definition space_accepts :: "'d space \<Rightarrow> u64 \<Rightarrow> u64 \<Rightarrow> u32 \<Rightarrow> bool" where
  "space_accepts s a n p \<longleftrightarrow> oemu_aspace_validate (fst s) a n p = OEMU_OK"

definition ram_content :: "'d space \<Rightarrow> u64 \<Rightarrow> u8 option" where
  "ram_content s = guest_byte (mem_of is_ram (fst s), fst (snd s))"

lemma space_accepts_find:
  "ram_inv (as, h, d) \<Longrightarrow> space_accepts (as, h, d) a n p \<longleftrightarrow> oemu_aspace_internal_find as a n p \<noteq> None"
  by (auto simp: ram_inv_def space_accepts_def oemu_aspace_validate_def oemu_aspace_internal_find_def as_inv_def
      mem_inv_def mem_of_def)

lemma size_transfer: "of_nat (size_to_bytes sz) = transfer_bytes sz"
  by (cases sz) simp_all

lemma ram_only:
  assumes "ram_inv (as, h, d)" "oemu_aspace_internal_find as a n p = Some r"
  shows "ar_kind r = OEMU_REGION_RAM" "as_table as \<noteq> None"
  using assms find_space_set [OF assms(2)]
  by (auto simp: ram_inv_def list_all_iff is_ram_def as_inv_def mem_inv_def mem_of_def)

lemma ram_access:
  assumes "ram_inv (as, h, d)"
  shows "\<exists>q. oemu_aspace_read (as, h, d) a sz sx = (q, (as, h, d)) \<and>
      (space_accepts (as, h, d) a (transfer_bytes sz) OEMU_PERM_READ \<longrightarrow> (\<exists>v. q = Inr v))"
    and "\<exists>st h'. oemu_aspace_write (as, h, d) a sz v = (st, (as, h', d)) \<and> (st \<noteq> OEMU_OK \<longrightarrow> h' = h) \<and>
      (space_accepts (as, h, d) a (transfer_bytes sz) OEMU_PERM_WRITE \<longrightarrow> st = OEMU_OK)"
    and "oemu_aspace_fetch32 (as, h, d) a \<noteq> Inl OEMU_OK"
  unfolding space_accepts_find [OF assms]
  using ram_only [OF assms, of a "transfer_bytes sz" OEMU_PERM_READ] ram_only [OF assms, of a "transfer_bytes sz" OEMU_PERM_WRITE]
  by (auto simp: oemu_aspace_read_def oemu_aspace_write_def oemu_aspace_fetch32_def Let_def size_transfer
      split: option.splits)

interpretation ram_bus: bus "oemu_aspace_memops :: 'd space oemu_memops" ram_inv space_accepts ram_content
proof unfold_locales
  fix m :: "'d space" and a n p st m'
  show "ram_inv m \<Longrightarrow> mo_validate oemu_aspace_memops m a n p = (st, m') \<Longrightarrow>
    ram_inv m' \<and> space_accepts m' = space_accepts m \<and> ram_content m' = ram_content m \<and> (st = OEMU_OK) = space_accepts m a n p"
    by (auto simp: oemu_aspace_memops_def space_accepts_def)
next
  fix m :: "'d space" and a sz sx q m'
  obtain as h d where "m = (as, h, d)" by (metis prod_cases3)
  then show "ram_inv m \<Longrightarrow> mo_read oemu_aspace_memops m a sz sx = (q, m') \<Longrightarrow>
    ram_inv m' \<and> space_accepts m' = space_accepts m \<and> ram_content m' = ram_content m \<and>
    (sz \<noteq> OEMU_MEM_128 \<and> space_accepts m a (transfer_bytes sz) OEMU_PERM_READ \<longrightarrow> (\<exists>v. q = Inr v))"
    using ram_access(1) [of as h d a sz sx] by (auto simp: oemu_aspace_memops_def)
next
  fix m :: "'d space" and a sz v st m'
  obtain as h d where m: "m = (as, h, d)" by (metis prod_cases3)
  show "ram_inv m \<Longrightarrow> mo_write oemu_aspace_memops m a sz v = (st, m') \<Longrightarrow>
    ram_inv m' \<and> space_accepts m' = space_accepts m \<and> (st \<noteq> OEMU_OK \<longrightarrow> ram_content m' = ram_content m) \<and>
    (sz \<noteq> OEMU_MEM_128 \<and> space_accepts m a (transfer_bytes sz) OEMU_PERM_WRITE \<longrightarrow> st = OEMU_OK)"
    using ram_access(2) [of as h d a sz v] m
    by (auto simp: oemu_aspace_memops_def ram_inv_def space_accepts_def [abs_def] ram_content_def)
next
  fix m :: "'d space" and a q m'
  obtain as h d where "m = (as, h, d)" by (metis prod_cases3)
  then show "ram_inv m \<Longrightarrow> mo_fetch32 oemu_aspace_memops m a = (q, m') \<Longrightarrow>
    ram_inv m' \<and> space_accepts m' = space_accepts m \<and> ram_content m' = ram_content m \<and> q \<noteq> Inl OEMU_OK"
    using ram_access(3) [of as h d a] by (auto simp: oemu_aspace_memops_def)
qed

text \<open>Validation and access disagree on a device: a misaligned word inside the window is validated
  and then refused, which the executor treats as its own bug.\<close>

lemma device_validated_then_refused:
  assumes "as_inv as" "oemu_aspace_internal_find as pa (transfer_bytes sz) OEMU_PERM_READ = Some r" "ar_kind r = OEMU_REGION_DEVICE"
    and "pa mod transfer_bytes sz \<noteq> 0"
  shows "oemu_aspace_validate as pa (transfer_bytes sz) OEMU_PERM_READ = OEMU_OK"
    "fst (oemu_aspace_read (as, h, d) pa sz sx) = Inl OEMU_ERR_FAULT"
proof -
  obtain tb where t: "as_table as = Some tb" using assms(1) by (auto simp: as_inv_def mem_inv_def mem_of_def)
  show "oemu_aspace_validate as pa (transfer_bytes sz) OEMU_PERM_READ = OEMU_OK"
    using t assms(2) by (cases sz) (simp_all add: oemu_aspace_validate_def)
  show "fst (oemu_aspace_read (as, h, d) pa sz sx) = Inl OEMU_ERR_FAULT"
    using t assms(2-4) by (auto simp: oemu_aspace_read_def size_transfer Let_def split: option.split)
qed

section \<open>A sample machine\<close>

text \<open>One page of RAM and one device window, the device being a single register.\<close>

definition register_ops :: "u64 oemu_device_ops" where
  "register_ops = \<lparr>dv_read = (\<lambda>d off sz. (Inr d, d)), dv_write = (\<lambda>d off sz v. (OEMU_OK, v))\<rparr>"

definition sample_space :: "u64 oemu_aspace" where
  "sample_space = \<lparr>as_table = Some 0x100, as_regions =
     [\<lparr>ar_pa = 0x40000000, ar_size = 0x1000, ar_perms = 7, ar_kind = OEMU_REGION_RAM, ar_host = 0x7000, ar_owned = True, ar_ops = None\<rparr>,
      \<lparr>ar_pa = 0x9000000, ar_size = 0x1000, ar_perms = OEMU_PERM_READ OR OEMU_PERM_WRITE, ar_kind = OEMU_REGION_DEVICE,
        ar_host = 0, ar_owned = False, ar_ops = Some register_ops\<rparr>], as_capacity = 4\<rparr>"

lemma sample_space_inv: "as_inv sample_space"
  by (simp add: as_inv_def sample_space_def mem_inv_def mem_of_def region_of_def region_ok_def guest_range_def device_ok_def)

theorem aspace_routing_witness:
  "as_inv sample_space \<and>
   oemu_aspace_read (sample_space, (\<lambda>_. 0), 0x11223344AABBCCDD) 0x9000008 OEMU_MEM_HALF True =
     (Inr 0xFFFFFFFFFFFFCCDD, (sample_space, (\<lambda>_. 0), 0x11223344AABBCCDD))"
proof -
  obtain r where r: "oemu_aspace_internal_find sample_space 0x9000008 (transfer_bytes OEMU_MEM_HALF) OEMU_PERM_READ = Some r"
    "\<not> is_ram r" "ar_ops r = Some register_ops" "ar_pa r = 0x9000000"
    by (simp add: oemu_aspace_internal_find_def sample_space_def region_test_as_def is_ram_def)
  have "OEMU_MEM_HALF \<noteq> OEMU_MEM_128" by simp
  from aspace_routing [OF sample_space_inv this refl, of "0x9000008" "\<lambda>_. 0" "0x11223344AABBCCDD" True 0] r sample_space_inv
  show ?thesis by (simp add: register_ops_def)
qed

theorem aspace_map_sound_witness:
  "\<exists>st as' h'. oemu_aspace_attach_device (sample_space, (\<lambda>_. 0), 0) 0x8000000 0x1000 (Some register_ops) = (st, (as', h', 0)) \<and>
     as_inv as' \<and> st = OEMU_OK"
proof -
  have "can_map (mem_of (\<lambda>_. True) sample_space) 0x8000000 0x1000 (OEMU_PERM_READ OR OEMU_PERM_WRITE)"
    by (simp add: can_map_def sample_space_def mem_of_def region_of_def guest_range_def)
  then show ?thesis
    using aspace_map_sound [where as = sample_space and pa = "0x8000000" and sz = "0x1000" and h = "\<lambda>_. 0" and d = 0 and
        ops = "Some register_ops" and perms = "OEMU_PERM_READ OR OEMU_PERM_WRITE" and extra = True, OF sample_space_inv disjI2 [OF disjI2]]
    by auto
qed

end
