(* ===== verification/Oemu_Mmu_Off.thy ===== *)
theory Oemu_Mmu_Off
  imports Oemu_Mmu_Props Oemu_Aspace
begin

text \<open>
  The translated bus with stage 1 off (or at EL3) and no alignment check: it keeps the bus contract of
  the physical bus beneath it. A probe becomes one validation for each page it touches, a misaligned
  access one access for each byte; hence the one further law a physical bus must have, that what is
  accepted is accepted in parts. Flat memory and the RAM of the address space have it.
\<close>

section \<open>Physical buses\<close>

locale physical = bus ops inv accepts content
  for ops :: "'p oemu_memops" and inv accepts and content :: "'p \<Rightarrow> 'c" +
  assumes accepts_sub: "inv p \<Longrightarrow> accepts p a n perms \<Longrightarrow> unat (b - a) + unat k \<le> unat n \<Longrightarrow> 0 < k \<Longrightarrow> accepts p b k perms"

lemma region_contains_sub:
  assumes "region_contains r a n" "region_ok r" "unat (b - a) + unat k \<le> unat n" "0 < k"
  shows "region_contains r b k"
proof -
  have k: "0 < uint k" using assms(4) by (simp add: word_less_def)
  have d: "uint (b - a) + uint k \<le> uint n" using assms(3) unfolding uint_nat by linarith
  have "uint a + uint n \<le> 2 ^ 64" using assms(1,2) by (simp add: region_contains_def region_ok_def)
  then have "uint a + uint (b - a) < 2 ^ 64" using d k by linarith
  moreover have "uint b = (uint a + uint (b - a)) mod 2 ^ 64" using uint_word_ariths(1) [of a "b - a"] by simp
  ultimately have "uint b = uint a + uint (b - a)" by simp
  moreover have "0 \<le> uint (b - a)" by simp
  ultimately show ?thesis using assms(1) d unfolding region_contains_def by linarith
qed

lemma find_sub:
  assumes "mem_inv mem" "oemu_memory_internal_find mem a n perms \<noteq> None"
    and "unat (b - a) + unat k \<le> unat n" "0 < k"
  shows "oemu_memory_internal_find mem b k perms \<noteq> None"
proof -
  obtain r where r: "r \<in> set (mem_regions mem)" "rg_perms r AND perms = perms" "region_contains r a n"
    using assms(2) by (auto simp: find_iff [OF assms(1)])
  have "region_ok r" using assms(1) r(1) by (simp add: mem_inv_def list_all_iff)
  then have "oemu_memory_internal_find mem b k perms = Some r"
    using r region_contains_sub [OF r(3) _ assms(3,4)] assms(4) by (simp add: find_iff [OF assms(1)] word_gt_0)
  then show ?thesis by simp
qed

interpretation flat_phys: physical oemu_memory_memops flat_inv flat_accepts guest_byte
  by unfold_locales (auto simp: flat_accepts_def flat_inv_def validate_find dest: find_sub simp del: not_None_eq)

interpretation ram_phys: physical "oemu_aspace_memops :: 'd space oemu_memops" ram_inv space_accepts ram_content
proof unfold_locales
  fix p :: "'d space" and a n perms b and k :: u64
  assume "ram_inv p" "space_accepts p a n perms" "unat (b - a) + unat k \<le> unat n" "0 < k"
  moreover obtain as h d where p: "p = (as, h, d)" by (metis prod_cases3)
  moreover have "as_inv as" using calculation by (simp add: ram_inv_def)
  moreover have "mem_inv (mem_of (\<lambda>_. True) as)" using calculation by (simp add: as_inv_def)
  ultimately show "space_accepts p b k perms"
    using find_sub [of "mem_of (\<lambda>_. True) as" a n perms b k] by (simp add: space_accepts_find find_space)
qed

section \<open>Probes page by page\<close>

function chunks :: "u64 \<Rightarrow> u64 \<Rightarrow> u64 \<Rightarrow> (u64 \<times> u64) list" where
  "chunks va n off = (if \<not> off < n then [] else (va + off, probe_chunk va n off) # chunks va n (off + probe_chunk va n off))"
  by pat_completeness auto

termination
  by (relation "measure (\<lambda>(va, n, off). unat (n - off))") (auto simp: probe_chunk_measure)

declare chunks.simps [simp del]

lemma probe_chunk_le: "probe_chunk va n off \<le> 0x1000"
proof -
  have "(va + off) AND 0xFFF \<le> 0xFFF" by (rule word_and_le1)
  then have "0x1000 - ((va + off) AND 0xFFF) \<le> 0x1000" by (simp add: word_le_nat_alt unat_sub)
  then show ?thesis by (auto simp: probe_chunk_def Let_def not_le intro: order.strict_implies_order)
qed

lemma probe_chunk_cast: "ucast (ucast (probe_chunk va n off) :: u32) = probe_chunk va n off"
proof -
  have "unat (probe_chunk va n off) \<le> 0x1000" using probe_chunk_le [of va n off] by (simp add: word_le_nat_alt)
  then have "take_bit 32 (probe_chunk va n off) = probe_chunk va n off"
    by (simp add: word_unat_eq_iff unat_take_bit)
  moreover have "ucast (ucast x :: u32) = take_bit 32 x" for x :: u64 by (rule bit_eqI) (auto simp: bit_simps)
  ultimately show ?thesis by simp
qed

lemma chunk_of_byte:
  "off \<le> i \<Longrightarrow> i < n \<Longrightarrow> \<exists>(b, k) \<in> set (chunks va n off). va + i - b < k"
proof (induction va n off rule: chunks.induct)
  case (1 va n off)
  let ?k = "probe_chunk va n off"
  have lt: "off < n" using 1(2,3) by simp
  note b = probe_chunk_bounds [OF lt, of va]
  show ?case
  proof (cases "i < off + ?k")
    case True
    have "i - off < ?k" using True 1(2) b lt 
      by (simp add: word_less_nat_alt word_le_nat_alt unat_sub unat_plus_if' split: if_split_asm)
    then show ?thesis using lt by (subst chunks.simps) (simp add: algebra_simps)
  next
    case False
    with 1(1) [OF _ _ 1(3)] lt show ?thesis by (subst chunks.simps) auto
  qed
qed

lemma chunks_aligned:
  assumes "va AND (2 ^ k - 1) = 0" "k \<le> 12"
  shows "chunks va (2 ^ k) 0 = [(va, 2 ^ k)]"
proof -
  let ?n = "2 ^ k :: u64"
  have dvd: "(2 :: nat) ^ k dvd 2 ^ 12" using assms(2) by (rule le_imp_power_dvd)
  have "(2 :: nat) ^ k \<le> 2 ^ 12" using assms(2) by (intro power_increasing) auto
  then have n: "unat ?n = 2 ^ k"
    using unsigned_of_nat [where 'b = 64 and 'a = nat, of "2 ^ k"] assms(2) by (simp add: take_bit_nat_eq_self)
  have "va AND mask k = 0" using assms(1) by (simp add: mask_eq_decr_exp)
  then have al: "unat va mod 2 ^ k = 0" using unat_and_mask [of va k] by simp
  have po: "unat (va AND 0xFFF) = unat va mod 2 ^ 12" by (simp add: low_mask unat_and_mask)
  have le: "(va AND 0xFFF) \<le> 0x1000" by (simp add: word_le_nat_alt po)
  have span: "unat (0x1000 - (va AND 0xFFF)) = 2 ^ 12 - unat va mod 2 ^ 12" using le by (simp add: unat_sub po)
  have "2 ^ k dvd 2 ^ 12 - unat va mod 2 ^ 12" using dvd al by (simp add: mod_eq_0_iff_dvd dvd_diff_nat dvd_mod_iff)
  moreover have "0 < 2 ^ 12 - unat va mod (2 ^ 12 :: nat)" by simp
  ultimately have "2 ^ k \<le> 2 ^ 12 - unat va mod (2 ^ 12 :: nat)" by (rule dvd_imp_le)
  then have "?n \<le> 0x1000 - (va AND 0xFFF)" by (simp add: word_le_nat_alt n span)
  then have "probe_chunk va ?n 0 = ?n" by (auto simp: probe_chunk_def Let_def)
  moreover have "0 < ?n" using n by (simp add: word_less_nat_alt)
  ultimately show ?thesis by (simp add: chunks.simps [of va ?n 0] chunks.simps [of va ?n ?n])
qed

section \<open>The translated bus with stage 1 off\<close>

definition identity_map :: "oemu_sysregs \<Rightarrow> bool" where
  "identity_map sr \<longleftrightarrow> (has (sr_sctlr_el1 sr) SCTLR_M \<longrightarrow> oemu_pstate_el (sr_pstate sr) = OEMU_EL3) \<and>
     \<not> oemu_mmu_internal_alignment_required sr (oemu_pstate_el (sr_pstate sr) = OEMU_EL0)"

lemma translate_off:
  assumes "identity_map sr" "fst acc = oemu_pstate_el (sr_pstate sr)"
  shows "translate sr phys va acc (mmu, p) = (Inr va, tlb_epoch_check sr mmu, p)"
proof -
  have "\<not> translating sr acc" using assms by (auto simp: identity_map_def translating_def)
  moreover from this have "(has (sr_sctlr_el1 sr) SCTLR_M \<and> fst acc < OEMU_EL3) = False" by (simp add: translating_def)
  ultimately show ?thesis unfolding translate_def Let_def by (simp only: prod.case if_False) (simp add: walk_identity)
qed

definition off_accepts :: "('p \<Rightarrow> u64 \<Rightarrow> u64 \<Rightarrow> u32 \<Rightarrow> bool) \<Rightarrow> oemu_mmu \<times> 'p \<Rightarrow> u64 \<Rightarrow> u64 \<Rightarrow> u32 \<Rightarrow> bool" where
  "off_accepts accepts s a n perms = list_all (\<lambda>(b, k). accepts (snd s) b k perms) (chunks a n 0)"

lemma snd_marks [simp]: "snd (mmu_refuse acc cls far s) = snd s" "snd (mmu_record f s) = snd s"
  by (cases s; simp add: mmu_refuse_def mmu_record_def)+

context physical
begin

definition keeps :: "'p \<Rightarrow> oemu_mmu \<times> 'p \<Rightarrow> bool" where
  "keeps p s \<longleftrightarrow> inv (snd s) \<and> accepts (snd s) = accepts p \<and> content (snd s) = content p"

lemma validate_keeps:
  "inv p \<Longrightarrow> phys_validate ops a n perms (mmu, p) = (st, s) \<Longrightarrow> keeps p s \<and> (st = OEMU_OK \<longleftrightarrow> accepts p a n perms)"
  using validate_law by (auto simp: phys_validate_def keeps_def split: prod.splits)

lemma keeps_trans: "keeps p (mmu', p') \<Longrightarrow> keeps p' s \<Longrightarrow> keeps p s"
  by (simp add: keeps_def)

lemma keeps_marks [simp]: "keeps p (mmu_refuse acc cls far s) = keeps p s" "keeps p (mmu_record f s) = keeps p s"
  by (simp_all add: keeps_def)

lemma validate_loop_off:
  "identity_map sr \<Longrightarrow> fst acc = oemu_pstate_el (sr_pstate sr) \<Longrightarrow> inv p \<Longrightarrow>
   validate_loop sr ops va n perms acc off (mmu, p) = (st, s) \<Longrightarrow>
   keeps p s \<and> (st = OEMU_OK \<longleftrightarrow> list_all (\<lambda>(b, k). accepts p b k perms) (chunks va n off))"
proof (induction va n off arbitrary: mmu p rule: chunks.induct)
  case (1 va n off)
  let ?k = "probe_chunk va n off" and ?m = "tlb_epoch_check sr mmu"
  note unf = validate_loop.simps [of sr ops va n perms acc off "(mmu, p)"] chunks.simps [of va n off]
  obtain st1 mmu1 p1 where v: "phys_validate ops (va + off) ?k perms (?m, p) = (st1, mmu1, p1)" by (metis prod_cases3)
  note k = validate_keeps [OF 1(4) v]
  show ?case
  proof (cases "off < n \<and> st1 = OEMU_OK")
    case True
    then have "validate_loop sr ops va n perms acc (off + ?k) (mmu1, p1) = (st, s)"
      using 1(5) v by (simp add: unf(1) translate_off [OF 1(2,3)] probe_chunk_cast)
    then have "keeps p1 s \<and> (st = OEMU_OK \<longleftrightarrow> list_all (\<lambda>(b, k). accepts p1 b k perms) (chunks va n (off + ?k)))"
      using True k 1(2,3) by (intro 1(1)) (auto simp: keeps_def)
    with True k show ?thesis by (auto simp: unf(2) keeps_def)
  next
    case False
    then show ?thesis using 1(4,5) v k by (auto simp: unf translate_off [OF 1(2,3)] probe_chunk_cast keeps_def)
  qed
qed

lemma split_check_off:
  assumes "identity_map sr" "fst acc = oemu_pstate_el (sr_pstate sr)"
    and "perms = (if fst (snd acc) then OEMU_PERM_WRITE else OEMU_PERM_READ)"
  shows "inv p \<Longrightarrow> (\<And>i. i \<in> set js \<Longrightarrow> accepts p (va + of_nat i) 1 perms) \<Longrightarrow>
    \<exists>s. split_check f0 sr ops va acc js (mmu, p) = (None, s) \<and> keeps p s"
proof (induction js arbitrary: mmu p)
  case (Cons i js)
  let ?m = "tlb_epoch_check sr mmu"
  obtain st1 mmu1 p1 where v: "phys_validate ops (va + of_nat i) 1 perms (?m, p) = (st1, mmu1, p1)" by (metis prod_cases3)
  note k = validate_keeps [OF Cons.prems(1) v]
  then have "inv p1" "accepts p1 = accepts p" "st1 = OEMU_OK" using Cons.prems(2) by (auto simp: keeps_def)
  with Cons.IH [of p1 mmu1] Cons.prems(2) k v show ?case
    by (auto simp: translate_off [OF assms(1,2)] assms(3) [symmetric] dest: keeps_trans)
qed (auto simp: keeps_def)

lemma split_check_any:
  assumes "identity_map sr" "fst acc = oemu_pstate_el (sr_pstate sr)"
  shows "inv p \<Longrightarrow> split_check f0 sr ops va acc js (mmu, p) = (r, s) \<Longrightarrow> keeps p s \<and>
    (r = None \<longrightarrow> (\<forall>i\<in>set js. accepts p (va + of_nat i) 1 (if fst (snd acc) then OEMU_PERM_WRITE else OEMU_PERM_READ)))"
proof (induction js arbitrary: mmu p)
  case (Cons i js)
  let ?m = "tlb_epoch_check sr mmu" and ?perms = "if fst (snd acc) then OEMU_PERM_WRITE else OEMU_PERM_READ :: u32"
  obtain st1 mmu1 p1 where v: "phys_validate ops (va + of_nat i) 1 ?perms (?m, p) = (st1, mmu1, p1)" by (metis prod_cases3)
  note k = validate_keeps [OF Cons.prems(1) v]
  with Cons.IH [of p1 mmu1] Cons.prems(2) v show ?case
    by (cases "st1 = OEMU_OK") (auto simp: translate_off [OF assms] keeps_def)
qed (auto simp: keeps_def)

lemma read_bytes_off:
  assumes "identity_map sr" "fst acc = oemu_pstate_el (sr_pstate sr)"
  shows "inv p \<Longrightarrow> read_bytes sr ops va acc js v (mmu, p) = (r, s) \<Longrightarrow> keeps p s \<and>
    ((\<forall>i\<in>set js. accepts p (va + of_nat i) 1 OEMU_PERM_READ) \<longrightarrow> r \<noteq> None)"
proof (induction js arbitrary: v mmu p)
  case (Cons i js)
  let ?m = "tlb_epoch_check sr mmu"
  obtain q p1 where rd: "mo_read ops p (va + of_nat i) OEMU_MEM_BYTE False = (q, p1)" by fastforce
  note k = read_law [OF Cons.prems(1) rd]
  show ?case
  proof (cases q)
    case (Inl st)
    then show ?thesis using Cons.prems k rd by (auto simp: translate_or_zero_def translate_off [OF assms] phys_read_def keeps_def)
  next
    case (Inr b)
    then show ?thesis using Cons.prems k rd Cons.IH [of p1 "v OR push_bit (i * 8) (b AND 0xFF)" ?m]
      by (auto simp: translate_or_zero_def translate_off [OF assms] phys_read_def keeps_def)
  qed
qed (auto simp: keeps_def)

lemma write_bytes_off:
  assumes "identity_map sr" "fst acc = oemu_pstate_el (sr_pstate sr)"
  shows "inv p \<Longrightarrow> write_bytes sr ops va acc js v (mmu, p) = (st, s) \<Longrightarrow>
    (\<forall>i\<in>set js. accepts p (va + of_nat i) 1 OEMU_PERM_WRITE) \<Longrightarrow>
    st = OEMU_OK \<and> inv (snd s) \<and> accepts (snd s) = accepts p"
proof (induction js arbitrary: mmu p)
  case (Cons i js)
  let ?m = "tlb_epoch_check sr mmu"
  obtain st1 p1 where wr: "mo_write ops p (va + of_nat i) OEMU_MEM_BYTE (drop_bit (i * 8) v AND 0xFF) = (st1, p1)" by fastforce
  note k = write_law [OF Cons.prems(1) wr]
  with Cons.prems(3) have "st1 = OEMU_OK" by simp
  with k Cons.prems wr Cons.IH [of p1 ?m] show ?case
    by (auto simp: translate_or_zero_def translate_off [OF assms] phys_write_def)
qed auto

lemma off_accepts_keeps: "keeps p s \<Longrightarrow> off_accepts accepts s = off_accepts accepts (mmu, p)"
  by (intro ext) (simp add: off_accepts_def keeps_def)

lemma off_byte:
  assumes "inv p" "off_accepts accepts (mmu, p) va n perms" "i < unat n"
  shows "accepts p (va + of_nat i) 1 perms"
proof -
  have "unat (of_nat i :: u64) = i" using less_trans [OF assms(3) unsigned_less]
    by (simp add: unsigned_of_nat take_bit_nat_eq_self)
  then have i: "(of_nat i :: u64) < n" using assms(3) by (simp add: word_less_nat_alt)
  obtain b k where bk: "(b, k) \<in> set (chunks va n 0)" "va + of_nat i - b < k"
    using chunk_of_byte [of 0 "of_nat i" n va] i by auto
  then have "accepts p b k perms" using assms(2) by (auto simp: off_accepts_def list_all_iff)
  moreover have "unat (va + of_nat i - b) + unat (1 :: u64) \<le> unat k" using bk(2) by (simp add: word_less_nat_alt)
  ultimately show ?thesis using accepts_sub [OF assms(1)] by (metis word_gt_0 zero_neq_one)
qed

lemma off_aligned:
  assumes "\<not> misaligned va sz" "sz \<noteq> OEMU_MEM_128"
  shows "off_accepts accepts (mmu, p) va (transfer_bytes sz) perms = accepts p va (transfer_bytes sz) perms"
proof -
  have "transfer_bytes sz = 2 ^ mem_size_val sz" by (cases sz) simp_all
  moreover have "mem_size_val sz \<le> 12" by (cases sz) simp_all
  ultimately show ?thesis using assms chunks_aligned [of va "mem_size_val sz"] by (simp add: misaligned_def off_accepts_def)
qed

lemma transfer_nat: "unat (transfer_bytes sz) = 2 ^ mem_size_val sz"
  by (cases sz) simp_all

lemma mmu_read_off:
  assumes id: "identity_map sr" and p: "inv p" and r: "mmu_read f0 sr ops (mmu, p) a sz sx = (q, s)"
  shows "keeps p s \<and> (sz \<noteq> OEMU_MEM_128 \<and> off_accepts accepts (mmu, p) a (transfer_bytes sz) OEMU_PERM_READ \<longrightarrow> (\<exists>v. q = Inr v))"
proof -
  let ?acc = "mmu_access sr False False" and ?m = "tlb_epoch_check sr mmu" and ?is = "[0..<2 ^ mem_size_val sz]"
  have acc: "fst ?acc = oemu_pstate_el (sr_pstate sr)" "fst (snd ?acc) = False" by (simp_all add: mmu_access_def)
  have al: "\<not> oemu_mmu_internal_alignment_required sr (fst ?acc = OEMU_EL0)" using id acc by (simp add: identity_map_def)
  note unf = mmu_read_def Let_def translate_off [OF id acc(1)] al
  show ?thesis
  proof (cases "misaligned a sz")
    case True
    obtain c mmu1 p1 where c: "split_check f0 sr ops a ?acc ?is (?m, p) = (c, mmu1, p1)" by (metis prod_cases3)
    obtain b s3 where b: "read_bytes sr ops a ?acc ?is 0 (mmu1, p1) = (b, s3)" by (metis prod.collapse)
    note sc = split_check_any [OF id acc(1) p c, unfolded acc(2) if_False]
    then have p1: "inv p1" by (simp add: keeps_def)
    note rb = read_bytes_off [OF id acc(1) p1 b]
    have bytes: "\<forall>i\<in>set ?is. accepts p (a + of_nat i) 1 OEMU_PERM_READ"
      if "off_accepts accepts (mmu, p) a (transfer_bytes sz) OEMU_PERM_READ"
      using off_byte [OF p that] by (simp add: transfer_nat)
    have none: "c = None" if "off_accepts accepts (mmu, p) a (transfer_bytes sz) OEMU_PERM_READ"
      using split_check_off [OF id acc(1) refl p, of ?is a f0 ?m] bytes [OF that] c by (simp add: acc(2))
    show ?thesis using r True sc rb none bytes by (cases c; cases b) (auto simp: unf c b keeps_def)
  next
    case False
    obtain st mmu1 p1 where v: "phys_validate ops a (transfer_bytes sz) OEMU_PERM_READ (?m, p) = (st, mmu1, p1)" by (metis prod_cases3)
    obtain w p2 where f: "mo_read ops p1 a sz False = (w, p2)" by fastforce
    note vk = validate_keeps [OF p v]
    then have p1: "inv p1" by (simp add: keeps_def)
    note rk = read_law [OF p1 f]
    show ?thesis using r False vk rk off_aligned [OF False, of mmu p OEMU_PERM_READ]
      by (cases "st = OEMU_OK"; cases w) (auto simp: unf v f phys_read_def keeps_def)
  qed
qed

lemma mmu_write_off:
  assumes id: "identity_map sr" and p: "inv p" and r: "mmu_write f0 sr ops (mmu, p) a sz x = (st', s)"
  shows "inv (snd s) \<and> accepts (snd s) = accepts p \<and> (st' \<noteq> OEMU_OK \<longrightarrow> content (snd s) = content p) \<and>
    (sz \<noteq> OEMU_MEM_128 \<and> off_accepts accepts (mmu, p) a (transfer_bytes sz) OEMU_PERM_WRITE \<longrightarrow> st' = OEMU_OK)"
proof -
  let ?acc = "mmu_access sr True False" and ?m = "tlb_epoch_check sr mmu" and ?is = "[0..<2 ^ mem_size_val sz]"
  have acc: "fst ?acc = oemu_pstate_el (sr_pstate sr)" "fst (snd ?acc) = True" by (simp_all add: mmu_access_def)
  have al: "\<not> oemu_mmu_internal_alignment_required sr (fst ?acc = OEMU_EL0)" using id acc by (simp add: identity_map_def)
  note unf = mmu_write_def Let_def translate_off [OF id acc(1)] al
  show ?thesis
  proof (cases "misaligned a sz")
    case True
    obtain c mmu1 p1 where c: "split_check f0 sr ops a ?acc ?is (?m, p) = (c, mmu1, p1)" by (metis prod_cases3)
    obtain b s3 where b: "write_bytes sr ops a ?acc ?is x (mmu1, p1) = (b, s3)" by (metis prod.collapse)
    note sc = split_check_any [OF id acc(1) p c, unfolded acc(2) if_True]
    then have p1: "inv p1" "accepts p1 = accepts p" by (simp_all add: keeps_def)
    note wb = write_bytes_off [OF id acc(1) p1(1) b, unfolded p1(2)]
    have bytes: "\<forall>i\<in>set ?is. accepts p (a + of_nat i) 1 OEMU_PERM_WRITE"
      if "off_accepts accepts (mmu, p) a (transfer_bytes sz) OEMU_PERM_WRITE"
      using off_byte [OF p that] by (simp add: transfer_nat)
    have none: "c = None" if "off_accepts accepts (mmu, p) a (transfer_bytes sz) OEMU_PERM_WRITE"
      using split_check_off [OF id acc(1) refl p, of ?is a f0 ?m] bytes [OF that] c by (simp add: acc(2))
    show ?thesis using r True sc wb none by (cases c) (auto simp: unf c b keeps_def)
  next
    case False
    obtain st mmu1 p1 where v: "phys_validate ops a (transfer_bytes sz) OEMU_PERM_WRITE (?m, p) = (st, mmu1, p1)" by (metis prod_cases3)
    obtain w p2 where f: "mo_write ops p1 a sz x = (w, p2)" by fastforce
    note vk = validate_keeps [OF p v]
    then have p1: "inv p1" by (simp add: keeps_def)
    note wk = write_law [OF p1 f]
    show ?thesis using r False vk wk off_aligned [OF False, of mmu p OEMU_PERM_WRITE]
      by (cases "st = OEMU_OK"; cases "w = OEMU_OK") (auto simp: unf v f phys_write_def keeps_def)
  qed
qed

lemma mmu_fetch32_off:
  assumes id: "identity_map sr" and p: "inv p" and r: "mmu_fetch32 sr ops (mmu, p) a = (q, s)"
  shows "keeps p s \<and> q \<noteq> Inl OEMU_OK"
proof -
  let ?acc = "mmu_access sr False True" and ?m = "tlb_epoch_check sr mmu"
  have acc: "fst ?acc = oemu_pstate_el (sr_pstate sr)" by (simp add: mmu_access_def)
  obtain st mmu1 p1 where v: "phys_validate ops a 4 OEMU_PERM_EXEC (?m, p) = (st, mmu1, p1)" by (metis prod_cases3)
  obtain w p2 where f: "mo_fetch32 ops p1 a = (w, p2)" by fastforce
  note vk = validate_keeps [OF p v]
  then have p1: "inv p1" by (simp add: keeps_def)
  show ?thesis using r vk fetch_law [OF p1 f]
    by (cases "st = OEMU_OK"; cases w) (auto simp: mmu_fetch32_def Let_def translate_off [OF id acc] v f phys_fetch32_def keeps_def)
qed

lemma mmu_validate_off:
  assumes id: "identity_map sr" and p: "inv p" and r: "mmu_validate sr ops (mmu, p) a n perms = (st, s)"
  shows "keeps p s \<and> (st = OEMU_OK \<longleftrightarrow> off_accepts accepts (mmu, p) a n perms)"
proof (cases "n = 0")
  case True
  then show ?thesis using r p by (auto simp: mmu_validate_def keeps_def off_accepts_def chunks.simps [of a 0 0])
next
  case False
  let ?acc = "mmu_access sr (perms AND OEMU_PERM_WRITE \<noteq> 0) (perms AND OEMU_PERM_EXEC \<noteq> 0)"
  have "validate_loop sr ops a n perms ?acc 0 (mmu, p) = (st, s)" using r False by (simp add: mmu_validate_def)
  moreover have "fst ?acc = oemu_pstate_el (sr_pstate sr)" by (simp add: mmu_access_def)
  ultimately show ?thesis using validate_loop_off [OF id _ p] by (simp only: off_accepts_def snd_conv)
qed

text \<open>The translated bus keeps the contract.\<close>

lemma off_bus:
  assumes "identity_map sr"
  shows "bus (oemu_mmu_memops f0 sr ops) (\<lambda>s. inv (snd s)) (off_accepts accepts) (\<lambda>s. content (snd s))"
proof (rule bus.intro)
  fix m :: "oemu_mmu \<times> 'p" and a n perms st m'
  obtain mmu p where m: "m = (mmu, p)" by fastforce
  assume i: "inv (snd m)"
  then have p: "inv p" by (simp add: m)
  note ops = oemu_mmu_memops_def
  have eq: "inv (snd s') \<and> off_accepts accepts s' = off_accepts accepts m \<and> content (snd s') = content (snd m)" if "keeps p s'" for s'
    using that off_accepts_keeps [OF that, of mmu] by (simp add: m keeps_def)
  show "inv (snd m') \<and> off_accepts accepts m' = off_accepts accepts m \<and> content (snd m') = content (snd m) \<and>
      (st = OEMU_OK) = off_accepts accepts m a n perms"
    if "mo_validate (oemu_mmu_memops f0 sr ops) m a n perms = (st, m')"
  proof -
    have "mmu_validate sr ops (mmu, p) a n perms = (st, m')" using that by (simp add: m ops)
    from mmu_validate_off [OF assms p this] show ?thesis using eq by (simp add: m)
  qed
  show "inv (snd m') \<and> off_accepts accepts m' = off_accepts accepts m \<and> content (snd m') = content (snd m) \<and>
      (sz \<noteq> OEMU_MEM_128 \<and> off_accepts accepts m a (transfer_bytes sz) OEMU_PERM_READ \<longrightarrow> (\<exists>v. q = Inr v))"
    if "mo_read (oemu_mmu_memops f0 sr ops) m a sz sx = (q, m')" for sz sx q
  proof -
    have "mmu_read f0 sr ops (mmu, p) a sz sx = (q, m')" using that by (simp add: m ops)
    from mmu_read_off [OF assms p this] show ?thesis using eq by (simp add: m)
  qed
  show "inv (snd m') \<and> off_accepts accepts m' = off_accepts accepts m \<and> (st \<noteq> OEMU_OK \<longrightarrow> content (snd m') = content (snd m)) \<and>
      (sz \<noteq> OEMU_MEM_128 \<and> off_accepts accepts m a (transfer_bytes sz) OEMU_PERM_WRITE \<longrightarrow> st = OEMU_OK)"
    if "mo_write (oemu_mmu_memops f0 sr ops) m a sz v = (st, m')" for sz v
  proof -
    have "mmu_write f0 sr ops (mmu, p) a sz v = (st, m')" using that by (simp add: m ops)
    note k = mmu_write_off [OF assms p this]
    then have "off_accepts accepts m' = off_accepts accepts m" by (intro ext) (simp add: off_accepts_def m)
    with k show ?thesis by (simp add: m)
  qed
  show "inv (snd m') \<and> off_accepts accepts m' = off_accepts accepts m \<and> content (snd m') = content (snd m) \<and> r \<noteq> Inl OEMU_OK"
    if "mo_fetch32 (oemu_mmu_memops f0 sr ops) m a = (r, m')" for r
  proof -
    have "mmu_fetch32 sr ops (mmu, p) a = (r, m')" using that by (simp add: m ops)
    from mmu_fetch32_off [OF assms p this] show ?thesis using eq by simp
  qed
qed

end

end
