(* ===== verification/Oemu_Vcpu_Safe.thy ===== *)
theory Oemu_Vcpu_Safe
  imports Oemu_Vcpu Oemu_Mmu_Off Oemu_Exec_Safe
begin

text \<open>
  The step of the virtual CPU never trips one of the program's own checks: exceptions are always
  deliverable below EL2, system-register accesses keep the state sound, the shared switch is precise on
  the translated bus, and every status but success is turned into an exception, a wait or the end of
  the time slice.
\<close>

section \<open>Statuses of the shared switch\<close>

lemma status_case_statuses:
  assumes "insn_wf i" "status_case cpu i = Some (Some (st, cpu'))"
  shows "st \<in> {OEMU_OK, OEMU_ERR_FAULT, OEMU_ERR_UNSUPPORTED}"
proof -
  have b: "st = OEMU_OK" if "do_bitfield cpu i = Some (st, cpu')" "i_op i \<in> bitfield_ops"
    using that assms(1) by (auto simp: do_bitfield_def insn_wf_def Let_def reg_bits_of_eq bind_eq_Some_conv split: if_splits)
  have r: "st = OEMU_OK" if "do_csel cpu i = Some (st, cpu') \<or> do_ccmp cpu i = Some (st, cpu')"
    using that by (auto simp: do_csel_def do_ccmp_def Let_def bind_eq_Some_conv split: if_splits)
  have s: "st \<in> {OEMU_OK, OEMU_ERR_UNSUPPORTED}"
    if "do_mrs None cpu i = Some (st, cpu') \<or> do { (st, _, cpu) \<leftarrow> do_msr None () cpu i; Some (st, cpu) } = Some (st, cpu')"
    using that by (auto simp: do_mrs_def do_msr_def Let_def bind_eq_Some_conv split: if_splits option.splits)
  show ?thesis using assms(2) b r s
    by (simp add: status_case_def Let_def bitfield_ops_def split: if_split_asm) blast+
qed

lemma memory_handler_statuses:
  "do_single_mem mem cpu m i = Some (st, r) \<Longrightarrow> st \<in> {OEMU_OK, OEMU_ERR_FAULT}"
  "do_single_vector mem cpu m i = Some (st, r) \<Longrightarrow> st \<in> {OEMU_OK, OEMU_ERR_FAULT}"
  "do_pair mem cpu m i = Some (st, r) \<Longrightarrow> st \<in> {OEMU_OK, OEMU_ERR_FAULT}"
  "do_pair_vector mem cpu m i = Some (st, r) \<Longrightarrow> st \<in> {OEMU_OK, OEMU_ERR_FAULT}"
  "do_exclusive mem cpu m i = Some (st, r) \<Longrightarrow> st \<in> {OEMU_OK, OEMU_ERR_FAULT}"
  by (auto simp: do_single_mem_def do_single_vector_def do_pair_def do_pair_vector_def do_exclusive_def
      Let_def case_prod_beta bind_eq_Some_conv simp del: split_paired_Ex split: if_split_asm)

lemma memory_case_statuses:
  "memory_case mem cpu m i = Some (Some (st, r)) \<Longrightarrow> st \<in> {OEMU_OK, OEMU_ERR_FAULT}"
  using memory_handler_statuses [of mem cpu m i st r] by (simp add: memory_case_def Let_def split: if_split_asm)

lemma dispatch_statuses:
  assumes "insn_wf i" "oemu_exec_internal_dispatch_bus mem None cpu m e i = Some (st, cpu', m', e')"
  shows "st \<in> {OEMU_OK, OEMU_ERR_FAULT, OEMU_ERR_UNSUPPORTED}"
  using assms insn_wfD(1) [OF assms(1)] status_case_statuses [OF assms(1)] memory_case_statuses [of mem cpu m i]
  unfolding oemu_exec_internal_dispatch_bus_def
  by (fastforce simp: bind_eq_Some_conv do_svc_def split: option.splits if_splits)

section \<open>Exceptions\<close>

definition sys_inv :: "sysstate \<Rightarrow> bool" where
  "sys_inv st \<longleftrightarrow> regs_inv (fst st) \<and> sr_inv (snd st)"

definition exc_safe :: "(sysstate \<Rightarrow> sysstate option) \<Rightarrow> bool" where
  "exc_safe exc \<longleftrightarrow> (\<forall>st. sys_inv st \<and> oemu_pstate_el (sr_pstate (snd st)) \<noteq> OEMU_EL2 \<longrightarrow> wp (exc st) sys_inv)"

lemma exc_take_safe:
  assumes "sys_inv st" "target \<noteq> OEMU_EL0" "target \<noteq> OEMU_EL2"
  shows "wp (oemu_exc_take st kind target esr far fv) sys_inv"
proof -
  obtain regs sr where st: "st = (regs, sr)" by fastforce
  obtain regs' sr' where t: "oemu_exc_take (regs, sr) kind target esr far fv = Some (regs', sr')"
    using exc_take_defined [OF assms(2,3)] by blast
  have "sr_inv sr" using assms(1) by (simp add: st sys_inv_def)
  from exc_take_fields(3-5) [OF t this] show ?thesis using assms(1) t by (simp add: st sys_inv_def regs_inv_def)
qed

lemma pc_past_insn_inv [simp]: "sys_inv (pc_past_insn st) = sys_inv st" "snd (pc_past_insn st) = snd st"
  by (cases st; simp add: pc_past_insn_def sys_inv_def regs_inv_def)+

lemma fault_sources_safe:
  "exc_safe (\<lambda>st. oemu_exc_undefined st w)" "exc_safe (\<lambda>st. oemu_exc_svc st imm)" "exc_safe (\<lambda>st. oemu_exc_brk st imm)"
  "exc_safe (\<lambda>st. oemu_exc_smc st imm)" "exc_safe (\<lambda>st. oemu_exc_hvc st imm)" "exc_safe oemu_exc_breakpoint"
  "exc_safe (\<lambda>st. oemu_exc_instruction_abort st far)" "exc_safe (\<lambda>st. oemu_exc_data_abort st far sz wr isv dfsc)"
  "exc_safe (\<lambda>st. oemu_exc_take st kind (exc_route_of st) esr far fv)"
  by (simp_all add: exc_safe_def oemu_exc_undefined_def oemu_exc_svc_def oemu_exc_brk_def oemu_exc_smc_def oemu_exc_hvc_def
      oemu_exc_breakpoint_def oemu_exc_instruction_abort_def oemu_exc_data_abort_def exc_route_of_def Let_def exc_take_safe)

lemma switch_sp_inv: "sys_inv st \<Longrightarrow> sys_inv (oemu_sysregs_switch_sp st p)"
proof -
  assume i: "sys_inv st"
  obtain regs sr regs' sr' where st: "st = (regs, sr)" and sw: "oemu_sysregs_switch_sp (regs, sr) p = (regs', sr')"
    by (metis prod.collapse)
  note F = switch_sp_fields [OF sw]
  have "sr_elr_el sr' = sr_elr_el sr" "sr_spsr_el sr' = sr_spsr_el sr" "sr_vbar_el sr' = sr_vbar_el sr"
    "sr_esr_el sr' = sr_esr_el sr" "sr_far_el sr' = sr_far_el sr" by (subst F(6), simp)+
  then show ?thesis using i F(3-5) by (simp add: st sw sys_inv_def regs_inv_def sr_inv_def)
qed

lemma eret_safe: "exc_safe oemu_exc_eret"
  unfolding exc_safe_def
proof (intro allI impI, elim conjE)
  fix st assume i: "sys_inv st" and el: "oemu_pstate_el (sr_pstate (snd st)) \<noteq> OEMU_EL2"
  obtain regs sr where st: "st = (regs, sr)" by fastforce
  let ?cur = "oemu_pstate_el (sr_pstate sr)" and ?saved = "sr_spsr_el sr ! el_val (oemu_pstate_el (sr_pstate sr))"
  obtain regs1 sr1 where sw: "oemu_sysregs_switch_sp (regs, sr) (?saved AND NOT (ucast OEMU_NZCV_MASK)) = (regs1, sr1)" by fastforce
  have "sys_inv (regs1, sr1)" using switch_sp_inv [OF i] sw by (metis st)
  then have ok: "sys_inv (oemu_regs_set_nzcv regs1 v\<lparr>r_pc := pc\<rparr>, sr1)" for v pc
    using regs_inv_set_nzcv [of regs1 v] by (simp add: sys_inv_def regs_inv_def)
  show "wp (oemu_exc_eret st) sys_inv"
  proof (cases "?cur = OEMU_EL0")
    case True
    then show ?thesis using fault_sources_safe(1) i el by (simp add: st oemu_exc_eret_def exc_safe_def)
  next
    case False
    then show ?thesis using exc_take_safe [OF i] el ok
      by (auto simp: st oemu_exc_eret_def Let_def sw)
  qed
qed

section \<open>System-register accesses\<close>

lemma setters_inv:
  assumes i: "sys_inv st"
  shows "sys_inv (set_sp_sel st v)" "sys_inv (set_daif st v)" "sys_inv (Oemu_Sysreg.set_nzcv st v)" "sys_inv (set_sp_el0 st v)"
    "sys_inv (set_sp_el1 st v)" "sys_inv (set_cntv_ctl st v)" "sys_inv (set_cntp_ctl st v)" "sys_inv (set_cntv_tval st v)"
    "sys_inv (set_cntp_tval st v)"
proof -
  obtain regs sr where st: "st = (regs, sr)" by fastforce
  note inv = i [unfolded st] sys_inv_def sr_inv_def
  show "sys_inv (set_sp_sel st v)" by (simp only: set_sp_sel_def switch_sp_inv [OF i])
  show "sys_inv (set_daif st v)" using inv by (simp add: st set_daif_def Let_def)
  show "sys_inv (Oemu_Sysreg.set_nzcv st v)" using inv by (simp add: st Oemu_Sysreg.set_nzcv_def)
  show "sys_inv (set_sp_el0 st v)" using inv by (simp add: st set_sp_el0_def Let_def regs_inv_def)
  show "sys_inv (set_sp_el1 st v)" using inv by (simp add: st set_sp_el1_def Let_def regs_inv_def)
  show "sys_inv (set_cntv_ctl st v)" using inv by (simp add: st set_cntv_ctl_def)
  show "sys_inv (set_cntp_ctl st v)" using inv by (simp add: st set_cntp_ctl_def)
  show "sys_inv (set_cntv_tval st v)" using inv by (simp add: st set_cntv_tval_def)
  show "sys_inv (set_cntp_tval st v)" using inv by (simp add: st set_cntp_tval_def)
qed

lemma table_setters_inv:
  "list_all (\<lambda>row. case row_set row of None \<Rightarrow> True | Some f \<Rightarrow> (\<forall>st v. sys_inv st \<longrightarrow> sys_inv (f st v))) k_rows"
  by (simp add: table_defs setters_inv del: split_paired_All)

lemma sysreg_write_inv:
  assumes "sys_inv st"
  shows "sys_inv (snd (oemu_sysreg_write st sel v))"
proof (cases "oemu_sysreg_internal_find sel")
  case (Some row)
  then have row: "row \<in> set k_rows" by (simp add: find_row)
  have stored: "field_ok a" if "row_offset row = Some a" for a
    using row table_fields_ok that by (force simp: list_all_iff)
  have "sys_inv (row_write st row v)"
  proof (cases "row_set row")
    case None
    with assms stored show ?thesis
      by (auto simp: row_write_def field_ok_def sys_inv_def split: option.split)
  next
    case (Some f)
    then have "\<forall>st v. sys_inv st \<longrightarrow> sys_inv (f st v)" using row table_setters_inv by (force simp: list_all_iff)
    with Some assms show ?thesis by (simp add: row_write_def del: split_paired_All)
  qed
  with Some assms show ?thesis by (simp add: oemu_sysreg_write_def)
qed (use assms in \<open>simp add: oemu_sysreg_write_def\<close>)

section \<open>Delivery\<close>

definition cpu_ok :: "oemu_cpu \<times> oemu_sysregs \<Rightarrow> bool" where
  "cpu_ok = (\<lambda>(cpu, sr). cpu_inv cpu \<and> sr_inv sr)"

definition below_hyp :: "oemu_sysregs \<Rightarrow> bool" where
  "below_hyp sr \<longleftrightarrow> oemu_pstate_el (sr_pstate sr) \<noteq> OEMU_EL2"

lemma deliver_safe:
  "exc_safe exc \<Longrightarrow> cpu_ok (cpu, sr) \<Longrightarrow> below_hyp sr \<Longrightarrow> wp (deliver exc cpu sr) cpu_ok"
  unfolding deliver_def wp_simps
  by (rule wp_mono [of _ sys_inv]) (auto simp: exc_safe_def cpu_ok_def cpu_inv_def sys_inv_def below_hyp_def)

lemma sysreg_write_ok:
  "cpu_ok (cpu, sr) \<Longrightarrow> oemu_sysreg_write (c_regs cpu, sr) sel v = (st, regs', sr') \<Longrightarrow> cpu_ok (cpu\<lparr>c_regs := regs'\<rparr>, sr')"
  using sysreg_write_inv [of "(c_regs cpu, sr)" sel v] by (simp add: cpu_ok_def cpu_inv_def sys_inv_def)

lemma fault_far_defined:
  assumes "insn_wf i"
  shows "\<exists>far. fault_far_of cpu i = Some far"
proof -
  obtain a wb where "resolve_mem_addr cpu i = Some (a, wb)"
    using wp_resolve [OF assms, of "\<lambda>_. True" cpu] by (auto simp: wp_def)
  then show ?thesis using insn_wfD(3) [OF assms] by (simp add: fault_far_of_def read_g_eq)
qed

lemma far_safe:
  assumes "insn_wf i"
  shows "exc_safe (\<lambda>st. do { far \<leftarrow> fault_far_of cpu i; oemu_exc_data_abort st far sz wr isv dfsc })"
  using fault_far_defined [OF assms, of cpu] fault_sources_safe(8) by auto

lemma exc_case_safe: "exc_case i = Some exc \<Longrightarrow> exc_safe exc"
  by (auto simp: exc_case_def Let_def fault_sources_safe eret_safe split: if_split_asm)

section \<open>System dispatch over a physical bus with stage 1 off\<close>

lemma zva_dword:
  assumes "off \<in> {0, 8, 16, 24, 32, 40, 48, 56}"
  shows "\<not> misaligned ((addr AND NOT 63) + of_nat off) OEMU_MEM_DWORD"
    "unat ((addr AND NOT 63) + of_nat off - (addr AND NOT 63)) + unat (8 :: u64) \<le> unat (64 :: u64)"
proof -
  let ?l = "addr AND NOT 63"
  have line: "?l AND x = 0" if "63 AND x = x" for x :: u64
  proof -
    have "?l AND (63 AND x) = 0" by (rule bit_eqI) (auto simp: bit_simps)
    with that show ?thesis by simp
  qed
  have "?l AND of_nat off = 0" using assms by (intro line) auto
  then have "?l + of_nat off = ?l OR of_nat off" by (simp add: disjunctive_add_eq_or)
  moreover have "of_nat off AND (7 :: u64) = 0" using assms by auto
  moreover have "?l AND 7 = 0" by (rule line) simp
  ultimately show "\<not> misaligned (?l + of_nat off) OEMU_MEM_DWORD"
    by (simp add: misaligned_def bit.conj_disj_distrib2)
  show "unat (?l + of_nat off - ?l) + unat (8 :: u64) \<le> unat (64 :: u64)" using assms by auto
qed

context physical
begin

abbreviation view :: "oemu_mmu_fault \<Rightarrow> (oemu_mmu \<times> 'p) sys_view" where
  "view f0 \<equiv> translated_view f0 ops"

definition settled :: "oemu_cpu \<times> oemu_sysregs \<times> oemu_mmu \<times> 'p \<Rightarrow> bool" where
  "settled = (\<lambda>(cpu, sr, m). cpu_ok (cpu, sr) \<and> inv (snd m))"

lemma deliver_fault_safe:
  assumes "exc_safe abort" "cpu_ok (cpu, sr)" "below_hyp sr" "inv (snd m)"
  shows "wp (deliver_fault (view f0) abort cpu sr m) (settled)"
proof -
  obtain mmu q where m: "m = (mmu, q)" by fastforce
  have "wp (deliver exc cpu sr) (\<lambda>x. wp (case x of (cpu, sr) \<Rightarrow> Some (cpu, sr, mmu', q)) (settled))"
    if "exc_safe exc" for exc mmu'
    by (rule wp_mono [OF deliver_safe [OF that assms(2,3)]]) (use assms(4) in \<open>auto simp: m settled_def\<close>)
  with assms(1) fault_sources_safe(9) show ?thesis
    by (auto simp: deliver_fault_def translated_view_def m oemu_mmu_take_fault_def simp del: wp_simps(2))
qed

lemma delivered_safe:
  assumes "exc_safe exc" "cpu_ok (cpu, sr)" "below_hyp sr" "inv (snd m)"
  shows "wp (delivered exc cpu sr m) (\<lambda>(st, r). st \<in> {OEMU_OK, OEMU_ERR_FAULT} \<and> settled r)"
  unfolding delivered_def wp_simps
  by (rule wp_mono [OF deliver_safe [OF assms(1-3)]]) (use assms(4) in \<open>auto simp: settled_def\<close>)

lemma zero_line_safe:
  assumes "identity_map sr" "set offs \<subseteq> {0, 8, 16, 24, 32, 40, 48, 56}"
  shows "inv q \<Longrightarrow> accepts q (addr AND NOT 63) 64 OEMU_PERM_WRITE \<Longrightarrow>
    wp (zero_line (oemu_mmu_memops f0 sr ops) (addr AND NOT 63) offs (mmu, q)) (\<lambda>m. inv (snd m))"
  using assms(2)
proof (induction offs arbitrary: mmu q)
  case (Cons off offs)
  let ?a = "(addr AND NOT 63) + of_nat off :: u64"
  note z = zva_dword [of off addr]
  have "accepts q ?a 8 OEMU_PERM_WRITE"
    using accepts_sub [OF Cons.prems(1,2), of ?a 8] z(2) Cons.prems(3) by simp
  then have acc: "off_accepts accepts (mmu, q) ?a (transfer_bytes OEMU_MEM_DWORD) OEMU_PERM_WRITE"
    using off_aligned [of ?a OEMU_MEM_DWORD mmu q OEMU_PERM_WRITE] z(1) Cons.prems(3) by simp
  obtain st mmu' q' where w: "mmu_write f0 sr ops (mmu, q) ?a OEMU_MEM_DWORD 0 = (st, mmu', q')" by (metis prod_cases3)
  from mmu_write_off [OF assms(1) Cons.prems(1) w] acc
  have "st = OEMU_OK" "inv q'" "accepts q' = accepts q" by simp_all
  with Cons.IH [of q' mmu'] Cons.prems w show ?case by (simp add: write_or_panic_def oemu_mmu_memops_def)
qed simp

lemma do_dc_zva_safe:
  assumes "identity_map sr" "insn_wf i" "cpu_ok (cpu, sr)" "below_hyp sr" "inv p"
  shows "wp (do_dc_zva (view f0) cpu sr (mmu, p) i) (\<lambda>(st, r). st \<in> {OEMU_OK, OEMU_ERR_FAULT} \<and> settled r)"
proof -
  let ?addr = "g_val cpu (i_rd i) False OEMU_REG_W64"
  let ?line = "?addr AND NOT 63"
  obtain st mmu1 p1 where v: "mmu_validate sr ops (mmu, p) ?line 64 OEMU_PERM_WRITE = (st, mmu1, p1)" by (metis prod_cases3)
  note k = mmu_validate_off [OF assms(1,5) v]
  have p1: "inv p1" "accepts p1 = accepts p" using k by (simp_all add: keeps_def)
  have al: "?line AND (2 ^ 6 - 1) = 0" by (rule bit_eqI) (auto simp: bit_simps)
  then have "off_accepts accepts (mmu, p) ?line 64 OEMU_PERM_WRITE = accepts p ?line 64 OEMU_PERM_WRITE"
    using chunks_aligned [OF al] by (simp add: off_accepts_def)
  with k p1 have acc: "st = OEMU_OK \<Longrightarrow> accepts p1 ?line 64 OEMU_PERM_WRITE" by simp
  have mem: "sv_mem (view f0) sr = oemu_mmu_memops f0 sr ops" by (simp add: translated_view_def)
  have val: "mo_validate (oemu_mmu_memops f0 sr ops) = mmu_validate sr ops" by (simp add: oemu_mmu_memops_def)
  have bad: "wp (deliver_fault (view f0) abort cpu sr (mmu1, p1))
      (\<lambda>x. wp (case x of (cpu, sr, m) \<Rightarrow> Some (OEMU_ERR_FAULT, cpu, sr, m)) (\<lambda>(st, r). st \<in> {OEMU_OK, OEMU_ERR_FAULT} \<and> settled r))"
    if "exc_safe abort" for abort
    by (rule wp_mono [OF deliver_fault_safe [OF that assms(3,4), of "(mmu1, p1)"]]) (use p1 in auto)
  have good: "wp (zero_line (oemu_mmu_memops f0 sr ops) ?line [0, 8, 16, 24, 32, 40, 48, 56] (mmu1, p1)) (\<lambda>m. settled (cpu, sr, m))"
    if "st = OEMU_OK"
    by (rule wp_mono [OF zero_line_safe [OF assms(1) _ p1(1) acc [OF that]]]) (use assms(3) p1 in \<open>auto simp: settled_def\<close>)
  show ?thesis
    using insn_wfD(2) [OF assms(2)] delivered_safe [OF fault_sources_safe(8) assms(3,4), of "(mmu, p)"] assms(5)
      bad [OF fault_sources_safe(8)] good v
    by (auto simp: do_dc_zva_def read_g_eq mem val Let_def simp del: zero_line.simps)
qed

lemma sysreg_case_safe:
  assumes "identity_map sr" "insn_wf i" "cpu_ok (cpu, sr)" "below_hyp sr" "inv p" "sysreg_case (view f0) cpu sr (mmu, p) i w = Some r"
  shows "wp r (\<lambda>(st, r). st \<in> {OEMU_OK, OEMU_ERR_FAULT} \<and> settled r)"
proof -
  let ?Q = "\<lambda>(st, r). st \<in> {OEMU_OK, OEMU_ERR_FAULT} \<and> settled r"
  note wf = insn_wfD [OF assms(2)]
  have cpu: "settled (cpu, sr, mmu', p)" for mmu' using assms(3,5) by (simp add: settled_def)
  have und: "wp (delivered (\<lambda>st. oemu_exc_undefined st w) cpu sr (mmu, p)) ?Q"
    by (rule delivered_safe [OF fault_sources_safe(1) assms(3,4)]) (use assms(5) in simp_all)
  have put: "settled (cpu\<lparr>c_regs := regs'\<rparr>, sr', mmu, p)" if "oemu_sysreg_write (c_regs cpu, sr) sel v = (st, regs', sr')" for sel v st regs' sr'
    using sysreg_write_ok [OF assms(3) that] assms(5) by (simp add: settled_def)
  have mrs: "wp (do_mrs_system cpu sr (mmu, p) i w) ?Q"
    using und wf cpu assms(3) by (auto simp: do_mrs_system_def write_g_eq settled_def cpu_ok_def split: sum.split)
  have msr: "wp (do_msr_system cpu sr (mmu, p) i w) ?Q"
    using und wf put by (auto simp: do_msr_system_def read_g_eq split: prod.split)
  have imm: "wp (do_msr_immediate cpu sr (mmu, p) i w) ?Q"
    using und put cpu by (auto simp: do_msr_immediate_def Let_def split: prod.split sum.split)
  have sys: "wp (do_sys (view f0) cpu sr (mmu, p) i w) ?Q"
  proof (cases "oemu_exec_internal_sys_action (i_sysreg i AND SYSREG_MASK)")
    case OEMU_EXEC_SYS_AT
    have "settled (cpu, sr\<lparr>sr_par_el1 := v\<rparr>, mmu', p)" for v mmu' using cpu by (simp add: settled_def cpu_ok_def sr_inv_def)
    with OEMU_EXEC_SYS_AT wf show ?thesis
      by (simp add: do_sys_def read_g_eq translated_view_def oemu_mmu_translate_def translate_off [OF assms(1)] Let_def)
  qed (use und cpu do_dc_zva_safe [OF assms(1-5)] in \<open>simp_all add: do_sys_def translated_view_def\<close>)
  show ?thesis using assms(6) mrs msr imm sys by (auto simp: sysreg_case_def split: if_split_asm)
qed

lemma shared_case_safe:
  assumes "identity_map sr" "insn_wf i" "cpu_ok (cpu, sr)" "below_hyp sr" "inv p"
  shows "wp (shared_case (view f0) cpu sr (mmu, p) e i w) (\<lambda>(st, cpu', sr', m', e'). st = OEMU_OK \<and> settled (cpu', sr', m'))"
proof -
  let ?Q = "\<lambda>(st, cpu', sr', m', e'). st = OEMU_OK \<and> settled (cpu', sr', m')"
  let ?mem = "oemu_mmu_memops f0 sr ops" and ?none = "\<lparr>env_syscall = None, env_halted = None, env_fw_call = None\<rparr>"
  have mem: "sv_mem (view f0) sr = ?mem" by (simp add: translated_view_def)
  have env: "bus_env ?mem (\<lambda>s. inv (snd s)) (off_accepts accepts) (\<lambda>s. content (snd s)) ?none"
    by (intro bus_env.intro bus_env_axioms.intro off_bus [OF assms(1)]) simp
  have c: "cpu_inv cpu" using assms(3) by (simp add: cpu_ok_def)
  obtain st cpu' m' e' where d: "oemu_exec_internal_dispatch_bus ?mem None cpu (mmu, p) e i = Some (st, cpu', m', e')"
    and pr: "bus_env.precise_e (\<lambda>s. inv (snd s)) (off_accepts accepts) (\<lambda>s. content (snd s)) cpu (mmu, p) e (st, cpu', m', e')"
    using bus_env.dispatch_precise [OF env _ c assms(2), of "(mmu, p)" None e] assms(5)
    by (auto simp: wp_def bus_env.env_ok_def [OF env])
  then have m': "inv (snd m')" "cpu_ok (cpu', sr)" using assms(3) by (simp_all add: bus_env.precise_e_def [OF env] cpu_ok_def)
  have flt: "wp (deliver_fault (view f0) abort cpu' sr m') (\<lambda>x. wp (case x of (cpu, sr, m) \<Rightarrow> Some (OEMU_OK, cpu, sr, m, e')) ?Q)"
    if "exc_safe abort" for abort
    by (rule wp_mono [OF deliver_fault_safe [OF that m'(2) assms(4) m'(1)]]) auto
  have und: "wp (deliver exc cpu' sr) (\<lambda>x. wp (case x of (cpu, sr) \<Rightarrow> Some (OEMU_OK, cpu, sr, m', e')) ?Q)" if "exc_safe exc" for exc
    by (rule wp_mono [OF deliver_safe [OF that m'(2) assms(4)]]) (use m'(1) in \<open>auto simp: settled_def\<close>)
  have "?Q (st, cpu', sr, m', e')" if "st = OEMU_OK" using that m' by (simp add: settled_def)
  then show ?thesis using dispatch_statuses [OF assms(2) d] flt [OF far_safe [OF assms(2)]] und [OF fault_sources_safe(1)]
    unfolding shared_case_def mem d by auto
qed

lemma firmware_case_safe:
  assumes "cpu_ok (cpu, sr)" "below_hyp sr" "inv p"
  shows "wp (firmware_case env cpu sr (mmu, p) e i) (\<lambda>(st, cpu', sr', m', e'). st = OEMU_OK \<and> settled (cpu', sr', m'))"
proof -
  have exc: "wp (deliver exc cpu sr) (\<lambda>x. \<forall>cpu' sr'. x = (cpu', sr') \<longrightarrow> settled (cpu', sr', mmu, p))" if "exc_safe exc" for exc
    by (rule wp_mono [OF deliver_safe [OF that assms(1,2)]]) (use assms(3) in \<open>auto simp: settled_def\<close>)
  have "cpu_ok (cpu\<lparr>c_regs := oemu_regs_set_pc (c_regs (g_set cpu 0 False OEMU_REG_W64 v)) pc\<rparr>, sr)" for v pc
    using assms(1) cpu_inv_g_set [of cpu 0 False OEMU_REG_W64 v] by (simp add: cpu_ok_def cpu_inv_def)
  then have ret: "settled (cpu\<lparr>c_regs := oemu_regs_set_pc (c_regs (g_set cpu 0 False OEMU_REG_W64 v)) pc\<rparr>, sr, mmu, p)" for v pc
    using assms(3) by (simp add: settled_def)
  have call: "exc_safe (\<lambda>st. if hvc then oemu_exc_hvc st imm else oemu_exc_smc st imm)" for hvc imm
    using fault_sources_safe(4,5) by (cases hvc) simp_all
  show ?thesis using exc [OF call] ret
    by (simp add: firmware_case_def regs_read_eq regs_write_eq Let_def split: prod.split option.split)
qed

lemma dispatch_system_safe:
  assumes "identity_map sr" "insn_wf i" "cpu_ok (cpu, sr)" "below_hyp sr" "inv p"
  shows "wp (oemu_exec_internal_dispatch_system (view f0) env cpu sr (mmu, p) e i w)
    (\<lambda>(st, cpu', sr', m', e'). st = OEMU_OK \<and> settled (cpu', sr', m'))"
proof -
  let ?Q = "\<lambda>(st, cpu', sr', m', e'). st = OEMU_OK \<and> settled (cpu', sr', m')"
  have exc: "wp (deliver exc cpu sr) (\<lambda>x. wp (case x of (cpu, sr) \<Rightarrow> Some (OEMU_OK, cpu, sr, (mmu, p), e)) ?Q)"
    if "exc_case i = Some exc" for exc
    by (rule wp_mono [OF deliver_safe [OF exc_case_safe [OF that] assms(3,4)]]) (use assms(5) in \<open>auto simp: settled_def\<close>)
  have adv: "settled (cpu'\<lparr>c_regs := oemu_regs_advance_pc (c_regs cpu')\<rparr>, sr', m')" if "settled (cpu', sr', m')" for cpu' sr' m'
    using that by (simp add: settled_def cpu_ok_def cpu_inv_def)
  have reg: "wp r (\<lambda>x. wp (case x of (st, cpu, sr, m) \<Rightarrow>
      if st = OEMU_ERR_FAULT then Some (OEMU_OK, cpu, sr, m, e)
      else if st \<noteq> OEMU_OK then Some (st, cpu, sr, m, e)
      else Some (OEMU_OK, cpu\<lparr>c_regs := oemu_regs_advance_pc (c_regs cpu)\<rparr>, sr, m, e)) ?Q)"
    if "sysreg_case (view f0) cpu sr (mmu, p) i w = Some r" for r
    by (rule wp_mono [OF sysreg_case_safe [OF assms that]]) (auto intro: adv)
  show ?thesis
    using insn_wfD(1) [OF assms(2)] exc reg firmware_case_safe [OF assms(3-5), of env mmu e i] shared_case_safe [OF assms, of f0 mmu e w]
    by (simp add: oemu_exec_internal_dispatch_system_def split: option.split)
qed

end

section \<open>The step\<close>

definition vcpu_inv :: "oemu_vcpu \<Rightarrow> bool" where
  "vcpu_inv v \<longleftrightarrow> cpu_inv (vc_cpu v) \<and> sr_inv (vc_sysregs v)"

text \<open>The CPU before a step: the counter moved on.\<close>

definition tick :: "oemu_vcpu \<Rightarrow> oemu_vcpu" where
  "tick v = v\<lparr>vc_sysregs := (vc_sysregs v)\<lparr>sr_cntvct := sr_cntvct (vc_sysregs v) + OEMU_TIMER_COUNTS_PER_INSN\<rparr>\<rparr>"

lemma tick_counter: "(vc_sysregs (tick v))\<lparr>sr_cntvct := c\<rparr> = (vc_sysregs v)\<lparr>sr_cntvct := c\<rparr>"
  by (simp add: tick_def)

lemma tick_fields [simp]:
  "vc_cpu (tick v) = vc_cpu v" "vc_insns_left (tick v) = vc_insns_left v" "vc_mmu (tick v) = vc_mmu v"
  "sr_pstate (vc_sysregs (tick v)) = sr_pstate (vc_sysregs v)" "vcpu_inv (tick v) = vcpu_inv v"
  "identity_map (vc_sysregs (tick v)) = identity_map (vc_sysregs v)" "below_hyp (vc_sysregs (tick v)) = below_hyp (vc_sysregs v)"
  "vc_irq_level (tick v) = vc_irq_level v" "vc_fiq_level (tick v) = vc_fiq_level v"
  by (simp_all add: tick_def vcpu_inv_def sr_inv_def identity_map_def oemu_mmu_internal_alignment_required_def below_hyp_def)

lemma charge_fields [simp]: "vcpu_inv (charge v) = vcpu_inv v" "vc_insns_left (charge v) = vc_insns_left v - 1"
  by (simp_all add: charge_def vcpu_inv_def)

text \<open>The step with its first decisions made.\<close>

lemma vcpu_step_cases:
  assumes "vc_insns_left v \<noteq> 0"
  shows "oemu_vcpu_step f0 phys env v p e =
    (case oemu_vcpu_internal_pending_kind (sr_pstate (vc_sysregs v)) (vc_irq_level v) (vc_fiq_level v) of
       None \<Rightarrow> vcpu_fetch_execute f0 phys env (tick v) p e
     | Some kind \<Rightarrow> do {
         v' \<leftarrow> vcpu_deliver (\<lambda>st. oemu_exc_take st kind (exc_route_of st) 0 0 False) (tick v);
         Some (OEMU_OK, None, charge v', p, e) })"
  using assms tick_fields [of v] unfolding oemu_vcpu_step_def tick_def [symmetric] Let_def
  by (simp add: oemu_vcpu_take_pending_def split: option.split)

lemma vcpu_deliver_safe:
  assumes "exc_safe exc" "vcpu_inv v" "below_hyp (vc_sysregs v)"
  shows "wp (vcpu_deliver exc v) (\<lambda>v'. vcpu_inv v' \<and> vc_insns_left v' = vc_insns_left v)"
  unfolding vcpu_deliver_def wp_simps
  by (rule wp_mono [OF deliver_safe [OF assms(1) _ assms(3)]]) (use assms(2) in \<open>auto simp: vcpu_inv_def cpu_ok_def\<close>)

context physical
begin

text \<open>What a step may do: keep the invariants, and either complete and be charged, or leave the CPU's
  registers, the system registers but the counter, the contents of memory and the environment as they were.\<close>

definition step_ok :: "oemu_vcpu \<Rightarrow> 'p \<Rightarrow> 'e \<Rightarrow> oemu_status \<times> oemu_insn option \<times> oemu_vcpu \<times> 'p \<times> 'e \<Rightarrow> bool" where
  "step_ok v p e = (\<lambda>(st, io, v', p', e'). vcpu_inv v' \<and> inv p' \<and>
     (if st = OEMU_OK then vc_insns_left v' = vc_insns_left v - 1
      else st = OEMU_ERR_BLOCKED \<and> vc_insns_left v' = vc_insns_left v \<and> vc_cpu v' = vc_cpu v \<and>
        (\<exists>c. vc_sysregs v' = (vc_sysregs v)\<lparr>sr_cntvct := c\<rparr>) \<and> content p' = content p \<and> e' = e))"

lemma vcpu_execute_safe:
  assumes "identity_map (vc_sysregs v)" "below_hyp (vc_sysregs v)" "vcpu_inv v" "inv p" "insn_wf i"
  shows "wp (vcpu_execute f0 ops env v p e i w) (step_ok v p e)"
proof -
  let ?ev = "if i_op i = OEMU_OP_HINT \<and> (i_uimm i = 4 \<or> i_uimm i = 5) then v\<lparr>vc_event_reg := True\<rparr> else v"
  obtain wait v' where w: "(if i_op i = OEMU_OP_WFI \<or> i_op i = OEMU_OP_WFE then vcpu_wait ?ev i else (OEMU_OK, ?ev)) = (wait, v')"
    by fastforce
  then have v': "vc_cpu v' = vc_cpu v" "vc_sysregs v' = vc_sysregs v" "vc_insns_left v' = vc_insns_left v" "vc_mmu v' = vc_mmu v"
    and wait: "wait \<in> {OEMU_OK, OEMU_ERR_BLOCKED}"
    by (auto simp: vcpu_wait_def split: if_split_asm)
  have c: "cpu_ok (vc_cpu v, vc_sysregs v)" using assms(3) by (simp add: cpu_ok_def vcpu_inv_def)
  show ?thesis
  proof (cases "wait = OEMU_OK")
    case True
    show ?thesis
      by (simp only: vcpu_execute_def Let_def w prod.case True v' simp_thms if_False wp_simps)
        (rule wp_mono [OF dispatch_system_safe [OF assms(1,5) c assms(2,4)]],
          auto simp: settled_def step_ok_def cpu_ok_def vcpu_inv_def charge_def v')
  next
    case False
    have "\<exists>c. vc_sysregs v = (vc_sysregs v)\<lparr>sr_cntvct := c\<rparr>" by (rule exI [of _ "sr_cntvct (vc_sysregs v)"]) simp
    then have "step_ok v p e (OEMU_ERR_BLOCKED, Some i, v', p, e)"
      using assms(3,4) v' by (simp add: step_ok_def vcpu_inv_def)
    with False wait show ?thesis by (simp add: vcpu_execute_def w)
  qed
qed

lemma vcpu_fetch_execute_safe:
  assumes id: "identity_map (vc_sysregs v)" and el: "below_hyp (vc_sysregs v)" and v: "vcpu_inv v" and p: "inv p"
  shows "wp (vcpu_fetch_execute f0 ops env v p e) (step_ok v p e)"
proof -
  let ?pc = "oemu_regs_pc (c_regs (vc_cpu v))"
  obtain r mmu1 p1 where f: "mo_fetch32 (sv_mem (view f0) (vc_sysregs v)) (vc_mmu v, p) ?pc = (r, mmu1, p1)" by (metis prod_cases3)
  then have "keeps p (mmu1, p1)" using mmu_fetch32_off [OF id p] by (simp add: translated_view_def oemu_mmu_memops_def)
  then have p1: "inv p1" "content p1 = content p" by (simp_all add: keeps_def)
  show ?thesis
  proof (cases r)
    case (Inl st)
    have c: "cpu_ok (vc_cpu v, vc_sysregs v)" using v by (simp add: cpu_ok_def vcpu_inv_def)
    show ?thesis
      by (simp only: vcpu_fetch_execute_def Let_def f Inl prod.case sum.case wp_simps)
        (rule wp_mono [OF deliver_fault_safe [OF fault_sources_safe(7) c el]],
          use p1 in \<open>auto simp: settled_def step_ok_def cpu_ok_def vcpu_inv_def charge_def\<close>)
  next
    case (Inr w)
    let ?v1 = "v\<lparr>vc_mmu := mmu1\<rparr>"
    obtain dec i where d: "oemu_decode w ?pc = (dec, i)" by fastforce
    have v1: "vcpu_inv ?v1" "below_hyp (vc_sysregs ?v1)" "identity_map (vc_sysregs ?v1)" using v el id by (simp_all add: vcpu_inv_def)
    have und: "wp (vcpu_deliver (\<lambda>st. oemu_exc_undefined st w) ?v1) (\<lambda>v'. step_ok v p e (OEMU_OK, Some i, charge v', p1, e))"
      by (rule wp_mono [OF vcpu_deliver_safe [OF fault_sources_safe(1) v1(1,2)]]) (use p1 in \<open>auto simp: step_ok_def\<close>)
    have exec: "wp (vcpu_execute f0 ops env ?v1 p1 e i w) (step_ok v p e)" if "dec = OEMU_OK"
      by (rule wp_mono [OF vcpu_execute_safe [OF v1(3,2,1) p1(1) oemu_decode_wf [OF d [unfolded that]]]])
        (use p1 in \<open>auto simp: step_ok_def split: if_split_asm\<close>)
    show ?thesis using und exec by (simp add: vcpu_fetch_execute_def Let_def f Inr d)
  qed
qed

lemma vcpu_step_safe:
  assumes id: "identity_map (vc_sysregs v)" and el: "below_hyp (vc_sysregs v)" and v: "vcpu_inv v" and p: "inv p"
    and left: "vc_insns_left v \<noteq> 0"
  shows "wp (oemu_vcpu_step f0 ops env v p e) (step_ok v p e)"
proof (cases "oemu_vcpu_internal_pending_kind (sr_pstate (vc_sysregs v)) (vc_irq_level v) (vc_fiq_level v)")
  case None
  have "wp (vcpu_fetch_execute f0 ops env (tick v) p e) (step_ok v p e)"
    by (rule wp_mono [OF vcpu_fetch_execute_safe]) (use assms in \<open>auto simp: step_ok_def tick_counter\<close>)
  with None show ?thesis by (simp add: vcpu_step_cases [OF left])
next
  case (Some kind)
  have "wp (vcpu_deliver (\<lambda>st. oemu_exc_take st kind (exc_route_of st) 0 0 False) (tick v)) (\<lambda>v'. step_ok v p e (OEMU_OK, None, charge v', p, e))"
    by (rule wp_mono [OF vcpu_deliver_safe [OF fault_sources_safe(9)]]) (use v el p in \<open>auto simp: step_ok_def\<close>)
  with Some show ?thesis by (simp add: vcpu_step_cases [OF left])
qed

end

end
