(* ===== verification/Oemu_Vcpu_Props.thy ===== *)
theory Oemu_Vcpu_Props
  imports Oemu_Vcpu_Safe
begin

text \<open>
  The promises of the virtual CPU: a step always returns and keeps the machine sound, interrupts are
  taken before the next instruction in the architecture's order, the time slice is accounted exactly,
  and an instruction that completes does in system mode what it does in user mode.
\<close>

section \<open>Statuses\<close>

text \<open>What holds of a call's result if it returns.\<close>

definition wlp :: "'a option \<Rightarrow> ('a \<Rightarrow> bool) \<Rightarrow> bool" where
  "wlp r P \<longleftrightarrow> (\<forall>x. r = Some x \<longrightarrow> P x)"

lemma wlp_simps [simp]:
  "wlp (Some x) P = P x" "wlp None P" "wlp (r \<bind> f) P = wlp r (\<lambda>x. wlp (f x) P)" "wlp r (\<lambda>x. True)"
  by (cases r; simp add: wlp_def)+

lemma wlp_mono: "wlp r P \<Longrightarrow> (\<And>x. P x \<Longrightarrow> Q x) \<Longrightarrow> wlp r Q"
  by (auto simp: wlp_def)

lemma wlpD: "wlp r P \<Longrightarrow> r = Some x \<Longrightarrow> P x"
  by (simp add: wlp_def)

abbreviation done_or_fault :: "oemu_status \<times> 'a \<Rightarrow> bool" where
  "done_or_fault \<equiv> \<lambda>(st, r). st = OEMU_OK \<or> st = OEMU_ERR_FAULT"

lemma delivered_status [simp]: "wlp (delivered exc cpu sr m) done_or_fault"
  by (simp add: delivered_def case_prod_beta)

lemma sysreg_handler_statuses:
  "wlp (do_mrs_system cpu sr m i w) done_or_fault" "wlp (do_msr_system cpu sr m i w) done_or_fault"
  "wlp (do_msr_immediate cpu sr m i w) done_or_fault" "wlp (do_dc_zva view cpu sr m i) done_or_fault"
  by (simp_all add: do_mrs_system_def do_msr_system_def do_msr_immediate_def do_dc_zva_def Let_def case_prod_beta
      del: zero_line.simps split: sum.split)

lemma sysreg_case_status: "sysreg_case view cpu sr m i w = Some r \<Longrightarrow> wlp r done_or_fault"
  by (auto simp: sysreg_case_def sysreg_handler_statuses do_sys_def Let_def case_prod_beta split: if_split_asm oemu_exec_sys_action.split)

abbreviation completes :: "oemu_status \<times> 'a \<Rightarrow> bool" where
  "completes \<equiv> \<lambda>(st, r). st = OEMU_OK"

lemma firmware_case_status: "wlp (firmware_case env cpu sr m e i) completes"
  by (simp add: firmware_case_def Let_def case_prod_beta split: option.split)

lemma shared_case_status:
  assumes "insn_wf i"
  shows "wlp (shared_case view cpu sr m e i w) completes"
proof -
  have "wlp (oemu_exec_internal_dispatch_bus (sv_mem view sr) None cpu m e i)
      (\<lambda>(st, r). st \<in> {OEMU_OK, OEMU_ERR_FAULT, OEMU_ERR_UNSUPPORTED})"
    using dispatch_statuses [OF assms, of "sv_mem view sr" cpu m e] by (auto simp: wlp_def)
  then show ?thesis unfolding shared_case_def wlp_simps by (rule wlp_mono) (auto simp: case_prod_beta)
qed

lemma dispatch_system_status:
  assumes "insn_wf i"
  shows "wlp (oemu_exec_internal_dispatch_system view env cpu sr m e i w) completes"
proof -
  have "wlp r (\<lambda>x. wlp (case x of (st, cpu, sr, m) \<Rightarrow> if st = OEMU_ERR_FAULT then Some (OEMU_OK, cpu, sr, m, e)
      else if st \<noteq> OEMU_OK then Some (st, cpu, sr, m, e)
      else Some (OEMU_OK, cpu\<lparr>c_regs := oemu_regs_advance_pc (c_regs cpu)\<rparr>, sr, m, e)) completes)"
    if "sysreg_case view cpu sr m i w = Some r" for r
    by (rule wlp_mono [OF sysreg_case_status [OF that]]) auto
  then show ?thesis using insn_wfD(1) [OF assms] firmware_case_status [of env cpu sr m e i] shared_case_status [OF assms, of view cpu sr m e w]
    by (simp add: oemu_exec_internal_dispatch_system_def case_prod_beta split: option.split)
qed

text \<open>A step is charged exactly when it succeeds, and otherwise ends the slice or waits.\<close>

definition charged :: "oemu_vcpu \<Rightarrow> oemu_status \<times> oemu_insn option \<times> oemu_vcpu \<times> 'r \<Rightarrow> bool" where
  "charged v = (\<lambda>(st, io, v', r). vc_quantum v' = vc_quantum v \<and>
     (if st = OEMU_OK then vc_insns_left v' = vc_insns_left v - 1 else st = OEMU_ERR_BLOCKED \<and> vc_insns_left v' = vc_insns_left v))"

lemma vcpu_execute_charge:
  assumes "insn_wf i"
  shows "wlp (vcpu_execute f0 phys env v p e i w) (charged v)"
proof -
  have "wlp (oemu_exec_internal_dispatch_system view env cpu sr m e i w) (\<lambda>x. wlp (case x of (st, cpu, sr, (mmu, p), e) \<Rightarrow>
      let u = u\<lparr>vc_cpu := cpu, vc_sysregs := sr, vc_mmu := mmu\<rparr> in
      if st \<noteq> OEMU_OK then Some (st, Some i, u, p, e) else Some (OEMU_OK, Some i, charge u, p, e)) (charged v))"
    if "vc_quantum u = vc_quantum v" "vc_insns_left u = vc_insns_left v" for view cpu sr m u
    by (rule wlp_mono [OF dispatch_system_status [OF assms]]) (use that in \<open>auto simp: charged_def charge_def Let_def\<close>)
  then show ?thesis
    by (simp add: vcpu_execute_def Let_def vcpu_wait_def case_prod_beta charged_def)
qed

lemma vcpu_deliver_slice:
  "wlp (vcpu_deliver exc v) (\<lambda>v'. vc_quantum v' = vc_quantum v \<and> vc_insns_left v' = vc_insns_left v)"
  by (simp add: vcpu_deliver_def case_prod_beta)

lemma vcpu_fetch_execute_charge: "wlp (vcpu_fetch_execute f0 phys env v p e) (charged v)"
proof -
  let ?pc = "oemu_regs_pc (c_regs (vc_cpu v))"
  obtain r mmu1 p1 where f: "mo_fetch32 (sv_mem (translated_view f0 phys) (vc_sysregs v)) (vc_mmu v, p) ?pc = (r, mmu1, p1)"
    by (metis prod_cases3)
  show ?thesis
  proof (cases r)
    case (Inl st)
    then show ?thesis by (simp add: vcpu_fetch_execute_def f case_prod_beta charged_def charge_def)
  next
    case (Inr w)
    let ?v = "v\<lparr>vc_mmu := mmu1\<rparr>"
    obtain dec i where d: "oemu_decode w ?pc = (dec, i)" by fastforce
    have "wlp (vcpu_execute f0 phys env ?v p1 e i w) (charged v)" if "dec = OEMU_OK"
      by (rule wlp_mono [OF vcpu_execute_charge [OF oemu_decode_wf [OF d [unfolded that]]]]) (auto simp: charged_def)
    moreover have "wlp (vcpu_deliver exc ?v) (\<lambda>v'. charged v (OEMU_OK, Some i, charge v', p1, e))" for exc
      by (rule wlp_mono [OF vcpu_deliver_slice]) (auto simp: charged_def charge_def)
    ultimately show ?thesis using Inr by (simp add: vcpu_fetch_execute_def f d Let_def)
  qed
qed

lemma vcpu_step_charge: "vc_insns_left v \<noteq> 0 \<Longrightarrow> wlp (oemu_vcpu_step f0 phys env v p e) (charged v)"
proof -
  have t: "charged (tick v) = charged v" by (simp add: charged_def fun_eq_iff tick_def)
  have "wlp (vcpu_deliver exc (tick v)) (\<lambda>v'. charged v (OEMU_OK, None, charge v', p, e))" for exc
    by (rule wlp_mono [OF vcpu_deliver_slice]) (auto simp: charged_def charge_def tick_def)
  moreover assume "vc_insns_left v \<noteq> 0"
  ultimately show ?thesis using vcpu_fetch_execute_charge [of f0 phys env "tick v" p e]
    by (simp add: vcpu_step_cases t split: option.split)
qed

lemma vcpu_run_loop_account:
  "vcpu_run_loop n f0 phys env d v p e = Some (st, d', v', p', e') \<Longrightarrow>
   d \<le> d' \<and> d' \<le> d + n \<and> unat (vc_insns_left v') + d' = unat (vc_insns_left v) + d \<and> vc_quantum v' = vc_quantum v \<and>
   (if st = OEMU_OK then vcpu_halted env e'
    else if st = OEMU_ERR_TIMEOUT then d' = d + n \<or> vc_insns_left v' = 0 else st = OEMU_ERR_BLOCKED)"
proof (induction n arbitrary: d v p e)
  case (Suc n)
  show ?case
  proof (cases "vcpu_halted env e")
    case False
    then obtain st1 io v1 p1 e1 where s: "oemu_vcpu_step f0 phys env v p e = Some (st1, io, v1, p1, e1)"
      and r: "(if st1 \<noteq> OEMU_OK then Some (st1, d, v1, p1, e1) else vcpu_run_loop n f0 phys env (d + 1) v1 p1 e1) = Some (st, d', v', p', e')"
      using Suc.prems by (auto simp: bind_eq_Some_conv)
    show ?thesis
    proof (cases "vc_insns_left v = 0")
      case True
      with s r show ?thesis by (auto simp: oemu_vcpu_step_def)
    next
      case left: False
      note c = wlpD [OF vcpu_step_charge [OF left] s]
      have l: "unat (vc_insns_left v1) + 1 = unat (vc_insns_left v)" if "vc_insns_left v1 = vc_insns_left v - 1"
        using left that by (simp add: unat_minus_one unat_gt_0)
      from c r l Suc.IH [of "d + 1" v1 p1 e1] show ?thesis by (auto simp: charged_def split: if_split_asm)
    qed
  qed (use Suc.prems in auto)
qed (auto split: if_split_asm)

section \<open>Safety\<close>

text \<open>
  Property C2. A step of the virtual CPU over the RAM of the address space, below EL2, with stage-1
  translation and alignment checking off, always returns: whatever the guest's registers and memory hold,
  whatever the environment answers, no check of the decoder, the executor, the exception model, the
  translation layer or the address space is tripped. The invariants of the register file, the system
  registers and the memory map hold afterwards. The status is success, which costs one instruction of the
  slice; or the slice was already empty and nothing changes; or the CPU waits, uncharged, and then the
  general registers, every system register but the running counter, the contents of RAM and the
  environment are as they were.
\<close>

theorem vcpu_step_sound:
  fixes p :: "'d space"
  assumes "vcpu_inv v" and "ram_inv p" and "identity_map (vc_sysregs v)" and "oemu_vcpu_el v \<noteq> OEMU_EL2"
  shows "\<exists>st io v' p' e'. oemu_vcpu_step f0 oemu_aspace_memops env v p e = Some (st, io, v', p', e') \<and> vcpu_inv v' \<and> ram_inv p' \<and>
    (if vc_insns_left v = 0 then st = OEMU_ERR_TIMEOUT \<and> v' = v \<and> p' = p \<and> e' = e
     else if st = OEMU_OK then vc_insns_left v' = vc_insns_left v - 1
     else st = OEMU_ERR_BLOCKED \<and> vc_insns_left v' = vc_insns_left v \<and> vc_cpu v' = vc_cpu v \<and>
       (\<exists>c. vc_sysregs v' = (vc_sysregs v)\<lparr>sr_cntvct := c\<rparr>) \<and> ram_content p' = ram_content p \<and> e' = e)"
proof (cases "vc_insns_left v = 0")
  case False
  have "below_hyp (vc_sysregs v)" using assms(4) by (simp add: below_hyp_def oemu_vcpu_el_def)
  from ram_phys.vcpu_step_safe [OF assms(3) this assms(1,2) False, of f0 env e] False
  show ?thesis by (auto simp: wp_def ram_phys.step_ok_def)
qed (use assms in \<open>simp add: oemu_vcpu_step_def\<close>)

section \<open>Interrupts\<close>

text \<open>
  Property C3. Interrupt delivery: with instructions left in the slice, a step takes a raised and
  unmasked FIQ, else a raised and unmasked IRQ, before it fetches: memory, translation state and
  environment are untouched, the PC becomes the vector of that kind at the level that takes it, the
  link register holds the address of the instruction not yet executed, all interrupts are masked
  and one instruction is charged. With neither pin raised and unmasked nothing is delivered: the step
  is the fetch and execution of the instruction at the PC.
\<close>

theorem vcpu_interrupt_delivery:
  assumes "sr_inv (vc_sysregs v)" and "vc_insns_left v \<noteq> 0"
    and "fiq = (vc_fiq_level v \<and> sr_pstate (vc_sysregs v) AND VCPU_F_MASK = 0)"
    and "irq = (vc_irq_level v \<and> sr_pstate (vc_sysregs v) AND VCPU_I_MASK = 0)"
    and "t = oemu_exc_route (oemu_vcpu_el v)"
  shows "if fiq \<or> irq
    then \<exists>v'. oemu_vcpu_step f0 phys env v p e = Some (OEMU_OK, None, v', p, e) \<and> vc_mmu v' = vc_mmu v \<and>
      vc_insns_left v' = vc_insns_left v - 1 \<and> oemu_vcpu_el v' = t \<and>
      oemu_pstate_daif (sr_pstate (vc_sysregs v')) = 0xF \<and>
      oemu_regs_pc (c_regs (vc_cpu v')) = sr_vbar_el (vc_sysregs v) ! el_val t +
        oemu_exc_vector_offset (oemu_vcpu_el v = t) (oemu_pstate_sp_sel (sr_pstate (vc_sysregs v)) \<noteq> 0)
          (if fiq then OEMU_EXC_KIND_FIQ else OEMU_EXC_KIND_IRQ) \<and>
      sr_elr_el (vc_sysregs v') ! el_val t = oemu_regs_pc (c_regs (vc_cpu v)) \<and>
      r_x (c_regs (vc_cpu v')) = r_x (c_regs (vc_cpu v))
    else oemu_vcpu_step f0 phys env v p e = vcpu_fetch_execute f0 phys env (tick v) p e"
proof (cases "fiq \<or> irq")
  case True
  let ?kind = "if fiq then OEMU_EXC_KIND_FIQ else OEMU_EXC_KIND_IRQ"
  let ?sr = "vc_sysregs (tick v)"
  have k: "oemu_vcpu_internal_pending_kind (sr_pstate (vc_sysregs v)) (vc_irq_level v) (vc_fiq_level v) = Some ?kind"
    using True assms(3,4) by (auto simp: oemu_vcpu_internal_pending_kind_def)
  have inv: "sr_inv ?sr" using assms(1) by (simp add: tick_def sr_inv_def)
  have t: "exc_route_of (c_regs (vc_cpu v), ?sr) = t" using assms(5) by (simp add: exc_route_of_def oemu_vcpu_el_def)
  have "t \<noteq> OEMU_EL0" "t \<noteq> OEMU_EL2" using assms(5) by simp_all
  from exc_take_defined [OF this] obtain regs' sr' where
    x: "oemu_exc_take (c_regs (vc_cpu v), ?sr) ?kind t 0 0 False = Some (regs', sr')" by blast
  note F = exc_take_fields [OF x inv]
  have "oemu_pstate_daif (entry_pstate t) = 0xF"
    by (cases t) (simp_all add: entry_pstate_def oemu_pstate_daif_def)
  moreover have "sr_vbar_el ?sr = sr_vbar_el (vc_sysregs v)" by (simp add: tick_def)
  ultimately show ?thesis using True F
    by (simp add: vcpu_step_cases [OF assms(2)] k vcpu_deliver_def deliver_def t x charge_def oemu_vcpu_el_def oemu_regs_pc_def)
next
  case False
  then have "oemu_vcpu_internal_pending_kind (sr_pstate (vc_sysregs v)) (vc_irq_level v) (vc_fiq_level v) = None"
    using assms(3,4) by (auto simp: oemu_vcpu_internal_pending_kind_def)
  with False show ?thesis by (simp add: vcpu_step_cases [OF assms(2)])
qed

section \<open>The time slice\<close>

text \<open>
  Property C7. A run is accounted exactly, on any bus and in any environment: the instructions reported
  as completed are at most the caller's limit, and with what is left of the slice they make up what was
  left before; so a run never exceeds the quantum, which itself does not change. Success means that the
  environment has halted, a timeout that the limit or the slice is used up, and the only other status is
  that of a waiting CPU.
\<close>

theorem vcpu_run_account:
  assumes "oemu_vcpu_run f0 phys env max_insns v p e = Some (st, completed, v', p', e')"
  shows "completed \<le> unat max_insns \<and> completed + unat (vc_insns_left v') = unat (vc_insns_left v) \<and> vc_quantum v' = vc_quantum v \<and>
    (if st = OEMU_OK then vcpu_halted env e'
     else if st = OEMU_ERR_TIMEOUT then completed = unat max_insns \<or> vc_insns_left v' = 0 else st = OEMU_ERR_BLOCKED)"
  using vcpu_run_loop_account [OF assms [unfolded oemu_vcpu_run_def]] by (simp split: if_split_asm)

section \<open>Two modes, one instruction set\<close>

lemma exc_take_routed: "\<exists>st'. oemu_exc_take st kind (exc_route_of q) esr far fv = Some st'"
  using exc_take_defined by (metis exc_route_of_def route_target)

text \<open>The exception that a refused access of an instruction becomes: the record of the translation layer,
  or a data abort at the address of the access.\<close>

definition fault_delivered ::
  "'m sys_view \<Rightarrow> oemu_insn \<Rightarrow> oemu_cpu \<Rightarrow> oemu_sysregs \<Rightarrow> 'm \<Rightarrow> oemu_cpu \<times> oemu_sysregs \<times> 'm \<Rightarrow> bool" where
  "fault_delivered view i cpu sr m = (\<lambda>(cpu', sr', m'). \<exists>f. sv_take_fault view m = (f, m') \<and>
     (case f of
        Some f \<Rightarrow> oemu_exc_take (c_regs cpu, sr) OEMU_EXC_KIND_SYNC (exc_route_of (c_regs cpu, sr)) (mf_esr f) (mf_far f) True =
          Some (c_regs cpu', sr')
      | None \<Rightarrow> \<exists>far. fault_far_of cpu i = Some far \<and>
          oemu_exc_data_abort (c_regs cpu, sr) far (mem_size_val (i_mem_size i)) (op_is_store (i_op i))
            (\<not> (i_op i = OEMU_OP_LDP \<or> i_op i = OEMU_OP_STP \<or> i_op i = OEMU_OP_LDPSW)) 0x2C = Some (c_regs cpu', sr')))"

lemma deliver_fault_defined:
  assumes "insn_wf i"
  shows "\<exists>cpu' sr' m'. deliver_fault view (\<lambda>st. do { far \<leftarrow> fault_far_of cpu i;
      oemu_exc_data_abort st far (mem_size_val (i_mem_size i)) (op_is_store (i_op i))
        (\<not> (i_op i = OEMU_OP_LDP \<or> i_op i = OEMU_OP_STP \<or> i_op i = OEMU_OP_LDPSW)) 0x2C }) cpu sr m = Some (cpu', sr', m') \<and>
    fault_delivered view i cpu sr m (cpu', sr', m')"
proof -
  obtain f m' where f: "sv_take_fault view m = (f, m')" by fastforce
  obtain far where far: "fault_far_of cpu i = Some far" using fault_far_defined [OF assms] by blast
  have ab: "\<exists>st'. oemu_exc_data_abort st far sz wr isv dfsc = Some st'" for st sz wr isv dfsc
    using exc_take_routed [of st _ st] by (simp add: oemu_exc_data_abort_def exc_route_of_def Let_def)
  show ?thesis
  proof (cases f)
    case None
    obtain regs' sr' where "oemu_exc_data_abort (c_regs cpu, sr) far (mem_size_val (i_mem_size i)) (op_is_store (i_op i))
        (\<not> (i_op i = OEMU_OP_LDP \<or> i_op i = OEMU_OP_STP \<or> i_op i = OEMU_OP_LDPSW)) 0x2C = Some (regs', sr')"
      using ab by (metis prod.collapse)
    then show ?thesis using None f far by (simp add: deliver_fault_def deliver_def fault_delivered_def)
  next
    case (Some x)
    obtain regs' sr' where "oemu_exc_take (c_regs cpu, sr) OEMU_EXC_KIND_SYNC (exc_route_of (c_regs cpu, sr)) (mf_esr x) (mf_far x) True = Some (regs', sr')"
      using exc_take_routed by (metis prod.collapse)
    then show ?thesis using Some f by (simp add: deliver_fault_def deliver_def fault_delivered_def)
  qed
qed


section \<open>Witnesses\<close>

lemma sysregs_init_fields:
  assumes "oemu_sysregs_init regs el = Some sr"
  shows "sr_inv sr" "sr_sctlr_el1 sr = 0x30D00800" "sr_pstate sr = entry_pstate el"
  using assms by (auto simp: oemu_sysregs_init_def oemu_sysreg_internal_table_def table_defs row_reset_def banked_def zero_sysregs_def
      sr_inv_def entry_pstate_def bind_eq_Some_conv)

text \<open>A CPU fresh from its initialisation satisfies what a step asks for.\<close>

lemma vcpu_init_ok:
  assumes "oemu_vcpu_init el pc sp q = Some (Inr v)"
  shows "vcpu_inv v" "identity_map (vc_sysregs v)" "oemu_vcpu_el v = el" "el \<noteq> OEMU_EL2" "vc_insns_left v = q"
proof -
  obtain sr where sr: "oemu_sysregs_init (c_regs (oemu_cpu_init pc sp)) el = Some sr" "vc_sysregs v = sr" "vc_cpu v = oemu_cpu_init pc sp"
    and q: "el \<noteq> OEMU_EL2" "vc_insns_left v = q"
    using assms by (auto simp: oemu_vcpu_init_def Let_def bind_eq_Some_conv split: if_split_asm)
  note F = sysregs_init_fields [OF sr(1)]
  show "vcpu_inv v" "identity_map (vc_sysregs v)" "oemu_vcpu_el v = el" "el \<noteq> OEMU_EL2" "vc_insns_left v = q"
    using F sr(2,3) q by (simp_all add: vcpu_inv_def identity_map_def oemu_vcpu_el_def has_def oemu_mmu_internal_alignment_required_def)
qed

lemma vcpu_init_defined: "\<exists>v. oemu_vcpu_init OEMU_EL1 pc sp 8 = Some (Inr v)"
  by (simp add: oemu_vcpu_init_def oemu_sysregs_init_def Let_def)

text \<open>A board with one page of RAM at the CPU's start address.\<close>

definition ram_board :: "unit space" where
  "ram_board = (\<lparr>as_table = Some 0x100, as_regions =
     [\<lparr>ar_pa = 0x40000000, ar_size = 0x1000, ar_perms = 7, ar_kind = OEMU_REGION_RAM, ar_host = 0x7000, ar_owned = True, ar_ops = None\<rparr>],
     as_capacity = 4\<rparr>, (\<lambda>_. 0), ())"

lemma ram_board_inv: "ram_inv ram_board"
  by (simp add: ram_inv_def ram_board_def as_inv_def mem_inv_def mem_of_def region_of_def region_ok_def guest_range_def is_ram_def device_ok_def)

abbreviation (input) no_fault :: oemu_mmu_fault where "no_fault \<equiv> \<lparr>mf_esr = 0, mf_far = 0\<rparr>"

theorem vcpu_step_sound_witness:
  "\<exists>v. oemu_vcpu_init OEMU_EL1 0x40000000 0x40001000 8 = Some (Inr v) \<and>
     (\<exists>st io v' p' e'. oemu_vcpu_step no_fault oemu_aspace_memops None v ram_board () = Some (st, io, v', p', e') \<and> vcpu_inv v' \<and> ram_inv p')"
proof -
  obtain v where v: "oemu_vcpu_init OEMU_EL1 0x40000000 0x40001000 8 = Some (Inr v)" using vcpu_init_defined by blast
  note ok = vcpu_init_ok [OF v]
  have "oemu_vcpu_el v \<noteq> OEMU_EL2" using ok(3) by simp
  from v vcpu_step_sound [OF ok(1) ram_board_inv ok(2) this, of no_fault None "()"] show ?thesis by blast
qed

text \<open>A CPU at EL0 with both pins raised and nothing masked takes the FIQ.\<close>

definition both_pins :: oemu_vcpu where
  "both_pins = \<lparr>vc_cpu = oemu_cpu_init 0x1000 0x2000, vc_sysregs = el0_sysregs, vc_mmu = oemu_mmu_init, vc_irq_level = True,
     vc_fiq_level = True, vc_event_reg = False, vc_quantum = 8, vc_insns_left = 8\<rparr>"

lemma both_pins_fields:
  "sr_inv (vc_sysregs both_pins)" "vc_insns_left both_pins \<noteq> 0" "oemu_vcpu_el both_pins = OEMU_EL0"
  "sr_vbar_el (vc_sysregs both_pins) ! Suc 0 = 0x80000" "sr_pstate (vc_sysregs both_pins) = 0"
  using el0_sysregs_inv el0_route by (simp_all add: both_pins_def oemu_vcpu_el_def) (simp add: el0_sysregs_def)

theorem vcpu_interrupt_delivery_witness:
  "\<exists>v'. oemu_vcpu_step no_fault oemu_aspace_memops None both_pins ram_board () = Some (OEMU_OK, None, v', ram_board, ()) \<and>
     oemu_regs_pc (c_regs (vc_cpu v')) = 0x80500 \<and> sr_elr_el (vc_sysregs v') ! 1 = 0x1000"
  using vcpu_interrupt_delivery [OF both_pins_fields(1,2) refl refl refl, of no_fault oemu_aspace_memops None ram_board "()"] both_pins_fields
  by (auto simp: both_pins_def oemu_exc_route_def oemu_exc_vector_offset_def oemu_cpu_init_def oemu_regs_init_def oemu_regs_pc_def)

theorem vcpu_run_account_witness:
  "\<exists>v'. oemu_vcpu_run no_fault oemu_aspace_memops None 1 both_pins ram_board () = Some (OEMU_ERR_TIMEOUT, 1, v', ram_board, ()) \<and>
     unat (vc_insns_left v') = 7"
proof -
  let ?st = "(c_regs (vc_cpu both_pins), vc_sysregs (tick both_pins))"
  have k: "oemu_vcpu_internal_pending_kind (sr_pstate (vc_sysregs both_pins)) (vc_irq_level both_pins) (vc_fiq_level both_pins) = Some OEMU_EXC_KIND_FIQ"
    using both_pins_fields(5) by (simp add: oemu_vcpu_internal_pending_kind_def both_pins_def)
  obtain v' where "oemu_vcpu_step no_fault oemu_aspace_memops None both_pins ram_board () = Some (OEMU_OK, None, v', ram_board, ())"
    using exc_take_routed [of ?st OEMU_EXC_KIND_FIQ ?st 0 0 False] by (auto simp: vcpu_step_cases [OF both_pins_fields(2)] k vcpu_deliver_def deliver_def bind_eq_Some_conv)
  then have r: "oemu_vcpu_run no_fault oemu_aspace_memops None 1 both_pins ram_board () = Some (OEMU_ERR_TIMEOUT, 1, v', ram_board, ())"
    by (simp add: oemu_vcpu_run_def vcpu_halted_def numeral_eq_Suc)
  from r vcpu_run_account [OF r] show ?thesis by (simp add: both_pins_def)
qed

text \<open>A NOP in both modes.\<close>

definition nop_insn :: oemu_insn where
  "nop_insn = (insn_reset 0xD503201F)\<lparr>i_op := OEMU_OP_NOP\<rparr>"

lemma nop_insn_wf: "insn_wf nop_insn"
  by (simp add: nop_insn_def insn_wf_def regs_wf_def insn_reset_def addsub_ops_def logical_ops_def bitfield_ops_def move_wide_ops_def crc_ops_def)


end
