(* ===== verification/Oemu_Psci.thy ===== *)
theory Oemu_Psci
  imports Oemu_Vcpu_Props
begin

text \<open>
  The firmware interface (\<^verbatim>\<open>include/oemu/psci.h\<close>, \<^verbatim>\<open>src/fw/psci.c\<close>): the dispatch on the function identifier
  and the environment a booted kernel runs in. The last section joins it with the virtual CPU: a guest
  that asks to be switched off stops.
\<close>

section \<open>The conduit\<close>

record oemu_psci =
  ps_halted :: bool
  ps_reset :: bool
  ps_calls :: u64

abbreviation (input) OEMU_PSCI_VERSION :: u64 where "OEMU_PSCI_VERSION \<equiv> 0x00010001"
abbreviation (input) OEMU_SMCCC_VERSION :: u64 where "OEMU_SMCCC_VERSION \<equiv> 0x00010000"
abbreviation (input) OEMU_SMCCC_OWNER_ARM_STD :: u64 where "OEMU_SMCCC_OWNER_ARM_STD \<equiv> 0x47"
abbreviation (input) OEMU_PSCI_FN_VERSION :: u64 where "OEMU_PSCI_FN_VERSION \<equiv> 0x84000000"
abbreviation (input) OEMU_PSCI_FN_FEATURES :: u64 where "OEMU_PSCI_FN_FEATURES \<equiv> 0x8400000A"
abbreviation (input) OEMU_PSCI_FN_SYSTEM_OFF :: u64 where "OEMU_PSCI_FN_SYSTEM_OFF \<equiv> 0x84000008"
abbreviation (input) OEMU_PSCI_FN_SYSTEM_RESET :: u64 where "OEMU_PSCI_FN_SYSTEM_RESET \<equiv> 0x84000009"
abbreviation (input) OEMU_PSCI_FN_BASE :: u64 where "OEMU_PSCI_FN_BASE \<equiv> 0x84000000"
abbreviation (input) OEMU_PSCI_FN64_BASE :: u64 where "OEMU_PSCI_FN64_BASE \<equiv> 0xC4000000"
abbreviation (input) OEMU_PSCI_FN_WINDOW :: u64 where "OEMU_PSCI_FN_WINDOW \<equiv> 0x100"
abbreviation (input) OEMU_PSCI_RET_SUCCESS :: u64 where "OEMU_PSCI_RET_SUCCESS \<equiv> 0"
abbreviation (input) OEMU_PSCI_RET_NOT_SUPPORTED :: u64 where "OEMU_PSCI_RET_NOT_SUPPORTED \<equiv> NOT 0"

definition oemu_psci_init :: oemu_psci where
  "oemu_psci_init = \<lparr>ps_halted = False, ps_reset = False, ps_calls = 0\<rparr>"

text \<open>A call that is not consumed returns no value.\<close>

definition oemu_psci_dispatch :: "oemu_psci \<Rightarrow> u64 \<Rightarrow> u64 option \<times> oemu_psci" where
  "oemu_psci_dispatch psci fnid =
     (let hi = drop_bit 24 fnid AND 0xFF;
          svc = drop_bit 16 fnid AND 0xFF;
          psci_class = (hi = 0x84 \<or> hi = 0xC4);
          is_psci = (psci_class \<and> svc = 0);
          is_fast = ((hi = 0x80 \<or> hi = 0xC0) \<and> svc = 0);
          is_std = (psci_class \<and> svc = OEMU_SMCCC_OWNER_ARM_STD);
          answer = (\<lambda>ret0 psci. (Some ret0, psci\<lparr>ps_calls := ps_calls psci + 1\<rparr>))
      in if \<not> is_psci \<and> \<not> is_fast \<and> \<not> is_std then (None, psci)
         else if is_fast \<and> fnid AND 0xFFFF = 0 then answer OEMU_SMCCC_VERSION psci
         else if fnid = OEMU_PSCI_FN_VERSION then answer OEMU_PSCI_VERSION psci
         else if fnid = OEMU_PSCI_FN_FEATURES then answer 0 psci
         else if fnid = OEMU_PSCI_FN_SYSTEM_OFF then answer OEMU_PSCI_RET_SUCCESS (psci\<lparr>ps_halted := True\<rparr>)
         else if fnid = OEMU_PSCI_FN_SYSTEM_RESET then answer OEMU_PSCI_RET_SUCCESS (psci\<lparr>ps_reset := True\<rparr>)
         else answer OEMU_PSCI_RET_NOT_SUPPORTED psci)"

definition psci_fw_call :: "oemu_psci \<Rightarrow> bool \<Rightarrow> u16 \<Rightarrow> u64 list \<Rightarrow> u64 option \<times> oemu_psci" where
  "psci_fw_call psci is_hvc imm args = oemu_psci_dispatch psci (args ! 0)"

definition psci_halted :: "oemu_psci \<Rightarrow> bool" where
  "psci_halted psci \<longleftrightarrow> ps_halted psci \<or> ps_reset psci"

definition oemu_psci_envops :: "(oemu_psci, 'm) oemu_env_ops" where
  "oemu_psci_envops = \<lparr>env_syscall = None, env_halted = Some psci_halted, env_fw_call = Some psci_fw_call\<rparr>"

section \<open>Switching off\<close>

lemma psci_env_halted [simp]: "vcpu_halted (Some oemu_psci_envops) e = psci_halted e"
  by (simp add: vcpu_halted_def oemu_psci_envops_def)

text \<open>A step that executes a firmware call at the PC.\<close>

lemma firmware_step:
  assumes "vc_insns_left v \<noteq> 0"
    and "oemu_vcpu_internal_pending_kind (sr_pstate (vc_sysregs v)) (vc_irq_level v) (vc_fiq_level v) = None"
    and "mo_fetch32 (oemu_mmu_memops f0 (vc_sysregs (tick v)) phys) (vc_mmu v, p) (oemu_regs_pc (c_regs (vc_cpu v))) = (Inr word, mmu, p')"
    and "oemu_decode word (oemu_regs_pc (c_regs (vc_cpu v))) = (OEMU_OK, i)" and "i_op i = OEMU_OP_HVC \<or> i_op i = OEMU_OP_SMC"
    and "oemu_psci_dispatch e (g_val (vc_cpu v) 0 False OEMU_REG_W64) = (Some ret0, e')"
  shows "\<exists>v'. oemu_vcpu_step f0 phys (Some oemu_psci_envops) v p e = Some (OEMU_OK, Some i, v', p', e') \<and>
    vc_insns_left v' = vc_insns_left v - 1 \<and> oemu_regs_pc (c_regs (vc_cpu v')) = oemu_regs_pc (c_regs (vc_cpu v)) + 4 \<and>
    (cpu_inv (vc_cpu v) \<longrightarrow> g_val (vc_cpu v') 0 False OEMU_REG_W64 = ret0)"
proof -
  let ?cpu = "vc_cpu v"
  let ?regs = "c_regs (g_set ?cpu 0 False OEMU_REG_W64 ret0)"
  have op: "i_op i \<notin> {OEMU_OP_UNKNOWN, OEMU_OP_SVC, OEMU_OP_BRK, OEMU_OP_HLT, OEMU_OP_ERET, OEMU_OP_HINT, OEMU_OP_WFI, OEMU_OP_WFE}"
    using assms(5) by auto
  have call: "oemu_exec_internal_dispatch_system (translated_view f0 phys) (Some oemu_psci_envops) ?cpu sr m e i word =
      Some (OEMU_OK, ?cpu\<lparr>c_regs := oemu_regs_set_pc ?regs (oemu_regs_pc ?regs + OEMU_INSN_SIZE)\<rparr>, sr, m, e')" for sr m
    using op assms(5,6)
    by (simp add: oemu_exec_internal_dispatch_system_def exc_case_def Let_def firmware_case_def oemu_psci_envops_def psci_fw_call_def
        regs_read_eq regs_write_eq)
  have view: "sv_mem (translated_view f0 phys) sr = oemu_mmu_memops f0 sr phys" for sr by (simp add: translated_view_def)
  show ?thesis
    using assms(1-4) op call
    by (simp add: vcpu_step_cases vcpu_fetch_execute_def view vcpu_execute_def Let_def charge_def g_val_def g_set_def
        oemu_regs_set_pc_def oemu_regs_pc_def oemu_regs_internal_truncate_def cpu_inv_def regs_inv_def)
qed

text \<open>Only two identifiers end the guest.\<close>

lemma psci_dispatch_halts:
  assumes "oemu_psci_dispatch e fnid = (r, e')"
  shows "psci_halted e' \<longleftrightarrow> psci_halted e \<or> fnid = OEMU_PSCI_FN_SYSTEM_OFF \<or> fnid = OEMU_PSCI_FN_SYSTEM_RESET"
proof -
  have "drop_bit 24 (0x84000008 :: u64) AND 0xFF = 0x84" "drop_bit 16 (0x84000008 :: u64) AND 0xFF = 0"
    "drop_bit 24 (0x84000009 :: u64) AND 0xFF = 0x84" "drop_bit 16 (0x84000009 :: u64) AND 0xFF = 0" by simp_all
  with assms show ?thesis by (auto simp: oemu_psci_dispatch_def Let_def psci_halted_def split: if_split_asm)
qed

text \<open>
  The windows of 256 identifiers that \<^verbatim>\<open>psci.h\<close> gives PSCI are consumed. The dispatcher takes more: it
  looks at bits 31 to 16 only, so the identifiers behind the window and those with any of the upper 32
  bits set are answered as well.
\<close>

lemma window_fields:
  fixes fnid :: u64
  assumes "fnid - base < 0x100" "take_bit 24 base = 0" "drop_bit 32 base = 0"
  shows "drop_bit 24 fnid AND 0xFF = drop_bit 24 base AND 0xFF" "drop_bit 16 fnid AND 0xFF = 0"
proof -
  define k where "k = fnid - base"
  have low: "\<not> bit k n" if "8 \<le> n" for n
  proof -
    have "take_bit 8 k = k" using assms(1) by (simp add: word_unat_eq_iff unsigned_take_bit_eq take_bit_eq_mod k_def [symmetric] word_less_nat_alt unat_mod)
    then show ?thesis using that by (metis bit_take_bit_iff not_le)
  qed
  have z: "\<not> bit base n" if "n < 24" for n using assms(2) that by (metis bit_0_eq bot_apply bot_bool_def bit_take_bit_iff)
  have "base AND k = 0"
  proof (rule bit_eqI)
    fix n show "bit (base AND k) n = bit 0 n" using low [of n] z [of n] by (cases "n < 24") (auto simp: bit_simps)
  qed
  then have f: "fnid = base OR k" using disjunctive_add_eq_or [of base k] by (simp add: k_def)
  have m: "(0xFF :: u64) = mask 8" by (simp add: mask_eq_exp_minus_1)
  have bits: "drop_bit 24 k AND mask 8 = 0" "drop_bit 16 k AND mask 8 = 0" "drop_bit 16 base AND mask 8 = 0"
    using low z by (auto simp: bit_eq_iff bit_simps)
  show "drop_bit 24 fnid AND 0xFF = drop_bit 24 base AND 0xFF" "drop_bit 16 fnid AND 0xFF = 0"
    unfolding f drop_bit_or m by (simp_all only: bit.conj_disj_distrib2 bits or.right_neutral or.left_neutral)
qed

lemma psci_consumed:
  "fst (oemu_psci_dispatch e fnid) = None \<longleftrightarrow>
     \<not> (drop_bit 24 fnid AND 0xFF \<in> {0x84, 0xC4} \<and> drop_bit 16 fnid AND 0xFF \<in> {0, 0x47} \<or>
        drop_bit 24 fnid AND 0xFF \<in> {0x80, 0xC0} \<and> drop_bit 16 fnid AND 0xFF = 0)"
  "drop_bit 24 fnid AND 0xFF \<notin> {0x80, 0x84, 0xC0, 0xC4} \<Longrightarrow> oemu_psci_dispatch e fnid = (None, e)"
  by (auto simp: oemu_psci_dispatch_def Let_def)

lemma psci_window_consumed:
  assumes "fnid - OEMU_PSCI_FN_BASE < OEMU_PSCI_FN_WINDOW \<or> fnid - OEMU_PSCI_FN64_BASE < OEMU_PSCI_FN_WINDOW"
  shows "fst (oemu_psci_dispatch e fnid) \<noteq> None"
  using assms
proof
  assume "fnid - OEMU_PSCI_FN_BASE < OEMU_PSCI_FN_WINDOW"
  note w = window_fields [OF this]
  show ?thesis unfolding psci_consumed using w by simp
next
  assume "fnid - OEMU_PSCI_FN64_BASE < OEMU_PSCI_FN_WINDOW"
  note w = window_fields [OF this]
  show ?thesis unfolding psci_consumed using w by simp
qed

lemma psci_beyond_window:
  "oemu_psci_dispatch e 0x84000100 = (Some OEMU_PSCI_RET_NOT_SUPPORTED, e\<lparr>ps_calls := ps_calls e + 1\<rparr>)"
  "oemu_psci_dispatch e 0x184000000 = (Some OEMU_PSCI_RET_NOT_SUPPORTED, e\<lparr>ps_calls := ps_calls e + 1\<rparr>)"
  by (simp_all add: oemu_psci_dispatch_def Let_def)

text \<open>
  Property C30. A guest can switch itself off. When the instruction at the PC is an HVC or SMC, no
  interrupt is due and \<open>x0\<close> holds the identifier of SYSTEM_OFF or SYSTEM_RESET, a run stops after exactly
  this one instruction with success and with the request recorded, whatever its limit; \<open>x0\<close> answers
  success. No other identifier stops the guest. Every identifier of the two 256-wide PSCI windows is
  answered, and one whose service class is neither PSCI's nor the fast-call one is left to the guest's own
  exception path with the firmware's state as it was.
\<close>

theorem psci_switch_off:
  assumes "cpu_inv (vc_cpu v)" and "vc_insns_left v \<noteq> 0" and "max_insns \<noteq> 0" and "\<not> psci_halted e"
    and "oemu_vcpu_internal_pending_kind (sr_pstate (vc_sysregs v)) (vc_irq_level v) (vc_fiq_level v) = None"
    and "mo_fetch32 (oemu_mmu_memops f0 (vc_sysregs (tick v)) phys) (vc_mmu v, p) (oemu_regs_pc (c_regs (vc_cpu v))) = (Inr word, mmu, p')"
    and "oemu_decode word (oemu_regs_pc (c_regs (vc_cpu v))) = (OEMU_OK, i)" and "i_op i = OEMU_OP_HVC \<or> i_op i = OEMU_OP_SMC"
    and "fnid = g_val (vc_cpu v) 0 False OEMU_REG_W64"
  shows "(fnid = OEMU_PSCI_FN_SYSTEM_OFF \<or> fnid = OEMU_PSCI_FN_SYSTEM_RESET \<longrightarrow>
      (\<exists>v' e'. oemu_vcpu_run f0 phys (Some oemu_psci_envops) max_insns v p e = Some (OEMU_OK, 1, v', p', e') \<and>
         (if fnid = OEMU_PSCI_FN_SYSTEM_OFF then ps_halted e' \<and> \<not> ps_reset e' else ps_reset e' \<and> \<not> ps_halted e') \<and>
         g_val (vc_cpu v') 0 False OEMU_REG_W64 = OEMU_PSCI_RET_SUCCESS)) \<and>
    (psci_halted (snd (oemu_psci_dispatch e fnid)) \<longleftrightarrow> fnid = OEMU_PSCI_FN_SYSTEM_OFF \<or> fnid = OEMU_PSCI_FN_SYSTEM_RESET) \<and>
    (fnid - OEMU_PSCI_FN_BASE < OEMU_PSCI_FN_WINDOW \<or> fnid - OEMU_PSCI_FN64_BASE < OEMU_PSCI_FN_WINDOW \<longrightarrow>
       fst (oemu_psci_dispatch e fnid) \<noteq> None) \<and>
    (drop_bit 24 fnid AND 0xFF \<notin> {0x80, 0x84, 0xC0, 0xC4} \<longrightarrow> oemu_psci_dispatch e fnid = (None, e))"
proof (intro conjI impI)
  assume off: "fnid = OEMU_PSCI_FN_SYSTEM_OFF \<or> fnid = OEMU_PSCI_FN_SYSTEM_RESET"
  obtain e' where d: "oemu_psci_dispatch e fnid = (Some 0, e')"
    and e': "if fnid = OEMU_PSCI_FN_SYSTEM_OFF then ps_halted e' \<and> \<not> ps_reset e' else ps_reset e' \<and> \<not> ps_halted e'"
    using off assms(4) by (auto simp: oemu_psci_dispatch_def Let_def psci_halted_def)
  then have h: "psci_halted e'" "\<not> psci_halted e"
    using off assms(4) by (auto simp: psci_halted_def split: if_split_asm)
  obtain v' where s: "oemu_vcpu_step f0 phys (Some oemu_psci_envops) v p e = Some (OEMU_OK, Some i, v', p', e')"
    and r: "g_val (vc_cpu v') 0 False OEMU_REG_W64 = 0"
    using firmware_step [OF assms(2,5-8) d [unfolded assms(9)]] assms(1) by blast
  obtain n where n: "unat max_insns = Suc n" using assms(3) by (metis not0_implies_Suc unat_eq_zero)
  have "vcpu_run_loop n f0 phys (Some oemu_psci_envops) (Suc 0) v' p' e' = Some (OEMU_OK, Suc 0, v', p', e')"
    using h by (cases n) simp_all
  then have "oemu_vcpu_run f0 phys (Some oemu_psci_envops) max_insns v p e = Some (OEMU_OK, 1, v', p', e')"
    using s h by (simp add: oemu_vcpu_run_def n)
  with e' r show "\<exists>v' e'. oemu_vcpu_run f0 phys (Some oemu_psci_envops) max_insns v p e = Some (OEMU_OK, 1, v', p', e') \<and>
         (if fnid = OEMU_PSCI_FN_SYSTEM_OFF then ps_halted e' \<and> \<not> ps_reset e' else ps_reset e' \<and> \<not> ps_halted e') \<and>
         g_val (vc_cpu v') 0 False OEMU_REG_W64 = OEMU_PSCI_RET_SUCCESS" by blast
next
  obtain r e' where "oemu_psci_dispatch e fnid = (r, e')" by fastforce
  from this psci_dispatch_halts [OF this] assms(4)
  show "psci_halted (snd (oemu_psci_dispatch e fnid)) \<longleftrightarrow> fnid = OEMU_PSCI_FN_SYSTEM_OFF \<or> fnid = OEMU_PSCI_FN_SYSTEM_RESET" by simp
qed (rule psci_window_consumed psci_consumed(2), assumption)+

section \<open>Witness\<close>

text \<open>A board whose RAM starts with \<open>HVC #0\<close>, and a CPU there with the identifier of SYSTEM_OFF in \<open>x0\<close>.\<close>

definition hvc_board :: "unit space" where
  "hvc_board = (fst ram_board, (\<lambda>_. 0)(0x7000 := 2, 0x7003 := 0xD4), ())"

definition hvc_vcpu :: oemu_vcpu where
  "hvc_vcpu = both_pins\<lparr>vc_cpu := g_set (oemu_cpu_init 0x40000000 0x40001000) 0 False OEMU_REG_W64 0x84000008,
     vc_irq_level := False, vc_fiq_level := False\<rparr>"

lemma hvc_word:
  "oemu_aspace_fetch32 hvc_board 0x40000000 = Inr 0xD4000002" "oemu_aspace_validate (fst hvc_board) 0x40000000 4 OEMU_PERM_EXEC = OEMU_OK"
  by (simp_all add: hvc_board_def ram_board_def oemu_aspace_validate_def oemu_aspace_internal_find_def region_test_as_def oemu_aspace_fetch32_def
      memcpy_from_def oemu_aspace_internal_disassemble_def upt_rec)

lemma hvc_fetch:
  assumes "identity_map sr"
  shows "mo_fetch32 (oemu_mmu_memops no_fault sr oemu_aspace_memops) (mmu, hvc_board) 0x40000000 = (Inr 0xD4000002, tlb_epoch_check sr mmu, hvc_board)"
proof -
  have "fst (mmu_access sr False True) = oemu_pstate_el (sr_pstate sr)" by (simp add: mmu_access_def)
  note t = translate_off [OF assms this]
  show ?thesis using hvc_word
    by (simp add: oemu_mmu_memops_def mmu_fetch32_def t Let_def phys_validate_def phys_fetch32_def oemu_aspace_memops_def)
qed

lemma hvc_decode: "\<exists>i. oemu_decode 0xD4000002 pc = (OEMU_OK, i) \<and> i_op i = OEMU_OP_HVC"
  by (simp add: decode_eval)

lemma hvc_vcpu_fields:
  "cpu_inv (vc_cpu hvc_vcpu)" "vc_insns_left hvc_vcpu \<noteq> 0" "identity_map (vc_sysregs (tick hvc_vcpu))"
  "oemu_vcpu_internal_pending_kind (sr_pstate (vc_sysregs hvc_vcpu)) (vc_irq_level hvc_vcpu) (vc_fiq_level hvc_vcpu) = None"
  "oemu_regs_pc (c_regs (vc_cpu hvc_vcpu)) = 0x40000000" "g_val (vc_cpu hvc_vcpu) 0 False OEMU_REG_W64 = 0x84000008"
  by (simp_all add: hvc_vcpu_def both_pins_def identity_map_def has_def oemu_mmu_internal_alignment_required_def el0_sysregs_def zero_sysregs_def
      oemu_vcpu_internal_pending_kind_def oemu_cpu_init_def oemu_regs_init_def oemu_regs_pc_def g_val_def g_set_def oemu_regs_internal_truncate_def
      cpu_inv_def regs_inv_def tick_def)

theorem psci_switch_off_witness:
  "\<exists>v' e'. oemu_vcpu_run no_fault oemu_aspace_memops (Some oemu_psci_envops) 1000 hvc_vcpu hvc_board oemu_psci_init =
       Some (OEMU_OK, 1, v', hvc_board, e') \<and>
     ps_halted e' \<and> g_val (vc_cpu v') 0 False OEMU_REG_W64 = 0"
proof -
  note f = hvc_vcpu_fields
  obtain i where i: "oemu_decode 0xD4000002 0x40000000 = (OEMU_OK, i)" "i_op i = OEMU_OP_HVC \<or> i_op i = OEMU_OP_SMC" using hvc_decode by blast
  have "(1000 :: u64) \<noteq> 0" "\<not> psci_halted oemu_psci_init" by (simp_all add: psci_halted_def oemu_psci_init_def)
  from psci_switch_off [where v = hvc_vcpu, OF f(1,2) this f(4), unfolded f(5), OF hvc_fetch [OF f(3)] i refl] f(6)
  show ?thesis by auto
qed

end
