(* ===== verification/Oemu_Elf.thy ===== *)
theory Oemu_Elf
  imports Oemu_Memory
begin

text \<open>
  The ELF64 loader (\<^verbatim>\<open>src/elf/elf.c\<close>): bounds-checked little-endian reads of the image, validation of the
  program headers into a list of segments, and one mapping of flat memory for each segment. The image is
  a list of bytes whose length is the \<^verbatim>\<open>size\<close> argument. What the allocator answers is a parameter: whether
  the temporary segment array is obtained, and the backing block of the \<open>i\<close>-th mapping.
\<close>

section \<open>Constants\<close>

abbreviation (input) OEMU_ELF_EI_CLASS :: nat where "OEMU_ELF_EI_CLASS \<equiv> 4"
abbreviation (input) OEMU_ELF_EI_DATA :: nat where "OEMU_ELF_EI_DATA \<equiv> 5"
abbreviation (input) OEMU_ELF_MAGIC0 :: u8 where "OEMU_ELF_MAGIC0 \<equiv> 0x7F"
abbreviation (input) OEMU_ELF_MAGIC1 :: u8 where "OEMU_ELF_MAGIC1 \<equiv> 0x45"
abbreviation (input) OEMU_ELF_MAGIC2 :: u8 where "OEMU_ELF_MAGIC2 \<equiv> 0x4C"
abbreviation (input) OEMU_ELF_MAGIC3 :: u8 where "OEMU_ELF_MAGIC3 \<equiv> 0x46"
abbreviation (input) OEMU_ELF_CLASS64 :: u8 where "OEMU_ELF_CLASS64 \<equiv> 2"
abbreviation (input) OEMU_ELF_DATA_LSB :: u8 where "OEMU_ELF_DATA_LSB \<equiv> 1"
abbreviation (input) OEMU_ELF_ET_EXEC :: u16 where "OEMU_ELF_ET_EXEC \<equiv> 2"
abbreviation (input) OEMU_ELF_EM_AARCH64 :: u16 where "OEMU_ELF_EM_AARCH64 \<equiv> 183"
abbreviation (input) OEMU_ELF_PT_LOAD :: u32 where "OEMU_ELF_PT_LOAD \<equiv> 1"
abbreviation (input) OEMU_ELF_PF_X :: u32 where "OEMU_ELF_PF_X \<equiv> 1"
abbreviation (input) OEMU_ELF_PF_W :: u32 where "OEMU_ELF_PF_W \<equiv> 2"
abbreviation (input) OEMU_ELF_PF_R :: u32 where "OEMU_ELF_PF_R \<equiv> 4"
abbreviation (input) OEMU_ELF_OFF_TYPE :: u64 where "OEMU_ELF_OFF_TYPE \<equiv> 16"
abbreviation (input) OEMU_ELF_OFF_MACHINE :: u64 where "OEMU_ELF_OFF_MACHINE \<equiv> 18"
abbreviation (input) OEMU_ELF_OFF_ENTRY :: u64 where "OEMU_ELF_OFF_ENTRY \<equiv> 24"
abbreviation (input) OEMU_ELF_OFF_PHOFF :: u64 where "OEMU_ELF_OFF_PHOFF \<equiv> 32"
abbreviation (input) OEMU_ELF_OFF_PHENTSIZE :: u64 where "OEMU_ELF_OFF_PHENTSIZE \<equiv> 54"
abbreviation (input) OEMU_ELF_OFF_PHNUM :: u64 where "OEMU_ELF_OFF_PHNUM \<equiv> 56"
abbreviation (input) OEMU_ELF_MIN_HEADER :: u64 where "OEMU_ELF_MIN_HEADER \<equiv> 64"
abbreviation (input) OEMU_ELF_PHENTSIZE :: u64 where "OEMU_ELF_PHENTSIZE \<equiv> 56"
abbreviation (input) OEMU_ELF_PH_TYPE :: u64 where "OEMU_ELF_PH_TYPE \<equiv> 0"
abbreviation (input) OEMU_ELF_PH_FLAGS :: u64 where "OEMU_ELF_PH_FLAGS \<equiv> 4"
abbreviation (input) OEMU_ELF_PH_OFFSET :: u64 where "OEMU_ELF_PH_OFFSET \<equiv> 8"
abbreviation (input) OEMU_ELF_PH_VADDR :: u64 where "OEMU_ELF_PH_VADDR \<equiv> 16"
abbreviation (input) OEMU_ELF_PH_FILESZ :: u64 where "OEMU_ELF_PH_FILESZ \<equiv> 32"
abbreviation (input) OEMU_ELF_PH_MEMSZ :: u64 where "OEMU_ELF_PH_MEMSZ \<equiv> 40"
abbreviation (input) OEMU_ELF_PH_ALIGN :: u64 where "OEMU_ELF_PH_ALIGN \<equiv> 48"

record oemu_elf_segment =
  sg_vaddr :: u64
  sg_memsz :: u64
  sg_filesz :: u64
  sg_offset :: u64
  sg_perms :: u32

record oemu_elf_image =
  ei_entry :: u64
  ei_load_min :: u64
  ei_load_max :: u64
  ei_segment_count :: u32

section \<open>Primitives\<close>

definition oemu_elf_internal_within :: "u64 \<Rightarrow> u64 \<Rightarrow> u64 \<Rightarrow> bool" where
  "oemu_elf_internal_within off span sz = (if off > sz then False else span \<le> sz - off)"

definition oemu_elf_internal_rd16 :: "u8 list \<Rightarrow> u64 \<Rightarrow> u64 \<Rightarrow> oemu_status + u16" where
  "oemu_elf_internal_rd16 img sz off =
     (if \<not> oemu_elf_internal_within off 2 sz then Inl OEMU_ERR_INVALID_ARG
      else Inr (ucast (img ! unat off) OR push_bit 8 (ucast (img ! (unat off + 1)))))"

definition oemu_elf_internal_rd32 :: "u8 list \<Rightarrow> u64 \<Rightarrow> u64 \<Rightarrow> oemu_status + u32" where
  "oemu_elf_internal_rd32 img sz off =
     (if \<not> oemu_elf_internal_within off 4 sz then Inl OEMU_ERR_INVALID_ARG
      else Inr (ucast (img ! unat off) OR push_bit 8 (ucast (img ! (unat off + 1))) OR
        push_bit 16 (ucast (img ! (unat off + 2))) OR push_bit 24 (ucast (img ! (unat off + 3)))))"

definition oemu_elf_internal_rd64 :: "u8 list \<Rightarrow> u64 \<Rightarrow> u64 \<Rightarrow> oemu_status + u64" where
  "oemu_elf_internal_rd64 img sz off =
     (if \<not> oemu_elf_internal_within off 8 sz then Inl OEMU_ERR_INVALID_ARG
      else Inr (fold (\<lambda>i value. push_bit 8 value OR ucast (img ! (unat off + i))) (rev [0..<8]) 0))"

definition oemu_elf_internal_ranges_overlap :: "u64 \<Rightarrow> u64 \<Rightarrow> u64 \<Rightarrow> u64 \<Rightarrow> bool" where
  "oemu_elf_internal_ranges_overlap a as b bs =
     (if as = 0 \<or> bs = 0 then False else a < b + bs \<and> b < a + as)"

definition oemu_elf_internal_validate_segment ::
  "u32 \<Rightarrow> u64 \<Rightarrow> u64 \<Rightarrow> u64 \<Rightarrow> u64 \<Rightarrow> u64 \<Rightarrow> u64 \<Rightarrow> oemu_status + oemu_elf_segment" where
  "oemu_elf_internal_validate_segment p_flags p_offset p_vaddr p_filesz p_memsz p_align image_size =
     (let perms = 0;
          perms = perms OR (if p_flags AND OEMU_ELF_PF_X \<noteq> 0 then OEMU_PERM_EXEC else 0);
          perms = perms OR (if p_flags AND OEMU_ELF_PF_W \<noteq> 0 then OEMU_PERM_WRITE else 0);
          perms = perms OR (if p_flags AND OEMU_ELF_PF_R \<noteq> 0 then OEMU_PERM_READ else 0)
      in if p_align = 0 \<or> perms = 0 \<or> p_memsz = 0 then Inl OEMU_ERR_INVALID_ARG
      else if p_filesz > p_memsz \<or> \<not> oemu_elf_internal_within p_offset p_filesz image_size then Inl OEMU_ERR_INVALID_ARG
      else if p_vaddr > 0xFFFFFFFFFFFFFFFF - p_memsz then Inl OEMU_ERR_OVERFLOW
      else Inr \<lparr>sg_vaddr = p_vaddr, sg_memsz = p_memsz, sg_filesz = p_filesz, sg_offset = p_offset, sg_perms = perms\<rparr>)"

text \<open>The statuses of the reads are combined bitwise; one failure is enough to refuse the header.\<close>

definition elf_read_segment :: "u8 list \<Rightarrow> u64 \<Rightarrow> u64 \<Rightarrow> u64 \<Rightarrow> oemu_status + oemu_elf_segment" where
  "elf_read_segment img sz base image_size =
     (case (oemu_elf_internal_rd32 img sz (base + OEMU_ELF_PH_TYPE),
            oemu_elf_internal_rd32 img sz (base + OEMU_ELF_PH_FLAGS),
            oemu_elf_internal_rd64 img sz (base + OEMU_ELF_PH_OFFSET),
            oemu_elf_internal_rd64 img sz (base + OEMU_ELF_PH_VADDR),
            oemu_elf_internal_rd64 img sz (base + OEMU_ELF_PH_FILESZ),
            oemu_elf_internal_rd64 img sz (base + OEMU_ELF_PH_MEMSZ),
            oemu_elf_internal_rd64 img sz (base + OEMU_ELF_PH_ALIGN)) of
        (Inr p_type, Inr p_flags, Inr p_offset, Inr p_vaddr, Inr p_filesz, Inr p_memsz, Inr p_align) \<Rightarrow>
          oemu_elf_internal_validate_segment p_flags p_offset p_vaddr p_filesz p_memsz p_align image_size
      | _ \<Rightarrow> Inl OEMU_ERR_INVALID_ARG)"

definition elf_is_loadable :: "u8 list \<Rightarrow> u64 \<Rightarrow> u64 \<Rightarrow> bool" where
  "elf_is_loadable img sz base =
     (case oemu_elf_internal_rd32 img sz (base + OEMU_ELF_PH_TYPE) of
        Inl _ \<Rightarrow> False
      | Inr p_type \<Rightarrow>
          if p_type \<noteq> OEMU_ELF_PT_LOAD then False
          else case oemu_elf_internal_rd64 img sz (base + OEMU_ELF_PH_MEMSZ) of
            Inl _ \<Rightarrow> False
          | Inr p_memsz \<Rightarrow> p_memsz \<noteq> 0)"

section \<open>Validate, then commit\<close>

text \<open>The loops of the loader: reading the segments at the given header addresses, the pairwise overlap
  test, and mapping, which also tracks the lowest and highest address.\<close>

primrec read_segments :: "u8 list \<Rightarrow> u64 \<Rightarrow> u64 list \<Rightarrow> oemu_status + oemu_elf_segment list" where
  "read_segments img sz [] = Inr []"
| "read_segments img sz (base # bases) =
     (if \<not> elf_is_loadable img sz base then read_segments img sz bases
      else case elf_read_segment img sz base sz of
        Inl st \<Rightarrow> Inl st
      | Inr seg \<Rightarrow> (case read_segments img sz bases of Inl st \<Rightarrow> Inl st | Inr segs \<Rightarrow> Inr (seg # segs)))"

primrec any_overlap :: "oemu_elf_segment list \<Rightarrow> bool" where
  "any_overlap [] = False"
| "any_overlap (s # ss) =
     (list_ex (\<lambda>t. oemu_elf_internal_ranges_overlap (sg_vaddr s) (sg_memsz s) (sg_vaddr t) (sg_memsz t)) ss \<or> any_overlap ss)"

primrec map_segments ::
  "u8 list \<Rightarrow> (nat \<Rightarrow> u64 option) \<Rightarrow> nat \<Rightarrow> oemu_elf_segment list \<Rightarrow> u64 \<Rightarrow> u64 \<Rightarrow> flat \<Rightarrow> oemu_status \<times> u64 \<times> u64 \<times> flat" where
  "map_segments img blocks i [] load_min load_max st = (OEMU_OK, load_min, load_max, st)"
| "map_segments img blocks i (seg # segs) load_min load_max st =
     (let src = (if sg_filesz seg > 0 then Some (drop (unat (sg_offset seg)) img) else None)
      in case oemu_memory_map_image (blocks i) (sg_vaddr seg) (sg_memsz seg) (sg_perms seg) src (sg_filesz seg) st of
           (status, st) \<Rightarrow>
             if status \<noteq> OEMU_OK then (status, load_min, load_max, st)
             else let load_min = (if sg_vaddr seg < load_min then sg_vaddr seg else load_min);
                      seg_top = sg_vaddr seg + sg_memsz seg;
                      load_max = (if seg_top > load_max then seg_top else load_max)
                  in map_segments img blocks (i + 1) segs load_min load_max st)"

text \<open>Everything that happens before the first mapping.\<close>

definition elf_validate :: "bool \<Rightarrow> oemu_memory \<Rightarrow> u8 list \<Rightarrow> oemu_status + u64 \<times> oemu_elf_segment list" where
  "elf_validate seg_alloc mem img =
     (let sz = of_nat (length img) in
      if sz < OEMU_ELF_MIN_HEADER then Inl OEMU_ERR_INVALID_ARG
      else if img ! 0 \<noteq> OEMU_ELF_MAGIC0 \<or> img ! 1 \<noteq> OEMU_ELF_MAGIC1 \<or> img ! 2 \<noteq> OEMU_ELF_MAGIC2 \<or> img ! 3 \<noteq> OEMU_ELF_MAGIC3
      then Inl OEMU_ERR_INVALID_ARG
      else case (oemu_elf_internal_rd16 img sz OEMU_ELF_OFF_TYPE,
                 oemu_elf_internal_rd16 img sz OEMU_ELF_OFF_MACHINE,
                 oemu_elf_internal_rd64 img sz OEMU_ELF_OFF_ENTRY,
                 oemu_elf_internal_rd64 img sz OEMU_ELF_OFF_PHOFF,
                 oemu_elf_internal_rd16 img sz OEMU_ELF_OFF_PHENTSIZE,
                 oemu_elf_internal_rd16 img sz OEMU_ELF_OFF_PHNUM) of
        (Inr e_type, Inr e_machine, Inr e_entry, Inr e_phoff, Inr e_phentsize, Inr e_phnum) \<Rightarrow>
          if img ! OEMU_ELF_EI_CLASS \<noteq> OEMU_ELF_CLASS64 \<or> img ! OEMU_ELF_EI_DATA \<noteq> OEMU_ELF_DATA_LSB \<or>
             e_type \<noteq> OEMU_ELF_ET_EXEC \<or> e_machine \<noteq> OEMU_ELF_EM_AARCH64
          then Inl OEMU_ERR_UNSUPPORTED
          else if e_phentsize \<noteq> ucast OEMU_ELF_PHENTSIZE \<or> e_phnum = 0 then Inl OEMU_ERR_INVALID_ARG
          else let phnum64 = ucast e_phnum :: u64 in
          if phnum64 > 0xFFFFFFFFFFFFFFFF div OEMU_ELF_PHENTSIZE then Inl OEMU_ERR_INVALID_ARG
          else let table_bytes = phnum64 * OEMU_ELF_PHENTSIZE in
          if e_phoff > 0xFFFFFFFFFFFFFFFF - table_bytes \<or> e_phoff + table_bytes > sz then Inl OEMU_ERR_INVALID_ARG
          else let bases = map (\<lambda>i. e_phoff + of_nat i * OEMU_ELF_PHENTSIZE) [0..<unat phnum64];
                   load_count = length (filter (elf_is_loadable img sz) bases) in
          if load_count = 0 then Inl OEMU_ERR_INVALID_ARG
          else if length (mem_regions mem) + load_count > mem_capacity mem then Inl OEMU_ERR_RANGE
          else if \<not> seg_alloc then Inl OEMU_ERR_NO_MEMORY
          else (case read_segments img sz bases of
              Inl st \<Rightarrow> Inl st
            | Inr segs \<Rightarrow> if any_overlap segs then Inl OEMU_ERR_RANGE else Inr (e_entry, segs))
      | _ \<Rightarrow> Inl OEMU_ERR_INVALID_ARG)"

definition oemu_elf_load ::
  "bool \<Rightarrow> (nat \<Rightarrow> u64 option) \<Rightarrow> u8 list option \<Rightarrow> flat \<Rightarrow> (oemu_status + oemu_elf_image) \<times> flat" where
  "oemu_elf_load seg_alloc blocks image_ptr st =
     (case image_ptr of
        None \<Rightarrow> (Inl OEMU_ERR_INVALID_ARG, st)
      | Some img \<Rightarrow>
          case elf_validate seg_alloc (fst st) img of
            Inl e \<Rightarrow> (Inl e, st)
          | Inr (e_entry, segs) \<Rightarrow>
              case map_segments img blocks 0 segs 0xFFFFFFFFFFFFFFFF 0 st of
                (status, load_min, load_max, st) \<Rightarrow>
                  if status \<noteq> OEMU_OK then (Inl status, st)
                  else (Inr \<lparr>ei_entry = e_entry, ei_load_min = load_min, ei_load_max = load_max,
                    ei_segment_count = of_nat (length segs)\<rparr>, st))"

section \<open>What validation promises\<close>

text \<open>A segment fit for mapping: nonempty, with permissions, within the address space, its file slice
  inside the image and no longer than the segment. All sums are of unbounded integers.\<close>

definition seg_ok :: "u8 list \<Rightarrow> oemu_elf_segment \<Rightarrow> bool" where
  "seg_ok img s \<longleftrightarrow> sg_memsz s \<noteq> 0 \<and> sg_perms s \<noteq> 0 \<and> sg_filesz s \<le> sg_memsz s \<and>
     unat (sg_offset s) + unat (sg_filesz s) \<le> length img \<and> uint (sg_vaddr s) + uint (sg_memsz s) < 2 ^ 64"

definition seg_range :: "oemu_elf_segment \<Rightarrow> int set" where
  "seg_range s = guest_range (sg_vaddr s) (sg_memsz s)"

lemma within_iff: "oemu_elf_internal_within off span sz \<longleftrightarrow> unat off + unat span \<le> unat sz"
  by (auto simp: oemu_elf_internal_within_def word_less_nat_alt word_le_nat_alt unat_sub)

lemma validate_segment_ok:
  assumes "oemu_elf_internal_validate_segment fl po va fs ms al sz = Inr s" "unat sz \<le> length img"
  shows "seg_ok img s"
proof -
  have "uint (0xFFFFFFFFFFFFFFFF - ms) = 2 ^ 64 - 1 - uint ms"
    using uint_minus_le [of ms "0xFFFFFFFFFFFFFFFF"] uint_bounded [of ms] by (simp add: word_le_def)
  with assms show ?thesis
    by (auto simp: oemu_elf_internal_validate_segment_def Let_def seg_ok_def within_iff word_less_def word_le_def split: if_splits)
qed

lemma read_segment_ok:
  assumes "elf_read_segment img sz base sz = Inr s" "unat sz \<le> length img"
  shows "seg_ok img s"
  using assms by (auto simp: elf_read_segment_def split: sum.splits intro: validate_segment_ok)

lemma read_segments_ok:
  assumes "read_segments img sz bases = Inr segs" "unat sz \<le> length img"
  shows "list_all (seg_ok img) segs \<and> length segs = length (filter (elf_is_loadable img sz) bases)"
  using assms by (induction bases arbitrary: segs) (auto split: if_splits sum.splits dest: read_segment_ok)

lemma overlap_iff:
  assumes "seg_ok img s" "seg_ok img t"
  shows "oemu_elf_internal_ranges_overlap (sg_vaddr s) (sg_memsz s) (sg_vaddr t) (sg_memsz t) \<longleftrightarrow> seg_range s \<inter> seg_range t \<noteq> {}"
proof -
  have "uint (sg_vaddr s + sg_memsz s) = uint (sg_vaddr s) + uint (sg_memsz s)"
    "uint (sg_vaddr t + sg_memsz t) = uint (sg_vaddr t) + uint (sg_memsz t)"
    using assms by (simp_all add: seg_ok_def uint_word_ariths)
  moreover have "0 < uint (sg_memsz s)" "0 < uint (sg_memsz t)" using assms by (simp_all add: seg_ok_def word_neq_0_conv word_less_def)
  ultimately show ?thesis
    by (auto simp: oemu_elf_internal_ranges_overlap_def seg_range_def guest_range_def word_less_def)
qed

lemma no_overlap_disjoint:
  "list_all (seg_ok img) segs \<Longrightarrow> \<not> any_overlap segs \<Longrightarrow> sorted_wrt (\<lambda>s t. seg_range s \<inter> seg_range t = {}) segs"
proof (induction segs)
  case (Cons a segs)
  then have "\<forall>t \<in> set segs. seg_ok img t \<and> seg_ok img a \<and>
      \<not> oemu_elf_internal_ranges_overlap (sg_vaddr a) (sg_memsz a) (sg_vaddr t) (sg_memsz t)"
    by (simp add: list_all_iff list_ex_iff)
  then have "\<forall>t \<in> set segs. seg_range a \<inter> seg_range t = {}" using overlap_iff [of img a] by blast
  with Cons show ?case by simp
qed simp

lemma validate_ok:
  assumes "elf_validate seg_alloc mem img = Inr (e, segs)" "length img < 2 ^ 64"
  shows "segs \<noteq> []" "list_all (seg_ok img) segs" "sorted_wrt (\<lambda>s t. seg_range s \<inter> seg_range t = {}) segs"
    "length (mem_regions mem) + length segs \<le> mem_capacity mem"
proof -
  let ?sz = "of_nat (length img) :: u64"
  obtain bases where b: "read_segments img ?sz bases = Inr segs" "\<not> any_overlap segs"
    "length (filter (elf_is_loadable img ?sz) bases) \<noteq> 0"
    "length (mem_regions mem) + length (filter (elf_is_loadable img ?sz) bases) \<le> mem_capacity mem"
    using assms(1) unfolding elf_validate_def Let_def by (auto split: if_splits sum.splits simp: not_less simp del: filter_map length_filter_map)
  have "unat ?sz \<le> length img" using assms(2) by (simp add: unat_of_nat)
  from read_segments_ok [OF b(1) this] b no_overlap_disjoint [of img segs]
  show "segs \<noteq> []" "list_all (seg_ok img) segs" "sorted_wrt (\<lambda>s t. seg_range s \<inter> seg_range t = {}) segs"
    "length (mem_regions mem) + length segs \<le> mem_capacity mem" by auto
qed

section \<open>Mapping the segments\<close>

definition seg_byte :: "u8 list \<Rightarrow> oemu_elf_segment \<Rightarrow> u64 \<Rightarrow> u8" where
  "seg_byte img s b = (let k = unat (b - sg_vaddr s) in if k < unat (sg_filesz s) then img ! (unat (sg_offset s) + k) else 0)"

definition with_segment :: "oemu_memory \<Rightarrow> oemu_elf_segment \<Rightarrow> u64 \<Rightarrow> oemu_memory" where
  "with_segment mem s blk = mem\<lparr>mem_regions := mem_regions mem @ [new_region (sg_vaddr s) (sg_memsz s) (sg_perms s) blk True]\<rparr>"

text \<open>The allocator answers every request, with a block that is fresh at that time.\<close>

primrec blocks_fresh :: "(nat \<Rightarrow> u64 option) \<Rightarrow> nat \<Rightarrow> oemu_memory \<Rightarrow> oemu_elf_segment list \<Rightarrow> bool" where
  "blocks_fresh blocks i mem [] = True"
| "blocks_fresh blocks i mem (s # ss) =
     (case blocks i of None \<Rightarrow> False
      | Some b \<Rightarrow> fresh_block mem b (sg_memsz s) \<and> blocks_fresh blocks (i + 1) (with_segment mem s b) ss)"

definition seg_free :: "oemu_memory \<Rightarrow> oemu_elf_segment \<Rightarrow> bool" where
  "seg_free mem s \<longleftrightarrow> (\<forall>r \<in> set (mem_regions mem). seg_range s \<inter> guest_range (rg_gva r) (rg_size r) = {})"

lemma map_image_slice:
  assumes "seg_ok img s" "xs = take (unat (sg_filesz s)) (drop (unat (sg_offset s)) img)"
  shows "oemu_memory_map_image blk g n p (if sg_filesz s > 0 then Some (drop (unat (sg_offset s)) img) else None) (sg_filesz s) st =
    oemu_memory_map_image blk g n p (Some xs) (of_nat (length xs)) st" "length xs = unat (sg_filesz s)"
proof -
  show l: "length xs = unat (sg_filesz s)" using assms by (auto simp: seg_ok_def)
  then show "oemu_memory_map_image blk g n p (if sg_filesz s > 0 then Some (drop (unat (sg_offset s)) img) else None) (sg_filesz s) st =
      oemu_memory_map_image blk g n p (Some xs) (of_nat (length xs)) st"
    using assms(2) by (auto simp: oemu_memory_map_image_def memory_map_def Let_def fun_eq_iff split: prod.split option.split)
qed

lemma map_one_segment:
  assumes inv: "flat_inv (mem, h)" and seg: "seg_ok img s" "seg_free mem s"
    and room: "length (mem_regions mem) < mem_capacity mem" and blk: "fresh_block mem b (sg_memsz s)"
  obtains h' where
    "oemu_memory_map_image (Some b) (sg_vaddr s) (sg_memsz s) (sg_perms s)
       (if sg_filesz s > 0 then Some (drop (unat (sg_offset s)) img) else None) (sg_filesz s) (mem, h) = (OEMU_OK, (with_segment mem s b, h'))"
    "flat_inv (with_segment mem s b, h')"
    "\<And>a. guest_byte (with_segment mem s b, h') a = (if uint a \<in> seg_range s then Some (seg_byte img s a) else guest_byte (mem, h) a)"
proof -
  obtain xs where xs: "xs = take (unat (sg_filesz s)) (drop (unat (sg_offset s)) img)" by blast
  note slice = map_image_slice [OF seg(1) xs]
  have i: "mem_inv mem" "host_inv mem" using inv by (simp_all add: flat_inv_def)
  have can: "can_map mem (sg_vaddr s) (sg_memsz s) (sg_perms s)"
    using seg room by (auto simp: can_map_def seg_ok_def seg_free_def seg_range_def)
  then have nz: "\<not> (sg_memsz s = 0 \<or> sg_perms s = 0)" "uint (sg_vaddr s) + uint (sg_memsz s) \<le> 2 ^ 64" by (auto simp: can_map_def)
  have fs: "length xs < 2 ^ 64" "\<not> sg_memsz s < of_nat (length xs)"
    using seg(1) slice(2) unsigned_less [of "sg_filesz s"] by (simp_all add: seg_ok_def not_less)
  obtain h' where m: "oemu_memory_map_image (Some b) (sg_vaddr s) (sg_memsz s) (sg_perms s) (Some xs) (of_nat (length xs)) (mem, h) =
      (OEMU_OK, (with_segment mem s b, h'))"
    using can nz fs(2) by (simp add: oemu_memory_map_image_def memory_map_status [OF i(1)] with_segment_def)
  have in_seg: "a - sg_vaddr s < sg_memsz s \<longleftrightarrow> uint a \<in> seg_range s" for a
    unfolding seg_range_def using seg(1) by (intro in_block_iff) (simp add: seg_ok_def)
  show ?thesis
  proof (rule that [of h'])
    show "flat_inv (with_segment mem s b, h')"
      using mem_inv_add [OF i(1) can] host_inv_add [OF i(2) blk] by (simp add: flat_inv_def with_segment_def)
    show "guest_byte (with_segment mem s b, h') a = (if uint a \<in> seg_range s then Some (seg_byte img s a) else guest_byte (mem, h) a)" for a
      using memory_map_image_contents [OF i blk fs(1) m, of a] slice(2) in_seg [of a] seg(1) xs
      by (auto simp: seg_byte_def Let_def seg_ok_def)
  qed (simp only: slice(1) m)
qed

lemma map_segments_ok:
  assumes "flat_inv (mem, h)" "list_all (seg_ok img) segs" "list_all (seg_free mem) segs"
    and "sorted_wrt (\<lambda>s t. seg_range s \<inter> seg_range t = {}) segs"
    and "length (mem_regions mem) + length segs \<le> mem_capacity mem" "blocks_fresh blocks i mem segs"
  shows "\<exists>mem' h'. map_segments img blocks i segs mn mx (mem, h) =
      (OEMU_OK, fold min (map sg_vaddr segs) mn, fold max (map (\<lambda>s. sg_vaddr s + sg_memsz s) segs) mx, (mem', h')) \<and>
    flat_inv (mem', h') \<and> (\<forall>s \<in> set segs. \<forall>a. uint a \<in> seg_range s \<longrightarrow> guest_byte (mem', h') a = Some (seg_byte img s a)) \<and>
    (\<forall>a. (\<forall>s \<in> set segs. uint a \<notin> seg_range s) \<longrightarrow> guest_byte (mem', h') a = guest_byte (mem, h) a)"
  using assms
proof (induction segs arbitrary: i mem h mn mx)
  case (Cons s segs)
  obtain b where b: "blocks i = Some b" "fresh_block mem b (sg_memsz s)" "blocks_fresh blocks (i + 1) (with_segment mem s b) segs"
    using Cons.prems(6) by (auto split: option.splits)
  obtain h1 where h1: "oemu_memory_map_image (Some b) (sg_vaddr s) (sg_memsz s) (sg_perms s)
       (if sg_filesz s > 0 then Some (drop (unat (sg_offset s)) img) else None) (sg_filesz s) (mem, h) = (OEMU_OK, (with_segment mem s b, h1))"
    "flat_inv (with_segment mem s b, h1)"
    "\<And>a. guest_byte (with_segment mem s b, h1) a = (if uint a \<in> seg_range s then Some (seg_byte img s a) else guest_byte (mem, h) a)"
    using map_one_segment [OF Cons.prems(1), of img s b] Cons.prems b(2) by auto
  have "list_all (seg_free (with_segment mem s b)) segs"
    using Cons.prems(3,4) by (auto simp: list_all_iff seg_free_def with_segment_def new_region_def seg_range_def)
  moreover have "length (mem_regions (with_segment mem s b)) + length segs \<le> mem_capacity (with_segment mem s b)"
    using Cons.prems(5) by (simp add: with_segment_def)
  moreover have "list_all (seg_ok img) segs" "sorted_wrt (\<lambda>s t. seg_range s \<inter> seg_range t = {}) segs"
    using Cons.prems(2,4) by simp_all
  ultimately obtain mem' h' where IH: "map_segments img blocks (i + 1) segs (min (sg_vaddr s) mn) (max (sg_vaddr s + sg_memsz s) mx) (with_segment mem s b, h1) =
      (OEMU_OK, fold min (map sg_vaddr segs) (min (sg_vaddr s) mn), fold max (map (\<lambda>s. sg_vaddr s + sg_memsz s) segs) (max (sg_vaddr s + sg_memsz s) mx), (mem', h'))"
    "flat_inv (mem', h')" "\<And>t a. t \<in> set segs \<Longrightarrow> uint a \<in> seg_range t \<Longrightarrow> guest_byte (mem', h') a = Some (seg_byte img t a)"
    "\<And>a. (\<forall>s \<in> set segs. uint a \<notin> seg_range s) \<Longrightarrow> guest_byte (mem', h') a = guest_byte (with_segment mem s b, h1) a"
    using Cons.IH [OF h1(2) _ _ _ _ b(3), of "min (sg_vaddr s) mn" "max (sg_vaddr s + sg_memsz s) mx"] by blast
  have mm: "(if sg_vaddr s < mn then sg_vaddr s else mn) = min (sg_vaddr s) mn"
    "(if mx < sg_vaddr s + sg_memsz s then sg_vaddr s + sg_memsz s else mx) = max (sg_vaddr s + sg_memsz s) mx"
    by (auto simp: min_def max_def)
  have "map_segments img blocks i (s # segs) mn mx (mem, h) =
      (OEMU_OK, fold min (map sg_vaddr (s # segs)) mn, fold max (map (\<lambda>s. sg_vaddr s + sg_memsz s) (s # segs)) mx, (mem', h'))"
    using IH(1) h1(1) b(1) by (simp add: Let_def mm)
  moreover have "guest_byte (mem', h') a = Some (seg_byte img s a)" if "uint a \<in> seg_range s" for a
    using IH(4) [of a] Cons.prems(4) that h1(3) [of a] by auto
  ultimately show ?case using IH(2-4) h1(3) by auto
qed simp

section \<open>Loading\<close>

lemma fold_min_top:
  fixes xs :: "u64 list"
  assumes "xs \<noteq> []"
  shows "fold min xs 0xFFFFFFFFFFFFFFFF = Min (set xs)"
proof -
  have "fold min xs 0xFFFFFFFFFFFFFFFF = Min (set (0xFFFFFFFFFFFFFFFF # xs))" by (rule Min.set_eq_fold [symmetric])
  also have "\<dots> = min 0xFFFFFFFFFFFFFFFF (Min (set xs))" using assms by simp
  also have "\<dots> = Min (set xs)"
  proof (rule min.absorb2)
    have "(- 1 :: u64) = 0xFFFFFFFFFFFFFFFF" by simp
    then show "Min (set xs) \<le> 0xFFFFFFFFFFFFFFFF" using word_order.extremum [of "Min (set xs)"] by metis
  qed
  finally show ?thesis .
qed

lemma fold_max_bot:
  fixes xs :: "u64 list"
  assumes "xs \<noteq> []"
  shows "fold max xs 0 = Max (set xs)"
proof -
  have "fold max xs 0 = Max (set (0 # xs))" by (rule Max.set_eq_fold [symmetric])
  also have "\<dots> = max 0 (Max (set xs))" using assms by simp
  finally show ?thesis by (simp add: max_def)
qed

text \<open>
  Property C14. The ELF loader validates, then commits. On sound flat memory, an image that validation
  accepts yields segments that are nonempty, pairwise disjoint, inside the address space and with their
  file slices inside the image; if further no segment meets a region that was mapped before and the
  allocator answers, the load succeeds: every byte of every segment is the byte of its file slice, or zero
  past it, no other guest byte has changed, memory is sound, and the result names the entry point, the
  lowest and highest address and the number of segments. An image that validation refuses leaves memory
  untouched.
\<close>

theorem elf_load_commit:
  assumes inv: "flat_inv (mem, h)" and len: "length img < 2 ^ 64"
  shows "case elf_validate seg_alloc mem img of
      Inl e \<Rightarrow> oemu_elf_load seg_alloc blocks (Some img) (mem, h) = (Inl e, (mem, h))
    | Inr (entry, segs) \<Rightarrow>
        segs \<noteq> [] \<and> list_all (seg_ok img) segs \<and> sorted_wrt (\<lambda>s t. seg_range s \<inter> seg_range t = {}) segs \<and>
        (list_all (seg_free mem) segs \<and> blocks_fresh blocks 0 mem segs \<longrightarrow>
           (\<exists>mem' h'. oemu_elf_load seg_alloc blocks (Some img) (mem, h) =
                (Inr \<lparr>ei_entry = entry, ei_load_min = Min (set (map sg_vaddr segs)),
                   ei_load_max = Max (set (map (\<lambda>s. sg_vaddr s + sg_memsz s) segs)),
                   ei_segment_count = of_nat (length segs)\<rparr>, (mem', h')) \<and>
              flat_inv (mem', h') \<and>
              (\<forall>s \<in> set segs. \<forall>a. uint a \<in> seg_range s \<longrightarrow> guest_byte (mem', h') a = Some (seg_byte img s a)) \<and>
              (\<forall>a. (\<forall>s \<in> set segs. uint a \<notin> seg_range s) \<longrightarrow> guest_byte (mem', h') a = guest_byte (mem, h) a)))"
proof (cases "elf_validate seg_alloc mem img")
  case (Inr p)
  obtain entry segs where p: "p = (entry, segs)" by fastforce
  note v = validate_ok [OF Inr [unfolded p] len]
  have ends: "fold min (map sg_vaddr segs) 0xFFFFFFFFFFFFFFFF = Min (set (map sg_vaddr segs))"
    "fold max (map (\<lambda>s. sg_vaddr s + sg_memsz s) segs) 0 = Max (set (map (\<lambda>s. sg_vaddr s + sg_memsz s) segs))"
    using v(1) by (simp_all add: fold_min_top fold_max_bot)
  show ?thesis
    using v Inr p map_segments_ok [OF inv v(2) _ v(3,4), where mn = "0xFFFFFFFFFFFFFFFF" and mx = 0 and i = 0 and blocks = blocks]
    by (auto simp: oemu_elf_load_def ends)
qed (simp add: oemu_elf_load_def)

text \<open>Validation compares the segments with each other and not with the regions that memory already has, so
  a segment that meets one of those is refused in the middle of the commit: the segments before it stay
  mapped.\<close>

lemma elf_half_loaded:
  assumes "flat_inv st1" "seg_ok img t" "\<not> seg_free (fst st1) t"
    and "oemu_memory_map_image (blocks i) (sg_vaddr s) (sg_memsz s) (sg_perms s)
       (if sg_filesz s > 0 then Some (drop (unat (sg_offset s)) img) else None) (sg_filesz s) st = (OEMU_OK, st1)"
  shows "\<exists>mn' mx'. map_segments img blocks i (s # t # segs) mn mx st = (OEMU_ERR_RANGE, mn', mx', st1)"
proof -
  obtain mem1 h1 where st1: "st1 = (mem1, h1)" by fastforce
  have "mem_inv mem1" using assms(1) by (simp add: st1 flat_inv_def)
  moreover have "\<not> can_map mem1 (sg_vaddr t) (sg_memsz t) (sg_perms t)"
    using assms(3) by (auto simp: st1 can_map_def seg_free_def seg_range_def)
  ultimately have "oemu_memory_map_image (blocks (i + 1)) (sg_vaddr t) (sg_memsz t) (sg_perms t) c n st1 = (OEMU_ERR_RANGE, st1)" for c n
    using assms(2) by (simp add: st1 oemu_memory_map_image_def memory_map_status seg_ok_def)
  with assms(4) show ?thesis by (simp add: Let_def)
qed

section \<open>A sample image\<close>

text \<open>An executable with one segment of a page, of which the file holds four bytes.\<close>

definition sample_elf :: "u8 list" where
  "sample_elf =
     [0x7F, 0x45, 0x4C, 0x46, 2, 1] @ replicate 10 0 @ [2, 0, 183, 0] @ replicate 4 0 @ [0, 0, 0x40, 0, 0, 0, 0, 0] @
     [64, 0, 0, 0, 0, 0, 0, 0] @ replicate 14 0 @ [56, 0, 1, 0] @ replicate 6 0 @
     [1, 0, 0, 0, 5, 0, 0, 0, 120, 0, 0, 0, 0, 0, 0, 0] @ [0, 0, 0x40, 0, 0, 0, 0, 0] @ replicate 8 0 @
     [4, 0, 0, 0, 0, 0, 0, 0] @ [0, 0x10, 0, 0, 0, 0, 0, 0] @ [0, 0x10, 0, 0, 0, 0, 0, 0] @ [1, 2, 3, 4]"

definition sample_segment :: oemu_elf_segment where
  "sample_segment = \<lparr>sg_vaddr = 0x400000, sg_memsz = 0x1000, sg_filesz = 4, sg_offset = 120, sg_perms = 5\<rparr>"

definition empty_mem :: oemu_memory where
  "empty_mem = \<lparr>mem_table = Some 0x100, mem_regions = [], mem_capacity = 4\<rparr>"

lemma rd64_bytes:
  "oemu_elf_internal_rd64 img sz off = (if \<not> oemu_elf_internal_within off 8 sz then Inl OEMU_ERR_INVALID_ARG
     else Inr (foldr (\<lambda>i v. push_bit 8 v OR ucast (img ! (unat off + i))) [0, 1, 2, 3, 4, 5, 6, 7] 0))"
proof -
  have "[0..<8] = [0, 1, 2, 3, 4, 5, 6, 7 :: nat]" by (simp add: upt_rec)
  then show ?thesis by (simp add: oemu_elf_internal_rd64_def foldr_conv_fold)
qed

lemma sample_elf_fields:
  "oemu_elf_internal_rd16 sample_elf 124 16 = Inr 2" "oemu_elf_internal_rd16 sample_elf 124 18 = Inr 183"
  "oemu_elf_internal_rd64 sample_elf 124 24 = Inr 0x400000" "oemu_elf_internal_rd64 sample_elf 124 32 = Inr 64"
  "oemu_elf_internal_rd16 sample_elf 124 54 = Inr 56" "oemu_elf_internal_rd16 sample_elf 124 56 = Inr 1"
  "oemu_elf_internal_rd32 sample_elf 124 64 = Inr 1" "oemu_elf_internal_rd32 sample_elf 124 68 = Inr 5"
  "oemu_elf_internal_rd64 sample_elf 124 72 = Inr 120" "oemu_elf_internal_rd64 sample_elf 124 80 = Inr 0x400000"
  "oemu_elf_internal_rd64 sample_elf 124 96 = Inr 4" "oemu_elf_internal_rd64 sample_elf 124 104 = Inr 0x1000"
  "oemu_elf_internal_rd64 sample_elf 124 112 = Inr 0x1000"
  by (simp_all add: sample_elf_def oemu_elf_internal_rd16_def oemu_elf_internal_rd32_def rd64_bytes
     oemu_elf_internal_within_def nth_append nth_Cons')

lemma sample_elf_validates:
  "length sample_elf = 124" "elf_validate True empty_mem sample_elf = Inr (0x400000, [sample_segment])"
proof -
  show l: "length sample_elf = 124" by (simp add: sample_elf_def)
  have i: "sample_elf ! 0 = 0x7F" "sample_elf ! 1 = 0x45" "sample_elf ! 2 = 0x4C" "sample_elf ! 3 = 0x46" "sample_elf ! 4 = 2" "sample_elf ! 5 = 1"
    by (simp_all add: sample_elf_def)
  show "elf_validate True empty_mem sample_elf = Inr (0x400000, [sample_segment])"
    using i by (simp add: elf_validate_def l sample_elf_fields elf_is_loadable_def elf_read_segment_def
        oemu_elf_internal_validate_segment_def oemu_elf_internal_within_def sample_segment_def empty_mem_def)
qed

theorem elf_load_commit_witness:
  "\<exists>img st'. oemu_elf_load True (\<lambda>_. Some 0x7000) (Some sample_elf) (empty_mem, \<lambda>_. 0) = (Inr img, st') \<and>
     ei_entry img = 0x400000 \<and> guest_byte st' 0x400002 = Some 3 \<and> guest_byte st' 0x400004 = Some 0"
proof -
  have inv: "flat_inv (empty_mem, \<lambda>_. 0)" by (simp add: flat_inv_def mem_inv_def host_inv_def empty_mem_def)
  have "seg_free empty_mem sample_segment" "blocks_fresh (\<lambda>_. Some 0x7000) 0 empty_mem [sample_segment]"
    by (simp_all add: seg_free_def empty_mem_def sample_segment_def fresh_block_def)
  moreover have "seg_byte sample_elf sample_segment 0x400002 = 3" "seg_byte sample_elf sample_segment 0x400004 = 0"
    by (simp_all add: seg_byte_def sample_segment_def sample_elf_def nth_append nth_Cons')
  moreover have "uint (0x400002 :: u64) \<in> seg_range sample_segment" "uint (0x400004 :: u64) \<in> seg_range sample_segment"
    by (simp_all add: seg_range_def guest_range_def sample_segment_def)
  ultimately show ?thesis
    using elf_load_commit [OF inv, of sample_elf True "\<lambda>_. Some 0x7000"] sample_elf_validates by fastforce
qed

end
