(* ===== verification/Oemu_Machine.thy ===== *)
theory Oemu_Machine
  imports Oemu_Mmu_Off
begin

text \<open>
  The machine (\<^verbatim>\<open>src/machine/machine.c\<close>): a physical address space with one block of RAM and the
  sticky lifecycle event. Construction makes two allocations; what the allocator returns for the region
  table and for the RAM block are parameters, and the blocks handed back to it are part of the result,
  so that the lemmas can say that a failed construction keeps nothing.
\<close>

section \<open>State and operations\<close>

datatype oemu_machine_event =
    OEMU_MACHINE_EVENT_NONE
  | OEMU_MACHINE_EVENT_POWERDOWN
  | OEMU_MACHINE_EVENT_RESET

record 'd oemu_machine =
  mc_aspace :: "'d oemu_aspace"
  mc_event :: oemu_machine_event
  mc_exit_code :: u32

text \<open>The structure after \<^verbatim>\<open>memset\<close>.\<close>

definition zero_machine :: "'d oemu_machine" where
  "zero_machine =
     \<lparr>mc_aspace = \<lparr>as_table = None, as_regions = [], as_capacity = 0\<rparr>,
      mc_event = OEMU_MACHINE_EVENT_NONE, mc_exit_code = 0\<rparr>"

definition oemu_machine_init ::
  "u64 option \<Rightarrow> u64 option \<Rightarrow> u64 \<Rightarrow> u64 \<Rightarrow> nat \<Rightarrow> 'd oemu_machine \<times> heap \<times> 'd \<Rightarrow>
   oemu_status \<times> u64 list \<times> 'd oemu_machine \<times> heap \<times> 'd" where
  "oemu_machine_init table block ram_base ram_size region_capacity = (\<lambda>(machine, h, d).
     if ram_size = 0 \<or> region_capacity = 0 then (OEMU_ERR_INVALID_ARG, [], machine, h, d)
     else let machine = zero_machine
     in case oemu_aspace_init table region_capacity (mc_aspace machine) of
       (st, as) \<Rightarrow>
         if st \<noteq> OEMU_OK then (st, [], machine\<lparr>mc_aspace := as\<rparr>, h, d)
         else case oemu_aspace_map_ram block (as, h, d) ram_base ram_size OEMU_PERM_ALL of
           (st, as, h, d) \<Rightarrow>
             if st \<noteq> OEMU_OK then (st, fst (oemu_aspace_dispose as), zero_machine, h, d)
             else (OEMU_OK, [], machine\<lparr>mc_aspace := as\<rparr>, h, d))"

definition oemu_machine_dispose :: "'d oemu_machine \<Rightarrow> u64 list \<times> 'd oemu_machine" where
  "oemu_machine_dispose machine =
     (case oemu_aspace_dispose (mc_aspace machine) of
        (freed, as) \<Rightarrow> (freed, machine\<lparr>mc_aspace := as, mc_event := OEMU_MACHINE_EVENT_NONE, mc_exit_code := 0\<rparr>))"

definition oemu_machine_poweroff :: "'d oemu_machine \<Rightarrow> u32 \<Rightarrow> 'd oemu_machine" where
  "oemu_machine_poweroff machine exit_code =
     machine\<lparr>mc_event := OEMU_MACHINE_EVENT_POWERDOWN, mc_exit_code := exit_code\<rparr>"

definition oemu_machine_reset :: "'d oemu_machine \<Rightarrow> 'd oemu_machine" where
  "oemu_machine_reset machine = machine\<lparr>mc_event := OEMU_MACHINE_EVENT_RESET\<rparr>"

definition oemu_machine_event_peek :: "'d oemu_machine \<Rightarrow> oemu_machine_event" where
  "oemu_machine_event_peek machine = mc_event machine"

section \<open>Construction\<close>

definition empty_space :: "u64 \<Rightarrow> nat \<Rightarrow> 'd oemu_aspace" where
  "empty_space t n = \<lparr>as_table = Some t, as_regions = [], as_capacity = n\<rparr>"

lemma empty_space_inv: "as_inv (empty_space t n)" "mem_inv (mem_of P (empty_space t n))" "host_inv (mem_of P (empty_space t n))"
  by (simp_all add: as_inv_def mem_inv_def host_inv_def mem_of_def empty_space_def)

lemma empty_space_map:
  "map_common (empty_space t n) pa sz 7 =
     (if sz = 0 then OEMU_ERR_INVALID_ARG else if 2 ^ 64 < uint pa + uint sz then OEMU_ERR_OVERFLOW
      else if n = 0 then OEMU_ERR_RANGE else OEMU_OK)"
  using map_common_ok [OF empty_space_inv(1) [of t n], of pa sz 7] check_map_args_ok [of pa sz 7]
  by (auto simp: map_common_def Let_def check_room_def empty_space_def oemu_aspace_internal_check_map_args_def
      oemu_memory_internal_check_map_args_def split: if_splits)

definition ram_region :: "u64 \<Rightarrow> u64 \<Rightarrow> u64 \<Rightarrow> 'd oemu_aspace_region" where
  "ram_region pa sz blk = \<lparr>ar_pa = pa, ar_size = sz, ar_perms = OEMU_PERM_ALL, ar_kind = OEMU_REGION_RAM,
     ar_host = blk, ar_owned = True, ar_ops = None\<rparr>"

lemma machine_init_cases:
  assumes "ram_size \<noteq> 0" "n \<noteq> 0"
  shows "oemu_machine_init table block ram_base ram_size n (machine, h, d) =
    (case table of None \<Rightarrow> (OEMU_ERR_NO_MEMORY, [], zero_machine, h, d)
     | Some t \<Rightarrow>
         if 2 ^ 64 < uint ram_base + uint ram_size then (OEMU_ERR_OVERFLOW, [t], zero_machine, h, d)
         else (case block of None \<Rightarrow> (OEMU_ERR_NO_MEMORY, [t], zero_machine, h, d)
           | Some blk \<Rightarrow> (OEMU_OK, [], zero_machine\<lparr>mc_aspace := add_region (empty_space t n) (ram_region ram_base ram_size blk)\<rparr>,
               memset_zero h blk ram_size, d)))"
  using assms
  by (auto simp: empty_space_map [of _ n ram_base ram_size, unfolded empty_space_def] oemu_machine_init_def oemu_aspace_init_def oemu_aspace_map_ram_def oemu_aspace_dispose_def
      zero_machine_def ram_region_def empty_space_def Let_def split: option.split)

text \<open>The machine's RAM as a bus: one region, all permissions, zero everywhere.\<close>

lemma fresh_ram:
  assumes "ram_size \<noteq> 0" "uint ram_base + uint ram_size \<le> 2 ^ 64" "uint blk + uint ram_size \<le> 2 ^ 64" "n \<noteq> 0"
    and as: "as = add_region (empty_space t n) (ram_region ram_base ram_size blk)"
  shows "ram_inv (as, h, d)" "host_inv (mem_of is_ram as)" "space_accepts (as, h, d) ram_base ram_size OEMU_PERM_ALL"
    "ram_content (as, memset_zero h blk ram_size, d) b = (if b - ram_base < ram_size then Some 0 else None)"
proof -
  have ok: "map_common (empty_space t n) ram_base ram_size 7 = OEMU_OK"
    using assms(1,2,4) by (simp add: empty_space_map)
  show i: "ram_inv (as, h, d)"
    using as_inv_add [OF empty_space_inv(1) [of t n], of "ram_region ram_base ram_size blk"] ok
    by (simp add: ram_inv_def as device_ok_def ram_region_def add_region_def empty_space_def is_ram_def)
  show "host_inv (mem_of is_ram as)"
    using assms(3) by (simp add: as host_inv_def mem_of_def add_region_def empty_space_def ram_region_def is_ram_def region_of_def)
  show "space_accepts (as, h, d) ram_base ram_size OEMU_PERM_ALL"
    unfolding space_accepts_find [OF i]
    using assms(1) by (simp add: oemu_aspace_internal_find_def as add_region_def empty_space_def
        ram_region_def region_test_as_def)
  have can: "can_map (mem_of is_ram (empty_space t n)) ram_base ram_size OEMU_PERM_ALL"
    using assms(1,2,4) by (simp add: can_map_def mem_of_def empty_space_def)
  have m: "mem_of is_ram as = (mem_of is_ram (empty_space t n))\<lparr>mem_regions :=
      mem_regions (mem_of is_ram (empty_space t n)) @ [new_region ram_base ram_size OEMU_PERM_ALL blk True]\<rparr>"
    by (simp add: as mem_of_def add_region_def empty_space_def ram_region_def is_ram_def region_of_def new_region_def)
  have none: "guest_byte (mem_of is_ram (empty_space t n), h') b = None" for h'
    by (simp add: guest_byte_def mem_of_def empty_space_def oemu_memory_internal_find_def)
  show "ram_content (as, memset_zero h blk ram_size, d) b = (if b - ram_base < ram_size then Some 0 else None)"
    using guest_byte_add [OF empty_space_inv(2) can m, of "memset_zero h blk ram_size" b]
    unfolding in_block_iff [OF assms(2), symmetric] none
    by (simp only: ram_content_def fst_conv snd_conv) (simp add: memset_zero_def)
qed

text \<open>
  The argument check comes before the structure is cleared: a machine whose size or capacity is zero is
  refused and left as it was, where \<^verbatim>\<open>machine.h\<close> has a failed construction leave it zeroed.
\<close>

lemma machine_bad_args_untouched:
  assumes "ram_size = 0 \<or> n = 0"
  shows "oemu_machine_init table block ram_base ram_size n (machine, h, d) = (OEMU_ERR_INVALID_ARG, [], machine, h, d)"
  using assms by (simp add: oemu_machine_init_def)

text \<open>
  Property C16. Building a machine: construction succeeds exactly when the RAM size and the table
  capacity are nonzero, both allocations succeed and the RAM ends within the address space. It then
  keeps both blocks, has no event, and its bus is sound RAM that allows every access inside the range,
  reads zero there and holds no other byte; disposing of it frees exactly the two blocks. A zero size or
  capacity is the invalid argument, with no block obtained and host memory untouched. A failure after
  that check is an overflow or a refused allocation as the code says; it leaves the structure zeroed,
  host memory untouched, and hands every block it obtained back to the allocator.
\<close>

theorem machine_init_sound:
  assumes "\<And>blk. block = Some blk \<Longrightarrow> uint blk + uint ram_size \<le> 2 ^ 64"
    and "oemu_machine_init table block ram_base ram_size n (machine, h, d) = (st, freed, machine', h', d')"
  shows "(st = OEMU_OK \<longleftrightarrow> ram_size \<noteq> 0 \<and> n \<noteq> 0 \<and> table \<noteq> None \<and> block \<noteq> None \<and> uint ram_base + uint ram_size \<le> 2 ^ 64) \<and>
    (if st = OEMU_OK
     then freed = [] \<and> oemu_machine_event_peek machine' = OEMU_MACHINE_EVENT_NONE \<and>
       ram_inv (mc_aspace machine', h', d') \<and> host_inv (mem_of is_ram (mc_aspace machine')) \<and>
       space_accepts (mc_aspace machine', h', d') ram_base ram_size OEMU_PERM_ALL \<and>
       (\<forall>b. ram_content (mc_aspace machine', h', d') b = (if b - ram_base < ram_size then Some 0 else None)) \<and>
       oemu_machine_dispose machine' = ([the block, the table], zero_machine)
     else h' = h \<and> (if ram_size = 0 \<or> n = 0 then freed = [] \<and> st = OEMU_ERR_INVALID_ARG
       else machine' = zero_machine \<and> freed = (case table of None \<Rightarrow> [] | Some t \<Rightarrow> [t]) \<and>
         st = (if table \<noteq> None \<and> 2 ^ 64 < uint ram_base + uint ram_size then OEMU_ERR_OVERFLOW else OEMU_ERR_NO_MEMORY)))"
proof (cases "ram_size = 0 \<or> n = 0")
  case True
  with assms(2) show ?thesis by (auto simp: machine_bad_args_untouched)
next
  case False
  then have nz: "ram_size \<noteq> 0" "n \<noteq> 0" by auto
  note init = assms(2) [unfolded machine_init_cases [OF nz]]
  show ?thesis
  proof (cases "\<exists>t blk. table = Some t \<and> block = Some blk \<and> uint ram_base + uint ram_size \<le> 2 ^ 64")
    case True
    then obtain t blk where ok: "table = Some t" "block = Some blk" "uint ram_base + uint ram_size \<le> 2 ^ 64" by blast
    note fresh = fresh_ram [OF nz(1) ok(3) assms(1) [OF ok(2)] nz(2) refl, where t = t]
    have r: "st = OEMU_OK" "freed = []" "d' = d" "h' = memset_zero h blk ram_size"
      "machine' = zero_machine\<lparr>mc_aspace := add_region (empty_space t n) (ram_region ram_base ram_size blk)\<rparr>"
      using init ok by auto
    have "oemu_machine_dispose machine' = ([blk, t], zero_machine)"
      by (simp add: r oemu_machine_dispose_def oemu_aspace_dispose_def add_region_def empty_space_def ram_region_def zero_machine_def)
    with ok nz show ?thesis by (simp add: r fresh oemu_machine_event_peek_def zero_machine_def)
  next
    case False
    with init nz show ?thesis by (auto split: option.splits if_splits)
  qed
qed

theorem machine_init_sound_witness:
  "\<exists>machine' h'. oemu_machine_init (Some 0x100) (Some 0x10000) 0x40000000 0x8000000 8 (zero_machine, (\<lambda>_. 1), ()) =
       (OEMU_OK, [], machine', h', ()) \<and>
     ram_inv (mc_aspace machine', h', ()) \<and> ram_content (mc_aspace machine', h', ()) 0x40000123 = Some 0"
proof -
  obtain st freed machine' h' d' where
    i: "oemu_machine_init (Some 0x100) (Some 0x10000) 0x40000000 0x8000000 8 (zero_machine, (\<lambda>_. 1), ()) = (st, freed, machine', h', d')"
    by (metis prod_cases5)
  have b: "Some 0x10000 = Some blk \<Longrightarrow> uint blk + uint (0x8000000 :: u64) \<le> 2 ^ 64" for blk :: u64 by auto
  have "st = OEMU_OK" using machine_init_sound [OF b i] by (simp split: if_splits)
  with machine_init_sound [OF b i] show ?thesis unfolding i by simp
qed

text \<open>The event is sticky: only disposal clears it, and the last request wins.\<close>

lemma machine_event_sticky:
  "oemu_machine_event_peek (oemu_machine_reset machine) = OEMU_MACHINE_EVENT_RESET"
  "oemu_machine_event_peek (oemu_machine_poweroff machine c) = OEMU_MACHINE_EVENT_POWERDOWN"
  "oemu_machine_event_peek (snd (oemu_machine_dispose machine)) = OEMU_MACHINE_EVENT_NONE"
  "mc_aspace (oemu_machine_reset (oemu_machine_poweroff machine c)) = mc_aspace machine"
  "fst (oemu_machine_dispose (snd (oemu_machine_dispose machine))) = []"
  by (simp_all add: oemu_machine_event_peek_def oemu_machine_reset_def oemu_machine_poweroff_def oemu_machine_dispose_def
      oemu_aspace_dispose_def split: prod.split)

end
