(* ===== verification/Oemu_Image.thy ===== *)
theory Oemu_Image
  imports Oemu_Machine
begin

text \<open>
  The kernel Image loader (\<^verbatim>\<open>src/kernel/image.c\<close>): the 64-byte header of the boot protocol is checked,
  then the text is written to the physical bus in doublewords. The file is a list of bytes, the bus is a
  parameter; lengths and offsets into the file are natural numbers, since a file in host memory is far
  shorter than the address space.
\<close>

section \<open>Header\<close>

record oemu_image =
  im_text_offset :: u32
  im_image_size :: u64
  im_flags :: u64
  im_load_pa :: u64
  im_entry_pa :: u64

abbreviation (input) OEMU_IMAGE_HEADER_SIZE :: nat where "OEMU_IMAGE_HEADER_SIZE \<equiv> 64"
abbreviation (input) OEMU_IMAGE_MAGIC :: u32 where "OEMU_IMAGE_MAGIC \<equiv> 0x644D5241"
abbreviation (input) OEMU_IMAGE_FLAG_ENDIAN_BE :: u64 where "OEMU_IMAGE_FLAG_ENDIAN_BE \<equiv> 0x01"
abbreviation (input) OEMU_IMAGE_FLAG_PAGES_SHIFT :: nat where "OEMU_IMAGE_FLAG_PAGES_SHIFT \<equiv> 1"
abbreviation (input) OEMU_IMAGE_PAGE_16K :: u64 where "OEMU_IMAGE_PAGE_16K \<equiv> 2"
abbreviation (input) OEMU_IMAGE_PAGE_64K :: u64 where "OEMU_IMAGE_PAGE_64K \<equiv> 3"
abbreviation (input) OEMU_IMAGE_OFF_CODE0 :: nat where "OEMU_IMAGE_OFF_CODE0 \<equiv> 0x00"
abbreviation (input) OEMU_IMAGE_OFF_CODE1 :: nat where "OEMU_IMAGE_OFF_CODE1 \<equiv> 0x04"
abbreviation (input) OEMU_IMAGE_BRANCH_MASK :: u32 where "OEMU_IMAGE_BRANCH_MASK \<equiv> 0xFC000000"
abbreviation (input) OEMU_IMAGE_BRANCH_BITS :: u32 where "OEMU_IMAGE_BRANCH_BITS \<equiv> 0x14000000"
abbreviation (input) OEMU_IMAGE_BTI_MASK :: u32 where "OEMU_IMAGE_BTI_MASK \<equiv> 0xFFFFFEDF"
abbreviation (input) OEMU_IMAGE_BTI_BITS :: u32 where "OEMU_IMAGE_BTI_BITS \<equiv> 0xD503201F"

text \<open>\<open>img_le32 p k\<close> reads at the pointer \<open>p + k\<close>.\<close>

definition img_le32 :: "u8 list \<Rightarrow> nat \<Rightarrow> u32" where
  "img_le32 p k = ucast (p ! k) OR push_bit 8 (ucast (p ! (k + 1))) OR push_bit 16 (ucast (p ! (k + 2))) OR
     push_bit 24 (ucast (p ! (k + 3)))"

definition img_le64 :: "u8 list \<Rightarrow> nat \<Rightarrow> u64" where
  "img_le64 p k = ucast (img_le32 p k) OR push_bit 32 (ucast (img_le32 p (k + 4)))"

definition oemu_image_parse_header :: "u8 list option \<Rightarrow> oemu_status + oemu_image" where
  "oemu_image_parse_header head_ptr =
     (case head_ptr of
        None \<Rightarrow> Inl OEMU_ERR_INVALID_ARG
      | Some head \<Rightarrow>
          let code0 = img_le32 head OEMU_IMAGE_OFF_CODE0;
              code1 = img_le32 head OEMU_IMAGE_OFF_CODE1;
              code0_branch = (code0 AND OEMU_IMAGE_BRANCH_MASK = OEMU_IMAGE_BRANCH_BITS);
              code0_bti = (code0 AND OEMU_IMAGE_BTI_MASK = OEMU_IMAGE_BTI_BITS);
              code1_branch = (code1 AND OEMU_IMAGE_BRANCH_MASK = OEMU_IMAGE_BRANCH_BITS)
          in if \<not> code0_branch \<and> \<not> (code0_bti \<and> code1_branch) then Inl OEMU_ERR_FORMAT
          else if img_le32 head 0x38 \<noteq> OEMU_IMAGE_MAGIC then Inl OEMU_ERR_FORMAT
          else let flags = img_le64 head 0x18
          in if flags AND OEMU_IMAGE_FLAG_ENDIAN_BE \<noteq> 0 then Inl OEMU_ERR_UNSUPPORTED
          else let page_size = drop_bit OEMU_IMAGE_FLAG_PAGES_SHIFT flags AND 3
          in if page_size = OEMU_IMAGE_PAGE_16K \<or> page_size = OEMU_IMAGE_PAGE_64K then Inl OEMU_ERR_UNSUPPORTED
          else let text_offset = img_le64 head 0x08;
                   image_size = img_le64 head 0x10
          in if text_offset AND 0xFFF \<noteq> 0 \<or> text_offset \<ge> 0x200000 then Inl OEMU_ERR_FORMAT
          else Inr \<lparr>im_text_offset = ucast text_offset, im_image_size = image_size, im_flags = flags,
            im_load_pa = 0, im_entry_pa = 0\<rparr>)"

section \<open>Load\<close>

text \<open>\<^verbatim>\<open>memcpy\<close> of \<open>n\<close> bytes into a zeroed word, on a little-endian host.\<close>

definition memcpy_word :: "u8 list \<Rightarrow> nat \<Rightarrow> u64" where
  "memcpy_word src n = fold (\<lambda>i w. w OR push_bit (8 * i) (ucast (src ! i))) [0..<n] 0"

text \<open>The loop over whole doublewords of the text, which returns the offset it stopped at.\<close>

function load_loop :: "'m oemu_memops \<Rightarrow> u8 list \<Rightarrow> u64 \<Rightarrow> nat \<Rightarrow> 'm \<Rightarrow> oemu_status \<times> nat \<times> 'm" where
  "load_loop phys tx load off m =
     (if off + 8 \<le> length tx
      then case mo_write phys m (load + of_nat off) OEMU_MEM_DWORD (img_le64 tx off) of
             (w, m) \<Rightarrow> if w \<noteq> OEMU_OK then (w, off, m) else load_loop phys tx load (off + 8) m
      else (OEMU_OK, off, m))"
  by pat_completeness auto
termination by (relation "measure (\<lambda>(phys, tx, load, off, m). length tx - off)") auto

declare load_loop.simps [simp del]

definition load_tail :: "'m oemu_memops \<Rightarrow> u8 list \<Rightarrow> u64 \<Rightarrow> nat \<Rightarrow> 'm \<Rightarrow> oemu_status \<times> 'm" where
  "load_tail phys tx load off m =
     (if off \<noteq> length tx
      then mo_write phys m (load + of_nat off) OEMU_MEM_DWORD (memcpy_word (drop off tx) (length tx - off))
      else (OEMU_OK, m))"

definition oemu_image_load ::
  "u8 list option \<Rightarrow> 'm oemu_memops \<Rightarrow> u64 \<Rightarrow> u64 \<Rightarrow> 'm \<Rightarrow> (oemu_status + oemu_image) \<times> 'm" where
  "oemu_image_load bytes_ptr phys mem_base ram_size m =
     (case bytes_ptr of
        None \<Rightarrow> (Inl OEMU_ERR_INVALID_ARG, m)
      | Some bytes \<Rightarrow>
          if length bytes < OEMU_IMAGE_HEADER_SIZE then (Inl OEMU_ERR_FORMAT, m)
          else case oemu_image_parse_header (Some bytes) of
            Inl st \<Rightarrow> (Inl st, m)
          | Inr info \<Rightarrow>
              if unat (im_text_offset info) \<ge> length bytes then (Inl OEMU_ERR_FORMAT, m)
              else let text_len = length bytes - unat (im_text_offset info)
              in if ucast (im_text_offset info) + of_nat text_len > ram_size then (Inl OEMU_ERR_RANGE, m)
              else let load = mem_base + ucast (im_text_offset info);
                       tx = drop (unat (im_text_offset info)) bytes
              in case load_loop phys tx load 0 m of
                (w, off, m) \<Rightarrow>
                  if w \<noteq> OEMU_OK then (Inl w, m)
                  else case load_tail phys tx load off m of
                    (w, m) \<Rightarrow>
                      if w \<noteq> OEMU_OK then (Inl w, m)
                      else (Inr (info\<lparr>im_load_pa := load, im_entry_pa := load\<rparr>), m))"

section \<open>Doublewords in RAM\<close>

lemma memcpy_word_byte:
  assumes "i < 8"
  shows "ucast (drop_bit (8 * i) (memcpy_word bs n)) = (if i < n then bs ! i else 0)"
proof (rule bit_word_eqI)
  fix k assume k: "k < LENGTH(8)"
  then have "(8 * i + k) div 8 = i" "(8 * i + k) mod 8 = k" "8 * i + k < 64" using assms by simp_all
  with k show "bit (ucast (drop_bit (8 * i) (memcpy_word bs n)) :: u8) k = bit (if i < n then bs ! i else 0) k"
    using bit_disassemble [of "8 * i + k" bs n]
    by (auto simp: memcpy_word_def oemu_memory_internal_disassemble_def bit_simps)
qed

lemma bit_byte_high [simp]: "8 \<le> n \<Longrightarrow> \<not> bit (b :: u8) n"
  using bit_imp_le_length [of b n] by auto

lemma img_le32_byte:
  assumes "i < 4"
  shows "ucast (drop_bit (8 * i) (img_le32 p k)) = p ! (k + i)"
proof -
  consider "i = 0" | "i = 1" | "i = 2" | "i = 3" using assms by linarith
  then show ?thesis
    by cases (auto simp: img_le32_def bit_simps intro!: bit_word_eqI)
qed

lemma img_le64_byte:
  assumes "i < 8"
  shows "ucast (drop_bit (8 * i) (img_le64 p k)) = p ! (k + i)"
proof (cases "i < 4")
  case True
  have "ucast (drop_bit (8 * i) (img_le64 p k)) = (ucast (drop_bit (8 * i) (img_le32 p k)) :: u8)"
    using True by (intro bit_word_eqI) (auto simp: img_le64_def bit_simps)
  with True show ?thesis by (simp add: img_le32_byte)
next
  case False
  then have "\<not> bit (img_le32 p k) (8 * i + n)" for n using bit_imp_le_length [of "img_le32 p k" "8 * i + n"] by auto
  with False have "(ucast (drop_bit (8 * i) (img_le64 p k)) :: u8) = ucast (drop_bit (8 * (i - 4)) (img_le32 p (k + 4)))"
    using assms by (intro bit_word_eqI) (auto simp: img_le64_def bit_simps diff_mult_distrib2)
  with False assms show ?thesis by (simp add: img_le32_byte)
qed

text \<open>The addresses of a chunk, seen from the start of the text.\<close>

lemma chunk_offset:
  fixes x :: u64
  assumes "off + n \<le> 2 ^ 64" "0 < n"
  shows "unat (x - of_nat off) < n \<longleftrightarrow> off \<le> unat x \<and> unat x < off + n"
    "off \<le> unat x \<Longrightarrow> unat (x - of_nat off) = unat x - off"
proof -
  have o: "unat (of_nat off :: u64) = off" using assms by (simp add: unat_of_nat)
  have "int off + int n \<le> 2 ^ 64" using assms(1) by simp
  then show "unat (x - of_nat off) < n \<longleftrightarrow> off \<le> unat x \<and> unat x < off + n"
    using unat_minus_less_iff [of "of_nat off" n x] unfolding uint_nat o by linarith
  show "off \<le> unat x \<Longrightarrow> unat (x - of_nat off) = unat x - off"
    using unat_sub [of "of_nat off" x] o by (simp add: word_le_nat_alt)
qed

text \<open>The part of the space that RAM answers.\<close>

definition ram_accepts :: "'d oemu_aspace \<Rightarrow> u64 \<Rightarrow> u64 \<Rightarrow> u32 \<Rightarrow> bool" where
  "ram_accepts as a n perms \<longleftrightarrow> oemu_memory_internal_find (mem_of is_ram as) a n perms \<noteq> None"

lemma same_region:
  assumes "as_inv as" "r \<in> set (as_regions as)" "q \<in> set (as_regions as)" "n \<noteq> 0"
    and "region_contains (region_of r) a n" "region_contains (region_of q) a n"
  shows "r = q"
proof (rule ccontr)
  assume "r \<noteq> q"
  have "uint a \<in> guest_range (ar_pa x) (ar_size x)" if "region_contains (region_of x) a n" for x :: "'a oemu_aspace_region"
  proof -
    have "0 < uint n" using assms(4) by (simp add: word_neq_0_conv word_less_def)
    then show ?thesis using that by (simp add: region_contains_def guest_range_def region_of_def)
  qed
  moreover obtain i j where "i < length (as_regions as)" "j < length (as_regions as)" "r = as_regions as ! i" "q = as_regions as ! j"
    using assms(2,3) by (auto simp: in_set_conv_nth)
  then have "guest_range (ar_pa r) (ar_size r) \<inter> guest_range (ar_pa q) (ar_size q) = {}"
    using assms(1) \<open>r \<noteq> q\<close> linorder_neq_iff [of i j]
    by (auto simp: as_inv_def mem_inv_def mem_of_def sorted_wrt_map sorted_wrt_iff_nth_less region_of_def)
  ultimately show False using assms(5,6) by blast
qed

lemma ram_accepts_no_device:
  assumes "as_inv as" "ram_accepts as a n perms"
  shows "\<not> hits_device as a n perms"
proof -
  obtain x where "oemu_memory_internal_find (mem_of is_ram as) a n perms = Some x" using assms(2) by (auto simp: ram_accepts_def)
  from find_hit [OF this] obtain r where r: "r \<in> set (as_regions as)" "is_ram r" "n \<noteq> 0" "region_contains (region_of r) a n"
    by (auto simp: mem_of_def)
  have "is_ram q" if "oemu_aspace_internal_find as a n perms = Some q" for q
  proof -
    have "oemu_memory_internal_find (mem_of (\<lambda>_. True) as) a n perms = Some (region_of q)" using that find_space [OF assms(1)] by simp
    from find_hit [OF this] have "q = r" using same_region [OF assms(1) find_space_set [OF that] r(1,3)] r(4) by blast
    then show ?thesis using r(2) by simp
  qed
  then show ?thesis by (simp add: hits_device_def split: option.split)
qed

lemma ram_accepts_sub:
  assumes "as_inv as" "ram_accepts as a n perms" "unat (b - a) + unat k \<le> unat n" "0 < k"
  shows "ram_accepts as b k perms"
  using find_sub [OF as_inv_ram [OF assms(1)] _ assms(3,4)] assms(2) by (simp add: ram_accepts_def)

lemma ram_store:
  fixes d :: 'd
  assumes "as_inv as" "host_inv (mem_of is_ram as)" "ram_accepts as a 8 OEMU_PERM_WRITE"
  obtains h' where "mo_write oemu_aspace_memops (as, h, d) a OEMU_MEM_DWORD v = (OEMU_OK, (as, h', d))"
    "\<And>b. ram_content (as, h', d) b =
       (if unat (b - a) < 8 then Some (ucast (drop_bit (8 * unat (b - a)) v)) else ram_content (as, h, d) b)"
proof -
  have inv: "as_inv as" "mem_inv (mem_of is_ram as)" using assms(1) as_inv_ram by auto
  have nd: "\<not> hits_device as a (transfer_bytes OEMU_MEM_DWORD) OEMU_PERM_WRITE"
    using ram_accepts_no_device [OF assms(1,3)] by simp
  have "oemu_memory_internal_find (mem_of is_ram as) a 8 OEMU_PERM_WRITE \<noteq> None"
    using assms(3) by (simp add: ram_accepts_def)
  then have "oemu_memory_validate (mem_of is_ram as) a (transfer_bytes OEMU_MEM_DWORD) OEMU_PERM_WRITE = OEMU_OK"
    by (simp add: validate_find)
  with write_read_back [OF inv(2) assms(2), of OEMU_MEM_DWORD a h v False] obtain h' where
    "oemu_memory_write (mem_of is_ram as, h) a OEMU_MEM_DWORD v = (OEMU_OK, (mem_of is_ram as, h'))"
    "\<And>b. guest_byte (mem_of is_ram as, h') b = (if unat (b - a) < 8 then Some (ucast (drop_bit (8 * unat (b - a)) v))
        else guest_byte (mem_of is_ram as, h) b)" by auto
  then show ?thesis
    using ram_write [OF inv(1) _ nd, of h d v] by (intro that [of h']) (simp_all add: oemu_aspace_memops_def ram_content_def)
qed

text \<open>The loop writes every whole doubleword of the text and nothing else.\<close>

lemma load_loop_ram:
  fixes d :: 'd
  assumes "as_inv as" "host_inv (mem_of is_ram as)" "length tx < 2 ^ 64" "off \<le> length tx"
    and "\<And>k. off \<le> k \<Longrightarrow> k + 8 \<le> length tx \<Longrightarrow> ram_accepts as (load + of_nat k) 8 OEMU_PERM_WRITE"
    and "stop = off + 8 * ((length tx - off) div 8)"
  shows "\<exists>h'. load_loop oemu_aspace_memops tx load off (as, h, d) = (OEMU_OK, stop, (as, h', d)) \<and>
    (\<forall>b. ram_content (as, h', d) b =
       (if off \<le> unat (b - load) \<and> unat (b - load) < stop then Some (tx ! unat (b - load)) else ram_content (as, h, d) b))"
  using assms
proof (induction "length tx - off" arbitrary: off h rule: less_induct)
  case less
  show ?case
  proof (cases "off + 8 \<le> length tx")
    case False
    then show ?thesis using less.prems by (subst load_loop.simps) auto
  next
    case True
    obtain h1 where h1: "mo_write oemu_aspace_memops (as, h, d) (load + of_nat off) OEMU_MEM_DWORD (img_le64 tx off) = (OEMU_OK, (as, h1, d))"
      "\<And>b. ram_content (as, h1, d) b = (if unat (b - (load + of_nat off)) < 8
         then Some (ucast (drop_bit (8 * unat (b - (load + of_nat off))) (img_le64 tx off))) else ram_content (as, h, d) b)"
      using ram_store [OF less.prems(1,2) less.prems(5) [OF order_refl True]] by blast
    have stop: "stop = (off + 8) + 8 * ((length tx - (off + 8)) div 8)"
    proof -
      have "(length tx - off) div 8 = Suc ((length tx - (off + 8)) div 8)" using True by (simp add: le_div_geq)
      then show ?thesis using less.prems(6) by simp
    qed
    have "length tx - (off + 8) < length tx - off" "off + 8 \<le> length tx" using True by auto
    from less.hyps [OF this(1) less.prems(1-3) this(2) _ stop, of h1] less.prems(5) obtain h' where
      h': "load_loop oemu_aspace_memops tx load (off + 8) (as, h1, d) = (OEMU_OK, stop, (as, h', d))"
      "\<And>b. ram_content (as, h', d) b = (if off + 8 \<le> unat (b - load) \<and> unat (b - load) < stop
         then Some (tx ! unat (b - load)) else ram_content (as, h1, d) b)" by auto
    have "ram_content (as, h', d) b =
        (if off \<le> unat (b - load) \<and> unat (b - load) < stop then Some (tx ! unat (b - load)) else ram_content (as, h, d) b)" for b
    proof -
      have d: "b - (load + of_nat off) = b - load - of_nat off" by simp
      have "off + 8 \<le> 2 ^ 64" using True less.prems(3) by linarith
      note c = chunk_offset [OF this, of "b - load"]
      have lt: "off + 8 \<le> stop" using stop by simp
      show ?thesis
      proof (cases "off \<le> unat (b - load) \<and> unat (b - load) < off + 8")
        case True
        then have "ram_content (as, h1, d) b = Some (tx ! unat (b - load))"
          using img_le64_byte [of "unat (b - load) - off" tx off] c unfolding h1(2) d by simp
        with True lt show ?thesis by (simp add: h'(2))
      next
        case False
        then have "ram_content (as, h1, d) b = ram_content (as, h, d) b" using c(1) unfolding h1(2) d by auto
        with False show ?thesis by (auto simp: h'(2))
      qed
    qed
    moreover have "load_loop oemu_aspace_memops tx load off (as, h, d) = (OEMU_OK, stop, (as, h', d))"
      using True h1(1) h'(1) by (subst load_loop.simps) simp
    ultimately show ?thesis by blast
  qed
qed

text \<open>
  The whole load, when every doubleword that holds a byte of the text is writable RAM. The last one is
  written whole: the bytes of it behind the text become zero.
\<close>

lemma load_text_ram:
  fixes d :: 'd
  assumes inv: "as_inv as" "host_inv (mem_of is_ram as)" and len: "len = 8 * ((length tx + 7) div 8)" "len \<le> 2 ^ 64" "length tx < 2 ^ 64"
    and acc: "\<And>k. k + 8 \<le> len \<Longrightarrow> ram_accepts as (load + of_nat k) 8 OEMU_PERM_WRITE"
  shows "\<exists>h1 h2 off. load_loop oemu_aspace_memops tx load 0 (as, h, d) = (OEMU_OK, off, (as, h1, d)) \<and>
    load_tail oemu_aspace_memops tx load off (as, h1, d) = (OEMU_OK, (as, h2, d)) \<and>
    (\<forall>b. ram_content (as, h2, d) b =
       (let k = unat (b - load) in if k < length tx then Some (tx ! k) else if k < len then Some 0 else ram_content (as, h, d) b))"
proof -
  define off where "off = 8 * (length tx div 8)"
  have off: "off \<le> length tx" "length tx < off + 8" "length tx \<le> len" "off = length tx \<Longrightarrow> len = off" "off \<noteq> length tx \<Longrightarrow> len = off + 8"
    using len(1) unfolding off_def by presburger+
  obtain h1 where h1: "load_loop oemu_aspace_memops tx load 0 (as, h, d) = (OEMU_OK, off, (as, h1, d))"
    "\<And>b. ram_content (as, h1, d) b = (if unat (b - load) < off then Some (tx ! unat (b - load)) else ram_content (as, h, d) b)"
    using load_loop_ram [where load = load and stop = off and h = h and d = d, OF inv len(3) le0] acc off(3) by (auto simp: off_def)
  show ?thesis
  proof (cases "off = length tx")
    case True
    with h1 off show ?thesis by (auto simp: load_tail_def)
  next
    case False
    let ?w = "memcpy_word (drop off tx) (length tx - off)"
    have "as_inv as" "ram_accepts as (load + of_nat off) 8 OEMU_PERM_WRITE"
      using inv(1) acc [of off] off False by simp_all
    then obtain h2 where h2: "mo_write oemu_aspace_memops (as, h1, d) (load + of_nat off) OEMU_MEM_DWORD ?w = (OEMU_OK, (as, h2, d))"
      "\<And>b. ram_content (as, h2, d) b = (if unat (b - (load + of_nat off)) < 8
         then Some (ucast (drop_bit (8 * unat (b - (load + of_nat off))) ?w)) else ram_content (as, h1, d) b)"
      using ram_store [OF _ inv(2)] by blast
    have "ram_content (as, h2, d) b =
        (let k = unat (b - load) in if k < length tx then Some (tx ! k) else if k < len then Some 0 else ram_content (as, h, d) b)" for b
    proof -
      have d: "b - (load + of_nat off) = b - load - of_nat off" by simp
      have "off + 8 \<le> 2 ^ 64" using len(2) off False by simp
      note c = chunk_offset [OF this, of "b - load"]
      show ?thesis
      proof (cases "off \<le> unat (b - load) \<and> unat (b - load) < off + 8")
        case True
        then have "ram_content (as, h2, d) b =
            Some (if unat (b - load) - off < length tx - off then drop off tx ! (unat (b - load) - off) else 0)"
          using memcpy_word_byte [of "unat (b - load) - off" "drop off tx" "length tx - off"] c unfolding h2(2) d by simp
        with True off False show ?thesis by (auto simp: Let_def)
      next
        case nb: False
        then have "ram_content (as, h2, d) b = ram_content (as, h1, d) b" using c(1) unfolding h2(2) d by auto
        with nb off False show ?thesis by (auto simp: h1(2) Let_def)
      qed
    qed
    with h1(1) h2(1) False show ?thesis by (auto simp: load_tail_def)
  qed
qed

section \<open>The loaded image\<close>

lemma page_of_offset:
  fixes w :: u64
  assumes "w AND 0xFFF = 0"
  shows "unat (ucast w :: u32) mod 0x1000 = 0"
proof -
  have "take_bit 12 w = 0" using assms by (simp add: take_bit_eq_mask mask_eq_exp_minus_1)
  then have "take_bit 12 (ucast w :: u32) = 0" by (auto simp: bit_eq_iff bit_simps)
  then have "take_bit 12 (unat (ucast w :: u32)) = 0" by (metis unsigned_take_bit_eq unsigned_0)
  then show ?thesis by (simp add: take_bit_eq_mod)
qed

lemma load_places:
  fixes s :: "'d space"
  assumes sound: "as_inv (fst s)" "host_inv (mem_of is_ram (fst s))"
    and window: "ram_accepts (fst s) mem_base ram_size OEMU_PERM_WRITE"
    and header: "oemu_image_parse_header (Some bytes) = Inr info" "start = unat (im_text_offset info)"
    and len: "len = 8 * ((length bytes - start + 7) div 8)" "length bytes < 2 ^ 64"
  shows "(if length bytes < 64 \<or> length bytes \<le> start \<or> unat ram_size < length bytes
     then \<exists>e. e \<noteq> OEMU_OK \<and> oemu_image_load (Some bytes) oemu_aspace_memops mem_base ram_size s = (Inl e, s)
     else start + len \<le> unat ram_size \<longrightarrow>
       (\<exists>s'. oemu_image_load (Some bytes) oemu_aspace_memops mem_base ram_size s =
            (Inr (info\<lparr>im_load_pa := mem_base + of_nat start, im_entry_pa := mem_base + of_nat start\<rparr>), s') \<and>
          fst s' = fst s \<and> snd (snd s') = snd (snd s) \<and> start mod 0x1000 = 0 \<and>
          (\<forall>b. ram_content s' b = (let k = unat (b - (mem_base + of_nat start)) in
             if k < length bytes - start then Some (bytes ! (start + k)) else if k < len then Some 0 else ram_content s b))))"
proof -
  obtain as h d where s: "s = (as, h, d)" by (metis prod_cases3)
  let ?tx = "drop start bytes" and ?load = "mem_base + of_nat start :: u64"
  have uc: "ucast (im_text_offset info) = (of_nat start :: u64)"
    unfolding header(2) by (simp add: unsigned_def)
  have page: "start mod 0x1000 = 0"
    using header by (auto simp: oemu_image_parse_header_def Let_def page_of_offset split: if_splits)
  have big: "of_nat (length bytes) > ram_size \<longleftrightarrow> unat ram_size < length bytes"
    using len(2) by (simp add: word_less_nat_alt unat_of_nat)
  have sum: "of_nat start + of_nat (length bytes - start) = (of_nat (length bytes) :: u64)" if "start < length bytes"
    using that by (metis less_imp_le le_add_diff_inverse of_nat_add)
  have ram: "unat ram_size < 2 ^ 64" using unsigned_less [of ram_size] by simp
  show ?thesis
  proof (cases "length bytes < 64 \<or> length bytes \<le> start \<or> unat ram_size < length bytes")
    case True
    then show ?thesis
      using header(1) big sum by (auto simp: oemu_image_load_def Let_def uc header(2) [symmetric])
  next
    case False
    have "\<exists>s'. oemu_image_load (Some bytes) oemu_aspace_memops mem_base ram_size s =
            (Inr (info\<lparr>im_load_pa := ?load, im_entry_pa := ?load\<rparr>), s') \<and> fst s' = fst s \<and> snd (snd s') = snd (snd s) \<and>
          (\<forall>b. ram_content s' b = (let k = unat (b - ?load) in
             if k < length bytes - start then Some (bytes ! (start + k)) else if k < len then Some 0 else ram_content s b))"
      if fit: "start + len \<le> unat ram_size"
    proof -
      have acc: "ram_accepts as (?load + of_nat k) 8 OEMU_PERM_WRITE" if "k + 8 \<le> len" for k
      proof -
        have lt: "start + k < 2 ^ 64" using that fit ram by simp
        have "?load + of_nat k - mem_base = of_nat (start + k)" by simp
        then have "unat (?load + of_nat k - mem_base) = start + k" using lt by (simp only: unat_of_nat) simp
        then have "unat (?load + of_nat k - mem_base) + unat (8 :: u64) \<le> unat ram_size" using that fit by simp
        then show ?thesis by (rule ram_accepts_sub [OF sound(1) [unfolded s fst_conv] window [unfolded s fst_conv]]) simp
      qed
      have "len = 8 * ((length ?tx + 7) div 8)" "len \<le> 2 ^ 64" "length ?tx < 2 ^ 64" using len fit ram by simp_all
      from load_text_ram [where d = d, OF sound [unfolded s fst_conv] this acc] obtain h1 h2 off where l: "load_loop oemu_aspace_memops ?tx ?load 0 (as, h, d) = (OEMU_OK, off, (as, h1, d))"
        "load_tail oemu_aspace_memops ?tx ?load off (as, h1, d) = (OEMU_OK, (as, h2, d))"
        "\<And>b. ram_content (as, h2, d) b = (let k = unat (b - ?load) in if k < length ?tx then Some (?tx ! k)
           else if k < len then Some 0 else ram_content (as, h, d) b)" by blast
      have "oemu_image_load (Some bytes) oemu_aspace_memops mem_base ram_size s =
          (Inr (info\<lparr>im_load_pa := ?load, im_entry_pa := ?load\<rparr>), (as, h2, d))"
        using False header(1) big sum l(1,2) by (simp add: oemu_image_load_def Let_def uc header(2) [symmetric] s)
      then show ?thesis using l(3) False by (auto simp: s Let_def)
    qed
    with False page show ?thesis by auto
  qed
qed

text \<open>The refusals that come before anything is written, with their statuses.\<close>

lemma load_refused:
  assumes "length bytes < 2 ^ 64"
  shows "length bytes < 64 \<Longrightarrow> oemu_image_load (Some bytes) phys mem_base ram_size s = (Inl OEMU_ERR_FORMAT, s)"
    "64 \<le> length bytes \<Longrightarrow> oemu_image_parse_header (Some bytes) = Inl e \<Longrightarrow>
       oemu_image_load (Some bytes) phys mem_base ram_size s = (Inl e, s)"
    "64 \<le> length bytes \<Longrightarrow> oemu_image_parse_header (Some bytes) = Inr info \<Longrightarrow> length bytes \<le> unat (im_text_offset info) \<Longrightarrow>
       oemu_image_load (Some bytes) phys mem_base ram_size s = (Inl OEMU_ERR_FORMAT, s)"
    "64 \<le> length bytes \<Longrightarrow> oemu_image_parse_header (Some bytes) = Inr info \<Longrightarrow> unat (im_text_offset info) < length bytes \<Longrightarrow>
       unat ram_size < length bytes \<Longrightarrow> oemu_image_load (Some bytes) phys mem_base ram_size s = (Inl OEMU_ERR_RANGE, s)"
proof -
  have "ucast (im_text_offset info) + of_nat (length bytes - unat (im_text_offset info)) = (of_nat (length bytes) :: u64)"
    if "unat (im_text_offset info) < length bytes" for info
    using that by (simp add: unsigned_def of_nat_diff)
  then show "64 \<le> length bytes \<Longrightarrow> oemu_image_parse_header (Some bytes) = Inr info \<Longrightarrow> unat (im_text_offset info) < length bytes \<Longrightarrow>
       unat ram_size < length bytes \<Longrightarrow> oemu_image_load (Some bytes) phys mem_base ram_size s = (Inl OEMU_ERR_RANGE, s)"
    using assms by (simp add: oemu_image_load_def Let_def word_less_nat_alt unat_of_nat)
qed (simp_all add: oemu_image_load_def)

text \<open>
  Property C15. Loading a kernel, on a machine whose RAM window is writable, whatever devices are attached
  beside it. A file shorter than a header, with a bad header, with no byte behind its text offset or
  larger than the window is refused with nothing written. A file that holds the whole image its header
  announces and whose text, rounded up to whole doublewords, lies in the window is loaded: the text is in
  RAM byte for byte at the window's base plus the header's offset, which is also the entry point and keeps
  the page offset of the base; no byte of RAM outside those doublewords changes and no device is touched.
  (What becomes of the bytes between the end of the text and the end of its last doubleword is not part of
  this property: lemma \<open>load_places\<close> has it, and that the length the header announces is never compared.)
\<close>

theorem image_load_text:
  fixes s :: "'d space"
  assumes sound: "as_inv (fst s)" "host_inv (mem_of is_ram (fst s))"
    and window: "ram_accepts (fst s) mem_base ram_size OEMU_PERM_WRITE"
    and size: "length bytes < 2 ^ 64"
  shows "(if length bytes < 64
     then oemu_image_load (Some bytes) oemu_aspace_memops mem_base ram_size s = (Inl OEMU_ERR_FORMAT, s)
     else case oemu_image_parse_header (Some bytes) of
       Inl e \<Rightarrow> oemu_image_load (Some bytes) oemu_aspace_memops mem_base ram_size s = (Inl e, s)
     | Inr info \<Rightarrow> let start = unat (im_text_offset info); len = length bytes - start; load = mem_base + of_nat start in
         if len = 0 then oemu_image_load (Some bytes) oemu_aspace_memops mem_base ram_size s = (Inl OEMU_ERR_FORMAT, s)
         else if unat ram_size < length bytes
         then oemu_image_load (Some bytes) oemu_aspace_memops mem_base ram_size s = (Inl OEMU_ERR_RANGE, s)
         else start + unat (im_image_size info) \<le> length bytes \<and> start + 8 * ((len + 7) div 8) \<le> unat ram_size \<longrightarrow>
           (\<exists>s'. oemu_image_load (Some bytes) oemu_aspace_memops mem_base ram_size s =
                (Inr (info\<lparr>im_load_pa := load, im_entry_pa := load\<rparr>), s') \<and>
              fst s' = fst s \<and> snd (snd s') = snd (snd s) \<and> start mod 0x1000 = 0 \<and>
              (\<forall>b. let k = unat (b - load) in
                 (k < len \<longrightarrow> ram_content s' b = Some (bytes ! (start + k))) \<and>
                 (8 * ((len + 7) div 8) \<le> k \<longrightarrow> ram_content s' b = ram_content s b))))"
proof (cases "oemu_image_parse_header (Some bytes)")
  case (Inl e)
  with size show ?thesis by (auto simp: load_refused)
next
  case (Inr info)
  let ?start = "unat (im_text_offset info)"
  show ?thesis
  proof (cases "length bytes < 64 \<or> length bytes \<le> ?start \<or> unat ram_size < length bytes")
    case True
    with Inr size show ?thesis by (auto simp: load_refused Let_def)
  next
    case False
    moreover have "\<not> 8 * ((length bytes - ?start + 7) div 8) < length bytes - ?start" by linarith
    ultimately show ?thesis using load_places [OF sound window Inr refl refl size] Inr by (simp add: Let_def) (fastforce simp: Let_def)
  qed
qed

text \<open>The header's size is not the limit that counts: a text that ends in the last, partial doubleword of
  the window passes the size check, and the store of its tail then leaves the window and fails after the
  rest of the text has been written.\<close>

lemma tail_beyond_window:
  assumes "ram_inv (as, h, d)" "off \<noteq> length tx" "\<not> space_accepts (as, h, d) (load + of_nat off) 8 OEMU_PERM_WRITE"
  shows "load_tail oemu_aspace_memops tx load off (as, h, d) = (OEMU_ERR_FAULT, (as, h, d))"
  using assms(2,3) unfolding space_accepts_find [OF assms(1)]
  using assms(1) by (auto simp: load_tail_def oemu_aspace_memops_def oemu_aspace_write_def ram_inv_def as_inv_def mem_inv_def mem_of_def)

text \<open>A header with a branch, text offset zero and three bytes after it, on a machine with one megabyte.\<close>

definition sample_image :: "u8 list" where
  "sample_image = [0, 0, 0, 0x14] @ replicate 52 0 @ [0x41, 0x52, 0x4D, 0x64] @ replicate 4 0 @ [1, 2, 3]"

definition boot_space :: "unit oemu_aspace" where
  "boot_space = add_region (empty_space 0x100 4) (ram_region 0x40000000 0x100000 0x10000)"

lemma sample_image_header:
  "\<exists>info. oemu_image_parse_header (Some sample_image) = Inr info \<and> im_text_offset info = 0 \<and> im_image_size info = 0" "length sample_image = 67"
  by (simp_all add: sample_image_def oemu_image_parse_header_def img_le32_def img_le64_def nth_append nth_Cons')

theorem image_load_text_witness:
  "\<exists>img s'. oemu_image_load (Some sample_image) oemu_aspace_memops 0x40000000 0x100000 (boot_space, (\<lambda>_. 0), ()) = (Inr img, s') \<and>
     im_entry_pa img = 0x40000000 \<and> ram_content s' 0x40000003 = Some 0x14"
proof -
  obtain info where i: "oemu_image_parse_header (Some sample_image) = Inr info" "im_text_offset info = 0" "im_image_size info = 0"
    using sample_image_header(1) by blast
  have inv: "as_inv (fst (boot_space, (\<lambda>_. 0 :: u8), ()))" "host_inv (mem_of is_ram (fst (boot_space, (\<lambda>_. 0 :: u8), ())))"
    using fresh_ram(1,2) [of "0x100000" "0x40000000" "0x10000" 4 boot_space "0x100"] by (simp_all add: boot_space_def ram_inv_def)
  have "ram_accepts (fst (boot_space, (\<lambda>_. 0 :: u8), ())) 0x40000000 0x100000 OEMU_PERM_WRITE"
    by (simp add: ram_accepts_def boot_space_def mem_of_def is_ram_def region_of_def add_region_def empty_space_def ram_region_def find_eq region_contains_def)
  from image_load_text [OF inv this, of sample_image] sample_image_header(2) i
  show ?thesis by (fastforce simp: Let_def sample_image_def)
qed

end
