(* ===== verification/Oemu_Bytes.thy ===== *)
theory Oemu_Bytes
  imports Oemu_Prelude
begin

text \<open>
  Byte buffers as lists: a block of bytes overwritten at an offset, which is what the device tree
  builder, the growable buffer and the patches of a finished tree do with \<^verbatim>\<open>memcpy\<close> and \<^verbatim>\<open>memset\<close>.
\<close>

text \<open>\<^verbatim>\<open>memcpy\<close> into a buffer at an offset.\<close>

definition splice :: "'a list \<Rightarrow> nat \<Rightarrow> 'a list \<Rightarrow> 'a list" where
  "splice buf k bs = take k buf @ bs @ drop (k + length bs) buf"

lemma splice_facts:
  assumes "k + length bs \<le> length buf"
  shows "length (splice buf k bs) = length buf" "take (k + length bs) (splice buf k bs) = take k buf @ bs"
    "j \<le> k \<Longrightarrow> take j (splice buf k bs) = take j buf"
    "k + length bs \<le> base \<Longrightarrow> drop base (splice buf k bs) = drop base buf"
  using assms by (auto simp: splice_def min_def, cases bs, auto)

lemma splice_drop:
  assumes "base \<le> k" "k + length bs \<le> length buf"
  shows "drop base (splice buf k bs) = splice (drop base buf) (k - base) bs"
  using assms by (simp add: splice_def drop_take)

end
