(* ===== verification/Oemu_Fdt.thy ===== *)
theory Oemu_Fdt
  imports Oemu_Bytes
begin

text \<open>
  The flattened device tree (\<^verbatim>\<open>src/fdt/fdt.c\<close>): the append-only builder with its scratch buffer, in which
  the structure block grows from the start and the strings block from the middle, the final assembly of
  the blob, and the reader that finds a property by path. Sizes are natural numbers, a C string is the
  list of its characters without the terminator, and a null string has no counterpart. The allocator is a
  parameter: the scratch block it returns with whatever bytes it holds, and whether the blob is obtained.

  The lemmas relate the builder to the sequence of events it has emitted and the reader to the same
  sequence, which gives the round trip.
\<close>

section \<open>State\<close>

abbreviation (input) FDT_HEADER_SIZE :: nat where "FDT_HEADER_SIZE \<equiv> 40"
abbreviation (input) FDT_TOKEN_SIZE :: nat where "FDT_TOKEN_SIZE \<equiv> 4"
abbreviation (input) FDT_RSV_MAP_SIZE :: nat where "FDT_RSV_MAP_SIZE \<equiv> 16"
abbreviation (input) FDT_MIN_CAP :: nat where "FDT_MIN_CAP \<equiv> 128"
abbreviation (input) OEMU_FDT_MAX_NAME :: nat where "OEMU_FDT_MAX_NAME \<equiv> 128"
abbreviation (input) OEMU_FDT_MAGIC :: u32 where "OEMU_FDT_MAGIC \<equiv> 0xD00DFEED"
abbreviation (input) OEMU_FDT_TOKEN_BEGIN_NODE :: u32 where "OEMU_FDT_TOKEN_BEGIN_NODE \<equiv> 1"
abbreviation (input) OEMU_FDT_TOKEN_END_NODE :: u32 where "OEMU_FDT_TOKEN_END_NODE \<equiv> 2"
abbreviation (input) OEMU_FDT_TOKEN_PROP :: u32 where "OEMU_FDT_TOKEN_PROP \<equiv> 3"
abbreviation (input) OEMU_FDT_TOKEN_END :: u32 where "OEMU_FDT_TOKEN_END \<equiv> 9"
abbreviation (input) OEMU_FDT_V17 :: u32 where "OEMU_FDT_V17 \<equiv> 17"

record oemu_fdt =
  fd_data :: "u8 list option"
  fd_cap :: nat
  fd_len :: nat
  fd_depth :: int
  fd_finished :: bool
  fd_sb :: "u8 list option"
  fd_sb_size :: nat
  fd_sb_used :: nat
  fd_str_len :: nat

definition zero_fdt :: oemu_fdt where
  "zero_fdt = \<lparr>fd_data = None, fd_cap = 0, fd_len = 0, fd_depth = 0, fd_finished = False, fd_sb = None,
     fd_sb_size = 0, fd_sb_used = 0, fd_str_len = 0\<rparr>"

definition c_bytes :: "string \<Rightarrow> u8 list" where
  "c_bytes s = map of_char s"

definition fdt_pad4 :: "nat \<Rightarrow> nat" where
  "fdt_pad4 n = (n + 3) div 4 * 4"

definition fdt_strnlen :: "u8 list \<Rightarrow> nat \<Rightarrow> nat" where
  "fdt_strnlen s bound = length (takeWhile (\<lambda>c. c \<noteq> 0) (take bound s))"

definition fdt_be32 :: "u8 list \<Rightarrow> nat \<Rightarrow> u32" where
  "fdt_be32 p k = push_bit 24 (ucast (p ! k)) OR push_bit 16 (ucast (p ! (k + 1))) OR
     push_bit 8 (ucast (p ! (k + 2))) OR ucast (p ! (k + 3))"

definition fdt_put_be32 :: "u32 \<Rightarrow> u8 list" where
  "fdt_put_be32 v = [ucast (drop_bit 24 v), ucast (drop_bit 16 v), ucast (drop_bit 8 v), ucast v]"

section \<open>The builder\<close>

definition fdt_strings_base :: "oemu_fdt \<Rightarrow> nat" where
  "fdt_strings_base fdt = fd_sb_size fdt"

definition fdt_fits :: "oemu_fdt \<Rightarrow> nat \<Rightarrow> nat \<Rightarrow> bool" where
  "fdt_fits fdt need_struct need_str \<longleftrightarrow> fd_sb_used fdt + fd_str_len fdt + need_struct + need_str \<le> fd_cap fdt"

definition fdt_require_emitting :: "oemu_fdt \<Rightarrow> oemu_status" where
  "fdt_require_emitting fdt = (if fd_sb fdt = None then OEMU_ERR_STATE else OEMU_OK)"

text \<open>Emission itself always answers success, so its result is the builder alone.\<close>

definition fdt_emit_raw :: "oemu_fdt \<Rightarrow> u8 list \<Rightarrow> oemu_fdt" where
  "fdt_emit_raw fdt bytes =
     fdt\<lparr>fd_sb := map_option (\<lambda>sb. splice sb (fd_sb_used fdt) bytes) (fd_sb fdt), fd_sb_used := fd_sb_used fdt + length bytes\<rparr>"

definition fdt_emit_token :: "oemu_fdt \<Rightarrow> u32 \<Rightarrow> oemu_fdt" where
  "fdt_emit_token fdt token = fdt_emit_raw fdt (fdt_put_be32 token)"

definition fdt_intern :: "oemu_fdt \<Rightarrow> string \<Rightarrow> u32 \<times> oemu_fdt" where
  "fdt_intern fdt s =
     (let len = length s + 1
      in (of_nat (fd_str_len fdt),
          fdt\<lparr>fd_sb := map_option (\<lambda>sb. splice sb (fdt_strings_base fdt + fd_str_len fdt) (c_bytes s @ [0])) (fd_sb fdt),
              fd_str_len := fd_str_len fdt + len\<rparr>))"

definition oemu_fdt_begin_node :: "oemu_fdt \<Rightarrow> string \<Rightarrow> oemu_status \<times> oemu_fdt" where
  "oemu_fdt_begin_node fdt name =
     (let st = fdt_require_emitting fdt
      in if st \<noteq> OEMU_OK then (st, fdt)
      else let name_len = length name
      in if name_len \<ge> OEMU_FDT_MAX_NAME then (OEMU_ERR_INVALID_ARG, fdt)
      else let inline_bytes = fdt_pad4 (name_len + 1)
      in if \<not> fdt_fits fdt (FDT_TOKEN_SIZE + inline_bytes) 0 then (OEMU_ERR_NO_MEMORY, fdt)
      else let fdt = fdt_emit_token fdt OEMU_FDT_TOKEN_BEGIN_NODE;
               scratch = c_bytes name @ replicate (inline_bytes - name_len) 0;
               fdt = fdt_emit_raw fdt scratch
      in (OEMU_OK, fdt\<lparr>fd_depth := fd_depth fdt + 1\<rparr>))"

definition oemu_fdt_init :: "u8 list option \<Rightarrow> nat \<Rightarrow> oemu_fdt \<Rightarrow> oemu_status \<times> oemu_fdt" where
  "oemu_fdt_init block cap fdt =
     (if cap < FDT_MIN_CAP then (OEMU_ERR_INVALID_ARG, fdt)
      else case block of
        None \<Rightarrow> (OEMU_ERR_NO_MEMORY, fdt)
      | Some sb \<Rightarrow>
          (case oemu_fdt_begin_node (zero_fdt\<lparr>fd_sb := Some sb, fd_sb_size := cap, fd_cap := cap\<rparr>) '''' of
             (st, fdt) \<Rightarrow> if st \<noteq> OEMU_OK then (st, zero_fdt) else (OEMU_OK, fdt)))"

text \<open>Disposal frees the scratch, or the finished blob, and clears the structure.\<close>

definition oemu_fdt_dispose :: "oemu_fdt \<Rightarrow> u8 list option \<times> oemu_fdt" where
  "oemu_fdt_dispose fdt = ((if fd_sb fdt \<noteq> None then fd_sb fdt else fd_data fdt), zero_fdt)"

definition oemu_fdt_end_node :: "oemu_fdt \<Rightarrow> oemu_status \<times> oemu_fdt" where
  "oemu_fdt_end_node fdt =
     (let st = fdt_require_emitting fdt
      in if st \<noteq> OEMU_OK then (st, fdt)
      else if fd_depth fdt \<le> 0 then (OEMU_ERR_STATE, fdt)
      else if \<not> fdt_fits fdt FDT_TOKEN_SIZE 0 then (OEMU_ERR_NO_MEMORY, fdt)
      else let fdt = fdt_emit_token fdt OEMU_FDT_TOKEN_END_NODE
      in (OEMU_OK, fdt\<lparr>fd_depth := fd_depth fdt - 1\<rparr>))"

definition fdt_prop_guard :: "oemu_fdt \<Rightarrow> string \<Rightarrow> nat \<Rightarrow> (oemu_status + u32) \<times> oemu_fdt" where
  "fdt_prop_guard fdt name value_len =
     (let st = fdt_require_emitting fdt
      in if st \<noteq> OEMU_OK then (Inl st, fdt)
      else if name = '''' then (Inl OEMU_ERR_INVALID_ARG, fdt)
      else if fd_depth fdt \<le> 0 then (Inl OEMU_ERR_STATE, fdt)
      else let name_bytes = length name + 1
      in if name_bytes > OEMU_FDT_MAX_NAME \<or> \<not> fdt_fits fdt (FDT_TOKEN_SIZE + 8 + fdt_pad4 value_len) name_bytes
      then (Inl OEMU_ERR_NO_MEMORY, fdt)
      else case fdt_intern fdt name of (off, fdt) \<Rightarrow> (Inr off, fdt))"

definition prop_head :: "nat \<Rightarrow> u32 \<Rightarrow> u8 list" where
  "prop_head val_len name_off = fdt_put_be32 OEMU_FDT_TOKEN_PROP @ fdt_put_be32 (of_nat val_len) @ fdt_put_be32 name_off"

definition fdt_prop_emit :: "oemu_fdt \<Rightarrow> u32 \<Rightarrow> u8 list \<Rightarrow> oemu_fdt" where
  "fdt_prop_emit fdt name_off val =
     (let fdt = fdt_emit_raw fdt (prop_head (length val) name_off);
          fdt = (if length val \<noteq> 0 then fdt_emit_raw fdt val else fdt);
          pad = fdt_pad4 (length val) - length val
      in if pad \<noteq> 0 then fdt_emit_raw fdt (replicate pad 0) else fdt)"

text \<open>Every property is the guard followed by its emission.\<close>

definition guarded :: "oemu_fdt \<Rightarrow> string \<Rightarrow> nat \<Rightarrow> (oemu_fdt \<Rightarrow> u32 \<Rightarrow> oemu_fdt) \<Rightarrow> oemu_status \<times> oemu_fdt" where
  "guarded fdt name len emit =
     (case fdt_prop_guard fdt name len of (Inl st, fdt) \<Rightarrow> (st, fdt) | (Inr off, fdt) \<Rightarrow> (OEMU_OK, emit fdt off))"

definition oemu_fdt_prop_empty :: "oemu_fdt \<Rightarrow> string \<Rightarrow> oemu_status \<times> oemu_fdt" where
  "oemu_fdt_prop_empty fdt name = guarded fdt name 0 (\<lambda>fdt off. fdt_prop_emit fdt off [])"

definition oemu_fdt_prop_u32 :: "oemu_fdt \<Rightarrow> string \<Rightarrow> u32 \<Rightarrow> oemu_status \<times> oemu_fdt" where
  "oemu_fdt_prop_u32 fdt name value = guarded fdt name 4 (\<lambda>fdt off. fdt_prop_emit fdt off (fdt_put_be32 value))"

definition oemu_fdt_prop_u64 :: "oemu_fdt \<Rightarrow> string \<Rightarrow> u64 \<Rightarrow> oemu_status \<times> oemu_fdt" where
  "oemu_fdt_prop_u64 fdt name value =
     guarded fdt name 8 (\<lambda>fdt off. fdt_prop_emit fdt off (fdt_put_be32 (ucast (drop_bit 32 value)) @ fdt_put_be32 (ucast value)))"

definition oemu_fdt_prop_bytes :: "oemu_fdt \<Rightarrow> string \<Rightarrow> u8 list \<Rightarrow> oemu_status \<times> oemu_fdt" where
  "oemu_fdt_prop_bytes fdt name data = guarded fdt name (length data) (\<lambda>fdt off. fdt_prop_emit fdt off data)"

definition oemu_fdt_prop_str :: "oemu_fdt \<Rightarrow> string \<Rightarrow> string \<Rightarrow> oemu_status \<times> oemu_fdt" where
  "oemu_fdt_prop_str fdt name value =
     guarded fdt name (length value + 1) (\<lambda>fdt off. fdt_prop_emit fdt off (c_bytes value @ [0]))"

definition oemu_fdt_prop_cells :: "oemu_fdt \<Rightarrow> string \<Rightarrow> u32 list \<Rightarrow> oemu_status \<times> oemu_fdt" where
  "oemu_fdt_prop_cells fdt name cells =
     guarded fdt name (length cells * 4) (\<lambda>fdt off.
       fold (\<lambda>cell fdt. fdt_emit_raw fdt (fdt_put_be32 cell)) cells (fdt_emit_raw fdt (prop_head (length cells * 4) off)))"

definition oemu_fdt_prop_strv :: "oemu_fdt \<Rightarrow> string \<Rightarrow> string list \<Rightarrow> oemu_status \<times> oemu_fdt" where
  "oemu_fdt_prop_strv fdt name values =
     (let st = fdt_require_emitting fdt
      in if st \<noteq> OEMU_OK then (st, fdt)
      else let len = fold (\<lambda>v n. n + (length v + 1)) values 0
      in guarded fdt name len (\<lambda>fdt off.
        let fdt = fold (\<lambda>v fdt. fdt_emit_raw fdt (c_bytes v @ [0])) values (fdt_emit_raw fdt (prop_head len off));
            pad = fdt_pad4 len - len
        in if pad \<noteq> 0 then fdt_emit_raw fdt (replicate pad 0) else fdt))"

text \<open>The blob: the header words in place over zeroed bytes, then the two blocks.\<close>

definition fdt_header :: "nat \<Rightarrow> nat \<Rightarrow> u8 list" where
  "fdt_header sb_used str_len =
     (let struct_off = FDT_HEADER_SIZE + FDT_RSV_MAP_SIZE;
          strings_off = struct_off + sb_used;
          total = strings_off + str_len
      in fdt_put_be32 OEMU_FDT_MAGIC @ fdt_put_be32 (of_nat total) @ fdt_put_be32 (of_nat struct_off) @
         fdt_put_be32 (of_nat strings_off) @ fdt_put_be32 (of_nat FDT_HEADER_SIZE) @ fdt_put_be32 OEMU_FDT_V17 @
         fdt_put_be32 16 @ fdt_put_be32 0 @ fdt_put_be32 (of_nat str_len) @ fdt_put_be32 (of_nat sb_used) @
         replicate FDT_RSV_MAP_SIZE 0)"

definition oemu_fdt_finish :: "bool \<Rightarrow> oemu_fdt \<Rightarrow> oemu_status \<times> oemu_fdt" where
  "oemu_fdt_finish blob_alloc fdt =
     (case fd_sb fdt of
        None \<Rightarrow> (OEMU_ERR_STATE, fdt)
      | Some _ \<Rightarrow>
          if fd_depth fdt \<noteq> 0 then (OEMU_ERR_STATE, fdt)
          else if \<not> fdt_fits fdt FDT_TOKEN_SIZE 0 then (OEMU_ERR_NO_MEMORY, fdt)
          else let fdt = fdt_emit_token fdt OEMU_FDT_TOKEN_END
          in if \<not> blob_alloc then (OEMU_ERR_NO_MEMORY, fdt)
          else let sb = the (fd_sb fdt);
                   blob = fdt_header (fd_sb_used fdt) (fd_str_len fdt) @ take (fd_sb_used fdt) sb @
                     take (fd_str_len fdt) (drop (fdt_strings_base fdt) sb)
          in (OEMU_OK, fdt\<lparr>fd_sb := None, fd_data := Some blob,
                fd_len := FDT_HEADER_SIZE + FDT_RSV_MAP_SIZE + fd_sb_used fdt + fd_str_len fdt, fd_finished := True\<rparr>))"

definition oemu_fdt_bytes :: "oemu_fdt \<Rightarrow> u8 list option" where
  "oemu_fdt_bytes fdt = fd_data fdt"

definition oemu_fdt_length :: "oemu_fdt \<Rightarrow> nat" where
  "oemu_fdt_length fdt = fd_len fdt"

section \<open>The reader\<close>

definition oemu_fdt_internal_total_size :: "u8 list \<Rightarrow> oemu_status + nat" where
  "oemu_fdt_internal_total_size blob =
     (if length blob < FDT_HEADER_SIZE then Inl OEMU_ERR_INVALID_ARG
      else if fdt_be32 blob 0 \<noteq> OEMU_FDT_MAGIC then Inl OEMU_ERR_FORMAT
      else let total = unat (fdt_be32 blob 4)
      in if total > length blob then Inl OEMU_ERR_FORMAT else Inr total)"

record fdt_frame =
  fr_pos :: nat
  fr_match :: bool
  fr_target :: bool

text \<open>The frame of a node that has just been opened below the frames \<open>stack\<close>, innermost first.\<close>

definition open_frame :: "string \<Rightarrow> u8 list \<Rightarrow> fdt_frame list \<Rightarrow> fdt_frame" where
  "open_frame path nm stack =
     (let path_len = length path;
          blank = \<lparr>fr_pos = 0, fr_match = False, fr_target = False\<rparr>
      in case stack of
           [] \<Rightarrow>
             if nm \<noteq> [] then blank
             else \<lparr>fr_pos = (if path_len = 1 then path_len else 0), fr_match = True, fr_target = (path_len = 1)\<rparr>
         | parent # _ \<Rightarrow>
             if fr_target parent then blank
             else if \<not> fr_match parent then blank
             else let start = fr_pos parent + 1
             in if start > path_len then blank
             else let component = takeWhile (\<lambda>c. c \<noteq> CHR ''/'') (drop start path);
                      wl = length component
             in if nm = c_bytes component
                then \<lparr>fr_pos = start + wl, fr_match = True, fr_target = (start + wl = path_len)\<rparr>
                else blank)"

text \<open>\<^verbatim>\<open>strcmp\<close> of the string at an offset of the blob with a C string.\<close>

definition string_at :: "u8 list \<Rightarrow> nat \<Rightarrow> u8 list" where
  "string_at blob off = takeWhile (\<lambda>c. c \<noteq> 0) (drop off blob)"

text \<open>The loop over the tokens from position \<open>p\<close>; a hit is the offset of the value and its length.\<close>

function find_loop :: "u8 list \<Rightarrow> u32 \<Rightarrow> string \<Rightarrow> string \<Rightarrow> fdt_frame list \<Rightarrow> nat \<Rightarrow> oemu_status + nat \<times> nat" where
  "find_loop blob off_strings path prop stack p =
     (if p + 4 \<le> length blob
      then let token = fdt_be32 blob p;
               p = p + 4
      in if token = OEMU_FDT_TOKEN_END then Inl OEMU_ERR_NOT_FOUND
      else if token = OEMU_FDT_TOKEN_END_NODE
      then (case stack of
              [] \<Rightarrow> find_loop blob off_strings path prop [] p
            | frame # frames \<Rightarrow>
                if fr_target frame then Inl OEMU_ERR_NOT_FOUND
                else find_loop blob off_strings path prop frames p)
      else if token = OEMU_FDT_TOKEN_BEGIN_NODE
      then let nl = fdt_strnlen (drop p blob) (length blob - p);
               adv = fdt_pad4 (nl + 1)
           in if p + adv > length blob then Inl OEMU_ERR_FORMAT
           else if length stack \<ge> 32 then Inl OEMU_ERR_FORMAT
           else find_loop blob off_strings path prop (open_frame path (take nl (drop p blob)) stack # stack) (p + adv)
      else if token = OEMU_FDT_TOKEN_PROP
      then if p + 12 > length blob then Inl OEMU_ERR_FORMAT
           else let dlen = unat (fdt_be32 blob p);
                    name_off = fdt_be32 blob (p + 4);
                    p = p + 8
           in if p + dlen > length blob \<or> unat (off_strings + name_off) \<ge> length blob then Inl OEMU_ERR_FORMAT
           else let nm = string_at blob (unat off_strings + unat name_off)
           in if (case stack of [] \<Rightarrow> False | frame # _ \<Rightarrow> fr_target frame) \<and> nm = c_bytes prop
              then Inr (p, dlen)
              else find_loop blob off_strings path prop stack (p + fdt_pad4 dlen)
      else Inl OEMU_ERR_FORMAT
      else Inl OEMU_ERR_NOT_FOUND)"
  by pat_completeness auto
termination by (relation "measure (\<lambda>(blob, off_strings, path, prop, stack, p). length blob - p)") auto

declare find_loop.simps [simp del]

definition oemu_fdt_internal_find :: "u8 list \<Rightarrow> string \<Rightarrow> string \<Rightarrow> oemu_status + nat \<times> nat" where
  "oemu_fdt_internal_find blob path prop =
     (if length blob < FDT_HEADER_SIZE then Inl OEMU_ERR_INVALID_ARG
      else if fdt_be32 blob 0 \<noteq> OEMU_FDT_MAGIC then Inl OEMU_ERR_FORMAT
      else let off_struct = fdt_be32 blob 8;
               off_strings = fdt_be32 blob 12
      in if unat off_struct \<ge> length blob \<or> unat off_strings > length blob then Inl OEMU_ERR_FORMAT
      else find_loop blob off_strings path prop [] (unat off_struct))"

section \<open>Calls and events\<close>

text \<open>The emitting calls of the interface as data, and a sequence of calls that stops at the first refusal.\<close>

datatype fdt_call =
    Call_Begin string
  | Call_End
  | Call_Empty string
  | Call_U32 string u32
  | Call_U64 string u64
  | Call_Bytes string "u8 list"
  | Call_Str string string
  | Call_Cells string "u32 list"
  | Call_Strv string "string list"

primrec run_call :: "fdt_call \<Rightarrow> oemu_fdt \<Rightarrow> oemu_status \<times> oemu_fdt" where
  "run_call (Call_Begin n) fdt = oemu_fdt_begin_node fdt n"
| "run_call Call_End fdt = oemu_fdt_end_node fdt"
| "run_call (Call_Empty n) fdt = oemu_fdt_prop_empty fdt n"
| "run_call (Call_U32 n v) fdt = oemu_fdt_prop_u32 fdt n v"
| "run_call (Call_U64 n v) fdt = oemu_fdt_prop_u64 fdt n v"
| "run_call (Call_Bytes n v) fdt = oemu_fdt_prop_bytes fdt n v"
| "run_call (Call_Str n v) fdt = oemu_fdt_prop_str fdt n v"
| "run_call (Call_Cells n v) fdt = oemu_fdt_prop_cells fdt n v"
| "run_call (Call_Strv n v) fdt = oemu_fdt_prop_strv fdt n v"

primrec run_calls :: "fdt_call list \<Rightarrow> oemu_fdt \<Rightarrow> oemu_status \<times> oemu_fdt" where
  "run_calls [] fdt = (OEMU_OK, fdt)"
| "run_calls (c # cs) fdt = (case run_call c fdt of (st, fdt) \<Rightarrow> if st \<noteq> OEMU_OK then (st, fdt) else run_calls cs fdt)"

text \<open>What a call means: a node opened or closed, or a property with its bytes.\<close>

datatype fdt_event = Begin_Node string | Prop_Value string "u8 list" | End_Node

definition cells_bytes :: "u32 list \<Rightarrow> u8 list" where
  "cells_bytes cells = concat (map fdt_put_be32 cells)"

definition strings_bytes :: "string list \<Rightarrow> u8 list" where
  "strings_bytes vs = concat (map (\<lambda>v. c_bytes v @ [0]) vs)"

primrec call_event :: "fdt_call \<Rightarrow> fdt_event" where
  "call_event (Call_Begin n) = Begin_Node n"
| "call_event Call_End = End_Node"
| "call_event (Call_Empty n) = Prop_Value n []"
| "call_event (Call_U32 n v) = Prop_Value n (cells_bytes [v])"
| "call_event (Call_U64 n v) = Prop_Value n (cells_bytes [ucast (drop_bit 32 v), ucast v])"
| "call_event (Call_Bytes n v) = Prop_Value n v"
| "call_event (Call_Str n v) = Prop_Value n (strings_bytes [v])"
| "call_event (Call_Cells n v) = Prop_Value n (cells_bytes v)"
| "call_event (Call_Strv n v) = Prop_Value n (strings_bytes v)"

definition padded :: "u8 list \<Rightarrow> nat \<Rightarrow> u8 list" where
  "padded bs n = bs @ replicate (n - length bs) 0"

primrec event_bytes :: "nat \<Rightarrow> fdt_event \<Rightarrow> u8 list" where
  "event_bytes off (Begin_Node n) = fdt_put_be32 OEMU_FDT_TOKEN_BEGIN_NODE @ padded (c_bytes n) (fdt_pad4 (length n + 1))"
| "event_bytes off (Prop_Value n v) = prop_head (length v) (of_nat off) @ padded v (fdt_pad4 (length v))"
| "event_bytes off End_Node = fdt_put_be32 OEMU_FDT_TOKEN_END_NODE"

primrec event_names :: "fdt_event \<Rightarrow> u8 list" where
  "event_names (Begin_Node n) = []"
| "event_names (Prop_Value n v) = c_bytes n @ [0]"
| "event_names End_Node = []"

primrec struct_of :: "nat \<Rightarrow> fdt_event list \<Rightarrow> u8 list" where
  "struct_of off [] = []"
| "struct_of off (e # es) = event_bytes off e @ struct_of (off + length (event_names e)) es"

definition names_of :: "fdt_event list \<Rightarrow> u8 list" where
  "names_of es = concat (map event_names es)"

primrec event_depth :: "fdt_event \<Rightarrow> int" where
  "event_depth (Begin_Node n) = 1"
| "event_depth (Prop_Value n v) = 0"
| "event_depth End_Node = - 1"

lemma lengths [simp]:
  "length (c_bytes s) = length s" "length (fdt_put_be32 v) = 4" "length (prop_head n w) = 12"
  "length (padded bs n) = max n (length bs)"
  by (auto simp: c_bytes_def fdt_put_be32_def prop_head_def padded_def)

lemma length_cells [simp]: "length (cells_bytes cells) = length cells * 4"
  by (induction cells) (simp_all add: cells_bytes_def)

lemma pad4_ge: "n \<le> fdt_pad4 n" "fdt_pad4 n < n + 4" "fdt_pad4 (n * 4) = n * 4"
  unfolding fdt_pad4_def by presburger+

section \<open>The scratch buffer\<close>

text \<open>A builder that still emits: the scratch holds both blocks, which together stay below the limit.\<close>

definition fdt_inv :: "oemu_fdt \<Rightarrow> bool" where
  "fdt_inv fdt \<longleftrightarrow> (\<exists>sb. fd_sb fdt = Some sb \<and> length sb = 2 * fd_cap fdt) \<and> fd_sb_size fdt = fd_cap fdt \<and>
     fd_sb_used fdt + fd_str_len fdt \<le> fd_cap fdt \<and> fd_data fdt = None"

definition struct_block :: "oemu_fdt \<Rightarrow> u8 list" where
  "struct_block fdt = take (fd_sb_used fdt) (the (fd_sb fdt))"

definition string_block :: "oemu_fdt \<Rightarrow> u8 list" where
  "string_block fdt = take (fd_str_len fdt) (drop (fd_sb_size fdt) (the (fd_sb fdt)))"

text \<open>\<open>appended fdt s n fdt'\<close>: the builder has taken the bytes \<open>s\<close> and the names \<open>n\<close>, and nothing else.\<close>

definition appended :: "oemu_fdt \<Rightarrow> u8 list \<Rightarrow> u8 list \<Rightarrow> oemu_fdt \<Rightarrow> bool" where
  "appended fdt s n fdt' \<longleftrightarrow> fdt_inv fdt' \<and> fd_cap fdt' = fd_cap fdt \<and> fd_depth fdt' = fd_depth fdt \<and>
     struct_block fdt' = struct_block fdt @ s \<and> string_block fdt' = string_block fdt @ n \<and>
     fd_sb_used fdt' = fd_sb_used fdt + length s \<and> fd_str_len fdt' = fd_str_len fdt + length n"

lemma appended_refl: "fdt_inv fdt \<Longrightarrow> appended fdt [] [] fdt"
  by (simp add: appended_def)

lemma appended_trans: "appended fdt s n fdt' \<Longrightarrow> appended fdt' s' n' fdt'' \<Longrightarrow> appended fdt (s @ s') (n @ n') fdt''"
  by (simp add: appended_def)

lemma emit_raw_appended:
  assumes "fdt_inv fdt" "fd_sb_used fdt + fd_str_len fdt + length bs \<le> fd_cap fdt"
  shows "appended fdt bs [] (fdt_emit_raw fdt bs)"
proof -
  obtain sb where sb: "fd_sb fdt = Some sb" "length sb = 2 * fd_cap fdt" using assms(1) by (auto simp: fdt_inv_def)
  have k: "fd_sb_used fdt + length bs \<le> length sb" "fd_sb_used fdt + length bs \<le> fd_cap fdt" using assms(2) sb(2) by simp_all
  show ?thesis
    using assms sb splice_facts [OF k(1)] k(2)
    by (simp add: appended_def fdt_inv_def fdt_emit_raw_def struct_block_def string_block_def)
qed

lemma intern_appended:
  assumes "fdt_inv fdt" "fd_sb_used fdt + fd_str_len fdt + length name + 1 \<le> fd_cap fdt" "fdt_intern fdt name = (off, fdt')"
  shows "off = of_nat (fd_str_len fdt) \<and> appended fdt [] (c_bytes name @ [0]) fdt'"
proof -
  obtain sb where sb: "fd_sb fdt = Some sb" "length sb = 2 * fd_cap fdt" using assms(1) by (auto simp: fdt_inv_def)
  let ?k = "fd_cap fdt + fd_str_len fdt" and ?bs = "c_bytes name @ [0]"
  have base: "fd_sb_size fdt = fd_cap fdt" using assms(1) by (simp add: fdt_inv_def)
  have k: "?k + length ?bs \<le> length sb" using assms(2) sb(2) by simp
  have "take (fd_str_len fdt + length ?bs) (drop (fd_cap fdt) (splice sb ?k ?bs)) = take (fd_str_len fdt) (drop (fd_cap fdt) sb) @ ?bs"
    using splice_facts(2) [of "fd_str_len fdt" ?bs "drop (fd_cap fdt) sb"] k splice_drop [of "fd_cap fdt" ?k ?bs sb] by simp
  then show ?thesis
    using assms sb base splice_facts(1,3) [OF k]
    by (auto simp: appended_def fdt_inv_def fdt_intern_def struct_block_def string_block_def fdt_strings_base_def Let_def)
qed

lemma fold_emit_appended:
  assumes "fdt_inv fdt" "fd_sb_used fdt + fd_str_len fdt + length (concat (map f xs)) \<le> fd_cap fdt"
  shows "appended fdt (concat (map f xs)) [] (fold (\<lambda>x fdt. fdt_emit_raw fdt (f x)) xs fdt)"
  using assms
proof (induction xs arbitrary: fdt)
  case (Cons x xs)
  have a: "appended fdt (f x) [] (fdt_emit_raw fdt (f x))" using Cons.prems by (intro emit_raw_appended) simp_all
  then have "appended (fdt_emit_raw fdt (f x)) (concat (map f xs)) [] (fold (\<lambda>x fdt. fdt_emit_raw fdt (f x)) xs (fdt_emit_raw fdt (f x)))"
    using Cons.prems by (intro Cons.IH) (simp_all add: appended_def)
  from appended_trans [OF a this] show ?case by simp
qed (simp add: appended_refl)

section \<open>What a call does\<close>

definition took :: "oemu_fdt \<Rightarrow> fdt_event \<Rightarrow> oemu_fdt \<Rightarrow> bool" where
  "took fdt e fdt' \<longleftrightarrow> fdt_inv fdt' \<and> fd_cap fdt' = fd_cap fdt \<and> fd_depth fdt' = fd_depth fdt + event_depth e \<and>
     struct_block fdt' = struct_block fdt @ event_bytes (fd_str_len fdt) e \<and> string_block fdt' = string_block fdt @ event_names e \<and>
     fd_sb_used fdt' = fd_sb_used fdt + length (event_bytes (fd_str_len fdt) e) \<and>
     fd_str_len fdt' = fd_str_len fdt + length (event_names e)"

text \<open>The answer, from the depth, the length of the name and the room that is left.\<close>

primrec event_status :: "oemu_fdt \<Rightarrow> fdt_event \<Rightarrow> oemu_status" where
  "event_status fdt (Begin_Node n) =
     (if length n \<ge> OEMU_FDT_MAX_NAME then OEMU_ERR_INVALID_ARG
      else if fdt_fits fdt (length (event_bytes 0 (Begin_Node n))) 0 then OEMU_OK else OEMU_ERR_NO_MEMORY)"
| "event_status fdt (Prop_Value n v) =
     (if n = '''' then OEMU_ERR_INVALID_ARG
      else if fd_depth fdt \<le> 0 then OEMU_ERR_STATE
      else if length n < OEMU_FDT_MAX_NAME \<and> fdt_fits fdt (length (event_bytes 0 (Prop_Value n v))) (length n + 1)
      then OEMU_OK else OEMU_ERR_NO_MEMORY)"
| "event_status fdt End_Node =
     (if fd_depth fdt \<le> 0 then OEMU_ERR_STATE
      else if fdt_fits fdt (length (event_bytes 0 End_Node)) 0 then OEMU_OK else OEMU_ERR_NO_MEMORY)"

lemma inv_emitting: "fdt_inv fdt \<Longrightarrow> fdt_require_emitting fdt = OEMU_OK"
  by (auto simp: fdt_inv_def fdt_require_emitting_def)

lemma took_depth:
  assumes "appended fdt (event_bytes (fd_str_len fdt) e) (event_names e) fdt'" "d = fd_depth fdt + event_depth e"
  shows "took fdt e (fdt'\<lparr>fd_depth := d\<rparr>)"
  using assms by (auto simp: took_def appended_def fdt_inv_def struct_block_def string_block_def)

lemma took_same:
  assumes "appended fdt (event_bytes (fd_str_len fdt) e) (event_names e) fdt'" "event_depth e = 0"
  shows "took fdt e fdt'"
  using assms by (simp add: took_def appended_def)

lemma tail_emit_appended:
  assumes "appended fdt (prop_head len off @ bs) n fdt'" "length bs = len"
    and "fd_sb_used fdt + fd_str_len fdt + 12 + fdt_pad4 len + length n \<le> fd_cap fdt" "pad = fdt_pad4 len - len"
  shows "appended fdt (prop_head len off @ padded bs (fdt_pad4 len)) n (if pad \<noteq> 0 then fdt_emit_raw fdt' (replicate pad 0) else fdt')"
proof (cases "pad = 0")
  case False
  have "appended fdt' (replicate pad 0) [] (fdt_emit_raw fdt' (replicate pad 0))"
    using assms pad4_ge(1) [of len] by (intro emit_raw_appended) (simp_all add: appended_def)
  from appended_trans [OF assms(1) this] False assms(2,4) show ?thesis by (simp add: padded_def)
qed (use assms pad4_ge(1) [of len] in \<open>simp add: padded_def\<close>)

text \<open>A guarded property whose emission appends a head and some bytes takes the event of those bytes.\<close>

lemma guarded_event:
  assumes inv: "fdt_inv fdt" and g: "guarded fdt name (length v) emit = (st, fdt')"
    and emit: "\<And>f off. fdt_inv f \<Longrightarrow> fd_sb_used f + fd_str_len f + 12 + fdt_pad4 (length v) \<le> fd_cap f \<Longrightarrow>
      appended f (prop_head (length v) off @ padded v (fdt_pad4 (length v))) [] (emit f off)"
  shows "st = event_status fdt (Prop_Value name v) \<and> (if st = OEMU_OK then took fdt (Prop_Value name v) fdt' else fdt' = fdt)"
proof (cases "name \<noteq> '''' \<and> fd_depth fdt > 0 \<and> length name < OEMU_FDT_MAX_NAME \<and> fdt_fits fdt (12 + fdt_pad4 (length v)) (length name + 1)")
  case True
  obtain off f where f: "fdt_intern fdt name = (off, f)" by fastforce
  have room: "fd_sb_used fdt + fd_str_len fdt + length name + 1 \<le> fd_cap fdt" using True by (simp add: fdt_fits_def)
  note i = intern_appended [OF inv room f]
  have "appended f (prop_head (length v) off @ padded v (fdt_pad4 (length v))) [] (emit f off)"
    using i True by (intro emit) (simp_all add: appended_def fdt_fits_def)
  with i have "took fdt (Prop_Value name v) (emit f off)"
    by (intro took_same) (auto dest: appended_trans)
  moreover have "guarded fdt name (length v) emit = (OEMU_OK, emit f off)"
    using True f by (simp add: guarded_def fdt_prop_guard_def inv_emitting [OF inv] Let_def)
  moreover have "event_status fdt (Prop_Value name v) = OEMU_OK"
    using True pad4_ge(1) [of "length v"] by (simp add: max_absorb1)
  ultimately show ?thesis using g by simp
next
  case False
  then show ?thesis
    using g pad4_ge(1) [of "length v"]
    by (auto simp: guarded_def fdt_prop_guard_def inv_emitting [OF inv] Let_def max_absorb1 split: if_splits)
qed

lemma prop_emit_appended:
  assumes "fdt_inv f" "fd_sb_used f + fd_str_len f + 12 + fdt_pad4 (length v) \<le> fd_cap f"
  shows "appended f (prop_head (length v) off @ padded v (fdt_pad4 (length v))) [] (fdt_prop_emit f off v)"
proof -
  have h: "appended f (prop_head (length v) off) [] (fdt_emit_raw f (prop_head (length v) off))"
    using assms by (intro emit_raw_appended) simp_all
  have "appended f (prop_head (length v) off @ v) []
      (if length v \<noteq> 0 then fdt_emit_raw (fdt_emit_raw f (prop_head (length v) off)) v else fdt_emit_raw f (prop_head (length v) off))"
  proof (cases "v = []")
    case False
    have "appended (fdt_emit_raw f (prop_head (length v) off)) v [] (fdt_emit_raw (fdt_emit_raw f (prop_head (length v) off)) v)"
      using h assms pad4_ge(1) [of "length v"] by (intro emit_raw_appended) (simp_all add: appended_def)
    from appended_trans [OF h this] False show ?thesis by simp
  qed (use h in simp)
  then show ?thesis
    unfolding fdt_prop_emit_def Let_def by (rule tail_emit_appended) (use assms in simp_all)
qed

lemma fold_lengths: "fold (\<lambda>v n. n + (length v + 1)) vs k = k + length (strings_bytes vs)"
  by (induction vs arbitrary: k) (simp_all add: strings_bytes_def)

lemma begin_event:
  assumes inv: "fdt_inv fdt" and run: "oemu_fdt_begin_node fdt n = (st, fdt')"
  shows "st = event_status fdt (Begin_Node n) \<and> (if st = OEMU_OK then took fdt (Begin_Node n) fdt' else fdt' = fdt)"
proof (cases "event_status fdt (Begin_Node n) = OEMU_OK")
  case True
  let ?pad = "fdt_pad4 (length n + 1)"
  have len: "length n + 1 \<le> ?pad" by (rule pad4_ge)
  have fits: "length n < OEMU_FDT_MAX_NAME" "fdt_fits fdt (4 + ?pad) 0"
    using True len by (simp_all add: max_absorb1 split: if_splits)
  let ?f = "fdt_emit_token fdt OEMU_FDT_TOKEN_BEGIN_NODE" and ?bs = "c_bytes n @ replicate (?pad - length n) 0"
  have t: "appended fdt (fdt_put_be32 OEMU_FDT_TOKEN_BEGIN_NODE) [] ?f"
    unfolding fdt_emit_token_def using fits(2) inv by (intro emit_raw_appended) (simp_all add: fdt_fits_def)
  moreover have "appended ?f ?bs [] (fdt_emit_raw ?f ?bs)"
    using t fits(2) len by (intro emit_raw_appended) (simp_all add: appended_def fdt_fits_def)
  ultimately have "appended fdt (event_bytes (fd_str_len fdt) (Begin_Node n)) (event_names (Begin_Node n)) (fdt_emit_raw ?f ?bs)"
    by (auto simp: padded_def dest: appended_trans)
  moreover have "fd_depth (fdt_emit_raw ?f ?bs) = fd_depth fdt" by (simp add: fdt_emit_raw_def fdt_emit_token_def)
  ultimately have "took fdt (Begin_Node n) ((fdt_emit_raw ?f ?bs)\<lparr>fd_depth := fd_depth (fdt_emit_raw ?f ?bs) + 1\<rparr>)"
    by (intro took_depth) simp_all
  with fits run True show ?thesis
    by (simp add: oemu_fdt_begin_node_def inv_emitting [OF inv] Let_def)
next
  case False
  with run pad4_ge(1) [of "length n + 1"] show ?thesis
    by (auto simp: oemu_fdt_begin_node_def inv_emitting [OF inv] Let_def max_absorb1 split: if_splits)
qed

lemma end_event:
  assumes inv: "fdt_inv fdt" and run: "oemu_fdt_end_node fdt = (st, fdt')"
  shows "st = event_status fdt (End_Node) \<and> (if st = OEMU_OK then took fdt (End_Node) fdt' else fdt' = fdt)"
proof (cases "event_status fdt End_Node = OEMU_OK")
  case True
  let ?f = "fdt_emit_token fdt OEMU_FDT_TOKEN_END_NODE"
  have "appended fdt (event_bytes (fd_str_len fdt) End_Node) (event_names End_Node) ?f"
    unfolding fdt_emit_token_def event_bytes.simps event_names.simps
    using True inv by (intro emit_raw_appended) (auto simp: fdt_fits_def split: if_splits)
  moreover have "fd_depth ?f = fd_depth fdt" by (simp add: fdt_emit_raw_def fdt_emit_token_def)
  ultimately have "took fdt End_Node (?f\<lparr>fd_depth := fd_depth ?f - 1\<rparr>)" by (intro took_depth) simp_all
  with True run show ?thesis
    by (simp add: oemu_fdt_end_node_def inv_emitting [OF inv] Let_def split: if_splits)
next
  case False
  with run show ?thesis
    by (auto simp: oemu_fdt_end_node_def inv_emitting [OF inv] Let_def split: if_splits)
qed

lemma cells_event:
  assumes inv: "fdt_inv fdt" and run: "oemu_fdt_prop_cells fdt n v = (st, fdt')"
  shows "st = event_status fdt (Prop_Value n (cells_bytes v)) \<and> (if st = OEMU_OK then took fdt (Prop_Value n (cells_bytes v)) fdt' else fdt' = fdt)"
proof -
  have "appended f (prop_head (length (cells_bytes v)) off @ padded (cells_bytes v) (fdt_pad4 (length (cells_bytes v)))) []
      (fold (\<lambda>cell fdt. fdt_emit_raw fdt (fdt_put_be32 cell)) v (fdt_emit_raw f (prop_head (length v * 4) off)))"
    if "fdt_inv f" "fd_sb_used f + fd_str_len f + 12 + fdt_pad4 (length (cells_bytes v)) \<le> fd_cap f" for f off
  proof -
    have h: "appended f (prop_head (length v * 4) off) [] (fdt_emit_raw f (prop_head (length v * 4) off))"
      using that by (intro emit_raw_appended) simp_all
    then have "appended (fdt_emit_raw f (prop_head (length v * 4) off)) (cells_bytes v) []
        (fold (\<lambda>cell fdt. fdt_emit_raw fdt (fdt_put_be32 cell)) v (fdt_emit_raw f (prop_head (length v * 4) off)))"
      unfolding cells_bytes_def using that
      by (intro fold_emit_appended) (simp_all add: appended_def pad4_ge(3) cells_bytes_def [symmetric])
    from appended_trans [OF h this] show ?thesis by (simp add: padded_def pad4_ge(3))
  qed
  from guarded_event [OF inv _ this, of n] run show ?thesis
    by (simp add: oemu_fdt_prop_cells_def del: event_status.simps)
qed

lemma strv_event:
  assumes inv: "fdt_inv fdt" and run: "oemu_fdt_prop_strv fdt n v = (st, fdt')"
  shows "st = event_status fdt (Prop_Value n (strings_bytes v)) \<and> (if st = OEMU_OK then took fdt (Prop_Value n (strings_bytes v)) fdt' else fdt' = fdt)"
proof -
  let ?len = "length (strings_bytes v)"
  have "appended f (prop_head ?len off @ padded (strings_bytes v) (fdt_pad4 ?len)) []
      (let fdt = fold (\<lambda>v fdt. fdt_emit_raw fdt (c_bytes v @ [0])) v (fdt_emit_raw f (prop_head ?len off)); pad = fdt_pad4 ?len - ?len
       in if pad \<noteq> 0 then fdt_emit_raw fdt (replicate pad 0) else fdt)"
    if "fdt_inv f" "fd_sb_used f + fd_str_len f + 12 + fdt_pad4 ?len \<le> fd_cap f" for f off
  proof -
    have h: "appended f (prop_head ?len off) [] (fdt_emit_raw f (prop_head ?len off))"
      using that by (intro emit_raw_appended) simp_all
    then have "appended (fdt_emit_raw f (prop_head ?len off)) (strings_bytes v) []
        (fold (\<lambda>v fdt. fdt_emit_raw fdt (c_bytes v @ [0])) v (fdt_emit_raw f (prop_head ?len off)))"
      unfolding strings_bytes_def using that pad4_ge(1) [of ?len]
      by (intro fold_emit_appended) (simp_all add: appended_def strings_bytes_def [symmetric])
    from appended_trans [OF h this]
    have "appended f (prop_head ?len off @ strings_bytes v) [] (fold (\<lambda>v fdt. fdt_emit_raw fdt (c_bytes v @ [0])) v (fdt_emit_raw f (prop_head ?len off)))"
      by simp
    then show ?thesis unfolding Let_def by (rule tail_emit_appended) (use that in simp_all)
  qed
  from guarded_event [OF inv _ this, of n] run show ?thesis
    by (simp add: oemu_fdt_prop_strv_def inv_emitting [OF inv] fold_lengths [simplified] Let_def del: event_status.simps)
qed

lemma value_event:
  assumes "fdt_inv fdt" "guarded fdt n (length v) (\<lambda>fdt off. fdt_prop_emit fdt off v) = (st, fdt')"
  shows "st = event_status fdt (Prop_Value n v) \<and> (if st = OEMU_OK then took fdt (Prop_Value n v) fdt' else fdt' = fdt)"
  using guarded_event [OF assms] prop_emit_appended by blast

lemma run_call_event:
  assumes inv: "fdt_inv fdt" and run: "run_call c fdt = (st, fdt')"
  shows "st = event_status fdt (call_event c) \<and> (if st = OEMU_OK then took fdt (call_event c) fdt' else fdt' = fdt)"
proof (cases c)
  case (Call_Empty n)
  then show ?thesis using run value_event [OF inv, of n "[]"] by (simp add: oemu_fdt_prop_empty_def del: event_status.simps)
next
  case (Call_U32 n v)
  then have "guarded fdt n (length (cells_bytes [v])) (\<lambda>fdt off. fdt_prop_emit fdt off (cells_bytes [v])) = (st, fdt')"
    using run by (simp add: oemu_fdt_prop_u32_def cells_bytes_def)
  from value_event [OF inv this] Call_U32 show ?thesis by simp
next
  case (Call_U64 n v)
  let ?w = "cells_bytes [ucast (drop_bit 32 v), ucast v]"
  have "guarded fdt n (length ?w) (\<lambda>fdt off. fdt_prop_emit fdt off ?w) = (st, fdt')"
    using run Call_U64 by (simp add: oemu_fdt_prop_u64_def cells_bytes_def)
  from value_event [OF inv this] Call_U64 show ?thesis by simp
next
  case (Call_Str n v)
  then have "guarded fdt n (length (strings_bytes [v])) (\<lambda>fdt off. fdt_prop_emit fdt off (strings_bytes [v])) = (st, fdt')"
    using run by (simp add: oemu_fdt_prop_str_def strings_bytes_def)
  from value_event [OF inv this] Call_Str show ?thesis by simp
qed (use run begin_event [OF inv] end_event [OF inv] cells_event [OF inv] strv_event [OF inv] value_event [OF inv] in
    \<open>simp_all add: oemu_fdt_prop_bytes_def del: event_status.simps\<close>)

section \<open>A whole build\<close>

lemma length_event_bytes: "length (event_bytes off e) = length (event_bytes 0 e)"
  by (cases e) simp_all

lemma run_calls_events:
  assumes "fdt_inv fdt" "run_calls cs fdt = (OEMU_OK, fdt')"
  shows "fdt_inv fdt'" "fd_cap fdt' = fd_cap fdt"
    "struct_block fdt' = struct_block fdt @ struct_of (fd_str_len fdt) (map call_event cs)"
    "string_block fdt' = string_block fdt @ names_of (map call_event cs)"
    "fd_depth fdt' = fd_depth fdt + sum_list (map (event_depth \<circ> call_event) cs)"
proof -
  have "fdt_inv fdt' \<and> fd_cap fdt' = fd_cap fdt \<and>
      struct_block fdt' = struct_block fdt @ struct_of (fd_str_len fdt) (map call_event cs) \<and>
      string_block fdt' = string_block fdt @ names_of (map call_event cs) \<and>
      fd_depth fdt' = fd_depth fdt + sum_list (map (event_depth \<circ> call_event) cs)"
    using assms
  proof (induction cs arbitrary: fdt)
    case (Cons c cs)
    obtain f where f: "run_call c fdt = (OEMU_OK, f)" "run_calls cs f = (OEMU_OK, fdt')"
      using Cons.prems(2) by (auto split: prod.splits if_splits)
    have t: "took fdt (call_event c) f" using run_call_event [OF Cons.prems(1) f(1)] by simp
    then have "fdt_inv f" by (simp add: took_def)
    from Cons.IH [OF this f(2)] t show ?case by (simp add: took_def names_of_def)
  qed (simp add: names_of_def)
  then show "fdt_inv fdt'" "fd_cap fdt' = fd_cap fdt"
    "struct_block fdt' = struct_block fdt @ struct_of (fd_str_len fdt) (map call_event cs)"
    "string_block fdt' = string_block fdt @ names_of (map call_event cs)"
    "fd_depth fdt' = fd_depth fdt + sum_list (map (event_depth \<circ> call_event) cs)" by simp_all
qed

lemma init_event:
  assumes "oemu_fdt_init (Some sb) cap f0 = (OEMU_OK, f1)" "length sb = 2 * cap"
  shows "fdt_inv f1" "fd_cap f1 = cap" "fd_str_len f1 = 0" "fd_depth f1 = 1"
    "struct_block f1 = struct_of 0 [Begin_Node '''']" "string_block f1 = []"
proof -
  let ?f = "zero_fdt\<lparr>fd_sb := Some sb, fd_sb_size := cap, fd_cap := cap\<rparr>"
  have z: "fdt_inv ?f" "fd_cap ?f = cap" "fd_str_len ?f = 0" "fd_depth ?f = 0" "struct_block ?f = []" "string_block ?f = []"
    using assms(2) by (simp_all add: fdt_inv_def zero_fdt_def struct_block_def string_block_def)
  have "oemu_fdt_begin_node ?f '''' = (OEMU_OK, f1)"
    using assms(1) by (auto simp: oemu_fdt_init_def split: if_splits prod.splits)
  from begin_event [OF z(1) this] have "took ?f (Begin_Node '''') f1" by simp
  with z show "fdt_inv f1" "fd_cap f1 = cap" "fd_str_len f1 = 0" "fd_depth f1 = 1"
    "struct_block f1 = struct_of 0 [Begin_Node '''']" "string_block f1 = []" by (simp_all add: took_def)
qed

definition blob_of :: "fdt_event list \<Rightarrow> u8 list" where
  "blob_of es =
     (let s = struct_of 0 es @ fdt_put_be32 OEMU_FDT_TOKEN_END in fdt_header (length s) (length (names_of es)) @ s @ names_of es)"

lemma length_header [simp]: "length (fdt_header n k) = 56"
  by (simp add: fdt_header_def)

lemma block_lengths:
  assumes "fdt_inv fdt"
  shows "length (struct_block fdt) = fd_sb_used fdt" "length (string_block fdt) = fd_str_len fdt"
  using assms by (auto simp: fdt_inv_def struct_block_def string_block_def)

lemma finish_blob:
  assumes "fdt_inv fdt" "oemu_fdt_finish True fdt = (OEMU_OK, fdt')" "struct_block fdt = struct_of 0 es" "string_block fdt = names_of es"
  shows "oemu_fdt_bytes fdt' = Some (blob_of es)" "oemu_fdt_length fdt' = length (blob_of es)" "fd_depth fdt = 0"
    "length (blob_of es) \<le> fd_cap fdt + 56"
proof -
  let ?f = "fdt_emit_token fdt OEMU_FDT_TOKEN_END"
  have room: "fd_sb_used fdt + fd_str_len fdt + 4 \<le> fd_cap fdt" and d: "fd_depth fdt = 0"
    using assms(2) by (auto simp: oemu_fdt_finish_def fdt_fits_def split: option.splits if_splits)
  have a: "appended fdt (fdt_put_be32 OEMU_FDT_TOKEN_END) [] ?f"
    unfolding fdt_emit_token_def using assms(1) room by (intro emit_raw_appended) simp_all
  then have b: "struct_block ?f = struct_of 0 es @ fdt_put_be32 OEMU_FDT_TOKEN_END" "string_block ?f = names_of es" "fdt_inv ?f"
    using assms(3,4) by (simp_all add: appended_def)
  have l: "fd_sb_used ?f = length (struct_of 0 es @ fdt_put_be32 OEMU_FDT_TOKEN_END)" "fd_str_len ?f = length (names_of es)"
    using block_lengths [OF b(3)] b(1,2) by simp_all
  have "fdt' = ?f\<lparr>fd_sb := None, fd_data := Some (blob_of es), fd_len := 56 + fd_sb_used ?f + fd_str_len ?f, fd_finished := True\<rparr>"
    using assms(2) b(1,2) l
    by (auto simp: oemu_fdt_finish_def Let_def blob_of_def struct_block_def string_block_def fdt_strings_base_def split: option.splits if_splits)
  then show "oemu_fdt_bytes fdt' = Some (blob_of es)" "oemu_fdt_length fdt' = length (blob_of es)" "fd_depth fdt = 0"
    using l d by (simp_all add: oemu_fdt_bytes_def oemu_fdt_length_def blob_of_def Let_def)
  show "length (blob_of es) \<le> fd_cap fdt + 56"
    using room a l by (simp add: blob_of_def Let_def appended_def)
qed

text \<open>
  When the room suffices. A sequence of events is ready when its names are admissible and its nodes open
  where it needs them; then the only refusal left is that the two blocks would outgrow the limit.
\<close>

primrec events_ready :: "int \<Rightarrow> fdt_event list \<Rightarrow> bool" where
  "events_ready d [] \<longleftrightarrow> True"
| "events_ready d (e # es) \<longleftrightarrow>
     (case e of Begin_Node n \<Rightarrow> length n < OEMU_FDT_MAX_NAME
      | Prop_Value n v \<Rightarrow> n \<noteq> '''' \<and> length n < OEMU_FDT_MAX_NAME \<and> 0 < d
      | End_Node \<Rightarrow> 0 < d) \<and> events_ready (d + event_depth e) es"

definition events_room :: "fdt_event list \<Rightarrow> nat" where
  "events_room es = sum_list (map (\<lambda>e. length (event_bytes 0 e) + length (event_names e)) es)"

lemma room_simps [simp]:
  "events_room [] = 0" "events_room (e # es) = length (event_bytes 0 e) + length (event_names e) + events_room es"
  "events_room (es @ fs) = events_room es + events_room fs"
  by (simp_all add: events_room_def)

lemma events_room: "length (struct_of off es) + length (names_of es) = events_room es"
proof (induction es arbitrary: off)
  case (Cons e es)
  have "length (event_bytes off e) = length (event_bytes 0 e)" by (rule length_event_bytes)
  with Cons [of "off + length (event_names e)"] show ?case by (simp add: names_of_def)
qed (simp add: names_of_def)

lemma run_calls_room:
  assumes "fdt_inv fdt" "events_ready (fd_depth fdt) (map call_event cs)"
  shows "fst (run_calls cs fdt) =
    (if fd_sb_used fdt + fd_str_len fdt + events_room (map call_event cs) \<le> fd_cap fdt then OEMU_OK else OEMU_ERR_NO_MEMORY)"
  using assms
proof (induction cs arbitrary: fdt)
  case Nil
  then show ?case by (simp add: fdt_inv_def)
next
  case (Cons c cs)
  obtain st f where f: "run_call c fdt = (st, f)" by fastforce
  note e = run_call_event [OF Cons.prems(1) f]
  have room: "event_status fdt (call_event c) =
      (if fd_sb_used fdt + fd_str_len fdt + length (event_bytes 0 (call_event c)) + length (event_names (call_event c)) \<le> fd_cap fdt
       then OEMU_OK else OEMU_ERR_NO_MEMORY)"
    using Cons.prems(2) by (cases "call_event c") (auto simp: fdt_fits_def)
  show ?case
  proof (cases "st = OEMU_OK")
    case True
    with e have t: "took fdt (call_event c) f" by simp
    then have "fdt_inv f" "events_ready (fd_depth f) (map call_event cs)" using Cons.prems(2) by (simp_all add: took_def)
    from Cons.IH [OF this] t f True show ?thesis by (simp add: took_def length_event_bytes [of "fd_str_len fdt"])
  next
    case False
    with e room f show ?thesis by (auto split: if_splits)
  qed
qed

lemma finish_room:
  assumes "fdt_inv fdt" "fd_depth fdt = 0"
  shows "fst (oemu_fdt_finish True fdt) = (if fd_sb_used fdt + fd_str_len fdt + 4 \<le> fd_cap fdt then OEMU_OK else OEMU_ERR_NO_MEMORY)"
  using assms by (auto simp: oemu_fdt_finish_def fdt_inv_def fdt_fits_def Let_def)

section \<open>Reading back\<close>

text \<open>The reader's answer in terms of the events: the same walk over frames, and the value itself.\<close>

primrec read_events :: "string \<Rightarrow> string \<Rightarrow> fdt_event list \<Rightarrow> fdt_frame list \<Rightarrow> oemu_status + u8 list" where
  "read_events path prop [] stack = Inl OEMU_ERR_NOT_FOUND"
| "read_events path prop (e # es) stack =
     (case e of
        Begin_Node n \<Rightarrow>
          if length stack \<ge> 32 then Inl OEMU_ERR_FORMAT
          else read_events path prop es (open_frame path (c_bytes n) stack # stack)
      | Prop_Value n v \<Rightarrow>
          if (case stack of [] \<Rightarrow> False | frame # _ \<Rightarrow> fr_target frame) \<and> n = prop then Inr v
          else read_events path prop es stack
      | End_Node \<Rightarrow>
          (case stack of
             [] \<Rightarrow> read_events path prop es []
           | frame # frames \<Rightarrow> if fr_target frame then Inl OEMU_ERR_NOT_FOUND else read_events path prop es frames))"

text \<open>Names are C strings: they hold no terminator.\<close>

primrec event_ok :: "fdt_event \<Rightarrow> bool" where
  "event_ok (Begin_Node n) = (0 \<notin> set (c_bytes n))"
| "event_ok (Prop_Value n v) = (0 \<notin> set (c_bytes n))"
| "event_ok End_Node = True"

lemma c_bytes_Nil [simp]: "c_bytes [] = []"
  by (simp add: c_bytes_def)

lemma of_char_word: "unat (of_char c :: u8) = of_char c"
proof -
  have "unat (of_nat (of_char c) :: u8) = of_char c"
    using nat_of_char_less_256 [of c] by (simp only: unat_of_nat) simp
  then show ?thesis by (simp only: of_nat_of_char)
qed

lemma c_bytes_inject [simp]: "c_bytes a = c_bytes b \<longleftrightarrow> a = b"
proof -
  have "inj (of_char :: char \<Rightarrow> u8)"
    by (rule injI) (metis of_char_word of_char_eq_iff)
  then show ?thesis by (simp add: c_bytes_def inj_map_eq_map)
qed

lemma be32_at: "fdt_be32 (pre @ fdt_put_be32 v @ post) (length pre) = v"
proof -
  have "push_bit 24 (ucast (ucast (drop_bit 24 v) :: u8)) OR push_bit 16 (ucast (ucast (drop_bit 16 v) :: u8)) OR
      push_bit 8 (ucast (ucast (drop_bit 8 v) :: u8)) OR ucast (ucast v :: u8) = (v :: u32)"
  proof (rule bit_word_eqI)
    fix k assume k: "k < LENGTH(32)"
    consider "k < 8" | "8 \<le> k" "k < 16" | "16 \<le> k" "k < 24" | "24 \<le> k" by linarith
    then show "bit (push_bit 24 (ucast (ucast (drop_bit 24 v) :: u8)) OR push_bit 16 (ucast (ucast (drop_bit 16 v) :: u8)) OR
        push_bit 8 (ucast (ucast (drop_bit 8 v) :: u8)) OR ucast (ucast v :: u8) :: u32) k = bit v k"
      using k by cases (auto simp: bit_simps)
  qed
  then show ?thesis by (simp add: fdt_be32_def fdt_put_be32_def nth_append)
qed

lemma string_prefix: "0 \<notin> set (c_bytes n) \<Longrightarrow> takeWhile (\<lambda>c. c \<noteq> 0) (c_bytes n @ 0 # rest) = c_bytes n"
  by (subst takeWhile_append2) auto

text \<open>The reader at a token, event by event. \<open>pre\<close> is what it has passed.\<close>

lemma find_loop_end:
  assumes "blob = pre @ fdt_put_be32 OEMU_FDT_TOKEN_END @ post"
  shows "find_loop blob os path prop stack (length pre) = Inl OEMU_ERR_NOT_FOUND"
  unfolding assms by (subst find_loop.simps) (simp add: be32_at)

lemma find_loop_end_node:
  assumes "blob = pre @ event_bytes off End_Node @ post"
  shows "find_loop blob os path prop stack (length pre) =
    (case stack of
       [] \<Rightarrow> find_loop blob os path prop [] (length (pre @ event_bytes off End_Node))
     | frame # frames \<Rightarrow> if fr_target frame then Inl OEMU_ERR_NOT_FOUND
         else find_loop blob os path prop frames (length (pre @ event_bytes off End_Node)))"
  unfolding assms by (subst find_loop.simps) (simp add: be32_at split: list.split)

lemma find_loop_begin:
  assumes b: "blob = pre @ event_bytes off (Begin_Node n) @ post" and ok: "event_ok (Begin_Node n)"
  shows "find_loop blob os path prop stack (length pre) =
    (if length stack \<ge> 32 then Inl OEMU_ERR_FORMAT
     else find_loop blob os path prop (open_frame path (c_bytes n) stack # stack) (length (pre @ event_bytes off (Begin_Node n))))"
proof -
  let ?k = "fdt_pad4 (length n + 1)" and ?p = "length pre + 4"
  have k: "length n + 1 \<le> ?k" by (rule pad4_ge)
  have tok: "fdt_be32 blob (length pre) = OEMU_FDT_TOKEN_BEGIN_NODE" "?p \<le> length blob" unfolding b by (simp_all add: be32_at)
  obtain rest where z: "replicate (?k - length n) 0 @ post = 0 # rest" using k by (cases "?k - length n") simp_all
  have d: "drop ?p blob = c_bytes n @ 0 # rest" unfolding b using z by (simp add: padded_def)
  have nl: "fdt_strnlen (drop ?p blob) (length blob - ?p) = length n"
    using string_prefix [of n rest] ok unfolding d [symmetric] by (simp add: fdt_strnlen_def)
  have adv: "?p + ?k \<le> length blob" "length (pre @ event_bytes off (Begin_Node n)) = ?p + ?k" unfolding b using k by simp_all
  have "take (length n) (drop ?p blob) = c_bytes n" unfolding d by simp
  with tok nl adv show ?thesis by (subst find_loop.simps) (simp add: Let_def add.assoc)
qed

lemma find_loop_prop:
  assumes b: "blob = pre @ event_bytes off (Prop_Value n v) @ post" and post: "4 \<le> length post" and small: "length blob < 2 ^ 32"
    and os: "drop (unat os + off) blob = c_bytes n @ 0 # rest" and ok: "event_ok (Prop_Value n v)"
  shows "find_loop blob os path prop stack (length pre) =
    (if (case stack of [] \<Rightarrow> False | frame # _ \<Rightarrow> fr_target frame) \<and> n = prop then Inr (length pre + 12, length v)
     else find_loop blob os path prop stack (length (pre @ event_bytes off (Prop_Value n v))))"
    "take (length v) (drop (length pre + 12) blob) = v"
proof -
  let ?k = "fdt_pad4 (length v)" and ?p = "length pre + 4"
  have k: "length v \<le> ?k" by (rule pad4_ge)
  have l: "length blob = length pre + 12 + ?k + length post" unfolding b using k by simp
  have "unat os + off < length blob"
  proof (rule ccontr)
    assume "\<not> unat os + off < length blob"
    then have "drop (unat os + off) blob = []" by simp
    with os show False by simp
  qed
  then have off: "unat (of_nat off :: u32) = off" "unat (os + of_nat off) = unat os + off"
    using small by (simp_all add: unat_of_nat unat_word_ariths)
  have tok: "fdt_be32 blob (length pre) = OEMU_FDT_TOKEN_PROP"
    unfolding b event_bytes.simps prop_head_def by (simp add: be32_at)
  have "fdt_be32 ((pre @ fdt_put_be32 OEMU_FDT_TOKEN_PROP) @ fdt_put_be32 (of_nat (length v)) @
      (fdt_put_be32 (of_nat off) @ padded v ?k @ post)) (length (pre @ fdt_put_be32 OEMU_FDT_TOKEN_PROP)) = of_nat (length v)" by (rule be32_at)
  then have "fdt_be32 blob ?p = of_nat (length v)" unfolding b event_bytes.simps prop_head_def by simp
  then have dlen: "unat (fdt_be32 blob ?p) = length v" using l k small by (simp add: unat_of_nat)
  have "fdt_be32 ((pre @ fdt_put_be32 OEMU_FDT_TOKEN_PROP @ fdt_put_be32 (of_nat (length v))) @ fdt_put_be32 (of_nat off) @
      (padded v ?k @ post)) (length (pre @ fdt_put_be32 OEMU_FDT_TOKEN_PROP @ fdt_put_be32 (of_nat (length v)))) = of_nat off" by (rule be32_at)
  then have name: "fdt_be32 blob (length pre + 8) = of_nat off" unfolding b event_bytes.simps prop_head_def by simp
  have "string_at blob (unat os + off) = c_bytes n" unfolding string_at_def os using ok by (simp add: string_prefix)
  show "find_loop blob os path prop stack (length pre) =
    (if (case stack of [] \<Rightarrow> False | frame # _ \<Rightarrow> fr_target frame) \<and> n = prop then Inr (length pre + 12, length v)
     else find_loop blob os path prop stack (length (pre @ event_bytes off (Prop_Value n v))))"
  proof -
    obtain q where q: "length pre + 4 = q" by blast
    have p12: "length pre + 12 = q + 8" using q by simp
    have pk: "length (pre @ event_bytes off (Prop_Value n v)) = q + 8 + ?k" using q k by simp
    have "length pre + 8 = q + 4" using q by simp
    then have "fdt_be32 blob (q + 4) = of_nat off" "unat (fdt_be32 blob q) = length v" using name dlen q by metis+
    moreover have "length blob = q + 8 + ?k + length post" using l q by simp
    ultimately show ?thesis
      unfolding p12 pk using tok k post off \<open>unat os + off < length blob\<close> \<open>string_at blob (unat os + off) = c_bytes n\<close>
      by (subst find_loop.simps) (simp add: Let_def q)
  qed
  show "take (length v) (drop (length pre + 12) blob) = v"
    unfolding b event_bytes.simps prop_head_def by (simp add: padded_def)
qed

definition agrees :: "u8 list \<Rightarrow> oemu_status + nat \<times> nat \<Rightarrow> oemu_status + u8 list \<Rightarrow> bool" where
  "agrees blob q r \<longleftrightarrow>
     (case q of Inl e \<Rightarrow> r = Inl e | Inr (off, len) \<Rightarrow> r = Inr (take len (drop off blob)) \<and> off + len \<le> length blob)"

lemma find_loop_events:
  assumes "blob = pre @ struct_of off es @ fdt_put_be32 OEMU_FDT_TOKEN_END @ names @ names_of es" "length blob < 2 ^ 32"
    and "off = length names" "unat os = length pre + length (struct_of off es) + 4" "list_all event_ok es"
  shows "agrees blob (find_loop blob os path prop stack (length pre)) (read_events path prop es stack)"
  using assms
proof (induction es arbitrary: pre off names stack)
  case Nil
  show ?case unfolding find_loop_end [OF Nil(1) [unfolded struct_of.simps append_Nil]] by (simp add: agrees_def)
next
  case (Cons e es)
  let ?pre = "pre @ event_bytes off e" and ?off = "off + length (event_names e)" and ?names = "names @ event_names e"
  let ?post = "struct_of ?off es @ fdt_put_be32 OEMU_FDT_TOKEN_END @ ?names @ names_of es"
  have b: "blob = pre @ event_bytes off e @ ?post" using Cons.prems(1) by (simp add: names_of_def)
  have IH: "agrees blob (find_loop blob os path prop stack' (length ?pre)) (read_events path prop es stack')" for stack'
    using Cons.prems by (intro Cons.IH [where off = ?off and names = ?names]) (simp_all add: names_of_def)
  show ?case
  proof (cases e)
    case (Begin_Node n)
    then have "event_ok (Begin_Node n)" using Cons.prems(5) by simp
    from find_loop_begin [OF b [unfolded Begin_Node] this] IH show ?thesis
      by (simp add: Begin_Node agrees_def)
  next
    case (Prop_Value n v)
    have os: "drop (unat os + off) blob = c_bytes n @ 0 # names_of es"
      unfolding b using Cons.prems(3,4) by (simp add: Prop_Value max_absorb1 pad4_ge(1))
    have "4 \<le> length ?post" "event_ok e" using Cons.prems(5) by simp_all
    note f = find_loop_prop [OF b [unfolded Prop_Value], folded Prop_Value, OF this(1) Cons.prems(2) os this(2)]
    have "length pre + 12 + length v \<le> length blob" unfolding b Prop_Value using pad4_ge(1) [of "length v"] by simp
    with f(2) IH show ?thesis unfolding f(1) by (simp add: Prop_Value agrees_def)
  next
    case End_Node
    from find_loop_end_node [OF b [unfolded End_Node]] IH show ?thesis
      by (auto simp: End_Node agrees_def split: list.split)
  qed
qed

lemma header_words:
  assumes "blob = fdt_header n k @ rest" "56 + n + k < 2 ^ 32"
  shows "fdt_be32 blob 0 = OEMU_FDT_MAGIC" "unat (fdt_be32 blob 4) = 56 + n + k" "unat (fdt_be32 blob 8) = 56" "unat (fdt_be32 blob 12) = 56 + n"
proof -
  have w: "fdt_be32 blob 0 = OEMU_FDT_MAGIC" "fdt_be32 blob 4 = of_nat (56 + n + k)" "fdt_be32 blob 8 = of_nat 56" "fdt_be32 blob 12 = of_nat (56 + n)"
    using be32_at [of "[]" OEMU_FDT_MAGIC] be32_at [of "fdt_put_be32 OEMU_FDT_MAGIC" "of_nat (56 + n + k)"]
      be32_at [of "fdt_put_be32 OEMU_FDT_MAGIC @ fdt_put_be32 (of_nat (56 + n + k))" "of_nat 56"]
      be32_at [of "fdt_put_be32 OEMU_FDT_MAGIC @ fdt_put_be32 (of_nat (56 + n + k)) @ fdt_put_be32 (of_nat 56)" "of_nat (56 + n)"]
    unfolding assms(1) fdt_header_def Let_def by simp_all
  with assms(2) show "fdt_be32 blob 0 = OEMU_FDT_MAGIC" "unat (fdt_be32 blob 4) = 56 + n + k" "unat (fdt_be32 blob 8) = 56" "unat (fdt_be32 blob 12) = 56 + n"
    by (simp_all only: unat_of_nat) simp_all
qed

lemma blob_reads:
  assumes "length (blob_of es) < 2 ^ 32" "list_all event_ok es"
  shows "oemu_fdt_internal_total_size (blob_of es) = Inr (length (blob_of es))"
    "agrees (blob_of es) (oemu_fdt_internal_find (blob_of es) path prop) (read_events path prop es [])"
proof -
  let ?s = "struct_of 0 es @ fdt_put_be32 OEMU_FDT_TOKEN_END" and ?h = "fdt_header (length (struct_of 0 es @ fdt_put_be32 OEMU_FDT_TOKEN_END)) (length (names_of es))"
  have b: "blob_of es = ?h @ ?s @ names_of es" by (simp add: blob_of_def Let_def)
  then have l: "length (blob_of es) = 56 + length ?s + length (names_of es)" by simp
  note w = header_words [OF b, unfolded l [symmetric], OF assms(1)]
  show "oemu_fdt_internal_total_size (blob_of es) = Inr (length (blob_of es))"
    using w l by (simp add: oemu_fdt_internal_total_size_def)
  have "agrees (blob_of es) (find_loop (blob_of es) (fdt_be32 (blob_of es) 12) path prop [] (length ?h)) (read_events path prop es [])"
    using w(4) assms b by (intro find_loop_events [where off = 0 and names = "[]"]) simp_all
  then show "agrees (blob_of es) (oemu_fdt_internal_find (blob_of es) path prop) (read_events path prop es [])"
    using w l by (simp add: oemu_fdt_internal_find_def Let_def)
qed

section \<open>Trees\<close>

text \<open>
  A device tree without its bytes: a node is the list of its properties and sub-nodes in order. Looking a
  property up descends by the components of the path; where siblings share a name the first node in the
  order of the tree counts.
\<close>

datatype fdt_item = Prop string "u8 list" | Node string "fdt_item list"

primrec item_events :: "fdt_item \<Rightarrow> fdt_event list" where
  "item_events (Prop n v) = [Prop_Value n v]"
| "item_events (Node n sub) = Begin_Node n # concat (map item_events sub) @ [End_Node]"

abbreviation tree_events :: "fdt_item list \<Rightarrow> fdt_event list" where
  "tree_events items \<equiv> concat (map item_events items)"

primrec item_height :: "fdt_item \<Rightarrow> nat" where
  "item_height (Prop n v) = 0"
| "item_height (Node n sub) = Suc (foldr max (map item_height sub) 0)"

definition tree_height :: "fdt_item list \<Rightarrow> nat" where
  "tree_height items = foldr max (map item_height items) 0"

definition children :: "string \<Rightarrow> fdt_item list \<Rightarrow> fdt_item list list" where
  "children c items = concat (map (\<lambda>i. case i of Prop n v \<Rightarrow> [] | Node n sub \<Rightarrow> if n = c then [sub] else []) items)"

primrec nodes_at :: "string list \<Rightarrow> fdt_item list \<Rightarrow> fdt_item list list" where
  "nodes_at [] items = [items]"
| "nodes_at (c # cs) items = concat (map (nodes_at cs) (children c items))"

definition props_of :: "fdt_item list \<Rightarrow> (string \<times> u8 list) list" where
  "props_of items = concat (map (\<lambda>i. case i of Prop n v \<Rightarrow> [(n, v)] | Node n sub \<Rightarrow> []) items)"

definition tree_lookup :: "string list \<Rightarrow> string \<Rightarrow> fdt_item list \<Rightarrow> u8 list option" where
  "tree_lookup comps prop items =
     (case nodes_at comps items of [] \<Rightarrow> None | node # _ \<Rightarrow> map_of (props_of node) prop)"

text \<open>The path of a list of components, none of them empty or with a slash.\<close>

definition path_of :: "string list \<Rightarrow> string" where
  "path_of comps = (if comps = [] then ''/'' else concat (map (\<lambda>c. CHR ''/'' # c) comps))"

definition component_ok :: "string \<Rightarrow> bool" where
  "component_ok c \<longleftrightarrow> c \<noteq> [] \<and> CHR ''/'' \<notin> set c"

lemma tree_height_simps [simp]:
  "tree_height [] = 0" "tree_height (i # items) = max (item_height i) (tree_height items)" "item_height (Node n sub) = Suc (tree_height sub)"
  by (simp_all add: tree_height_def)

declare item_height.simps(2) [simp del]

text \<open>How the reader's frames pass over a body: a frame off the path, the target, a frame on the way.\<close>

lemma read_off_path:
  assumes "\<not> fr_match f" "\<not> fr_target f" "tree_height items + length frames < 32"
  shows "read_events path prop (tree_events items @ es) (f # frames) = read_events path prop es (f # frames)"
  using assms
proof (induction items arbitrary: f frames es rule: measure_induct_rule [where f = "\<lambda>items. size_list size items"])
  case (less items)
  show ?case
  proof (cases items)
    case (Cons i rest)
    have rest: "read_events path prop (tree_events rest @ es) (f # frames) = read_events path prop es (f # frames)"
      using less.prems by (intro less.IH) (simp_all add: Cons)
    show ?thesis
    proof (cases i)
      case (Prop n v)
      then show ?thesis using rest less.prems(2) by (simp add: Cons)
    next
      case (Node n sub)
      let ?g = "open_frame path (c_bytes n) (f # frames)"
      have g: "\<not> fr_match ?g" "\<not> fr_target ?g" using less.prems(1,2) by (simp_all add: open_frame_def)
      have "read_events path prop (tree_events sub @ End_Node # tree_events rest @ es) (?g # f # frames) =
          read_events path prop (End_Node # tree_events rest @ es) (?g # f # frames)"
        using less.prems(3) g by (intro less.IH) (simp_all add: Cons Node)
      moreover have "tree_height sub + length (f # frames) < 32" using less.prems(3) by (simp add: Cons Node)
      then have "length frames < 31" by simp
      ultimately show ?thesis using rest g by (simp add: Cons Node)
    qed
  qed simp
qed

lemma read_target:
  assumes "fr_target f" "tree_height items + length frames < 32"
  shows "read_events path prop (tree_events items @ End_Node # es) (f # frames) =
    (case map_of (props_of items) prop of None \<Rightarrow> Inl OEMU_ERR_NOT_FOUND | Some v \<Rightarrow> Inr v)"
  using assms(2)
proof (induction items)
  case (Cons i items)
  show ?case
  proof (cases i)
    case (Node n sub)
    let ?g = "open_frame path (c_bytes n) (f # frames)"
    have g: "\<not> fr_match ?g" "\<not> fr_target ?g" using assms(1) by (simp_all add: open_frame_def)
    have "tree_height sub + length (f # frames) < 32" using Cons.prems by (simp add: Node)
    from read_off_path [OF g this] Cons g show ?thesis by (simp add: Node props_of_def)
  qed (use Cons assms(1) in \<open>auto simp: props_of_def\<close>)
qed (use assms(1) in \<open>simp add: props_of_def\<close>)

text \<open>The frame of a node on the way, with the components still to go.\<close>

definition way_frame :: "string \<Rightarrow> string list \<Rightarrow> fdt_frame \<Rightarrow> bool" where
  "way_frame path comps f \<longleftrightarrow> fr_match f \<and> fr_target f = (comps = []) \<and> fr_pos f \<le> length path \<and>
     drop (fr_pos f) path = concat (map (\<lambda>c. CHR ''/'' # c) comps)"

lemma way_frame_child:
  assumes "way_frame path (c # cs) f" "component_ok c"
  shows "n = c \<Longrightarrow> way_frame path cs (open_frame path (c_bytes n) (f # frames))"
    "n \<noteq> c \<Longrightarrow> \<not> fr_match (open_frame path (c_bytes n) (f # frames)) \<and> \<not> fr_target (open_frame path (c_bytes n) (f # frames))"
proof -
  let ?tail = "concat (map (\<lambda>c. CHR ''/'' # c) cs)"
  have d: "drop (fr_pos f) path = CHR ''/'' # c @ ?tail" and f: "fr_match f" "\<not> fr_target f" using assms(1) by (simp_all add: way_frame_def)
  have d1: "drop (Suc (fr_pos f)) path = c @ ?tail" using d by (metis drop_Suc list.sel(3) tl_drop)
  have lt: "Suc (fr_pos f) + length c + length ?tail = length path"
    using d assms(1) by (metis (no_types, lifting) way_frame_def add_Suc_shift drop_eq_Nil length_Cons length_append length_drop le_add_diff_inverse add.assoc)
  have tw: "takeWhile (\<lambda>c. c \<noteq> CHR ''/'') (c @ ?tail) = c"
  proof -
    have "takeWhile (\<lambda>c. c \<noteq> CHR ''/'') ?tail = []" by (cases cs) simp_all
    then show ?thesis using assms(2) by (subst takeWhile_append2) (auto simp: component_ok_def)
  qed
  have t: "?tail = [] \<longleftrightarrow> cs = []" by (cases cs) simp_all
  have rest: "drop (Suc (fr_pos f) + length c) path = ?tail" by (metis append_eq_conv_conj d1 drop_drop add.commute)
  show "n = c \<Longrightarrow> way_frame path cs (open_frame path (c_bytes n) (f # frames))"
    using f lt rest t by (auto simp: open_frame_def Let_def d1 tw way_frame_def)
  show "n \<noteq> c \<Longrightarrow> \<not> fr_match (open_frame path (c_bytes n) (f # frames)) \<and> \<not> fr_target (open_frame path (c_bytes n) (f # frames))"
    using f by (simp add: open_frame_def Let_def d1 tw)
qed

lemma nodes_at_Node: "nodes_at (c # cs) (Node n sub # items) = (if n = c then nodes_at cs sub else []) @ nodes_at (c # cs) items"
  by (simp add: children_def)

lemma read_on_way:
  assumes "way_frame path comps f" "comps \<noteq> []" "list_all component_ok comps" "tree_height items + length frames < 32"
  shows "read_events path prop (tree_events items @ es) (f # frames) =
    (case nodes_at comps items of
       [] \<Rightarrow> read_events path prop es (f # frames)
     | node # _ \<Rightarrow> (case map_of (props_of node) prop of None \<Rightarrow> Inl OEMU_ERR_NOT_FOUND | Some v \<Rightarrow> Inr v))"
  using assms
proof (induction comps arbitrary: f frames items es)
  case (Cons c cs)
  have nt: "\<not> fr_target f" using Cons.prems(1) by (simp add: way_frame_def)
  have c: "component_ok c" "list_all component_ok cs" using Cons.prems(3) by simp_all
  note outer = Cons.IH and child = way_frame_child [OF Cons.prems(1) c(1)]
  show ?case using Cons.prems(4)
  proof (induction items)
    case (Cons i items)
    show ?case
    proof (cases i)
      case (Prop n v)
      then show ?thesis using Cons nt by (simp add: children_def)
    next
      case (Node n sub)
      let ?g = "open_frame path (c_bytes n) (f # frames)"
      let ?es = "End_Node # tree_events items @ es"
      have h: "tree_height sub + length (f # frames) < 32" using Cons.prems by (simp add: Node)
      have step: "read_events path prop (tree_events (i # items) @ es) (f # frames) = read_events path prop (tree_events sub @ ?es) (?g # f # frames)"
        using h by (simp add: Node)
      have IH: "read_events path prop (tree_events items @ es) (f # frames) =
          (case nodes_at (c # cs) items of [] \<Rightarrow> read_events path prop es (f # frames)
           | node # _ \<Rightarrow> (case map_of (props_of node) prop of None \<Rightarrow> Inl OEMU_ERR_NOT_FOUND | Some v \<Rightarrow> Inr v))"
        using Cons.IH Cons.prems by simp
      consider "n \<noteq> c" | "n = c" "cs = []" | "n = c" "cs \<noteq> []" by blast
      then show ?thesis
      proof cases
        case 1
        then have g: "\<not> fr_match ?g" "\<not> fr_target ?g" using child(2) by simp_all
        have "read_events path prop (tree_events sub @ ?es) (?g # f # frames) = read_events path prop ?es (?g # f # frames)"
          by (rule read_off_path [OF g h])
        then show ?thesis unfolding step using 1 g IH by (simp only: Node nodes_at_Node) simp
      next
        case 2
        then have g: "fr_target ?g" using child(1) by (simp add: way_frame_def)
        show ?thesis unfolding step read_target [OF g h] using 2 by (simp only: Node nodes_at_Node) simp
      next
        case 3
        then have g: "way_frame path cs ?g" "\<not> fr_target ?g" using child(1) by (simp_all add: way_frame_def)
        have end_node: "read_events path prop ?es (?g # f # frames) = read_events path prop (tree_events items @ es) (f # frames)"
          using g(2) by simp
        show ?thesis unfolding step outer [OF g(1) 3(2) c(2) h] end_node IH using 3
          by (cases "nodes_at cs sub") (simp_all only: Node nodes_at_Node if_True simp_thms append_Nil append_Cons list.case)
      qed
    qed
  qed (simp add: children_def)
qed simp

text \<open>The reader's walk over the events of a tree is the lookup.\<close>

lemma read_tree:
  assumes "list_all component_ok comps" "tree_height items < 32"
  shows "read_events (path_of comps) prop (Begin_Node '''' # tree_events items @ [End_Node]) [] =
    (case tree_lookup comps prop items of None \<Rightarrow> Inl OEMU_ERR_NOT_FOUND | Some v \<Rightarrow> Inr v)"
proof (cases "comps = []")
  case True
  let ?f = "open_frame ''/'' [] []"
  have "fr_target ?f" by (simp add: open_frame_def)
  from read_target [OF this, of items "[]" "''/''" "prop" "[]"] assms(2) True show ?thesis
    by (simp add: path_of_def tree_lookup_def)
next
  case False
  let ?path = "path_of comps"
  let ?f = "open_frame ?path [] []"
  have l: "length ?path \<noteq> 1" using False assms(1) by (cases comps) (auto simp: path_of_def component_ok_def)
  have w: "way_frame ?path comps ?f" using l False by (simp add: open_frame_def way_frame_def path_of_def)
  have e: "read_events ?path prop [End_Node] [?f] = Inl OEMU_ERR_NOT_FOUND" by simp
  from read_on_way [OF w False assms(1), of items "[]" "prop" "[End_Node]"] assms(2) False e show ?thesis
    by (simp add: tree_lookup_def del: read_events.simps(1) split: list.split)
qed

text \<open>A reader finds a value: its offset and length lie in the blob and its bytes are there.\<close>

definition found :: "u8 list \<Rightarrow> string \<Rightarrow> string \<Rightarrow> u8 list \<Rightarrow> bool" where
  "found blob path n v \<longleftrightarrow>
     (case oemu_fdt_internal_find blob path n of Inl e \<Rightarrow> False
      | Inr (off, len) \<Rightarrow> off + len \<le> length blob \<and> take len (drop off blob) = v)"

definition answers :: "u8 list \<Rightarrow> fdt_item list \<Rightarrow> bool" where
  "answers blob root \<longleftrightarrow>
     (\<forall>comps n. list_all component_ok comps \<longrightarrow>
        (case tree_lookup comps n root of
           None \<Rightarrow> oemu_fdt_internal_find blob (path_of comps) n = Inl OEMU_ERR_NOT_FOUND
         | Some v \<Rightarrow> found blob (path_of comps) n v))"

lemma blob_answers:
  assumes "es = Begin_Node '''' # tree_events root @ [End_Node]" "list_all event_ok es" "tree_height root < 32" "length (blob_of es) < 2 ^ 32"
  shows "answers (blob_of es) root"
  unfolding answers_def
proof (intro allI impI)
  fix comps n assume c: "list_all component_ok comps"
  have "agrees (blob_of es) (oemu_fdt_internal_find (blob_of es) (path_of comps) n)
      (case tree_lookup comps n root of None \<Rightarrow> Inl OEMU_ERR_NOT_FOUND | Some v \<Rightarrow> Inr v)"
    using blob_reads(2) [OF assms(4,2), of "path_of comps" n] read_tree [OF c assms(3), of n] assms(1) by simp
  then show "case tree_lookup comps n root of
      None \<Rightarrow> oemu_fdt_internal_find (blob_of es) (path_of comps) n = Inl OEMU_ERR_NOT_FOUND
    | Some v \<Rightarrow> found (blob_of es) (path_of comps) n v"
    by (auto simp: agrees_def found_def split: option.splits sum.splits prod.splits)
qed

section \<open>The round trip\<close>

text \<open>
  Property C17. What the builder writes, the reader finds. Take any tree, at most thirty-two nodes deep, and
  any sequence of emitting calls that spells it out and was accepted call by call on a fresh builder that
  was then finished. The blob's header says its length, and for every path, given by its components, and
  every property name the reader of the same file answers what a lookup by names in the tree gives: the
  bytes of the value, at an offset and length inside the blob, or that there is none. Along the way an
  emitting call that is refused leaves the builder as it was; finishing is not covered by that, since a
  finish that cannot allocate has already written a token.
\<close>

theorem fdt_roundtrip:
  assumes init: "oemu_fdt_init (Some sb) cap f0 = (OEMU_OK, f1)" "length sb = 2 * cap" "cap + 56 < 2 ^ 32"
    and calls: "run_calls cs f1 = (OEMU_OK, f2)" "list_all (event_ok \<circ> call_event) cs"
    and tree: "map call_event cs = tree_events root @ [End_Node]" "tree_height root < 32"
    and finish: "oemu_fdt_finish True f2 = (OEMU_OK, f3)"
  shows "(\<exists>blob. oemu_fdt_bytes f3 = Some blob \<and> oemu_fdt_length f3 = length blob \<and>
       oemu_fdt_internal_total_size blob = Inr (length blob) \<and>
       (\<forall>comps n. list_all component_ok comps \<longrightarrow>
          (case tree_lookup comps n root of
             None \<Rightarrow> oemu_fdt_internal_find blob (path_of comps) n = Inl OEMU_ERR_NOT_FOUND
           | Some v \<Rightarrow> \<exists>off len. oemu_fdt_internal_find blob (path_of comps) n = Inr (off, len) \<and>
               off + len \<le> length blob \<and> take len (drop off blob) = v))) \<and>
    (\<forall>before fdt c e fdt'. run_calls before f1 = (OEMU_OK, fdt) \<and> run_call c fdt = (e, fdt') \<and> e \<noteq> OEMU_OK \<longrightarrow> fdt' = fdt)"
proof -
  let ?es = "Begin_Node '''' # map call_event cs"
  note i = init_event [OF init(1,2)]
  note r = run_calls_events [OF i(1) calls(1)]
  have "struct_block f2 = struct_of 0 ?es" "string_block f2 = names_of ?es"
    using r(3,4) i(3,5,6) by (simp_all add: names_of_def)
  note b = finish_blob [OF r(1) finish this]
  have ok: "list_all event_ok ?es" using calls(2) by (simp add: list_all_iff)
  have l: "length (blob_of ?es) < 2 ^ 32" using b(4) r(2) i(2) init(3) by simp
  have "answers (blob_of ?es) root" using blob_answers [OF _ ok tree(2) l] tree(1) by simp
  then have a: "case tree_lookup comps n root of
       None \<Rightarrow> oemu_fdt_internal_find (blob_of ?es) (path_of comps) n = Inl OEMU_ERR_NOT_FOUND
     | Some v \<Rightarrow> \<exists>off len. oemu_fdt_internal_find (blob_of ?es) (path_of comps) n = Inr (off, len) \<and>
         off + len \<le> length (blob_of ?es) \<and> take len (drop off (blob_of ?es)) = v" if "list_all component_ok comps" for comps n
    using that unfolding answers_def found_def by (fastforce split: option.splits sum.splits)
  have "\<forall>before fdt c e fdt'. run_calls before f1 = (OEMU_OK, fdt) \<and> run_call c fdt = (e, fdt') \<and> e \<noteq> OEMU_OK \<longrightarrow> fdt' = fdt"
    using run_calls_events(1) [OF i(1)] run_call_event by (metis (full_types))
  then show ?thesis using a b(1,2) blob_reads(1) [OF l ok] by auto
qed

text \<open>The one call that is not all or nothing: when the blob cannot be allocated, finishing has already
  emitted the end token, and a retry emits another.\<close>

lemma finish_refused_emits:
  assumes "fdt_inv fdt" "fd_depth fdt = 0" "fdt_fits fdt FDT_TOKEN_SIZE 0"
  shows "\<exists>fdt'. oemu_fdt_finish False fdt = (OEMU_ERR_NO_MEMORY, fdt') \<and> fd_sb_used fdt' = fd_sb_used fdt + 4"
  using assms by (auto simp: oemu_fdt_finish_def fdt_inv_def Let_def fdt_emit_token_def fdt_emit_raw_def)

text \<open>A tree with one node below the root.\<close>

definition sample_calls :: "fdt_call list" where
  "sample_calls = [Call_U32 ''#address-cells'' 2, Call_Begin ''chosen'', Call_Str ''bootargs'' ''quiet'', Call_End, Call_End]"

lemma sample_build:
  "\<exists>f1 f2 f3. oemu_fdt_init (Some (replicate 512 0)) 256 zero_fdt = (OEMU_OK, f1) \<and>
     run_calls sample_calls f1 = (OEMU_OK, f2) \<and> oemu_fdt_finish True f2 = (OEMU_OK, f3)"
  by (simp add: oemu_fdt_init_def zero_fdt_def oemu_fdt_begin_node_def fdt_require_emitting_def fdt_fits_def fdt_pad4_def fdt_emit_token_def
      fdt_emit_raw_def sample_calls_def oemu_fdt_prop_u32_def guarded_def fdt_prop_guard_def fdt_intern_def fdt_prop_emit_def
      oemu_fdt_prop_str_def oemu_fdt_end_node_def oemu_fdt_finish_def Let_def)

text \<open>The same as a tree.\<close>

definition sample_tree :: "fdt_item list" where
  "sample_tree = [Prop ''#address-cells'' (cells_bytes [2]), Node ''chosen'' [Prop ''bootargs'' (strings_bytes [''quiet''])]]"

theorem fdt_roundtrip_witness:
  "\<exists>f1 f2 f3 blob off len. oemu_fdt_init (Some (replicate 512 0)) 256 zero_fdt = (OEMU_OK, f1) \<and> run_calls sample_calls f1 = (OEMU_OK, f2) \<and>
     oemu_fdt_finish True f2 = (OEMU_OK, f3) \<and> oemu_fdt_bytes f3 = Some blob \<and>
     oemu_fdt_internal_find blob ''/chosen'' ''bootargs'' = Inr (off, len) \<and> take len (drop off blob) = c_bytes ''quiet'' @ [0] \<and>
     oemu_fdt_internal_find blob ''/'' ''bootargs'' = Inl OEMU_ERR_NOT_FOUND \<and>
     oemu_fdt_internal_find blob ''/chosen/chosen'' ''bootargs'' = Inl OEMU_ERR_NOT_FOUND"
proof -
  obtain f1 f2 f3 where f: "oemu_fdt_init (Some (replicate 512 0)) 256 zero_fdt = (OEMU_OK, f1)" "run_calls sample_calls f1 = (OEMU_OK, f2)"
    "oemu_fdt_finish True f2 = (OEMU_OK, f3)" using sample_build by blast
  have ok: "list_all (event_ok \<circ> call_event) sample_calls" by (simp add: sample_calls_def c_bytes_def)
  have t: "map call_event sample_calls = tree_events sample_tree @ [End_Node]" "tree_height sample_tree < 32"
    by (simp_all add: sample_calls_def sample_tree_def)
  have l: "length (replicate 512 0 :: u8 list) = 2 * 256" "(256 + 56 :: nat) < 2 ^ 32" by simp_all
  have look: "tree_lookup [''chosen''] ''bootargs'' sample_tree = Some (c_bytes ''quiet'' @ [0])" "tree_lookup [] ''bootargs'' sample_tree = None"
    "tree_lookup [''chosen'', ''chosen''] ''bootargs'' sample_tree = None"
    by (simp_all add: tree_lookup_def sample_tree_def children_def props_of_def strings_bytes_def)
  have c: "list_all component_ok [''chosen'']" "list_all component_ok []" "list_all component_ok [''chosen'', ''chosen'']"
    "path_of [''chosen''] = ''/chosen''" "path_of [] = ''/''" "path_of [''chosen'', ''chosen''] = ''/chosen/chosen''"
    by (simp_all add: component_ok_def path_of_def)
  from fdt_roundtrip [OF f(1) l f(2) ok t f(3)] obtain blob where b: "oemu_fdt_bytes f3 = Some blob"
    "\<And>comps n. list_all component_ok comps \<Longrightarrow>
       (case tree_lookup comps n sample_tree of
          None \<Rightarrow> oemu_fdt_internal_find blob (path_of comps) n = Inl OEMU_ERR_NOT_FOUND
        | Some v \<Rightarrow> \<exists>off len. oemu_fdt_internal_find blob (path_of comps) n = Inr (off, len) \<and>
            off + len \<le> length blob \<and> take len (drop off blob) = v)" by blast
  from b(2) [OF c(1), of "''bootargs''"] b(2) [OF c(2), of "''bootargs''"] b(2) [OF c(3), of "''bootargs''"] f b(1) show ?thesis
    unfolding look c by auto
qed

end
