(* ===== verification/Oemu_Virt_Dtb.thy ===== *)
theory Oemu_Virt_Dtb
  imports Oemu_Fdt
begin

text \<open>
  The device tree of the \<^verbatim>\<open>virt\<close> machine (\<^verbatim>\<open>src/dev/virt_dtb.c\<close>): one function per node, each a sequence
  of builder calls that returns at the first refusal, and the build that chains them and finishes the
  blob. The one formatted name goes through a model of the \<^verbatim>\<open>%llx\<close> conversion.

  The property says exactly when the build succeeds and what a reader of the finished blob finds.
\<close>

section \<open>Parameters and helpers\<close>

abbreviation (input) VIRT_UART_BASE :: u64 where "VIRT_UART_BASE \<equiv> 0x09000000"
abbreviation (input) VIRT_UART_SIZE :: u64 where "VIRT_UART_SIZE \<equiv> 0x00001000"
abbreviation (input) VIRT_GIC_DIST :: u32 where "VIRT_GIC_DIST \<equiv> 0x08000000"
abbreviation (input) VIRT_GIC_CPU :: u32 where "VIRT_GIC_CPU \<equiv> 0x08010000"
abbreviation (input) VIRT_GIC_SIZE :: u32 where "VIRT_GIC_SIZE \<equiv> 0x00010000"
abbreviation (input) VIRT_PL011_CLK :: u32 where "VIRT_PL011_CLK \<equiv> 0x017D7840"
abbreviation (input) PHANDLE_INTC :: u32 where "PHANDLE_INTC \<equiv> 1"
abbreviation (input) PHANDLE_OSC :: u32 where "PHANDLE_OSC \<equiv> 2"

definition VIRT_DEFAULT_CMDLINE :: string where
  "VIRT_DEFAULT_CMDLINE = ''console=ttyAMA0 earlycon=pl011,0x9000000 panic=-1''"

text \<open>The seed is the buffer of \<^verbatim>\<open>rng_seed_len\<close> bytes at \<^verbatim>\<open>rng_seed\<close>.\<close>

record oemu_virt_dtb_params =
  vp_ram_base :: u64
  vp_ram_size :: u64
  vp_initrd_start :: u64
  vp_initrd_end :: u64
  vp_cmdline :: "string option"
  vp_rng_seed :: "u8 list option"

text \<open>The \<^verbatim>\<open>%llx\<close> conversion of \<^verbatim>\<open>snprintf\<close>.\<close>

fun hex :: "nat \<Rightarrow> string" where
  "hex n = (if n < 16 then [''0123456789abcdef'' ! n] else hex (n div 16) @ [''0123456789abcdef'' ! (n mod 16)])"

declare hex.simps [simp del]

definition memory_name :: "oemu_virt_dtb_params \<Rightarrow> string" where
  "memory_name p = ''memory@'' @ hex (unat (vp_ram_base p))"

definition then_ok :: "oemu_status \<times> oemu_fdt \<Rightarrow> (oemu_fdt \<Rightarrow> oemu_status \<times> oemu_fdt) \<Rightarrow> oemu_status \<times> oemu_fdt" where
  "then_ok r f = (case r of (st, fdt) \<Rightarrow> if st \<noteq> OEMU_OK then (st, fdt) else f fdt)"

definition prop_reg64 :: "string \<Rightarrow> u64 \<Rightarrow> u64 \<Rightarrow> fdt_call" where
  "prop_reg64 name addr sz = Call_Cells name [ucast (drop_bit 32 addr), ucast addr, ucast (drop_bit 32 sz), ucast sz]"

definition prop_irq :: "string \<Rightarrow> u32 list \<Rightarrow> fdt_call" where
  "prop_irq name spec = Call_Cells name spec"

section \<open>The nodes\<close>

definition chosen_calls :: "oemu_virt_dtb_params \<Rightarrow> fdt_call list" where
  "chosen_calls p =
     ([Call_Begin ''chosen'',
       Call_Str ''bootargs'' (case vp_cmdline p of Some c \<Rightarrow> c | None \<Rightarrow> VIRT_DEFAULT_CMDLINE),
       Call_U64 ''linux,initrd-start'' (vp_initrd_start p),
       Call_U64 ''linux,initrd-end'' (vp_initrd_end p),
       Call_Str ''stdout-path'' ''/pl011@9000000''] @
      (case vp_rng_seed p of Some s \<Rightarrow> if length s \<noteq> 0 then [Call_Bytes ''rng-seed'' s] else [] | None \<Rightarrow> []) @
      [Call_End])"

definition emit_chosen :: "oemu_fdt \<Rightarrow> oemu_virt_dtb_params \<Rightarrow> oemu_status \<times> oemu_fdt" where
  "emit_chosen fdt p = run_calls (chosen_calls p) fdt"

definition root_props_calls :: "fdt_call list" where
  "root_props_calls =
     [Call_U32 ''#address-cells'' 2, Call_U32 ''#size-cells'' 2, Call_Str ''compatible'' ''linux,dummy-virt'',
      Call_Str ''model'' ''oemu-virt'', Call_U32 ''interrupt-parent'' PHANDLE_INTC]"

definition emit_root_props :: "oemu_fdt \<Rightarrow> oemu_status \<times> oemu_fdt" where
  "emit_root_props fdt = run_calls root_props_calls fdt"

definition psci_calls :: "fdt_call list" where
  "psci_calls =
     [Call_Begin ''psci'', Call_Str ''compatible'' ''arm,psci-1.0'', Call_Str ''method'' ''smc'',
      Call_U32 ''cpu_on'' 0xC4000003, Call_U32 ''cpu_off'' 0x84000002, Call_U32 ''cpu_suspend'' 0xC4000001,
      Call_U32 ''migrate'' 0xC4000005, Call_End]"

definition emit_psci :: "oemu_fdt \<Rightarrow> oemu_status \<times> oemu_fdt" where
  "emit_psci fdt = run_calls psci_calls fdt"

definition memory_calls :: "oemu_virt_dtb_params \<Rightarrow> fdt_call list" where
  "memory_calls p =
     [Call_Begin (memory_name p), Call_Str ''device_type'' ''memory'',
      prop_reg64 ''reg'' (vp_ram_base p) (vp_ram_size p), Call_End]"

definition emit_memory :: "oemu_fdt \<Rightarrow> oemu_virt_dtb_params \<Rightarrow> oemu_status \<times> oemu_fdt" where
  "emit_memory fdt p = run_calls (memory_calls p) fdt"

definition cpus_calls :: "fdt_call list" where
  "cpus_calls =
     [Call_Begin ''cpus'', Call_U32 ''#address-cells'' 1, Call_U32 ''#size-cells'' 0,
      Call_Begin ''cpu@0'', Call_Str ''device_type'' ''cpu'', Call_Str ''compatible'' ''arm,cortex-a53'',
      Call_Str ''enable-method'' ''psci'', Call_U32 ''reg'' 0, Call_End, Call_End]"

definition emit_cpus :: "oemu_fdt \<Rightarrow> oemu_status \<times> oemu_fdt" where
  "emit_cpus fdt = run_calls cpus_calls fdt"

definition intc_calls :: "fdt_call list" where
  "intc_calls =
     [Call_Begin ''interrupt-controller@8000000'', Call_Str ''compatible'' ''arm,cortex-a15-gic'',
      Call_Cells ''reg'' [0, VIRT_GIC_DIST, 0, VIRT_GIC_SIZE, 0, VIRT_GIC_CPU, 0, VIRT_GIC_SIZE],
      Call_U32 ''#interrupt-cells'' 3, Call_Empty ''interrupt-controller'', Call_U32 ''phandle'' PHANDLE_INTC, Call_End]"

definition emit_intc :: "oemu_fdt \<Rightarrow> oemu_status \<times> oemu_fdt" where
  "emit_intc fdt = run_calls intc_calls fdt"

definition timer_calls :: "fdt_call list" where
  "timer_calls =
     [Call_Begin ''timer'', Call_Str ''compatible'' ''arm,armv8-timer'',
      prop_irq ''interrupts'' [1, 13, 0xf04, 1, 14, 0xf04, 1, 11, 0xf04, 1, 10, 0xf04], Call_Empty ''always-on'', Call_End]"

definition emit_timer :: "oemu_fdt \<Rightarrow> oemu_status \<times> oemu_fdt" where
  "emit_timer fdt = run_calls timer_calls fdt"

definition osc_calls :: "fdt_call list" where
  "osc_calls =
     [Call_Begin ''oscillator'', Call_Str ''compatible'' ''fixed-clock'', Call_U32 ''#clock-cells'' 0,
      Call_U32 ''clock-frequency'' VIRT_PL011_CLK, Call_U32 ''phandle'' PHANDLE_OSC, Call_End]"

definition emit_osc :: "oemu_fdt \<Rightarrow> oemu_status \<times> oemu_fdt" where
  "emit_osc fdt = run_calls osc_calls fdt"

definition pl011_calls :: "fdt_call list" where
  "pl011_calls =
     [Call_Begin ''pl011@9000000'', Call_Strv ''compatible'' [''arm,pl011'', ''arm,primecell''],
      prop_reg64 ''reg'' VIRT_UART_BASE VIRT_UART_SIZE, prop_irq ''interrupts'' [0, 1, 4],
      Call_Cells ''clocks'' [PHANDLE_OSC, PHANDLE_OSC], Call_Strv ''clock-names'' [''uartclk'', ''apb_pclk''], Call_End]"

definition emit_pl011 :: "oemu_fdt \<Rightarrow> oemu_status \<times> oemu_fdt" where
  "emit_pl011 fdt = run_calls pl011_calls fdt"

definition aliases_calls :: "fdt_call list" where
  "aliases_calls =
     [Call_Begin ''aliases'', Call_Str ''serial0'' ''/pl011@9000000'', Call_End]"

definition emit_aliases :: "oemu_fdt \<Rightarrow> oemu_status \<times> oemu_fdt" where
  "emit_aliases fdt = run_calls aliases_calls fdt"

definition oemu_virt_dtb_build :: "bool \<Rightarrow> oemu_fdt \<Rightarrow> oemu_virt_dtb_params \<Rightarrow> oemu_status \<times> oemu_fdt" where
  "oemu_virt_dtb_build blob_alloc fdt params =
     then_ok (emit_root_props fdt) (\<lambda>fdt.
     then_ok (emit_chosen fdt params) (\<lambda>fdt.
     then_ok (emit_aliases fdt) (\<lambda>fdt.
     then_ok (emit_psci fdt) (\<lambda>fdt.
     then_ok (emit_memory fdt params) (\<lambda>fdt.
     then_ok (emit_cpus fdt) (\<lambda>fdt.
     then_ok (emit_intc fdt) (\<lambda>fdt.
     then_ok (emit_timer fdt) (\<lambda>fdt.
     then_ok (emit_osc fdt) (\<lambda>fdt.
     then_ok (emit_pl011 fdt) (\<lambda>fdt.
     then_ok (oemu_fdt_end_node fdt) (\<lambda>fdt.
     oemu_fdt_finish blob_alloc fdt)))))))))))"

lemmas emit_defs = emit_root_props_def emit_chosen_def emit_aliases_def emit_psci_def emit_memory_def emit_cpus_def
  emit_intc_def emit_timer_def emit_osc_def emit_pl011_def

lemmas calls_defs = root_props_calls_def chosen_calls_def aliases_calls_def psci_calls_def memory_calls_def cpus_calls_def
  intc_calls_def timer_calls_def osc_calls_def pl011_calls_def prop_reg64_def prop_irq_def

section \<open>The calls of a build\<close>

lemma then_ok_calls: "then_ok (run_calls cs fdt) (run_calls ds) = run_calls (cs @ ds) fdt"
  by (induction cs arbitrary: fdt) (simp_all add: then_ok_def split: prod.split)

lemma then_ok_assoc: "then_ok (run_calls cs fdt) (\<lambda>fdt. then_ok (run_calls ds fdt) f) = then_ok (run_calls (cs @ ds) fdt) f"
  unfolding then_ok_calls [symmetric] by (simp add: then_ok_def split: prod.split)

lemma end_node_call: "oemu_fdt_end_node fdt = run_calls [Call_End] fdt"
  by (simp split: prod.split)

definition virt_calls :: "oemu_virt_dtb_params \<Rightarrow> fdt_call list" where
  "virt_calls p = root_props_calls @ chosen_calls p @ aliases_calls @ psci_calls @ memory_calls p @ cpus_calls @ intc_calls @
     timer_calls @ osc_calls @ pl011_calls @ [Call_End]"

lemma build_calls: "oemu_virt_dtb_build a fdt p = then_ok (run_calls (virt_calls p) fdt) (oemu_fdt_finish a)"
  unfolding oemu_virt_dtb_build_def emit_defs end_node_call then_ok_assoc virt_calls_def
  by (simp add: then_ok_def)

section \<open>What the tree says\<close>

definition words_of :: "u64 list \<Rightarrow> u8 list" where
  "words_of vs = cells_bytes (concat (map (\<lambda>v. [ucast (drop_bit 32 v), ucast v]) vs))"

text \<open>The whole tree of the machine, written out: every node and every property with its bytes.\<close>

definition seed_of :: "oemu_virt_dtb_params \<Rightarrow> u8 list" where
  "seed_of p = (case vp_rng_seed p of Some s \<Rightarrow> s | None \<Rightarrow> [])"

definition virt_tree :: "oemu_virt_dtb_params \<Rightarrow> fdt_item list" where
  "virt_tree p =
     [Prop ''#address-cells'' (cells_bytes [2]),
      Prop ''#size-cells'' (cells_bytes [2]),
      Prop ''compatible'' (strings_bytes [''linux,dummy-virt'']),
      Prop ''model'' (strings_bytes [''oemu-virt'']),
      Prop ''interrupt-parent'' (cells_bytes [1]),
      Node ''chosen''
        ([Prop ''bootargs'' (strings_bytes [case vp_cmdline p of Some c \<Rightarrow> c | None \<Rightarrow> ''console=ttyAMA0 earlycon=pl011,0x9000000 panic=-1'']),
          Prop ''linux,initrd-start'' (words_of [vp_initrd_start p]),
          Prop ''linux,initrd-end'' (words_of [vp_initrd_end p]),
          Prop ''stdout-path'' (strings_bytes [''/pl011@9000000''])] @
         (if seed_of p = [] then [] else [Prop ''rng-seed'' (seed_of p)])),
      Node ''aliases''
        [Prop ''serial0'' (strings_bytes [''/pl011@9000000''])],
      Node ''psci''
        [Prop ''compatible'' (strings_bytes [''arm,psci-1.0'']),
         Prop ''method'' (strings_bytes [''smc'']),
         Prop ''cpu_on'' (cells_bytes [0xC4000003]),
         Prop ''cpu_off'' (cells_bytes [0x84000002]),
         Prop ''cpu_suspend'' (cells_bytes [0xC4000001]),
         Prop ''migrate'' (cells_bytes [0xC4000005])],
      Node (''memory@'' @ hex (unat (vp_ram_base p)))
        [Prop ''device_type'' (strings_bytes [''memory'']),
         Prop ''reg'' (words_of [vp_ram_base p, vp_ram_size p])],
      Node ''cpus''
        [Prop ''#address-cells'' (cells_bytes [1]),
         Prop ''#size-cells'' (cells_bytes [0]),
         Node ''cpu@0''
           [Prop ''device_type'' (strings_bytes [''cpu'']),
            Prop ''compatible'' (strings_bytes [''arm,cortex-a53'']),
            Prop ''enable-method'' (strings_bytes [''psci'']),
            Prop ''reg'' (cells_bytes [0])]],
      Node ''interrupt-controller@8000000''
        [Prop ''compatible'' (strings_bytes [''arm,cortex-a15-gic'']),
         Prop ''reg'' (words_of [0x08000000, 0x10000, 0x08010000, 0x10000]),
         Prop ''#interrupt-cells'' (cells_bytes [3]),
         Prop ''interrupt-controller'' [],
         Prop ''phandle'' (cells_bytes [1])],
      Node ''timer''
        [Prop ''compatible'' (strings_bytes [''arm,armv8-timer'']),
         Prop ''interrupts'' (cells_bytes [1, 13, 0xf04, 1, 14, 0xf04, 1, 11, 0xf04, 1, 10, 0xf04]),
         Prop ''always-on'' []],
      Node ''oscillator''
        [Prop ''compatible'' (strings_bytes [''fixed-clock'']),
         Prop ''#clock-cells'' (cells_bytes [0]),
         Prop ''clock-frequency'' (cells_bytes [25000000]),
         Prop ''phandle'' (cells_bytes [2])],
      Node ''pl011@9000000''
        [Prop ''compatible'' (strings_bytes [''arm,pl011'', ''arm,primecell'']),
         Prop ''reg'' (words_of [0x09000000, 0x1000]),
         Prop ''interrupts'' (cells_bytes [0, 1, 4]),
         Prop ''clocks'' (cells_bytes [2, 2]),
         Prop ''clock-names'' (strings_bytes [''uartclk'', ''apb_pclk''])]]"

definition virt_events :: "oemu_virt_dtb_params \<Rightarrow> fdt_event list" where
  "virt_events p = Begin_Node '''' # map call_event (virt_calls p)"

lemma hex_chars: "set (hex n) \<subseteq> set ''0123456789abcdef''"
proof (induction n rule: hex.induct)
  case (1 n)
  have "''0123456789abcdef'' ! (k mod 16) \<in> set ''0123456789abcdef''" for k :: nat by (rule nth_mem) simp
  from this [of n] 1 show ?case by (subst hex.simps) auto
qed

lemma hex_length: "n < 16 ^ Suc k \<Longrightarrow> length (hex n) \<le> Suc k"
proof (induction k arbitrary: n)
  case (Suc k)
  then have "n div 16 < 16 ^ Suc k" by (simp add: less_mult_imp_div_less)
  from Suc.IH [OF this] show ?case by (subst hex.simps) simp
qed (simp add: hex.simps)

lemma no_terminator: "0 \<in> set (c_bytes s) \<longleftrightarrow> CHR 0x00 \<in> set s"
proof -
  have "(of_char c :: u8) = 0 \<longleftrightarrow> c = CHR 0x00" for c
    using c_bytes_inject [of "[c]" "[CHR 0x00]"] by (simp add: c_bytes_def)
  then show ?thesis by (force simp: c_bytes_def)
qed

lemma memory_name_facts:
  "length (memory_name p) \<le> 23" "0 \<notin> set (c_bytes (memory_name p))"
proof -
  have "unat (vp_ram_base p) < 16 ^ Suc 15" using unsigned_less [of "vp_ram_base p", where 'a = nat] by simp
  from hex_length [OF this] show "length (memory_name p) \<le> 23" by (simp add: memory_name_def)
  show "0 \<notin> set (c_bytes (memory_name p))"
    using hex_chars [of "unat (vp_ram_base p)"] unfolding no_terminator memory_name_def by auto
qed

text \<open>The optional seed.\<close>

abbreviation seed_calls :: "oemu_virt_dtb_params \<Rightarrow> fdt_call list" where
  "seed_calls p \<equiv> (case vp_rng_seed p of Some s \<Rightarrow> if length s \<noteq> 0 then [Call_Bytes ''rng-seed'' s] else [] | None \<Rightarrow> [])"

text \<open>The calls of the build spell the tree out.\<close>

lemma seed_event: "map call_event (seed_calls p) = tree_events (if seed_of p = [] then [] else [Prop ''rng-seed'' (seed_of p)])"
  by (simp add: seed_of_def split: option.split)

lemma virt_events_tree: "virt_events p = Begin_Node '''' # tree_events (virt_tree p) @ [End_Node]"
  unfolding virt_events_def virt_calls_def calls_defs virt_tree_def VIRT_DEFAULT_CMDLINE_def map_append list.map concat_append call_event.simps item_events.simps seed_event
  by (simp add: words_of_def memory_name_def)

lemma virt_tree_height: "tree_height (virt_tree p) < 32"
  by (simp add: virt_tree_def tree_height_def)

section \<open>The finished tree\<close>

definition virt_room :: "oemu_virt_dtb_params \<Rightarrow> nat" where
  "virt_room p = 1565 + fdt_pad4 (length (case vp_cmdline p of Some c \<Rightarrow> c | None \<Rightarrow> VIRT_DEFAULT_CMDLINE) + 1) +
     fdt_pad4 (length (memory_name p) + 1) + (if seed_of p = [] then 0 else 21 + fdt_pad4 (length (seed_of p)))"

lemma seed_events:
  "events_room (map call_event (seed_calls p)) = (if seed_of p = [] then 0 else 21 + fdt_pad4 (length (seed_of p)))"
  "events_ready d (map call_event (seed_calls p) @ es) \<longleftrightarrow> (seed_of p = [] \<or> 0 < d) \<and> events_ready d es"
  "sum_list (map (event_depth \<circ> call_event) (seed_calls p)) = 0" "list_all event_ok (map call_event (seed_calls p))"
  using pad4_ge(1) [of "length (seed_of p)"]
  by (auto simp: seed_of_def no_terminator max_absorb1 split: option.split)

lemma fixed_room:
  "events_room (map call_event root_props_calls) = 165" "events_room (map call_event aliases_calls) = 52"
  "events_room (map call_event psci_calls) = 177" "events_room (map call_event cpus_calls) = 212"
  "events_room (map call_event intc_calls) = 221" "events_room (map call_event timer_calls) = 148"
  "events_room (map call_event osc_calls) = 140" "events_room (map call_event pl011_calls) = 209"
  by code_simp+

lemma str_room: "max (fdt_pad4 n) n = fdt_pad4 n" "max (fdt_pad4 (Suc n)) n = fdt_pad4 (Suc n)" "length (strings_bytes [v]) = Suc (length v)"
  using pad4_ge(1) [of n] pad4_ge(1) [of "Suc n"] by (simp_all add: strings_bytes_def)

lemma fixed_pads: "fdt_pad4 (Suc (Suc (Suc (Suc n)))) = 4 + fdt_pad4 n" "fdt_pad4 (Suc (Suc (Suc 0))) = 4" "fdt_pad4 8 = 8" "fdt_pad4 16 = 16"
  unfolding fdt_pad4_def by presburger+

lemma chosen_room:
  "events_room (map call_event (chosen_calls p)) =
     153 + fdt_pad4 (length (case vp_cmdline p of Some c \<Rightarrow> c | None \<Rightarrow> VIRT_DEFAULT_CMDLINE) + 1) +
     (if seed_of p = [] then 0 else 21 + fdt_pad4 (length (seed_of p)))"
  unfolding chosen_calls_def map_append room_simps seed_events(1)
  by (simp add: str_room fixed_pads)

lemma memory_room: "events_room (map call_event (memory_calls p)) = 72 + fdt_pad4 (length (memory_name p) + 1)"
  by (simp add: memory_calls_def prop_reg64_def str_room fixed_pads)

lemma virt_events_room: "events_room (virt_events p) + 4 = virt_room p"
  unfolding virt_events_def virt_calls_def virt_room_def map_append room_simps fixed_room chosen_room memory_room
  by (simp add: fdt_pad4_def)

lemma virt_events_shape:
  "events_ready 1 (map call_event (virt_calls p))" "sum_list (map (event_depth \<circ> call_event) (virt_calls p)) = - 1"
  "list_all event_ok (virt_events p)"
  using memory_name_facts [of p] unfolding virt_events_def virt_calls_def calls_defs
  by (simp_all add: seed_events no_terminator)

lemma build_outcome:
  assumes init: "oemu_fdt_init (Some sb) cap f0 = (OEMU_OK, f1)" "length sb = 2 * cap"
    and build: "oemu_virt_dtb_build True f1 p = (st, f)"
  shows "st = (if virt_room p \<le> cap then OEMU_OK else OEMU_ERR_NO_MEMORY)"
    "st = OEMU_OK \<Longrightarrow> oemu_fdt_bytes f = Some (blob_of (virt_events p)) \<and> oemu_fdt_length f = length (blob_of (virt_events p))"
proof -
  note i = init_event [OF init]
  obtain st2 f2 where r: "run_calls (virt_calls p) f1 = (st2, f2)" by fastforce
  have used: "fd_sb_used f1 = 8" using block_lengths(1) [OF i(1)] i(5) by (simp add: fdt_pad4_def)
  have total: "events_room (map call_event (virt_calls p)) + 12 = virt_room p"
    using virt_events_room [of p] by (simp add: virt_events_def fdt_pad4_def)
  have st2: "st2 = (if events_room (map call_event (virt_calls p)) + 8 \<le> cap then OEMU_OK else OEMU_ERR_NO_MEMORY)"
    using run_calls_room [OF i(1), of "virt_calls p"] virt_events_shape(1) i r used by (simp add: add.commute)
  have "st = (if virt_room p \<le> cap then OEMU_OK else OEMU_ERR_NO_MEMORY) \<and>
    (st = OEMU_OK \<longrightarrow> oemu_fdt_bytes f = Some (blob_of (virt_events p)) \<and> oemu_fdt_length f = length (blob_of (virt_events p)))"
  proof (cases "st2 = OEMU_OK")
    case True
    note e = run_calls_events [OF i(1) r [unfolded True]]
    have b: "struct_block f2 = struct_of 0 (virt_events p)" "string_block f2 = names_of (virt_events p)"
      using e(3,4) i(3,5,6) by (simp_all add: virt_events_def names_of_def)
    have fin: "oemu_fdt_finish True f2 = (st, f)" using build r True by (simp add: build_calls then_ok_def)
    have "fd_sb_used f2 + fd_str_len f2 = events_room (virt_events p)"
      using block_lengths [OF e(1)] b events_room [of 0 "virt_events p"] by simp
    moreover have "fd_depth f2 = 0" using e(5) i(4) virt_events_shape(2) [of p] by simp
    ultimately have "st = (if virt_room p \<le> cap then OEMU_OK else OEMU_ERR_NO_MEMORY)"
      using finish_room [OF e(1)] fin virt_events_room [of p] e(2) i(2) by simp
    with finish_blob [OF e(1) _ b] fin show ?thesis by simp
  next
    case False
    then have "st = st2" using build r by (simp add: build_calls then_ok_def)
    with False st2 total show ?thesis by (simp split: if_splits)
  qed
  then show "st = (if virt_room p \<le> cap then OEMU_OK else OEMU_ERR_NO_MEMORY)"
    "st = OEMU_OK \<Longrightarrow> oemu_fdt_bytes f = Some (blob_of (virt_events p)) \<and> oemu_fdt_length f = length (blob_of (virt_events p))" by simp_all
qed

lemma length_virt_blob: "length (blob_of (virt_events p)) = virt_room p + 56"
  using events_room [of 0 "virt_events p"] virt_events_room [of p] by (simp add: blob_of_def Let_def)

lemma virt_answers: "virt_room p + 56 < 2 ^ 32 \<Longrightarrow> answers (blob_of (virt_events p)) (virt_tree p)"
  by (rule blob_answers [OF virt_events_tree virt_events_shape(3) virt_tree_height]) (simp add: length_virt_blob)

text \<open>
  Property C18. The device tree of the machine. On a freshly initialised builder the build succeeds when the
  blob, a fixed 1621 bytes and the padded command line, memory node name and seed, fits the limit; it is
  refused for want of memory when its blocks alone exceed the limit, and nothing else happens. After a
  success the blob has that size, its total size word says so, and to every path and property name the
  reader answers what a lookup in the tree gives, which is written out node by node with every property: the memory node named after the
  base with the base and size of the RAM, the command line or the default one, the bounds of the initial
  RAM disk, the seed if one was given, the interrupt controller whose handle the root refers to, the timer,
  the clock and the console. What the tree does not have is not found.
\<close>

theorem virt_dtb_build_reads:
  assumes "oemu_fdt_init (Some sb) cap f0 = (OEMU_OK, f1)" "length sb = 2 * cap" "cap + 56 < 2 ^ 32"
    and "oemu_virt_dtb_build True f1 p = (st, f)"
  shows "(virt_room p + 56 \<le> cap \<longrightarrow> st = OEMU_OK) \<and> (cap < virt_room p \<longrightarrow> st = OEMU_ERR_NO_MEMORY) \<and> st \<in> {OEMU_OK, OEMU_ERR_NO_MEMORY} \<and>
    (st = OEMU_OK \<longrightarrow> (\<exists>blob. oemu_fdt_bytes f = Some blob \<and> oemu_fdt_length f = length blob \<and> length blob = virt_room p + 56 \<and>
       oemu_fdt_internal_total_size blob = Inr (length blob) \<and>
       (\<forall>comps n. list_all component_ok comps \<longrightarrow>
          (case tree_lookup comps n (virt_tree p) of
             None \<Rightarrow> oemu_fdt_internal_find blob (path_of comps) n = Inl OEMU_ERR_NOT_FOUND
           | Some v \<Rightarrow> found blob (path_of comps) n v))))"
proof -
  note o = build_outcome [OF assms(1,2,4)]
  let ?b = "blob_of (virt_events p)"
  have "oemu_fdt_internal_total_size ?b = Inr (length ?b)" "answers ?b (virt_tree p)" if "st = OEMU_OK"
  proof -
    have l: "virt_room p + 56 < 2 ^ 32" using that o(1) assms(3) by (simp split: if_splits)
    then show "answers ?b (virt_tree p)" by (rule virt_answers)
    show "oemu_fdt_internal_total_size ?b = Inr (length ?b)"
      using blob_reads(1) [OF _ virt_events_shape(3)] l length_virt_blob [of p] by simp
  qed
  then show ?thesis using o length_virt_blob [of p] unfolding answers_def by auto
qed

text \<open>The limit is one on the two blocks: a tree that just fits makes a blob that is the header longer.\<close>

lemma build_over_limit:
  assumes "oemu_fdt_init (Some sb) (virt_room p) f0 = (OEMU_OK, f1)" "length sb = 2 * virt_room p"
    and "oemu_virt_dtb_build True f1 p = (st, f)"
  shows "st = OEMU_OK \<and> oemu_fdt_length f = virt_room p + 56"
  using build_outcome [OF assms] length_virt_blob [of p] by simp

definition sample_params :: oemu_virt_dtb_params where
  "sample_params = \<lparr>vp_ram_base = 0x40000000, vp_ram_size = 0x40000000, vp_initrd_start = 0x70000000, vp_initrd_end = 0x70001000,
     vp_cmdline = Some ''quiet'', vp_rng_seed = None\<rparr>"

lemma init_succeeds:
  assumes "FDT_MIN_CAP \<le> cap"
  shows "\<exists>f1. oemu_fdt_init (Some sb) cap f0 = (OEMU_OK, f1)"
  using assms by (simp add: oemu_fdt_init_def oemu_fdt_begin_node_def fdt_require_emitting_def fdt_fits_def zero_fdt_def fdt_pad4_def Let_def)

theorem virt_dtb_build_reads_witness:
  "\<exists>f1 f blob. oemu_fdt_init (Some (replicate 131072 0)) 65536 zero_fdt = (OEMU_OK, f1) \<and>
     oemu_virt_dtb_build True f1 sample_params = (OEMU_OK, f) \<and> oemu_fdt_bytes f = Some blob \<and>
     found blob ''/memory@40000000'' ''reg'' (cells_bytes [0, 0x40000000, 0, 0x40000000]) \<and>
     found blob ''/cpus/cpu@0'' ''enable-method'' (c_bytes ''psci'' @ [0]) \<and>
     oemu_fdt_internal_find blob ''/chosen'' ''rng-seed'' = Inl OEMU_ERR_NOT_FOUND"
proof -
  obtain f1 where i: "oemu_fdt_init (Some (replicate 131072 0)) 65536 zero_fdt = (OEMU_OK, f1)" using init_succeeds [of 65536] by auto
  obtain st f where b: "oemu_virt_dtb_build True f1 sample_params = (st, f)" by fastforce
  have l: "length (replicate 131072 0 :: u8 list) = 2 * 65536" "(65536 + 56 :: nat) < 2 ^ 32" by simp_all
  have room: "virt_room sample_params + 56 \<le> 65536"
    using memory_name_facts(1) [of sample_params] pad4_ge(2) [of "length (memory_name sample_params) + 1"]
    by (simp add: virt_room_def sample_params_def seed_of_def fdt_pad4_def)
  note look = tree_lookup_def virt_tree_def sample_params_def children_def props_of_def seed_of_def
  have r: "tree_lookup [''memory@40000000''] ''reg'' (virt_tree sample_params) = Some (cells_bytes [0, 0x40000000, 0, 0x40000000])"
    "tree_lookup [''cpus'', ''cpu@0''] ''enable-method'' (virt_tree sample_params) = Some (c_bytes ''psci'' @ [0])"
    "tree_lookup [''chosen''] ''rng-seed'' (virt_tree sample_params) = None"
    by (simp_all add: look hex.simps words_of_def strings_bytes_def)
  have c: "list_all component_ok [''memory@40000000'']" "list_all component_ok [''cpus'', ''cpu@0'']" "list_all component_ok [''chosen'']"
    "path_of [''memory@40000000''] = ''/memory@40000000''" "path_of [''cpus'', ''cpu@0''] = ''/cpus/cpu@0''" "path_of [''chosen''] = ''/chosen''"
    by (simp_all add: component_ok_def path_of_def)
  from virt_dtb_build_reads [OF i l b] room obtain blob where o: "st = OEMU_OK" "oemu_fdt_bytes f = Some blob"
    "\<And>comps n. list_all component_ok comps \<Longrightarrow> (case tree_lookup comps n (virt_tree sample_params) of
       None \<Rightarrow> oemu_fdt_internal_find blob (path_of comps) n = Inl OEMU_ERR_NOT_FOUND | Some v \<Rightarrow> found blob (path_of comps) n v)" by blast
  from o(3) [OF c(1), of "''reg''"] o(3) [OF c(2), of "''enable-method''"] o(3) [OF c(3), of "''rng-seed''"] o(1,2) i b show ?thesis
    unfolding r c by auto
qed

end
