(* ===== verification/Oemu_Boot_Run.thy ===== *)
theory Oemu_Boot_Run
  imports Oemu_Gicv2 Oemu_Pl011 Oemu_Psci Oemu_Machine
begin

text \<open>
  The run loop of the boot command (\<^verbatim>\<open>src/main.c\<close>): the devices of the machine behind its address space,
  the environment that joins firmware and machine events, the sampling of the interrupt lines, the
  console input and the loop itself. What the host's standard input answers is a script, one event per
  poll or read, and whether it is a terminal that \<^verbatim>\<open>boot_arm_stdin\<close> has put into raw mode is part of the
  console's state. Messages are left out.

  The lemmas show that the loop ends within its instruction budget when no console is attached, and with
  which status, that typed bytes reach the serial port in order with every loss counted, and that a typed
  byte interrupts a waiting guest.
\<close>

section \<open>The machine behind the bus\<close>

abbreviation (input) EXIT_ERROR :: u32 where "EXIT_ERROR \<equiv> 1"
abbreviation (input) EXIT_TIMEOUT :: u32 where "EXIT_TIMEOUT \<equiv> 3"
abbreviation (input) EXIT_BLOCKED :: u32 where "EXIT_BLOCKED \<equiv> 4"
abbreviation (input) BOOT_UART_SPI :: nat where "BOOT_UART_SPI \<equiv> 33"
abbreviation (input) BOOT_TIMER_PHYS_PPI :: nat where "BOOT_TIMER_PHYS_PPI \<equiv> 30"
abbreviation (input) BOOT_TIMER_VIRT_PPI :: nat where "BOOT_TIMER_VIRT_PPI \<equiv> 27"
abbreviation (input) BOOT_QUANTUM :: u64 where "BOOT_QUANTUM \<equiv> 1000000"
abbreviation (input) BOOT_LEVEL_QUANTUM :: nat where "BOOT_LEVEL_QUANTUM \<equiv> 64"
abbreviation (input) BOOT_HELD_MAX :: nat where "BOOT_HELD_MAX \<equiv> 256"

text \<open>The devices share one state; each is attached through the operations on its part of it.\<close>

record 'u boot_devices =
  bd_uart :: "'u oemu_pl011"
  bd_gic :: oemu_gicv2

definition uart_window :: "'u boot_devices oemu_device_ops" where
  "uart_window =
     \<lparr>dv_read = (\<lambda>d off sz. case dv_read pl011_ops (bd_uart d) off sz of (r, u) \<Rightarrow> (r, d\<lparr>bd_uart := u\<rparr>)),
      dv_write = (\<lambda>d off sz v. case dv_write pl011_ops (bd_uart d) off sz v of (r, u) \<Rightarrow> (r, d\<lparr>bd_uart := u\<rparr>))\<rparr>"

definition gic_window :: "oemu_gicv2 oemu_device_ops \<Rightarrow> 'u boot_devices oemu_device_ops" where
  "gic_window ops =
     \<lparr>dv_read = (\<lambda>d off sz. case dv_read ops (bd_gic d) off sz of (r, g) \<Rightarrow> (r, d\<lparr>bd_gic := g\<rparr>)),
      dv_write = (\<lambda>d off sz v. case dv_write ops (bd_gic d) off sz v of (r, g) \<Rightarrow> (r, d\<lparr>bd_gic := g\<rparr>))\<rparr>"

type_synonym 'u boot_space = "'u boot_devices space"

text \<open>The address space of the machine is the bus; the copy in the machine record is its region table,
  which does not change once the machine is built.\<close>

record 'u boot_env =
  be_machine :: "'u boot_devices oemu_machine"
  be_psci :: oemu_psci

definition boot_halted :: "'u boot_env \<Rightarrow> bool" where
  "boot_halted benv \<longleftrightarrow> oemu_machine_event_peek (be_machine benv) \<noteq> OEMU_MACHINE_EVENT_NONE \<or> ps_halted (be_psci benv)"

definition boot_fw_call :: "'u boot_env \<Rightarrow> bool \<Rightarrow> u16 \<Rightarrow> u64 list \<Rightarrow> u64 option \<times> 'u boot_env" where
  "boot_fw_call benv is_hvc imm args =
     (case oemu_psci_dispatch (be_psci benv) (args ! 0) of
        (None, psci) \<Rightarrow> (None, benv\<lparr>be_psci := psci\<rparr>)
      | (Some r0, psci) \<Rightarrow>
          let benv = benv\<lparr>be_psci := psci\<rparr>;
              benv = (if ps_halted psci then benv\<lparr>be_machine := oemu_machine_poweroff (be_machine benv) 0\<rparr> else benv);
              benv = (if ps_reset psci then benv\<lparr>be_machine := oemu_machine_reset (be_machine benv)\<rparr> else benv)
          in (Some r0, benv))"

definition boot_envops :: "('u boot_env, 'm) oemu_env_ops" where
  "boot_envops = \<lparr>env_syscall = None, env_halted = Some boot_halted, env_fw_call = Some boot_fw_call\<rparr>"

section \<open>Interrupt lines\<close>

definition boot_refresh_levels :: "oemu_vcpu \<Rightarrow> 'u boot_devices \<Rightarrow> oemu_vcpu \<times> 'u boot_devices" where
  "boot_refresh_levels vcpu d =
     (let sr = vc_sysregs vcpu;
          gic = oemu_gicv2_set_pending (bd_gic d) BOOT_UART_SPI (oemu_pl011_irq_level (bd_uart d));
          gic = oemu_gicv2_set_pending gic BOOT_TIMER_VIRT_PPI
                  (oemu_gtimer_pending (sr_cntvct sr - sr_cntvoff_el1 sr) (sr_cntv_ctl_el1 sr) (sr_cntv_cval_el1 sr));
          gic = oemu_gicv2_set_pending gic BOOT_TIMER_PHYS_PPI
                  (oemu_gtimer_pending (sr_cntvct sr) (sr_cntp_ctl_el1 sr) (sr_cntp_cval_el1 sr))
      in (oemu_vcpu_set_irq vcpu (oemu_gicv2_irq_level gic), d\<lparr>bd_gic := gic\<rparr>))"

definition refresh :: "oemu_vcpu \<Rightarrow> 'u boot_space \<Rightarrow> oemu_vcpu \<times> 'u boot_space" where
  "refresh vcpu = (\<lambda>(as, h, d). case boot_refresh_levels vcpu d of (vcpu, d) \<Rightarrow> (vcpu, as, h, d))"

section \<open>Console input\<close>

text \<open>What standard input answers: nothing at this instant, a byte, the end of the file, an interrupted
  or a failing read. A script that has run out is a closed input.\<close>

datatype stdin_event = Quiet | Typed u8 | Closed | Interrupted | Broken

record boot_console =
  cn_held :: "u8 list"
  cn_dropped :: u64
  cn_eof :: bool
  cn_stdin :: "stdin_event list"
  cn_raw :: bool

primrec boot_inject_held :: "'u oemu_pl011 \<Rightarrow> u8 list \<Rightarrow> 'u oemu_pl011 \<times> u8 list" where
  "boot_inject_held uart [] = (uart, [])"
| "boot_inject_held uart (b # held) =
     (case oemu_pl011_inject uart b of
        (st, uart) \<Rightarrow>
          if st = OEMU_OK then boot_inject_held uart held
          else (case boot_inject_held uart held of (uart, kept) \<Rightarrow> (uart, b # kept)))"

definition hold :: "u8 \<Rightarrow> boot_console \<Rightarrow> boot_console" where
  "hold c cn =
     (if length (cn_held cn) \<ge> BOOT_HELD_MAX then cn\<lparr>cn_dropped := cn_dropped cn + 1\<rparr>
      else cn\<lparr>cn_held := cn_held cn @ [c]\<rparr>)"

primrec pump_read :: "stdin_event list \<Rightarrow> boot_console \<Rightarrow> boot_console" where
  "pump_read [] cn = cn\<lparr>cn_eof := True, cn_stdin := []\<rparr>"
| "pump_read (ev # evs) cn =
     (case ev of
        Quiet \<Rightarrow> cn\<lparr>cn_stdin := evs\<rparr>
      | Typed c \<Rightarrow> pump_read evs (hold c cn)
      | Closed \<Rightarrow> cn\<lparr>cn_eof := True, cn_stdin := evs\<rparr>
      | Interrupted \<Rightarrow> pump_read evs cn
      | Broken \<Rightarrow> cn\<lparr>cn_stdin := evs\<rparr>)"

definition inject_console :: "'u oemu_pl011 \<Rightarrow> boot_console \<Rightarrow> 'u oemu_pl011 \<times> boot_console" where
  "inject_console uart cn = (case boot_inject_held uart (cn_held cn) of (uart, kept) \<Rightarrow> (uart, cn\<lparr>cn_held := kept\<rparr>))"

definition boot_pump_stdin :: "'u oemu_pl011 \<Rightarrow> boot_console \<Rightarrow> 'u oemu_pl011 \<times> boot_console" where
  "boot_pump_stdin uart cn = inject_console uart (pump_read (cn_stdin cn) cn)"

text \<open>The blocking read: quiet instants pass, except on a terminal in raw mode, where the read answers at
  once that there is no byte (VMIN and VTIME are 0); an interrupted read is repeated.\<close>

primrec read_blocking :: "bool \<Rightarrow> stdin_event list \<Rightarrow> u8 option \<times> stdin_event list" where
  "read_blocking raw [] = (None, [])"
| "read_blocking raw (ev # evs) =
     (case ev of
        Typed c \<Rightarrow> (Some c, evs)
      | Closed \<Rightarrow> (None, evs)
      | Broken \<Rightarrow> (None, evs)
      | Quiet \<Rightarrow> if raw then (None, evs) else read_blocking raw evs
      | Interrupted \<Rightarrow> read_blocking raw evs)"

definition boot_await_input :: "'u oemu_pl011 \<Rightarrow> boot_console \<Rightarrow> bool \<times> 'u oemu_pl011 \<times> boot_console" where
  "boot_await_input uart cn =
     (let (uart, cn) = (if cn_held cn \<noteq> [] then inject_console uart cn else (uart, cn))
      in if cn_held cn \<noteq> [] then (True, uart, cn)
         else if cn_eof cn then (False, uart, cn)
         else case read_blocking (cn_raw cn) (cn_stdin cn) of
           (Some c, evs) \<Rightarrow> (True, boot_pump_stdin uart (hold c (cn\<lparr>cn_stdin := evs\<rparr>)))
         | (None, evs) \<Rightarrow> (False, uart, cn\<lparr>cn_eof := True, cn_stdin := evs\<rparr>))"

text \<open>On a terminal in raw mode on which nothing is typed at this instant the wait ends at once and takes
  the input for closed.\<close>

lemma raw_wait_gives_up:
  assumes "cn_held cn = []" "\<not> cn_eof cn" "cn_raw cn" "cn_stdin cn = Quiet # evs"
  shows "boot_await_input uart cn = (False, uart, cn\<lparr>cn_eof := True, cn_stdin := evs\<rparr>)"
  using assms by (simp add: boot_await_input_def)

section \<open>The loop\<close>

text \<open>The inner loop: sub-slices of at most 64 instructions with a fresh sample of the lines after each.
  It ends because a sub-slice that completes nothing leaves it.\<close>

function slice_loop ::
  "oemu_mmu_fault \<Rightarrow> nat \<Rightarrow> nat \<Rightarrow> oemu_status \<Rightarrow> oemu_vcpu \<Rightarrow> 'u boot_space \<Rightarrow> 'u boot_env \<Rightarrow>
   (oemu_status \<times> nat \<times> oemu_vcpu \<times> 'u boot_space \<times> 'u boot_env) option" where
  "slice_loop f0 quota completed st vcpu p benv =
     (if completed < quota \<and> (st = OEMU_OK \<or> st = OEMU_ERR_TIMEOUT)
      then let remaining = quota - completed;
               chunk = (if remaining < BOOT_LEVEL_QUANTUM then remaining else BOOT_LEVEL_QUANTUM)
           in case oemu_vcpu_run f0 oemu_aspace_memops (Some boot_envops) (of_nat chunk) vcpu p benv of
                None \<Rightarrow> None
              | Some (st, stepped, vcpu, p, benv) \<Rightarrow>
                  (case refresh vcpu p of
                     (vcpu, p) \<Rightarrow>
                       if stepped = 0 then Some (st, completed, vcpu, p, benv)
                       else slice_loop f0 quota (completed + stepped) st vcpu p benv)
      else Some (st, completed, vcpu, p, benv))"
  by pat_completeness auto

termination
  by (relation "measure (\<lambda>(f0, quota, completed, r). quota - completed)") auto

declare slice_loop.simps [simp del]

record 'u boot_state =
  bs_vcpu :: oemu_vcpu
  bs_space :: "'u boot_space"
  bs_env :: "'u boot_env"
  bs_budget :: u64
  bs_console :: boot_console

definition on_uart :: "('u oemu_pl011 \<Rightarrow> 'u oemu_pl011) \<Rightarrow> 'u boot_space \<Rightarrow> 'u boot_space" where
  "on_uart f = (\<lambda>(as, h, d). (as, h, d\<lparr>bd_uart := f (bd_uart d)\<rparr>))"

definition uart_of :: "'u boot_space \<Rightarrow> 'u oemu_pl011" where
  "uart_of p = bd_uart (snd (snd p))"

text \<open>One turn of the outer loop: the process exit status and the final state, or the state of the next turn.\<close>

definition boot_turn :: "oemu_mmu_fault \<Rightarrow> bool \<Rightarrow> 'u boot_state \<Rightarrow> (u32 \<times> 'u boot_state + 'u boot_state) option" where
  "boot_turn f0 pump_stdin s =
     (let quota = (if bs_budget s < BOOT_QUANTUM then bs_budget s else BOOT_QUANTUM)
      in case slice_loop f0 (unat quota) 0 OEMU_OK (bs_vcpu s) (bs_space s) (bs_env s) of
        None \<Rightarrow> None
      | Some (st, completed, vcpu, p, benv) \<Rightarrow>
          let budget = bs_budget s - of_nat completed;
              p = on_uart (\<lambda>u. snd (oemu_pl011_pump u)) p;
              (uart, cn) = (if pump_stdin then boot_pump_stdin (uart_of p) (bs_console s) else (uart_of p, bs_console s));
              p = on_uart (\<lambda>_. uart) p;
              s = \<lparr>bs_vcpu = vcpu, bs_space = p, bs_env = benv, bs_budget = budget, bs_console = cn\<rparr>;
              ev = oemu_machine_event_peek (be_machine benv)
          in if ev = OEMU_MACHINE_EVENT_POWERDOWN then Some (Inl (mc_exit_code (be_machine benv) AND 0xFF, s))
             else if ev = OEMU_MACHINE_EVENT_RESET then Some (Inl (EXIT_ERROR, s))
             else if st = OEMU_ERR_BLOCKED
             then (if pump_stdin
                   then (case boot_await_input uart cn of
                           (True, uart, cn) \<Rightarrow>
                             (case refresh vcpu (on_uart (\<lambda>_. uart) p) of
                                (vcpu, p) \<Rightarrow> Some (Inr (s\<lparr>bs_vcpu := oemu_vcpu_rearm vcpu, bs_space := p, bs_console := cn\<rparr>)))
                         | (False, uart, cn) \<Rightarrow> Some (Inl (EXIT_BLOCKED, s\<lparr>bs_space := on_uart (\<lambda>_. uart) p, bs_console := cn\<rparr>)))
                   else Some (Inl (EXIT_BLOCKED, s)))
             else if st \<noteq> OEMU_OK \<and> st \<noteq> OEMU_ERR_TIMEOUT then Some (Inl (EXIT_ERROR, s))
             else if budget = 0 then Some (Inl (EXIT_TIMEOUT, s))
             else Some (Inr (s\<lparr>bs_vcpu := oemu_vcpu_rearm vcpu\<rparr>)))"

text \<open>The loop may run for ever when a console keeps it waiting, so not returning is \<^const>\<open>None\<close>, as is a
  tripped check.\<close>

partial_function (option) boot_loop ::
  "oemu_mmu_fault \<Rightarrow> bool \<Rightarrow> 'u boot_state \<Rightarrow> (u32 \<times> 'u boot_state) option" where
  "boot_loop f0 pump_stdin s =
     (case boot_turn f0 pump_stdin s of
        None \<Rightarrow> None
      | Some (Inl r) \<Rightarrow> Some r
      | Some (Inr s) \<Rightarrow> boot_loop f0 pump_stdin s)"

definition boot_run ::
  "oemu_mmu_fault \<Rightarrow> stdin_event list \<Rightarrow> bool \<Rightarrow> oemu_vcpu \<Rightarrow> 'u boot_space \<Rightarrow> 'u boot_env \<Rightarrow> bool \<Rightarrow> u64 \<Rightarrow>
   (u32 \<times> 'u boot_state) option" where
  "boot_run f0 script raw vcpu p benv pump_stdin max_insns =
     boot_loop f0 pump_stdin
       \<lparr>bs_vcpu = vcpu, bs_space = p, bs_env = benv, bs_budget = max_insns,
        bs_console = \<lparr>cn_held = [], cn_dropped = 0, cn_eof = False, cn_stdin = script, cn_raw = raw\<rparr>\<rparr>"

section \<open>What the environment keeps\<close>

text \<open>The guest reaches the environment of the virtual CPU through firmware calls only, so what they keep a
  run keeps.\<close>

locale env_keeps =
  fixes env :: "('e, oemu_mmu \<times> 'p) oemu_env_ops option" and P :: "'e \<Rightarrow> bool"
  assumes fw_keeps: "Option.bind env env_fw_call = Some fw \<Longrightarrow> P e \<Longrightarrow> P (snd (fw e hvc imm args))"
begin

lemma dispatch_bus_env: "wlp (oemu_exec_internal_dispatch_bus mem None cpu m e i) (\<lambda>(st, cpu', m', e'). e' = e)"
  by (simp add: oemu_exec_internal_dispatch_bus_def do_svc_def case_prod_beta split: option.split)

lemma firmware_env: "P e \<Longrightarrow> wlp (firmware_case env cpu sr m e i) (\<lambda>(st, cpu', sr', m', e'). P e')"
  using fw_keeps by (simp add: firmware_case_def Let_def case_prod_beta split: option.split)

lemma shared_env: "P e \<Longrightarrow> wlp (shared_case view cpu sr m e i w) (\<lambda>(st, cpu', sr', m', e'). P e')"
  unfolding shared_case_def wlp_simps by (rule wlp_mono [OF dispatch_bus_env]) (auto simp: case_prod_beta)

lemma dispatch_env: "P e \<Longrightarrow> wlp (oemu_exec_internal_dispatch_system view env cpu sr m e i w) (\<lambda>(st, cpu', sr', m', e'). P e')"
  by (simp add: oemu_exec_internal_dispatch_system_def case_prod_beta firmware_env shared_env split: option.split)

lemma execute_env: "P e \<Longrightarrow> wlp (vcpu_execute f0 phys env v p e i w) (\<lambda>(st, io, v', p', e'). P e')"
proof -
  assume e: "P e"
  have "wlp (oemu_exec_internal_dispatch_system view env cpu sr m e i w) (\<lambda>x. wlp (case x of (st, cpu, sr, (mmu, p), e) \<Rightarrow>
      let u = u\<lparr>vc_cpu := cpu, vc_sysregs := sr, vc_mmu := mmu\<rparr> in
      if st \<noteq> OEMU_OK then Some (st, Some i, u, p, e) else Some (OEMU_OK, Some i, charge u, p, e)) (\<lambda>(st, io, v', p', e'). P e'))" for view cpu sr m u
    by (rule wlp_mono [OF dispatch_env [OF e]]) (auto simp: Let_def)
  then show ?thesis using e by (simp add: vcpu_execute_def Let_def case_prod_beta)
qed

lemma fetch_env: "P e \<Longrightarrow> wlp (vcpu_fetch_execute f0 phys env v p e) (\<lambda>(st, io, v', p', e'). P e')"
  using execute_env by (simp add: vcpu_fetch_execute_def Let_def case_prod_beta split: sum.split prod.split)

lemma step_env: "P e \<Longrightarrow> wlp (oemu_vcpu_step f0 phys env v p e) (\<lambda>(st, io, v', p', e'). P e')"
  using fetch_env by (simp add: oemu_vcpu_step_def Let_def case_prod_beta)

lemma run_loop_env: "P e \<Longrightarrow> wlp (vcpu_run_loop n f0 phys env c v p e) (\<lambda>(st, c', v', p', e'). P e')"
proof (induction n arbitrary: c v p e)
  case (Suc n)
  have "wlp (oemu_vcpu_step f0 phys env v p e) (\<lambda>x. wlp (case x of (st, io, v, p, e) \<Rightarrow>
      if st \<noteq> OEMU_OK then Some (st, c, v, p, e) else vcpu_run_loop n f0 phys env (c + 1) v p e) (\<lambda>(st, c', v', p', e'). P e'))"
    by (rule wlp_mono [OF step_env [OF Suc.prems]]) (use Suc.IH in auto)
  then show ?case using Suc.prems by simp
qed simp

end

text \<open>Firmware and machine agree: a guest that firmware has halted has left an event, and only powering off
  sets the exit code, to zero.\<close>

definition env_ok :: "'u boot_env \<Rightarrow> bool" where
  "env_ok benv \<longleftrightarrow> (mc_event (be_machine benv) = OEMU_MACHINE_EVENT_NONE \<longrightarrow> \<not> ps_halted (be_psci benv)) \<and> mc_exit_code (be_machine benv) = 0"

interpretation boot_keeps: env_keeps "Some boot_envops" "env_ok :: 'u boot_env \<Rightarrow> bool"
proof unfold_locales
  fix fw :: "'u boot_env \<Rightarrow> bool \<Rightarrow> u16 \<Rightarrow> u64 list \<Rightarrow> u64 option \<times> 'u boot_env" and benv :: "'u boot_env" and hvc imm args
  assume "Option.bind (Some boot_envops) env_fw_call = Some fw" "env_ok benv"
  moreover have "ps_halted psci = ps_halted (be_psci benv)" if "oemu_psci_dispatch (be_psci benv) x = (None, psci)" for x psci
    using that by (auto simp: oemu_psci_dispatch_def Let_def split: if_split_asm)
  ultimately show "env_ok (snd (fw benv hvc imm args))"
    by (auto simp: boot_envops_def boot_fw_call_def env_ok_def oemu_machine_poweroff_def oemu_machine_reset_def Let_def
        split: prod.split option.split)
qed

section \<open>The loop ends\<close>

lemma refresh_slice:
  "refresh v p = (v', p') \<Longrightarrow> vc_insns_left v' = vc_insns_left v \<and> vc_quantum v' = vc_quantum v"
  by (auto simp: refresh_def boot_refresh_levels_def oemu_vcpu_set_irq_def Let_def split: prod.splits)

lemma boot_env_halted [simp]: "vcpu_halted (Some boot_envops) benv = boot_halted benv"
  by (simp add: vcpu_halted_def boot_envops_def)

lemma slice_loop_account:
  assumes "slice_loop f0 quota c st v p e = Some (st', c', v', p', e')" "env_ok e" "c \<le> quota" "quota \<le> 1000000"
    and "unat (vc_insns_left v) + c = 1000000" "st \<in> {OEMU_OK, OEMU_ERR_TIMEOUT, OEMU_ERR_BLOCKED}"
    and "st = OEMU_OK \<Longrightarrow> quota = 0 \<or> c = 0 \<or> boot_halted e" "st = OEMU_ERR_TIMEOUT \<Longrightarrow> 0 < c"
  shows "env_ok e' \<and> c' \<le> quota \<and> unat (vc_insns_left v') + c' = 1000000 \<and> vc_quantum v' = vc_quantum v \<and>
    st' \<in> {OEMU_OK, OEMU_ERR_TIMEOUT, OEMU_ERR_BLOCKED} \<and> (st' = OEMU_OK \<longrightarrow> quota = 0 \<or> boot_halted e') \<and>
    (st' = OEMU_ERR_TIMEOUT \<longrightarrow> c' = quota \<and> 0 < quota)"
  using assms
proof (induction f0 quota c st v p e rule: slice_loop.induct)
  case (1 f0 quota c st v p e)
  let ?k = "if quota - c < BOOT_LEVEL_QUANTUM then quota - c else BOOT_LEVEL_QUANTUM"
  show ?case
  proof (cases "c < quota \<and> (st = OEMU_OK \<or> st = OEMU_ERR_TIMEOUT)")
    case False
    then show ?thesis using 1(2-) by (subst (asm) slice_loop.simps) auto
  next
    case True
    obtain st1 k v1 p1 e1 where r: "oemu_vcpu_run f0 oemu_aspace_memops (Some boot_envops) (of_nat ?k) v p e = Some (st1, k, v1, p1, e1)"
      using 1(2) True by (subst (asm) slice_loop.simps) (auto simp: Let_def split: option.splits)
    obtain v2 p2 where f: "refresh v1 p1 = (v2, p2)" by (rule prod.exhaust)
    have k: "unat (of_nat ?k :: u64) = ?k" by (simp add: unat_of_nat)
    have a: "k \<le> ?k" "unat (vc_insns_left v1) + k = unat (vc_insns_left v)" "vc_quantum v1 = vc_quantum v"
      "if st1 = OEMU_OK then boot_halted e1 else if st1 = OEMU_ERR_TIMEOUT then k = ?k \<or> vc_insns_left v1 = 0 else st1 = OEMU_ERR_BLOCKED"
      using vcpu_run_loop_account [OF r [unfolded oemu_vcpu_run_def k]] by (simp_all split: if_split_asm)
    have e1: "env_ok e1" using wlpD [OF boot_keeps.run_loop_env [OF 1(3)] r [unfolded oemu_vcpu_run_def]] by simp
    have left: "0 < unat (vc_insns_left v)" using True 1(5,6) by linarith
    have v2: "vc_insns_left v2 = vc_insns_left v1" "vc_quantum v2 = vc_quantum v" using refresh_slice [OF f] a(3) by simp_all
    have s1: "st1 \<in> {OEMU_OK, OEMU_ERR_TIMEOUT, OEMU_ERR_BLOCKED}" "st1 = OEMU_OK \<Longrightarrow> boot_halted e1"
      "st1 = OEMU_ERR_TIMEOUT \<Longrightarrow> 0 < k"
      using a(2,4) left True by (auto split: if_split_asm)
    note step = 1(2) [unfolded slice_loop.simps [of f0 quota c] Let_def r f]
    show ?thesis
    proof (cases "k = 0")
      case True
      with step f \<open>c < quota \<and> _\<close> have "st' = st1" "c' = c" "v' = v2" "e' = e1" by auto
      then show ?thesis using True e1 v2 a(2) s1 1(4,6) by auto
    next
      case False
      with step f True have rec: "slice_loop f0 quota (c + k) st1 v2 p2 e1 = Some (st', c', v', p', e')" by auto
      have "c + k \<le> quota" using a(1) True by (auto split: if_split_asm)
      moreover have "unat (vc_insns_left v2) + (c + k) = 1000000" using v2(1) a(2) 1(6) by simp
      ultimately show ?thesis
        using 1(1) [OF True refl refl r refl refl refl refl f [symmetric] False rec e1 _ 1(5)] s1 v2(2) False by auto
    qed
  qed
qed

definition turn_ok :: "'u boot_state \<Rightarrow> bool" where
  "turn_ok s \<longleftrightarrow> env_ok (bs_env s) \<and> vc_quantum (bs_vcpu s) = BOOT_QUANTUM \<and> vc_insns_left (bs_vcpu s) = BOOT_QUANTUM"

lemma pump_read_stdin: "length (cn_stdin (pump_read evs cn)) \<le> length evs"
proof (induction evs arbitrary: cn)
  case (Cons ev evs)
  then show ?case by (cases ev) (simp_all add: le_SucI)
qed simp

lemma pump_stdin_consumes: "length (cn_stdin (snd (boot_pump_stdin uart cn))) \<le> length (cn_stdin cn)"
  using pump_read_stdin [of "cn_stdin cn" cn] by (simp add: boot_pump_stdin_def inject_console_def split: prod.split)

lemma read_blocking_consumes: "read_blocking raw evs = (Some c, evs') \<Longrightarrow> length evs' < length evs"
proof (induction evs)
  case (Cons ev evs)
  then show ?case by (cases ev) (auto split: if_split_asm)
qed simp

lemma hold_stdin [simp]: "cn_stdin (hold c cn) = cn_stdin cn" "cn_eof (hold c cn) = cn_eof cn"
  by (simp_all add: hold_def)

lemma await_progress:
  assumes "boot_await_input uart cn = (True, uart', cn')"
  shows "cn_held cn' \<noteq> [] \<or> length (cn_stdin cn') < length (cn_stdin cn)"
proof -
  obtain u1 c1 where c1: "(if cn_held cn \<noteq> [] then inject_console uart cn else (uart, cn)) = (u1, c1)" by (rule prod.exhaust)
  have same: "cn_stdin c1 = cn_stdin cn" using c1 by (auto simp: inject_console_def split: if_split_asm prod.splits)
  show ?thesis
  proof (cases "cn_held c1 = [] \<and> \<not> cn_eof c1")
    case True
    with assms c1 obtain c evs where r: "read_blocking (cn_raw c1) (cn_stdin c1) = (Some c, evs)"
      "(uart', cn') = boot_pump_stdin u1 (hold c (c1\<lparr>cn_stdin := evs\<rparr>))"
      by (auto simp: boot_await_input_def Let_def split: prod.splits option.splits)
    then show ?thesis
      using read_blocking_consumes [OF r(1)] pump_stdin_consumes [of u1 "hold c (c1\<lparr>cn_stdin := evs\<rparr>)"] same
      by (cases "boot_pump_stdin u1 (hold c (c1\<lparr>cn_stdin := evs\<rparr>))") simp
  next
    case False
    with assms c1 show ?thesis by (auto simp: boot_await_input_def Let_def split: if_split_asm)
  qed
qed

text \<open>What a turn that ends the loop reports, and what a turn that continues has used up.\<close>

definition turn_result :: "bool \<Rightarrow> 'u boot_state \<Rightarrow> u32 \<times> 'u boot_state + 'u boot_state \<Rightarrow> bool" where
  "turn_result pump_stdin s r =
     (case r of
        Inl (c, s') \<Rightarrow>
          (case mc_event (be_machine (bs_env s')) of
             OEMU_MACHINE_EVENT_POWERDOWN \<Rightarrow> c = 0
           | OEMU_MACHINE_EVENT_RESET \<Rightarrow> c = 1
           | OEMU_MACHINE_EVENT_NONE \<Rightarrow> c = 4 \<or> c = 3 \<and> bs_budget s' = 0) \<and>
          (\<not> pump_stdin \<longrightarrow> bs_console s' = bs_console s)
      | Inr s' \<Rightarrow>
          turn_ok s' \<and> mc_event (be_machine (bs_env s')) = OEMU_MACHINE_EVENT_NONE \<and> bs_budget s' \<le> bs_budget s \<and>
          (bs_budget s' < bs_budget s \<or>
             pump_stdin \<and> (cn_held (bs_console s') \<noteq> [] \<or> length (cn_stdin (bs_console s')) < length (cn_stdin (bs_console s)))) \<and>
          (\<not> pump_stdin \<longrightarrow> bs_console s' = bs_console s))"

lemma rearm_ok [simp]: "vc_quantum (oemu_vcpu_rearm v) = vc_quantum v" "vc_insns_left (oemu_vcpu_rearm v) = vc_quantum v"
  by (simp_all add: oemu_vcpu_rearm_def)

lemma turn_cases:
  assumes "turn_ok s" "boot_turn f0 pump_stdin s = Some r"
  shows "turn_result pump_stdin s r"
proof -
  define quota where "quota = (if bs_budget s < BOOT_QUANTUM then bs_budget s else BOOT_QUANTUM)"
  obtain st c v p e where l: "slice_loop f0 (unat quota) 0 OEMU_OK (bs_vcpu s) (bs_space s) (bs_env s) = Some (st, c, v, p, e)"
    using assms(2) by (auto simp: boot_turn_def Let_def quota_def split: option.splits)
  have q: "unat quota \<le> 1000000" "unat quota \<le> unat (bs_budget s)" "unat quota = 0 \<longleftrightarrow> bs_budget s = 0"
    by (auto simp: quota_def word_less_nat_alt unat_eq_zero)
  have a: "env_ok e" "c \<le> unat quota" "vc_quantum v = BOOT_QUANTUM" "st \<in> {OEMU_OK, OEMU_ERR_TIMEOUT, OEMU_ERR_BLOCKED}"
    "st = OEMU_OK \<Longrightarrow> unat quota = 0 \<or> boot_halted e" "st = OEMU_ERR_TIMEOUT \<Longrightarrow> c = unat quota \<and> 0 < unat quota"
    using slice_loop_account [OF l] assms(1) q by (auto simp: turn_ok_def)
  let ?budget = "bs_budget s - of_nat c"
  have b: "unat ?budget = unat (bs_budget s) - c" 
  proof -
    have "c \<le> unat (bs_budget s)" using a(2) q(2) by simp
    moreover have "c < 2 ^ 64" using a(2) q(1) by simp
    ultimately show ?thesis by (simp add: unat_sub word_le_nat_alt unat_of_nat)
  qed
  then have less: "?budget \<le> bs_budget s" "0 < c \<Longrightarrow> c \<le> unat (bs_budget s) \<Longrightarrow> ?budget < bs_budget s"
    by (simp_all add: word_le_nat_alt word_less_nat_alt)
  have none: "mc_event (be_machine e) = OEMU_MACHINE_EVENT_NONE \<Longrightarrow> st = OEMU_OK \<Longrightarrow> ?budget = 0"
    using a(1,5) q(3) b by (auto simp: boot_halted_def env_ok_def oemu_machine_event_peek_def unat_eq_zero)
  have tm: "mc_event (be_machine e) = OEMU_MACHINE_EVENT_NONE \<Longrightarrow> st = OEMU_ERR_TIMEOUT \<Longrightarrow> ?budget < bs_budget s"
    using a(6) less(2) q(2) by simp
  define p1 where "p1 = on_uart (\<lambda>u. snd (oemu_pl011_pump u)) p"
  obtain u cn where u: "(if pump_stdin then boot_pump_stdin (uart_of p1) (bs_console s) else (uart_of p1, bs_console s)) = (u, cn)" by (rule prod.exhaust)
  have cn: "length (cn_stdin cn) \<le> length (cn_stdin (bs_console s))" "\<not> pump_stdin \<Longrightarrow> cn = bs_console s"
    using u pump_stdin_consumes [of "uart_of p1" "bs_console s"] by (auto split: if_split_asm)
  obtain g u2 cn2 where w: "boot_await_input u cn = (g, u2, cn2)" by (metis prod_cases3)
  obtain v3 p3 where f: "refresh v (on_uart (\<lambda>_. u2) (on_uart (\<lambda>_. u) p1)) = (v3, p3)" by (rule prod.exhaust)
  have v3: "vc_quantum v3 = BOOT_QUANTUM" using refresh_slice [OF f] a(3) by simp
  note t = assms(2) [unfolded boot_turn_def Let_def quota_def [symmetric] l, simplified, folded p1_def, unfolded u, simplified, unfolded w, simplified]
  show ?thesis
  proof (cases "mc_event (be_machine e)")
    case OEMU_MACHINE_EVENT_NONE
    note e = this
    show ?thesis
    proof (cases "st = OEMU_ERR_BLOCKED")
      case True
      show ?thesis
      proof (cases "pump_stdin \<and> g")
        case p: True
        with t e True f have "r = Inr \<lparr>bs_vcpu = oemu_vcpu_rearm v3, bs_space = p3, bs_env = e, bs_budget = ?budget, bs_console = cn2\<rparr>"
          by (simp add: oemu_machine_event_peek_def)
        then show ?thesis using p w await_progress [of u cn u2 cn2] cn less(1) v3 a(1) e by (auto simp: turn_result_def turn_ok_def)
      next
        case False
        with t e True cn(2) show ?thesis by (auto simp: turn_result_def oemu_machine_event_peek_def split: if_split_asm)
      qed
    next
      case False
      with t e a(1,3,4) none tm less(1) cn(2) show ?thesis
        by (auto simp: turn_result_def oemu_machine_event_peek_def turn_ok_def split: if_split_asm)
    qed
  next
    case OEMU_MACHINE_EVENT_POWERDOWN
    with t a(1) cn(2) show ?thesis by (auto simp: turn_result_def oemu_machine_event_peek_def env_ok_def)
  next
    case OEMU_MACHINE_EVENT_RESET
    with t cn(2) show ?thesis by (auto simp: turn_result_def oemu_machine_event_peek_def)
  qed
qed

text \<open>How the slice of a turn ended, and what a turn that ends the loop makes of it.\<close>

definition slice_status :: "oemu_mmu_fault \<Rightarrow> 'u boot_state \<Rightarrow> oemu_status option" where
  "slice_status f0 s =
     map_option fst (slice_loop f0 (unat (if bs_budget s < BOOT_QUANTUM then bs_budget s else BOOT_QUANTUM)) 0 OEMU_OK (bs_vcpu s) (bs_space s) (bs_env s))"

lemma turn_status:
  assumes "turn_ok s" "boot_turn f0 pump_stdin s = Some (Inl (c, s'))" "mc_event (be_machine (bs_env s')) = OEMU_MACHINE_EVENT_NONE"
  shows "\<exists>st. slice_status f0 s = Some st \<and> c = (if st = OEMU_ERR_BLOCKED then 4 else 3)"
proof -
  obtain st k v p e where l: "slice_loop f0 (unat (if bs_budget s < BOOT_QUANTUM then bs_budget s else BOOT_QUANTUM)) 0 OEMU_OK (bs_vcpu s) (bs_space s) (bs_env s) = Some (st, k, v, p, e)"
    using assms(2) by (auto simp: boot_turn_def Let_def split: option.splits)
  have "unat (if bs_budget s < BOOT_QUANTUM then bs_budget s else BOOT_QUANTUM) \<le> 1000000" by (simp add: word_less_nat_alt)
  then have "st \<in> {OEMU_OK, OEMU_ERR_TIMEOUT, OEMU_ERR_BLOCKED}"
    using slice_loop_account [OF l] assms(1) by (auto simp: turn_ok_def)
  then have "c = (if st = OEMU_ERR_BLOCKED then 4 else 3)"
    using assms(2,3) unfolding boot_turn_def Let_def l
    by (auto simp: oemu_machine_event_peek_def split: if_split_asm prod.split_asm bool.split_asm)
  then show ?thesis using l by (simp add: slice_status_def)
qed

text \<open>The first turns of the loop.\<close>

primrec boot_turns :: "nat \<Rightarrow> oemu_mmu_fault \<Rightarrow> bool \<Rightarrow> 'u boot_state \<Rightarrow> (u32 \<times> 'u boot_state + 'u boot_state) option" where
  "boot_turns 0 f0 pump_stdin s = Some (Inr s)"
| "boot_turns (Suc n) f0 pump_stdin s =
     (case boot_turn f0 pump_stdin s of Some (Inr s') \<Rightarrow> boot_turns n f0 pump_stdin s' | r \<Rightarrow> r)"

lemma loop_ends:
  assumes "turn_ok s"
  shows "(\<exists>n s'. n \<le> unat (bs_budget s) \<and> boot_turns n f0 False s = Some (Inr s') \<and> boot_turn f0 False s' = None) \<or>
    (\<exists>n s1 c s'. n \<le> unat (bs_budget s) \<and> boot_turns n f0 False s = Some (Inr s1) \<and> turn_ok s1 \<and>
       boot_turn f0 False s1 = Some (Inl (c, s')) \<and> boot_loop f0 False s = Some (c, s') \<and> turn_result False s (Inl (c, s')))"
  using assms
proof (induction "unat (bs_budget s)" arbitrary: s rule: less_induct)
  case less
  show ?case
  proof (cases "boot_turn f0 False s")
    case None
    then show ?thesis by (intro disjI1 exI [of _ 0]) simp
  next
    case (Some r)
    note t = turn_cases [OF less.prems Some]
    show ?thesis
    proof (cases r)
      case (Inl x)
      then have "boot_loop f0 False s = Some x" using Some by (subst boot_loop.simps) simp
      then show ?thesis using t Some Inl less.prems by (intro disjI2 exI [of _ 0]) (cases x, simp)
    next
      case (Inr s1)
      then have s1: "unat (bs_budget s1) < unat (bs_budget s)" "turn_ok s1" "bs_console s1 = bs_console s"
        using t by (simp_all add: turn_result_def word_less_nat_alt)
      have "boot_loop f0 False s = boot_loop f0 False s1" using Some Inr by (subst boot_loop.simps) simp
      moreover have "turn_result False s1 (Inl x) \<Longrightarrow> turn_result False s (Inl x)" for x using s1(3) by (simp add: turn_result_def)
      moreover have "boot_turns (Suc n) f0 False s = boot_turns n f0 False s1" for n using Some Inr by simp
      moreover have "n \<le> unat (bs_budget s1) \<Longrightarrow> Suc n \<le> unat (bs_budget s)" for n using s1(1) by simp
      ultimately show ?thesis using less.hyps [OF s1(1,2)] by metis
    qed
  qed
qed

section \<open>Typed bytes arrive in order\<close>

lemma inject_fields: "oemu_pl011_inject uart b = (st, uart') \<Longrightarrow> ua_cr uart' = ua_cr uart \<and> ua_imsc uart' = ua_imsc uart"
  by (auto simp: oemu_pl011_inject_def oemu_pl011_internal_update_flags_def Let_def split: if_split_asm)

text \<open>Whether a byte is refused does not depend on the byte, so after a refusal all the rest is kept.\<close>

lemma inject_refused: "fst (oemu_pl011_inject uart b) \<noteq> OEMU_OK \<Longrightarrow> boot_inject_held uart held = (uart, held)"
  by (induction held) (auto simp: oemu_pl011_inject_def split: if_split_asm)

definition refuses :: "'u oemu_pl011 \<Rightarrow> bool" where
  "refuses uart \<longleftrightarrow> ua_cr uart AND 0x201 \<noteq> 0x201 \<or> length (rx_queue uart) = OEMU_PL011_RX_RING"

definition injected :: "'u oemu_pl011 \<Rightarrow> u8 list \<Rightarrow> 'u oemu_pl011 \<Rightarrow> u8 list \<Rightarrow> bool" where
  "injected uart held uart' kept \<longleftrightarrow>
     pl011_inv uart' \<and> rx_queue uart' @ kept = rx_queue uart @ held \<and> (kept \<noteq> [] \<longrightarrow> refuses uart') \<and>
     ua_cr uart' = ua_cr uart \<and> ua_imsc uart' = ua_imsc uart \<and> length kept \<le> length held \<and>
     (uart' = uart \<or> ua_ris uart' AND PL011_INT_RX = PL011_INT_RX)"

lemma inject_held_queue:
  "pl011_inv uart \<Longrightarrow> boot_inject_held uart held = (uart', kept) \<Longrightarrow> injected uart held uart' kept"
proof (induction held arbitrary: uart)
  case Nil
  then show ?case by (simp add: injected_def)
next
  case (Cons b held)
  obtain st u1 where u1: "oemu_pl011_inject uart b = (st, u1)" by (rule prod.exhaust)
  note q = inject_queue [OF Cons.prems(1) u1]
  show ?case
  proof (cases "st = OEMU_OK")
    case True
    then have r: "rx_queue u1 = rx_queue uart @ [b]" "ua_ris u1 AND PL011_INT_RX = PL011_INT_RX" using q(6) by (auto split: if_split_asm)
    have i: "injected u1 held uart' kept" using Cons.IH [OF q(1)] Cons.prems(2) u1 True by simp
    then have "ua_ris uart' AND PL011_INT_RX = PL011_INT_RX" using r(2) by (auto simp: injected_def)
    then show ?thesis using i r(1) inject_fields [OF u1] by (simp add: injected_def)
  next
    case False
    then have "uart' = uart" "kept = b # held" using inject_refused [of uart b "b # held"] u1 Cons.prems(2) by simp_all
    moreover have "refuses uart" using q(6) False by (auto simp: refuses_def split: if_split_asm)
    ultimately show ?thesis using Cons.prems(1) by (simp add: injected_def)
  qed
qed

primrec typed :: "stdin_event list \<Rightarrow> u8 list" where
  "typed [] = []"
| "typed (ev # evs) = (case ev of Typed c \<Rightarrow> c # typed evs | _ \<Rightarrow> typed evs)"

lemma typed_append [simp]: "typed (xs @ ys) = typed xs @ typed ys"
  by (induction xs) (auto split: stdin_event.split)

text \<open>Bytes offered to the holding buffer one by one: it takes what fits and counts the rest.\<close>

lemma hold_all:
  assumes "length (cn_held cn) \<le> BOOT_HELD_MAX"
  shows "cn_held (fold hold xs cn) = take BOOT_HELD_MAX (cn_held cn @ xs)" "cn_stdin (fold hold xs cn) = cn_stdin cn"
    "cn_dropped (fold hold xs cn) = cn_dropped cn + of_nat (length (cn_held cn) + length xs - BOOT_HELD_MAX)"
proof -
  have "cn_held (fold hold xs cn) = take BOOT_HELD_MAX (cn_held cn @ xs) \<and> cn_stdin (fold hold xs cn) = cn_stdin cn \<and>
    cn_dropped (fold hold xs cn) = cn_dropped cn + of_nat (length (cn_held cn) + length xs - BOOT_HELD_MAX)"
    using assms
  proof (induction xs arbitrary: cn)
    case (Cons x xs)
    show ?case
    proof (cases "length (cn_held cn) < BOOT_HELD_MAX")
      case True
      then show ?thesis using Cons.IH [of "hold x cn"] by (simp add: hold_def)
    next
      case False
      then have l: "length (cn_held cn) = BOOT_HELD_MAX" using Cons.prems by simp
      then show ?thesis using Cons.IH [of "hold x cn"] by (simp add: hold_def)
    qed
  qed simp
  then show "cn_held (fold hold xs cn) = take BOOT_HELD_MAX (cn_held cn @ xs)" "cn_stdin (fold hold xs cn) = cn_stdin cn"
    "cn_dropped (fold hold xs cn) = cn_dropped cn + of_nat (length (cn_held cn) + length xs - BOOT_HELD_MAX)" by simp_all
qed

lemma pump_read_holds:
  "\<exists>used. evs = used @ cn_stdin (pump_read evs cn) \<and> cn_held (pump_read evs cn) = cn_held (fold hold (typed used) cn) \<and>
     cn_dropped (pump_read evs cn) = cn_dropped (fold hold (typed used) cn)"
proof (induction evs arbitrary: cn)
  case (Cons ev evs)
  have "\<exists>used. ev # evs = used @ cn_stdin (pump_read evs cn') \<and> cn_held (pump_read evs cn') = cn_held (fold hold (typed used) cn) \<and>
     cn_dropped (pump_read evs cn') = cn_dropped (fold hold (typed used) cn)" if "\<And>xs. fold hold (typed (ev # xs)) cn = fold hold (typed xs) cn'" for cn'
  proof -
    obtain used where "evs = used @ cn_stdin (pump_read evs cn')" "cn_held (pump_read evs cn') = cn_held (fold hold (typed used) cn')"
      "cn_dropped (pump_read evs cn') = cn_dropped (fold hold (typed used) cn')" using Cons.IH [of cn'] by blast
    then show ?thesis using that [of used] by (intro exI [of _ "ev # used"]) simp
  qed
  note rec = this
  show ?case
  proof (cases ev)
    case (Typed c)
    then show ?thesis using rec [of "hold c cn"] by simp
  next
    case Interrupted
    then show ?thesis using rec [of cn] by simp
  qed (rule exI [of _ "[ev]"], simp)+
qed simp

text \<open>
  What a service of the console does with the events \<open>used\<close> it has read: of the bytes typed, the first \<open>n\<close> are
  behind those already in the ring and the holding buffer, in order; the others are counted as dropped,
  and there are others only when the buffer was full.
\<close>

definition console_serviced :: "'u oemu_pl011 \<Rightarrow> boot_console \<Rightarrow> 'u oemu_pl011 \<Rightarrow> boot_console \<Rightarrow> bool" where
  "console_serviced uart cn uart' cn' \<longleftrightarrow>
     (\<exists>used n. cn_stdin cn = used @ cn_stdin cn' \<and> n \<le> length (typed used) \<and>
        rx_queue uart' @ cn_held cn' = rx_queue uart @ cn_held cn @ take n (typed used) \<and>
        cn_dropped cn' = cn_dropped cn + of_nat (length (typed used) - n) \<and>
        (n < length (typed used) \<longrightarrow> BOOT_HELD_MAX \<le> length (cn_held cn) + n)) \<and>
     length (cn_held cn') \<le> BOOT_HELD_MAX \<and> (cn_held cn' \<noteq> [] \<longrightarrow> refuses uart') \<and> pl011_inv uart' \<and>
     ua_cr uart' = ua_cr uart \<and> ua_imsc uart' = ua_imsc uart \<and>
     (uart' = uart \<or> ua_ris uart' AND PL011_INT_RX = PL011_INT_RX)"

lemma held_then_injected:
  assumes "pl011_inv uart" "length (cn_held cn) \<le> BOOT_HELD_MAX" "cn_stdin cn = used @ cn_stdin cn1"
    and "cn_held cn1 = cn_held (fold hold (typed used) cn)" "cn_dropped cn1 = cn_dropped (fold hold (typed used) cn)"
    and "inject_console uart cn1 = (uart', cn')"
  shows "console_serviced uart cn uart' cn'"
proof -
  let ?h = "length (cn_held cn)" and ?xs = "typed used"
  let ?n = "min (BOOT_HELD_MAX - ?h) (length ?xs)"
  have take: "take ?n ?xs = take (BOOT_HELD_MAX - ?h) ?xs" by (simp add: min_def)
  obtain kept where k: "boot_inject_held uart (cn_held cn1) = (uart', kept)" "cn' = cn1\<lparr>cn_held := kept\<rparr>"
    using assms(6) by (auto simp: inject_console_def split: prod.splits)
  note i = inject_held_queue [OF assms(1) k(1), unfolded injected_def]
  note h = hold_all [OF assms(2), of ?xs]
  have held: "cn_held cn1 = cn_held cn @ take ?n ?xs" unfolding take using h(1) assms(2,4) by simp
  have "length ?xs - ?n = ?h + length ?xs - BOOT_HELD_MAX" using assms(2) by simp
  then have "cn_dropped cn' = cn_dropped cn + of_nat (length ?xs - ?n)" using h(3) assms(5) k(2) by simp
  moreover have "rx_queue uart' @ cn_held cn' = rx_queue uart @ cn_held cn @ take ?n ?xs" using i held k(2) by simp
  moreover have "?n < length ?xs \<longrightarrow> BOOT_HELD_MAX \<le> ?h + ?n" "?n \<le> length ?xs" using assms(2) by (auto simp: min_def)
  moreover have "cn_stdin cn = used @ cn_stdin cn'" using assms(3) k(2) by simp
  ultimately have "\<exists>used n. cn_stdin cn = used @ cn_stdin cn' \<and> n \<le> length (typed used) \<and>
        rx_queue uart' @ cn_held cn' = rx_queue uart @ cn_held cn @ take n (typed used) \<and>
        cn_dropped cn' = cn_dropped cn + of_nat (length (typed used) - n) \<and>
        (n < length (typed used) \<longrightarrow> BOOT_HELD_MAX \<le> length (cn_held cn) + n)" by blast
  moreover have "length (cn_held cn1) \<le> BOOT_HELD_MAX" using h(1) assms(4) by simp
  then have "length (cn_held cn') \<le> BOOT_HELD_MAX" using i k(2) by simp
  ultimately show ?thesis using i k(2) by (simp add: console_serviced_def)
qed

lemma pump_serviced:
  assumes "pl011_inv uart" "length (cn_held cn) \<le> BOOT_HELD_MAX" "boot_pump_stdin uart cn = (uart', cn')"
  shows "console_serviced uart cn uart' cn'"
  using pump_read_holds [of "cn_stdin cn" cn] held_then_injected [OF assms(1,2) _ _ _ assms(3) [unfolded boot_pump_stdin_def]] by blast

lemma serviced_trans:
  assumes "console_serviced uart cn u1 c1" "console_serviced u1 c1 uart' cn'" "cn_held c1 = []" "cn_stdin c1 = cn_stdin cn" "cn_dropped c1 = cn_dropped cn"
    and "rx_queue u1 = rx_queue uart @ cn_held cn"
  shows "console_serviced uart cn uart' cn'"
proof -
  obtain used n where u: "cn_stdin c1 = used @ cn_stdin cn'" "n \<le> length (typed used)"
    "rx_queue uart' @ cn_held cn' = rx_queue u1 @ cn_held c1 @ take n (typed used)" "cn_dropped cn' = cn_dropped c1 + of_nat (length (typed used) - n)"
    "n < length (typed used) \<longrightarrow> BOOT_HELD_MAX \<le> length (cn_held c1) + n"
    using assms(2) unfolding console_serviced_def by (elim conjE exE)
  have "\<exists>used n. cn_stdin cn = used @ cn_stdin cn' \<and> n \<le> length (typed used) \<and>
        rx_queue uart' @ cn_held cn' = rx_queue uart @ cn_held cn @ take n (typed used) \<and>
        cn_dropped cn' = cn_dropped cn + of_nat (length (typed used) - n) \<and>
        (n < length (typed used) \<longrightarrow> BOOT_HELD_MAX \<le> length (cn_held cn) + n)"
    using u assms(3-6) by (intro exI [of _ used] exI [of _ n]) (auto simp: trans_le_add2)
  then show ?thesis using assms(1,2) unfolding console_serviced_def by (elim conjE disjE) simp_all
qed

lemma read_blocking_used:
  "read_blocking raw evs = (r, evs') \<Longrightarrow> \<exists>used. evs = used @ evs' \<and> typed used = (case r of None \<Rightarrow> [] | Some c \<Rightarrow> [c])"
proof (induction evs)
  case (Cons ev evs)
  show ?case
  proof (cases "ev = Quiet \<and> \<not> raw \<or> ev = Interrupted")
    case True
    with Cons obtain used where "evs = used @ evs'" "typed used = (case r of None \<Rightarrow> [] | Some c \<Rightarrow> [c])" by fastforce
    then show ?thesis using True by (intro exI [of _ "ev # used"]) auto
  next
    case False
    with Cons.prems show ?thesis by (intro exI [of _ "[ev]"]) (cases ev; auto split: if_split_asm)
  qed
qed auto

lemma await_serviced:
  assumes inv: "pl011_inv uart" "length (cn_held cn) \<le> BOOT_HELD_MAX" and w: "boot_await_input uart cn = (g, uart', cn')"
  shows "console_serviced uart cn uart' cn'"
proof -
  obtain u1 c1 where c1: "(if cn_held cn \<noteq> [] then inject_console uart cn else (uart, cn)) = (u1, c1)" by (rule prod.exhaust)
  have "inject_console uart cn = (u1, c1)" using c1 by (auto simp: inject_console_def split: if_split_asm)
  then have s1: "console_serviced uart cn u1 c1" using held_then_injected [OF inv, of "[]" cn u1 c1] by simp
  have same: "cn_stdin c1 = cn_stdin cn" "cn_dropped c1 = cn_dropped cn" "pl011_inv u1"
    using c1 s1 by (auto simp: inject_console_def console_serviced_def split: if_split_asm prod.splits)
  show ?thesis
  proof (cases "cn_held c1 = [] \<and> \<not> cn_eof c1")
    case False
    then have "uart' = u1" "cn' = c1" using w c1 by (auto simp: boot_await_input_def Let_def split: if_split_asm)
    then show ?thesis using s1 by simp
  next
    case True
    obtain r evs where r: "read_blocking (cn_raw c1) (cn_stdin c1) = (r, evs)" by (rule prod.exhaust)
    obtain used where used: "cn_stdin c1 = used @ evs" "typed used = (case r of None \<Rightarrow> [] | Some c \<Rightarrow> [c])" using read_blocking_used [OF r] by blast
    have h1: "length (cn_held c1) \<le> BOOT_HELD_MAX" using True by simp
    have s2: "console_serviced u1 c1 uart' cn'"
    proof (cases r)
      case None
      then have "uart' = u1" "cn' = c1\<lparr>cn_eof := True, cn_stdin := evs\<rparr>"
        using w c1 True r by (simp_all add: boot_await_input_def Let_def)
      then have "inject_console u1 (c1\<lparr>cn_eof := True, cn_stdin := evs\<rparr>) = (uart', cn')" using True by (simp add: inject_console_def)
      then show ?thesis using held_then_injected [OF same(3) h1, of used "c1\<lparr>cn_eof := True, cn_stdin := evs\<rparr>" uart' cn'] used None by simp
    next
      case (Some c)
      let ?c2 = "hold c (c1\<lparr>cn_stdin := evs\<rparr>)"
      have "boot_pump_stdin u1 ?c2 = (uart', cn')" using w c1 True r Some by (simp add: boot_await_input_def Let_def)
      moreover obtain used2 where u2: "evs = used2 @ cn_stdin (pump_read evs ?c2)" "cn_held (pump_read evs ?c2) = cn_held (fold hold (typed used2) ?c2)"
        "cn_dropped (pump_read evs ?c2) = cn_dropped (fold hold (typed used2) ?c2)" using pump_read_holds [of evs ?c2] by blast
      moreover have "cn_held (fold hold xs ?c2) = cn_held (fold hold (c # xs) c1)" "cn_dropped (fold hold xs ?c2) = cn_dropped (fold hold (c # xs) c1)" for xs
        using hold_all(1,3) [of ?c2 xs] hold_all(1,3) [of c1 "c # xs"] True by (simp_all add: hold_def)
      ultimately show ?thesis
        using held_then_injected [OF same(3) h1, of "used @ used2" "pump_read evs ?c2" uart' cn'] used Some by (simp add: boot_pump_stdin_def)
    qed
    have "rx_queue u1 = rx_queue uart @ cn_held cn"
    proof (cases "cn_held cn = []")
      case False
      then obtain k where "boot_inject_held uart (cn_held cn) = (u1, k)" "k = []" using c1 True by (auto simp: inject_console_def split: prod.splits)
      then show ?thesis using inject_held_queue [OF inv(1), of "cn_held cn" u1 k] by (simp add: injected_def)
    qed (use c1 in simp)
    then show ?thesis using serviced_trans [OF s1 s2] same True by simp
  qed
qed

section \<open>A typed byte wakes the guest\<close>

lemma refreshed_lines:
  assumes "gic_inv (bd_gic d)" "refresh vcpu (as, h, d) = (vcpu', p')"
  shows "\<exists>gic. p' = (as, h, d\<lparr>bd_gic := gic\<rparr>) \<and> gic_inv gic \<and> vc_irq_level vcpu' = oemu_gicv2_irq_level gic \<and>
    gic = (bd_gic d)\<lparr>g_pending := g_pending gic\<rparr> \<and>
    (g_pending gic ! BOOT_UART_SPI \<noteq> 0 \<longleftrightarrow> oemu_pl011_irq_level (bd_uart d)) \<and>
    (g_pending gic ! BOOT_TIMER_VIRT_PPI \<noteq> 0 \<longleftrightarrow>
       oemu_gtimer_pending (sr_cntvct (vc_sysregs vcpu) - sr_cntvoff_el1 (vc_sysregs vcpu)) (sr_cntv_ctl_el1 (vc_sysregs vcpu)) (sr_cntv_cval_el1 (vc_sysregs vcpu))) \<and>
    (g_pending gic ! BOOT_TIMER_PHYS_PPI \<noteq> 0 \<longleftrightarrow>
       oemu_gtimer_pending (sr_cntvct (vc_sysregs vcpu)) (sr_cntp_ctl_el1 (vc_sysregs vcpu)) (sr_cntp_cval_el1 (vc_sysregs vcpu))) \<and>
    (\<forall>i. i \<notin> {BOOT_UART_SPI, BOOT_TIMER_VIRT_PPI, BOOT_TIMER_PHYS_PPI} \<longrightarrow> g_pending gic ! i = g_pending (bd_gic d) ! i)"
proof -
  have l: "length (g_pending (bd_gic d)) = 64" using assms(1) by (simp add: gic_inv_def)
  define gic where "gic = bd_gic (snd (boot_refresh_levels vcpu d))"
  have "gic_inv gic" unfolding gic_def boot_refresh_levels_def Let_def
    by (simp add: gic_inv_set_pending assms(1))
  moreover have "p' = (as, h, d\<lparr>bd_gic := gic\<rparr>)" "vc_irq_level vcpu' = oemu_gicv2_irq_level gic"
    using assms(2) by (auto simp: refresh_def gic_def boot_refresh_levels_def Let_def oemu_vcpu_set_irq_def)
  moreover have "gic = (bd_gic d)\<lparr>g_pending := g_pending gic\<rparr>"
    by (simp add: gic_def boot_refresh_levels_def Let_def oemu_gicv2_set_pending_def)
  ultimately show ?thesis
    using l by (intro exI [of _ gic]) (simp add: gic_def boot_refresh_levels_def Let_def oemu_gicv2_set_pending_def)
qed

lemma eligible_raises:
  assumes "gic_inv gic" "g_ctl gic AND 1 \<noteq> 0" "g_cpu_ctl gic AND 1 \<noteq> 0" "i < lines_of gic"
    and "eligible (g_enable gic) (g_pending gic) (g_active gic) (g_priority gic) (g_target gic) (gic_running_priority gic) (g_cpu_pmr gic AND 0xFF) i"
  shows "oemu_gicv2_irq_level gic"
proof -
  have "lines_of gic \<le> 64" using assms(1) by (simp add: gic_inv_def)
  with scan_cases [of "lines_of gic" "g_enable gic" "g_pending gic" "g_active gic" "g_priority gic" "g_target gic"
      "gic_running_priority gic" "g_cpu_pmr gic AND 0xFF"] assms(4,5)
  have "gic_scan gic < 64" unfolding gic_scan_def [symmetric] by (auto split: if_splits)
  then show ?thesis using assms(2,3) by (simp add: oemu_gicv2_irq_level_def)
qed

lemma refresh_sysregs: "refresh v p = (v', p') \<Longrightarrow> vc_sysregs v' = vc_sysregs v"
  by (auto simp: refresh_def boot_refresh_levels_def oemu_vcpu_set_irq_def Let_def split: prod.splits)

text \<open>A raised and unmasked interrupt input is served before the next fetch.\<close>

lemma raised_irq_taken:
  assumes "vc_irq_level v" "sr_pstate (vc_sysregs v) AND VCPU_I_MASK = 0" "vc_insns_left v \<noteq> 0"
  shows "\<exists>v'. oemu_vcpu_step f0 phys env v p e = Some (OEMU_OK, None, v', p, e) \<and> vc_insns_left v' = vc_insns_left v - 1"
proof -
  obtain kind where k: "oemu_vcpu_internal_pending_kind (sr_pstate (vc_sysregs v)) (vc_irq_level v) (vc_fiq_level v) = Some kind"
    using assms(1,2) that by (cases "vc_fiq_level v \<and> sr_pstate (vc_sysregs v) AND VCPU_F_MASK = 0") (simp_all add: oemu_vcpu_internal_pending_kind_def)
  let ?st = "(c_regs (vc_cpu v), vc_sysregs (tick v))"
  show ?thesis
    using exc_take_routed [of ?st kind ?st 0 0 False]
    by (auto simp: vcpu_step_cases [OF assms(3)] k vcpu_deliver_def deliver_def bind_eq_Some_conv charge_def)
qed

section \<open>Properties\<close>

text \<open>
  Property C8. The boot loop ends. Without a console, for a freshly built virtual CPU, any memory, devices
  and instruction budget, one of two things happens within as many turns as the budget has instructions:
  an instruction trips a check of the emulator, or the loop returns from a last turn. The status it then
  returns is determined: 0 when the guest has powered the machine off, 1 when it asked for a reset, and
  with neither request 4 when the last slice ended blocked in a wait and 3 otherwise, with the whole
  budget used. The branch for other failures is never taken, and standard input is not read.
\<close>

theorem boot_run_ends:
  assumes "vc_quantum vcpu = 1000000" "vc_insns_left vcpu = 1000000"
    and "mc_event (be_machine benv) = OEMU_MACHINE_EVENT_NONE" "mc_exit_code (be_machine benv) = 0" "\<not> ps_halted (be_psci benv)"
    and "start = \<lparr>bs_vcpu = vcpu, bs_space = p, bs_env = benv, bs_budget = max_insns,
           bs_console = \<lparr>cn_held = [], cn_dropped = 0, cn_eof = False, cn_stdin = script, cn_raw = raw\<rparr>\<rparr>"
  shows "\<exists>n last. n \<le> unat max_insns \<and> boot_turns n f0 False start = Some (Inr last) \<and>
    (boot_turn f0 False last = None \<or>
     (\<exists>c s st. boot_turn f0 False last = Some (Inl (c, s)) \<and> boot_run f0 script raw vcpu p benv False max_insns = Some (c, s) \<and>
        slice_status f0 last = Some st \<and> cn_stdin (bs_console s) = script \<and>
        (case mc_event (be_machine (bs_env s)) of
           OEMU_MACHINE_EVENT_POWERDOWN \<Rightarrow> c = 0
         | OEMU_MACHINE_EVENT_RESET \<Rightarrow> c = 1
         | OEMU_MACHINE_EVENT_NONE \<Rightarrow> if st = OEMU_ERR_BLOCKED then c = 4 else c = 3 \<and> bs_budget s = 0)))"
proof -
  have "turn_ok start" using assms by (simp add: turn_ok_def env_ok_def)
  from loop_ends [OF this, of f0] show ?thesis
  proof (elim disjE exE conjE)
    fix n last c s
    assume l: "n \<le> unat (bs_budget start)" "boot_turns n f0 False start = Some (Inr last)" "turn_ok last"
      and r: "boot_turn f0 False last = Some (Inl (c, s))" "boot_loop f0 False start = Some (c, s)" "turn_result False start (Inl (c, s))"
    have run: "boot_run f0 script raw vcpu p benv False max_insns = Some (c, s)" using r(2) by (simp add: boot_run_def assms(6))
    obtain st where st: "slice_status f0 last = Some st" using r(1) by (auto simp: slice_status_def boot_turn_def Let_def split: option.splits)
    have "cn_stdin (bs_console s) = script" using r(3) assms(6) by (simp add: turn_result_def)
    moreover have "case mc_event (be_machine (bs_env s)) of
           OEMU_MACHINE_EVENT_POWERDOWN \<Rightarrow> c = 0 | OEMU_MACHINE_EVENT_RESET \<Rightarrow> c = 1
         | OEMU_MACHINE_EVENT_NONE \<Rightarrow> if st = OEMU_ERR_BLOCKED then c = 4 else c = 3 \<and> bs_budget s = 0"
      using r(3) turn_status [OF l(3) r(1)] st by (cases "mc_event (be_machine (bs_env s))") (auto simp: turn_result_def)
    moreover have "n \<le> unat max_insns" using l(1) assms(6) by simp
    ultimately show ?thesis using l(2) r(1) run st by blast
  qed (use assms(6) in auto)
qed

text \<open>
  Property C31. No keystroke is lost silently or overtakes another. Both services of the console, the one
  between slices and the one that waits for a parked guest, read some events off standard input and put
  the bytes typed behind those in the receive ring and the holding buffer, in the order they were typed.
  Bytes are dropped only when the buffer of 256 is full, and then all of them are counted. What stays in
  the buffer is what the port refuses: its receiver is off or its ring is full. (The comment at the
  buffer asks for this; the one at the call in the run loop still says that such a byte is dropped.)
\<close>

theorem boot_console_order:
  assumes "pl011_inv uart" "length (cn_held cn) \<le> BOOT_HELD_MAX"
  shows "console_serviced uart cn (fst (boot_pump_stdin uart cn)) (snd (boot_pump_stdin uart cn)) \<and>
    console_serviced uart cn (fst (snd (boot_await_input uart cn))) (snd (snd (boot_await_input uart cn)))"
  using pump_serviced [OF assms] await_serviced [OF assms] by (metis prod.collapse)

text \<open>
  Property C32. A typed byte interrupts a waiting guest. When the console service puts a byte into the ring
  of a port whose receive interrupt is unmasked, both enables of the interrupt controller are set and its
  line 33 is enabled, idle, routed here and urgent enough, the next sample of the lines makes line 33
  pending and raises the interrupt input of the virtual CPU. With IRQs unmasked in PSTATE and a quantum
  that is not zero, the first step of the re-armed virtual CPU then delivers an interrupt instead of
  executing its wait: it succeeds without an instruction, is charged, and leaves the address space and the
  environment as they were.
\<close>

theorem boot_input_wakes:
  assumes "pl011_inv (bd_uart d)" "length (cn_held cn) \<le> BOOT_HELD_MAX" "gic_inv (bd_gic d)"
    and "boot_await_input (bd_uart d) cn = (g, uart, cn')" "rx_queue uart \<noteq> rx_queue (bd_uart d)"
    and "ua_imsc (bd_uart d) AND 0x50 \<noteq> 0"
    and "g_ctl (bd_gic d) AND 1 \<noteq> 0" "g_cpu_ctl (bd_gic d) AND 1 \<noteq> 0" "lines_of (bd_gic d) = 64"
    and "eligible (g_enable (bd_gic d)) ((g_pending (bd_gic d))[33 := 1]) (g_active (bd_gic d)) (g_priority (bd_gic d)) (g_target (bd_gic d))
           (gic_running_priority (bd_gic d)) (g_cpu_pmr (bd_gic d) AND 0xFF) 33"
    and "refresh vcpu (as, h, d\<lparr>bd_uart := uart\<rparr>) = (vcpu', p')"
  shows "vc_irq_level vcpu' \<and>
    (\<exists>gic. p' = (as, h, d\<lparr>bd_uart := uart, bd_gic := gic\<rparr>) \<and> g_pending gic ! 33 \<noteq> 0) \<and>
    (sr_pstate (vc_sysregs vcpu) AND VCPU_I_MASK = 0 \<and> vc_quantum vcpu \<noteq> 0 \<longrightarrow>
       (\<exists>v. oemu_vcpu_step f0 oemu_aspace_memops env (oemu_vcpu_rearm vcpu') p' e = Some (OEMU_OK, None, v, p', e) \<and>
          vc_insns_left v = vc_quantum vcpu - 1))"
proof -
  note s = await_serviced [OF assms(1,2,4), unfolded console_serviced_def]
  have ris: "ua_ris uart AND 0x50 = 0x50" "ua_imsc uart = ua_imsc (bd_uart d)" using s assms(5) by auto
  have "ua_ris uart AND ua_imsc uart \<noteq> 0"
  proof
    assume "ua_ris uart AND ua_imsc uart = 0"
    then have "(ua_ris uart AND 0x50) AND ua_imsc uart = 0" by (metis and.assoc and.commute and_zero_eq)
    then show False using assms(6) ris by (simp add: and.commute)
  qed
  then have level: "oemu_pl011_irq_level uart" by (simp add: oemu_pl011_irq_level_def)
  obtain gic where gic: "p' = (as, h, d\<lparr>bd_uart := uart, bd_gic := gic\<rparr>)" "gic_inv gic" "vc_irq_level vcpu' = oemu_gicv2_irq_level gic"
    "gic = (bd_gic d)\<lparr>g_pending := g_pending gic\<rparr>" "g_pending gic ! 33 \<noteq> 0"
    using refreshed_lines [OF _ assms(11)] assms(3) level by auto
  obtain ps where ps: "gic = (bd_gic d)\<lparr>g_pending := ps\<rparr>" using gic(4) by blast
  have "eligible (g_enable gic) (g_pending gic) (g_active gic) (g_priority gic) (g_target gic) (gic_running_priority gic) (g_cpu_pmr gic AND 0xFF) 33"
    using assms(10) gic(5) ps by (simp add: eligible_def)
  then have irq: "vc_irq_level vcpu'"
    using eligible_raises [OF gic(2), of 33] assms(7-9) gic(3) ps by (simp add: lines_of_def)
  have same: "vc_sysregs vcpu' = vc_sysregs vcpu" using refresh_sysregs [OF assms(11)] .
  have "vc_quantum vcpu' = vc_quantum vcpu" using refresh_slice [OF assms(11)] by simp
  then show ?thesis using gic irq raised_irq_taken [of "oemu_vcpu_rearm vcpu'" f0 oemu_aspace_memops env p' e] same
    by (auto simp: oemu_vcpu_rearm_def)
qed

section \<open>Sample states\<close>

definition sample_devices :: "u8 list boot_devices" where
  "sample_devices = \<lparr>bd_uart = sample_port\<lparr>ua_imsc := 0x10\<rparr>, bd_gic = sample_gic\<rparr>"

definition sample_benv :: "u8 list boot_env" where
  "sample_benv = \<lparr>be_machine = zero_machine, be_psci = oemu_psci_init\<rparr>"

definition ready_vcpu :: oemu_vcpu where
  "ready_vcpu = both_pins\<lparr>vc_quantum := 1000000, vc_insns_left := 1000000\<rparr>"

lemma sample_devices_inv: "pl011_inv (bd_uart sample_devices)" "gic_inv (bd_gic sample_devices)" "rx_queue (bd_uart sample_devices) = [0x41]"
  "ua_cr (bd_uart sample_devices) = 0x381"
  using pl011_reach_inv [OF sample_port_reach] sample_gic_inv sample_port_rx sample_port_view
  by (simp_all add: sample_devices_def pl011_inv_def rx_queue_def port_view_def)

text \<open>With a budget of one, a CPU with both pins raised takes the interrupt and the loop reports the timeout.\<close>

theorem boot_run_ends_witness:
  "\<exists>s. boot_run no_fault [] False ready_vcpu (empty_space 0x100 8, \<lambda>_. 0, sample_devices) sample_benv False 1 = Some (3, s) \<and> bs_budget s = 0"
proof -
  let ?p = "(empty_space 0x100 8, \<lambda>_. 0 :: u8, sample_devices)"
  let ?start = "\<lparr>bs_vcpu = ready_vcpu, bs_space = ?p, bs_env = sample_benv, bs_budget = 1,
    bs_console = \<lparr>cn_held = [], cn_dropped = 0, cn_eof = False, cn_stdin = [], cn_raw = False\<rparr>\<rparr>"
  let ?st = "(c_regs (vc_cpu ready_vcpu), vc_sysregs (tick ready_vcpu))"
  have halt: "\<not> boot_halted sample_benv" "mc_event (be_machine sample_benv) = OEMU_MACHINE_EVENT_NONE"
    by (simp_all add: boot_halted_def sample_benv_def zero_machine_def oemu_psci_init_def oemu_machine_event_peek_def)
  have left: "vc_insns_left ready_vcpu \<noteq> 0" by (simp add: ready_vcpu_def)
  have k: "oemu_vcpu_internal_pending_kind (sr_pstate (vc_sysregs ready_vcpu)) (vc_irq_level ready_vcpu) (vc_fiq_level ready_vcpu) = Some OEMU_EXC_KIND_FIQ"
    using both_pins_fields(5) by (simp add: oemu_vcpu_internal_pending_kind_def ready_vcpu_def both_pins_def)
  obtain v1 where "oemu_vcpu_step no_fault oemu_aspace_memops (Some boot_envops) ready_vcpu ?p sample_benv = Some (OEMU_OK, None, v1, ?p, sample_benv)"
    using exc_take_routed [of ?st OEMU_EXC_KIND_FIQ ?st 0 0 False] by (auto simp: vcpu_step_cases [OF left] k vcpu_deliver_def deliver_def bind_eq_Some_conv)
  then have "oemu_vcpu_run no_fault oemu_aspace_memops (Some boot_envops) 1 ready_vcpu ?p sample_benv = Some (OEMU_ERR_TIMEOUT, 1, v1, ?p, sample_benv)"
    using halt by (simp add: oemu_vcpu_run_def numeral_eq_Suc)
  moreover obtain v2 p2 where "refresh v1 ?p = (v2, p2)" by (rule prod.exhaust)
  ultimately have "slice_loop no_fault 1 0 OEMU_OK ready_vcpu ?p sample_benv = Some (OEMU_ERR_TIMEOUT, 1, v2, p2, sample_benv)"
    by (subst slice_loop.simps, simp) (subst slice_loop.simps, simp)
  then obtain s where t: "boot_turn no_fault False ?start = Some (Inl (3, s))"
    using halt(2) by (simp add: boot_turn_def Let_def oemu_machine_event_peek_def)
  then have l: "boot_run no_fault [] False ready_vcpu ?p sample_benv False 1 = Some (3, s)" unfolding boot_run_def by (subst boot_loop.simps) simp
  have turns: "boot_turns n no_fault False ?start = Some (Inr s') \<Longrightarrow> boot_turn no_fault False s' \<noteq> None" for n s' using t by (cases n) auto
  have "vc_quantum ready_vcpu = 1000000" "vc_insns_left ready_vcpu = 1000000" "mc_exit_code (be_machine sample_benv) = 0" "\<not> ps_halted (be_psci sample_benv)"
    by (simp_all add: ready_vcpu_def sample_benv_def zero_machine_def oemu_psci_init_def)
  from boot_run_ends [OF this(1,2) halt(2) this(3,4) refl, of 1 no_fault ?p "[]" False] obtain n last where
    n: "boot_turns n no_fault False ?start = Some (Inr last)" "boot_turn no_fault False last = None \<or>
      (\<exists>c s st. boot_run no_fault [] False ready_vcpu ?p sample_benv False 1 = Some (c, s) \<and> (case mc_event (be_machine (bs_env s)) of
           OEMU_MACHINE_EVENT_POWERDOWN \<Rightarrow> c = 0 | OEMU_MACHINE_EVENT_RESET \<Rightarrow> c = 1
         | OEMU_MACHINE_EVENT_NONE \<Rightarrow> if st = OEMU_ERR_BLOCKED then c = 4 else c = 3 \<and> bs_budget s = 0))" by blast
  from n(2) turns [OF n(1)] l obtain st where "case mc_event (be_machine (bs_env s)) of
           OEMU_MACHINE_EVENT_POWERDOWN \<Rightarrow> (3 :: u32) = 0 | OEMU_MACHINE_EVENT_RESET \<Rightarrow> (3 :: u32) = 1
         | OEMU_MACHINE_EVENT_NONE \<Rightarrow> if st = OEMU_ERR_BLOCKED then (3 :: u32) = 4 else (3 :: u32) = 3 \<and> bs_budget s = 0" by auto
  with l show ?thesis by (simp split: oemu_machine_event.split_asm if_split_asm)
qed

theorem boot_console_order_witness:
  "\<exists>uart cn. boot_pump_stdin (bd_uart sample_devices) \<lparr>cn_held = [0x42], cn_dropped = 0, cn_eof = False, cn_stdin = [Typed 0x43, Quiet], cn_raw = False\<rparr> = (uart, cn) \<and>
     rx_queue uart @ cn_held cn = [0x41, 0x42, 0x43] \<and> cn_dropped cn = 0"
proof -
  let ?cn = "\<lparr>cn_held = [0x42], cn_dropped = 0, cn_eof = False, cn_stdin = [Typed 0x43, Quiet], cn_raw = False\<rparr>"
  obtain uart cn where u: "boot_pump_stdin (bd_uart sample_devices) ?cn = (uart, cn)" by (rule prod.exhaust)
  then have "cn_stdin cn = []" by (auto simp: boot_pump_stdin_def inject_console_def hold_def split: prod.splits)
  with u boot_console_order [OF sample_devices_inv(1), of ?cn] sample_devices_inv(3) show ?thesis
    by (auto simp: console_serviced_def)
qed

theorem boot_input_wakes_witness:
  "\<exists>uart cn vcpu' p'. boot_await_input (bd_uart sample_devices) \<lparr>cn_held = [], cn_dropped = 0, cn_eof = False, cn_stdin = [Quiet, Typed 0x42], cn_raw = False\<rparr> = (True, uart, cn) \<and>
     refresh (oemu_vcpu_set_irq both_pins False) (empty_space 0x100 8, \<lambda>_. 0, sample_devices\<lparr>bd_uart := uart\<rparr>) = (vcpu', p') \<and>
     (\<exists>v. oemu_vcpu_step no_fault oemu_aspace_memops (Some boot_envops) (oemu_vcpu_rearm vcpu') p' sample_benv = Some (OEMU_OK, None, v, p', sample_benv))"
proof -
  let ?cn = "\<lparr>cn_held = [], cn_dropped = 0, cn_eof = False, cn_stdin = [Quiet, Typed 0x42], cn_raw = False\<rparr>"
  obtain st u where u: "oemu_pl011_inject (bd_uart sample_devices) 0x42 = (st, u)" by (rule prod.exhaust)
  have q: "st = OEMU_OK" "rx_queue u = [0x41, 0x42]"
    using inject_queue(6) [OF sample_devices_inv(1) u] sample_devices_inv(3,4) by simp_all
  then obtain cn where w: "boot_await_input (bd_uart sample_devices) ?cn = (True, u, cn)"
    using u by (simp add: boot_await_input_def boot_pump_stdin_def inject_console_def hold_def)
  obtain v p where f: "refresh (oemu_vcpu_set_irq both_pins False) (empty_space 0x100 8, \<lambda>_. 0, sample_devices\<lparr>bd_uart := u\<rparr>) = (v, p)" by (rule prod.exhaust)
  have "gic_running_priority sample_gic = 0x100" by code_simp
  then have e: "eligible (g_enable (bd_gic sample_devices)) ((g_pending (bd_gic sample_devices))[33 := 1]) (g_active (bd_gic sample_devices)) (g_priority (bd_gic sample_devices))
      (g_target (bd_gic sample_devices)) (gic_running_priority (bd_gic sample_devices)) (g_cpu_pmr (bd_gic sample_devices) AND 0xFF) 33"
    by (simp add: eligible_def sample_devices_def sample_gic_def)
  have c: "ua_imsc (bd_uart sample_devices) AND 0x50 \<noteq> 0" "g_ctl (bd_gic sample_devices) AND 1 \<noteq> 0" "g_cpu_ctl (bd_gic sample_devices) AND 1 \<noteq> 0"
    "lines_of (bd_gic sample_devices) = 64" by (simp_all add: sample_devices_def sample_gic_def lines_of_def)
  have m: "sr_pstate (vc_sysregs (oemu_vcpu_set_irq both_pins False)) AND VCPU_I_MASK = 0" "vc_quantum (oemu_vcpu_set_irq both_pins False) \<noteq> 0"
    using both_pins_fields by (simp_all add: oemu_vcpu_set_irq_def both_pins_def)
  from boot_input_wakes [OF sample_devices_inv(1) _ sample_devices_inv(2) w _ c e f, of no_fault "Some boot_envops" sample_benv] q(2) sample_devices_inv(3) w f m
  show ?thesis by fastforce
qed

end
