(* ===== verification/Oemu_Buffer.thy ===== *)
theory Oemu_Buffer
  imports Oemu_Bytes
begin

text \<open>
  The growable byte buffer (\<^verbatim>\<open>src/buffer/buffer.c\<close>) and the allocator it goes through
  (\<^verbatim>\<open>src/core/allocator.c\<close>). Sizes are 64-bit words, a block is the list of its bytes and a null pointer is
  \<^const>\<open>None\<close>. What the code relies on of an allocator is a locale; the default allocator is an instance
  for every choice of the requests that \<^verbatim>\<open>malloc\<close> and \<^verbatim>\<open>realloc\<close> refuse and of the bytes that fresh
  storage holds. The answer is a function of the request, so a size that is refused once is refused again:
  a refusal that passes, or that comes only later, is not represented. Formatted output enters as the text
  of the two passes of \<^verbatim>\<open>vsnprintf\<close>.

  The lemmas show the growth policy to terminate with enough room and every operation to implement the
  one on lists.
\<close>

section \<open>Allocator\<close>

text \<open>Freeing changes nothing the model sees.\<close>

record oemu_allocator =
  al_alloc :: "u64 \<Rightarrow> u8 list option"
  al_realloc :: "u8 list option \<Rightarrow> u64 \<Rightarrow> u8 list option"

definition default_alloc :: "(u64 \<Rightarrow> bool) \<Rightarrow> (nat \<Rightarrow> u8) \<Rightarrow> u64 \<Rightarrow> u8 list option" where
  "default_alloc room junk n = (if room n then Some (map junk [0..<unat n]) else None)"

definition default_realloc :: "(u64 \<Rightarrow> bool) \<Rightarrow> (nat \<Rightarrow> u8) \<Rightarrow> u8 list option \<Rightarrow> u64 \<Rightarrow> u8 list option" where
  "default_realloc room junk ptr n =
     (let old = (case ptr of None \<Rightarrow> [] | Some d \<Rightarrow> d)
      in if room n then Some (take (unat n) old @ map junk [length old..<unat n]) else None)"

definition oemu_allocator_default :: "(u64 \<Rightarrow> bool) \<Rightarrow> (nat \<Rightarrow> u8) \<Rightarrow> oemu_allocator" where
  "oemu_allocator_default room junk = \<lparr>al_alloc = default_alloc room junk, al_realloc = default_realloc room junk\<rparr>"

text \<open>Installing answers the previous allocator; a null one restores the default.\<close>

definition oemu_allocator_set :: "'a \<Rightarrow> 'a option \<Rightarrow> 'a \<Rightarrow> 'a \<times> 'a" where
  "oemu_allocator_set default_allocator allocator current =
     (current, case allocator of Some a \<Rightarrow> a | None \<Rightarrow> default_allocator)"

section \<open>Growth policy\<close>

abbreviation (input) OEMU_BUFFER_MIN_CAP :: u64 where "OEMU_BUFFER_MIN_CAP \<equiv> 16"
abbreviation (input) SIZE_MAX :: u64 where "SIZE_MAX \<equiv> 0xFFFFFFFFFFFFFFFF"

definition oemu_buffer_internal_checked_add :: "u64 \<Rightarrow> u64 \<Rightarrow> oemu_status + u64" where
  "oemu_buffer_internal_checked_add a b = (if a > SIZE_MAX - b then Inl OEMU_ERR_OVERFLOW else Inr (a + b))"

function grow_loop :: "u64 \<Rightarrow> u64 \<Rightarrow> u64" where
  "grow_loop cap required =
     (if cap < required
      then let half = cap div 2
      in if cap > SIZE_MAX - half then required
      else let next = cap + half
      in if next \<le> cap then required else grow_loop next required
      else cap)"
  by pat_completeness auto
termination
  by (relation "measure (\<lambda>(cap, required). unat required - unat cap)") (auto simp: word_less_nat_alt word_le_nat_alt)

declare grow_loop.simps [simp del]

definition oemu_buffer_internal_grow_capacity :: "u64 \<Rightarrow> u64 \<Rightarrow> u64" where
  "oemu_buffer_internal_grow_capacity current_cap required =
     (if current_cap \<ge> required then current_cap
      else grow_loop (if current_cap < OEMU_BUFFER_MIN_CAP then OEMU_BUFFER_MIN_CAP else current_cap) required)"

section \<open>The buffer\<close>

record oemu_buffer =
  bf_data :: "u8 list option"
  bf_len :: u64
  bf_cap :: u64

definition buffer_grow :: "oemu_allocator \<Rightarrow> oemu_buffer \<Rightarrow> u64 \<Rightarrow> oemu_status \<times> oemu_buffer" where
  "buffer_grow alloc buf additional =
     (case oemu_buffer_internal_checked_add (bf_len buf) additional of
        Inl status \<Rightarrow> (status, buf)
      | Inr required \<Rightarrow>
          if required \<le> bf_cap buf then (OEMU_OK, buf)
          else let new_cap = oemu_buffer_internal_grow_capacity (bf_cap buf) required
          in (case al_realloc alloc (bf_data buf) new_cap of
                None \<Rightarrow> (OEMU_ERR_NO_MEMORY, buf)
              | Some data \<Rightarrow> (OEMU_OK, buf\<lparr>bf_data := Some data, bf_cap := new_cap\<rparr>)))"

text \<open>Initialisation overwrites the structure before it allocates.\<close>

definition empty_buffer :: oemu_buffer where
  "empty_buffer = \<lparr>bf_data = None, bf_len = 0, bf_cap = 0\<rparr>"

definition oemu_buffer_init :: "oemu_allocator \<Rightarrow> oemu_buffer option \<Rightarrow> u64 \<Rightarrow> oemu_status \<times> oemu_buffer option" where
  "oemu_buffer_init alloc buf initial_cap =
     (case buf of
        None \<Rightarrow> (OEMU_ERR_INVALID_ARG, None)
      | Some _ \<Rightarrow>
          if initial_cap = 0 then (OEMU_OK, Some empty_buffer)
          else (case al_alloc alloc initial_cap of
                  None \<Rightarrow> (OEMU_ERR_NO_MEMORY, Some empty_buffer)
                | Some data \<Rightarrow> (OEMU_OK, Some (empty_buffer\<lparr>bf_data := Some data, bf_cap := initial_cap\<rparr>))))"

definition oemu_buffer_dispose :: "oemu_buffer option \<Rightarrow> oemu_buffer option" where
  "oemu_buffer_dispose buf = map_option (\<lambda>_. empty_buffer) buf"

definition oemu_buffer_clear :: "oemu_buffer option \<Rightarrow> oemu_buffer option" where
  "oemu_buffer_clear buf = map_option (\<lambda>b. b\<lparr>bf_len := 0\<rparr>) buf"

definition oemu_buffer_reserve :: "oemu_allocator \<Rightarrow> oemu_buffer option \<Rightarrow> u64 \<Rightarrow> oemu_status \<times> oemu_buffer option" where
  "oemu_buffer_reserve alloc buf additional =
     (case buf of
        None \<Rightarrow> (OEMU_ERR_INVALID_ARG, None)
      | Some b \<Rightarrow> (case buffer_grow alloc b additional of (status, b) \<Rightarrow> (status, Some b)))"

definition store_at :: "oemu_buffer \<Rightarrow> nat \<Rightarrow> u8 list \<Rightarrow> oemu_buffer" where
  "store_at buf k bytes = buf\<lparr>bf_data := map_option (\<lambda>d. splice d k bytes) (bf_data buf)\<rparr>"

definition oemu_buffer_append :: "oemu_allocator \<Rightarrow> oemu_buffer option \<Rightarrow> u8 list option \<Rightarrow> u64 \<Rightarrow> oemu_status \<times> oemu_buffer option" where
  "oemu_buffer_append alloc buf bytes sz =
     (case buf of
        None \<Rightarrow> (OEMU_ERR_INVALID_ARG, None)
      | Some b \<Rightarrow>
          if sz = 0 then (OEMU_OK, Some b)
          else (case bytes of
                  None \<Rightarrow> (OEMU_ERR_INVALID_ARG, Some b)
                | Some bs \<Rightarrow>
                    (case buffer_grow alloc b sz of
                       (status, b) \<Rightarrow>
                         if status \<noteq> OEMU_OK then (status, Some b)
                         else let b = store_at b (unat (bf_len b)) (take (unat sz) bs)
                         in (OEMU_OK, Some (b\<lparr>bf_len := bf_len b + sz\<rparr>)))))"

definition oemu_buffer_append_str :: "oemu_allocator \<Rightarrow> oemu_buffer option \<Rightarrow> u8 list option \<Rightarrow> oemu_status \<times> oemu_buffer option" where
  "oemu_buffer_append_str alloc buf str =
     (case (buf, str) of
        (Some _, Some s) \<Rightarrow> oemu_buffer_append alloc buf (Some s) (of_nat (length s))
      | _ \<Rightarrow> (OEMU_ERR_INVALID_ARG, buf))"

text \<open>\<open>pass1\<close> and \<open>pass2\<close> are the texts of the two formatting passes; \<^const>\<open>None\<close> is a negative answer. The second
  is cut to the room it was given and ended by a terminator.\<close>

definition oemu_buffer_appendf :: "oemu_allocator \<Rightarrow> oemu_buffer option \<Rightarrow> u8 list option \<Rightarrow> u8 list option \<Rightarrow> oemu_status \<times> oemu_buffer option" where
  "oemu_buffer_appendf alloc buf pass1 pass2 =
     (case buf of
        None \<Rightarrow> (OEMU_ERR_INVALID_ARG, None)
      | Some b \<Rightarrow>
          (case pass1 of
             None \<Rightarrow> (OEMU_ERR_INVALID_ARG, Some b)
           | Some needed \<Rightarrow>
               if needed = [] then (OEMU_OK, Some b)
               else let needed_sz = of_nat (length needed)
               in (case oemu_buffer_internal_checked_add needed_sz 1 of
                     Inl status \<Rightarrow> (status, Some b)
                   | Inr with_nul \<Rightarrow>
                       (case buffer_grow alloc b with_nul of
                          (status, b) \<Rightarrow>
                            if status \<noteq> OEMU_OK then (status, Some b)
                            else (case pass2 of
                                    None \<Rightarrow> (OEMU_ERR_INVALID_ARG, Some b)
                                  | Some written \<Rightarrow>
                                      let b = store_at b (unat (bf_len b)) (take (unat needed_sz) written @ [0])
                                      in if length written \<noteq> unat needed_sz then (OEMU_ERR_INVALID_ARG, Some b)
                                      else (OEMU_OK, Some (b\<lparr>bf_len := bf_len b + needed_sz\<rparr>)))))))"

text \<open>The answer is the block the returned pointer names.\<close>

definition oemu_buffer_cstr :: "oemu_allocator \<Rightarrow> oemu_buffer option \<Rightarrow> u8 list option \<times> oemu_buffer option" where
  "oemu_buffer_cstr alloc buf =
     (case buf of
        None \<Rightarrow> (None, None)
      | Some b \<Rightarrow>
          (case buffer_grow alloc b 1 of
             (status, b) \<Rightarrow>
               if status \<noteq> OEMU_OK then (None, Some b)
               else let b = store_at b (unat (bf_len b)) [0] in (bf_data b, Some b)))"

definition oemu_buffer_len :: "oemu_buffer option \<Rightarrow> u64" where
  "oemu_buffer_len buf = (case buf of None \<Rightarrow> 0 | Some b \<Rightarrow> bf_len b)"

definition oemu_buffer_capacity :: "oemu_buffer option \<Rightarrow> u64" where
  "oemu_buffer_capacity buf = (case buf of None \<Rightarrow> 0 | Some b \<Rightarrow> bf_cap b)"

definition oemu_buffer_data :: "oemu_buffer option \<Rightarrow> u8 list option" where
  "oemu_buffer_data buf = (case buf of None \<Rightarrow> None | Some b \<Rightarrow> bf_data b)"

section \<open>The growth policy has enough room\<close>

lemma checked_add_spec:
  "oemu_buffer_internal_checked_add a b = (if unat a + unat b < 2 ^ 64 then Inr (a + b) else Inl OEMU_ERR_OVERFLOW)"
  "unat a + unat b < 2 ^ 64 \<Longrightarrow> unat (a + b) = unat a + unat b"
proof -
  have b: "unat b < 2 ^ 64" using unsigned_less [of b, where 'a = nat] by simp
  have "unat (SIZE_MAX - b) = 2 ^ 64 - 1 - unat b" using b by (subst unat_sub) (simp_all add: word_le_nat_alt)
  then show "oemu_buffer_internal_checked_add a b = (if unat a + unat b < 2 ^ 64 then Inr (a + b) else Inl OEMU_ERR_OVERFLOW)"
    using b by (auto simp: oemu_buffer_internal_checked_add_def word_less_nat_alt)
  show "unat a + unat b < 2 ^ 64 \<Longrightarrow> unat (a + b) = unat a + unat b" by (simp add: unat_word_ariths)
qed

lemma grow_loop_bounds:
  "required \<le> grow_loop cap required"
  "16 \<le> unat cap \<Longrightarrow> unat (grow_loop cap required) \<le> max (unat cap) (unat required + unat required div 2)"
proof -
  have "required \<le> grow_loop cap required \<and>
    (16 \<le> unat cap \<longrightarrow> unat (grow_loop cap required) \<le> max (unat cap) (unat required + unat required div 2))"
  proof (induction cap required rule: grow_loop.induct)
    case (1 cap required)
    let ?next = "cap + cap div 2"
    show ?case
    proof (cases "cap < required \<and> \<not> cap > SIZE_MAX - cap div 2 \<and> \<not> ?next \<le> cap")
      case True
      then have "oemu_buffer_internal_checked_add cap (cap div 2) = Inr ?next"
        by (simp add: oemu_buffer_internal_checked_add_def)
      then have n: "unat ?next = unat cap + unat cap div 2"
        using checked_add_spec [of cap "cap div 2"] by (simp add: unat_div split: if_splits)
      moreover have "unat cap div 2 \<le> unat required div 2" "unat cap < unat required"
        using True by (auto simp: word_less_nat_alt intro: div_le_mono)
      ultimately show ?thesis
        using 1 True by (subst (1 2) grow_loop.simps) (auto simp: Let_def)
    next
      case False
      then show ?thesis by (subst (1 2) grow_loop.simps) (auto simp: Let_def max_def)
    qed
  qed
  then show "required \<le> grow_loop cap required"
    "16 \<le> unat cap \<Longrightarrow> unat (grow_loop cap required) \<le> max (unat cap) (unat required + unat required div 2)" by simp_all
qed

lemma grow_capacity_bounds:
  "required \<le> oemu_buffer_internal_grow_capacity cap required" "cap \<le> oemu_buffer_internal_grow_capacity cap required"
  "unat (oemu_buffer_internal_grow_capacity cap required) \<le> max (max 16 (unat cap)) (unat required + unat required div 2)"
proof -
  let ?c = "if cap < OEMU_BUFFER_MIN_CAP then OEMU_BUFFER_MIN_CAP else cap"
  have c: "16 \<le> unat ?c" "unat ?c = max 16 (unat cap)" by (auto simp: word_less_nat_alt max_def)
  show "required \<le> oemu_buffer_internal_grow_capacity cap required"
    by (simp add: oemu_buffer_internal_grow_capacity_def grow_loop_bounds(1))
  then show "cap \<le> oemu_buffer_internal_grow_capacity cap required"
    by (auto simp: oemu_buffer_internal_grow_capacity_def split: if_splits)
  show "unat (oemu_buffer_internal_grow_capacity cap required) \<le> max (max 16 (unat cap)) (unat required + unat required div 2)"
    using grow_loop_bounds(2) [OF c(1), of required] unfolding c(2)
    by (auto simp: oemu_buffer_internal_grow_capacity_def)
qed

section \<open>What the code relies on of an allocator\<close>

locale allocator =
  fixes al :: oemu_allocator
  assumes alloc_size: "al_alloc al n = Some d \<Longrightarrow> length d = unat n"
    and realloc_size: "al_realloc al p n = Some d \<Longrightarrow> length d = unat n"
    and realloc_keeps: "al_realloc al (Some old) n = Some d \<Longrightarrow> length old \<le> unat n \<Longrightarrow> take (length old) d = old"

interpretation libc: allocator "oemu_allocator_default room junk" for room junk
  by unfold_locales (auto simp: oemu_allocator_default_def default_alloc_def default_realloc_def Let_def split: if_splits option.splits)

text \<open>The block holds the capacity and the contents are its start.\<close>

definition buf_ok :: "oemu_buffer \<Rightarrow> bool" where
  "buf_ok b \<longleftrightarrow> (case bf_data b of None \<Rightarrow> bf_cap b = 0 | Some d \<Rightarrow> length d = unat (bf_cap b)) \<and> bf_len b \<le> bf_cap b"

definition contents :: "oemu_buffer \<Rightarrow> u8 list" where
  "contents b = take (unat (bf_len b)) (case bf_data b of None \<Rightarrow> [] | Some d \<Rightarrow> d)"

text \<open>The same operations on a list of bytes.\<close>

datatype buffer_op =
    Op_Append "u8 list option" u64
  | Op_Append_Str "u8 list"
  | Op_Appendf "u8 list"
  | Op_Reserve u64
  | Op_Cstr
  | Op_Clear

fun op_ok :: "buffer_op \<Rightarrow> bool" where
  "op_ok (Op_Append (Some bs) sz) \<longleftrightarrow> unat sz \<le> length bs"
| "op_ok (Op_Append_Str s) \<longleftrightarrow> length s < 2 ^ 64"
| "op_ok (Op_Appendf s) \<longleftrightarrow> length s < 2 ^ 31"
| "op_ok _ \<longleftrightarrow> True"

primrec buffer_do :: "oemu_allocator \<Rightarrow> buffer_op \<Rightarrow> oemu_buffer option \<Rightarrow> oemu_status \<times> oemu_buffer option" where
  "buffer_do al (Op_Append bs sz) b = oemu_buffer_append al b bs sz"
| "buffer_do al (Op_Append_Str s) b = oemu_buffer_append_str al b (Some s)"
| "buffer_do al (Op_Appendf s) b = oemu_buffer_appendf al b (Some s) (Some s)"
| "buffer_do al (Op_Reserve n) b = oemu_buffer_reserve al b n"
| "buffer_do al Op_Cstr b = (case oemu_buffer_cstr al b of (r, b) \<Rightarrow> (if r = None then OEMU_ERR_NO_MEMORY else OEMU_OK, b))"
| "buffer_do al Op_Clear b = (OEMU_OK, oemu_buffer_clear b)"

primrec list_do :: "buffer_op \<Rightarrow> u8 list \<Rightarrow> u8 list" where
  "list_do (Op_Append bs sz) xs = xs @ (case bs of None \<Rightarrow> [] | Some bs \<Rightarrow> take (unat sz) bs)"
| "list_do (Op_Append_Str s) xs = xs @ s"
| "list_do (Op_Appendf s) xs = xs @ s"
| "list_do (Op_Reserve n) xs = xs"
| "list_do Op_Cstr xs = xs"
| "list_do Op_Clear xs = []"

lemma buf_block:
  assumes "buf_ok b" "0 < unat (bf_cap b)"
  obtains d where "bf_data b = Some d" "length d = unat (bf_cap b)" "unat (bf_len b) \<le> length d"
  using assms by (auto simp: buf_ok_def word_le_nat_alt split: option.splits)

lemma store_facts:
  assumes "buf_ok b" "unat (bf_len b) + length bs \<le> unat (bf_cap b)" "bs \<noteq> []"
  shows "buf_ok (store_at b (unat (bf_len b)) bs)" "contents (store_at b (unat (bf_len b)) bs) = contents b"
    "k \<le> length bs \<Longrightarrow> buf_ok ((store_at b (unat (bf_len b)) bs)\<lparr>bf_len := bf_len b + of_nat k\<rparr>) \<and>
       contents ((store_at b (unat (bf_len b)) bs)\<lparr>bf_len := bf_len b + of_nat k\<rparr>) = contents b @ take k bs"
    "bf_data (store_at b (unat (bf_len b)) bs) = map_option (\<lambda>d. splice d (unat (bf_len b)) bs) (bf_data b)"
proof -
  have "0 < unat (bf_cap b)" using assms(2,3) by (cases bs) simp_all
  then obtain d where d: "bf_data b = Some d" "length d = unat (bf_cap b)" "unat (bf_len b) \<le> length d"
    using buf_block [OF assms(1)] by metis
  have s: "unat (bf_len b) + length bs \<le> length d" using assms(2) d(2) by simp
  note f = splice_facts [OF s]
  show "buf_ok (store_at b (unat (bf_len b)) bs)" "contents (store_at b (unat (bf_len b)) bs) = contents b"
    using assms(1) d f by (simp_all add: buf_ok_def contents_def store_at_def)
  show "bf_data (store_at b (unat (bf_len b)) bs) = map_option (\<lambda>d. splice d (unat (bf_len b)) bs) (bf_data b)" by (simp add: store_at_def)
  assume k: "k \<le> length bs"
  have lim: "unat (bf_cap b) < 2 ^ 64" using unsigned_less [of "bf_cap b", where 'a = nat] by simp
  have u: "unat (bf_len b + of_nat k) = unat (bf_len b) + k"
    using k assms(2) lim by (simp add: unat_word_ariths unat_of_nat)
  have "take (unat (bf_len b) + k) (splice d (unat (bf_len b)) bs) = take (unat (bf_len b)) d @ take k bs"
    using d(3) k by (simp add: splice_def)
  then show "buf_ok ((store_at b (unat (bf_len b)) bs)\<lparr>bf_len := bf_len b + of_nat k\<rparr>) \<and>
       contents ((store_at b (unat (bf_len b)) bs)\<lparr>bf_len := bf_len b + of_nat k\<rparr>) = contents b @ take k bs"
    using d f u k assms(2) by (simp add: buf_ok_def contents_def store_at_def word_le_nat_alt)
qed

context allocator
begin

lemma grow_refines:
  assumes "buf_ok b" "buffer_grow al b n = (st, b')"
  shows "buf_ok b'" "contents b' = contents b" "bf_len b' = bf_len b"
    "st = OEMU_OK \<Longrightarrow> unat (bf_len b) + unat n \<le> unat (bf_cap b')"
    "st = OEMU_ERR_OVERFLOW \<longleftrightarrow> 2 ^ 64 \<le> unat (bf_len b) + unat n"
    "st \<in> {OEMU_OK, OEMU_ERR_OVERFLOW, OEMU_ERR_NO_MEMORY}" "st \<noteq> OEMU_OK \<Longrightarrow> b' = b"
    "st = OEMU_OK \<Longrightarrow> unat (bf_len b) + unat n \<le> unat (bf_cap b) \<Longrightarrow> b' = b"
proof -
  have *: "buf_ok b' \<and> contents b' = contents b \<and> bf_len b' = bf_len b \<and> (st = OEMU_OK \<longrightarrow> unat (bf_len b) + unat n \<le> unat (bf_cap b')) \<and>
    (st = OEMU_ERR_OVERFLOW \<longleftrightarrow> 2 ^ 64 \<le> unat (bf_len b) + unat n) \<and> st \<in> {OEMU_OK, OEMU_ERR_OVERFLOW, OEMU_ERR_NO_MEMORY} \<and> (st \<noteq> OEMU_OK \<longrightarrow> b' = b) \<and>
    (st = OEMU_OK \<longrightarrow> unat (bf_len b) + unat n \<le> unat (bf_cap b) \<longrightarrow> b' = b)"
  proof (cases "unat (bf_len b) + unat n < 2 ^ 64")
    case False
    then show ?thesis using assms by (auto simp: buffer_grow_def checked_add_spec(1))
  next
    case True
    let ?r = "bf_len b + n" and ?c = "oemu_buffer_internal_grow_capacity (bf_cap b) (bf_len b + n)"
    have r: "unat ?r = unat (bf_len b) + unat n" using True by (rule checked_add_spec)
    have c: "?r \<le> ?c" "bf_cap b \<le> ?c" by (rule grow_capacity_bounds)+
    show ?thesis
    proof (cases "?r \<le> bf_cap b")
      case in_cap: True
      then show ?thesis using assms True r by (auto simp: buffer_grow_def checked_add_spec(1) word_le_nat_alt)
    next
      case grow: False
      show ?thesis
      proof (cases "al_realloc al (bf_data b) ?c")
        case None
        then show ?thesis using assms True grow by (auto simp: buffer_grow_def checked_add_spec(1))
      next
        case (Some d)
        have b': "st = OEMU_OK" "b' = b\<lparr>bf_data := Some d, bf_cap := ?c\<rparr>"
          using assms(2) True grow Some by (auto simp: buffer_grow_def checked_add_spec(1))
        have l: "length d = unat ?c" using Some by (rule realloc_size)
        have "take (unat (bf_len b)) d = contents b"
        proof (cases "bf_data b")
          case None
          then show ?thesis using assms(1) by (auto simp: buf_ok_def contents_def word_le_nat_alt)
        next
          case (Some old)
          then have o: "length old = unat (bf_cap b)" "unat (bf_len b) \<le> length old"
            using assms(1) by (simp_all add: buf_ok_def word_le_nat_alt)
          then have "take (length old) d = old"
            using \<open>al_realloc al (bf_data b) ?c = Some d\<close> Some c(2) by (intro realloc_keeps [of old ?c]) (simp_all add: word_le_nat_alt)
          then have "take (unat (bf_len b)) d = take (unat (bf_len b)) old" using o(2) by (metis min_absorb1 take_take)
          then show ?thesis using Some by (simp add: contents_def)
        qed
        moreover have "bf_len b \<le> ?c" using assms(1) c(2) by (auto simp: buf_ok_def)
        ultimately show ?thesis
          using b' l c(1) r True grow by (simp add: buf_ok_def contents_def word_le_nat_alt)
      qed
    qed
  qed
  from * show "buf_ok b'" "contents b' = contents b" "bf_len b' = bf_len b" "st \<in> {OEMU_OK, OEMU_ERR_OVERFLOW, OEMU_ERR_NO_MEMORY}"
    "st = OEMU_ERR_OVERFLOW \<longleftrightarrow> 2 ^ 64 \<le> unat (bf_len b) + unat n" by auto
  from * show "st = OEMU_OK \<Longrightarrow> unat (bf_len b) + unat n \<le> unat (bf_cap b')" "st \<noteq> OEMU_OK \<Longrightarrow> b' = b"
    "st = OEMU_OK \<Longrightarrow> unat (bf_len b) + unat n \<le> unat (bf_cap b) \<Longrightarrow> b' = b" by auto
qed

lemma append_refines:
  assumes "buf_ok b" "unat sz \<le> length bs" "oemu_buffer_append al (Some b) (Some bs) sz = (st, r)"
  shows "\<exists>b'. r = Some b' \<and> buf_ok b' \<and> contents b' = (if st = OEMU_OK then contents b @ take (unat sz) bs else contents b)"
proof (cases "sz = 0")
  case True
  then show ?thesis using assms by (auto simp: oemu_buffer_append_def)
next
  case False
  obtain s g where g: "buffer_grow al b sz = (s, g)" by fastforce
  note f = grow_refines [OF assms(1) g]
  show ?thesis
  proof (cases "s = OEMU_OK")
    case True
    have ne: "take (unat sz) bs \<noteq> []" using False assms(2) by (auto simp: unat_eq_zero)
    have room: "unat (bf_len g) + length (take (unat sz) bs) \<le> unat (bf_cap g)" using f(3) f(4) [OF True] assms(2) by simp
    have "st = OEMU_OK \<and> r = Some ((store_at g (unat (bf_len g)) (take (unat sz) bs))\<lparr>bf_len := bf_len g + of_nat (unat sz)\<rparr>)"
      using assms(3) False g True by (auto simp: oemu_buffer_append_def Let_def store_at_def)
    with store_facts(3) [OF f(1) room ne, of "unat sz"] f(2) assms(2) show ?thesis by simp
  next
    case no: False
    then have "st = s \<and> r = Some b" using assms(3) False g f(7) by (simp add: oemu_buffer_append_def)
    with no assms(1) show ?thesis by simp
  qed
qed

lemma appendf_refines:
  assumes "buf_ok b" "length s < 2 ^ 31" "oemu_buffer_appendf al (Some b) (Some s) (Some s) = (st, r)"
  shows "\<exists>b'. r = Some b' \<and> buf_ok b' \<and> contents b' = (if st = OEMU_OK then contents b @ s else contents b)"
proof (cases "s = []")
  case True
  then show ?thesis using assms by (auto simp: oemu_buffer_appendf_def)
next
  case False
  have l: "unat (of_nat (length s) :: u64) = length s" using assms(2) by (simp add: unat_of_nat)
  then have c: "oemu_buffer_internal_checked_add (of_nat (length s)) 1 = Inr (of_nat (length s) + 1)"
    "unat (of_nat (length s) + 1 :: u64) = length s + 1"
    using assms(2) checked_add_spec [of "of_nat (length s)" 1] by simp_all
  obtain q g where g: "buffer_grow al b (of_nat (length s) + 1) = (q, g)" by fastforce
  note f = grow_refines [OF assms(1) g]
  show ?thesis
  proof (cases "q = OEMU_OK")
    case True
    have room: "unat (bf_len g) + length (s @ [0]) \<le> unat (bf_cap g)" using f(3) f(4) [OF True] c(2) by simp
    have "st = OEMU_OK \<and> r = Some ((store_at g (unat (bf_len g)) (s @ [0]))\<lparr>bf_len := bf_len g + of_nat (length s)\<rparr>)"
      using assms(3) False g True l c(1) by (auto simp: oemu_buffer_appendf_def Let_def store_at_def)
    with store_facts(3) [OF f(1) room, of "length s"] f(2) show ?thesis by simp
  next
    case no: False
    then have "st = q \<and> r = Some b" using assms(3) False g f(7) c(1) by (simp add: oemu_buffer_appendf_def Let_def)
    with no assms(1) show ?thesis by simp
  qed
qed

lemma cstr_refines:
  assumes "buf_ok b" "oemu_buffer_cstr al (Some b) = (t, r)"
  shows "\<exists>b'. r = Some b' \<and> buf_ok b' \<and> contents b' = contents b \<and> (case t of None \<Rightarrow> b' = b | Some d \<Rightarrow> take (unat (bf_len b') + 1) d = contents b' @ [0])"
proof -
  obtain q g where g: "buffer_grow al b 1 = (q, g)" by fastforce
  note f = grow_refines [OF assms(1) g]
  show ?thesis
  proof (cases "q = OEMU_OK")
    case True
    have room: "unat (bf_len g) + length [0 :: u8] \<le> unat (bf_cap g)" using f(3) f(4) [OF True] by simp
    then have "0 < unat (bf_cap g)" by simp
    then obtain d where d: "bf_data g = Some d" "length d = unat (bf_cap g)" using buf_block [OF f(1)] by metis
    have "r = Some (store_at g (unat (bf_len g)) [0]) \<and> t = Some (splice d (unat (bf_len g)) [0])"
      using assms(2) g True d by (auto simp: oemu_buffer_cstr_def Let_def store_at_def)
    moreover have "take (unat (bf_len g) + 1) (splice d (unat (bf_len g)) [0]) = contents g @ [0]"
      using splice_facts(2) [of "unat (bf_len g)" "[0]" d] room d by (simp add: contents_def)
    moreover have "bf_len (store_at g (unat (bf_len g)) [0]) = bf_len g" by (simp add: store_at_def)
    ultimately show ?thesis using store_facts(1,2) [OF f(1) room] f(2) by simp
  next
    case no: False
    then have "t = None \<and> r = Some b" using assms(2) g f(7) by (simp add: oemu_buffer_cstr_def)
    with assms(1) show ?thesis by simp
  qed
qed

lemma do_refines:
  assumes "buf_ok b" "op_ok op" "buffer_do al op (Some b) = (st, r)"
  shows "\<exists>b'. r = Some b' \<and> buf_ok b' \<and> contents b' = (if st = OEMU_OK then list_do op (contents b) else contents b)"
proof (cases op)
  case (Op_Append bs sz)
  show ?thesis
  proof (cases bs)
    case None
    then show ?thesis using assms Op_Append by (auto simp: oemu_buffer_append_def split: if_splits)
  next
    case (Some xs)
    then show ?thesis using append_refines [OF assms(1), of sz xs] assms(2,3) Op_Append by auto
  qed
next
  case (Op_Append_Str s)
  then have l: "unat (of_nat (length s) :: u64) = length s" using assms(2) by (simp add: unat_of_nat)
  then show ?thesis using append_refines [OF assms(1), of "of_nat (length s)" s] assms(3) Op_Append_Str by (auto simp: oemu_buffer_append_str_def)
next
  case (Op_Appendf s)
  then show ?thesis using appendf_refines [OF assms(1), of s] assms(2,3) by auto
next
  case (Op_Reserve n)
  obtain q g where g: "buffer_grow al b n = (q, g)" by fastforce
  then show ?thesis using grow_refines [OF assms(1) g] assms(3) Op_Reserve by (auto simp: oemu_buffer_reserve_def)
next
  case Op_Cstr
  obtain t u where "oemu_buffer_cstr al (Some b) = (t, u)" by fastforce
  then show ?thesis using cstr_refines [OF assms(1), of t u] assms(3) Op_Cstr by auto
next
  case Op_Clear
  then show ?thesis using assms by (auto simp: oemu_buffer_clear_def buf_ok_def contents_def split: option.splits)
qed

end

section \<open>Sequences of operations\<close>

primrec buffer_run :: "oemu_allocator \<Rightarrow> buffer_op list \<Rightarrow> oemu_buffer option \<Rightarrow> oemu_status list \<times> oemu_buffer option" where
  "buffer_run al [] b = ([], b)"
| "buffer_run al (op # ops) b =
     (case buffer_do al op b of (st, b) \<Rightarrow> (case buffer_run al ops b of (sts, b) \<Rightarrow> (st # sts, b)))"

definition accepted :: "(buffer_op \<times> oemu_status) list \<Rightarrow> u8 list \<Rightarrow> u8 list" where
  "accepted ops xs = fold (\<lambda>(op, st) xs. if st = OEMU_OK then list_do op xs else xs) ops xs"

primrec op_need :: "buffer_op \<Rightarrow> nat" where
  "op_need (Op_Append bs sz) = (if bs = None \<and> sz \<noteq> 0 then 2 ^ 64 else unat sz)"
| "op_need (Op_Append_Str s) = length s"
| "op_need (Op_Appendf s) = length s + 1"
| "op_need (Op_Reserve n) = unat n"
| "op_need Op_Cstr = 1"
| "op_need Op_Clear = 0"

context allocator
begin

lemma run_refines:
  assumes "buf_ok b" "list_all op_ok ops" "buffer_run al ops (Some b) = (sts, r)"
  shows "length sts = length ops \<and> (\<exists>b'. r = Some b' \<and> buf_ok b' \<and> contents b' = accepted (zip ops sts) (contents b))"
  using assms
proof (induction ops arbitrary: b sts)
  case (Cons op ops)
  obtain st q where q: "buffer_do al op (Some b) = (st, q)" by fastforce
  with do_refines [OF Cons.prems(1) _ q] Cons.prems(2) obtain b1
    where b1: "q = Some b1" "buf_ok b1" "contents b1 = (if st = OEMU_OK then list_do op (contents b) else contents b)" by auto
  obtain ss where "buffer_run al ops (Some b1) = (ss, r)" "sts = st # ss"
    using Cons.prems(3) q b1(1) by (auto split: prod.splits)
  with Cons.IH [OF b1(2)] Cons.prems(2) b1(3) show ?case by (simp add: accepted_def)
qed (auto simp: accepted_def)

lemma init_refines:
  assumes "oemu_buffer_init al (Some b0) cap = (st, r)"
  shows "\<exists>b. r = Some b \<and> buf_ok b \<and> contents b = [] \<and> st \<in> {OEMU_OK, OEMU_ERR_NO_MEMORY} \<and> (st = OEMU_OK \<longrightarrow> bf_cap b = cap)"
  using assms alloc_size by (auto simp: oemu_buffer_init_def empty_buffer_def buf_ok_def contents_def split: if_splits option.splits)

end

section \<open>With memory to spare\<close>

lemma contents_length: "buf_ok b \<Longrightarrow> length (contents b) = unat (bf_len b)"
  by (auto simp: buf_ok_def contents_def word_le_nat_alt split: option.splits)

lemma grow_succeeds:
  assumes "\<forall>n. room n" "unat (bf_len b) + unat n < 2 ^ 64"
  shows "fst (buffer_grow (oemu_allocator_default room junk) b n) = OEMU_OK"
  using assms
  by (auto simp: buffer_grow_def checked_add_spec(1) oemu_allocator_default_def default_realloc_def Let_def)

lemma do_succeeds:
  assumes room: "\<forall>n. room n" and ok: "buf_ok b" "op_ok op" and fits: "unat (bf_len b) + op_need op < 2 ^ 64"
  shows "fst (buffer_do (oemu_allocator_default room junk) op (Some b)) = OEMU_OK"
proof -
  let ?al = "oemu_allocator_default room junk"
  have append: "fst (oemu_buffer_append ?al (Some b) (Some bs) sz) = OEMU_OK" if "unat (bf_len b) + unat sz < 2 ^ 64" for bs sz
    using grow_succeeds [OF room that, of junk] by (auto simp: oemu_buffer_append_def Let_def split: prod.split)
  show ?thesis
  proof (cases op)
    case (Op_Append bs sz)
    then show ?thesis using append [of sz] fits by (cases bs) (auto simp: oemu_buffer_append_def split: if_splits)
  next
    case (Op_Append_Str s)
    then show ?thesis using append [of "of_nat (length s)" s] fits by (simp add: oemu_buffer_append_str_def unat_of_nat)
  next
    case (Op_Appendf s)
    let ?n = "of_nat (length s) + 1 :: u64"
    have l: "length s < 2 ^ 31" using ok(2) Op_Appendf by simp
    then have n: "unat (of_nat (length s) :: u64) = length s" by (simp add: unat_of_nat)
    then have c: "oemu_buffer_internal_checked_add (of_nat (length s)) 1 = Inr ?n" "unat ?n = length s + 1"
      using l checked_add_spec [of "of_nat (length s)" 1] by simp_all
    have "fst (buffer_grow ?al b ?n) = OEMU_OK" using grow_succeeds [OF room, of b ?n] c(2) fits Op_Appendf by simp
    then show ?thesis using Op_Appendf c(1) n by (auto simp: oemu_buffer_appendf_def Let_def split: prod.split)
  next
    case (Op_Reserve n)
    then show ?thesis using grow_succeeds [OF room, of b n junk] fits by (auto simp: oemu_buffer_reserve_def split: prod.split)
  next
    case Op_Cstr
    then have fits: "unat (bf_len b) + unat (1 :: u64) < 2 ^ 64" using fits by simp
    obtain q g where g: "buffer_grow ?al b 1 = (q, g)" by fastforce
    with grow_succeeds [OF room fits, of junk] have q: "q = OEMU_OK" by simp
    note f = libc.grow_refines [OF ok(1) g]
    have "0 < unat (bf_cap g)" using f(4) [OF q] by simp
    then obtain d where "bf_data g = Some d" using buf_block [OF f(1)] by metis
    then show ?thesis using Op_Cstr g q by (simp add: oemu_buffer_cstr_def Let_def store_at_def)
  qed simp
qed

lemma list_do_length: "op_ok op \<Longrightarrow> op_need op < 2 ^ 64 \<Longrightarrow> length (list_do op xs) \<le> length xs + op_need op"
  by (cases op) (auto split: option.splits if_splits)

lemma run_succeeds:
  assumes "\<forall>n. room n" "buf_ok b" "list_all op_ok ops" "unat (bf_len b) + sum_list (map op_need ops) < 2 ^ 64"
    "buffer_run (oemu_allocator_default room junk) ops (Some b) = (sts, r)"
  shows "list_all (\<lambda>st. st = OEMU_OK) sts"
  using assms
proof (induction ops arbitrary: b sts)
  case (Cons op ops)
  let ?al = "oemu_allocator_default room junk"
  obtain st q where q: "buffer_do ?al op (Some b) = (st, q)" by fastforce
  have ok: "op_ok op" "op_need op < 2 ^ 64" "unat (bf_len b) + op_need op < 2 ^ 64" using Cons.prems(3,4) by simp_all
  then have st: "st = OEMU_OK" using do_succeeds [OF Cons.prems(1,2) ok(1,3), of junk] q by simp
  with libc.do_refines [OF Cons.prems(2) ok(1) q] obtain b1
    where b1: "q = Some b1" "buf_ok b1" "contents b1 = list_do op (contents b)" by auto
  have "unat (bf_len b1) \<le> unat (bf_len b) + op_need op"
    using list_do_length [OF ok(1,2), of "contents b"] contents_length [OF b1(2)] contents_length [OF Cons.prems(2)] b1(3) by simp
  moreover obtain ss where "buffer_run ?al ops (Some b1) = (ss, r)" "sts = st # ss"
    using Cons.prems(5) q b1(1) by (auto split: prod.splits)
  ultimately show ?case using Cons.IH [OF Cons.prems(1) b1(2), of ss] Cons.prems(3,4) st by simp
qed simp

section \<open>Refinement\<close>

text \<open>
  Property C24. The buffer is a list of bytes. After a successful initialisation any sequence of appends
  (raw, string and formatted), reservations, terminated views and clears, whatever the C library's
  allocator refuses, leaves a sound buffer whose contents are those of the accepted operations on the
  empty list: an operation that is refused changes nothing. The length is the length of the list, the
  terminated view is the contents and a zero byte, and disposal leaves the empty buffer. When the
  allocator refuses nothing and the sizes asked for do not reach the end of the address space, every
  operation is accepted.
\<close>

theorem buffer_refines_list:
  assumes "oemu_buffer_init (oemu_allocator_default room junk) (Some b0) cap = (OEMU_OK, b1)" "list_all op_ok ops"
    and "buffer_run (oemu_allocator_default room junk) ops b1 = (sts, r)"
  shows "length sts = length ops \<and> (\<exists>b. r = Some b \<and> buf_ok b \<and> contents b = accepted (zip ops sts) []) \<and>
    unat (oemu_buffer_len r) = length (accepted (zip ops sts) []) \<and>
    (\<forall>t r'. oemu_buffer_cstr (oemu_allocator_default room junk) r = (Some t, r') \<longrightarrow>
       take (unat (oemu_buffer_len r') + 1) t = accepted (zip ops sts) [] @ [0]) \<and>
    oemu_buffer_dispose r = Some empty_buffer \<and>
    ((\<forall>n. room n) \<and> sum_list (map op_need ops) < 2 ^ 64 \<longrightarrow> list_all (\<lambda>st. st = OEMU_OK) sts)"
proof -
  from libc.init_refines [OF assms(1)] obtain b where b: "b1 = Some b" "buf_ok b" "contents b = []" by auto
  note run = assms(3) [unfolded b(1)]
  from libc.run_refines [OF b(2) assms(2) run] obtain e
    where e: "length sts = length ops" "r = Some e" "buf_ok e" "contents e = accepted (zip ops sts) []" using b(3) by auto
  have "take (unat (oemu_buffer_len r') + 1) t = contents e @ [0]"
    if "oemu_buffer_cstr (oemu_allocator_default room junk) r = (Some t, r')" for t r'
    using libc.cstr_refines [OF e(3) that [unfolded e(2)]] by (auto simp: oemu_buffer_len_def)
  moreover have "unat (bf_len b) = 0" using contents_length [OF b(2)] b(3) by simp
  then have "(\<forall>n. room n) \<and> sum_list (map op_need ops) < 2 ^ 64 \<longrightarrow> list_all (\<lambda>st. st = OEMU_OK) sts"
    using run_succeeds [OF _ b(2) assms(2) _ run] by simp
  ultimately show ?thesis
    using e contents_length [OF e(3)] by (simp add: oemu_buffer_len_def oemu_buffer_dispose_def)
qed

theorem buffer_refines_list_witness:
  "\<exists>b1 sts b. oemu_buffer_init (oemu_allocator_default (\<lambda>n. True) (\<lambda>i. 0xAA)) (Some empty_buffer) 0 = (OEMU_OK, b1) \<and>
     buffer_run (oemu_allocator_default (\<lambda>n. True) (\<lambda>i. 0xAA))
       [Op_Append (Some [1, 2, 3]) 2, Op_Reserve 100, Op_Appendf [4], Op_Cstr] b1 = (sts, Some b) \<and>
     list_all (\<lambda>st. st = OEMU_OK) sts \<and> contents b = [1, 2, 4]"
proof -
  let ?al = "oemu_allocator_default (\<lambda>n. True) (\<lambda>i. 0xAA)" and ?ops = "[Op_Append (Some [1, 2, 3]) 2, Op_Reserve 100, Op_Appendf [4], Op_Cstr]"
  have i: "oemu_buffer_init ?al (Some empty_buffer) 0 = (OEMU_OK, Some empty_buffer)" by (simp add: oemu_buffer_init_def)
  obtain sts r where r: "buffer_run ?al ?ops (Some empty_buffer) = (sts, r)" by fastforce
  have o: "list_all op_ok ?ops" by simp
  note p = buffer_refines_list [OF i o r]
  from p have a: "list_all (\<lambda>st. st = OEMU_OK) sts" "length sts = 4" by simp_all
  then obtain s1 s2 s3 s4 where s: "sts = [s1, s2, s3, s4]" by (auto simp: length_Suc_conv numeral_eq_Suc)
  from p i r a show ?thesis by (auto simp: accepted_def s)
qed

end
