(* ===== verification/Oemu_Run.thy ===== *)
theory Oemu_Run
  imports Oemu_Sysenv Oemu_Elf Oemu_Buffer
begin

text \<open>
  The user-mode command (\<^verbatim>\<open>src/main.c\<close>, \<^verbatim>\<open>run\<close>): the file is read into the buffer, loaded as an ELF
  executable into flat memory, given a stack, and interpreted until it exits, faults or has used up its
  budget. Messages to the error stream are left out. What the host decides is in one record: the chunks
  \<^verbatim>\<open>fread\<close> returns and whether reading fails, the blocks the allocator returns, and the stream and clocks
  of the system calls.

  The property is about the whole command: no file makes the emulator trip one of its own checks.
\<close>

section \<open>The command\<close>

abbreviation (input) STACK_BASE :: u64 where "STACK_BASE \<equiv> 0x10000000"
abbreviation (input) STACK_SIZE :: u64 where "STACK_SIZE \<equiv> 0x00100000"
abbreviation (input) STACK_ALIGN :: u64 where "STACK_ALIGN \<equiv> 16"
abbreviation (input) REGION_CAPACITY :: nat where "REGION_CAPACITY \<equiv> 32"
abbreviation (input) EXIT_ERROR :: u32 where "EXIT_ERROR \<equiv> 1"
abbreviation (input) EXIT_TIMEOUT :: u32 where "EXIT_TIMEOUT \<equiv> 3"

definition align_up :: "u64 \<Rightarrow> u64 \<Rightarrow> u64" where
  "align_up v align = (v + (align - 1)) AND NOT (align - 1)"

definition stack_base_for :: "oemu_elf_image \<Rightarrow> u64" where
  "stack_base_for img =
     (let just_past_image = align_up (ei_load_max img) STACK_SIZE + STACK_SIZE
      in if just_past_image > STACK_BASE then just_past_image else STACK_BASE)"

text \<open>A file is what opening and reading it gives: nothing, or the chunks up to the end or the error.\<close>

record host_file =
  fl_chunks :: "u8 list list"
  fl_error :: bool

primrec read_chunks :: "oemu_allocator \<Rightarrow> u8 list list \<Rightarrow> oemu_buffer option \<Rightarrow> oemu_status \<times> oemu_buffer option" where
  "read_chunks al [] buf = (OEMU_OK, buf)"
| "read_chunks al (c # cs) buf =
     (case oemu_buffer_append al buf (Some c) (of_nat (length c)) of
        (st, buf) \<Rightarrow> if st \<noteq> OEMU_OK then (st, buf) else read_chunks al cs buf)"

definition read_file :: "oemu_allocator \<Rightarrow> host_file option \<Rightarrow> oemu_buffer option \<Rightarrow> bool \<times> oemu_buffer option" where
  "read_file al f buf =
     (case f of
        None \<Rightarrow> (False, buf)
      | Some f \<Rightarrow> (case read_chunks al (fl_chunks f) buf of (st, buf) \<Rightarrow> (st = OEMU_OK \<and> \<not> fl_error f, buf)))"

record run_host =
  rh_alloc :: oemu_allocator
  rh_file :: "host_file option"
  rh_table :: "u64 option"
  rh_segments :: bool
  rh_blocks :: "nat \<Rightarrow> u64 option"
  rh_stack :: "u64 option"
  rh_io :: host

text \<open>The image as the loader sees it: the pointer of the buffer and its length.\<close>

definition image_bytes :: "oemu_buffer option \<Rightarrow> u8 list option" where
  "image_bytes buf = map_option (take (unat (oemu_buffer_len buf))) (oemu_buffer_data buf)"

definition exit_status :: "oemu_sysenv \<Rightarrow> oemu_status \<Rightarrow> u32" where
  "exit_status env st =
     (if oemu_sysenv_exited env then oemu_sysenv_exit_code env AND 0xFF
      else if st = OEMU_ERR_TIMEOUT then EXIT_TIMEOUT else EXIT_ERROR)"

text \<open>Loading: everything up to the CPU. The CPU and the memory, or the exit status of the command.\<close>

definition run_setup :: "run_host \<Rightarrow> heap \<Rightarrow> u32 + oemu_cpu \<times> flat" where
  "run_setup rh h =
     (case oemu_buffer_init (rh_alloc rh) (Some empty_buffer) 0 of
        (st, buf) \<Rightarrow>
          if st \<noteq> OEMU_OK then Inl EXIT_ERROR
          else case read_file (rh_alloc rh) (rh_file rh) buf of
            (ok, buf) \<Rightarrow>
              if \<not> ok then Inl EXIT_ERROR
              else case oemu_memory_init (rh_table rh) REGION_CAPACITY \<lparr>mem_table = None, mem_regions = [], mem_capacity = 0\<rparr> of
                (st, mem) \<Rightarrow>
                  if st \<noteq> OEMU_OK then Inl EXIT_ERROR
                  else case oemu_elf_load (rh_segments rh) (rh_blocks rh) (image_bytes buf) (mem, h) of
                    (Inl st, m) \<Rightarrow> Inl EXIT_ERROR
                  | (Inr img, m) \<Rightarrow>
                      let stack_base = stack_base_for img
                      in case oemu_memory_map (rh_stack rh) stack_base STACK_SIZE (OEMU_PERM_READ OR OEMU_PERM_WRITE) m of
                        (st, m) \<Rightarrow>
                          if st \<noteq> OEMU_OK then Inl EXIT_ERROR
                          else let sp = (stack_base + STACK_SIZE) AND NOT (STACK_ALIGN - 1)
                          in Inr (oemu_cpu_init (ei_entry img) sp, m))"

definition run :: "run_host \<Rightarrow> heap \<Rightarrow> u64 \<Rightarrow> (u32 \<times> u8 list) option" where
  "run rh h max_insns =
     (case run_setup rh h of
        Inl code \<Rightarrow> Some (code, [])
      | Inr (cpu, m) \<Rightarrow> do {
          (st, completed, cpu, m, env) \<leftarrow>
            oemu_exec_run_bus oemu_memory_memops (Some (oemu_sysenv_envops (rh_io rh) oemu_memory_memops)) max_insns cpu m oemu_sysenv_init;
          Some (exit_status env st, se_out env) })"

section \<open>Reading the file\<close>

context allocator
begin

lemma read_chunks_contents:
  assumes "buf_ok b" "list_all (\<lambda>c. length c < 2 ^ 64) cs" "read_chunks al cs (Some b) = (st, r)"
  shows "\<exists>b'. r = Some b' \<and> buf_ok b' \<and> (st = OEMU_OK \<longrightarrow> contents b' = contents b @ concat cs)"
  using assms
proof (induction cs arbitrary: b)
  case (Cons c cs)
  obtain s q where q: "oemu_buffer_append al (Some b) (Some c) (of_nat (length c)) = (s, q)" by fastforce
  have l: "unat (of_nat (length c) :: u64) = length c" using Cons.prems(2) by (simp add: unat_of_nat)
  obtain b1 where b1: "q = Some b1" "buf_ok b1" "contents b1 = (if s = OEMU_OK then contents b @ c else contents b)"
    using append_refines [OF Cons.prems(1) _ q] l by auto
  show ?case
  proof (cases "s = OEMU_OK")
    case True
    then show ?thesis using Cons.IH [OF b1(2)] Cons.prems(2,3) q b1 by simp
  next
    case False
    then show ?thesis using Cons.prems(3) q b1 by auto
  qed
qed auto

end

lemma image_bytes_contents:
  assumes "buf_ok b"
  shows "image_bytes (Some b) = Some (contents b) \<or> image_bytes (Some b) = None \<and> contents b = []"
  by (auto simp: image_bytes_def contents_def oemu_buffer_len_def oemu_buffer_data_def split: option.split)

lemma contents_bound: "buf_ok b \<Longrightarrow> length (contents b) < 2 ^ 64"
  using unsigned_less [of "bf_len b", where 'a = nat] by (simp add: contents_length)

section \<open>The stack\<close>

lemma align_up_spec:
  assumes "unat v + 0x100000 \<le> 2 ^ 64"
  shows "unat v \<le> unat (align_up v STACK_SIZE)" "unat (align_up v STACK_SIZE) < unat v + 0x100000"
proof -
  have m: "(x :: u64) AND NOT (STACK_SIZE - 1) = of_nat (unat x div 0x100000 * 0x100000)" for x
  proof -
    have "(x :: u64) AND NOT (mask 20) = push_bit 20 (drop_bit 20 x)"
      by (rule bit_word_eqI) (auto simp: bit_simps)
    moreover have "mask 20 = (STACK_SIZE - 1 :: u64)" by (simp add: mask_eq_exp_minus_1)
    moreover have "push_bit 20 (drop_bit 20 x) = of_nat (unat x div 0x100000 * 0x100000)"
      by (simp add: push_bit_eq_mult drop_bit_eq_div word_arith_nat_div)
    ultimately show ?thesis by simp
  qed
  have s: "unat (v + (STACK_SIZE - 1)) = unat v + 0xFFFFF" using assms by (simp add: unat_word_ariths)
  have "unat (align_up v STACK_SIZE) = (unat v + 0xFFFFF) div 0x100000 * 0x100000"
  proof -
    have "(unat v + 0xFFFFF) div 0x100000 * 0x100000 \<le> unat v + 0xFFFFF" by simp
    then have "(unat v + 0xFFFFF) div 0x100000 * 0x100000 < 2 ^ 64" using assms by linarith
    moreover have "unat (of_nat n :: u64) = n" if "n < 2 ^ 64" for n using that by (simp add: unat_of_nat)
    ultimately show ?thesis unfolding align_up_def m s by blast
  qed
  moreover have "n div 0x100000 * 0x100000 + n mod 0x100000 = n" "n mod 0x100000 < 0x100000" for n :: nat by simp_all
  from this [of "unat v + 0xFFFFF"]
  have "unat v \<le> (unat v + 0xFFFFF) div 0x100000 * 0x100000" "(unat v + 0xFFFFF) div 0x100000 * 0x100000 < unat v + 0x100000" by linarith+
  ultimately show "unat v \<le> unat (align_up v STACK_SIZE)" "unat (align_up v STACK_SIZE) < unat v + 0x100000" by simp_all
qed

lemma stack_base_spec:
  assumes "unat (ei_load_max img) + 0x300000 \<le> 2 ^ 64"
  shows "unat (ei_load_max img) \<le> unat (stack_base_for img)" "unat (stack_base_for img) + 0x100000 \<le> 2 ^ 64"
proof -
  let ?a = "align_up (ei_load_max img) STACK_SIZE"
  note a = align_up_spec [of "ei_load_max img"]
  have "unat (?a + STACK_SIZE) = unat ?a + 0x100000" using a(2) assms by (simp add: unat_word_ariths)
  then show "unat (ei_load_max img) \<le> unat (stack_base_for img)" "unat (stack_base_for img) + 0x100000 \<le> 2 ^ 64"
    using a(1,2) assms by (auto simp: stack_base_for_def Let_def word_less_nat_alt)
qed

lemma stack_aligned: "take_bit 4 (stack_base_for img + STACK_SIZE) = 0" "(stack_base_for img + STACK_SIZE) AND NOT (STACK_ALIGN - 1) = stack_base_for img + STACK_SIZE"
proof -
  have a: "take_bit 4 (align_up v STACK_SIZE) = 0" for v
    by (rule bit_word_eqI) (auto simp: align_up_def bit_simps)
  have add: "take_bit 4 (x + STACK_SIZE) = take_bit 4 (x :: u64)" for x
  proof -
    have "unat (take_bit 4 (y :: u64)) = unat y mod 16" for y by (simp only: unsigned_take_bit_eq) (simp add: take_bit_eq_mod)
    moreover have "unat (x + STACK_SIZE) mod 16 = (unat x + 65536 * 16) mod 16" by (simp add: unat_word_ariths mod_mod_cancel)
    then have "unat (x + STACK_SIZE) mod 16 = unat x mod 16" by (simp only: mod_mult_self1)
    ultimately show ?thesis by (metis unsigned_word_eqI)
  qed
  show t: "take_bit 4 (stack_base_for img + STACK_SIZE) = 0"
    unfolding add by (simp add: stack_base_for_def Let_def add a)
  have "(x :: u64) AND NOT (mask 4) = x" if "take_bit 4 x = 0" for x
  proof (rule bit_word_eqI)
    fix k assume "k < LENGTH(64)"
    moreover have "bit (take_bit 4 x) k = False" by (simp add: that)
    ultimately show "bit (x AND NOT (mask 4)) k = bit x k" by (auto simp: bit_simps)
  qed
  from this [OF t] show "(stack_base_for img + STACK_SIZE) AND NOT (STACK_ALIGN - 1) = stack_base_for img + STACK_SIZE"
    by (simp add: mask_eq_exp_minus_1)
qed

section \<open>Allocation\<close>

text \<open>Every block the allocator does return is fresh at that time.\<close>

primrec blocks_sound :: "(nat \<Rightarrow> u64 option) \<Rightarrow> nat \<Rightarrow> oemu_memory \<Rightarrow> oemu_elf_segment list \<Rightarrow> bool" where
  "blocks_sound blocks i mem [] = True"
| "blocks_sound blocks i mem (s # ss) =
     (case blocks i of None \<Rightarrow> True
      | Some b \<Rightarrow> fresh_block mem b (sg_memsz s) \<and> blocks_sound blocks (i + 1) (with_segment mem s b) ss)"

lemma map_segments_cases:
  assumes "flat_inv (mem, h)" "list_all (seg_ok img) segs" "list_all (seg_free mem) segs"
    and "sorted_wrt (\<lambda>s t. seg_range s \<inter> seg_range t = {}) segs"
    and "length (mem_regions mem) + length segs \<le> mem_capacity mem" "blocks_sound blocks i mem segs"
  shows "blocks_fresh blocks i mem segs \<or> (\<exists>r. map_segments img blocks i segs mn mx (mem, h) = (OEMU_ERR_NO_MEMORY, r))"
  using assms
proof (induction segs arbitrary: i mem h mn mx)
  case (Cons s segs)
  have inv: "mem_inv mem" using Cons.prems(1) by (simp add: flat_inv_def)
  show ?case
  proof (cases "blocks i")
    case None
    have "can_map mem (sg_vaddr s) (sg_memsz s) (sg_perms s)"
      using Cons.prems by (auto simp: can_map_def seg_ok_def seg_free_def seg_range_def)
    then have "oemu_memory_map_image None (sg_vaddr s) (sg_memsz s) (sg_perms s)
        (if sg_filesz s > 0 then Some (drop (unat (sg_offset s)) img) else None) (sg_filesz s) (mem, h) = (OEMU_ERR_NO_MEMORY, (mem, h))"
      using Cons.prems(2) by (auto simp: oemu_memory_map_image_def memory_map_status [OF inv] can_map_def seg_ok_def)
    then show ?thesis using None by (simp add: Let_def)
  next
    case (Some b)
    then have b: "fresh_block mem b (sg_memsz s)" "blocks_sound blocks (i + 1) (with_segment mem s b) segs" using Cons.prems(6) by simp_all
    have "seg_ok img s" "seg_free mem s" "length (mem_regions mem) < mem_capacity mem" using Cons.prems by simp_all
    then obtain h1 where h1: "oemu_memory_map_image (Some b) (sg_vaddr s) (sg_memsz s) (sg_perms s)
         (if sg_filesz s > 0 then Some (drop (unat (sg_offset s)) img) else None) (sg_filesz s) (mem, h) = (OEMU_OK, (with_segment mem s b, h1))"
      "flat_inv (with_segment mem s b, h1)"
      using map_one_segment [OF Cons.prems(1) _ _ _ b(1)] by metis
    have "list_all (seg_free (with_segment mem s b)) segs"
      using Cons.prems(3,4) by (auto simp: list_all_iff seg_free_def with_segment_def new_region_def seg_range_def)
    moreover have "length (mem_regions (with_segment mem s b)) + length segs \<le> mem_capacity (with_segment mem s b)"
      using Cons.prems(5) by (simp add: with_segment_def)
    ultimately have "blocks_fresh blocks (i + 1) (with_segment mem s b) segs \<or>
        (\<exists>r. map_segments img blocks (i + 1) segs mn' mx' (with_segment mem s b, h1) = (OEMU_ERR_NO_MEMORY, r))" for mn' mx'
      using Cons.IH [OF h1(2) _ _ _ _ b(2)] Cons.prems(2,4) by simp
    then show ?thesis using h1(1) Some b(1) by (auto simp: Let_def)
  qed
qed simp

definition start_mem :: "run_host \<Rightarrow> oemu_memory" where
  "start_mem rh = \<lparr>mem_table = rh_table rh, mem_regions = [], mem_capacity = REGION_CAPACITY\<rparr>"

text \<open>The blocks of the segments and of the stack are fresh when they are handed out.\<close>

definition host_sound :: "run_host \<Rightarrow> heap \<Rightarrow> u8 list \<Rightarrow> bool" where
  "host_sound rh h img \<longleftrightarrow>
     (case elf_validate (rh_segments rh) (start_mem rh) img of
        Inl e \<Rightarrow> True
      | Inr (entry, segs) \<Rightarrow> blocks_sound (rh_blocks rh) 0 (start_mem rh) segs \<and>
          (\<forall>b im m. rh_stack rh = Some b \<and> oemu_elf_load (rh_segments rh) (rh_blocks rh) (Some img) (start_mem rh, h) = (Inr im, m) \<longrightarrow>
             fresh_block (fst m) b STACK_SIZE))"

lemma memory_map_count:
  assumes "oemu_memory_map_image blk gva sz perms c n st = (OEMU_OK, st')"
  shows "length (mem_regions (fst st')) = Suc (length (mem_regions (fst st)))" "mem_capacity (fst st') = mem_capacity (fst st)"
  using assms unfolding oemu_memory_map_image_def memory_map_def
  by (auto simp: Let_def split: if_splits option.splits prod.splits)

lemma map_segments_count:
  "map_segments img blocks i segs mn mx st = (OEMU_OK, mn', mx', st') \<Longrightarrow>
    length (mem_regions (fst st')) = length (mem_regions (fst st)) + length segs \<and> mem_capacity (fst st') = mem_capacity (fst st)"
proof (induction segs arbitrary: i mn mx st)
  case (Cons s segs)
  obtain q st1 where q: "oemu_memory_map_image (blocks i) (sg_vaddr s) (sg_memsz s) (sg_perms s)
       (if sg_filesz s > 0 then Some (drop (unat (sg_offset s)) img) else None) (sg_filesz s) st = (q, st1)" by (meson surj_pair)
  with Cons.prems have "q = OEMU_OK" by (auto simp: Let_def split: if_splits)
  with memory_map_count [OF q [unfolded this]] Cons.prems Cons.IH [where st = st1] q show ?case
    by (auto simp: Let_def split: if_splits)
qed simp

lemma elf_load_cases:
  assumes "rh_table rh \<noteq> None" "length img < 2 ^ 64" "host_sound rh h img"
    and "oemu_elf_load (rh_segments rh) (rh_blocks rh) (Some img) (start_mem rh, h) = (Inr im, m)"
  shows "\<exists>segs. elf_validate (rh_segments rh) (start_mem rh) img = Inr (ei_entry im, segs) \<and> flat_inv m \<and>
    ei_load_max im = Max (set (map (\<lambda>s. sg_vaddr s + sg_memsz s) segs)) \<and> list_all (seg_ok img) segs \<and>
    length (mem_regions (fst m)) = length segs \<and> mem_capacity (fst m) = REGION_CAPACITY \<and>
    (\<forall>a. guest_byte m a \<noteq> None \<longleftrightarrow> (\<exists>s \<in> set segs. uint a \<in> seg_range s)) \<and>
    (\<forall>s \<in> set segs. \<forall>a. uint a \<in> seg_range s \<longrightarrow> guest_byte m a = Some (seg_byte img s a))"
proof -
  have inv: "flat_inv (start_mem rh, h)" using assms(1) by (simp add: flat_inv_def mem_inv_def host_inv_def start_mem_def)
  obtain entry segs where v: "elf_validate (rh_segments rh) (start_mem rh) img = Inr (entry, segs)"
    using assms(4) by (auto simp: oemu_elf_load_def split: sum.splits)
  note ok = validate_ok [OF v assms(2)]
  have free: "list_all (seg_free (start_mem rh)) segs" by (simp add: list_all_iff seg_free_def start_mem_def)
  have bs: "blocks_sound (rh_blocks rh) 0 (start_mem rh) segs" using assms(3) v by (simp add: host_sound_def)
  obtain mn mx where ms: "map_segments img (rh_blocks rh) 0 segs 0xFFFFFFFFFFFFFFFF 0 (start_mem rh, h) = (OEMU_OK, mn, mx, m)"
    and im: "ei_entry im = entry" "ei_load_max im = mx"
    using assms(4) v by (auto simp: oemu_elf_load_def split: prod.splits if_splits)
  from map_segments_cases [OF inv ok(2) free ok(3,4) bs, where mn = "0xFFFFFFFFFFFFFFFF" and mx = 0] ms
  have fresh: "blocks_fresh (rh_blocks rh) 0 (start_mem rh) segs" by auto
  have none: "guest_byte (start_mem rh, h) a = None" for a by (simp add: guest_byte_def start_mem_def oemu_memory_internal_find_def split: option.split)
  have mx: "mx = fold max (map (\<lambda>s. sg_vaddr s + sg_memsz s) segs) 0" and bytes: "flat_inv m"
    "\<forall>s \<in> set segs. \<forall>a. uint a \<in> seg_range s \<longrightarrow> guest_byte m a = Some (seg_byte img s a)"
    "\<forall>a. (\<forall>s \<in> set segs. uint a \<notin> seg_range s) \<longrightarrow> guest_byte m a = None"
    using map_segments_ok [OF inv ok(2) free ok(3,4) fresh, where mn = "0xFFFFFFFFFFFFFFFF" and mx = 0] ms none by auto
  show ?thesis
    using v im mx fold_max_bot [of "map (\<lambda>s. sg_vaddr s + sg_memsz s) segs"] ok(1,2) bytes map_segments_count [OF ms]
    by (auto simp: start_mem_def)
qed

section \<open>The mapped stack\<close>

lemma map_is_image: "oemu_memory_map blk gva sz perms st = oemu_memory_map_image blk gva sz perms (Some []) 0 st"
  by (cases st; cases blk) (simp_all add: oemu_memory_map_def oemu_memory_map_image_def memory_map_def Let_def)

lemma stack_mapped:
  assumes "flat_inv m" "\<And>b. blk = Some b \<Longrightarrow> fresh_block (fst m) b sz" "oemu_memory_map blk gva sz perms m = (OEMU_OK, m')"
  shows "flat_inv m'" "guest_byte m' a = (if a - gva < sz then Some 0 else guest_byte m a)" "flat_accepts m' gva sz perms"
    "guest_byte m a \<noteq> None \<Longrightarrow> \<not> a - gva < sz"
proof -
  obtain mem h where m: "m = (mem, h)" by fastforce
  have i: "mem_inv mem" "host_inv mem" using assms(1) m by (simp_all add: flat_inv_def)
  note st = assms(3) [unfolded m oemu_memory_map_def memory_map_status [OF i(1)]]
  obtain b h' where b: "blk = Some b" "can_map mem gva sz perms" "m' = (mem\<lparr>mem_regions := mem_regions mem @ [new_region gva sz perms b True]\<rparr>, h')"
    using st by (auto split: if_splits option.splits)
  have fresh: "fresh_block mem b sz" using assms(2) b(1) m by simp
  show "flat_inv m'" using mem_inv_add [OF i(1) b(2)] host_inv_add [OF i(2) fresh] b(3) by (simp add: flat_inv_def)
  have "oemu_memory_map_image (Some b) gva sz perms (Some []) (of_nat (length ([] :: u8 list))) (mem, h) = (OEMU_OK, m')"
    using assms(3) m b(1) by (simp add: map_is_image)
  from memory_map_image_contents [OF i fresh _ this, of a]
  show "guest_byte m' a = (if a - gva < sz then Some 0 else guest_byte m a)" by (simp add: m)
  have "uint gva + uint sz \<le> 2 ^ 64" "sz \<noteq> 0" using b(2) by (simp_all add: can_map_def)
  then have "region_contains (new_region gva sz perms b True) gva sz" by (simp add: region_contains_def new_region_def)
  moreover have "new_region gva sz perms b True \<in> set (mem_regions (fst m'))" "rg_perms (new_region gva sz perms b True) AND perms = perms"
    using b(3) by (simp_all add: new_region_def)
  ultimately show "flat_accepts m' gva sz perms"
    unfolding flat_accepts_def validate_find find_eq using \<open>sz \<noteq> 0\<close> by (auto simp: find_None_iff)
  assume "guest_byte m a \<noteq> None"
  then obtain v where "guest_byte (mem, h) a = Some v" using m by auto
  then obtain r where "r \<in> set (mem_regions mem)" "uint a \<in> guest_range (rg_gva r) (rg_size r)" unfolding guest_byte_Some_iff [OF i(1)] by auto
  then show "\<not> a - gva < sz" using b(2) in_block_iff [of gva sz a] by (auto simp: can_map_def)
qed

text \<open>Where the image leaves room at the top of the address space, the stack fits above it.\<close>

lemma stack_fits:
  assumes inv: "flat_inv m" and room: "length (mem_regions (fst m)) < mem_capacity (fst m)"
    and bytes: "\<And>a. guest_byte m a \<noteq> None \<Longrightarrow> uint a < uint (ei_load_max im)" and top: "unat (ei_load_max im) + 0x300000 \<le> 2 ^ 64"
    and perms: "perms \<noteq> 0" and blk: "blk \<noteq> None"
  shows "fst (oemu_memory_map blk (stack_base_for im) STACK_SIZE perms m) = OEMU_OK"
proof -
  obtain mem h where m: "m = (mem, h)" by fastforce
  have i: "mem_inv mem" using inv m by (simp add: flat_inv_def)
  note s = stack_base_spec [OF top]
  have su: "uint (ei_load_max im) \<le> uint (stack_base_for im)" "uint (stack_base_for im) + 0x100000 \<le> 2 ^ 64"
    using s by (simp_all add: uint_nat [symmetric] flip: of_nat_le_iff [where 'a = int])
  have "guest_range (stack_base_for im) STACK_SIZE \<inter> guest_range (rg_gva r) (rg_size r) = {}" if r: "r \<in> set (mem_regions mem)" for r
  proof -
    have "x < uint (stack_base_for im)" if x: "x \<in> guest_range (rg_gva r) (rg_size r)" for x
    proof -
      have "uint (rg_gva r) + uint (rg_size r) \<le> 2 ^ 64" using i r by (auto simp: mem_inv_def list_all_iff region_ok_def)
      then have "x < 2 ^ 64" using x unfolding guest_range_def by simp
      moreover have "0 \<le> x" using x order_trans [OF unsigned_greater_eq] unfolding guest_range_def by auto
      ultimately have "0 \<le> x" "x < 2 ^ 64" by simp_all
      then have u: "uint (word_of_int x :: u64) = x" by (simp add: uint_word_of_int)
      have "guest_byte (mem, h) (word_of_int x) = Some (h (rg_host r + (word_of_int x - rg_gva r)))"
        unfolding guest_byte_Some_iff [OF i] using r x u by auto
      then have "x < uint (ei_load_max im)" using bytes [of "word_of_int x"] m u by simp
      then show ?thesis using su(1) by simp
    qed
    then show ?thesis by (fastforce simp: guest_range_def)
  qed
  then have "can_map mem (stack_base_for im) STACK_SIZE perms"
    using room perms su(2) m by (simp add: can_map_def)
  then show ?thesis
    using m blk perms su(2) by (auto simp: oemu_memory_map_def memory_map_status [OF i])
qed

section \<open>The whole command\<close>

lemma exit_status_bound: "exit_status env st < 256"
proof -
  have "(x AND 0xFF :: u32) \<le> 0xFF" for x by (rule word_and_le1)
  then have "(x AND 0xFF :: u32) < 256" for x by (rule order_le_less_trans) simp
  then show ?thesis by (simp add: exit_status_def)
qed

lemma max_top:
  assumes "segs \<noteq> []" "list_all (seg_ok img) segs" "uint a \<in> seg_range s" "s \<in> set segs"
  shows "uint a < uint (Max (set (map (\<lambda>s. sg_vaddr s + sg_memsz s) segs)))"
proof -
  have "uint (sg_vaddr s) + uint (sg_memsz s) < 2 ^ 64" using assms(2,4) by (auto simp: list_all_iff seg_ok_def)
  then have "uint a < uint (sg_vaddr s + sg_memsz s)" using assms(3) by (simp add: seg_range_def guest_range_def uint_word_ariths)
  moreover have "sg_vaddr s + sg_memsz s \<le> Max (set (map (\<lambda>s. sg_vaddr s + sg_memsz s) segs))" using assms(4) by (intro Max_ge) auto
  ultimately show ?thesis by (simp add: word_le_def)
qed

lemma read_chunks_succeeds:
  assumes "\<forall>n. room n" "buf_ok b" "length (contents b) + length (concat cs) < 2 ^ 64"
  shows "\<exists>b'. read_chunks (oemu_allocator_default room junk) cs (Some b) = (OEMU_OK, Some b')"
  using assms
proof (induction cs arbitrary: b)
  case (Cons c cs)
  let ?al = "oemu_allocator_default room junk"
  have l: "unat (of_nat (length c) :: u64) = length c" using Cons.prems(3) by (simp add: unat_of_nat)
  obtain s q where q: "oemu_buffer_append ?al (Some b) (Some c) (of_nat (length c)) = (s, q)" by fastforce
  have s: "s = OEMU_OK"
    using do_succeeds [OF Cons.prems(1,2), of "Op_Append (Some c) (of_nat (length c))" junk] q l Cons.prems(3) contents_length [OF Cons.prems(2)] by simp
  obtain b1 where b1: "q = Some b1" "buf_ok b1" "contents b1 = contents b @ c"
    using libc.append_refines [OF Cons.prems(2) _ q] l s by auto
  then show ?case using Cons.IH [OF Cons.prems(1) b1(2)] Cons.prems(3) q s by simp
qed simp

text \<open>What the command does with an image that could be read.\<close>

definition setup_with :: "run_host \<Rightarrow> heap \<Rightarrow> u8 list \<Rightarrow> u32 + oemu_cpu \<times> flat" where
  "setup_with rh h img =
     (case oemu_elf_load (rh_segments rh) (rh_blocks rh) (Some img) (start_mem rh, h) of
        (Inl st, m) \<Rightarrow> Inl EXIT_ERROR
      | (Inr im, m) \<Rightarrow>
          (case oemu_memory_map (rh_stack rh) (stack_base_for im) STACK_SIZE (OEMU_PERM_READ OR OEMU_PERM_WRITE) m of
             (st, m) \<Rightarrow> if st \<noteq> OEMU_OK then Inl EXIT_ERROR
                else Inr (oemu_cpu_init (ei_entry im) (stack_base_for im + STACK_SIZE), m)))"

lemma no_image: "image_bytes buf = None \<Longrightarrow> oemu_elf_load al blocks (image_bytes buf) st = (Inl OEMU_ERR_INVALID_ARG, st)"
  by (simp add: oemu_elf_load_def)

lemma empty_image: "oemu_elf_load al blocks (Some []) st = (Inl OEMU_ERR_INVALID_ARG, st)"
  by (cases st) (simp add: oemu_elf_load_def elf_validate_def)

lemma empty_ok: "buf_ok empty_buffer" "contents empty_buffer = []" "oemu_buffer_init al (Some empty_buffer) 0 = (OEMU_OK, Some empty_buffer)"
  by (simp_all add: buf_ok_def contents_def empty_buffer_def oemu_buffer_init_def)

lemma setup_eq:
  assumes al: "rh_alloc rh = oemu_allocator_default room junk"
    and fl: "\<And>f. rh_file rh = Some f \<Longrightarrow> list_all (\<lambda>c. length c \<le> 4096) (fl_chunks f)"
  shows "run_setup rh h = Inl EXIT_ERROR \<or>
    (\<exists>f. rh_file rh = Some f \<and> \<not> fl_error f \<and> rh_table rh \<noteq> None \<and> length (concat (fl_chunks f)) < 2 ^ 64 \<and>
       run_setup rh h = setup_with rh h (concat (fl_chunks f)))"
    and "rh_file rh = Some f \<Longrightarrow> \<not> fl_error f \<Longrightarrow> rh_table rh \<noteq> None \<Longrightarrow> \<forall>n. room n \<Longrightarrow> length (concat (fl_chunks f)) < 2 ^ 64 \<Longrightarrow>
      run_setup rh h = setup_with rh h (concat (fl_chunks f))"
proof -
  have eq: "run_setup rh h = setup_with rh h (concat (fl_chunks f)) \<and> length (concat (fl_chunks f)) < 2 ^ 64"
    if f: "rh_file rh = Some f" "\<not> fl_error f" "rh_table rh \<noteq> None" and r: "read_chunks (rh_alloc rh) (fl_chunks f) (Some empty_buffer) = (OEMU_OK, buf)" for f buf
  proof -
    have "list_all (\<lambda>c. length c < 2 ^ 64) (fl_chunks f)" using fl [OF f(1)] by (auto simp: list_all_iff)
    from libc.read_chunks_contents [OF empty_ok(1) this r [unfolded al]] obtain b
      where b: "buf = Some b" "buf_ok b" "contents b = concat (fl_chunks f)" by (auto simp: empty_ok)
    obtain t where t: "rh_table rh = Some t" using f(3) by auto
    have "oemu_elf_load (rh_segments rh) (rh_blocks rh) (image_bytes buf) st = oemu_elf_load (rh_segments rh) (rh_blocks rh) (Some (concat (fl_chunks f))) st" for st
      using image_bytes_contents [OF b(2)] no_image [of buf] by (metis b(1,3) empty_image)
    then have "run_setup rh h = setup_with rh h (concat (fl_chunks f))"
      using f(1,2) r t unfolding run_setup_def setup_with_def Let_def stack_aligned(2)
      by (simp add: empty_ok read_file_def oemu_memory_init_def start_mem_def)
    then show ?thesis using contents_bound [OF b(2)] b(3) by simp
  qed
  show "run_setup rh h = Inl EXIT_ERROR \<or>
    (\<exists>f. rh_file rh = Some f \<and> \<not> fl_error f \<and> rh_table rh \<noteq> None \<and> length (concat (fl_chunks f)) < 2 ^ 64 \<and>
       run_setup rh h = setup_with rh h (concat (fl_chunks f)))"
  proof (cases "rh_file rh")
    case None
    then show ?thesis by (simp add: run_setup_def empty_ok read_file_def)
  next
    case (Some f)
    obtain st buf where r: "read_chunks (rh_alloc rh) (fl_chunks f) (Some empty_buffer) = (st, buf)" by fastforce
    show ?thesis
    proof (cases "st = OEMU_OK \<and> \<not> fl_error f \<and> rh_table rh \<noteq> None")
      case True
      with eq [OF Some _ _ r [unfolded conjunct1 [OF True]]] show ?thesis using Some by blast
    next
      case False
      then show ?thesis using Some r by (auto simp: run_setup_def empty_ok read_file_def oemu_memory_init_def)
    qed
  qed
  assume f: "rh_file rh = Some f" "\<not> fl_error f" "rh_table rh \<noteq> None" "\<forall>n. room n" "length (concat (fl_chunks f)) < 2 ^ 64"
  from read_chunks_succeeds [OF f(4) empty_ok(1), of "fl_chunks f" junk] f(5) empty_ok(2) obtain b
    where "read_chunks (rh_alloc rh) (fl_chunks f) (Some empty_buffer) = (OEMU_OK, Some b)" by (auto simp: al)
  from eq [OF f(1-3) this] show "run_setup rh h = setup_with rh h (concat (fl_chunks f))" by simp
qed

text \<open>A guest is set up when its image is loaded where the file says, over a zeroed, aligned stack that overlaps none of it.\<close>

definition guest_ready :: "u8 list \<Rightarrow> u64 \<Rightarrow> oemu_elf_segment list \<Rightarrow> oemu_cpu \<Rightarrow> flat \<Rightarrow> bool" where
  "guest_ready img entry segs cpu m \<longleftrightarrow> flat_inv m \<and> cpu_inv cpu \<and>
     (\<exists>base. cpu = oemu_cpu_init entry (base + STACK_SIZE) \<and> take_bit 4 (base + STACK_SIZE) = 0 \<and>
        flat_accepts m base STACK_SIZE (OEMU_PERM_READ OR OEMU_PERM_WRITE) \<and> (\<forall>a. a - base < STACK_SIZE \<longrightarrow> guest_byte m a = Some 0) \<and>
        (\<forall>s \<in> set segs. \<forall>a. uint a \<in> seg_range s \<longrightarrow> \<not> a - base < STACK_SIZE \<and> guest_byte m a = Some (seg_byte img s a)))"

lemma setup_with_ready:
  assumes "rh_table rh \<noteq> None" "length img < 2 ^ 64" "host_sound rh h img" "setup_with rh h img = Inr (cpu, m)"
  shows "\<exists>entry segs. elf_validate (rh_segments rh) (start_mem rh) img = Inr (entry, segs) \<and> guest_ready img entry segs cpu m"
proof -
  obtain im m1 where ld: "oemu_elf_load (rh_segments rh) (rh_blocks rh) (Some img) (start_mem rh, h) = (Inr im, m1)"
    and st: "oemu_memory_map (rh_stack rh) (stack_base_for im) STACK_SIZE (OEMU_PERM_READ OR OEMU_PERM_WRITE) m1 = (OEMU_OK, m)"
    and cpu: "cpu = oemu_cpu_init (ei_entry im) (stack_base_for im + STACK_SIZE)"
    using assms(4) unfolding setup_with_def by (auto split: prod.splits sum.splits if_splits)
  obtain segs where l: "elf_validate (rh_segments rh) (start_mem rh) img = Inr (ei_entry im, segs)" "flat_inv m1"
    "\<forall>a. guest_byte m1 a \<noteq> None \<longleftrightarrow> (\<exists>s \<in> set segs. uint a \<in> seg_range s)"
    "\<forall>s \<in> set segs. \<forall>a. uint a \<in> seg_range s \<longrightarrow> guest_byte m1 a = Some (seg_byte img s a)"
    using elf_load_cases [OF assms(1-3) ld] by blast
  have "fresh_block (fst m1) b STACK_SIZE" if "rh_stack rh = Some b" for b
    using assms(3) l(1) ld that by (cases m1) (auto simp: host_sound_def)
  note s = stack_mapped [OF l(2) this st]
  have "\<not> a - stack_base_for im < STACK_SIZE \<and> guest_byte m a = Some (seg_byte img t a)" if "t \<in> set segs" "uint a \<in> seg_range t" for t a
    using s(2,4) [of a] l(4) that by auto
  moreover have "guest_byte m a = Some 0" if "a - stack_base_for im < STACK_SIZE" for a using s(2) [of a] that by simp
  ultimately have "guest_ready img (ei_entry im) segs cpu m"
    unfolding guest_ready_def using s(1,3) cpu stack_aligned(1) [of im] by auto
  then show ?thesis using l(1) by blast
qed

lemma setup_with_succeeds:
  assumes "rh_table rh \<noteq> None" "length img < 2 ^ 64" "host_sound rh h img"
    and v: "elf_validate (rh_segments rh) (start_mem rh) img = Inr (entry, segs)" "blocks_fresh (rh_blocks rh) 0 (start_mem rh) segs"
    and room: "rh_stack rh \<noteq> None" "length segs < REGION_CAPACITY" "\<forall>s \<in> set segs. uint (sg_vaddr s) + uint (sg_memsz s) + 0x300000 \<le> 2 ^ 64"
  shows "\<exists>cpu m. setup_with rh h img = Inr (cpu, m)"
proof -
  have inv: "flat_inv (start_mem rh, h)" using assms(1) by (simp add: flat_inv_def mem_inv_def host_inv_def start_mem_def)
  note ok = validate_ok [OF v(1) assms(2)]
  have free: "list_all (seg_free (start_mem rh)) segs" by (simp add: list_all_iff seg_free_def start_mem_def)
  obtain m1 where "map_segments img (rh_blocks rh) 0 segs 0xFFFFFFFFFFFFFFFF 0 (start_mem rh, h) =
      (OEMU_OK, fold min (map sg_vaddr segs) 0xFFFFFFFFFFFFFFFF, fold max (map (\<lambda>s. sg_vaddr s + sg_memsz s) segs) 0, m1)"
    using map_segments_ok [OF inv ok(2) free ok(3,4) v(2), where mn = "0xFFFFFFFFFFFFFFFF" and mx = 0] by blast
  then obtain im where ld: "oemu_elf_load (rh_segments rh) (rh_blocks rh) (Some img) (start_mem rh, h) = (Inr im, m1)"
    using v(1) by (simp add: oemu_elf_load_def)
  let ?top = "Max (set (map (\<lambda>s. sg_vaddr s + sg_memsz s) segs))"
  from elf_load_cases [OF assms(1-3) ld] v(1)
  have l: "flat_inv m1" "ei_load_max im = ?top" "length (mem_regions (fst m1)) = length segs" "mem_capacity (fst m1) = REGION_CAPACITY"
    "\<forall>a. guest_byte m1 a \<noteq> None \<longleftrightarrow> (\<exists>s \<in> set segs. uint a \<in> seg_range s)" by auto
  have "?top \<in> set (map (\<lambda>s. sg_vaddr s + sg_memsz s) segs)" using ok(1) by (intro Max_in) auto
  then obtain s where s: "s \<in> set segs" "?top = sg_vaddr s + sg_memsz s" by auto
  then have "uint (sg_vaddr s) + uint (sg_memsz s) < 2 ^ 64" using room(3) by fastforce
  then have "uint ?top = uint (sg_vaddr s) + uint (sg_memsz s)" unfolding s(2) by (simp add: uint_word_ariths)
  then have "uint (ei_load_max im) + 0x300000 \<le> 2 ^ 64" using room(3) s(1) l(2) by simp
  then have top: "unat (ei_load_max im) + 0x300000 \<le> 2 ^ 64" by (simp add: uint_nat [symmetric] flip: of_nat_le_iff [where 'a = int])
  have "uint a < uint (ei_load_max im)" if "guest_byte m1 a \<noteq> None" for a
    using that l(2,5) max_top [OF ok(1,2)] by auto
  then have "fst (oemu_memory_map (rh_stack rh) (stack_base_for im) STACK_SIZE (OEMU_PERM_READ OR OEMU_PERM_WRITE) m1) = OEMU_OK"
    using l(1,3,4) room(1,2) by (intro stack_fits [OF _ _ _ top]) simp_all
  then show ?thesis by (auto simp: setup_with_def ld split: prod.splits)
qed

text \<open>
  Property C11. The run command, from the bytes of the file to the exit status of the process. Whatever
  the file holds, whatever the host refuses to read or allocate and whatever the budget, the command
  returns an exit status below 256 without the emulator tripping one of its own checks. A file that cannot
  be read, loaded or given a stack ends in status 1 with no guest output. Otherwise the guest starts at the
  entry point of the image with every segment at its address and a zeroed, aligned stack beside them, and the
  status is the guest's own exit code, the timeout or the failure of its run. With memory to spare, a file
  that validates, has fewer segments than the region table and leaves three MiB at the top of the address
  space is started.
\<close>

theorem run_command:
  assumes al: "rh_alloc rh = oemu_allocator_default room junk"
    and fl: "\<And>f. rh_file rh = Some f \<Longrightarrow> list_all (\<lambda>c. length c \<le> 4096) (fl_chunks f) \<and> host_sound rh h (concat (fl_chunks f))"
  shows "(case run_setup rh h of
      Inl code \<Rightarrow> code = 1 \<and> run rh h budget = Some (1, [])
    | Inr (cpu, m) \<Rightarrow>
        (\<exists>f entry segs. rh_file rh = Some f \<and> \<not> fl_error f \<and>
           elf_validate (rh_segments rh) (start_mem rh) (concat (fl_chunks f)) = Inr (entry, segs) \<and>
           guest_ready (concat (fl_chunks f)) entry segs cpu m) \<and>
        (\<exists>st d cpu' m' env. oemu_exec_run_bus oemu_memory_memops (Some (oemu_sysenv_envops (rh_io rh) oemu_memory_memops))
             budget cpu m oemu_sysenv_init = Some (st, d, cpu', m', env) \<and>
           run rh h budget = Some (exit_status env st, se_out env) \<and> exit_status env st < 256)) \<and>
    (\<forall>f entry segs. rh_file rh = Some f \<and> \<not> fl_error f \<and> rh_table rh \<noteq> None \<and> (\<forall>n. room n) \<and> length (concat (fl_chunks f)) < 2 ^ 64 \<and>
       elf_validate (rh_segments rh) (start_mem rh) (concat (fl_chunks f)) = Inr (entry, segs) \<and>
       blocks_fresh (rh_blocks rh) 0 (start_mem rh) segs \<and> rh_stack rh \<noteq> None \<and> length segs < 32 \<and>
       (\<forall>s \<in> set segs. uint (sg_vaddr s) + uint (sg_memsz s) + 0x300000 \<le> 2 ^ 64) \<longrightarrow> (\<exists>cpu m. run_setup rh h = Inr (cpu, m)))"
    (is "?outcome \<and> ?started")
proof
  have chunks: "\<And>f. rh_file rh = Some f \<Longrightarrow> list_all (\<lambda>c. length c \<le> 4096) (fl_chunks f)" using fl by blast
  note eq = setup_eq(1) [OF al chunks]
  show ?outcome
  proof (cases "run_setup rh h")
    case (Inl code)
    have "setup_with rh h img = Inl c \<Longrightarrow> c = 1" for img c
      unfolding setup_with_def by (auto split: prod.splits sum.splits if_splits)
    then show ?thesis using eq [of h] Inl by (auto simp: run_def)
  next
    case (Inr p)
    obtain cpu m where p: "p = (cpu, m)" by (rule prod.exhaust)
    with eq [of h] Inr obtain f where f: "rh_file rh = Some f" "\<not> fl_error f" "rh_table rh \<noteq> None" "length (concat (fl_chunks f)) < 2 ^ 64"
      "setup_with rh h (concat (fl_chunks f)) = Inr (cpu, m)" by auto
    from setup_with_ready [OF f(3,4) _ f(5)] fl [OF f(1)] obtain entry segs
      where g: "elf_validate (rh_segments rh) (start_mem rh) (concat (fl_chunks f)) = Inr (entry, segs)" "guest_ready (concat (fl_chunks f)) entry segs cpu m" by blast
    then have i: "flat_inv m" "cpu_inv cpu" by (simp_all add: guest_ready_def)
    have env: "flat_user.user.env_ok (rh_io rh) (Some (oemu_sysenv_envops (rh_io rh) oemu_memory_memops))" by (simp add: flat_user.user.env_ok_def)
    from flat_user.user.run_loop_safe [OF i env, of "unat budget" 0 oemu_sysenv_init]
    show ?thesis using Inr p f(1,2) g exit_status_bound
      by (auto simp: run_def oemu_exec_run_bus_def wp_def)
  qed
  show ?started
  proof (intro allI impI, elim conjE)
    fix f entry segs
    assume a: "rh_file rh = Some f" "\<not> fl_error f" "rh_table rh \<noteq> None" "\<forall>n. room n" "length (concat (fl_chunks f)) < 2 ^ 64"
      and v: "elf_validate (rh_segments rh) (start_mem rh) (concat (fl_chunks f)) = Inr (entry, segs)"
        "blocks_fresh (rh_blocks rh) 0 (start_mem rh) segs" "rh_stack rh \<noteq> None" "length segs < 32"
        "\<forall>s \<in> set segs. uint (sg_vaddr s) + uint (sg_memsz s) + 0x300000 \<le> 2 ^ 64"
    have "run_setup rh h = setup_with rh h (concat (fl_chunks f))" by (rule setup_eq(2) [OF al _ a]) (rule chunks)
    moreover have "host_sound rh h (concat (fl_chunks f))" using fl [OF a(1)] by simp
    ultimately show "\<exists>cpu m. run_setup rh h = Inr (cpu, m)"
      using setup_with_succeeds [OF a(3,5) _ v] by simp
  qed
qed

text \<open>The sample image under a host that refuses nothing.\<close>

definition sample_run :: run_host where
  "sample_run = \<lparr>rh_alloc = oemu_allocator_default (\<lambda>n. True) (\<lambda>i. 0xAA), rh_file = Some \<lparr>fl_chunks = [sample_elf], fl_error = False\<rparr>,
     rh_table = Some 0x100, rh_segments = True, rh_blocks = \<lambda>i. Some 0x10000, rh_stack = Some 0x20000, rh_io = \<lparr>hw = \<lambda>out bs. length bs, clk = \<lambda>_ _. None\<rparr>\<rparr>"

lemma sample_run_validates: "elf_validate True (start_mem sample_run) sample_elf = Inr (0x400000, [sample_segment])"
proof -
  have i: "sample_elf ! 0 = 0x7F" "sample_elf ! 1 = 0x45" "sample_elf ! 2 = 0x4C" "sample_elf ! 3 = 0x46" "sample_elf ! 4 = 2" "sample_elf ! 5 = 1"
    by (simp_all add: sample_elf_def)
  show ?thesis
    using i by (simp add: elf_validate_def sample_elf_validates(1) sample_elf_fields elf_is_loadable_def elf_read_segment_def
        oemu_elf_internal_validate_segment_def oemu_elf_internal_within_def sample_segment_def start_mem_def)
qed

lemma sample_run_sound: "host_sound sample_run h sample_elf"
proof -
  have "mem_regions (fst m) = [new_region 0x400000 0x1000 5 0x10000 True]"
    if "oemu_elf_load True (\<lambda>i. Some 0x10000) (Some sample_elf) (start_mem sample_run, h) = (Inr im, m)" for im m
  proof -
    have "seg_ok sample_elf sample_segment" using validate_ok(2) [OF sample_run_validates] sample_elf_validates(1) by simp
    moreover have "flat_inv (start_mem sample_run, h)" "seg_free (start_mem sample_run) sample_segment"
      "length (mem_regions (start_mem sample_run)) < mem_capacity (start_mem sample_run)" "fresh_block (start_mem sample_run) 0x10000 (sg_memsz sample_segment)"
      by (simp_all add: flat_inv_def mem_inv_def host_inv_def start_mem_def sample_run_def seg_free_def fresh_block_def sample_segment_def)
    ultimately have "\<exists>h1. oemu_memory_map_image (Some 0x10000) (sg_vaddr sample_segment) (sg_memsz sample_segment) (sg_perms sample_segment)
         (if sg_filesz sample_segment > 0 then Some (drop (unat (sg_offset sample_segment)) sample_elf) else None) (sg_filesz sample_segment)
         (start_mem sample_run, h) = (OEMU_OK, (with_segment (start_mem sample_run) sample_segment 0x10000, h1))"
      using map_one_segment by metis
    then show ?thesis using that sample_run_validates
      by (auto simp: oemu_elf_load_def Let_def with_segment_def sample_segment_def start_mem_def)
  qed
  then have "fresh_block (fst m) 0x20000 STACK_SIZE"
    if "oemu_elf_load True (\<lambda>i. Some 0x10000) (Some sample_elf) (start_mem sample_run, h) = (Inr im, m)" for im m
    using that by (simp add: fresh_block_def new_region_def guest_range_def)
  moreover have "fresh_block (start_mem sample_run) 0x10000 (sg_memsz sample_segment)"
    by (simp add: fresh_block_def start_mem_def sample_segment_def)
  ultimately show ?thesis using sample_run_validates by (simp add: host_sound_def sample_run_def)
qed

theorem run_command_witness:
  "\<exists>cpu m code out. run_setup sample_run (\<lambda>_. 0) = Inr (cpu, m) \<and> guest_byte m 0x400002 = Some 3 \<and>
     run sample_run (\<lambda>_. 0) 100 = Some (code, out) \<and> code < 256"
proof -
  have al: "rh_alloc sample_run = oemu_allocator_default (\<lambda>n. True) (\<lambda>i. 0xAA)" by (simp add: sample_run_def)
  have fl: "list_all (\<lambda>c. length c \<le> 4096) (fl_chunks f) \<and> host_sound sample_run (\<lambda>_. 0) (concat (fl_chunks f))" if "rh_file sample_run = Some f" for f
    using that sample_run_sound sample_elf_validates(1) by (auto simp: sample_run_def)
  have f: "rh_file sample_run = Some \<lparr>fl_chunks = [sample_elf], fl_error = False\<rparr>" "rh_segments sample_run = True"
    "rh_blocks sample_run = (\<lambda>i. Some 0x10000)" "rh_stack sample_run \<noteq> None" "rh_table sample_run \<noteq> None"
    by (simp_all add: sample_run_def)
  have "blocks_fresh (\<lambda>i. Some 0x10000) 0 (start_mem sample_run) [sample_segment]" "uint (sg_vaddr sample_segment) + uint (sg_memsz sample_segment) + 0x300000 \<le> 2 ^ 64"
    by (simp_all add: start_mem_def sample_segment_def fresh_block_def)
  with run_command [OF al fl, of 100] f sample_run_validates sample_elf_validates(1)
  obtain cpu m where s: "run_setup sample_run (\<lambda>_. 0) = Inr (cpu, m)" by auto
  have "seg_byte sample_elf sample_segment 0x400002 = 3" "uint (0x400002 :: u64) \<in> seg_range sample_segment"
    by (simp_all add: seg_byte_def seg_range_def guest_range_def sample_segment_def sample_elf_def nth_append nth_Cons')
  with run_command [OF al fl, of 100] s f sample_run_validates show ?thesis by (auto simp: guest_ready_def)
qed

end
