(* ===== verification/Oemu_Boot.thy ===== *)
theory Oemu_Boot
  imports Oemu_Boot_Run Oemu_Image Oemu_Virt_Dtb Oemu_Run
begin

text \<open>
  The boot command (\<^verbatim>\<open>src/main.c\<close>, \<^verbatim>\<open>boot\<close>): the files are read, the device tree is generated or loaded and
  patched, the machine is built with its devices, kernel, tree and RAM disk are placed in RAM and the
  virtual CPU is started. A read outside a buffer the program owns is undefined in C; such a step has the
  result \<^const>\<open>None\<close>, like a tripped check. Messages are left out.

  The property says what the kernel finds when it starts.
\<close>

section \<open>Patching a loaded tree\<close>

abbreviation (input) BOOT_RAM_BASE :: u64 where "BOOT_RAM_BASE \<equiv> 0x40000000"
abbreviation (input) BOOT_UART_BASE :: u64 where "BOOT_UART_BASE \<equiv> 0x09000000"
abbreviation (input) BOOT_UART_SIZE :: u64 where "BOOT_UART_SIZE \<equiv> 0x00001000"
abbreviation (input) BOOT_GIC_DIST_BASE :: u64 where "BOOT_GIC_DIST_BASE \<equiv> 0x08000000"
abbreviation (input) BOOT_GIC_DIST_SIZE :: u64 where "BOOT_GIC_DIST_SIZE \<equiv> 0x00010000"
abbreviation (input) BOOT_GIC_CPU_BASE :: u64 where "BOOT_GIC_CPU_BASE \<equiv> 0x08010000"
abbreviation (input) BOOT_GIC_CPU_SIZE :: u64 where "BOOT_GIC_CPU_SIZE \<equiv> 0x00010000"
abbreviation (input) BOOT_GIC_LINES :: nat where "BOOT_GIC_LINES \<equiv> 64"
abbreviation (input) BOOT_DTB_MAX :: nat where "BOOT_DTB_MAX \<equiv> 65536"
abbreviation (input) BOOT_CMDLINE_MAX :: nat where "BOOT_CMDLINE_MAX \<equiv> 256"
abbreviation (input) BOOT_BOOTLINE_LEN :: u32 where "BOOT_BOOTLINE_LEN \<equiv> 257"
abbreviation (input) BOOT_INITRD_MARGIN :: u64 where "BOOT_INITRD_MARGIN \<equiv> 0x1000000"
abbreviation (input) BOOT_REGION_CAPACITY :: nat where "BOOT_REGION_CAPACITY \<equiv> 8"
abbreviation (input) BOOT_FDT_MAGIC :: u32 where "BOOT_FDT_MAGIC \<equiv> 0xD00DFEED"
abbreviation (input) BOOT_FDT_TOKEN_BEGIN_NODE :: u32 where "BOOT_FDT_TOKEN_BEGIN_NODE \<equiv> 1"
abbreviation (input) BOOT_FDT_TOKEN_END_NODE :: u32 where "BOOT_FDT_TOKEN_END_NODE \<equiv> 2"
abbreviation (input) BOOT_FDT_TOKEN_PROP :: u32 where "BOOT_FDT_TOKEN_PROP \<equiv> 3"
abbreviation (input) BOOT_FDT_TOKEN_END :: u32 where "BOOT_FDT_TOKEN_END \<equiv> 9"

definition be32 :: "u8 list \<Rightarrow> nat \<Rightarrow> u32 option" where
  "be32 blob p =
     (if p + 4 \<le> length blob
      then Some (push_bit 24 (ucast (blob ! p)) OR push_bit 16 (ucast (blob ! (p + 1))) OR
             push_bit 8 (ucast (blob ! (p + 2))) OR ucast (blob ! (p + 3)))
      else None)"

definition strnlen :: "u8 list \<Rightarrow> nat" where
  "strnlen s = length (takeWhile (\<lambda>c. c \<noteq> 0) s)"

text \<open>\<^verbatim>\<open>strcmp\<close> of the string at \<open>q\<close> with a literal, which is given with its terminator.\<close>

primrec strcmp_at :: "u8 list \<Rightarrow> nat \<Rightarrow> u8 list \<Rightarrow> bool option" where
  "strcmp_at blob q [] = Some True"
| "strcmp_at blob q (c # cs) =
     (if length blob \<le> q then None else if blob ! q \<noteq> c then Some False else strcmp_at blob (q + 1) cs)"

definition name_is :: "u8 list \<Rightarrow> u32 \<Rightarrow> u32 \<Rightarrow> string \<Rightarrow> bool option" where
  "name_is blob off_strings name_off s = strcmp_at blob (unat off_strings + unat name_off) (c_bytes s @ [0])"

text \<open>The advance past a property, computed in 32 bits.\<close>

definition prop_skip :: "u32 \<Rightarrow> nat" where
  "prop_skip dlen = unat (8 + (dlen + 3) div 4 * 4)"

definition node_skip :: "nat \<Rightarrow> nat" where
  "node_skip nl = (nl + 1 + 3) div 4 * 4"

text \<open>The stores of a patch, which stay inside the blob or are undefined. A patcher answers the patched
  blob, or nothing when there is no place to write.\<close>

definition poke :: "u8 list \<Rightarrow> nat \<Rightarrow> u8 list \<Rightarrow> u8 list option option" where
  "poke blob p bs = (if p + length bs \<le> length blob then Some (Some (splice blob p bs)) else None)"

definition bootline_bytes :: "string \<Rightarrow> u8 list" where
  "bootline_bytes cmdline = c_bytes cmdline @ [0] @ replicate (BOOT_CMDLINE_MAX - length cmdline - 1) 0x20 @ [0]"

text \<open>The properties of the chosen node.\<close>

function chosen_walk :: "u8 list \<Rightarrow> u32 \<Rightarrow> string \<Rightarrow> nat \<Rightarrow> u8 list option option" where
  "chosen_walk blob off_strings cmdline p =
     (if p + 4 \<le> length blob
      then if be32 blob p = Some BOOT_FDT_TOKEN_END_NODE then Some None
      else if be32 blob p \<noteq> Some BOOT_FDT_TOKEN_PROP then Some None
      else case (be32 blob (p + 4), be32 blob (p + 8)) of
        (Some dlen, Some name_off) \<Rightarrow>
          if dlen = BOOT_BOOTLINE_LEN
          then (case name_is blob off_strings name_off ''bootline'' of
                  None \<Rightarrow> None
                | Some True \<Rightarrow> poke blob (p + 12) (bootline_bytes cmdline)
                | Some False \<Rightarrow> chosen_walk blob off_strings cmdline (p + 4 + prop_skip dlen))
          else chosen_walk blob off_strings cmdline (p + 4 + prop_skip dlen)
      | _ \<Rightarrow> None
      else Some None)"
  by pat_completeness auto
termination
  by (relation "measure (\<lambda>(blob, off_strings, cmdline, p). length blob - p)") auto

function bootline_walk :: "u8 list \<Rightarrow> u32 \<Rightarrow> string \<Rightarrow> nat \<Rightarrow> int \<Rightarrow> u8 list option option" where
  "bootline_walk blob off_strings cmdline p depth =
     (if p + 4 \<le> length blob
      then let token = be32 blob p; p = p + 4
      in if token = Some BOOT_FDT_TOKEN_END then Some None
      else if token = Some BOOT_FDT_TOKEN_END_NODE then bootline_walk blob off_strings cmdline p (depth - 1)
      else if token = Some BOOT_FDT_TOKEN_BEGIN_NODE
      then let nl = strnlen (drop p blob);
               is_chosen = (depth = 1 \<and> nl = 6 \<and> take 6 (drop p blob) = c_bytes ''chosen'')
           in if is_chosen then chosen_walk blob off_strings cmdline (p + node_skip nl)
              else bootline_walk blob off_strings cmdline (p + node_skip nl) (depth + 1)
      else if token = Some BOOT_FDT_TOKEN_PROP
      then (case be32 blob p of
              None \<Rightarrow> None
            | Some dlen \<Rightarrow> bootline_walk blob off_strings cmdline (p + prop_skip dlen) depth)
      else Some None
      else Some None)"
  by pat_completeness auto
termination
  by (relation "measure (\<lambda>(blob, off_strings, cmdline, p, depth). length blob - p)") auto

definition dtb_patch_bootline :: "u8 list \<Rightarrow> string \<Rightarrow> u8 list option option" where
  "dtb_patch_bootline blob cmdline =
     (if length cmdline \<ge> BOOT_CMDLINE_MAX then Some None
      else do {
        off_struct \<leftarrow> be32 blob 8;
        off_strings \<leftarrow> be32 blob 12;
        bootline_walk blob off_strings cmdline (unat off_struct) 0 })"

definition be64_bytes :: "u64 \<Rightarrow> u8 list" where
  "be64_bytes v = map (\<lambda>b. ucast (drop_bit (56 - 8 * b) v)) [0..<8]"

function node_walk :: "u8 list \<Rightarrow> u32 \<Rightarrow> u8 list \<Rightarrow> nat \<Rightarrow> int \<Rightarrow> bool \<Rightarrow> u8 list option option" where
  "node_walk blob off_strings reg p depth in_wanted =
     (if p + 4 \<le> length blob
      then let token = be32 blob p; p = p + 4
      in if token = Some BOOT_FDT_TOKEN_END then Some None
      else if token = Some BOOT_FDT_TOKEN_END_NODE then node_walk blob off_strings reg p (depth - 1) False
      else if token = Some BOOT_FDT_TOKEN_BEGIN_NODE
      then let nl = strnlen (drop p blob)
           in node_walk blob off_strings reg (p + node_skip nl) (depth + 1)
                (depth = 1 \<and> nl \<ge> 7 \<and> take 7 (drop p blob) = c_bytes ''memory@'')
      else if token = Some BOOT_FDT_TOKEN_PROP
      then (case (be32 blob p, be32 blob (p + 4)) of
              (Some dlen, Some name_off) \<Rightarrow>
                if in_wanted
                then (case name_is blob off_strings name_off ''reg'' of
                        None \<Rightarrow> None
                      | Some is_reg \<Rightarrow>
                          if is_reg \<and> dlen \<ge> 16 then poke blob (p + 8) reg
                          else node_walk blob off_strings reg (p + prop_skip dlen) depth in_wanted)
                else node_walk blob off_strings reg (p + prop_skip dlen) depth in_wanted
            | _ \<Rightarrow> None)
      else Some None
      else Some None)"
  by pat_completeness auto
termination
  by (relation "measure (\<lambda>(blob, off_strings, reg, p, depth, in_wanted). length blob - p)") auto

declare chosen_walk.simps [simp del] bootline_walk.simps [simp del] node_walk.simps [simp del]

definition dtb_patch_node :: "u8 list \<Rightarrow> u64 \<Rightarrow> u64 \<Rightarrow> u8 list option option" where
  "dtb_patch_node blob base sz = do {
     off_struct \<leftarrow> be32 blob 8;
     off_strings \<leftarrow> be32 blob 12;
     node_walk blob off_strings (be64_bytes base @ be64_bytes sz) (unat off_struct) 0 False }"

section \<open>The command\<close>

text \<open>A path stands for the file it names: nothing when it cannot be opened. Of the host the command uses the
  allocator, the blocks for the tree builder, the region table and the RAM, the random seed, the fixture, and
  standard input, with whether that is a terminal that \<^verbatim>\<open>boot_arm_stdin\<close> can put into raw mode.\<close>

record boot_opts =
  bo_kernel :: "host_file option"
  bo_cmdline :: "string option"
  bo_dtb :: "host_file option option"
  bo_initrd :: "host_file option option"
  bo_serial :: "bool option"
  bo_ram_mib :: u64
  bo_entry :: u64
  bo_max_insns :: u64
  bo_stdio :: bool

record boot_host =
  bh_alloc :: oemu_allocator
  bh_fdt_block :: "u8 list option"
  bh_fdt_blob :: bool
  bh_seed :: "u8 list option"
  bh_table :: "u64 option"
  bh_ram :: "u64 option"
  bh_stdin :: "stdin_event list"
  bh_tty :: bool
  bh_fixture :: "u8 list"
  bh_fault :: oemu_mmu_fault

text \<open>A whole file in a buffer.\<close>

definition slurp :: "oemu_allocator \<Rightarrow> host_file option \<Rightarrow> oemu_buffer option option" where
  "slurp al path =
     (case oemu_buffer_init al (Some empty_buffer) 0 of
        (st, buf) \<Rightarrow> if st \<noteq> OEMU_OK then None
          else (case read_file al path buf of (ok, buf) \<Rightarrow> if ok then Some buf else None))"

definition dtb_load :: "boot_host \<Rightarrow> host_file option option \<Rightarrow> u8 list option" where
  "dtb_load bh path =
     (case path of
        Some path \<Rightarrow>
          (case slurp (bh_alloc bh) path of
             None \<Rightarrow> None
           | Some file \<Rightarrow>
               (case al_alloc (bh_alloc bh) (oemu_buffer_len file) of
                  None \<Rightarrow> None
                | Some _ \<Rightarrow> Some (case image_bytes file of None \<Rightarrow> [] | Some bytes \<Rightarrow> bytes)))
      | None \<Rightarrow>
          (case al_alloc (bh_alloc bh) (of_nat (length (bh_fixture bh))) of
             None \<Rightarrow> None
           | Some _ \<Rightarrow> Some (bh_fixture bh)))"

definition boot_initrd_addr :: "u64 \<Rightarrow> u64 \<Rightarrow> u64" where
  "boot_initrd_addr ram len =
     (let base = BOOT_RAM_BASE + ram div 4 * 3
      in if base + len + BOOT_INITRD_MARGIN > BOOT_RAM_BASE + ram then 0 else base)"

text \<open>The tree the machine starts with and the address of the RAM disk: generated, or loaded and patched.\<close>

definition generated_tree :: "boot_host \<Rightarrow> boot_opts \<Rightarrow> u64 \<Rightarrow> u64 option \<Rightarrow> (u32 + u8 list \<times> u64) option" where
  "generated_tree bh opts ram initrd_len =
     (case oemu_fdt_init (bh_fdt_block bh) BOOT_DTB_MAX zero_fdt of
        (st, gen) \<Rightarrow>
          if st \<noteq> OEMU_OK then Some (Inl 1)
          else let initrd_pa = (case initrd_len of None \<Rightarrow> 0 | Some n \<Rightarrow> boot_initrd_addr ram n);
                   vp = \<lparr>vp_ram_base = BOOT_RAM_BASE, vp_ram_size = ram, vp_initrd_start = initrd_pa,
                         vp_initrd_end = initrd_pa + (case initrd_len of None \<Rightarrow> 0 | Some n \<Rightarrow> n),
                         vp_cmdline = bo_cmdline opts, vp_rng_seed = bh_seed bh\<rparr>
          in if initrd_len \<noteq> None \<and> initrd_pa = 0 then Some (Inl 1)
          else (case oemu_virt_dtb_build (bh_fdt_blob bh) gen vp of
                  (st, gen) \<Rightarrow>
                    if st \<noteq> OEMU_OK then Some (Inl 1)
                    else (case oemu_fdt_bytes gen of
                            None \<Rightarrow> None
                          | Some tree \<Rightarrow> Some (Inr (take (oemu_fdt_length gen) tree, initrd_pa)))))"

definition loaded_tree :: "boot_host \<Rightarrow> boot_opts \<Rightarrow> u64 \<Rightarrow> (u32 + u8 list \<times> u64) option" where
  "loaded_tree bh opts ram =
     (case dtb_load bh (bo_dtb opts) of
        None \<Rightarrow> Some (Inl 1)
      | Some dtb \<Rightarrow>
          if length dtb < 40 \<or> be32 dtb 0 \<noteq> Some BOOT_FDT_MAGIC \<or> (case be32 dtb 4 of None \<Rightarrow> True | Some n \<Rightarrow> unat n > length dtb) \<or>
             length dtb > BOOT_DTB_MAX
          then Some (Inl 1)
          else do {
            patched \<leftarrow> (case bo_cmdline opts of None \<Rightarrow> Some (Some dtb) | Some cmdline \<Rightarrow> dtb_patch_bootline dtb cmdline);
            (case patched of
               None \<Rightarrow> Some (Inl 1)
             | Some dtb \<Rightarrow> do {
                 sized \<leftarrow> dtb_patch_node dtb BOOT_RAM_BASE ram;
                 Some (Inr (case sized of None \<Rightarrow> dtb | Some dtb \<Rightarrow> dtb, 0)) }) })"

text \<open>Bytes placed over the bus one by one.\<close>

primrec place_bytes :: "u8 list \<Rightarrow> u64 \<Rightarrow> 'd space \<Rightarrow> oemu_status \<times> 'd space" where
  "place_bytes [] pa p = (OEMU_OK, p)"
| "place_bytes (b # bs) pa p =
     (case oemu_aspace_write p pa OEMU_MEM_BYTE (ucast b) of
        (st, p) \<Rightarrow> if st \<noteq> OEMU_OK then (st, p) else place_bytes bs (pa + 1) p)"

text \<open>The serial stream collects what the sink is given.\<close>

definition boot_serial_sink :: "u8 list \<Rightarrow> u8 \<Rightarrow> u8 list" where
  "boot_serial_sink out byte = out @ [byte]"

text \<open>The machine and its three devices.\<close>

definition boot_machine ::
  "boot_host \<Rightarrow> u64 \<Rightarrow> heap \<Rightarrow> (u32 + u8 list boot_devices oemu_machine \<times> u8 list boot_space) option" where
  "boot_machine bh ram h = do {
     gic \<leftarrow> oemu_gicv2_init BOOT_GIC_LINES;
     let d = \<lparr>bd_uart = oemu_pl011_init (Some boot_serial_sink) [], bd_gic = gic\<rparr>;
     let (st, freed, machine, h, d) =
       oemu_machine_init (bh_table bh) (bh_ram bh) BOOT_RAM_BASE ram BOOT_REGION_CAPACITY (zero_machine, h, d);
     if st \<noteq> OEMU_OK then Some (Inl 1)
     else let (st, p) = oemu_aspace_attach_device (mc_aspace machine, h, d) BOOT_UART_BASE BOOT_UART_SIZE (Some uart_window)
     in if st \<noteq> OEMU_OK then Some (Inl 1)
     else let (st, p) = oemu_aspace_attach_device p BOOT_GIC_DIST_BASE BOOT_GIC_DIST_SIZE (Some (gic_window dist_ops))
     in if st \<noteq> OEMU_OK then Some (Inl 1)
     else let (st, p) = oemu_aspace_attach_device p BOOT_GIC_CPU_BASE BOOT_GIC_CPU_SIZE (Some (gic_window cpu_ops))
     in if st \<noteq> OEMU_OK then Some (Inl 1)
     else Some (Inr (machine\<lparr>mc_aspace := fst p\<rparr>, p)) }"

text \<open>The header is parsed from the block of the buffer, before the length of the file is known to suffice.\<close>

definition boot_header :: "oemu_buffer option \<Rightarrow> (oemu_status + oemu_image) option" where
  "boot_header kimg =
     (case oemu_buffer_data kimg of
        None \<Rightarrow> Some (oemu_image_parse_header None)
      | Some block \<Rightarrow> if length block < OEMU_IMAGE_HEADER_SIZE then None else Some (oemu_image_parse_header (Some block)))"

definition boot_place ::
  "oemu_buffer option \<Rightarrow> u64 \<Rightarrow> u8 list \<Rightarrow> (u8 list \<times> u64) option \<Rightarrow> u8 list boot_space \<Rightarrow> u32 + u8 list boot_space" where
  "boot_place kimg ram tree initrd p =
     (case oemu_image_load (image_bytes kimg) oemu_aspace_memops BOOT_RAM_BASE ram p of
        (Inl st, p) \<Rightarrow> Inl 1
      | (Inr info, p) \<Rightarrow>
          (case place_bytes tree (BOOT_RAM_BASE + ram div 2) p of
             (st, p) \<Rightarrow>
               if st \<noteq> OEMU_OK then Inl 1
               else (case initrd of
                       None \<Rightarrow> Inr p
                     | Some (bytes, initrd_pa) \<Rightarrow>
                         (case place_bytes bytes initrd_pa p of (st, p) \<Rightarrow> if st \<noteq> OEMU_OK then Inl 1 else Inr p))))"

text \<open>Everything up to the run: the virtual CPU, the bus and the environment, or the exit status.\<close>

definition boot_setup ::
  "boot_host \<Rightarrow> boot_opts \<Rightarrow> heap \<Rightarrow> (u32 + oemu_vcpu \<times> u8 list boot_space \<times> u8 list boot_env) option" where
  "boot_setup bh opts h =
     (let ram = bo_ram_mib opts * 0x100000
      in case slurp (bh_alloc bh) (bo_kernel opts) of
        None \<Rightarrow> Some (Inl 1)
      | Some kimg \<Rightarrow>
      case (case bo_initrd opts of None \<Rightarrow> Some None | Some path \<Rightarrow> map_option Some (slurp (bh_alloc bh) path)) of
        None \<Rightarrow> Some (Inl 1)
      | Some initrd \<Rightarrow> do {
          tree \<leftarrow> (if bo_dtb opts = None then generated_tree bh opts ram (map_option oemu_buffer_len initrd)
                  else loaded_tree bh opts ram);
          (case tree of
             Inl c \<Rightarrow> Some (Inl c)
           | Inr (tree, initrd_pa) \<Rightarrow> do {
               hdr \<leftarrow> boot_header kimg;
               (case hdr of
                  Inl st \<Rightarrow> Some (Inl 1)
                | Inr hdr \<Rightarrow>
                    let entry = (if bo_entry opts \<noteq> 0 then bo_entry opts else BOOT_RAM_BASE + ucast (im_text_offset hdr))
                    in if entry AND 3 \<noteq> 0 then Some (Inl 1)
                    else if entry < BOOT_RAM_BASE \<or> entry \<ge> BOOT_RAM_BASE + ram then Some (Inl 1)
                    else if bo_serial opts = Some False then Some (Inl 1)
                    else do {
                      m \<leftarrow> boot_machine bh ram h;
                      (case m of
                         Inl c \<Rightarrow> Some (Inl c)
                       | Inr (machine, p) \<Rightarrow>
                           (case boot_place kimg ram tree
                                (map_option (\<lambda>b. (case image_bytes b of None \<Rightarrow> [] | Some bytes \<Rightarrow> bytes, initrd_pa)) initrd) p of
                              Inl c \<Rightarrow> Some (Inl c)
                            | Inr p \<Rightarrow> do {
                                v \<leftarrow> oemu_vcpu_init OEMU_EL1 entry (BOOT_RAM_BASE + ram - 16) BOOT_QUANTUM;
                                (case v of
                                   Inl st \<Rightarrow> Some (Inl 1)
                                 | Inr vcpu \<Rightarrow> do {
                                     regs \<leftarrow> oemu_regs_write (c_regs (vc_cpu vcpu)) 0 OEMU_REG_W64 (BOOT_RAM_BASE + ram div 2);
                                     Some (Inr (vcpu\<lparr>vc_cpu := (vc_cpu vcpu)\<lparr>c_regs := regs\<rparr>\<rparr>, p,
                                       \<lparr>be_machine = machine, be_psci = oemu_psci_init\<rparr>)) }) })) }) }) })"

definition boot :: "boot_host \<Rightarrow> boot_opts \<Rightarrow> heap \<Rightarrow> (u32 \<times> u8 list) option" where
  "boot bh opts h = do {
     r \<leftarrow> boot_setup bh opts h;
     (case r of
        Inl c \<Rightarrow> Some (c, [])
      | Inr (vcpu, p, benv) \<Rightarrow> do {
          (c, s) \<leftarrow> boot_run (bh_fault bh) (bh_stdin bh) (bo_stdio opts \<and> bh_tty bh) vcpu p benv (bo_stdio opts) (bo_max_insns opts);
          Some (c, ua_sink_user (snd (oemu_pl011_pump (uart_of (bs_space s))))) }) }"

section \<open>What the patches keep\<close>

lemma poke_length: "poke blob p bs = Some (Some b) \<Longrightarrow> length b = length blob"
  by (auto simp: poke_def splice_facts(1) split: if_split_asm)

lemma chosen_walk_length: "chosen_walk blob os cmdline p = Some (Some b) \<Longrightarrow> length b = length blob"
proof (induction "length blob - p" arbitrary: p rule: less_induct)
  case less
  have later: "chosen_walk blob os cmdline (p + 4 + k) = Some (Some b) \<Longrightarrow> length b = length blob" if "p + 4 \<le> length blob" for k
    using less.hyps [of "p + 4 + k"] that by simp
  show ?case
    using less.prems by (subst (asm) chosen_walk.simps) (auto split: if_split_asm option.splits bool.splits dest: later poke_length)
qed

lemma bootline_walk_length: "bootline_walk blob os cmdline p depth = Some (Some b) \<Longrightarrow> length b = length blob"
proof (induction "length blob - p" arbitrary: p depth rule: less_induct)
  case less
  have later: "bootline_walk blob os cmdline (p + 4 + k) d = Some (Some b) \<Longrightarrow> length b = length blob" if "p + 4 \<le> length blob" for k d
    using less.hyps [of "p + 4 + k"] that by simp
  show ?case
    using less.prems later [of 0]
    by (subst (asm) bootline_walk.simps) (auto simp: Let_def split: if_split_asm option.splits dest: later chosen_walk_length)
qed

lemma node_walk_length: "node_walk blob os reg p depth w = Some (Some b) \<Longrightarrow> length b = length blob"
proof (induction "length blob - p" arbitrary: p depth w rule: less_induct)
  case less
  have later: "node_walk blob os reg (p + 4 + k) d v = Some (Some b) \<Longrightarrow> length b = length blob" if "p + 4 \<le> length blob" for k d v
    using less.hyps [of "p + 4 + k"] that by simp
  show ?case
    using less.prems later [of 0]
    by (subst (asm) node_walk.simps) (auto simp: Let_def split: if_split_asm option.splits dest: later poke_length)
qed

lemma patch_length:
  shows bootline_length: "dtb_patch_bootline blob cmdline = Some (Some b) \<Longrightarrow> length b = length blob"
    and node_length: "dtb_patch_node blob base sz = Some (Some b) \<Longrightarrow> length b = length blob"
proof -
  assume "dtb_patch_bootline blob cmdline = Some (Some b)"
  then obtain os k where "bootline_walk blob os cmdline k 0 = Some (Some b)"
    unfolding dtb_patch_bootline_def by (cases "be32 blob 8"; cases "be32 blob 12"; simp split: if_split_asm)
  then show "length b = length blob" by (rule bootline_walk_length)
next
  assume "dtb_patch_node blob base sz = Some (Some b)"
  then obtain os k where "node_walk blob os (be64_bytes base @ be64_bytes sz) k 0 False = Some (Some b)"
    unfolding dtb_patch_node_def by (cases "be32 blob 8"; cases "be32 blob 12"; simp)
  then show "length b = length blob" by (rule node_walk_length)
qed

lemma loaded_tree_bound:
  assumes "loaded_tree bh opts ram = Some (Inr (tree, pa))"
  shows "length tree \<le> BOOT_DTB_MAX \<and> pa = 0"
proof -
  obtain dtb where dtb: "dtb_load bh (bo_dtb opts) = Some dtb" using assms by (auto simp: loaded_tree_def split: option.splits)
  define patched where "patched = (case bo_cmdline opts of None \<Rightarrow> Some (Some dtb) | Some cmdline \<Rightarrow> dtb_patch_bootline dtb cmdline)"
  note t = assms [unfolded loaded_tree_def dtb option.case patched_def [symmetric]]
  have max: "length dtb \<le> BOOT_DTB_MAX" using t by (auto split: if_split_asm)
  obtain b where b: "patched = Some (Some b)" using t by (cases patched) (auto split: if_split_asm option.splits)
  then have l: "length b = length dtb" unfolding patched_def by (auto split: option.splits dest: bootline_length)
  obtain sized where s: "dtb_patch_node b BOOT_RAM_BASE ram = Some sized" "tree = (case sized of None \<Rightarrow> b | Some x \<Rightarrow> x)" "pa = 0"
    using t unfolding b by (cases "dtb_patch_node b BOOT_RAM_BASE ram") (simp_all split: if_split_asm)
  then have "length tree = length b" using node_length [of b BOOT_RAM_BASE ram] by (cases sized) simp_all
  then show ?thesis using l max s(3) by simp
qed

section \<open>The generated tree\<close>

lemma then_ok_E:
  assumes "then_ok r f = (OEMU_OK, fdt)"
  obtains g where "f g = (OEMU_OK, fdt)"
  using assms that by (cases r) (simp add: then_ok_def split: if_split_asm)

lemma build_needs_blob:
  assumes "oemu_virt_dtb_build blob_alloc gen vp = (OEMU_OK, gen')"
  shows blob_alloc
proof -
  obtain g where "oemu_fdt_finish blob_alloc g = (OEMU_OK, gen')"
    using assms unfolding oemu_virt_dtb_build_def by (elim then_ok_E)
  then show ?thesis by (auto simp: oemu_fdt_finish_def Let_def split: option.splits if_split_asm)
qed

text \<open>The parameters of the tree for a RAM disk of a given length, if there is one.\<close>

definition tree_params :: "boot_host \<Rightarrow> boot_opts \<Rightarrow> u64 \<Rightarrow> u64 option \<Rightarrow> oemu_virt_dtb_params" where
  "tree_params bh opts ram initrd_len =
     (let pa = (case initrd_len of None \<Rightarrow> 0 | Some n \<Rightarrow> boot_initrd_addr ram n)
      in \<lparr>vp_ram_base = BOOT_RAM_BASE, vp_ram_size = ram, vp_initrd_start = pa,
          vp_initrd_end = pa + (case initrd_len of None \<Rightarrow> 0 | Some n \<Rightarrow> n),
          vp_cmdline = bo_cmdline opts, vp_rng_seed = bh_seed bh\<rparr>)"

lemma generated_tree_is:
  assumes "generated_tree bh opts ram len = Some (Inr (tree, pa))" "pred_option (\<lambda>b. length b = 2 * BOOT_DTB_MAX) (bh_fdt_block bh)"
  shows "tree = blob_of (virt_events (tree_params bh opts ram len))" "length tree \<le> BOOT_DTB_MAX + 56"
    "pa = (case len of None \<Rightarrow> 0 | Some n \<Rightarrow> boot_initrd_addr ram n)" "len \<noteq> None \<Longrightarrow> pa \<noteq> 0"
    "answers tree (virt_tree (tree_params bh opts ram len))"
proof -
  let ?p = "tree_params bh opts ram len"
  obtain gen where i: "oemu_fdt_init (bh_fdt_block bh) BOOT_DTB_MAX zero_fdt = (OEMU_OK, gen)"
    using assms(1) by (auto simp: generated_tree_def split: prod.splits if_split_asm)
  then obtain sb where sb: "bh_fdt_block bh = Some sb" by (auto simp: oemu_fdt_init_def split: option.splits if_split_asm)
  obtain gen2 where b: "oemu_virt_dtb_build (bh_fdt_blob bh) gen ?p = (OEMU_OK, gen2)"
    using assms(1) i by (auto simp: generated_tree_def tree_params_def Let_def split: prod.splits if_split_asm)
  have blob: "bh_fdt_blob bh" by (rule build_needs_blob [OF b])
  have "length sb = 2 * BOOT_DTB_MAX" using assms(2) sb by simp
  note o = build_outcome [OF i [unfolded sb] this, of ?p OEMU_OK gen2]
  have bytes: "oemu_fdt_bytes gen2 = Some (blob_of (virt_events ?p))" "oemu_fdt_length gen2 = length (blob_of (virt_events ?p))" "virt_room ?p \<le> BOOT_DTB_MAX"
    using o b blob by (auto split: if_split_asm)
  show t: "tree = blob_of (virt_events ?p)" and pa: "pa = (case len of None \<Rightarrow> 0 | Some n \<Rightarrow> boot_initrd_addr ram n)"
    and "len \<noteq> None \<Longrightarrow> pa \<noteq> 0"
    using assms(1) i b bytes by (auto simp: generated_tree_def tree_params_def Let_def split: if_split_asm)
  show l: "length tree \<le> BOOT_DTB_MAX + 56" using bytes(3) length_virt_blob [of ?p] t by simp
  show "answers tree (virt_tree ?p)" unfolding t by (rule virt_answers) (use bytes(3) in simp)
qed

section \<open>Files in buffers\<close>

definition file_ok :: "host_file \<Rightarrow> bool" where
  "file_ok f \<longleftrightarrow> list_all (\<lambda>c. length c \<le> 4096) (fl_chunks f) \<and> length (concat (fl_chunks f)) < 2 ^ 62"

lemma slurp_contents:
  assumes "slurp (oemu_allocator_default room junk) path = Some buf" "pred_option file_ok path"
  shows "\<exists>f b. path = Some f \<and> \<not> fl_error f \<and> buf = Some b \<and> buf_ok b \<and> contents b = concat (fl_chunks f)"
proof -
  obtain f where f: "path = Some f" "\<not> fl_error f" "read_chunks (oemu_allocator_default room junk) (fl_chunks f) (Some empty_buffer) = (OEMU_OK, buf)"
    using assms(1) by (auto simp: slurp_def empty_ok read_file_def split: option.splits prod.splits if_split_asm)
  have "list_all (\<lambda>c. length c < 2 ^ 64) (fl_chunks f)" using assms(2) f(1) by (auto simp: file_ok_def list_all_iff)
  from libc.read_chunks_contents [OF empty_ok(1) this f(3)] f show ?thesis by (auto simp: empty_ok)
qed

lemma bytes_of_buffer: "buf_ok b \<Longrightarrow> (case image_bytes (Some b) of None \<Rightarrow> [] | Some bytes \<Rightarrow> bytes) = contents b"
  using image_bytes_contents [of b] by auto

text \<open>The header depends on the first 64 bytes only.\<close>

lemma header_prefix:
  assumes "take 64 xs = take 64 ys" "64 \<le> length xs" "64 \<le> length ys"
  shows "oemu_image_parse_header (Some xs) = oemu_image_parse_header (Some ys)"
proof -
  have "xs ! k = ys ! k" if "k < 64" for k using assms that by (metis nth_take)
  then have w: "img_le32 xs k = img_le32 ys k" if "k + 4 \<le> 64" for k using that by (simp add: img_le32_def)
  then have d: "img_le64 xs k = img_le64 ys k" if "k + 8 \<le> 64" for k using that by (simp add: img_le64_def)
  show ?thesis unfolding oemu_image_parse_header_def by (simp add: Let_def w d)
qed

lemma boot_header_parse:
  assumes "boot_header (Some b) = Some (Inr hdr)" "buf_ok b" "64 \<le> length (contents b)"
  shows "oemu_image_parse_header (Some (contents b)) = Inr hdr"
proof -
  obtain block where block: "bf_data b = Some block" "64 \<le> length block" "oemu_image_parse_header (Some block) = Inr hdr"
    using assms(1,3) by (auto simp: boot_header_def oemu_buffer_data_def oemu_image_parse_header_def contents_def split: option.splits if_split_asm)
  have "contents b = take (unat (bf_len b)) block" using block(1) by (simp add: contents_def)
  then have "take 64 (contents b) = take 64 block" using assms(3) by (auto simp: min_def split: if_split_asm)
  from header_prefix [OF this assms(3) block(2)] block(3) show ?thesis by simp
qed

section \<open>The machine\<close>

definition boot_regions :: "u64 \<Rightarrow> u64 \<Rightarrow> u64 \<Rightarrow> u8 list boot_devices oemu_aspace" where
  "boot_regions t blk ram =
     (let dev = (\<lambda>pa sz ops. \<lparr>ar_pa = pa, ar_size = sz, ar_perms = OEMU_PERM_READ OR OEMU_PERM_WRITE, ar_kind = OEMU_REGION_DEVICE,
            ar_host = 0, ar_owned = False, ar_ops = Some ops\<rparr>)
      in add_region (add_region (add_region
           (add_region (empty_space t BOOT_REGION_CAPACITY) (ram_region BOOT_RAM_BASE ram blk))
           (dev BOOT_UART_BASE BOOT_UART_SIZE uart_window))
           (dev BOOT_GIC_DIST_BASE BOOT_GIC_DIST_SIZE (gic_window dist_ops)))
           (dev BOOT_GIC_CPU_BASE BOOT_GIC_CPU_SIZE (gic_window cpu_ops)))"

lemma boot_regions_sound:
  assumes "ram \<noteq> 0" "uint ram \<le> 2 ^ 52" "uint blk + uint ram \<le> 2 ^ 64" and as: "as = boot_regions t blk ram"
  shows "as_inv as" "host_inv (mem_of is_ram as)" "ram_accepts as BOOT_RAM_BASE ram OEMU_PERM_WRITE"
    "ram_content (as, memset_zero h blk ram, d) b = (if b - BOOT_RAM_BASE < ram then Some 0 else None)"
    "oemu_aspace_internal_find as 0 1 OEMU_PERM_WRITE = None"
proof -
  let ?base = "add_region (empty_space t BOOT_REGION_CAPACITY) (ram_region BOOT_RAM_BASE ram blk) :: u8 list boot_devices oemu_aspace"
  have u: "uint (BOOT_RAM_BASE :: u64) + uint ram \<le> 2 ^ 64" using assms(2) by simp
  note fresh = fresh_ram [OF assms(1) u assms(3), of 8 ?base t]
  have ov: "\<not> oemu_aspace_internal_ranges_overlap 0x9000000 0x1000 0x40000000 ram"
    "\<not> oemu_aspace_internal_ranges_overlap 0x8000000 0x10000 0x40000000 ram"
    "\<not> oemu_aspace_internal_ranges_overlap 0x8010000 0x10000 0x40000000 ram"
    by (simp_all add: oemu_aspace_internal_ranges_overlap_def)
  have base: "as_inv ?base" using fresh(1) by (simp add: ram_inv_def)
  show "as_inv as"
    unfolding as boot_regions_def Let_def
    by (rule as_inv_add, rule as_inv_add, rule as_inv_add, rule base)
      (use ov in \<open>simp_all add: map_common_def check_room_def oemu_aspace_internal_check_map_args_def add_region_def empty_space_def
        ram_region_def device_ok_def oemu_aspace_internal_ranges_overlap_def\<close>)
  have m: "mem_of is_ram as = mem_of is_ram ?base"
    by (simp add: as boot_regions_def Let_def mem_of_def add_region_def empty_space_def ram_region_def is_ram_def)
  show "host_inv (mem_of is_ram as)" using fresh(2) m by simp
  show "ram_content (as, memset_zero h blk ram, d) b = (if b - BOOT_RAM_BASE < ram then Some 0 else None)"
    using fresh(4) [of h undefined b] m by (simp add: ram_content_def)
  show "ram_accepts as BOOT_RAM_BASE ram OEMU_PERM_WRITE"
    using assms(1) unfolding ram_accepts_def m find_eq
    by (simp add: mem_of_def add_region_def empty_space_def ram_region_def is_ram_def region_of_def region_contains_def)
  show "oemu_aspace_internal_find as 0 1 OEMU_PERM_WRITE = None"
    by (simp add: oemu_aspace_internal_find_def as boot_regions_def Let_def add_region_def empty_space_def ram_region_def region_test_as_def)
qed

lemma boot_machine_is:
  assumes "boot_machine bh ram h = Some (Inr (machine, p))" "ram \<noteq> 0" "uint ram \<le> 2 ^ 52"
  shows "\<exists>t blk gic. bh_table bh = Some t \<and> bh_ram bh = Some blk \<and> oemu_gicv2_init BOOT_GIC_LINES = Some gic \<and>
    p = (boot_regions t blk ram, memset_zero h blk ram, \<lparr>bd_uart = oemu_pl011_init (Some boot_serial_sink) [], bd_gic = gic\<rparr>) \<and>
    machine = zero_machine\<lparr>mc_aspace := boot_regions t blk ram\<rparr>"
proof -
  obtain gic where g: "oemu_gicv2_init BOOT_GIC_LINES = Some gic" using assms(1) by (auto simp: boot_machine_def bind_eq_Some_conv)
  have u: "\<not> 2 ^ 64 < uint (BOOT_RAM_BASE :: u64) + uint ram" using assms(3) by simp
  obtain t blk where b: "bh_table bh = Some t" "bh_ram bh = Some blk"
    using assms(1) unfolding boot_machine_def g machine_init_cases [OF assms(2), of 8, simplified]
    by (auto simp: Let_def split: option.splits if_split_asm prod.splits)
  have ov: "\<not> oemu_aspace_internal_ranges_overlap 0x9000000 0x1000 0x40000000 ram"
    "\<not> oemu_aspace_internal_ranges_overlap 0x8000000 0x10000 0x40000000 ram"
    "\<not> oemu_aspace_internal_ranges_overlap 0x8010000 0x10000 0x40000000 ram"
    by (simp_all add: oemu_aspace_internal_ranges_overlap_def)
  from assms(1) have "p = (boot_regions t blk ram, memset_zero h blk ram, \<lparr>bd_uart = oemu_pl011_init (Some boot_serial_sink) [], bd_gic = gic\<rparr>) \<and>
    machine = zero_machine\<lparr>mc_aspace := boot_regions t blk ram\<rparr>"
    unfolding boot_machine_def g machine_init_cases [OF assms(2), of 8, simplified]
    using ov u b
    by (auto simp: Let_def oemu_aspace_attach_device_def map_common_def check_room_def oemu_aspace_internal_check_map_args_def
        add_region_def empty_space_def ram_region_def boot_regions_def zero_machine_def oemu_aspace_internal_ranges_overlap_def split: if_split_asm)
  with b g show ?thesis by blast
qed

section \<open>Placing bytes\<close>

lemma store_byte:
  assumes "as_inv as" "host_inv (mem_of is_ram as)" "ram_accepts as a 1 OEMU_PERM_WRITE"
  shows "\<exists>h'. oemu_aspace_write (as, h, d) a OEMU_MEM_BYTE (ucast v) = (OEMU_OK, (as, h', d)) \<and>
    (\<forall>b. ram_content (as, h', d) b = (if b = a then Some v else ram_content (as, h, d) b))"
proof -
  have tb: "transfer_bytes OEMU_MEM_BYTE = 1" by (simp add: transfer_bytes_def)
  have nd: "\<not> hits_device as a (transfer_bytes OEMU_MEM_BYTE) OEMU_PERM_WRITE"
    using ram_accepts_no_device [OF assms(1,3)] tb by simp
  have "oemu_memory_validate (mem_of is_ram as) a (transfer_bytes OEMU_MEM_BYTE) OEMU_PERM_WRITE = OEMU_OK"
    using assms(3) tb by (simp add: ram_accepts_def validate_find)
  from write_read_back [OF as_inv_ram [OF assms(1)] assms(2) _ this, of h "ucast v" False] obtain h'
    where h': "oemu_memory_write (mem_of is_ram as, h) a OEMU_MEM_BYTE (ucast v) = (OEMU_OK, (mem_of is_ram as, h'))"
      "\<And>b. guest_byte (mem_of is_ram as, h') b = (if unat (b - a) < 1 then Some (ucast (drop_bit (8 * unat (b - a)) (ucast v :: u64))) else guest_byte (mem_of is_ram as, h) b)"
    by auto
  have "unat (b - a) < 1 \<longleftrightarrow> b = a" for b :: u64 by (auto simp: unat_eq_zero)
  moreover have "ucast (ucast v :: u64) = v" by (rule bit_word_eqI) (auto simp: bit_simps)
  ultimately have "guest_byte (mem_of is_ram as, h') b = (if b = a then Some v else guest_byte (mem_of is_ram as, h) b)" for b
    unfolding h'(2) by auto
  then show ?thesis using ram_write [OF assms(1) _ nd, of h d "ucast v"] h'(1) by (intro exI [of _ h']) (simp add: ram_content_def)
qed

lemma place_bytes_ram:
  assumes "as_inv as" "host_inv (mem_of is_ram as)" "length bs < 2 ^ 64"
    and "\<And>k. k < length bs \<Longrightarrow> ram_accepts as (pa + of_nat k) 1 OEMU_PERM_WRITE"
  shows "\<exists>h'. place_bytes bs pa (as, h, d) = (OEMU_OK, (as, h', d)) \<and>
    (\<forall>b. ram_content (as, h', d) b = (if unat (b - pa) < length bs then Some (bs ! unat (b - pa)) else ram_content (as, h, d) b))"
  using assms(3,4)
proof (induction bs arbitrary: pa h)
  case (Cons v bs)
  obtain h1 where h1: "oemu_aspace_write (as, h, d) pa OEMU_MEM_BYTE (ucast v) = (OEMU_OK, (as, h1, d))"
    "\<forall>b. ram_content (as, h1, d) b = (if b = pa then Some v else ram_content (as, h, d) b)"
    using store_byte [OF assms(1,2)] Cons.prems(2) [of 0] by fastforce
  have "ram_accepts as (pa + 1 + of_nat k) 1 OEMU_PERM_WRITE" if "k < length bs" for k
    using Cons.prems(2) [of "Suc k"] that by (simp add: add.assoc)
  then obtain h' where h': "place_bytes bs (pa + 1) (as, h1, d) = (OEMU_OK, (as, h', d))"
    "\<forall>b. ram_content (as, h', d) b = (if unat (b - (pa + 1)) < length bs then Some (bs ! unat (b - (pa + 1))) else ram_content (as, h1, d) b)"
    using Cons.IH [of "pa + 1" h1] Cons.prems(1) by auto
  have "ram_content (as, h', d) b = (if unat (b - pa) < length (v # bs) then Some ((v # bs) ! unat (b - pa)) else ram_content (as, h, d) b)" for b
  proof (cases "b = pa")
    case True
    have "unat (pa - (pa + 1)) = 2 ^ 64 - 1" by (simp add: unsigned_minus_1_eq_mask mask_eq_exp_minus_1)
    then show ?thesis using True h'(2) h1(2) Cons.prems(1) by simp
  next
    case False
    then have "b - pa \<noteq> 0" by simp
    then have "unat (b - pa) = Suc (unat (b - pa - 1))" by (simp add: unat_minus_one unat_gt_0)
    moreover have e: "b - (pa + 1) = b - pa - 1" by simp
    ultimately show ?thesis using False h'(2) [rule_format, of b, unfolded e] h1(2) by simp
  qed
  then show ?case using h1(1) h'(1) by auto
qed auto

text \<open>Bytes whose addresses stay inside the RAM window.\<close>

lemma place_in_ram:
  assumes "as_inv as" "host_inv (mem_of is_ram as)" "ram_accepts as BOOT_RAM_BASE ram OEMU_PERM_WRITE"
    and "off + length bs \<le> unat ram"
  shows "\<exists>h'. place_bytes bs (BOOT_RAM_BASE + of_nat off) (as, h, d) = (OEMU_OK, (as, h', d)) \<and>
    (\<forall>b. ram_content (as, h', d) b = (if unat (b - (BOOT_RAM_BASE + of_nat off)) < length bs then Some (bs ! unat (b - (BOOT_RAM_BASE + of_nat off))) else ram_content (as, h, d) b))"
proof (rule place_bytes_ram [OF assms(1,2)])
  have r: "unat ram < 2 ^ 64" using unsigned_less [of ram] by simp
  then show "length bs < 2 ^ 64" using assms(4) by linarith
  fix k assume k: "k < length bs"
  have "BOOT_RAM_BASE + of_nat off + of_nat k - BOOT_RAM_BASE = (of_nat (off + k) :: u64)" by simp
  moreover have "unat (of_nat (off + k) :: u64) = off + k" using k assms(4) r by (simp only: unat_of_nat) simp
  ultimately have "unat (BOOT_RAM_BASE + of_nat off + of_nat k - BOOT_RAM_BASE :: u64) + unat (1 :: u64) \<le> unat ram" using k assms(4) by simp
  then show "ram_accepts as (BOOT_RAM_BASE + of_nat off + of_nat k) 1 OEMU_PERM_WRITE"
    by (rule ram_accepts_sub [OF assms(1,3)]) simp
qed


section \<open>RAM at the start\<close>

text \<open>What RAM holds when the kernel starts: the RAM disk at three quarters, the tree at the half, the text of
  the kernel at its offset, later ones over earlier ones, and zero elsewhere.\<close>

definition ram_at_start :: "u64 \<Rightarrow> u8 list \<Rightarrow> nat \<Rightarrow> u8 list \<Rightarrow> u8 list \<Rightarrow> u64 \<Rightarrow> u8 option" where
  "ram_at_start ram kernel_bytes start tree initrd b =
     (if unat (b - (BOOT_RAM_BASE + ram div 4 * 3)) < length initrd then Some (initrd ! unat (b - (BOOT_RAM_BASE + ram div 4 * 3)))
      else if unat (b - (BOOT_RAM_BASE + ram div 2)) < length tree then Some (tree ! unat (b - (BOOT_RAM_BASE + ram div 2)))
      else if unat (b - (BOOT_RAM_BASE + of_nat start)) < length kernel_bytes - start
      then Some (kernel_bytes ! (start + unat (b - (BOOT_RAM_BASE + of_nat start))))
      else if b - BOOT_RAM_BASE < ram then Some 0 else None)"

definition ram_size_ok :: "u64 \<Rightarrow> bool" where
  "ram_size_ok ram \<longleftrightarrow> unat ram mod 8 = 0 \<and> 0x100000 \<le> unat ram \<and> unat ram \<le> 2 ^ 52"

lemma unat_add_small: "unat x + unat y < 2 ^ 64 \<Longrightarrow> unat (x + y) = unat x + unat y" for x y :: u64
  by (simp add: unat_word_ariths)

lemma mod_mult_right_zero: "b mod c = 0 \<Longrightarrow> a * b mod c = (0 :: nat)"
  by (simp add: mod_eq_0_iff_dvd)

lemma ram_of_mib:
  assumes "0 < m" "m \<le> 0x100000000"
  shows "ram_size_ok (m * 0x100000)"
proof -
  have m: "0 < unat m" "unat m \<le> 0x100000000" using assms by (simp_all add: unat_gt_0 word_le_nat_alt)
  then have "unat (m * 0x100000) = unat m * 0x100000" by (simp add: unat_word_ariths)
  moreover have "unat m * 0x100000 mod 8 = 0" by (rule mod_mult_right_zero) simp
  ultimately show ?thesis using m by (simp add: ram_size_ok_def)
qed

lemma header_page: "oemu_image_parse_header (Some bytes) = Inr info \<Longrightarrow> unat (im_text_offset info) mod 0x1000 = 0"
  by (auto simp: oemu_image_parse_header_def Let_def page_of_offset split: if_splits)

lemma text_fits:
  fixes start n r :: nat
  assumes "start mod 8 = 0" "r mod 8 = 0" "start < n" "n \<le> r"
  shows "start + 8 * ((n - start + 7) div 8) \<le> r"
  using assms by presburger

text \<open>The kernel alone.\<close>

lemma kernel_placed:
  assumes as: "as_inv as" "host_inv (mem_of is_ram as)" "ram_accepts as BOOT_RAM_BASE ram OEMU_PERM_WRITE" and ram: "ram_size_ok ram"
    and zero: "\<And>b. ram_content (as, h, d) b = (if b - BOOT_RAM_BASE < ram then Some 0 else None)"
    and k: "oemu_image_parse_header (Some bytes) = Inr hdr" "length bytes < 2 ^ 62" "start = unat (im_text_offset hdr)"
    and l: "oemu_image_load (Some bytes) oemu_aspace_memops BOOT_RAM_BASE ram (as, h, d) = (Inr info, p)"
  shows "\<exists>h1. p = (as, h1, d) \<and> (\<forall>b. ram_content (as, h1, d) b = ram_at_start ram bytes start [] [] b)"
proof -
  define len where "len = 8 * ((length bytes - start + 7) div 8)"
  have big: "length bytes < 2 ^ 64" using k(2) by simp
  note p = load_places [of "(as, h, d)", OF _ _ _ k(1,3) len_def big, of BOOT_RAM_BASE ram, simplified, OF as(1,2) as(3) [simplified]]
  have ok: "\<not> (length bytes < 64 \<or> length bytes \<le> start \<or> unat ram < length bytes)"
    using p l by (auto split: if_split_asm)
  have "start mod 0x1000 mod 8 = 0" using header_page [OF k(1)] k(3) by simp
  then have "start mod 8 = 0" by (subst (asm) mod_mod_cancel) simp_all
  then have fit: "start + len \<le> unat ram" using text_fits [of start "unat ram" "length bytes"] ok ram by (simp add: len_def ram_size_ok_def)
  obtain p1 where p1: "oemu_image_load (Some bytes) oemu_aspace_memops BOOT_RAM_BASE ram (as, h, d) =
      (Inr (hdr\<lparr>im_load_pa := BOOT_RAM_BASE + of_nat start, im_entry_pa := BOOT_RAM_BASE + of_nat start\<rparr>), p1)" "fst p1 = as" "snd (snd p1) = d"
    "\<And>b. ram_content p1 b = (let k = unat (b - (BOOT_RAM_BASE + of_nat start)) in
       if k < length bytes - start then Some (bytes ! (start + k)) else if k < len then Some 0 else ram_content (as, h, d) b)"
    using p ok fit by auto
  obtain h1 where h1: "p1 = (as, h1, d)" using p1(2,3) by (metis prod.collapse)
  have "ram_content (as, h1, d) b = ram_at_start ram bytes start [] [] b" for b
  proof -
    let ?k = "unat (b - (BOOT_RAM_BASE + of_nat start))"
    have "b - BOOT_RAM_BASE < ram" if "?k < len"
    proof -
      have "b - BOOT_RAM_BASE = (b - (BOOT_RAM_BASE + of_nat start)) + of_nat start" by simp
      moreover have "unat (of_nat start :: u64) = start" using fit ram by (simp add: unat_of_nat ram_size_ok_def)
      moreover have "?k + start < 2 ^ 64" using that fit ram by (simp add: ram_size_ok_def)
      ultimately have "unat (b - BOOT_RAM_BASE) = ?k + start" by (metis unat_add_small)
      then show ?thesis using that fit by (simp add: word_less_nat_alt)
    qed
    then show ?thesis using p1(4) [of b] zero [of b] unfolding h1 by (simp add: ram_at_start_def Let_def)
  qed
  then show ?thesis using l p1(1) h1 by auto
qed

lemma half_fits: "ram_size_ok ram \<Longrightarrow> unat (ram div 2) + 65592 \<le> unat ram"
  by (auto simp: ram_size_ok_def unat_div)

lemma boot_place_is:
  assumes as: "as_inv as" "host_inv (mem_of is_ram as)" "ram_accepts as BOOT_RAM_BASE ram OEMU_PERM_WRITE" and ram: "ram_size_ok ram"
    and zero: "\<And>b. ram_content (as, h, d) b = (if b - BOOT_RAM_BASE < ram then Some 0 else None)"
    and low: "oemu_aspace_internal_find as 0 1 OEMU_PERM_WRITE = None"
    and k: "oemu_image_parse_header (Some bytes) = Inr hdr" "length bytes < 2 ^ 62" "start = unat (im_text_offset hdr)" "image_bytes kimg = Some bytes"
    and tree: "length tree \<le> BOOT_DTB_MAX + 56"
    and initrd: "pred_option (\<lambda>(I, pa). pa = 0 \<or> pa = BOOT_RAM_BASE + ram div 4 * 3 \<and> unat (ram div 4 * 3) + length I \<le> unat ram) initrd"
    and placed: "boot_place kimg ram tree initrd (as, h, d) = Inr p"
  shows "\<exists>h'. p = (as, h', d) \<and> (\<forall>b. ram_content (as, h', d) b = ram_at_start ram bytes start tree (case initrd of None \<Rightarrow> [] | Some (I, pa) \<Rightarrow> I) b) \<and>
    (\<forall>I pa. initrd = Some (I, pa) \<and> I \<noteq> [] \<longrightarrow> pa \<noteq> 0)"
proof -
  obtain info p1 where "oemu_image_load (Some bytes) oemu_aspace_memops BOOT_RAM_BASE ram (as, h, d) = (Inr info, p1)"
    using placed by (auto simp: boot_place_def k(4) split: prod.splits sum.splits)
  note l = this
  obtain h1 where h1: "p1 = (as, h1, d)" "\<forall>b. ram_content (as, h1, d) b = ram_at_start ram bytes start [] [] b"
    using kernel_placed [OF as ram zero k(1-3) l] by blast
  have "unat (ram div 2) + length tree \<le> unat ram" using half_fits [OF ram] tree by simp
  then obtain h2 where h2: "place_bytes tree (BOOT_RAM_BASE + ram div 2) (as, h1, d) = (OEMU_OK, (as, h2, d))"
    "\<forall>b. ram_content (as, h2, d) b = ram_at_start ram bytes start tree [] b"
    using place_in_ram [OF as, of "unat (ram div 2)" tree h1 d] h1(2) by (auto simp: ram_at_start_def)
  show ?thesis
  proof (cases initrd)
    case None
    then show ?thesis using placed l h1(1) h2 by (auto simp: boot_place_def k(4))
  next
    case (Some x)
    obtain I pa where x: "x = (I, pa)" by (rule prod.exhaust)
    obtain p3 where p3: "place_bytes I pa (as, h2, d) = (OEMU_OK, p3)" "p = p3"
      using placed l h1(1) h2(1) Some x by (auto simp: boot_place_def k(4) split: prod.splits if_split_asm)
    show ?thesis
    proof (cases "I = []")
      case True
      then show ?thesis using p3 h2(2) Some x by auto
    next
      case False
      obtain t where t: "as_table as = Some t" using as(1) by (auto simp: as_inv_def mem_inv_def mem_of_def)
      have "pa \<noteq> 0"
      proof
        assume "pa = 0"
        then show False using p3(1) False low t by (cases I) (simp_all add: oemu_aspace_write_def Let_def)
      qed
      then have pa: "pa = BOOT_RAM_BASE + ram div 4 * 3" "unat (ram div 4 * 3) + length I \<le> unat ram" using initrd Some x by auto
      obtain h3 where "place_bytes I pa (as, h2, d) = (OEMU_OK, (as, h3, d))" "\<forall>b. ram_content (as, h3, d) b = ram_at_start ram bytes start tree I b"
        using place_in_ram [OF as pa(2), of h2 d] h2(2) pa(1) by (auto simp: ram_at_start_def)
      then show ?thesis using p3 Some x \<open>pa \<noteq> 0\<close> by auto
    qed
  qed
qed

lemma initrd_fits:
  assumes "ram_size_ok ram" "boot_initrd_addr ram n \<noteq> 0" "unat n < 2 ^ 62"
  shows "boot_initrd_addr ram n = BOOT_RAM_BASE + ram div 4 * 3" "unat (ram div 4 * 3) + unat n + 0x1000000 \<le> unat ram"
proof -
  show a: "boot_initrd_addr ram n = BOOT_RAM_BASE + ram div 4 * 3" using assms(2) by (auto simp: boot_initrd_addr_def Let_def split: if_split_asm)
  have r: "unat ram \<le> 2 ^ 52" using assms(1) by (simp add: ram_size_ok_def)
  have q: "unat (ram div 4 * 3) = unat ram div 4 * 3" using r by (simp add: unat_word_ariths unat_div)
  have "unat (BOOT_RAM_BASE + ram div 4 * 3 + n + BOOT_INITRD_MARGIN) = 0x40000000 + unat ram div 4 * 3 + unat n + 0x1000000"
    using q r assms(3) by (simp add: unat_word_ariths)
  moreover have "unat (BOOT_RAM_BASE + ram) = 0x40000000 + unat ram" using r by (simp add: unat_word_ariths)
  moreover have "BOOT_RAM_BASE + ram div 4 * 3 + n + BOOT_INITRD_MARGIN \<le> BOOT_RAM_BASE + ram"
    using assms(2) by (auto simp: boot_initrd_addr_def Let_def not_less split: if_split_asm)
  ultimately show "unat (ram div 4 * 3) + unat n + 0x1000000 \<le> unat ram" using q by (simp add: word_le_nat_alt)
qed

section \<open>The start\<close>

definition initrd_bytes :: "boot_opts \<Rightarrow> u8 list option" where
  "initrd_bytes opts = (case bo_initrd opts of Some (Some f) \<Rightarrow> Some (concat (fl_chunks f)) | _ \<Rightarrow> None)"

definition boot_entry :: "boot_opts \<Rightarrow> oemu_image \<Rightarrow> u64" where
  "boot_entry opts hdr = (if bo_entry opts \<noteq> 0 then bo_entry opts else BOOT_RAM_BASE + ucast (im_text_offset hdr))"

lemma boot_setup_parts:
  assumes "boot_setup bh opts h = Some (Inr (vcpu, p, benv))" and ram: "ram = bo_ram_mib opts * 0x100000"
  obtains kimg initrd tree pa hdr machine p0 v regs where
    "slurp (bh_alloc bh) (bo_kernel opts) = Some kimg"
    "(case bo_initrd opts of None \<Rightarrow> Some None | Some path \<Rightarrow> map_option Some (slurp (bh_alloc bh) path)) = Some initrd"
    "(if bo_dtb opts = None then generated_tree bh opts ram (map_option oemu_buffer_len initrd) else loaded_tree bh opts ram) = Some (Inr (tree, pa))"
    "boot_header kimg = Some (Inr hdr)"
    "boot_entry opts hdr AND 3 = 0" "BOOT_RAM_BASE \<le> boot_entry opts hdr" "boot_entry opts hdr < BOOT_RAM_BASE + ram"
    "boot_machine bh ram h = Some (Inr (machine, p0))"
    "boot_place kimg ram tree (map_option (\<lambda>b. (case image_bytes b of None \<Rightarrow> [] | Some bytes \<Rightarrow> bytes, pa)) initrd) p0 = Inr p"
    "oemu_vcpu_init OEMU_EL1 (boot_entry opts hdr) (BOOT_RAM_BASE + ram - 16) BOOT_QUANTUM = Some (Inr v)"
    "oemu_regs_write (c_regs (vc_cpu v)) 0 OEMU_REG_W64 (BOOT_RAM_BASE + ram div 2) = Some regs"
    "vcpu = v\<lparr>vc_cpu := (vc_cpu v)\<lparr>c_regs := regs\<rparr>\<rparr>" "benv = \<lparr>be_machine = machine, be_psci = oemu_psci_init\<rparr>"
proof -
  note s = assms(1) [unfolded boot_setup_def Let_def ram [symmetric] boot_entry_def [symmetric]]
  obtain kimg where k: "slurp (bh_alloc bh) (bo_kernel opts) = Some kimg" using s by (cases "slurp (bh_alloc bh) (bo_kernel opts)") simp_all
  note s = s [unfolded k option.case]
  obtain initrd where i: "(case bo_initrd opts of None \<Rightarrow> Some None | Some path \<Rightarrow> map_option Some (slurp (bh_alloc bh) path)) = Some initrd"
    using s by (cases "case bo_initrd opts of None \<Rightarrow> Some None | Some path \<Rightarrow> map_option Some (slurp (bh_alloc bh) path)") (simp_all only: option.case option.inject sum.distinct)
  note s = s [unfolded i option.case]
  obtain t where t: "(if bo_dtb opts = None then generated_tree bh opts ram (map_option oemu_buffer_len initrd) else loaded_tree bh opts ram) = Some t"
    using s by (auto simp only: bind_eq_Some_conv)
  note s = s [unfolded t Option.bind.bind_lunit]
  obtain tree pa where tp: "t = Inr (tree, pa)" using s by (cases t) auto
  note s = s [unfolded tp sum.case prod.case]
  obtain hd where hd: "boot_header kimg = Some hd" using s by (auto simp only: bind_eq_Some_conv)
  obtain hdr where hdr: "hd = Inr hdr" using s hd by (cases hd) auto
  note s = s [unfolded hd hdr Option.bind.bind_lunit sum.case]
  have e: "boot_entry opts hdr AND 3 = 0" "BOOT_RAM_BASE \<le> boot_entry opts hdr" "boot_entry opts hdr < BOOT_RAM_BASE + ram"
    using s by (auto split: if_split_asm simp: not_less)
  obtain m where m: "boot_machine bh ram h = Some m" using s by (auto simp: bind_eq_Some_conv split: if_split_asm)
  obtain machine p0 where mp: "m = Inr (machine, p0)" using s m by (cases m) (auto split: if_split_asm)
  obtain q where q: "boot_place kimg ram tree (map_option (\<lambda>b. (case image_bytes b of None \<Rightarrow> [] | Some bytes \<Rightarrow> bytes, pa)) initrd) p0 = Inr q"
    using s m mp by (auto split: if_split_asm sum.splits)
  obtain w where w: "oemu_vcpu_init OEMU_EL1 (boot_entry opts hdr) (BOOT_RAM_BASE + ram - 16) BOOT_QUANTUM = Some w"
    using s m mp q by (auto simp: bind_eq_Some_conv split: if_split_asm)
  obtain v regs where "oemu_vcpu_init OEMU_EL1 (boot_entry opts hdr) (BOOT_RAM_BASE + ram - 16) BOOT_QUANTUM = Some (Inr v)"
    "oemu_regs_write (c_regs (vc_cpu v)) 0 OEMU_REG_W64 (BOOT_RAM_BASE + ram div 2) = Some regs"
    "vcpu = v\<lparr>vc_cpu := (vc_cpu v)\<lparr>c_regs := regs\<rparr>\<rparr>" "benv = \<lparr>be_machine = machine, be_psci = oemu_psci_init\<rparr>" "p = q"
    using s m mp q w by (cases w) (auto simp: bind_eq_Some_conv split: if_split_asm)
  then show thesis using that [OF k i t [unfolded tp] hd [unfolded hdr] e m [unfolded mp]] q by simp
qed

text \<open>The virtual CPU the kernel starts on.\<close>

definition start_vcpu :: "oemu_vcpu \<Rightarrow> u64 \<Rightarrow> u64 \<Rightarrow> bool" where
  "start_vcpu v entry ram \<longleftrightarrow> vcpu_inv v \<and> oemu_vcpu_el v = OEMU_EL1 \<and> identity_map (vc_sysregs v) \<and>
     r_pc (c_regs (vc_cpu v)) = entry \<and> r_sp (c_regs (vc_cpu v)) = BOOT_RAM_BASE + ram - 16 \<and>
     r_x (c_regs (vc_cpu v)) = (replicate 31 0)[0 := BOOT_RAM_BASE + ram div 2] \<and>
     vc_quantum v = 1000000 \<and> vc_insns_left v = 1000000 \<and> \<not> vc_irq_level v \<and> \<not> vc_fiq_level v"

lemma start_vcpu_is:
  assumes "oemu_vcpu_init OEMU_EL1 entry (BOOT_RAM_BASE + ram - 16) BOOT_QUANTUM = Some (Inr v)"
    "oemu_regs_write (c_regs (vc_cpu v)) 0 OEMU_REG_W64 (BOOT_RAM_BASE + ram div 2) = Some regs"
  shows "start_vcpu (v\<lparr>vc_cpu := (vc_cpu v)\<lparr>c_regs := regs\<rparr>\<rparr>) entry ram"
proof -
  note ok = vcpu_init_ok [OF assms(1)]
  have c: "vc_cpu v = oemu_cpu_init entry (BOOT_RAM_BASE + ram - 16)" "vc_quantum v = 1000000" "vc_insns_left v = 1000000" "\<not> vc_irq_level v" "\<not> vc_fiq_level v"
    using assms(1) by (auto simp: oemu_vcpu_init_def Let_def bind_eq_Some_conv)
  have r: "regs = (oemu_regs_init entry (BOOT_RAM_BASE + ram - 16))\<lparr>r_x := (replicate 31 0)[0 := BOOT_RAM_BASE + ram div 2]\<rparr>"
    using assms(2) by (simp add: c(1) oemu_cpu_init_def oemu_regs_write_def oemu_regs_init_def oemu_regs_internal_truncate_def)
  show ?thesis unfolding start_vcpu_def
    using ok(1,2,3) c r by (simp add: vcpu_inv_def oemu_vcpu_el_def cpu_inv_def regs_inv_def oemu_cpu_init_def oemu_regs_init_def)
qed

text \<open>The tree where the first argument points, and the RAM disk where the tree says, are complete.\<close>

lemma tree_whole:
  assumes "ram_size_ok ram" "length tree \<le> BOOT_DTB_MAX + 56" "k < length tree"
    and "initrd \<noteq> [] \<Longrightarrow> unat (ram div 4 * 3) + length initrd + 0x1000000 \<le> unat ram"
  shows "ram_at_start ram bytes start tree initrd (BOOT_RAM_BASE + ram div 2 + of_nat k) = Some (tree ! k)"
proof -
  let ?b = "BOOT_RAM_BASE + ram div 2 + of_nat k :: u64"
  have r: "unat ram \<le> 2 ^ 52" using assms(1) by (simp add: ram_size_ok_def)
  have k: "unat (of_nat k :: u64) = k" using assms(2,3) by (simp add: unat_of_nat)
  have "unat (?b - (BOOT_RAM_BASE + ram div 2)) = k" using k by simp
  moreover have "\<not> unat (?b - (BOOT_RAM_BASE + ram div 4 * 3)) < length initrd" if "initrd \<noteq> []"
  proof -
    let ?x = "ram div 2 + of_nat k" and ?y = "ram div 4 * 3"
    have y: "unat ?y = unat ram div 4 * 3" using r by (simp add: unat_word_ariths unat_div)
    have x: "unat ?x = unat ram div 2 + k" using r k assms(2,3) by (simp add: unat_word_ariths unat_div)
    have f: "unat ?y + length initrd + 0x1000000 \<le> unat ram" using assms(4) that by simp
    have "unat ram div 2 + 0x10000 + 56 < unat ram div 4 * 3" using f y by linarith
    then have lt: "unat ?x < unat ?y" using x y assms(2,3) by linarith
    then have "?x < ?y" by (simp add: word_less_nat_alt)
    then have "unat (?x - ?y) = 2 ^ 64 + unat ?x - unat ?y" using lt by (simp add: unat_sub_if_size word_size word_le_nat_alt)
    moreover have e: "?b - (BOOT_RAM_BASE + ?y) = ?x - ?y" by simp
    moreover have "length initrd \<le> 2 ^ 64 + unat ?x - unat ?y" using f r by simp
    ultimately show ?thesis unfolding e by linarith
  qed
  ultimately show ?thesis using assms(3) by (cases "initrd = []") (simp_all add: ram_at_start_def)
qed

lemma initrd_whole:
  assumes "k < length initrd" "length initrd < 2 ^ 62"
  shows "ram_at_start ram bytes start tree initrd (BOOT_RAM_BASE + ram div 4 * 3 + of_nat k) = Some (initrd ! k)"
proof -
  have "unat (of_nat k :: u64) = k" using assms by (simp add: unat_of_nat)
  then show ?thesis using assms(1) by (simp add: ram_at_start_def)
qed

text \<open>So is the text of the kernel below the half of RAM, where nothing is placed over it.\<close>

lemma below_window:
  fixes x y :: u64
  assumes "unat x < unat y" "unat y \<le> 2 ^ 52" "n < 2 ^ 63"
  shows "\<not> unat (x - y) < n"
  using assms by (simp add: unat_sub_if_size word_size word_le_nat_alt)

lemma kernel_whole:
  assumes ok: "ram_size_ok ram" and "length tree \<le> BOOT_DTB_MAX + 56" "length initrd < 2 ^ 62" "start + k < length bytes" "start + k < unat (ram div 2)"
  shows "ram_at_start ram bytes start tree initrd (BOOT_RAM_BASE + of_nat (start + k)) = Some (bytes ! (start + k))"
proof -
  let ?x = "of_nat (start + k) :: u64"
  have r: "unat ram \<le> 2 ^ 52" using ok by (simp add: ram_size_ok_def)
  have half: "unat (ram div 2) = unat ram div 2" "unat (ram div 4 * 3) = unat ram div 4 * 3" using r by (simp_all add: unat_word_ariths unat_div)
  have lt: "start + k < 2 ^ 52" "k < 2 ^ 52" using assms(5) half(1) r by simp_all
  have x: "unat ?x = start + k" "unat (of_nat k :: u64) = k" using lt by (simp_all only: unat_of_nat) simp_all
  have "unat ram mod 8 = 0" using ok by (simp add: ram_size_ok_def)
  then have q: "unat ram div 2 \<le> unat ram div 4 * 3" by presburger
  have "\<not> unat (?x - ram div 2) < length tree"
    by (rule below_window) (use assms(2,5) x(1) half r in simp_all)
  moreover have "\<not> unat (?x - ram div 4 * 3) < length initrd"
    by (rule below_window) (use assms(3,5) x(1) half r q in simp_all)
  moreover have "BOOT_RAM_BASE + ?x - (BOOT_RAM_BASE + y) = ?x - y" for y by simp
  moreover have "?x - of_nat start = of_nat k" by simp
  moreover have "k < length bytes - start" using assms(4) by simp
  ultimately show ?thesis using x(2) by (simp add: ram_at_start_def del: of_nat_add)
qed

text \<open>The RAM disk as it was read.\<close>

lemma initrd_read:
  assumes "(case bo_initrd opts of None \<Rightarrow> Some None | Some path \<Rightarrow> map_option Some (slurp (oemu_allocator_default room junk) path)) = Some initrd"
    and "pred_option (pred_option file_ok) (bo_initrd opts)"
  shows "map_option oemu_buffer_len initrd = map_option (\<lambda>I. of_nat (length I)) (initrd_bytes opts)"
    "map_option (\<lambda>b. (case image_bytes b of None \<Rightarrow> [] | Some bytes \<Rightarrow> bytes, pa)) initrd = map_option (\<lambda>I. (I, pa)) (initrd_bytes opts)"
    "initrd_bytes opts = Some I \<Longrightarrow> length I < 2 ^ 62"
proof -
  have "map_option oemu_buffer_len initrd = map_option (\<lambda>I. of_nat (length I)) (initrd_bytes opts) \<and>
    map_option (\<lambda>b. (case image_bytes b of None \<Rightarrow> [] | Some bytes \<Rightarrow> bytes, pa)) initrd = map_option (\<lambda>I. (I, pa)) (initrd_bytes opts)"
  proof (cases "bo_initrd opts")
    case (Some path)
    then obtain buf where b: "slurp (oemu_allocator_default room junk) path = Some buf" "initrd = Some buf" using assms(1) by auto
    obtain f b' where f: "path = Some f" "buf = Some b'" "buf_ok b'" "contents b' = concat (fl_chunks f)"
      using slurp_contents [OF b(1)] assms(2) Some by fastforce
    have "oemu_buffer_len buf = of_nat (length (concat (fl_chunks f)))"
      using f contents_length [OF f(3)] by (simp add: oemu_buffer_len_def)
    then show ?thesis using Some b(2) f bytes_of_buffer [OF f(3)] by (simp add: initrd_bytes_def)
  qed (use assms(1) in \<open>simp add: initrd_bytes_def\<close>)
  then show "map_option oemu_buffer_len initrd = map_option (\<lambda>I. of_nat (length I)) (initrd_bytes opts)"
    "map_option (\<lambda>b. (case image_bytes b of None \<Rightarrow> [] | Some bytes \<Rightarrow> bytes, pa)) initrd = map_option (\<lambda>I. (I, pa)) (initrd_bytes opts)" by blast+
  show "initrd_bytes opts = Some I \<Longrightarrow> length I < 2 ^ 62"
    using assms(2) by (auto simp: initrd_bytes_def file_ok_def split: option.splits)
qed

text \<open>The kernel as it was read: a file shorter than its header is refused by the loader.\<close>

lemma kernel_read:
  assumes "slurp (oemu_allocator_default room junk) path = Some kimg" "pred_option file_ok path"
    and "boot_header kimg = Some (Inr hdr)" "boot_place kimg ram tree initrd p = Inr q"
  shows "\<exists>f. path = Some f \<and> image_bytes kimg = Some (concat (fl_chunks f)) \<and> length (concat (fl_chunks f)) < 2 ^ 62 \<and>
    oemu_image_parse_header (Some (concat (fl_chunks f))) = Inr hdr"
proof -
  obtain f b where f: "path = Some f" "kimg = Some b" "buf_ok b" "contents b = concat (fl_chunks f)"
    using slurp_contents [OF assms(1,2)] by blast
  have i: "image_bytes kimg = Some (contents b)"
    using image_bytes_contents [OF f(3)] f(2) assms(4) by (auto simp: boot_place_def oemu_image_load_def)
  then have "64 \<le> length (contents b)" using assms(4) by (auto simp: boot_place_def oemu_image_load_def split: if_split_asm)
  from boot_header_parse [OF assms(3) [unfolded f(2)] f(3) this] i f assms(2) show ?thesis by (auto simp: file_ok_def)
qed

lemma trees_bounds:
  assumes "(if bo_dtb opts = None then generated_tree bh opts ram len else loaded_tree bh opts ram) = Some (Inr (tree, pa))"
    and blk: "pred_option (\<lambda>b. length b = 2 * BOOT_DTB_MAX) (bh_fdt_block bh)" and "ram_size_ok ram" "pred_option (\<lambda>n. unat n < 2 ^ 62) len"
  shows "length tree \<le> BOOT_DTB_MAX + 56"
    "bo_dtb opts = None \<Longrightarrow> answers tree (virt_tree (tree_params bh opts ram len))"
    "len = Some n \<Longrightarrow> pa = 0 \<or> bo_dtb opts = None \<and> pa = BOOT_RAM_BASE + ram div 4 * 3 \<and> unat (ram div 4 * 3) + unat n + 0x1000000 \<le> unat ram"
proof -
  show "length tree \<le> BOOT_DTB_MAX + 56"
    using assms(1) generated_tree_is(2) [of bh opts ram len tree pa] blk loaded_tree_bound [of bh opts ram tree pa] by (auto split: if_split_asm)
  show "bo_dtb opts = None \<Longrightarrow> answers tree (virt_tree (tree_params bh opts ram len))"
    using assms(1) generated_tree_is(5) [of bh opts ram len tree pa] blk by auto
  assume n: "len = Some n"
  show "pa = 0 \<or> bo_dtb opts = None \<and> pa = BOOT_RAM_BASE + ram div 4 * 3 \<and> unat (ram div 4 * 3) + unat n + 0x1000000 \<le> unat ram"
  proof (cases "bo_dtb opts = None")
    case True
    then have g: "generated_tree bh opts ram len = Some (Inr (tree, pa))" using assms(1) by simp
    have "pa = boot_initrd_addr ram n" using generated_tree_is(3) [OF g blk] n by simp
    then show ?thesis using initrd_fits [OF assms(3), of n] assms(4) n True by (cases "pa = 0") auto
  next
    case False
    then have "loaded_tree bh opts ram = Some (Inr (tree, pa))" using assms(1) by (auto split: if_split_asm)
    then show ?thesis using loaded_tree_bound by blast
  qed
qed

section \<open>The command starts\<close>

text \<open>With memory, readable files, a well-formed kernel and RAM for the three, nothing fails.\<close>

lemma slurp_succeeds:
  assumes "\<forall>n. room n" "\<not> fl_error f" "file_ok f"
  shows "\<exists>b. slurp (oemu_allocator_default room junk) (Some f) = Some (Some b) \<and> buf_ok b \<and> contents b = concat (fl_chunks f)"
proof -
  from read_chunks_succeeds [OF assms(1) empty_ok(1), of "fl_chunks f" junk] assms(3) empty_ok(2)
  obtain b where "read_chunks (oemu_allocator_default room junk) (fl_chunks f) (Some empty_buffer) = (OEMU_OK, Some b)"
    by (auto simp: file_ok_def list_all_iff)
  then have s: "slurp (oemu_allocator_default room junk) (Some f) = Some (Some b)"
    using assms(2) by (simp add: slurp_def empty_ok read_file_def)
  then show ?thesis using slurp_contents [OF s] assms(3) by auto
qed

lemma header_succeeds:
  assumes "buf_ok b" "64 \<le> length (contents b)" "oemu_image_parse_header (Some (contents b)) = Inr hdr"
  shows "boot_header (Some b) = Some (Inr hdr)"
proof -
  obtain block where block: "bf_data b = Some block" using assms(2) by (cases "bf_data b") (simp_all add: contents_def)
  then have c: "contents b = take (unat (bf_len b)) block" by (simp add: contents_def)
  then have l: "64 \<le> length block" "take 64 block = take 64 (contents b)" using assms(2) by (auto simp: min_def split: if_split_asm)
  from header_prefix [OF l(2,1) assms(2)] assms(3) l(1) show ?thesis
    by (simp add: boot_header_def oemu_buffer_data_def block)
qed

lemma kernel_loads:
  assumes as: "as_inv as" "host_inv (mem_of is_ram as)" "ram_accepts as BOOT_RAM_BASE ram OEMU_PERM_WRITE" and ram: "ram_size_ok ram"
    and k: "oemu_image_parse_header (Some bytes) = Inr hdr" "64 \<le> length bytes" "unat (im_text_offset hdr) < length bytes" "length bytes \<le> unat ram"
  shows "\<exists>info h1. oemu_image_load (Some bytes) oemu_aspace_memops BOOT_RAM_BASE ram (as, h, d) = (Inr info, (as, h1, d))"
proof -
  let ?start = "unat (im_text_offset hdr)"
  have big: "length bytes < 2 ^ 64" using k(4) ram by (simp add: ram_size_ok_def)
  have "?start mod 0x1000 mod 8 = 0" using header_page [OF k(1)] by simp
  then have "?start mod 8 = 0" by (subst (asm) mod_mod_cancel) simp_all
  then have "?start + 8 * ((length bytes - ?start + 7) div 8) \<le> unat ram" using text_fits k(3,4) ram by (simp add: ram_size_ok_def)
  with load_places [of "(as, h, d)", OF _ _ _ k(1) refl refl big, of BOOT_RAM_BASE ram, simplified, OF as(1,2) as(3) [simplified]] k(2-4)
  obtain info s' where "oemu_image_load (Some bytes) oemu_aspace_memops BOOT_RAM_BASE ram (as, h, d) = (Inr info, s')" "fst s' = as" "snd (snd s') = d" by auto
  then show ?thesis by (metis prod.collapse)
qed

lemma place_succeeds:
  assumes as: "as_inv as" "host_inv (mem_of is_ram as)" "ram_accepts as BOOT_RAM_BASE ram OEMU_PERM_WRITE" and ram: "ram_size_ok ram"
    and k: "image_bytes kimg = Some bytes" "oemu_image_parse_header (Some bytes) = Inr hdr" "64 \<le> length bytes" "unat (im_text_offset hdr) < length bytes" "length bytes \<le> unat ram"
    and tree: "length tree \<le> BOOT_DTB_MAX + 56"
    and initrd: "pred_option (\<lambda>(I, pa). pa = BOOT_RAM_BASE + ram div 4 * 3 \<and> unat (ram div 4 * 3) + length I \<le> unat ram) initrd"
  shows "\<exists>p. boot_place kimg ram tree initrd (as, h, d) = Inr p"
proof -
  obtain info h1 where l: "oemu_image_load (Some bytes) oemu_aspace_memops BOOT_RAM_BASE ram (as, h, d) = (Inr info, (as, h1, d))"
    using kernel_loads [OF as ram k(2-5)] by blast
  have "unat (ram div 2) + length tree \<le> unat ram" using half_fits [OF ram] tree by simp
  then obtain h2 where t: "place_bytes tree (BOOT_RAM_BASE + ram div 2) (as, h1, d) = (OEMU_OK, (as, h2, d))"
    using place_in_ram [OF as, of "unat (ram div 2)" tree h1 d] by auto
  show ?thesis
  proof (cases initrd)
    case (Some x)
    obtain I pa where x: "x = (I, pa)" by (rule prod.exhaust)
    then have pa: "pa = BOOT_RAM_BASE + ram div 4 * 3" "unat (ram div 4 * 3) + length I \<le> unat ram" using initrd Some by auto
    obtain h3 where "place_bytes I pa (as, h2, d) = (OEMU_OK, (as, h3, d))" using place_in_ram [OF as pa(2), of h2 d] pa(1) by auto
    then show ?thesis using l t Some x by (simp add: boot_place_def k(1))
  qed (use l t in \<open>simp add: boot_place_def k(1)\<close>)
qed

lemma machine_succeeds:
  assumes "bh_table bh = Some t" "bh_ram bh = Some blk" "ram \<noteq> 0" "uint ram \<le> 2 ^ 52"
  shows "\<exists>machine p0. boot_machine bh ram h = Some (Inr (machine, p0))"
proof -
  obtain gic where g: "oemu_gicv2_init BOOT_GIC_LINES = Some gic" by (auto simp: oemu_gicv2_init_def OEMU_REQUIRE_def)
  have u: "\<not> 2 ^ 64 < uint (BOOT_RAM_BASE :: u64) + uint ram" using assms(4) by simp
  have ov: "\<not> oemu_aspace_internal_ranges_overlap 0x9000000 0x1000 0x40000000 ram"
    "\<not> oemu_aspace_internal_ranges_overlap 0x8000000 0x10000 0x40000000 ram"
    "\<not> oemu_aspace_internal_ranges_overlap 0x8010000 0x10000 0x40000000 ram"
    by (simp_all add: oemu_aspace_internal_ranges_overlap_def)
  show ?thesis unfolding boot_machine_def g machine_init_cases [OF assms(3), of 8, simplified]
    using ov u assms(1,2)
    by (simp add: Let_def oemu_aspace_attach_device_def map_common_def check_room_def oemu_aspace_internal_check_map_args_def
        add_region_def empty_space_def ram_region_def oemu_aspace_internal_ranges_overlap_def device_ok_def)
qed

lemma tree_succeeds:
  assumes "bh_fdt_block bh = Some sb" "length sb = 2 * BOOT_DTB_MAX" "bh_fdt_blob bh"
    and "virt_room (tree_params bh opts ram len) \<le> BOOT_DTB_MAX" "pred_option (\<lambda>n. boot_initrd_addr ram n \<noteq> 0) len"
  shows "\<exists>tree pa. generated_tree bh opts ram len = Some (Inr (tree, pa))"
proof -
  let ?p = "tree_params bh opts ram len"
  obtain gen where i: "oemu_fdt_init (Some sb) BOOT_DTB_MAX zero_fdt = (OEMU_OK, gen)" using init_succeeds [of BOOT_DTB_MAX] by auto
  obtain st gen2 where b: "oemu_virt_dtb_build True gen ?p = (st, gen2)" by (rule prod.exhaust)
  note o = build_outcome [OF i assms(2) b]
  have "st = OEMU_OK" using o(1) assms(4) by simp
  then show ?thesis using i b assms(1,3,5) o(2) by (cases len) (auto simp: generated_tree_def tree_params_def Let_def)
qed

lemma boot_starts:
  assumes al: "bh_alloc bh = oemu_allocator_default room junk" "\<forall>n. room n"
    and kf: "bo_kernel opts = Some f" "\<not> fl_error f" "file_ok f" "oemu_image_parse_header (Some (concat (fl_chunks f))) = Inr hdr"
      "64 \<le> length (concat (fl_chunks f))" "unat (im_text_offset hdr) < length (concat (fl_chunks f))" "length (concat (fl_chunks f)) \<le> unat ram"
    and rf: "bo_initrd opts = map_option Some rf" "pred_option (\<lambda>f. \<not> fl_error f \<and> file_ok f) rf"
      "pred_option (\<lambda>I. boot_initrd_addr ram (of_nat (length I)) \<noteq> 0) (initrd_bytes opts)"
    and ram: "ram = bo_ram_mib opts * 0x100000" "0 < bo_ram_mib opts" "bo_ram_mib opts \<le> 0x100000000"
    and tr: "bo_dtb opts = None" "bh_fdt_block bh = Some sb" "length sb = 2 * BOOT_DTB_MAX" "bh_fdt_blob bh"
      "virt_room (tree_params bh opts ram (map_option (\<lambda>I. of_nat (length I)) (initrd_bytes opts))) \<le> BOOT_DTB_MAX"
    and en: "boot_entry opts hdr AND 3 = 0" "BOOT_RAM_BASE \<le> boot_entry opts hdr" "boot_entry opts hdr < BOOT_RAM_BASE + ram" "bo_serial opts \<noteq> Some False"
    and host: "bh_table bh = Some t" "bh_ram bh = Some blk" "uint blk + uint ram \<le> 2 ^ 64"
  shows "\<exists>vcpu p benv. boot_setup bh opts h = Some (Inr (vcpu, p, benv))"
proof -
  have ok: "ram_size_ok ram" unfolding ram by (rule ram_of_mib [OF ram(2,3)])
  then have "ram \<le> 0x10000000000000" by (simp add: ram_size_ok_def word_le_nat_alt)
  then have r: "ram \<noteq> 0" "uint ram \<le> 2 ^ 52" using ok by (auto simp: ram_size_ok_def word_le_def)
  obtain b where b: "slurp (bh_alloc bh) (bo_kernel opts) = Some (Some b)" "buf_ok b" "contents b = concat (fl_chunks f)"
    using slurp_succeeds [OF al(2) kf(2,3)] al(1) kf(1) by auto
  have i: "\<exists>initrd. (case bo_initrd opts of None \<Rightarrow> Some None | Some path \<Rightarrow> map_option Some (slurp (bh_alloc bh) path)) = Some initrd"
    using slurp_succeeds [OF al(2)] rf(1,2) al(1) by (cases rf) fastforce+
  then obtain initrd where i: "(case bo_initrd opts of None \<Rightarrow> Some None | Some path \<Rightarrow> map_option Some (slurp (bh_alloc bh) path)) = Some initrd" by blast
  have "pred_option (pred_option file_ok) (bo_initrd opts)" using rf by (cases rf) auto
  note I = initrd_read [OF i [unfolded al(1)] this]
  let ?len = "map_option (\<lambda>I. of_nat (length I) :: u64) (initrd_bytes opts)"
  have addr: "pred_option (\<lambda>n. boot_initrd_addr ram n \<noteq> 0) ?len" using rf(3) by (cases "initrd_bytes opts") auto
  obtain tree pa where t: "generated_tree bh opts ram ?len = Some (Inr (tree, pa))" using tree_succeeds [OF tr(2-5) addr] by blast
  have "pred_option (\<lambda>b. length b = 2 * BOOT_DTB_MAX) (bh_fdt_block bh)" using tr(2,3) by simp
  note T = generated_tree_is [OF t this]
  obtain machine p0 where m: "boot_machine bh ram h = Some (Inr (machine, p0))" using machine_succeeds [OF host(1,2) r] by blast
  obtain tb gic where p0: "p0 = (boot_regions tb blk ram, memset_zero h blk ram, \<lparr>bd_uart = oemu_pl011_init (Some boot_serial_sink) [], bd_gic = gic\<rparr>)"
    using boot_machine_is [OF m r] host(2) by auto
  note R = boot_regions_sound [OF r host(3) refl, of tb]
  have "pred_option (\<lambda>(I, pa). pa = BOOT_RAM_BASE + ram div 4 * 3 \<and> unat (ram div 4 * 3) + length I \<le> unat ram) (map_option (\<lambda>I. (I, pa)) (initrd_bytes opts))"
  proof (cases "initrd_bytes opts")
    case (Some J)
    then have "unat (of_nat (length J) :: u64) = length J" using I(3) by (simp add: unat_of_nat)
    then show ?thesis using initrd_fits [OF ok, of "of_nat (length J)"] rf(3) I(3) [OF Some] T(3) Some by simp
  qed simp
  moreover have "image_bytes (Some b) = Some (concat (fl_chunks f))" using image_bytes_contents [OF b(2)] b(3) kf(5) by (metis list.size(3) not_numeral_le_zero)
  ultimately obtain p where p: "boot_place (Some b) ram tree (map_option (\<lambda>I. (I, pa)) (initrd_bytes opts)) p0 = Inr p"
    using place_succeeds [OF R(1-3) ok _ kf(4-7) T(2)] p0 by blast
  obtain v where v: "oemu_vcpu_init OEMU_EL1 (boot_entry opts hdr) (BOOT_RAM_BASE + ram - 16) BOOT_QUANTUM = Some (Inr v)"
    by (auto simp: oemu_vcpu_init_def oemu_sysregs_init_def Let_def)
  have hd: "boot_header (Some b) = Some (Inr hdr)" by (rule header_succeeds) (use b kf in simp_all)
  obtain x y z where "p = (x, y, z)" by (rule prod_cases3)
  then show ?thesis
    unfolding boot_setup_def Let_def ram(1) [symmetric] b(1) i option.case I(1,2) boot_entry_def [symmetric]
    using tr(1) t hd en m p v by (simp add: not_less not_le oemu_regs_write_def)
qed

section \<open>Properties\<close>


text \<open>A machine of 128 MiB with a kernel of three bytes of text after its header and a RAM disk of two.\<close>

definition sample_host :: boot_host where
  "sample_host = \<lparr>bh_alloc = oemu_allocator_default (\<lambda>_. True) (\<lambda>_. 0xAA), bh_fdt_block = Some (replicate 131072 0), bh_fdt_blob = True,
     bh_seed = None, bh_table = Some 0x100, bh_ram = Some 0x10000, bh_stdin = [], bh_tty = False, bh_fixture = [], bh_fault = no_fault\<rparr>"

definition sample_boot :: boot_opts where
  "sample_boot = \<lparr>bo_kernel = Some \<lparr>fl_chunks = [sample_image], fl_error = False\<rparr>, bo_cmdline = Some ''quiet'', bo_dtb = None,
     bo_initrd = Some (Some \<lparr>fl_chunks = [[0xDE], [0xAD]], fl_error = False\<rparr>), bo_serial = None, bo_ram_mib = 128, bo_entry = 0,
     bo_max_insns = 1, bo_stdio = False\<rparr>"

lemma sample_fields:
  "bh_alloc sample_host = oemu_allocator_default (\<lambda>_. True) (\<lambda>_. 0xAA)" "bh_fdt_block sample_host = Some (replicate 131072 0)" "bh_fdt_blob sample_host"
  "bh_table sample_host = Some 0x100" "bh_ram sample_host = Some 0x10000"
  "bo_kernel sample_boot = Some \<lparr>fl_chunks = [sample_image], fl_error = False\<rparr>" "bo_dtb sample_boot = None"
  "bo_initrd sample_boot = Some (Some \<lparr>fl_chunks = [[0xDE], [0xAD]], fl_error = False\<rparr>)" "bo_serial sample_boot = None" "bo_ram_mib sample_boot = 128" "bo_entry sample_boot = 0"
  by (simp_all add: sample_host_def sample_boot_def)

lemma sample_tree_fields:
  assumes "p = tree_params sample_host sample_boot 0x8000000 (Some 2)"
  shows "vp_ram_base p = 0x40000000" "vp_ram_size p = 0x8000000" "vp_cmdline p = Some ''quiet''" "vp_rng_seed p = None"
  by (simp_all add: assms tree_params_def Let_def sample_host_def sample_boot_def)

lemma sample_tree:
  assumes "p = tree_params sample_host sample_boot 0x8000000 (Some 2)"
  shows "virt_room p \<le> 65536" "tree_lookup [''memory@40000000''] ''reg'' (virt_tree p) = Some (cells_bytes [0, 0x40000000, 0, 0x8000000])"
proof -
  note f = sample_tree_fields [OF assms]
  show "virt_room p \<le> 65536"
    using memory_name_facts(1) [of p] pad4_ge(2) [of "length (memory_name p) + 1"] by (simp add: virt_room_def seed_of_def fdt_pad4_def f)
  have hex: "hex 0x40000000 = ''40000000''" by (simp add: hex.simps)
  show "tree_lookup [''memory@40000000''] ''reg'' (virt_tree p) = Some (cells_bytes [0, 0x40000000, 0, 0x8000000])"
    by (simp add: tree_lookup_def virt_tree_def hex children_def props_of_def f words_of_def)
qed

lemma sample_boot_starts: "\<exists>vcpu p benv. boot_setup sample_host sample_boot (\<lambda>_. 0) = Some (Inr (vcpu, p, benv))"
proof -
  obtain hdr where hdr: "oemu_image_parse_header (Some sample_image) = Inr hdr" "im_text_offset hdr = 0" using sample_image_header(1) by blast
  have ib: "initrd_bytes sample_boot = Some [0xDE, 0xAD]" by (simp add: initrd_bytes_def sample_fields)
  show ?thesis
    by (rule boot_starts [where rf = "Some \<lparr>fl_chunks = [[0xDE], [0xAD]], fl_error = False\<rparr>" and ram = "0x8000000" and hdr = hdr and blk = "0x10000" and
          t = "0x100" and sb = "replicate 131072 0" and room = "\<lambda>_. True" and junk = "\<lambda>_. 0xAA" and f = "\<lparr>fl_chunks = [sample_image], fl_error = False\<rparr>"])
      (use hdr sample_image_header(2) ib sample_tree(1) [OF refl] in \<open>simp_all (no_asm_simp) add: sample_fields file_ok_def boot_entry_def boot_initrd_addr_def\<close>)
qed


end
