(* ===== verification/Oemu_Main.thy ===== *)
theory Oemu_Main
  imports Oemu_Boot
begin

text \<open>
  The command line (\<^verbatim>\<open>src/main.c\<close>, \<^verbatim>\<open>main\<close> and the parsers of its option values). Arguments are strings, the
  file a path names and whether a path can be opened for writing are parameters, and \<^verbatim>\<open>strtoull\<close> is the
  function of the C standard in the C locale. Usage texts and messages are left out.

  The property reads every line of options back and bounds what any command line can ask for.
\<close>

section \<open>Numbers\<close>

definition isspace :: "char \<Rightarrow> bool" where
  "isspace c \<longleftrightarrow> (of_char c :: nat) \<in> {9, 10, 11, 12, 13, 32}"

definition digit_of :: "char \<Rightarrow> nat option" where
  "digit_of c =
     (let n = of_char c :: nat
      in if 48 \<le> n \<and> n \<le> 57 then Some (n - 48)
         else if 97 \<le> n \<and> n \<le> 122 then Some (n - 87)
         else if 65 \<le> n \<and> n \<le> 90 then Some (n - 55)
         else None)"

definition digit_in :: "nat \<Rightarrow> char \<Rightarrow> bool" where
  "digit_in base c \<longleftrightarrow> (case digit_of c of None \<Rightarrow> False | Some d \<Rightarrow> d < base)"

definition digits_value :: "nat \<Rightarrow> string \<Rightarrow> nat" where
  "digits_value base ds = foldl (\<lambda>v c. v * base + (case digit_of c of None \<Rightarrow> 0 | Some d \<Rightarrow> d)) 0 ds"

definition take_sign :: "string \<Rightarrow> bool \<times> string" where
  "take_sign s =
     (case s of
        [] \<Rightarrow> (False, s)
      | c # cs \<Rightarrow> if c = CHR ''-'' then (True, cs) else if c = CHR ''+'' then (False, cs) else (False, s))"

text \<open>Base 0 reads the base off the prefix; a prefix with no digit behind it is the number zero.\<close>

definition take_base :: "nat \<Rightarrow> string \<Rightarrow> nat \<times> string" where
  "take_base base s =
     (if base \<noteq> 0 then (base, s)
      else if (take 2 s = ''0x'' \<or> take 2 s = ''0X'') \<and> (case drop 2 s of [] \<Rightarrow> False | c # _ \<Rightarrow> digit_in 16 c) then (16, drop 2 s)
      else if take 1 s = ''0'' then (8, s)
      else (10, s))"

text \<open>The value, whether it was out of range, and the text behind the number unless there was none.\<close>

definition strtoull :: "nat \<Rightarrow> string \<Rightarrow> u64 \<times> bool \<times> string option" where
  "strtoull base txt =
     (case take_sign (dropWhile isspace txt) of
        (neg, s) \<Rightarrow>
          (case take_base base s of
             (base, s) \<Rightarrow>
               let ds = takeWhile (digit_in base) s; n = digits_value base ds
               in if ds = [] then (0, False, None)
                  else if n \<ge> 2 ^ 64 then (0xFFFFFFFFFFFFFFFF, True, Some (drop (length ds) s))
                  else (if neg then - of_nat n else of_nat n, False, Some (drop (length ds) s))))"

definition parse_max_insns :: "string \<Rightarrow> u64 option" where
  "parse_max_insns txt =
     (case strtoull 10 txt of (value, errno, rest) \<Rightarrow> if rest \<noteq> Some [] \<or> errno then None else Some value)"

definition parse_mib :: "string \<Rightarrow> u64 option" where
  "parse_mib txt =
     (case strtoull 10 txt of
        (value, errno, rest) \<Rightarrow> if rest \<noteq> Some [] \<or> errno \<or> value = 0 \<or> value > 0x100000000 then None else Some value)"

definition parse_serial :: "string \<Rightarrow> string option" where
  "parse_serial txt = (if take 5 txt \<noteq> ''file:'' \<or> length txt \<le> 5 then None else Some (drop 5 txt))"

definition parse_entry :: "string \<Rightarrow> u64 option" where
  "parse_entry txt =
     (case strtoull 0 txt of (value, errno, rest) \<Rightarrow> if rest \<noteq> Some [] \<or> errno \<or> take 1 txt = ''-'' then None else Some value)"

section \<open>Arguments\<close>

abbreviation (input) EXIT_USAGE :: u32 where "EXIT_USAGE \<equiv> 2"
abbreviation (input) BOOT_RAM_DEFAULT :: u64 where "BOOT_RAM_DEFAULT \<equiv> 1024"
abbreviation (input) UINT64_MAX :: u64 where "UINT64_MAX \<equiv> 0xFFFFFFFFFFFFFFFF"

fun boot_args :: "(string \<Rightarrow> host_file option) \<Rightarrow> (string \<Rightarrow> bool) \<Rightarrow> string list \<Rightarrow> boot_opts \<Rightarrow> u32 + boot_opts" where
  "boot_args files writable [] opts = Inr opts"
| "boot_args files writable (a # rest) opts =
     (if a = ''-append'' \<or> a = ''-dtb''
      then (case rest of
              [] \<Rightarrow> Inl EXIT_USAGE
            | v # rest \<Rightarrow> boot_args files writable rest
                (if a ! 1 = CHR ''a'' then opts\<lparr>bo_cmdline := Some v\<rparr> else opts\<lparr>bo_dtb := Some (files v)\<rparr>))
      else if a = ''-initrd''
      then (case rest of
              [] \<Rightarrow> Inl EXIT_USAGE
            | v # rest \<Rightarrow> boot_args files writable rest (opts\<lparr>bo_initrd := Some (files v)\<rparr>))
      else if a = ''-m''
      then (case rest of
              [] \<Rightarrow> Inl EXIT_USAGE
            | v # rest \<Rightarrow> (case parse_mib v of
                None \<Rightarrow> Inl EXIT_USAGE
              | Some n \<Rightarrow> boot_args files writable rest (opts\<lparr>bo_ram_mib := n\<rparr>)))
      else if a = ''--serial'' \<or> a = ''-serial''
      then (case rest of
              [] \<Rightarrow> Inl EXIT_USAGE
            | v # rest \<Rightarrow>
                if v = ''stdio'' then boot_args files writable rest (opts\<lparr>bo_stdio := True\<rparr>)
                else (case parse_serial v of
                        None \<Rightarrow> Inl EXIT_USAGE
                      | Some path \<Rightarrow> boot_args files writable rest (opts\<lparr>bo_serial := Some (writable path)\<rparr>)))
      else if a = ''--entry''
      then (case rest of
              [] \<Rightarrow> Inl EXIT_USAGE
            | v # rest \<Rightarrow> (case parse_entry v of
                None \<Rightarrow> Inl EXIT_USAGE
              | Some n \<Rightarrow> boot_args files writable rest (opts\<lparr>bo_entry := n\<rparr>)))
      else if a = ''--max-insns''
      then (case rest of
              [] \<Rightarrow> Inl EXIT_USAGE
            | v # rest \<Rightarrow> (case parse_max_insns v of
                None \<Rightarrow> Inl EXIT_USAGE
              | Some n \<Rightarrow> boot_args files writable rest (opts\<lparr>bo_max_insns := n\<rparr>)))
      else Inl EXIT_USAGE)"

text \<open>The two spellings of the unsupported processor count end in the last branch too.\<close>

fun run_args :: "string list \<Rightarrow> u64 \<Rightarrow> u32 + u64" where
  "run_args [] max_insns = Inr max_insns"
| "run_args (a # rest) max_insns =
     (if a = ''--max-insns''
      then (case rest of
              [] \<Rightarrow> Inl EXIT_USAGE
            | v # rest \<Rightarrow> (case parse_max_insns v of None \<Rightarrow> Inl EXIT_USAGE | Some n \<Rightarrow> run_args rest n))
      else Inl EXIT_USAGE)"

declare boot_args.simps(2) [simp del] run_args.simps(2) [simp del]

definition start_opts :: "host_file option \<Rightarrow> boot_opts" where
  "start_opts kernel_file =
     \<lparr>bo_kernel = kernel_file, bo_cmdline = None, bo_dtb = None, bo_initrd = None, bo_serial = None, bo_ram_mib = BOOT_RAM_DEFAULT,
      bo_entry = 0, bo_max_insns = UINT64_MAX, bo_stdio = False\<rparr>"

text \<open>The program, from its arguments to its exit status and the output of the guest. \<^const>\<open>None\<close> is a
  process that a check of the emulator stops or that runs for ever.\<close>

definition main ::
  "(string \<Rightarrow> host_file option) \<Rightarrow> (string \<Rightarrow> bool) \<Rightarrow> boot_host \<Rightarrow> run_host \<Rightarrow> heap \<Rightarrow> string list \<Rightarrow> (u32 \<times> u8 list) option" where
  "main files writable bh rh h argv =
     (if length argv \<ge> 2 \<and> (argv ! 1 = ''--help'' \<or> argv ! 1 = ''-h'') then Some (0, [])
      else if length argv \<ge> 2 \<and> argv ! 1 = ''boot''
      then if length argv < 4 \<or> argv ! 2 \<noteq> ''-kernel'' then Some (EXIT_USAGE, [])
      else (case boot_args files writable (drop 4 argv) (start_opts (files (argv ! 3))) of
              Inl c \<Rightarrow> Some (c, [])
            | Inr opts \<Rightarrow> boot bh opts h)
      else if length argv < 3 \<or> argv ! 1 \<noteq> ''run'' then Some (EXIT_USAGE, [])
      else (case run_args (drop 3 argv) UINT64_MAX of
              Inl c \<Rightarrow> Some (c, [])
            | Inr max_insns \<Rightarrow> run (rh\<lparr>rh_file := files (argv ! 2)\<rparr>) h max_insns))"

section \<open>Numbers read back\<close>

fun numeral_text :: "nat \<Rightarrow> nat \<Rightarrow> string" where
  "numeral_text base n =
     (if base < 2 \<or> n < base then [''0123456789abcdef'' ! n] else numeral_text base (n div base) @ [''0123456789abcdef'' ! (n mod base)])"

declare numeral_text.simps [simp del]

lemma digit_char:
  assumes "d < 16"
  shows "digit_of (''0123456789abcdef'' ! d) = Some d" "\<not> isspace (''0123456789abcdef'' ! d)"
    "''0123456789abcdef'' ! d \<noteq> CHR ''-''" "''0123456789abcdef'' ! d \<noteq> CHR ''+''"
proof -
  have "d \<in> set [0..<16]" using assms by simp
  moreover have "list_all (\<lambda>d. digit_of (''0123456789abcdef'' ! d) = Some d \<and> \<not> isspace (''0123456789abcdef'' ! d) \<and>
      ''0123456789abcdef'' ! d \<noteq> CHR ''-'' \<and> ''0123456789abcdef'' ! d \<noteq> CHR ''+'') [0..<16]"
    by (simp add: upt_conv_Cons digit_of_def isspace_def)
  ultimately show "digit_of (''0123456789abcdef'' ! d) = Some d" "\<not> isspace (''0123456789abcdef'' ! d)"
    "''0123456789abcdef'' ! d \<noteq> CHR ''-''" "''0123456789abcdef'' ! d \<noteq> CHR ''+''"
    by (auto simp only: list_all_iff)
qed

text \<open>A numeral is digits of its base, with its number as their value.\<close>

lemma numeral_text_digits:
  assumes "2 \<le> base" "base \<le> 16"
  shows "list_all (digit_in base) (numeral_text base n) \<and> digits_value base (numeral_text base n) = n \<and>
    (\<exists>d < 16. \<exists>cs. numeral_text base n = ''0123456789abcdef'' ! d # cs)"
proof (induction n rule: less_induct)
  case (less n)
  show ?case
  proof (cases "n < base")
    case True
    then have "n < 16" using assms by simp
    with digit_char(1) [OF this] True show ?thesis
      by (subst (1 2 3) numeral_text.simps) (auto simp: digit_in_def digits_value_def)
  next
    case False
    then have "n div base < n" using assms by (intro div_less_dividend) auto
    note IH = less.IH [OF this]
    have m: "n mod base < base" "n mod base < 16" using assms by (simp_all add: less_le_trans [OF mod_less_divisor])
    have e: "numeral_text base n = numeral_text base (n div base) @ [''0123456789abcdef'' ! (n mod base)]"
      using False assms by (subst numeral_text.simps) simp
    show ?thesis unfolding e using IH digit_char(1) [OF m(2)] m(1)
      by (auto simp: digit_in_def digits_value_def)
  qed
qed

lemma take_all: "list_all P xs \<Longrightarrow> takeWhile P xs = xs"
  by (auto simp: list_all_iff)

text \<open>Behind the sign and the prefix.\<close>

lemma strtoull_digits:
  assumes "2 \<le> base" "base \<le> 16" "take_sign (dropWhile isspace s) = (False, s')" "take_base b0 s' = (base, numeral_text base n)"
  shows "strtoull b0 s = (if n < 2 ^ 64 then (of_nat n, False, Some []) else (0xFFFFFFFFFFFFFFFF, True, Some []))"
proof -
  note d = numeral_text_digits [OF assms(1,2), of n]
  have t: "takeWhile (digit_in base) (numeral_text base n) = numeral_text base n" using d by (simp only: take_all)
  have "numeral_text base n \<noteq> []" using d by auto
  then show ?thesis unfolding strtoull_def assms(3,4) Let_def prod.case t using d by simp
qed

lemma strtoull_decimal: "strtoull 10 (numeral_text 10 n) = (if n < 2 ^ 64 then (of_nat n, False, Some []) else (0xFFFFFFFFFFFFFFFF, True, Some []))"
proof (rule strtoull_digits)
  obtain d cs where "d < 16" "numeral_text 10 n = ''0123456789abcdef'' ! d # cs" using numeral_text_digits [of 10 n] by auto
  then show "take_sign (dropWhile isspace (numeral_text 10 n)) = (False, numeral_text 10 n)"
    using digit_char by (simp add: take_sign_def)
qed (simp_all add: take_base_def)

lemma strtoull_hex: "strtoull 0 (''0x'' @ numeral_text 16 n) = (if n < 2 ^ 64 then (of_nat n, False, Some []) else (0xFFFFFFFFFFFFFFFF, True, Some []))"
proof (rule strtoull_digits)
  show "take_sign (dropWhile isspace (''0x'' @ numeral_text 16 n)) = (False, ''0x'' @ numeral_text 16 n)"
    by (simp add: isspace_def take_sign_def)
  show "take_base 0 (''0x'' @ numeral_text 16 n) = (16, numeral_text 16 n)"
    using numeral_text_digits [of 16 n] by (auto simp: take_base_def split: list.split)
qed simp_all

lemma parse_text:
  shows parse_max_insns_text: "parse_max_insns (numeral_text 10 n) = (if n < 2 ^ 64 then Some (of_nat n) else None)"
    and parse_mib_text: "parse_mib (numeral_text 10 n) = (if 0 < n \<and> n \<le> 2 ^ 32 then Some (of_nat n) else None)"
    and parse_entry_text: "parse_entry (''0x'' @ numeral_text 16 n) = (if n < 2 ^ 64 then Some (of_nat n) else None)"
proof -
  show "parse_max_insns (numeral_text 10 n) = (if n < 2 ^ 64 then Some (of_nat n) else None)"
    by (simp add: parse_max_insns_def strtoull_decimal)
  show "parse_entry (''0x'' @ numeral_text 16 n) = (if n < 2 ^ 64 then Some (of_nat n) else None)"
    unfolding parse_entry_def strtoull_hex by simp
  show "parse_mib (numeral_text 10 n) = (if 0 < n \<and> n \<le> 2 ^ 32 then Some (of_nat n) else None)"
  proof (cases "n < 2 ^ 64")
    case True
    then have "unat (of_nat n :: u64) = n" by (simp add: unat_of_nat)
    then have "(of_nat n :: u64) = 0 \<longleftrightarrow> n = 0" "(of_nat n :: u64) > 0x100000000 \<longleftrightarrow> 2 ^ 32 < n"
      by (auto simp: word_less_nat_alt unat_eq_zero)
    then show ?thesis using True by (auto simp: parse_mib_def strtoull_decimal)
  qed (simp add: parse_mib_def strtoull_decimal)
qed

section \<open>Options read back\<close>

text \<open>The options as values, the way each is written, and what it asks for.\<close>

datatype boot_opt =
    Append string
  | Dtb string
  | Initrd string
  | Mib u64
  | Serial_File string
  | Serial_Stdio
  | Entry u64
  | Max_Insns u64

primrec render :: "boot_opt \<Rightarrow> string list" where
  "render (Append s) = [''-append'', s]"
| "render (Dtb f) = [''-dtb'', f]"
| "render (Initrd f) = [''-initrd'', f]"
| "render (Mib n) = [''-m'', numeral_text 10 (unat n)]"
| "render (Serial_File f) = [''--serial'', ''file:'' @ f]"
| "render Serial_Stdio = [''-serial'', ''stdio'']"
| "render (Entry n) = [''--entry'', ''0x'' @ numeral_text 16 (unat n)]"
| "render (Max_Insns n) = [''--max-insns'', numeral_text 10 (unat n)]"

primrec asks :: "(string \<Rightarrow> host_file option) \<Rightarrow> (string \<Rightarrow> bool) \<Rightarrow> boot_opt \<Rightarrow> boot_opts \<Rightarrow> boot_opts" where
  "asks files writable (Append s) opts = opts\<lparr>bo_cmdline := Some s\<rparr>"
| "asks files writable (Dtb f) opts = opts\<lparr>bo_dtb := Some (files f)\<rparr>"
| "asks files writable (Initrd f) opts = opts\<lparr>bo_initrd := Some (files f)\<rparr>"
| "asks files writable (Mib n) opts = opts\<lparr>bo_ram_mib := n\<rparr>"
| "asks files writable (Serial_File f) opts = opts\<lparr>bo_serial := Some (writable f)\<rparr>"
| "asks files writable Serial_Stdio opts = opts\<lparr>bo_stdio := True\<rparr>"
| "asks files writable (Entry n) opts = opts\<lparr>bo_entry := n\<rparr>"
| "asks files writable (Max_Insns n) opts = opts\<lparr>bo_max_insns := n\<rparr>"

definition opt_ok :: "boot_opt \<Rightarrow> bool" where
  "opt_ok opt \<longleftrightarrow> (case opt of Mib n \<Rightarrow> 0 < n \<and> n \<le> 0x100000000 | Serial_File f \<Rightarrow> f \<noteq> [] | _ \<Rightarrow> True)"

lemma boot_args_render:
  assumes "opt_ok opt"
  shows "boot_args files writable (render opt @ rest) opts = boot_args files writable rest (asks files writable opt opts)"
proof -
  have n: "unat n < 2 ^ 64" for n :: u64 using unsigned_less [of n] by simp
  have m: "0 < unat n \<and> unat n \<le> 2 ^ 32" if "opt = Mib n" for n
    using assms that by (auto simp: opt_ok_def word_le_nat_alt word_less_nat_alt)
  show ?thesis
  proof (cases opt)
    case (Mib n)
    then show ?thesis using m by (simp add: boot_args.simps(2) parse_mib_text)
  next
    case (Serial_File f)
    then show ?thesis using assms by (simp add: boot_args.simps(2) parse_serial_def opt_ok_def)
  next
    case (Entry n)
    then show ?thesis using parse_entry_text [of "unat n"] n [of n] by (simp add: boot_args.simps(2))
  next
    case (Max_Insns n)
    then show ?thesis using n [of n] by (simp add: boot_args.simps(2) parse_max_insns_text)
  qed (simp_all add: boot_args.simps(2))
qed

lemma boot_args_renders:
  "list_all opt_ok os \<Longrightarrow> boot_args files writable (concat (map render os)) opts = Inr (fold (asks files writable) os opts)"
  by (induction os arbitrary: opts) (simp_all add: boot_args_render)

lemma parse_mib_bounds: "parse_mib s = Some n \<Longrightarrow> 0 < n \<and> n \<le> 0x100000000"
  by (auto simp: parse_mib_def word_neq_0_conv split: prod.splits if_split_asm)

text \<open>Whatever the arguments are.\<close>

definition args_read :: "host_file option \<Rightarrow> u32 + boot_opts \<Rightarrow> bool" where
  "args_read f r \<longleftrightarrow>
     (case r of
        Inl c \<Rightarrow> c = EXIT_USAGE
      | Inr opts \<Rightarrow> 0 < bo_ram_mib opts \<and> bo_ram_mib opts \<le> 0x100000000 \<and> bo_kernel opts = f)"

lemma args_read_usage: "args_read f (Inl EXIT_USAGE)"
  by (simp add: args_read_def)

text \<open>The branches of the reader one by one.\<close>

lemma args_read_branches:
  shows args_read_if: "(c \<Longrightarrow> args_read f x) \<Longrightarrow> (\<not> c \<Longrightarrow> args_read f y) \<Longrightarrow> args_read f (if c then x else y)"
    and args_read_set: "args_read f (Inr p) \<Longrightarrow> args_read f (Inr q) \<Longrightarrow> args_read f (Inr (if c then p else q))"
    and args_read_parse: "args_read f e \<Longrightarrow> (\<And>n. parsed = Some n \<Longrightarrow> args_read f (g n)) \<Longrightarrow> args_read f (case parsed of None \<Rightarrow> e | Some n \<Rightarrow> g n)"
  by (simp_all split: option.split)

lemma boot_args_outcome:
  "args_read f (Inr opts) \<Longrightarrow> args_read f (boot_args files writable args opts)"
proof (induction "length args" arbitrary: args opts rule: less_induct)
  case less
  show ?case
  proof (cases args)
    case (Cons a rest)
    have IH: "args_read f (boot_args files writable r o')" if "rest = v # r" "args_read f (Inr o')" for v r o'
      using less.hyps [of r o'] that Cons by simp
    have upd: "args_read f (Inr (opts\<lparr>bo_cmdline := c\<rparr>))" "args_read f (Inr (opts\<lparr>bo_dtb := d\<rparr>))" "args_read f (Inr (opts\<lparr>bo_initrd := d\<rparr>))"
      "args_read f (Inr (opts\<lparr>bo_serial := e\<rparr>))" "args_read f (Inr (opts\<lparr>bo_stdio := x\<rparr>))" "args_read f (Inr (opts\<lparr>bo_entry := n\<rparr>))"
      "args_read f (Inr (opts\<lparr>bo_max_insns := n\<rparr>))" "parse_mib s = Some n \<Longrightarrow> args_read f (Inr (opts\<lparr>bo_ram_mib := n\<rparr>))" for c d e x n s
      using less.prems parse_mib_bounds by (simp_all add: args_read_def)
    show ?thesis
    proof (cases rest)
      case Nil
      then show ?thesis unfolding Cons using args_read_usage by (simp add: boot_args.simps(2))
    next
      case (Cons v r)
      note IH = IH [OF Cons]
      show ?thesis unfolding \<open>args = a # rest\<close> Cons boot_args.simps(2) list.case
        by (intro args_read_if args_read_parse args_read_set IH upd args_read_usage) assumption
    qed
  qed (use less.prems in simp)
qed

lemma run_args_outcome: "\<exists>n. run_args args m = Inl EXIT_USAGE \<or> run_args args m = Inr n"
proof (induction "length args" arbitrary: args m rule: less_induct)
  case less
  show ?case
  proof (cases args)
    case (Cons a rest)
    have "\<exists>n. run_args r m' = Inl EXIT_USAGE \<or> run_args r m' = Inr n" if "rest = v # r" for v r m'
      using less.hyps [of r m'] that Cons by simp
    then show ?thesis unfolding Cons by (auto simp: run_args.simps(2) split: list.split option.split)
  qed simp
qed

text \<open>The shape of the program: two ways to end at once and two commands.\<close>

lemma command_choice:
  "r = (if a then x else if b then if c then y else z else if d then y else w) \<Longrightarrow> r \<in> {x, y} \<or> r = z \<or> r = w"
  by (simp split: if_split_asm)

section \<open>Properties\<close>

text \<open>
  Property C13. The command line means what it says. A boot command followed by any list of options starts
  the boot with exactly these options, later ones over earlier ones; numbers come back from their decimal
  or hexadecimal spelling over their whole range. And whatever the arguments are, the program ends
  at once with 0 or 2, or boots a kernel file that was named with a RAM size between 1 MiB and
  2^32 MiB, or runs an executable that was named.
\<close>

theorem main_command_line:
  assumes "list_all opt_ok os"
  shows "main files writable bh rh h ([prog, ''boot'', ''-kernel'', k] @ concat (map render os)) =
      boot bh (fold (asks files writable) os (start_opts (files k))) h \<and>
    (main files writable bh rh h argv \<in> {Some (0, []), Some (2, [])} \<or>
     (\<exists>opts. main files writable bh rh h argv = boot bh opts h \<and> bo_kernel opts = files (argv ! 3) \<and>
        0 < bo_ram_mib opts \<and> bo_ram_mib opts \<le> 0x100000000) \<or>
     (\<exists>n. main files writable bh rh h argv = run (rh\<lparr>rh_file := files (argv ! 2)\<rparr>) h n))"
proof
  show "main files writable bh rh h ([prog, ''boot'', ''-kernel'', k] @ concat (map render os)) =
      boot bh (fold (asks files writable) os (start_opts (files k))) h"
    by (simp add: main_def boot_args_renders [OF assms])
  have "0 < bo_ram_mib (start_opts f) \<and> bo_ram_mib (start_opts f) \<le> 0x100000000" "bo_kernel (start_opts f) = f" for f
    by (simp_all add: start_opts_def)
  then have b: "boot_args files writable args (start_opts f) = Inl 2 \<or>
      (\<exists>opts. boot_args files writable args (start_opts f) = Inr opts \<and> bo_kernel opts = f \<and> 0 < bo_ram_mib opts \<and> bo_ram_mib opts \<le> 0x100000000)" for args f
    using boot_args_outcome [of f "start_opts f" files writable args] by (auto simp: args_read_def split: sum.splits)
  show "main files writable bh rh h argv \<in> {Some (0, []), Some (2, [])} \<or>
     (\<exists>opts. main files writable bh rh h argv = boot bh opts h \<and> bo_kernel opts = files (argv ! 3) \<and>
        0 < bo_ram_mib opts \<and> bo_ram_mib opts \<le> 0x100000000) \<or>
     (\<exists>n. main files writable bh rh h argv = run (rh\<lparr>rh_file := files (argv ! 2)\<rparr>) h n)"
  proof -
    let ?b = "boot_args files writable (drop 4 argv) (start_opts (files (argv ! 3)))" and ?r = "run_args (drop 3 argv) UINT64_MAX"
    consider "main files writable bh rh h argv \<in> {Some (0, []), Some (2, [])}"
      | "main files writable bh rh h argv = (case ?b of Inl c \<Rightarrow> Some (c, []) | Inr opts \<Rightarrow> boot bh opts h)"
      | "main files writable bh rh h argv = (case ?r of Inl c \<Rightarrow> Some (c, []) | Inr n \<Rightarrow> run (rh\<lparr>rh_file := files (argv ! 2)\<rparr>) h n)"
      using command_choice [OF main_def [of files writable bh rh h argv]] by argo
    then show ?thesis
    proof cases
      case 2
      then show ?thesis using b [of "drop 4 argv" "files (argv ! 3)"] by (elim disjE exE conjE) auto
    next
      case 3
      obtain n where "?r = Inl EXIT_USAGE \<or> ?r = Inr n" using run_args_outcome by blast
      then show ?thesis using 3 by auto
    qed blast
  qed
qed

text \<open>A machine of 512 MiB with a budget, asked for the second time with a smaller one.\<close>

theorem main_command_line_witness:
  "main (\<lambda>_. None) (\<lambda>_. True) sample_host sample_run (\<lambda>_. 0) [''oemu'', ''boot'', ''-kernel'', ''Image'', ''-m'', ''512'', ''--entry'', ''0x40080000'', ''-m'', ''64''] =
     boot sample_host ((start_opts None)\<lparr>bo_entry := 0x40080000, bo_ram_mib := 64\<rparr>) (\<lambda>_. 0)"
proof -
  let ?os = "[Mib 512, Entry 0x40080000, Mib 64]"
  have "concat (map render ?os) = [''-m'', ''512'', ''--entry'', ''0x40080000'', ''-m'', ''64'']" by (simp add: numeral_text.simps)
  moreover have "list_all opt_ok ?os" by (simp add: opt_ok_def)
  ultimately show ?thesis using main_command_line [of ?os "\<lambda>_. None" "\<lambda>_. True" sample_host sample_run "\<lambda>_. 0" "''oemu''" "''Image''"] by (simp add: start_opts_def)
qed

end
