(* ===== verification/Oemu_Names.thy ===== *)
theory Oemu_Names
  imports Oemu_Insn
begin

text \<open>
  The texts the program gives its codes: \<^verbatim>\<open>oemu_opcode_name\<close> (\<^verbatim>\<open>src/decode/decode.c\<close>) and \<^verbatim>\<open>oemu_status_str\<close>
  (\<^verbatim>\<open>src/core/status.c\<close>). Both functions answer a fixed text for a value outside the enumeration, which the
  datatypes do not have. No two codes share a text, so a line of a trace names its instruction and a
  message its status.
\<close>

primrec oemu_opcode_name :: "oemu_opcode \<Rightarrow> string" where
  "oemu_opcode_name OEMU_OP_VEC_DUP = ''dup''"
| "oemu_opcode_name OEMU_OP_UNKNOWN = ''unknown''"
| "oemu_opcode_name OEMU_OP_ADD = ''add''"
| "oemu_opcode_name OEMU_OP_ADDS = ''adds''"
| "oemu_opcode_name OEMU_OP_SUB = ''sub''"
| "oemu_opcode_name OEMU_OP_SUBS = ''subs''"
| "oemu_opcode_name OEMU_OP_ADC = ''adc''"
| "oemu_opcode_name OEMU_OP_ADCS = ''adcs''"
| "oemu_opcode_name OEMU_OP_SBC = ''sbc''"
| "oemu_opcode_name OEMU_OP_SBCS = ''sbcs''"
| "oemu_opcode_name OEMU_OP_AND = ''and''"
| "oemu_opcode_name OEMU_OP_ANDS = ''ands''"
| "oemu_opcode_name OEMU_OP_ORR = ''orr''"
| "oemu_opcode_name OEMU_OP_EOR = ''eor''"
| "oemu_opcode_name OEMU_OP_BIC = ''bic''"
| "oemu_opcode_name OEMU_OP_BICS = ''bics''"
| "oemu_opcode_name OEMU_OP_ORN = ''orn''"
| "oemu_opcode_name OEMU_OP_EON = ''eon''"
| "oemu_opcode_name OEMU_OP_MOVZ = ''movz''"
| "oemu_opcode_name OEMU_OP_MOVN = ''movn''"
| "oemu_opcode_name OEMU_OP_MOVK = ''movk''"
| "oemu_opcode_name OEMU_OP_ADR = ''adr''"
| "oemu_opcode_name OEMU_OP_ADRP = ''adrp''"
| "oemu_opcode_name OEMU_OP_SBFM = ''sbfm''"
| "oemu_opcode_name OEMU_OP_BFM = ''bfm''"
| "oemu_opcode_name OEMU_OP_UBFM = ''ubfm''"
| "oemu_opcode_name OEMU_OP_EXTR = ''extr''"
| "oemu_opcode_name OEMU_OP_LSLV = ''lslv''"
| "oemu_opcode_name OEMU_OP_LSRV = ''lsrv''"
| "oemu_opcode_name OEMU_OP_ASRV = ''asrv''"
| "oemu_opcode_name OEMU_OP_RORV = ''rorv''"
| "oemu_opcode_name OEMU_OP_CRC32 = ''crc32''"
| "oemu_opcode_name OEMU_OP_CRC32C = ''crc32c''"
| "oemu_opcode_name OEMU_OP_RBIT = ''rbit''"
| "oemu_opcode_name OEMU_OP_REV16 = ''rev16''"
| "oemu_opcode_name OEMU_OP_REV32 = ''rev32''"
| "oemu_opcode_name OEMU_OP_REV = ''rev''"
| "oemu_opcode_name OEMU_OP_CLZ = ''clz''"
| "oemu_opcode_name OEMU_OP_CLS = ''cls''"
| "oemu_opcode_name OEMU_OP_UDIV = ''udiv''"
| "oemu_opcode_name OEMU_OP_SDIV = ''sdiv''"
| "oemu_opcode_name OEMU_OP_MADD = ''madd''"
| "oemu_opcode_name OEMU_OP_MSUB = ''msub''"
| "oemu_opcode_name OEMU_OP_SMADDL = ''smaddl''"
| "oemu_opcode_name OEMU_OP_SMSUBL = ''smsubl''"
| "oemu_opcode_name OEMU_OP_UMADDL = ''umaddl''"
| "oemu_opcode_name OEMU_OP_UMSUBL = ''umsubl''"
| "oemu_opcode_name OEMU_OP_SMULH = ''smulh''"
| "oemu_opcode_name OEMU_OP_UMULH = ''umulh''"
| "oemu_opcode_name OEMU_OP_CSEL = ''csel''"
| "oemu_opcode_name OEMU_OP_CSINC = ''csinc''"
| "oemu_opcode_name OEMU_OP_CSINV = ''csinv''"
| "oemu_opcode_name OEMU_OP_CSNEG = ''csneg''"
| "oemu_opcode_name OEMU_OP_CCMP = ''ccmp''"
| "oemu_opcode_name OEMU_OP_CCMN = ''ccmn''"
| "oemu_opcode_name OEMU_OP_B = ''b''"
| "oemu_opcode_name OEMU_OP_BL = ''bl''"
| "oemu_opcode_name OEMU_OP_B_COND = ''b.cond''"
| "oemu_opcode_name OEMU_OP_BR = ''br''"
| "oemu_opcode_name OEMU_OP_BLR = ''blr''"
| "oemu_opcode_name OEMU_OP_RET = ''ret''"
| "oemu_opcode_name OEMU_OP_CBZ = ''cbz''"
| "oemu_opcode_name OEMU_OP_CBNZ = ''cbnz''"
| "oemu_opcode_name OEMU_OP_TBZ = ''tbz''"
| "oemu_opcode_name OEMU_OP_TBNZ = ''tbnz''"
| "oemu_opcode_name OEMU_OP_LDR = ''ldr''"
| "oemu_opcode_name OEMU_OP_STR = ''str''"
| "oemu_opcode_name OEMU_OP_LDRS = ''ldrs''"
| "oemu_opcode_name OEMU_OP_LDP = ''ldp''"
| "oemu_opcode_name OEMU_OP_STP = ''stp''"
| "oemu_opcode_name OEMU_OP_LDPSW = ''ldpsw''"
| "oemu_opcode_name OEMU_OP_LDXR = ''ldxr''"
| "oemu_opcode_name OEMU_OP_STXR = ''stxr''"
| "oemu_opcode_name OEMU_OP_LDAR = ''ldar''"
| "oemu_opcode_name OEMU_OP_STLR = ''stlr''"
| "oemu_opcode_name OEMU_OP_SVC = ''svc''"
| "oemu_opcode_name OEMU_OP_BRK = ''brk''"
| "oemu_opcode_name OEMU_OP_HLT = ''hlt''"
| "oemu_opcode_name OEMU_OP_HVC = ''hvc''"
| "oemu_opcode_name OEMU_OP_SMC = ''smc''"
| "oemu_opcode_name OEMU_OP_ERET = ''eret''"
| "oemu_opcode_name OEMU_OP_NOP = ''nop''"
| "oemu_opcode_name OEMU_OP_HINT = ''hint''"
| "oemu_opcode_name OEMU_OP_WFI = ''wfi''"
| "oemu_opcode_name OEMU_OP_WFE = ''wfe''"
| "oemu_opcode_name OEMU_OP_BARRIER = ''barrier''"
| "oemu_opcode_name OEMU_OP_MRS = ''mrs''"
| "oemu_opcode_name OEMU_OP_MSR = ''msr''"
| "oemu_opcode_name OEMU_OP_MSR_IMM = ''msr.imm''"
| "oemu_opcode_name OEMU_OP_SYS = ''sys''"

primrec oemu_status_str :: "oemu_status \<Rightarrow> string" where
  "oemu_status_str OEMU_OK = ''ok''"
| "oemu_status_str OEMU_ERR_INVALID_ARG = ''invalid argument''"
| "oemu_status_str OEMU_ERR_NO_MEMORY = ''out of memory''"
| "oemu_status_str OEMU_ERR_OVERFLOW = ''size overflow''"
| "oemu_status_str OEMU_ERR_RANGE = ''out of range''"
| "oemu_status_str OEMU_ERR_DECODE = ''undefined instruction encoding''"
| "oemu_status_str OEMU_ERR_UNSUPPORTED = ''instruction outside the emulated subset''"
| "oemu_status_str OEMU_ERR_FAULT = ''guest memory or trap fault''"
| "oemu_status_str OEMU_ERR_TIMEOUT = ''instruction budget exhausted''"
| "oemu_status_str OEMU_ERR_BLOCKED = ''vcpu parked on wait-for-interrupt''"
| "oemu_status_str OEMU_ERR_STATE = ''call outside the object'' @ [CHR 0x27] @ ''s lifecycle''"
| "oemu_status_str OEMU_ERR_FORMAT = ''data carries the format's shape but breaks its rules''"
| "oemu_status_str OEMU_ERR_NOT_FOUND = ''looked up, not present''"
| "oemu_status_str OEMU_ERR_FULL = ''bounded resource full''"

definition opcodes :: "oemu_opcode list" where
  "opcodes =
     [OEMU_OP_VEC_DUP, OEMU_OP_UNKNOWN, OEMU_OP_ADD, OEMU_OP_ADDS, OEMU_OP_SUB, OEMU_OP_SUBS,
      OEMU_OP_ADC, OEMU_OP_ADCS, OEMU_OP_SBC, OEMU_OP_SBCS, OEMU_OP_AND, OEMU_OP_ANDS,
      OEMU_OP_ORR, OEMU_OP_EOR, OEMU_OP_BIC, OEMU_OP_BICS, OEMU_OP_ORN, OEMU_OP_EON,
      OEMU_OP_MOVZ, OEMU_OP_MOVN, OEMU_OP_MOVK, OEMU_OP_ADR, OEMU_OP_ADRP, OEMU_OP_SBFM,
      OEMU_OP_BFM, OEMU_OP_UBFM, OEMU_OP_EXTR, OEMU_OP_LSLV, OEMU_OP_LSRV, OEMU_OP_ASRV,
      OEMU_OP_RORV, OEMU_OP_CRC32, OEMU_OP_CRC32C, OEMU_OP_RBIT, OEMU_OP_REV16, OEMU_OP_REV32,
      OEMU_OP_REV, OEMU_OP_CLZ, OEMU_OP_CLS, OEMU_OP_UDIV, OEMU_OP_SDIV, OEMU_OP_MADD,
      OEMU_OP_MSUB, OEMU_OP_SMADDL, OEMU_OP_SMSUBL, OEMU_OP_UMADDL, OEMU_OP_UMSUBL, OEMU_OP_SMULH,
      OEMU_OP_UMULH, OEMU_OP_CSEL, OEMU_OP_CSINC, OEMU_OP_CSINV, OEMU_OP_CSNEG, OEMU_OP_CCMP,
      OEMU_OP_CCMN, OEMU_OP_B, OEMU_OP_BL, OEMU_OP_B_COND, OEMU_OP_BR, OEMU_OP_BLR,
      OEMU_OP_RET, OEMU_OP_CBZ, OEMU_OP_CBNZ, OEMU_OP_TBZ, OEMU_OP_TBNZ, OEMU_OP_LDR,
      OEMU_OP_STR, OEMU_OP_LDRS, OEMU_OP_LDP, OEMU_OP_STP, OEMU_OP_LDPSW, OEMU_OP_LDXR,
      OEMU_OP_STXR, OEMU_OP_LDAR, OEMU_OP_STLR, OEMU_OP_SVC, OEMU_OP_BRK, OEMU_OP_HLT,
      OEMU_OP_HVC, OEMU_OP_SMC, OEMU_OP_ERET, OEMU_OP_NOP, OEMU_OP_HINT, OEMU_OP_WFI,
      OEMU_OP_WFE, OEMU_OP_BARRIER, OEMU_OP_MRS, OEMU_OP_MSR, OEMU_OP_MSR_IMM, OEMU_OP_SYS]"

definition statuses :: "oemu_status list" where
  "statuses =
     [OEMU_OK, OEMU_ERR_INVALID_ARG, OEMU_ERR_NO_MEMORY, OEMU_ERR_OVERFLOW,
      OEMU_ERR_RANGE, OEMU_ERR_DECODE, OEMU_ERR_UNSUPPORTED, OEMU_ERR_FAULT,
      OEMU_ERR_TIMEOUT, OEMU_ERR_BLOCKED, OEMU_ERR_STATE, OEMU_ERR_FORMAT,
      OEMU_ERR_NOT_FOUND, OEMU_ERR_FULL]"

lemma codes_complete: "set opcodes = UNIV" "set statuses = UNIV"
proof -
  have "op \<in> set opcodes" for op by (cases op) (simp_all add: opcodes_def)
  then show "set opcodes = UNIV" by blast
  have "st \<in> set statuses" for st by (cases st) (simp_all add: statuses_def)
  then show "set statuses = UNIV" by blast
qed

lemma names_distinct: "distinct (map oemu_opcode_name opcodes)" "distinct (map oemu_status_str statuses)"
  unfolding opcodes_def statuses_def list.map oemu_opcode_name.simps oemu_status_str.simps append.simps by code_simp+

lemma texts_tell_codes: "oemu_opcode_name a = oemu_opcode_name b \<longleftrightarrow> a = b" "oemu_status_str s = oemu_status_str t \<longleftrightarrow> s = t"
  using names_distinct codes_complete by (auto simp: distinct_map inj_on_def)

end
