(* ===== verification/Spec2Isabelle.thy ===== *)
theory Spec2Isabelle
  imports Oemu_Decode_Props Oemu_Exec_Props Oemu_Arith_Props Oemu_Gicv2 Oemu_Pl011 Oemu_Psci Oemu_Elf Oemu_Image
    Oemu_Virt_Dtb Oemu_Main Oemu_Names
begin

text \<open>
  A verification library for \<^bold>\<open>oemu\<close>, an AArch64 emulator in C. The program has two faces. The user-mode
  emulator loads an ELF executable into flat guest memory and interprets its instructions, answering a
  few system calls. The system emulator builds a machine with RAM, an interrupt controller and a serial
  port, loads a Linux kernel image with a device tree, and runs a virtual CPU with exceptions, address
  translation and interrupts. Both share the decoder, the register file and the instruction handlers.

  \<^bold>\<open>Conventions.\<close> A C integer of width \<open>w\<close> is a word of \<open>w\<close> bits and wraps as in C; sizes that cannot wrap are
  natural numbers. A struct is a record, an enumeration a datatype. A function that fails returns a
  status beside the new state, or a sum with the status on the left. \<^verbatim>\<open>OEMU_REQUIRE\<close> aborts the process, so
  a function that can reach one returns an option in which \<^const>\<open>None\<close> is the abort: a theorem that the
  result is \<^const>\<open>Some\<close> says that no contract check fires. Mutable objects are passed and returned. Host
  memory is a map from addresses to bytes, so that regions which share storage are seen to. A callback
  is a function in a record, and the objects it reaches are a type variable.

  \<^bold>\<open>Host parameters.\<close> What the program gets from outside is an argument: the blocks the allocator returns,
  the console and clock of the host, the bytes an uninitialised fault record holds (\<open>f0\<close>), the physical bus
  under the translation layer, the sink of the serial port, the files that were read.

  \<^bold>\<open>Theories and source files.\<close>
  \<^item> \<^verbatim>\<open>Oemu_Prelude\<close>, \<^verbatim>\<open>Oemu_Words\<close>, \<^verbatim>\<open>Oemu_Bytes\<close>: words, statuses (\<^verbatim>\<open>include/oemu/status.h\<close>, \<^verbatim>\<open>check.h\<close>), byte blocks.
  \<^item> \<^verbatim>\<open>Oemu_Regs\<close>: \<^verbatim>\<open>src/regs/regs.c\<close>; the register file, flags, AddWithCarry and conditions, against the
    architecture's arithmetic.
  \<^item> \<^verbatim>\<open>Oemu_Insn\<close>, \<^verbatim>\<open>Oemu_Decode\<close>, \<^verbatim>\<open>Oemu_Decode_Wf\<close>, \<^verbatim>\<open>Oemu_Decode_Props\<close>: \<^verbatim>\<open>src/decode/decode.c\<close>; one function per
    encoding group, what every decoded instruction guarantees, bitmask immediates, the outcome of every
    word at every address.
  \<^item> \<^verbatim>\<open>Oemu_Bus\<close>, \<^verbatim>\<open>Oemu_Device\<close>: \<^verbatim>\<open>include/oemu/memops.h\<close> and \<^verbatim>\<open>device.h\<close>; the seams between components as
    records of operations and their contracts as the locales \<open>bus\<close> and \<open>device\<close>.
  \<^item> \<^verbatim>\<open>Oemu_Memory\<close>: \<^verbatim>\<open>src/memory/memory.c\<close>; flat guest memory over the host heap, an instance of \<open>bus\<close>.
  \<^item> \<^verbatim>\<open>Oemu_Alu\<close>, \<^verbatim>\<open>Oemu_Exec\<close>, \<^verbatim>\<open>Oemu_Exec_Safe\<close>, \<^verbatim>\<open>Oemu_Exec_Props\<close>, \<^verbatim>\<open>Oemu_Arith_Props\<close>: \<^verbatim>\<open>src/exec/exec.c\<close>; the
    handlers, dispatch, step and run; safety on any \<open>bus\<close> with a well-behaved environment (locale \<open>bus_env\<close>);
    what single instructions and short programs compute.
  \<^item> \<^verbatim>\<open>Oemu_Sysenv\<close>: \<^verbatim>\<open>src/core/sysenv.c\<close>; the system calls, with the locale \<open>user_bus\<close> and its sublocale relation
    to \<open>bus_env\<close>.
  \<^item> \<^verbatim>\<open>Oemu_Sysreg\<close>: \<^verbatim>\<open>src/sysreg/sysreg.c\<close>, \<^verbatim>\<open>src/dev/gtimer.c\<close>; the register table row by row, banks and timers.
  \<^item> \<^verbatim>\<open>Oemu_Exc\<close>: \<^verbatim>\<open>src/exc/exc.c\<close>; exception entry, return, routing and syndromes.
  \<^item> \<^verbatim>\<open>Oemu_Aspace\<close>: \<^verbatim>\<open>src/aspace/aspace.c\<close>; the physical address space with RAM and devices, related to flat memory.
  \<^item> \<^verbatim>\<open>Oemu_Mmu\<close>, \<^verbatim>\<open>Oemu_Mmu_Props\<close>, \<^verbatim>\<open>Oemu_Mmu_Off\<close>: \<^verbatim>\<open>src/mmu/mmu.c\<close>; the table walk, the cache that never changes an
    answer, fault records; with stage 1 off the translated bus keeps the contract of the physical one
    (locale \<open>physical\<close>).
  \<^item> \<^verbatim>\<open>Oemu_System\<close>: the system-mode dispatch of \<^verbatim>\<open>src/exec/exec.c\<close>.
  \<^item> \<^verbatim>\<open>Oemu_Vcpu\<close>, \<^verbatim>\<open>Oemu_Vcpu_Safe\<close>, \<^verbatim>\<open>Oemu_Vcpu_Props\<close>: \<^verbatim>\<open>src/vcpu/vcpu.c\<close>; step, run and interrupt delivery, over
    all of the above.
  \<^item> \<^verbatim>\<open>Oemu_Gicv2\<close>, \<^verbatim>\<open>Oemu_Pl011\<close>: \<^verbatim>\<open>src/dev/gicv2.c\<close>, \<^verbatim>\<open>src/dev/pl011.c\<close>; both are instances of \<open>device\<close>; the priority
    scan and nesting of interrupts, every operation of the port on its two queues.
  \<^item> \<^verbatim>\<open>Oemu_Psci\<close>: \<^verbatim>\<open>src/fw/psci.c\<close>, joined with the virtual CPU.
  \<^item> \<^verbatim>\<open>Oemu_Machine\<close>, \<^verbatim>\<open>Oemu_Image\<close>, \<^verbatim>\<open>Oemu_Elf\<close>: \<^verbatim>\<open>src/machine/machine.c\<close>, \<^verbatim>\<open>src/kernel/image.c\<close>, \<^verbatim>\<open>src/elf/elf.c\<close>;
    construction of a machine and the two loaders, with what is in memory afterwards.
  \<^item> \<^verbatim>\<open>Oemu_Fdt\<close>, \<^verbatim>\<open>Oemu_Virt_Dtb\<close>: \<^verbatim>\<open>src/fdt/fdt.c\<close>, \<^verbatim>\<open>src/dev/virt_dtb.c\<close>; the device tree builder and reader as
    a round trip over any tree, with the lookup by names in the tree as the specification of the reader, and
    the tree of the machine written out.
  \<^item> \<^verbatim>\<open>Oemu_Buffer\<close>: \<^verbatim>\<open>src/buffer/buffer.c\<close>, \<^verbatim>\<open>src/core/allocator.c\<close>; the growable buffer as a list, over any
    allocator that keeps the locale \<open>allocator\<close>.
  \<^item> \<^verbatim>\<open>Oemu_Run\<close>: the \<^verbatim>\<open>run\<close> command of \<^verbatim>\<open>src/main.c\<close>, which joins the buffer, the loader, flat memory, the
    interpreter and the system calls.
  \<^item> \<^verbatim>\<open>Oemu_Boot_Run\<close>, \<^verbatim>\<open>Oemu_Boot\<close>: the \<^verbatim>\<open>boot\<close> command of \<^verbatim>\<open>src/main.c\<close>: the run loop with its interrupt lines and
    console; the device tree generated or loaded and patched, the machine with its devices, and what the
    kernel finds in RAM and registers when it starts.
  \<^item> \<^verbatim>\<open>Oemu_Main\<close>: the command line of \<^verbatim>\<open>src/main.c\<close>, from the arguments to the commands; every list of options is
    read back.
  \<^item> \<^verbatim>\<open>Oemu_Names\<close>: the texts of opcodes and statuses (\<^verbatim>\<open>src/decode/decode.c\<close>, \<^verbatim>\<open>src/core/status.c\<close>), one to one.

  \<^bold>\<open>Interfaces.\<close> Each locale is interpreted on the model: \<open>bus\<close> by flat memory (\<open>flat_bus\<close>) and by the RAM of an
  address space (\<open>ram_bus\<close>); \<open>physical\<close> by both (\<open>flat_phys\<close>, \<open>ram_phys\<close>), which makes the translated bus a \<open>bus\<close>
  again; \<open>user_bus\<close> by flat memory (\<open>flat_user\<close>); \<open>device\<close> by the two windows of the interrupt controller
  (\<open>gic_dist\<close>, \<open>gic_cpu\<close>) and the serial port (\<open>pl011_dev\<close>); \<open>allocator\<close> by the default allocator for every
  choice of the sizes the C library refuses (\<open>libc\<close>); \<open>env_keeps\<close>, what firmware calls keep of the environment of a virtual
  CPU, by that of the boot command (\<open>boot_keeps\<close>).

  \<^bold>\<open>Loops.\<close> The run loops recurse on the instruction budget, which the code decrements, so they need no
  further bound. The walk of the page tables, the chunked write, the page-wise probe, the pump of the
  serial port, the image copy, the growth of the buffer and the token walk of a device tree are total by
  a measure. The loop of the boot command can run for ever under a console; it is a partial function, and
  without a console it is shown to return unless an instruction trips a check of the emulator. There is no fuel that could run out unnoticed.

  \<^bold>\<open>Not modelled.\<close> Printing of diagnostics and of the instruction trace; in \<^verbatim>\<open>src/main.c\<close> the calls
  that set the terminal (their effect on the blocking read is modelled), the source of entropy, the system calls that open and read files (a file is the list of the
  chunks read) and the memory dump for debugging; \<^verbatim>\<open>src/core/version.c\<close>, a string literal.
\<close>

end
